(* ===== verification/Prelude.thy ===== *)
theory Prelude
  imports Main "HOL-Library.Char_ord" "HOL-Library.List_Lexorder" "HOL-Library.Sublist"
    "HOL-Library.AList" "HOL-Library.Multiset" "HOL-Library.Word"
begin

text \<open>
  Shared ground of the development: Go's machine integers and clock values, association
  lists standing for Go maps that are iterated, order-preserving deduplication (the
  \<^verbatim>\<open>seen map\<close> idiom of the normalisers), positional digits, and the collections of
  lemmas the component theories simplify with.
\<close>

named_theorems go_simps \<open>unfolding rules for the Go library functions\<close>
named_theorems alist_simps \<open>association lists as maps\<close>

section \<open>Machine integers and time\<close>

text \<open>
  Go's \<^verbatim>\<open>int\<close> and \<^verbatim>\<open>int64\<close> (hence \<^verbatim>\<open>time.Duration\<close>) have 64 bits and wrap
  around. A value is an \<open>int\<close> in range; \<open>wrap64\<close> is applied after every operation of the
  source whose overflow is reachable.
\<close>

definition wrap64 :: "int \<Rightarrow> int" where
  "wrap64 x = (x + 2 ^ 63) mod 2 ^ 64 - 2 ^ 63"

definition max_int64 :: int where
  "max_int64 = 2 ^ 63 - 1"

definition min_int64 :: int where
  "min_int64 = - (2 ^ 63)"

lemma wrap64_id: "min_int64 \<le> x \<Longrightarrow> x \<le> max_int64 \<Longrightarrow> wrap64 x = x"
  by (simp add: wrap64_def min_int64_def max_int64_def)

lemma wrap64_range: "min_int64 \<le> wrap64 x \<and> wrap64 x \<le> max_int64"
proof -
  have "0 \<le> (x + 2 ^ 63) mod 2 ^ 64" and "(x + 2 ^ 63) mod 2 ^ 64 < 2 ^ 64"
    by simp_all
  then show ?thesis by (simp add: wrap64_def min_int64_def max_int64_def)
qed

text \<open>
  \<^verbatim>\<open>time.Time\<close> is the number of nanoseconds since the zero time (year 1), which is
  therefore \<open>0\<close>. \<^verbatim>\<open>Time.Sub\<close> saturates at the bounds of \<^verbatim>\<open>time.Duration\<close>.
\<close>

type_synonym time = int
type_synonym duration = int

definition zero_time :: time where
  "zero_time = 0"

definition second :: duration where
  "second = 1000000000"

definition time_is_zero :: "time \<Rightarrow> bool" where
  "time_is_zero t = (t = zero_time)"

definition time_sub :: "time \<Rightarrow> time \<Rightarrow> duration" where
  "time_sub t u = max min_int64 (min max_int64 (t - u))"

lemma time_sub_eq:
  "min_int64 \<le> t - u \<Longrightarrow> t - u \<le> max_int64 \<Longrightarrow> time_sub t u = t - u"
  by (simp add: time_sub_def)

lemma time_sub_pos_iff: "0 < time_sub t u \<longleftrightarrow> u < t"
  by (auto simp: time_sub_def min_int64_def max_int64_def)

lemma time_sub_less_iff:
  "0 < d \<Longrightarrow> d \<le> max_int64 \<Longrightarrow> time_sub t u < d \<longleftrightarrow> t - u < d"
  by (auto simp: time_sub_def min_int64_def max_int64_def)

lemma time_sub_gr_iff:
  "0 \<le> d \<Longrightarrow> d < max_int64 \<Longrightarrow> d < time_sub t u \<longleftrightarrow> d < t - u"
  by (auto simp: time_sub_def min_int64_def max_int64_def)

section \<open>Positional digits\<close>

text \<open>The \<open>k\<close> digits of \<open>n\<close> in base \<open>b\<close>, most significant first, and back.\<close>

fun digs :: "nat \<Rightarrow> nat \<Rightarrow> nat \<Rightarrow> nat list" where
  "digs b 0 n = []"
| "digs b (Suc k) n = digs b k (n div b) @ [n mod b]"

definition undigs :: "nat \<Rightarrow> nat list \<Rightarrow> nat" where
  "undigs b ds = foldl (\<lambda>a d. a * b + d) 0 ds"

lemma undigs_snoc [simp]: "undigs b (ds @ [d]) = undigs b ds * b + d"
  by (simp add: undigs_def)

lemma undigs_Nil [simp]: "undigs b [] = 0"
  by (simp add: undigs_def)

lemma length_digs [simp]: "length (digs b k n) = k"
  by (induction k arbitrary: n) auto

lemma digs_bound: "0 < b \<Longrightarrow> d \<in> set (digs b k n) \<Longrightarrow> d < b"
  by (induction k arbitrary: n) auto

lemma undigs_digs: "0 < b \<Longrightarrow> n < b ^ k \<Longrightarrow> undigs b (digs b k n) = n"
proof (induction k arbitrary: n)
  case 0
  then show ?case by simp
next
  case (Suc k)
  have "n div b < b ^ k"
    using Suc.prems by (simp add: less_mult_imp_div_less mult.commute)
  with Suc.IH Suc.prems have "undigs b (digs b k (n div b)) = n div b" by simp
  then show ?case by simp
qed

lemma digs_undigs:
  "\<forall>d \<in> set ds. d < b \<Longrightarrow> length ds = k \<Longrightarrow> digs b k (undigs b ds) = ds"
proof (induction ds arbitrary: k rule: rev_induct)
  case Nil
  then show ?case by simp
next
  case (snoc d ds)
  then obtain k' where k: "k = Suc k'" by auto
  from snoc.prems have "d < b" by simp
  then have "(undigs b ds * b + d) div b = undigs b ds" and "(undigs b ds * b + d) mod b = d"
    by auto
  moreover from snoc k have "digs b k' (undigs b ds) = ds" by auto
  ultimately show ?case by (simp add: k)
qed

lemma undigs_bound: "\<forall>d \<in> set ds. d < b \<Longrightarrow> undigs b ds < b ^ length ds"
proof (induction ds rule: rev_induct)
  case Nil
  then show ?case by simp
next
  case (snoc d ds)
  then have u: "undigs b ds < b ^ length ds" and d: "d < b" by auto
  then have "Suc (undigs b ds) * b \<le> b ^ length ds * b"
    by (intro mult_le_mono1) simp
  with d show ?case by (simp add: algebra_simps)
qed

text \<open>The same over binary integers, for evaluation.\<close>

fun digs_int :: "int \<Rightarrow> nat \<Rightarrow> int \<Rightarrow> nat list" where
  "digs_int b 0 n = []"
| "digs_int b (Suc k) n = digs_int b k (n div b) @ [nat (n mod b)]"

definition undigs_int :: "int \<Rightarrow> nat list \<Rightarrow> int" where
  "undigs_int b ds = foldl (\<lambda>a d. a * b + int d) 0 ds"

lemma digs_int_eq: "digs_int (int b) k (int n) = digs b k n"
  by (induction k arbitrary: n) (simp_all flip: zdiv_int zmod_int)

lemma undigs_int_eq: "undigs_int (int b) ds = int (undigs b ds)"
  by (induction ds rule: rev_induct) (simp_all add: undigs_int_def)

section \<open>Go maps that are iterated: association lists\<close>

text \<open>
  A Go map that the code ranges over is an association list with distinct keys; its order
  is one order the runtime may choose. \<open>map_of\<close> abstracts it to a partial function.
\<close>

definition al_get :: "('k \<times> 'v) list \<Rightarrow> 'k \<Rightarrow> 'v option" where
  "al_get m k = map_of m k"

definition al_put :: "'k \<Rightarrow> 'v \<Rightarrow> ('k \<times> 'v) list \<Rightarrow> ('k \<times> 'v) list" where
  "al_put k v m = AList.update k v m"

definition al_del :: "'k \<Rightarrow> ('k \<times> 'v) list \<Rightarrow> ('k \<times> 'v) list" where
  "al_del k m = AList.delete k m"

definition al_ok :: "('k \<times> 'v) list \<Rightarrow> bool" where
  "al_ok m = distinct (map fst m)"

lemma al_get_put [alist_simps]: "al_get (al_put k v m) k' = (if k' = k then Some v else al_get m k')"
  by (simp add: al_get_def al_put_def update_conv)

lemma al_get_del [alist_simps]: "al_get (al_del k m) k' = (if k' = k then None else al_get m k')"
  by (simp add: al_get_def al_del_def delete_conv)

lemma al_get_Nil [alist_simps]: "al_get [] k = None"
  by (simp add: al_get_def)

lemma al_ok_Nil [simp]: "al_ok []"
  by (simp add: al_ok_def)

lemma al_ok_put [intro]: "al_ok m \<Longrightarrow> al_ok (al_put k v m)"
  by (simp add: al_ok_def al_put_def distinct_update)

lemma al_ok_del [intro]: "al_ok m \<Longrightarrow> al_ok (al_del k m)"
  by (simp add: al_ok_def al_del_def distinct_delete)

lemma al_get_in: "al_get m k = Some v \<Longrightarrow> (k, v) \<in> set m"
  by (simp add: al_get_def map_of_SomeD)

lemma al_get_iff: "al_ok m \<Longrightarrow> al_get m k = Some v \<longleftrightarrow> (k, v) \<in> set m"
  by (simp add: al_get_def al_ok_def)

lemma al_get_ext: "al_ok m \<Longrightarrow> al_ok m' \<Longrightarrow> al_get m = al_get m' \<Longrightarrow> set m = set m'"
  by (auto simp: al_get_iff [symmetric])

lemma al_ok_filter [intro]: "al_ok m \<Longrightarrow> al_ok (filter P m)"
  by (simp add: al_ok_def distinct_map_filter)

lemma al_get_filter:
  "al_ok m \<Longrightarrow> al_get (filter P m) k =
     (case al_get m k of Some v \<Rightarrow> if P (k, v) then Some v else None | None \<Rightarrow> None)"
proof (induction m)
  case Nil
  then show ?case by (simp add: al_get_def)
next
  case (Cons a m)
  then have fresh: "map_of m (fst a) = None" and ok: "al_ok m"
    by (auto simp: al_ok_def map_of_eq_None_iff)
  then have "map_of (filter P m) (fst a) = None"
    using Cons.IH [of] by (auto simp: map_of_eq_None_iff)
  with Cons.IH ok fresh show ?case
    by (cases a) (auto simp: al_get_def split: option.splits)
qed

lemma al_put_fresh: "k \<notin> fst ` set m \<Longrightarrow> al_put k v m = m @ [(k, v)]"
  unfolding al_put_def by (induction m) auto

lemma al_del_fresh: "k \<notin> fst ` set m \<Longrightarrow> al_del k m = m"
  unfolding al_del_def by (rule delete_id)

lemma map_fst_al_put:
  "map fst (al_put k v m) = (if k \<in> fst ` set m then map fst m else map fst m @ [k])"
  by (simp add: al_put_def update_keys)

section \<open>Order-preserving deduplication\<close>

text \<open>
  The normalisers of the source walk a list with a \<^verbatim>\<open>seen\<close> map: skip what the mapping
  \<open>f\<close> rejects, skip a key already seen, append the rest.
\<close>

fun dedup_on :: "('b \<Rightarrow> 'k) \<Rightarrow> ('a \<Rightarrow> 'b option) \<Rightarrow> 'k list \<Rightarrow> 'a list \<Rightarrow> 'b list" where
  "dedup_on key f seen [] = []"
| "dedup_on key f seen (x # xs) =
     (case f x of
        None \<Rightarrow> dedup_on key f seen xs
      | Some y \<Rightarrow> if key y \<in> set seen then dedup_on key f seen xs
                  else y # dedup_on key f (key y # seen) xs)"

lemma dedup_on_keys_fresh:
  "y \<in> set (dedup_on key f seen xs) \<Longrightarrow> key y \<notin> set seen"
  by (induction xs arbitrary: seen) (fastforce split: option.splits if_splits)+

lemma dedup_on_distinct: "distinct (map key (dedup_on key f seen xs))"
proof (induction xs arbitrary: seen)
  case Nil
  then show ?case by simp
next
  case (Cons x xs)
  then show ?case
    by (auto split: option.splits dest: dedup_on_keys_fresh)
qed

lemma dedup_on_sound:
  "y \<in> set (dedup_on key f seen xs) \<Longrightarrow> \<exists>x \<in> set xs. f x = Some y"
  by (induction xs arbitrary: seen) (auto split: option.splits if_splits)

lemma dedup_on_complete:
  "x \<in> set xs \<Longrightarrow> f x = Some y \<Longrightarrow> key y \<notin> set seen \<Longrightarrow>
     \<exists>y' \<in> set (dedup_on key f seen xs). key y' = key y"
proof (induction xs arbitrary: seen)
  case Nil
  then show ?case by simp
next
  case (Cons a xs)
  show ?case
  proof (cases "f a")
    case None
    with Cons show ?thesis by auto
  next
    case (Some b)
    show ?thesis
    proof (cases "key b \<in> set seen")
      case True
      with Cons Some show ?thesis by auto
    next
      case False
      then show ?thesis
        using Cons Some by (cases "key y = key b") auto
    qed
  qed
qed

text \<open>With an injective key the deduplicated list holds exactly the accepted elements.\<close>

lemma dedup_on_set:
  assumes inj: "\<And>x x' y y'. x \<in> set xs \<Longrightarrow> x' \<in> set xs \<Longrightarrow> f x = Some y \<Longrightarrow> f x' = Some y' \<Longrightarrow>
      key y = key y' \<Longrightarrow> y = y'"
  shows "set (dedup_on key f [] xs) = {y. \<exists>x \<in> set xs. f x = Some y}"
proof (intro set_eqI iffI)
  fix y
  assume "y \<in> set (dedup_on key f [] xs)"
  then show "y \<in> {y. \<exists>x \<in> set xs. f x = Some y}"
    by (auto dest: dedup_on_sound)
next
  fix y
  assume "y \<in> {y. \<exists>x \<in> set xs. f x = Some y}"
  then obtain x where x: "x \<in> set xs" "f x = Some y" by auto
  with dedup_on_complete [of x xs f y key "[]"]
  obtain y' where y': "y' \<in> set (dedup_on key f [] xs)" "key y' = key y" by auto
  moreover from y'(1) obtain x' where "x' \<in> set xs" "f x' = Some y'"
    by (auto dest: dedup_on_sound)
  ultimately show "y \<in> set (dedup_on key f [] xs)"
    using inj [of x' x y' y] x by auto
qed

text \<open>A list already normalised is a fixed point.\<close>

lemma dedup_on_id:
  "\<forall>x \<in> set xs. f x = Some (g x) \<Longrightarrow> distinct (map (key \<circ> g) xs) \<Longrightarrow>
     \<forall>x \<in> set xs. key (g x) \<notin> set seen \<Longrightarrow> dedup_on key f seen xs = map g xs"
proof (induction xs arbitrary: seen)
  case Nil
  then show ?case by simp
next
  case (Cons a xs)
  have "dedup_on key f (key (g a) # seen) xs = map g xs"
    using Cons.prems by (intro Cons.IH) (auto simp: image_iff)
  with Cons.prems show ?case by simp
qed

section \<open>Keeping what a partial function accepts\<close>

lemma map_filter_append: "List.map_filter f (xs @ ys) = List.map_filter f xs @ List.map_filter f ys"
  by (simp add: List.map_filter_def)

lemma set_map_filter: "y \<in> set (List.map_filter f xs) \<longleftrightarrow> (\<exists>x \<in> set xs. f x = Some y)"
  by (force simp: List.map_filter_def)

lemma map_filter_Nil [simp]: "List.map_filter f [] = []"
  by (simp add: List.map_filter_def)

lemma map_filter_Cons [simp]:
  "List.map_filter f (x # xs) = (case f x of None \<Rightarrow> List.map_filter f xs | Some y \<Rightarrow> y # List.map_filter f xs)"
  by (simp add: List.map_filter_def split: option.split)

end
