(* ===== verification/GoStrings.thy ===== *)
theory GoStrings
  imports Prelude
begin

text \<open>
  The functions of Go's packages \<^verbatim>\<open>strings\<close>, \<^verbatim>\<open>strconv\<close>, \<^verbatim>\<open>net\<close> and \<^verbatim>\<open>path\<close> that the source
  uses, on byte strings (a Go string is a sequence of bytes: here a \<open>char list\<close>, one
  \<open>char\<close> per byte). \<^verbatim>\<open>strings.ToLower\<close> and \<^verbatim>\<open>strings.ToUpper\<close> are exact on ASCII strings;
  on other strings they need the case tables generated into package \<^verbatim>\<open>unicode\<close>, which are
  the parameter \<open>unicode\<close>.
\<close>

section \<open>Bytes\<close>

definition byte :: "char \<Rightarrow> nat" where
  "byte c = of_char c"

lemma byte_bound: "byte c < 256"
proof -
  have "of_char c mod (256 :: nat) = of_char c" by simp
  then show ?thesis unfolding byte_def by (metis mod_less_divisor zero_less_numeral)
qed

lemma byte_inj [simp]: "byte c = byte d \<longleftrightarrow> c = d"
  by (simp add: byte_def)

lemma byte_char_of [simp]: "n < 256 \<Longrightarrow> byte (char_of n) = n"
  by (simp add: byte_def)

lemma char_of_byte [simp]: "char_of (byte c) = c"
  by (simp add: byte_def)

definition is_digit :: "char \<Rightarrow> bool" where
  "is_digit c = (48 \<le> byte c \<and> byte c \<le> 57)"

definition digit_val :: "char \<Rightarrow> nat" where
  "digit_val c = byte c - 48"

definition digit_char :: "nat \<Rightarrow> char" where
  "digit_char d = char_of (d + 48)"

lemma digit_char_props [simp]:
  "d < 10 \<Longrightarrow> is_digit (digit_char d)" "d < 10 \<Longrightarrow> digit_val (digit_char d) = d"
  by (simp_all add: is_digit_def digit_val_def digit_char_def)

lemma digit_val_bound: "is_digit c \<Longrightarrow> digit_val c < 10"
  by (auto simp: is_digit_def digit_val_def)

lemma digit_char_val [simp]: "is_digit c \<Longrightarrow> digit_char (digit_val c) = c"
  by (simp add: is_digit_def digit_val_def digit_char_def)

definition is_ascii :: "string \<Rightarrow> bool" where
  "is_ascii s = list_all (\<lambda>c. byte c < 128) s"

section \<open>Case mapping\<close>

text \<open>
  The letters \<^verbatim>\<open>A\<close> to \<^verbatim>\<open>Z\<close>, which is \<^verbatim>\<open>lowerASCII\<close> of \<^verbatim>\<open>handler.go\<close> and
  \<^verbatim>\<open>lowerASCIIByte\<close> of the WAF, and the Unicode tables for everything else.
\<close>

definition lowerASCII :: "char \<Rightarrow> char" where
  "lowerASCII b = (if 65 \<le> byte b \<and> byte b \<le> 90 then char_of (byte b + 32) else b)"

definition upperASCII :: "char \<Rightarrow> char" where
  "upperASCII b = (if 97 \<le> byte b \<and> byte b \<le> 122 then char_of (byte b - 32) else b)"

record unicode =
  uc_lower :: "string \<Rightarrow> string"
  uc_upper :: "string \<Rightarrow> string"

text \<open>Case tables that change nothing, for evaluation on ASCII texts.\<close>

definition plain_unicode :: unicode where
  "plain_unicode = \<lparr>uc_lower = (\<lambda>s. s), uc_upper = (\<lambda>s. s)\<rparr>"

definition to_lower :: "unicode \<Rightarrow> string \<Rightarrow> string" where
  "to_lower U s = (if is_ascii s then map lowerASCII s else uc_lower U s)"

definition to_upper :: "unicode \<Rightarrow> string \<Rightarrow> string" where
  "to_upper U s = (if is_ascii s then map upperASCII s else uc_upper U s)"

lemma byte_lowerASCII:
  "byte (lowerASCII b) = (if 65 \<le> byte b \<and> byte b \<le> 90 then byte b + 32 else byte b)"
  by (simp add: lowerASCII_def)

lemma lowerASCII_idem [simp]: "lowerASCII (lowerASCII b) = lowerASCII b"
  by (simp add: lowerASCII_def)

lemma is_ascii_lower [simp]: "is_ascii (map lowerASCII s) = is_ascii s"
  by (auto simp: is_ascii_def list_all_iff byte_lowerASCII)

lemma to_lower_idem [simp]: "is_ascii s \<Longrightarrow> to_lower U (to_lower U s) = to_lower U s"
  by (simp add: to_lower_def o_def)

lemma to_lower_ascii [go_simps]: "is_ascii s \<Longrightarrow> to_lower U s = map lowerASCII s"
  by (simp add: to_lower_def)

section \<open>Searching and cutting\<close>

definition hasPrefix :: "string \<Rightarrow> string \<Rightarrow> bool" where
  "hasPrefix s p = prefix p s"

definition hasSuffix :: "string \<Rightarrow> string \<Rightarrow> bool" where
  "hasSuffix s p = suffix p s"

definition trimPrefix :: "string \<Rightarrow> string \<Rightarrow> string" where
  "trimPrefix s p = (if prefix p s then drop (length p) s else s)"

definition trimSuffix :: "string \<Rightarrow> string \<Rightarrow> string" where
  "trimSuffix s p = (if suffix p s then take (length s - length p) s else s)"

text \<open>\<^verbatim>\<open>strings.Cut\<close> at a one-byte separator: the part before, the part after, found.\<close>

definition cut_byte :: "char \<Rightarrow> string \<Rightarrow> string \<times> string \<times> bool" where
  "cut_byte c s =
     (if c \<in> set s then (takeWhile (\<lambda>x. x \<noteq> c) s, tl (dropWhile (\<lambda>x. x \<noteq> c) s), True)
      else (s, [], False))"

text \<open>\<^verbatim>\<open>strings.Index\<close>: the least position of a substring.\<close>

fun index_str :: "string \<Rightarrow> string \<Rightarrow> nat option" where
  "index_str [] p = (if p = [] then Some 0 else None)"
| "index_str (c # cs) p =
     (if prefix p (c # cs) then Some 0 else map_option Suc (index_str cs p))"

definition cut_str :: "string \<Rightarrow> string \<Rightarrow> string \<times> string \<times> bool" where
  "cut_str s p =
     (case index_str s p of
        Some i \<Rightarrow> (take i s, drop (i + length p) s, True)
      | None \<Rightarrow> (s, [], False))"

definition contains_str :: "string \<Rightarrow> string \<Rightarrow> bool" where
  "contains_str s p = (index_str s p \<noteq> None)"

definition contains_any :: "string \<Rightarrow> string \<Rightarrow> bool" where
  "contains_any s cs = list_ex (\<lambda>c. c \<in> set cs) s"

text \<open>\<^verbatim>\<open>strings.IndexByte\<close> and \<^verbatim>\<open>strings.LastIndexByte\<close>; \<open>None\<close> is Go's \<open>-1\<close>.\<close>

fun index_byte :: "string \<Rightarrow> char \<Rightarrow> nat option" where
  "index_byte [] c = None"
| "index_byte (x # xs) c = (if x = c then Some 0 else map_option Suc (index_byte xs c))"

definition last_index_byte :: "string \<Rightarrow> char \<Rightarrow> nat option" where
  "last_index_byte s c =
     (if c \<in> set s then Some (length s - 1 - length (takeWhile (\<lambda>x. x \<noteq> c) (rev s))) else None)"

text \<open>\<^verbatim>\<open>strings.Trim\<close> with an ASCII cutset, and \<^verbatim>\<open>strings.Count\<close> of one byte.\<close>

definition trim_set :: "string \<Rightarrow> string \<Rightarrow> string" where
  "trim_set s cs =
     rev (dropWhile (\<lambda>c. c \<in> set cs) (rev (dropWhile (\<lambda>c. c \<in> set cs) s)))"

definition trim_right_set :: "string \<Rightarrow> string \<Rightarrow> string" where
  "trim_right_set s cs = rev (dropWhile (\<lambda>c. c \<in> set cs) (rev s))"

definition count_byte :: "string \<Rightarrow> char \<Rightarrow> nat" where
  "count_byte s c = count_list s c"

section \<open>Trimming white space\<close>

text \<open>
  \<^verbatim>\<open>strings.TrimSpace\<close> removes the runes with \<^verbatim>\<open>unicode.IsSpace\<close>: the six ASCII spaces,
  U+0085, U+00A0, U+1680, U+2000 to U+200A, U+2028, U+2029, U+202F, U+205F and U+3000, here
  in their UTF-8 form. \<open>space_len s\<close> is the length of a space rune at the front of \<open>s\<close>
  (0 if there is none); \<open>space_len_rev\<close> is the same at the end of a reversed string.
\<close>

definition ascii_space :: "char \<Rightarrow> bool" where
  "ascii_space c = ((9 \<le> byte c \<and> byte c \<le> 13) \<or> byte c = 32)"

definition space2 :: "nat \<Rightarrow> nat \<Rightarrow> bool" where
  "space2 a b = (a = 194 \<and> (b = 133 \<or> b = 160))"

definition space3 :: "nat \<Rightarrow> nat \<Rightarrow> nat \<Rightarrow> bool" where
  "space3 a b c =
     ((a = 225 \<and> b = 154 \<and> c = 128) \<or>
      (a = 226 \<and> b = 128 \<and> ((128 \<le> c \<and> c \<le> 138) \<or> c = 168 \<or> c = 169 \<or> c = 175)) \<or>
      (a = 226 \<and> b = 129 \<and> c = 159) \<or>
      (a = 227 \<and> b = 128 \<and> c = 128))"

fun space_len :: "string \<Rightarrow> nat" where
  "space_len [] = 0"
| "space_len [a] = (if ascii_space a then 1 else 0)"
| "space_len [a, b] =
     (if ascii_space a then 1 else if space2 (byte a) (byte b) then 2 else 0)"
| "space_len (a # b # c # s) =
     (if ascii_space a then 1 else if space2 (byte a) (byte b) then 2
      else if space3 (byte a) (byte b) (byte c) then 3 else 0)"

fun space_len_rev :: "string \<Rightarrow> nat" where
  "space_len_rev [] = 0"
| "space_len_rev [a] = (if ascii_space a then 1 else 0)"
| "space_len_rev [a, b] =
     (if ascii_space a then 1 else if space2 (byte b) (byte a) then 2 else 0)"
| "space_len_rev (a # b # c # s) =
     (if ascii_space a then 1 else if space2 (byte b) (byte a) then 2
      else if space3 (byte c) (byte b) (byte a) then 3 else 0)"

lemma space_len_le: "space_len s \<le> length s"
  by (cases s rule: space_len.cases) auto

lemma space_len_rev_le: "space_len_rev s \<le> length s"
  by (cases s rule: space_len_rev.cases) auto

function trim_left :: "string \<Rightarrow> string" where
  "trim_left s = (if space_len s = 0 then s else trim_left (drop (space_len s) s))"
  by pat_completeness auto
termination
proof (relation "measure length")
  fix s :: string
  assume "space_len s \<noteq> 0"
  then have "0 < length s" using space_len_le [of s] by (cases s) auto
  with \<open>space_len s \<noteq> 0\<close> show "(drop (space_len s) s, s) \<in> measure length" by simp
qed simp

function trim_left_rev :: "string \<Rightarrow> string" where
  "trim_left_rev s =
     (if space_len_rev s = 0 then s else trim_left_rev (drop (space_len_rev s) s))"
  by pat_completeness auto
termination
proof (relation "measure length")
  fix s :: string
  assume "space_len_rev s \<noteq> 0"
  then have "0 < length s" using space_len_rev_le [of s] by (cases s) auto
  with \<open>space_len_rev s \<noteq> 0\<close> show "(drop (space_len_rev s) s, s) \<in> measure length" by simp
qed simp

declare trim_left.simps [simp del] trim_left_rev.simps [simp del]

definition trim_right :: "string \<Rightarrow> string" where
  "trim_right s = rev (trim_left_rev (rev s))"

definition trim_space :: "string \<Rightarrow> string" where
  "trim_space s = trim_right (trim_left s)"

lemma space_len_trim_left: "space_len (trim_left s) = 0"
  by (induction s rule: trim_left.induct) (metis trim_left.simps)

lemma trim_left_id: "space_len s = 0 \<Longrightarrow> trim_left s = s"
  by (subst trim_left.simps) simp

lemma space_len_trim_left_rev: "space_len_rev (trim_left_rev s) = 0"
  by (induction s rule: trim_left_rev.induct) (metis trim_left_rev.simps)

lemma trim_left_rev_id: "space_len_rev s = 0 \<Longrightarrow> trim_left_rev s = s"
  by (subst trim_left_rev.simps) simp

lemma trim_left_rev_suffix: "suffix (trim_left_rev s) s"
proof (induction s rule: trim_left_rev.induct)
  case (1 s)
  show ?case
  proof (cases "space_len_rev s = 0")
    case True
    then show ?thesis by (simp add: trim_left_rev_id)
  next
    case False
    then have "suffix (trim_left_rev (drop (space_len_rev s) s)) (drop (space_len_rev s) s)"
      by (rule 1)
    then show ?thesis
      using False by (subst trim_left_rev.simps) (auto intro: suffix_order.trans suffix_drop)
  qed
qed

lemma trim_right_prefix: "prefix (trim_right s) s"
  using trim_left_rev_suffix [of "rev s"] by (simp add: trim_right_def suffix_to_prefix)

lemma space_len_prefix: "prefix p s \<Longrightarrow> space_len s = 0 \<Longrightarrow> space_len p = 0"
  by (cases p rule: space_len.cases; cases s rule: space_len.cases)
    (auto split: if_splits)

lemma trim_space_idem [simp]: "trim_space (trim_space s) = trim_space s"
proof -
  let ?t = "trim_space s"
  have "space_len ?t = 0"
    using trim_right_prefix space_len_trim_left unfolding trim_space_def
    by (rule space_len_prefix)
  then have "trim_left ?t = ?t" by (rule trim_left_id)
  moreover have "trim_right ?t = ?t"
    by (simp add: trim_space_def trim_right_def trim_left_rev_id space_len_trim_left_rev)
  ultimately show ?thesis by (simp add: trim_space_def)
qed

text \<open>A string whose first and last bytes are printable ASCII is already trimmed.\<close>

definition graph_char :: "char \<Rightarrow> bool" where
  "graph_char c = (33 \<le> byte c \<and> byte c \<le> 126)"

lemma space_len_graph: "graph_char c \<Longrightarrow> space_len (c # s) = 0"
  by (cases "c # s" rule: space_len.cases)
    (auto simp: graph_char_def ascii_space_def space2_def space3_def)

lemma space_len_rev_graph: "graph_char c \<Longrightarrow> space_len_rev (c # s) = 0"
  by (cases "c # s" rule: space_len_rev.cases)
    (auto simp: graph_char_def ascii_space_def space2_def space3_def)

lemma trim_space_graph:
  assumes "s \<noteq> [] \<Longrightarrow> graph_char (hd s)" and "s \<noteq> [] \<Longrightarrow> graph_char (last s)"
  shows "trim_space s = s"
proof (cases s rule: rev_cases)
  case Nil
  then show ?thesis by (simp add: trim_space_def trim_right_def trim_left_id trim_left_rev_id)
next
  case (snoc t c)
  have "space_len s = 0"
    using assms(1) snoc by (metis hd_Cons_tl list.distinct(1) append_is_Nil_conv space_len_graph)
  moreover have "space_len_rev (rev s) = 0"
    using assms(2) snoc by (simp add: space_len_rev_graph)
  ultimately show ?thesis
    by (simp add: trim_space_def trim_right_def trim_left_id trim_left_rev_id)
qed

lemma trim_space_graph_all: "list_all graph_char s \<Longrightarrow> trim_space s = s"
  by (rule trim_space_graph) (auto simp: list_all_iff)

lemma trim_space_Nil [simp]: "trim_space [] = []"
  by (rule trim_space_graph) auto

lemma is_digit_graph [simp]: "is_digit c \<Longrightarrow> graph_char c"
  by (simp add: is_digit_def graph_char_def)

lemma prefix_is_ascii: "prefix p s \<Longrightarrow> is_ascii s \<Longrightarrow> is_ascii p"
  by (auto simp: is_ascii_def prefix_def)

lemma trim_left_is_suffix: "suffix (trim_left s) s"
proof (induction s rule: trim_left.induct)
  case (1 s)
  show ?case
  proof (cases "space_len s = 0")
    case True
    then show ?thesis by (simp add: trim_left_id)
  next
    case False
    then have "suffix (trim_left (drop (space_len s) s)) (drop (space_len s) s)"
      by (rule 1)
    then show ?thesis
      using False by (subst trim_left.simps) (auto intro: suffix_order.trans suffix_drop)
  qed
qed

lemma set_trim_space: "set (trim_space s) \<subseteq> set s"
  using trim_right_prefix [of "trim_left s"] trim_left_is_suffix [of s]
  by (auto simp: trim_space_def prefix_def suffix_def) (metis Un_iff set_append)

lemma is_ascii_trim: "is_ascii s \<Longrightarrow> is_ascii (trim_space s)"
  using set_trim_space [of s] by (auto simp: is_ascii_def list_all_iff)

section \<open>Numerals\<close>

text \<open>
  The numeral of \<open>n\<close> in base \<open>b\<close> without leading zeros, digits written by \<open>ch\<close>, and
  the value of a digit string read by \<open>dv\<close>. \<^verbatim>\<open>strconv.Itoa\<close> is the decimal instance;
  \<^verbatim>\<open>net/netip\<close> prints IPv6 groups with the lower-case hexadecimal one.
\<close>

fun num_str :: "nat \<Rightarrow> (nat \<Rightarrow> char) \<Rightarrow> nat \<Rightarrow> string" where
  "num_str b ch n =
     (if n < b \<or> b < 2 then [ch n] else num_str b ch (n div b) @ [ch (n mod b)])"

declare num_str.simps [simp del]

definition num_val :: "nat \<Rightarrow> (char \<Rightarrow> nat) \<Rightarrow> string \<Rightarrow> nat" where
  "num_val b dv s = foldl (\<lambda>a c. a * b + dv c) 0 s"

lemma num_val_Nil [simp]: "num_val b dv [] = 0"
  by (simp add: num_val_def)

lemma num_val_snoc [simp]: "num_val b dv (s @ [c]) = num_val b dv s * b + dv c"
  by (simp add: num_val_def)

lemma num_val_single [simp]: "num_val b dv [c] = dv c"
  by (simp add: num_val_def)

lemma num_str_small: "n < b \<Longrightarrow> num_str b ch n = [ch n]"
  by (subst num_str.simps) simp

lemma num_str_big:
  "2 \<le> b \<Longrightarrow> b \<le> n \<Longrightarrow> num_str b ch n = num_str b ch (n div b) @ [ch (n mod b)]"
  by (subst num_str.simps) simp

lemma num_str_nonempty [simp]: "num_str b ch n \<noteq> []"
  by (subst num_str.simps) simp

lemma num_val_num_str:
  assumes "2 \<le> b" and dv: "\<And>d. d < b \<Longrightarrow> dv (ch d) = d"
  shows "num_val b dv (num_str b ch n) = n"
proof (induction n rule: less_induct)
  case (less n)
  show ?case
  proof (cases "n < b")
    case True
    then show ?thesis by (simp add: num_str_small dv)
  next
    case False
    then have "num_val b dv (num_str b ch (n div b)) = n div b"
      using assms(1) by (intro less) auto
    with False assms show ?thesis by (simp add: num_str_big)
  qed
qed

lemma num_str_chars:
  assumes "2 \<le> b" and "c \<in> set (num_str b ch n)"
  shows "\<exists>d < b. c = ch d"
  using assms(2)
proof (induction n rule: less_induct)
  case (less n)
  show ?case
  proof (cases "n < b")
    case True
    with less.prems show ?thesis by (auto simp: num_str_small)
  next
    case False
    with less.prems assms(1) have "c \<in> set (num_str b ch (n div b)) \<or> c = ch (n mod b)"
      by (auto simp: num_str_big)
    then show ?thesis
      using less.IH [of "n div b"] False assms(1)
      by (auto intro: exI [of _ "n mod b"])
  qed
qed

lemma length_num_str: "2 \<le> b \<Longrightarrow> n < b ^ Suc k \<Longrightarrow> length (num_str b ch n) \<le> Suc k"
proof (induction k arbitrary: n)
  case 0
  then show ?case by (simp add: num_str_small)
next
  case (Suc k)
  show ?case
  proof (cases "n < b")
    case True
    then show ?thesis by (simp add: num_str_small)
  next
    case False
    have "n div b < b ^ Suc k"
      using Suc.prems by (intro less_mult_imp_div_less) (simp add: mult.commute)
    with Suc False show ?thesis by (simp add: num_str_big)
  qed
qed

lemma hd_num_str:
  assumes "2 \<le> b" and inj: "\<And>d. d < b \<Longrightarrow> ch d = ch 0 \<Longrightarrow> d = 0"
    and "hd (num_str b ch n) = ch 0"
  shows "n = 0"
  using assms(3)
proof (induction n rule: less_induct)
  case (less n)
  show ?case
  proof (cases "n < b")
    case True
    with less.prems inj show ?thesis by (simp add: num_str_small)
  next
    case False
    with less.prems assms(1) have "hd (num_str b ch (n div b)) = ch 0"
      by (simp add: num_str_big)
    with less.IH [of "n div b"] False assms(1) have "n div b = 0" by simp
    with False assms(1) show ?thesis by (simp add: div_eq_0_iff)
  qed
qed

text \<open>A digit string without a leading zero is the numeral of its value.\<close>

lemma num_str_num_val:
  assumes b: "2 \<le> b" and dv: "\<And>c. c \<in> set s \<Longrightarrow> dv c < b \<and> ch (dv c) = c"
    and "s \<noteq> []" and lead: "length s > 1 \<Longrightarrow> dv (hd s) \<noteq> 0"
  shows "num_str b ch (num_val b dv s) = s \<and> (length s > 1 \<longrightarrow> b \<le> num_val b dv s)"
  using dv \<open>s \<noteq> []\<close> lead
proof (induction s rule: rev_induct)
  case Nil
  then show ?case by simp
next
  case (snoc c s)
  have c: "dv c < b" "ch (dv c) = c" using snoc.prems by auto
  show ?case
  proof (cases "s = []")
    case True
    with c show ?thesis by (simp add: num_str_small)
  next
    case False
    then have hd: "dv (hd s) \<noteq> 0" using snoc.prems(3) by simp
    then have IH: "num_str b ch (num_val b dv s) = s"
      and big: "length s > 1 \<longrightarrow> b \<le> num_val b dv s"
      using snoc.IH snoc.prems(1) False by auto
    have "1 \<le> num_val b dv s"
    proof (cases "length s > 1")
      case True
      with big b show ?thesis by simp
    next
      case short: False
      with False obtain d where "s = [d]" by (cases s) auto
      with hd show ?thesis by simp
    qed
    then have ge: "b \<le> num_val b dv s * b + dv c"
      by (metis mult_le_mono1 mult_1 le_add1 le_trans)
    with c b IH show ?thesis by (simp add: num_str_big)
  qed
qed

definition nat_str :: "nat \<Rightarrow> string" where
  "nat_str = num_str 10 digit_char"

definition itoa :: "int \<Rightarrow> string" where
  "itoa i = (if i < 0 then CHR ''-'' # nat_str (nat (- i)) else nat_str (nat i))"

definition dec_val :: "string \<Rightarrow> nat" where
  "dec_val s = num_val 10 digit_val s"

lemma nat_str_digits: "c \<in> set (nat_str n) \<Longrightarrow> is_digit c"
  unfolding nat_str_def by (drule num_str_chars [rotated]) auto

lemma dec_val_nat_str [simp]: "dec_val (nat_str n) = n"
  by (simp add: dec_val_def nat_str_def num_val_num_str)

lemma nat_str_nonempty [simp]: "nat_str n \<noteq> []"
  by (simp add: nat_str_def)

lemma nat_str_inj [simp]: "nat_str m = nat_str n \<longleftrightarrow> m = n"
  by (metis dec_val_nat_str)

lemma digit_val_zero: "is_digit c \<Longrightarrow> digit_val c = 0 \<longleftrightarrow> c = CHR ''0''"
proof -
  assume c: "is_digit c"
  have "byte CHR ''0'' = 48" by (simp add: byte_def)
  with c show ?thesis
    by (auto simp: is_digit_def digit_val_def simp flip: byte_inj)
qed

lemma nat_str_dec_val:
  assumes "list_all is_digit s" "s \<noteq> []" "length s > 1 \<Longrightarrow> hd s \<noteq> CHR ''0''"
  shows "nat_str (dec_val s) = s"
proof -
  have "num_str 10 digit_char (num_val 10 digit_val s) = s \<and>
      (length s > 1 \<longrightarrow> 10 \<le> num_val 10 digit_val s)"
  proof (rule num_str_num_val)
    show "\<And>c. c \<in> set s \<Longrightarrow> digit_val c < 10 \<and> digit_char (digit_val c) = c"
      using assms(1) by (auto simp: list_all_iff digit_val_bound)
    show "digit_val (hd s) \<noteq> 0" if "length s > 1"
      using assms that by (cases s) (auto simp: digit_val_zero)
  qed (use assms(2) in simp_all)
  then show ?thesis by (simp add: nat_str_def dec_val_def)
qed

lemma nat_str_canonical: "length (nat_str n) > 1 \<Longrightarrow> hd (nat_str n) \<noteq> CHR ''0''"
proof
  assume len: "length (nat_str n) > 1" and "hd (nat_str n) = CHR ''0''"
  moreover have z: "digit_char 0 = CHR ''0''"
    by (subst byte_inj [symmetric]) (simp add: digit_char_def byte_def)
  ultimately have "hd (num_str 10 digit_char n) = digit_char 0" by (simp add: nat_str_def)
  then have "n = 0"
    by (rule hd_num_str [rotated 2]) (auto dest: arg_cong [where f = digit_val])
  with len show False by (simp add: nat_str_def num_str_small)
qed

text \<open>Lower-case hexadecimal numerals; both cases are read.\<close>

definition is_hex :: "char \<Rightarrow> bool" where
  "is_hex c = (is_digit c \<or> (97 \<le> byte c \<and> byte c \<le> 102) \<or> (65 \<le> byte c \<and> byte c \<le> 70))"

definition hex_digit_val :: "char \<Rightarrow> nat" where
  "hex_digit_val c =
     (if is_digit c then byte c - 48
      else if 97 \<le> byte c then byte c - 97 + 10 else byte c - 65 + 10)"

definition hex_char :: "nat \<Rightarrow> char" where
  "hex_char d = (if d < 10 then char_of (d + 48) else char_of (d + 87))"

definition hex_str :: "nat \<Rightarrow> string" where
  "hex_str = num_str 16 hex_char"

definition hex_val :: "string \<Rightarrow> nat" where
  "hex_val = num_val 16 hex_digit_val"

lemma hex_char_props:
  "d < 16 \<Longrightarrow> is_hex (hex_char d)" "d < 16 \<Longrightarrow> hex_digit_val (hex_char d) = d"
  by (auto simp: is_hex_def hex_char_def hex_digit_val_def is_digit_def)

lemma hex_str_chars: "c \<in> set (hex_str n) \<Longrightarrow> is_hex c"
  unfolding hex_str_def by (drule num_str_chars [rotated]) (auto simp: hex_char_props)

lemma hex_val_hex_str [simp]: "hex_val (hex_str n) = n"
  by (simp add: hex_val_def hex_str_def num_val_num_str hex_char_props)

lemma hex_str_nonempty [simp]: "hex_str n \<noteq> []"
  by (simp add: hex_str_def)

lemma length_hex_str: "n < 65536 \<Longrightarrow> length (hex_str n) \<le> 4"
  unfolding hex_str_def using length_num_str [of 16 n 3 hex_char] by simp

lemma length_nat_str3: "n < 256 \<Longrightarrow> length (nat_str n) \<le> 3"
  unfolding nat_str_def using length_num_str [of 10 n 2 digit_char] by simp

section \<open>Splitting and joining\<close>

fun join_str :: "string \<Rightarrow> string list \<Rightarrow> string" where
  "join_str sep [] = []"
| "join_str sep [x] = x"
| "join_str sep (x # y # xs) = x @ sep @ join_str sep (y # xs)"

text \<open>\<^verbatim>\<open>strings.Split\<close> at a one-byte separator.\<close>

fun split_byte :: "char \<Rightarrow> string \<Rightarrow> string list" where
  "split_byte c [] = [[]]"
| "split_byte c (x # xs) =
     (if x = c then [] # split_byte c xs
      else (case split_byte c xs of [] \<Rightarrow> [[x]] | p # ps \<Rightarrow> (x # p) # ps))"

lemma split_byte_nonempty [simp]: "split_byte c s \<noteq> []"
  by (cases s) (auto split: list.splits)

lemma join_split: "join_str [c] (split_byte c s) = s"
proof (induction s)
  case Nil
  then show ?case by simp
next
  case (Cons x xs)
  obtain p ps where "split_byte c xs = p # ps" by (cases "split_byte c xs") auto
  with Cons show ?case by (cases ps) auto
qed

lemma split_byte_no_sep: "p \<in> set (split_byte c s) \<Longrightarrow> c \<notin> set p"
  by (induction s arbitrary: p) (auto split: if_splits list.splits)

lemma split_byte_atom: "c \<notin> set s \<Longrightarrow> split_byte c s = [s]"
  by (induction s) auto

lemma split_byte_append:
  "c \<notin> set p \<Longrightarrow> split_byte c (p @ c # s) = p # split_byte c s"
  by (induction p) auto

lemma split_join:
  "ps \<noteq> [] \<Longrightarrow> \<forall>p \<in> set ps. c \<notin> set p \<Longrightarrow> split_byte c (join_str [c] ps) = ps"
proof (induction "[c]" ps rule: join_str.induct)
  case (3 x y xs)
  then show ?case by (simp add: split_byte_append)
qed (simp_all add: split_byte_atom)

section \<open>Lexically cleaning a path: \<^verbatim>\<open>path.Clean\<close>\<close>

text \<open>
  The elements of the path from left to right: empty elements and \<^verbatim>\<open>.\<close> are dropped, \<^verbatim>\<open>..\<close>
  removes the last kept element, is dropped at the root, and is kept where a relative path
  starts with it. \<open>out\<close> is the kept elements, last first.
\<close>

fun clean_elems :: "bool \<Rightarrow> string list \<Rightarrow> string list \<Rightarrow> string list" where
  "clean_elems rooted out [] = rev out"
| "clean_elems rooted out (p # ps) =
     (if p = [] \<or> p = ''.'' then clean_elems rooted out ps
      else if p = ''..'' then
        (case out of
           [] \<Rightarrow> clean_elems rooted (if rooted then [] else [''..'']) ps
         | o1 # out' \<Rightarrow>
             if o1 = ''..'' then clean_elems rooted (''..'' # out) ps
             else clean_elems rooted out' ps)
      else clean_elems rooted (p # out) ps)"

definition path_clean :: "string \<Rightarrow> string" where
  "path_clean p =
     (let rooted = prefix ''/'' p;
          body = join_str ''/'' (clean_elems rooted [] (split_byte CHR ''/'' p))
      in if rooted then CHR ''/'' # body
         else if body = [] then ''.'' else body)"

text \<open>What a clean element list looks like: no empty element, no dot, dots-dots in front.\<close>

definition plain_elem :: "string \<Rightarrow> bool" where
  "plain_elem p = (p \<noteq> [] \<and> p \<noteq> ''.'' \<and> p \<noteq> ''..'' \<and> CHR ''/'' \<notin> set p)"

lemma clean_elems_rooted:
  "list_all plain_elem out \<Longrightarrow> \<forall>p \<in> set ps. CHR ''/'' \<notin> set p \<Longrightarrow>
     list_all plain_elem (clean_elems True out ps)"
  by (induction True out ps rule: clean_elems.induct)
    (auto simp: plain_elem_def split: list.splits)

lemma clean_elems_plain:
  "list_all plain_elem ps \<Longrightarrow> clean_elems r out ps = rev out @ ps"
  by (induction r out ps rule: clean_elems.induct) (auto simp: plain_elem_def)

lemma path_clean_rooted:
  assumes "prefix ''/'' p"
  obtains es where "list_all plain_elem es" and "path_clean p = CHR ''/'' # join_str ''/'' es"
proof -
  let ?es = "clean_elems True [] (split_byte CHR ''/'' p)"
  have "list_all plain_elem ?es"
    by (rule clean_elems_rooted) (auto dest: split_byte_no_sep)
  moreover have "path_clean p = CHR ''/'' # join_str ''/'' ?es"
    using assms by (simp add: path_clean_def)
  ultimately show thesis by (rule that)
qed

lemma split_rooted_join:
  assumes "list_all plain_elem es"
  shows "split_byte CHR ''/'' (CHR ''/'' # join_str ''/'' es) = [] # (if es = [] then [[]] else es)"
  using assms split_join [of es "CHR ''/''"]
  by (auto simp: list_all_iff plain_elem_def)

lemma path_clean_of_clean:
  assumes "list_all plain_elem es"
  shows "path_clean (CHR ''/'' # join_str ''/'' es) = CHR ''/'' # join_str ''/'' es"
  using assms split_rooted_join [OF assms]
  by (auto simp: path_clean_def clean_elems_plain)

lemma path_clean_idem_rooted: "prefix ''/'' p \<Longrightarrow> path_clean (path_clean p) = path_clean p"
  by (erule path_clean_rooted) (simp add: path_clean_of_clean)

lemma path_clean_rooted_prefix: "prefix ''/'' p \<Longrightarrow> prefix ''/'' (path_clean p)"
  by (erule path_clean_rooted) simp

section \<open>Host and port: \<^verbatim>\<open>net.SplitHostPort\<close> and \<^verbatim>\<open>net.JoinHostPort\<close>\<close>

definition split_host_port :: "string \<Rightarrow> (string \<times> string) option" where
  "split_host_port hp =
     (case last_index_byte hp CHR '':'' of
        None \<Rightarrow> None
      | Some i \<Rightarrow>
          if prefix ''['' hp then
            (case index_byte hp CHR '']'' of
               None \<Rightarrow> None
             | Some e \<Rightarrow>
                 if Suc e = length hp \<or> Suc e \<noteq> i then None
                 else if CHR ''['' \<in> set (drop 1 hp) \<or> CHR '']'' \<in> set (drop (Suc e) hp) then None
                 else Some (take (e - 1) (drop 1 hp), drop (Suc i) hp))
          else
            (let host = take i hp in
             if CHR '':'' \<in> set host then None
             else if CHR ''['' \<in> set hp \<or> CHR '']'' \<in> set hp then None
             else Some (host, drop (Suc i) hp)))"

definition join_host_port :: "string \<Rightarrow> string \<Rightarrow> string" where
  "join_host_port host port =
     (if CHR '':'' \<in> set host then ''['' @ host @ '']:'' @ port else host @ '':'' @ port)"

end
