(* ===== verification/NetAddr.thy ===== *)
theory NetAddr
  imports GoStrings
begin

text \<open>
  IP addresses and prefixes: package \<^verbatim>\<open>net/netip\<close> as far as the source uses it
  (\<^verbatim>\<open>ParseAddr\<close>, \<^verbatim>\<open>ParseAddrPort\<close>, \<^verbatim>\<open>ParsePrefix\<close>, \<^verbatim>\<open>String\<close>, \<^verbatim>\<open>Masked\<close>, \<^verbatim>\<open>Contains\<close> and the
  classification predicates) and the address normalisers of
  \<^verbatim>\<open>pkg/proxy/reverse_proxy_throttle.go\<close>, which decide what counts as the same client. The
  lemmas show that printing an address and parsing it is the identity, that the hand-written
  IPv4 scanner of the source agrees with the library parser, and that the normal form of an
  address text is a fixed point.
\<close>

unbundle bit_operations_syntax

section \<open>Addresses\<close>

text \<open>An address is 32 bits, or 128 bits with a zone (empty: no zone).\<close>

datatype addr = V4 "32 word" | V6 "128 word" string

definition v4_of :: "nat list \<Rightarrow> 32 word" where
  "v4_of ds = word_of_nat (undigs 256 ds)"

definition v4_fields :: "32 word \<Rightarrow> nat list" where
  "v4_fields w = digs 256 4 (unat w)"

definition v6_of :: "nat list \<Rightarrow> 128 word" where
  "v6_of gs = word_of_nat (undigs 65536 gs)"

definition v6_groups :: "128 word \<Rightarrow> nat list" where
  "v6_groups w = digs 65536 8 (unat w)"

lemma v4_code [code]:
  "v4_of ds = word_of_int (undigs_int 256 ds)"
  "v4_fields w = digs_int 256 4 (uint w)"
  using undigs_int_eq [of 256 ds] digs_int_eq [of 256 4 "unat w"]
  by (simp_all add: v4_of_def v4_fields_def)

lemma v6_code [code]:
  "v6_of gs = word_of_int (undigs_int 65536 gs)"
  "v6_groups u = digs_int 65536 8 (uint u)"
  using undigs_int_eq [of 65536 gs] digs_int_eq [of 65536 8 "unat u"]
  by (simp_all add: v6_of_def v6_groups_def)

lemma v4_of_fields [simp]: "v4_of (v4_fields w) = w"
proof -
  have "unat w < 256 ^ 4" using unsigned_less [of w, where ?'a = nat] by simp
  then show ?thesis by (simp add: v4_of_def v4_fields_def undigs_digs)
qed

lemma v6_of_groups [simp]: "v6_of (v6_groups w) = w"
proof -
  have "unat w < 65536 ^ 8" using unsigned_less [of w, where ?'a = nat] by simp
  then show ?thesis by (simp add: v6_of_def v6_groups_def undigs_digs)
qed

lemma v4_fields_of: "length ds = 4 \<Longrightarrow> \<forall>d \<in> set ds. d < 256 \<Longrightarrow> v4_fields (v4_of ds) = ds"
  using undigs_bound [of ds 256]
  by (simp add: v4_fields_def v4_of_def unat_of_nat digs_undigs)

lemma v6_groups_of:
  "length gs = 8 \<Longrightarrow> \<forall>g \<in> set gs. g < 65536 \<Longrightarrow> v6_groups (v6_of gs) = gs"
  using undigs_bound [of gs 65536]
  by (simp add: v6_groups_def v6_of_def unat_of_nat digs_undigs)

lemma length_v4_fields [simp]: "length (v4_fields w) = 4"
  and length_v6_groups [simp]: "length (v6_groups u) = 8"
  by (simp_all add: v4_fields_def v6_groups_def)

lemma v4_fields_bound: "d \<in> set (v4_fields w) \<Longrightarrow> d < 256"
  unfolding v4_fields_def by (rule digs_bound) auto

lemma v6_groups_bound: "g \<in> set (v6_groups w) \<Longrightarrow> g < 65536"
  unfolding v6_groups_def by (rule digs_bound) auto

section \<open>Parsing IPv4: \<^verbatim>\<open>parseIPv4Fields\<close>\<close>

text \<open>
  One pass over the bytes: \<open>first\<close> is \<^verbatim>\<open>i == 0\<close>, \<open>dot\<close> is \<^verbatim>\<open>s[i-1] == '.'\<close>, \<open>val\<close> and \<open>dl\<close>
  are the value and the number of digits of the current octet, \<open>fs\<close> the finished octets.
\<close>

fun parse_v4_fields :: "bool \<Rightarrow> bool \<Rightarrow> nat \<Rightarrow> nat \<Rightarrow> nat list \<Rightarrow> string \<Rightarrow> nat list option" where
  "parse_v4_fields first dot val dl fs [] =
     (if length fs < 3 then None else Some (fs @ [val]))"
| "parse_v4_fields first dot val dl fs (c # cs) =
     (if is_digit c then
        (if dl = 1 \<and> val = 0 then None
         else let v = val * 10 + digit_val c in
              if v > 255 then None else parse_v4_fields False False v (Suc dl) fs cs)
      else if c = CHR ''.'' then
        (if first \<or> cs = [] \<or> dot then None
         else if length fs = 3 then None
         else parse_v4_fields False True 0 0 (fs @ [val]) cs)
      else None)"

definition parse_v4 :: "string \<Rightarrow> 32 word option" where
  "parse_v4 s = map_option v4_of (parse_v4_fields True False 0 0 [] s)"

definition v4_str :: "32 word \<Rightarrow> string" where
  "v4_str w = join_str ''.'' (map nat_str (v4_fields w))"

text \<open>Reading one printed octet.\<close>

lemma parse_v4_octet_aux:
  assumes "list_all is_digit ds" and "ds \<noteq> []"
    and "length ds > 1 \<Longrightarrow> hd ds \<noteq> CHR ''0''" and "dec_val ds < 256"
  shows "parse_v4_fields first dot 0 0 fs (ds @ rest) =
     parse_v4_fields False False (dec_val ds) (length ds) fs rest"
  using assms
proof (induction ds arbitrary: rest rule: rev_induct)
  case Nil
  then show ?case by simp
next
  case (snoc d ds)
  have d: "is_digit d" using snoc.prems by simp
  have v: "dec_val (ds @ [d]) = dec_val ds * 10 + digit_val d" by (simp add: dec_val_def)
  show ?case
  proof (cases "ds = []")
    case True
    with d snoc.prems v show ?thesis by (simp add: dec_val_def Let_def)
  next
    case False
    have hd: "hd ds \<noteq> CHR ''0''" using snoc.prems(3) False by (cases ds) auto
    have small: "dec_val ds < 256" using snoc.prems(4) v by simp
    have "parse_v4_fields first dot 0 0 fs (ds @ d # rest) =
        parse_v4_fields False False (dec_val ds) (length ds) fs (d # rest)"
      using snoc.prems(1) False hd small by (intro snoc.IH) auto
    moreover have nz: "\<not> (length ds = 1 \<and> dec_val ds = 0)"
    proof
      assume *: "length ds = 1 \<and> dec_val ds = 0"
      then obtain e where "ds = [e]" by (cases ds) auto
      with * hd snoc.prems(1) show False by (simp add: dec_val_def digit_val_zero)
    qed
    ultimately have "parse_v4_fields first dot 0 0 fs (ds @ d # rest) =
        parse_v4_fields False False (dec_val ds * 10 + digit_val d) (Suc (length ds)) fs rest"
      using d v snoc.prems(4) by (simp add: Let_def del: One_nat_def)
    then show ?thesis using v by simp
  qed
qed

lemma parse_v4_octet:
  assumes "n < 256"
  shows "parse_v4_fields first dot 0 0 fs (nat_str n @ rest) =
     parse_v4_fields False False n (length (nat_str n)) fs rest"
  using parse_v4_octet_aux [of "nat_str n" first dot fs rest] assms
  by (auto simp: list_all_iff nat_str_digits nat_str_canonical)

lemma not_digit_dot [simp]: "\<not> is_digit CHR ''.''" "\<not> is_digit CHR '':''" "\<not> is_digit CHR ''%''"
  by (simp_all add: is_digit_def byte_def)

lemma list_of_4: "length xs = 4 \<Longrightarrow> \<exists>a b c d. xs = [a, b, c, d]"
  by (auto simp: length_Suc_conv eval_nat_numeral)

lemma parse_v4_fields_print:
  assumes "length ds = 4" and "\<forall>d \<in> set ds. d < 256"
  shows "parse_v4_fields True False 0 0 [] (join_str ''.'' (map nat_str ds)) = Some ds"
proof -
  obtain a b c d where ds: "ds = [a, b, c, d]" using list_of_4 [OF assms(1)] by blast
  have "parse_v4_fields True False 0 0 []
      (nat_str a @ ''.'' @ nat_str b @ ''.'' @ nat_str c @ ''.'' @ nat_str d) = Some ds"
    using assms(2) parse_v4_octet [of d False True "[a, b, c]" "[]"]
    by (simp add: ds parse_v4_octet)
  then show ?thesis by (simp add: ds)
qed

lemma parse_v4_str [simp]: "parse_v4 (v4_str w) = Some w"
  by (simp add: parse_v4_def v4_str_def parse_v4_fields_print v4_fields_bound)

section \<open>Parsing IPv6: \<^verbatim>\<open>parseIPv6\<close>\<close>

text \<open>
  The loop \<^verbatim>\<open>for i < 16\<close> with \<open>k\<close> groups still to fill: it reads up to four hex digits and
  what follows them. \<open>acc\<close> is the groups read, \<open>ell\<close> the position of the ellipsis among
  them. A dotted quad may take the place of the last two groups.
\<close>

fun parse_v6_loop ::
    "nat \<Rightarrow> nat list \<Rightarrow> nat option \<Rightarrow> string \<Rightarrow> (nat list \<times> nat option \<times> string) option" where
  "parse_v6_loop 0 acc ell s = Some (acc, ell, s)"
| "parse_v6_loop (Suc k) acc ell s =
     (let hs = takeWhile is_hex s; r = dropWhile is_hex s in
      if length hs > 4 \<or> hs = [] then None
      else if prefix ''.'' r then
        (if ell = None \<and> length acc \<noteq> 6 then None
         else if length acc > 6 then None
         else (case parse_v4_fields True False 0 0 [] s of
                 Some [a, b, c, d] \<Rightarrow> Some (acc @ [a * 256 + b, c * 256 + d], ell, [])
               | _ \<Rightarrow> None))
      else
        (let acc' = acc @ [hex_val hs] in
         case r of
           [] \<Rightarrow> Some (acc', ell, [])
         | c # r1 \<Rightarrow>
             if c \<noteq> CHR '':'' \<or> r1 = [] then None
             else if hd r1 = CHR '':'' then
               (if ell \<noteq> None then None
                else if tl r1 = [] then Some (acc', Some (length acc'), [])
                else parse_v6_loop k acc' (Some (length acc')) (tl r1))
             else parse_v6_loop k acc' ell r1))"

definition expand_v6 :: "nat list \<times> nat option \<times> string \<Rightarrow> nat list option" where
  "expand_v6 r =
     (case r of (acc, ell, s) \<Rightarrow>
        if s \<noteq> [] then None
        else if length acc < 8 then
          (case ell of
             None \<Rightarrow> None
           | Some e \<Rightarrow> Some (take e acc @ replicate (8 - length acc) 0 @ drop e acc))
        else if ell \<noteq> None then None else Some acc)"

definition parse_v6_body :: "string \<Rightarrow> nat list option" where
  "parse_v6_body s =
     (if prefix ''::'' s then
        (if drop 2 s = [] then Some (replicate 8 0)
         else Option.bind (parse_v6_loop 8 [] (Some 0) (drop 2 s)) expand_v6)
      else Option.bind (parse_v6_loop 8 [] None s) expand_v6)"

definition parse_v6 :: "string \<Rightarrow> addr option" where
  "parse_v6 s =
     (case cut_byte CHR ''%'' s of (b, zone, found) \<Rightarrow>
        if found \<and> zone = [] then None
        else map_option (\<lambda>gs. V6 (v6_of gs) zone) (parse_v6_body b))"

text \<open>\<^verbatim>\<open>netip.ParseAddr\<close>: the first dot, colon or percent sign decides the family.\<close>

definition parse_addr :: "string \<Rightarrow> addr option" where
  "parse_addr s =
     (case find (\<lambda>c. c = CHR ''.'' \<or> c = CHR '':'' \<or> c = CHR ''%'') s of
        None \<Rightarrow> None
      | Some c \<Rightarrow>
          if c = CHR ''.'' then map_option V4 (parse_v4 s)
          else if c = CHR '':'' then parse_v6 s else None)"

section \<open>Printing: \<^verbatim>\<open>Addr.String\<close>\<close>

definition zero_run :: "nat list \<Rightarrow> nat \<Rightarrow> nat" where
  "zero_run gs i = length (takeWhile (\<lambda>g. g = 0) (drop i gs))"

text \<open>The first longest run of at least two zero groups, as (start, end); (255, 255) if none.\<close>

definition best_run :: "nat list \<Rightarrow> nat \<times> nat" where
  "best_run gs =
     foldl (\<lambda>(zs, ze) i. let l = zero_run gs i in
              if 2 \<le> l \<and> ze - zs < l then (i, i + l) else (zs, ze)) (255, 255) [0..<8]"

definition v6_body_str :: "nat list \<Rightarrow> string" where
  "v6_body_str gs =
     (case best_run gs of (zs, ze) \<Rightarrow>
        if zs = 255 then join_str '':'' (map hex_str gs)
        else join_str '':'' (map hex_str (take zs gs)) @ ''::'' @
             join_str '':'' (map hex_str (drop ze gs)))"

definition is_4in6 :: "128 word \<Rightarrow> bool" where
  "is_4in6 w = (take 6 (v6_groups w) = [0, 0, 0, 0, 0, 65535])"

definition unmap_4in6 :: "128 word \<Rightarrow> 32 word" where
  "unmap_4in6 w =
     v4_of (concat (map (\<lambda>g. [g div 256, g mod 256]) (drop 6 (v6_groups w))))"

definition v6_str :: "128 word \<Rightarrow> string" where
  "v6_str w =
     (if is_4in6 w then ''::ffff:'' @ v4_str (unmap_4in6 w) else v6_body_str (v6_groups w))"

fun addr_str :: "addr \<Rightarrow> string" where
  "addr_str (V4 w) = v4_str w"
| "addr_str (V6 w z) = v6_str w @ (if z = [] then [] else CHR ''%'' # z)"

section \<open>Printing then parsing\<close>

lemma not_hex_sep [simp]: "\<not> is_hex CHR '':''" "\<not> is_hex CHR ''.''" "\<not> is_hex CHR ''%''"
  by (simp_all add: is_hex_def is_digit_def byte_def)

lemma is_digit_is_hex [simp]: "is_digit c \<Longrightarrow> is_hex c"
  by (simp add: is_hex_def)

lemma takeWhile_hex:
  "\<forall>c \<in> set p. is_hex c \<Longrightarrow> (r \<noteq> [] \<Longrightarrow> \<not> is_hex (hd r)) \<Longrightarrow>
     takeWhile is_hex (p @ r) = p \<and> dropWhile is_hex (p @ r) = r"
  by (cases r) (auto simp: takeWhile_append2 dropWhile_append2)

lemma takeWhile_hex_str [simp]:
  "takeWhile is_hex (hex_str g) = hex_str g" "dropWhile is_hex (hex_str g) = []"
  "\<not> is_hex c \<Longrightarrow> takeWhile is_hex (hex_str g @ c # r) = hex_str g"
  "\<not> is_hex c \<Longrightarrow> dropWhile is_hex (hex_str g @ c # r) = c # r"
  using takeWhile_hex [of "hex_str g" "[]"] takeWhile_hex [of "hex_str g" "c # r"]
  by (simp_all add: hex_str_chars)

lemma loop_colon:
  assumes "g < 65536" and "r \<noteq> []" and "hd r \<noteq> CHR '':''"
  shows "parse_v6_loop (Suc k) acc ell (hex_str g @ CHR '':'' # r) = parse_v6_loop k (acc @ [g]) ell r"
  using assms length_hex_str [of g] by (simp add: Let_def)

lemma loop_last:
  assumes "g < 65536"
  shows "parse_v6_loop (Suc k) acc ell (hex_str g) = Some (acc @ [g], ell, [])"
  using assms length_hex_str [of g] by (simp add: Let_def)

lemma loop_ellipsis:
  assumes "g < 65536"
  shows "parse_v6_loop (Suc k) acc None (hex_str g @ ''::'' @ r) =
    (if r = [] then Some (acc @ [g], Some (Suc (length acc)), [])
     else parse_v6_loop k (acc @ [g]) (Some (Suc (length acc))) r)"
  using assms length_hex_str [of g] by (simp add: Let_def)

lemma hd_join_hex:
  "gs \<noteq> [] \<Longrightarrow> join_str '':'' (map hex_str gs) @ r \<noteq> [] \<and>
     hd (join_str '':'' (map hex_str gs) @ r) \<noteq> CHR '':''"
proof -
  assume "gs \<noteq> []"
  then obtain g gs' where gs: "gs = g # gs'" by (cases gs) auto
  obtain c cs where h: "hex_str g = c # cs" by (cases "hex_str g") auto
  then have "is_hex c" using hex_str_chars [of c g] by simp
  then have "c \<noteq> CHR '':''" by auto
  with gs h show ?thesis by (cases gs') auto
qed

lemma loop_groups:
  "gs \<noteq> [] \<Longrightarrow> length gs \<le> k \<Longrightarrow> \<forall>g \<in> set gs. g < 65536 \<Longrightarrow>
     parse_v6_loop k acc ell (join_str '':'' (map hex_str gs)) = Some (acc @ gs, ell, [])"
proof (induction gs arbitrary: k acc)
  case Nil
  then show ?case by simp
next
  case (Cons g gs)
  then obtain k' where k: "k = Suc k'" by (cases k) auto
  show ?case
  proof (cases gs)
    case Nil
    with Cons.prems k show ?thesis by (simp add: loop_last del: parse_v6_loop.simps)
  next
    case (Cons g' gs')
    then have "parse_v6_loop k acc ell (join_str '':'' (map hex_str (g # gs))) =
        parse_v6_loop k' (acc @ [g]) ell (join_str '':'' (map hex_str gs))"
      using Cons.prems k hd_join_hex [of gs "[]"]
      by (simp add: loop_colon del: parse_v6_loop.simps)
    with Cons.IH [of k' "acc @ [g]"] Cons Cons.prems k show ?thesis by simp
  qed
qed

lemma loop_groups_ellipsis:
  "gs \<noteq> [] \<Longrightarrow> length gs \<le> k \<Longrightarrow> \<forall>g \<in> set gs. g < 65536 \<Longrightarrow>
     parse_v6_loop k acc None (join_str '':'' (map hex_str gs) @ ''::'' @ r) =
       (if r = [] then Some (acc @ gs, Some (length (acc @ gs)), [])
        else parse_v6_loop (k - length gs) (acc @ gs) (Some (length (acc @ gs))) r)"
proof (induction gs arbitrary: k acc)
  case Nil
  then show ?case by simp
next
  case (Cons g gs)
  then obtain k' where k: "k = Suc k'" by (cases k) auto
  show ?case
  proof (cases gs)
    case Nil
    with Cons.prems k loop_ellipsis [of g k' acc r] show ?thesis by simp
  next
    case (Cons g' gs')
    then have "parse_v6_loop k acc None (join_str '':'' (map hex_str (g # gs)) @ ''::'' @ r) =
        parse_v6_loop k' (acc @ [g]) None (join_str '':'' (map hex_str gs) @ ''::'' @ r)"
      using Cons.prems k hd_join_hex [of gs "''::'' @ r"]
        loop_colon [of g "join_str '':'' (map hex_str gs) @ ''::'' @ r" k' acc None]
      by simp
    with Cons.IH [of k' "acc @ [g]"] Cons Cons.prems k show ?thesis by simp
  qed
qed

text \<open>The run that the printer elides consists of zero groups.\<close>

definition run_ok :: "nat list \<Rightarrow> nat \<times> nat \<Rightarrow> bool" where
  "run_ok gs r =
     (case r of (zs, ze) \<Rightarrow> r = (255, 255) \<or>
        (zs + 2 \<le> ze \<and> ze \<le> length gs \<and> gs = take zs gs @ replicate (ze - zs) 0 @ drop ze gs))"

lemma zero_run_split:
  "i + zero_run gs i \<le> length gs \<or> length gs < i"
  "i \<le> length gs \<Longrightarrow>
     gs = take i gs @ replicate (zero_run gs i) 0 @ drop (i + zero_run gs i) gs"
proof -
  have le: "zero_run gs i \<le> length (drop i gs)"
    unfolding zero_run_def by (rule length_takeWhile_le)
  then show "i + zero_run gs i \<le> length gs \<or> length gs < i" by auto
  assume "i \<le> length gs"
  have tw: "takeWhile (\<lambda>g. g = 0) (drop i gs) = replicate (zero_run gs i) 0"
    unfolding zero_run_def by (rule replicate_eqI) (auto dest: set_takeWhileD)
  have dw: "dropWhile (\<lambda>g. g = 0) (drop i gs) = drop (i + zero_run gs i) gs"
    by (simp add: dropWhile_eq_drop zero_run_def add.commute)
  have "drop i gs = replicate (zero_run gs i) 0 @ drop (i + zero_run gs i) gs"
    using takeWhile_dropWhile_id [of "\<lambda>g. g = 0" "drop i gs"] tw dw by simp
  then show "gs = take i gs @ replicate (zero_run gs i) 0 @ drop (i + zero_run gs i) gs"
    by (metis append_take_drop_id)
qed

lemma foldl_run_ok:
  assumes "run_ok gs acc" and "\<forall>i \<in> set is. i < length gs"
  shows "run_ok gs (foldl (\<lambda>(zs, ze) i. let l = zero_run gs i in
              if 2 \<le> l \<and> ze - zs < l then (i, i + l) else (zs, ze)) acc is)"
  using assms
proof (induction "is" arbitrary: acc)
  case Nil
  then show ?case by simp
next
  case (Cons i "is")
  obtain zs ze where acc: "acc = (zs, ze)" by (cases acc)
  have i: "i < length gs" using Cons.prems by simp
  have "run_ok gs (i, i + zero_run gs i)" if "2 \<le> zero_run gs i"
    using that i zero_run_split [of i gs] by (simp add: run_ok_def)
  then show ?case
    using Cons by (simp add: acc Let_def)
qed

lemma best_run_ok: "length gs = 8 \<Longrightarrow> run_ok gs (best_run gs)"
  unfolding best_run_def by (rule foldl_run_ok) (auto simp: run_ok_def)

lemma prefix_colons_join:
  assumes "gs \<noteq> []"
  shows "\<not> prefix ''::'' (join_str '':'' (map hex_str gs) @ r)"
  using hd_join_hex [OF assms, of r] by (cases "join_str '':'' (map hex_str gs) @ r") auto

lemma parse_v6_body_str:
  assumes len: "length gs = 8" and bnd: "\<forall>g \<in> set gs. g < 65536"
  shows "parse_v6_body (v6_body_str gs) = Some gs"
proof -
  obtain zs ze where r: "best_run gs = (zs, ze)" by (cases "best_run gs")
  then have ok: "run_ok gs (zs, ze)" using best_run_ok [OF len] by simp
  show ?thesis
  proof (cases "zs = 255")
    case True
    have "gs \<noteq> []" using len by auto
    with True r len bnd loop_groups [of gs 8 "[]" None] prefix_colons_join [of gs "[]"]
    show ?thesis by (simp add: v6_body_str_def parse_v6_body_def expand_v6_def
          del: parse_v6_loop.simps)
  next
    case False
    let ?pre = "take zs gs" and ?post = "drop ze gs"
    let ?post_s = "join_str '':'' (map hex_str ?post)"
    from ok False have z2: "zs + 2 \<le> ze" and z8: "ze \<le> 8"
      and gs: "gs = ?pre @ replicate (ze - zs) 0 @ ?post"
      by (auto simp: run_ok_def len)
    have bpre: "\<forall>g \<in> set ?pre. g < 65536" and bpost: "\<forall>g \<in> set ?post. g < 65536"
      using bnd by (auto dest: in_set_takeD in_set_dropD)
    have lens: "length ?pre = zs" "length ?post = 8 - ze" using z2 z8 len by auto
    have str: "v6_body_str gs = join_str '':'' (map hex_str ?pre) @ ''::'' @ ?post_s"
      using r False by (simp add: v6_body_str_def)
    have post: "parse_v6_loop k acc ell ?post_s = Some (acc @ ?post, ell, [])"
      if "?post \<noteq> []" and "8 - ze \<le> k" for k acc ell
      using that lens bpost by (intro loop_groups) auto
    have post_ne: "?post_s = [] \<longleftrightarrow> ?post = []"
      using hd_join_hex [of ?post "[]"] by (cases "?post = []") auto
    have expand: "expand_v6 (?pre @ ?post, Some zs, []) = Some gs"
    proof -
      have "8 - length (?pre @ ?post) = ze - zs" and "length (?pre @ ?post) < 8"
        using lens z2 z8 by auto
      then show ?thesis
        using gs lens by (simp add: expand_v6_def)
    qed
    show ?thesis
    proof (cases "?pre = []")
      case True
      then have "zs = 0" using lens len by auto
      show ?thesis
      proof (cases "?post = []")
        case True
        with gs \<open>?pre = []\<close> have "gs = replicate (ze - zs) 0" by simp
        moreover from this len have "ze - zs = 8" by (metis length_replicate)
        ultimately have "gs = replicate 8 0" by simp
        with True \<open>?pre = []\<close> str show ?thesis by (simp add: parse_v6_body_def)
      next
        case False
        then show ?thesis
          using str \<open>?pre = []\<close> post [of 8 "[]" "Some 0"] post_ne expand \<open>zs = 0\<close>
          by (simp add: parse_v6_body_def del: parse_v6_loop.simps)
      qed
    next
      case pre: False
      have np: "\<not> prefix ''::'' (v6_body_str gs)"
        using prefix_colons_join [OF pre] str by simp
      have "parse_v6_loop 8 [] None (v6_body_str gs) = Some (?pre @ ?post, Some zs, [])"
        using loop_groups_ellipsis [OF pre, of 8 "[]" ?post_s] lens z2 z8 bpre str post_ne
          post [of "8 - zs" ?pre "Some zs"]
        by (cases "?post = []") (simp_all del: parse_v6_loop.simps)
      with np expand show ?thesis
        by (simp add: parse_v6_body_def del: parse_v6_loop.simps)
    qed
  qed
qed

lemma addr_find:
  "c \<in> {CHR ''.'', CHR '':'', CHR ''%''} \<Longrightarrow>
     \<forall>x \<in> set p. x \<notin> {CHR ''.'', CHR '':'', CHR ''%''} \<Longrightarrow>
     find (\<lambda>c. c = CHR ''.'' \<or> c = CHR '':'' \<or> c = CHR ''%'') (p @ c # r) = Some c"
  by (induction p) auto

lemma v4_str_shape:
  obtains a r where "v4_str w = nat_str a @ ''.'' @ r" and "a < 256"
    and "\<forall>c \<in> set (v4_str w). is_digit c \<or> c = CHR ''.''"
proof -
  obtain a b c d where f: "v4_fields w = [a, b, c, d]"
    using list_of_4 [of "v4_fields w"] by auto
  have "a < 256" using v4_fields_bound [of a w] f by simp
  moreover have "v4_str w = nat_str a @ ''.'' @ (nat_str b @ ''.'' @ nat_str c @ ''.'' @ nat_str d)"
    by (simp add: v4_str_def f)
  moreover have "\<forall>x \<in> set (v4_str w). is_digit x \<or> x = CHR ''.''"
    by (auto simp: v4_str_def f nat_str_digits)
  ultimately show thesis by (intro that)
qed

lemma parse_addr_v4_str [simp]: "parse_addr (v4_str w) = Some (V4 w)"
proof -
  obtain a r where s: "v4_str w = nat_str a @ ''.'' @ r"
    by (rule v4_str_shape [of w])
  have "find (\<lambda>c. c = CHR ''.'' \<or> c = CHR '':'' \<or> c = CHR ''%'') (v4_str w) = Some CHR ''.''"
    using addr_find [of "CHR ''.''" "nat_str a" r] nat_str_digits [of _ a] s by fastforce
  then show ?thesis by (simp add: parse_addr_def)
qed

lemma set_join_hex: "c \<in> set (join_str '':'' (map hex_str gs)) \<Longrightarrow> is_hex c \<or> c = CHR '':''"
proof (induction gs rule: induct_list012)
  case (3 x y zs)
  then show ?case by (auto simp: hex_str_chars)
qed (auto simp: hex_str_chars)

lemma v4_str_chars: "c \<in> set (v4_str w) \<Longrightarrow> is_digit c \<or> c = CHR ''.''"
  by (rule v4_str_shape [of w]) blast

lemma v6_body_str_chars: "c \<in> set (v6_body_str gs) \<Longrightarrow> is_hex c \<or> c = CHR '':''"
  by (auto simp: v6_body_str_def split: prod.splits if_splits dest: set_join_hex)

lemma v6_str_no_percent: "CHR ''%'' \<notin> set (v6_str w)"
proof
  assume "CHR ''%'' \<in> set (v6_str w)"
  then show False
    using v4_str_chars [of "CHR ''%''" "unmap_4in6 w"]
      v6_body_str_chars [of "CHR ''%''" "v6_groups w"]
    by (auto simp: v6_str_def split: if_splits)
qed

lemma join_has_sep: "2 \<le> length xs \<Longrightarrow> c \<in> set (join_str [c] xs)"
  by (cases "([c], xs)" rule: join_str.cases) auto

lemma v6_body_str_colon: "length gs = 8 \<Longrightarrow> CHR '':'' \<in> set (v6_body_str gs)"
  by (cases "best_run gs") (simp add: v6_body_str_def join_has_sep)

lemma find_colon:
  "\<forall>c \<in> set p. is_hex c \<or> c = CHR '':'' \<Longrightarrow> CHR '':'' \<in> set p \<Longrightarrow>
     find (\<lambda>c. c = CHR ''.'' \<or> c = CHR '':'' \<or> c = CHR ''%'') (p @ r) = Some CHR '':''"
  by (induction p) auto

lemma find_v6_str:
  "find (\<lambda>c. c = CHR ''.'' \<or> c = CHR '':'' \<or> c = CHR ''%'') (v6_str w @ r) = Some CHR '':''"
  using find_colon [of "v6_body_str (v6_groups w)" r] v6_body_str_colon [of "v6_groups w"]
  by (auto simp: v6_str_def v6_body_str_chars)

lemma cut_byte_append: "c \<notin> set p \<Longrightarrow> cut_byte c (p @ c # r) = (p, r, True)"
  by (induction p) (auto simp: cut_byte_def)

lemma cut_byte_none: "c \<notin> set p \<Longrightarrow> cut_byte c p = (p, [], False)"
  by (simp add: cut_byte_def)

lemma hex_str_ffff: "hex_str 65535 = ''ffff''"
proof -
  have "hex_char 15 = CHR ''f''"
    by (subst byte_inj [symmetric]) (simp add: hex_char_def byte_def)
  then show ?thesis by (simp add: hex_str_def num_str_big num_str_small)
qed

text \<open>An IPv4-mapped address is printed with the dotted quad; the parser takes it back.\<close>

lemma parse_v6_body_4in6:
  assumes "is_4in6 w"
  shows "parse_v6_body (''::ffff:'' @ v4_str (unmap_4in6 w)) = Some (v6_groups w)"
proof -
  let ?gs = "v6_groups w"
  have "length (drop 6 ?gs) = Suc (Suc 0)" by simp
  then obtain g6 g7 where drp: "drop 6 ?gs = [g6, g7]"
    by (metis (no_types) length_Suc_conv length_0_conv)
  let ?f = "[g6 div 256, g6 mod 256, g7 div 256, g7 mod 256]"
  have gs: "?gs = [0, 0, 0, 0, 0, 65535, g6, g7]"
    using append_take_drop_id [of 6 ?gs] drp assms by (simp add: is_4in6_def)
  then have b: "g6 < 65536" "g7 < 65536"
    using v6_groups_bound [of g6 w] v6_groups_bound [of g7 w] by auto
  then have fb: "\<forall>d \<in> set ?f. d < 256" by auto
  have f: "v4_fields (unmap_4in6 w) = ?f"
    using v4_fields_of [OF _ fb] drp by (simp add: unmap_4in6_def)
  then have quad: "parse_v4_fields True False 0 0 [] (v4_str (unmap_4in6 w)) = Some ?f"
    unfolding v4_str_def f by (intro parse_v4_fields_print fb) simp
  have s: "v4_str (unmap_4in6 w) = nat_str (g6 div 256) @ ''.'' @ nat_str (g6 mod 256) @ ''.'' @
      nat_str (g7 div 256) @ ''.'' @ nat_str (g7 mod 256)" (is "?s = ?a @ ''.'' @ ?r")
    by (simp add: v4_str_def f)
  have tw: "takeWhile is_hex ?s = ?a" "dropWhile is_hex ?s = ''.'' @ ?r"
    using takeWhile_hex [of ?a "''.'' @ ?r"] s nat_str_digits by auto
  have alen: "length ?a \<le> 4" using length_nat_str3 [of "g6 div 256"] b by linarith
  have last: "parse_v6_loop (Suc 6) [65535] (Some 0) ?s = Some ([65535, g6, g7], Some 0, [])"
    using tw alen quad by (subst parse_v6_loop.simps(2)) (simp add: Let_def)
  obtain c cs where a: "?a = c # cs" by (meson neq_Nil_conv nat_str_nonempty)
  have "is_digit c" by (rule nat_str_digits [of c "g6 div 256"]) (simp only: a list.set_intros)
  then have "c \<noteq> CHR '':''" by auto
  then have hd: "?s \<noteq> []" "hd ?s \<noteq> CHR '':''" unfolding s a by simp_all
  have "(8 :: nat) = Suc (Suc 6)" by simp
  then have "parse_v6_loop 8 [] (Some 0) (''ffff:'' @ ?s) = Some ([65535, g6, g7], Some 0, [])"
    using loop_colon [of 65535 ?s "Suc 6" "[]" "Some 0"] hd last hex_str_ffff
    by (simp del: parse_v6_loop.simps)
  moreover have "replicate 5 (0 :: nat) = [0, 0, 0, 0, 0]" by (simp add: eval_nat_numeral)
  ultimately show ?thesis
    using gs by (simp add: parse_v6_body_def expand_v6_def del: parse_v6_loop.simps)
qed

lemma parse_v6_body_v6_str: "parse_v6_body (v6_str w) = Some (v6_groups w)"
  using parse_v6_body_4in6 [of w] by (simp add: v6_str_def parse_v6_body_str v6_groups_bound)

text \<open>Printing an address and parsing the text gives the address back.\<close>

lemma parse_addr_str [simp]: "parse_addr (addr_str a) = Some a"
proof (cases a)
  case (V4 w)
  then show ?thesis by simp
next
  case (V6 w z)
  let ?tail = "if z = [] then [] else CHR ''%'' # z"
  have "cut_byte CHR ''%'' (v6_str w @ ?tail) = (v6_str w, z, z \<noteq> [])"
    using v6_str_no_percent [of w] by (auto simp: cut_byte_append cut_byte_none)
  then have "parse_v6 (addr_str a) = Some a"
    using V6 by (simp add: parse_v6_def parse_v6_body_v6_str)
  moreover have "parse_addr (addr_str a) = parse_v6 (addr_str a)"
    using find_v6_str [of w ?tail] V6 by (simp add: parse_addr_def)
  ultimately show ?thesis by simp
qed

lemma addr_str_inj [simp]: "addr_str a = addr_str b \<longleftrightarrow> a = b"
  by (metis option.inject parse_addr_str)

section \<open>Classification\<close>

text \<open>The \<^verbatim>\<open>Is...\<close> predicates look at the IPv4 address behind an IPv4-mapped one.\<close>

fun unmap :: "addr \<Rightarrow> addr" where
  "unmap (V4 w) = V4 w"
| "unmap (V6 w z) = (if is_4in6 w then V4 (unmap_4in6 w) else V6 w z)"

fun is_loopback_raw :: "addr \<Rightarrow> bool" where
  "is_loopback_raw (V4 w) = (v4_fields w ! 0 = 127)"
| "is_loopback_raw (V6 w z) = (w = 1)"

fun is_private_raw :: "addr \<Rightarrow> bool" where
  "is_private_raw (V4 w) =
     (let a = v4_fields w ! 0; b = v4_fields w ! 1 in
      a = 10 \<or> (a = 172 \<and> 16 \<le> b \<and> b < 32) \<or> (a = 192 \<and> b = 168))"
| "is_private_raw (V6 w z) = (let b0 = v6_groups w ! 0 div 256 in 252 \<le> b0 \<and> b0 < 254)"

fun is_link_local_raw :: "addr \<Rightarrow> bool" where
  "is_link_local_raw (V4 w) = (v4_fields w ! 0 = 169 \<and> v4_fields w ! 1 = 254)"
| "is_link_local_raw (V6 w z) = (let g0 = v6_groups w ! 0 in 65152 \<le> g0 \<and> g0 < 65216)"

definition addr_is_loopback :: "addr \<Rightarrow> bool" where
  "addr_is_loopback a = is_loopback_raw (unmap a)"

definition addr_is_private :: "addr \<Rightarrow> bool" where
  "addr_is_private a = is_private_raw (unmap a)"

definition addr_is_link_local :: "addr \<Rightarrow> bool" where
  "addr_is_link_local a = is_link_local_raw (unmap a)"

definition addr_is_unspecified :: "addr \<Rightarrow> bool" where
  "addr_is_unspecified a = (a = V4 0 \<or> a = V6 0 [])"

section \<open>Prefixes\<close>

datatype ip_prefix = Prefix addr nat

fun addr_bits :: "addr \<Rightarrow> nat" where
  "addr_bits (V4 w) = 32"
| "addr_bits (V6 w z) = 128"

fun addr_zone :: "addr \<Rightarrow> string" where
  "addr_zone (V4 w) = []"
| "addr_zone (V6 w z) = z"

definition parse_bits :: "string \<Rightarrow> nat option" where
  "parse_bits s =
     (if s \<noteq> [] \<and> list_all is_digit s \<and> (length s > 1 \<longrightarrow> hd s \<noteq> CHR ''0'')
      then Some (dec_val s) else None)"

text \<open>\<^verbatim>\<open>netip.ParsePrefix\<close>\<close>

definition parse_prefix :: "string \<Rightarrow> ip_prefix option" where
  "parse_prefix s =
     (case last_index_byte s CHR ''/'' of
        None \<Rightarrow> None
      | Some i \<Rightarrow>
          (case parse_addr (take i s) of
             None \<Rightarrow> None
           | Some a \<Rightarrow>
               if addr_zone a \<noteq> [] then None
               else (case parse_bits (drop (Suc i) s) of
                       None \<Rightarrow> None
                     | Some n \<Rightarrow> if n > addr_bits a then None else Some (Prefix a n))))"

definition trunc_word :: "nat \<Rightarrow> 'a::len word \<Rightarrow> 'a word" where
  "trunc_word k w = push_bit k (drop_bit k w)"

fun masked :: "ip_prefix \<Rightarrow> ip_prefix" where
  "masked (Prefix (V4 w) n) = Prefix (V4 (trunc_word (32 - n) w)) n"
| "masked (Prefix (V6 w z) n) = Prefix (V6 (trunc_word (128 - n) w) []) n"

fun prefix_str :: "ip_prefix \<Rightarrow> string" where
  "prefix_str (Prefix a n) = addr_str a @ ''/'' @ nat_str n"

fun prefix_contains :: "ip_prefix \<Rightarrow> addr \<Rightarrow> bool" where
  "prefix_contains (Prefix (V4 a) n) (V4 b) = (drop_bit (32 - n) (a XOR b) = 0)"
| "prefix_contains (Prefix (V6 a z) n) (V6 b y) = (y = [] \<and> drop_bit (128 - n) (a XOR b) = 0)"
| "prefix_contains _ _ = False"

fun prefix_ok :: "ip_prefix \<Rightarrow> bool" where
  "prefix_ok (Prefix a n) = (addr_zone a = [] \<and> n \<le> addr_bits a)"

lemma drop_trunc_word [simp]: "drop_bit k (trunc_word k w) = drop_bit k w"
  for w :: "'a::len word"
  unfolding trunc_word_def by (rule bit_word_eqI) (auto simp: bit_simps dest: bit_imp_le_length)

lemma trunc_word_idem [simp]: "trunc_word k (trunc_word k w) = trunc_word k w"
  for w :: "'a::len word"
  by (simp add: trunc_word_def [of k "trunc_word k w"]) (simp add: trunc_word_def)

lemma masked_contains [simp]: "prefix_contains (masked p) a = prefix_contains p a"
proof -
  have x: "drop_bit k (trunc_word k v XOR w) = drop_bit k (v XOR w)" for k and v w :: "'a::len word"
    by (simp add: drop_bit_xor)
  show ?thesis
    by (cases "(p, a)" rule: prefix_contains.cases) (simp_all add: x)
qed

lemma masked_idem [simp]: "masked (masked p) = masked p"
  by (cases p rule: masked.cases) simp_all

lemma parse_prefix_ok: "parse_prefix s = Some p \<Longrightarrow> prefix_ok p"
  by (auto simp: parse_prefix_def split: option.splits if_splits)

lemma masked_ok: "prefix_ok p \<Longrightarrow> prefix_ok (masked p)"
  by (cases p rule: masked.cases) auto

lemma last_index_byte_append:
  "c \<notin> set r \<Longrightarrow> last_index_byte (p @ c # r) c = Some (length p)"
proof -
  assume "c \<notin> set r"
  then have "takeWhile (\<lambda>x. x \<noteq> c) (rev r @ c # rev p) = rev r"
    by (subst takeWhile_append2) auto
  then show ?thesis by (simp add: last_index_byte_def)
qed

lemma parse_bits_nat_str [simp]: "parse_bits (nat_str n) = Some n"
  using nat_str_canonical [of n] by (auto simp: parse_bits_def list_all_iff nat_str_digits)

lemma parse_prefix_str: "prefix_ok p \<Longrightarrow> parse_prefix (prefix_str p) = Some p"
proof (cases p)
  case (Prefix a n)
  assume ok: "prefix_ok p"
  have "CHR ''/'' \<notin> set (nat_str n)"
    using nat_str_digits [of "CHR ''/''" n] by (auto simp: is_digit_def byte_def)
  then have "last_index_byte (addr_str a @ CHR ''/'' # nat_str n) CHR ''/'' = Some (length (addr_str a))"
    by (rule last_index_byte_append)
  with ok Prefix show ?thesis by (simp add: parse_prefix_def)
qed

lemma prefix_str_inj: "prefix_ok p \<Longrightarrow> prefix_ok q \<Longrightarrow> prefix_str p = prefix_str q \<Longrightarrow> p = q"
  by (metis option.inject parse_prefix_str)

lemma prefix_contains_zone: "prefix_contains p a \<Longrightarrow> addr_zone a = []"
  by (cases "(p, a)" rule: prefix_contains.cases) auto

end
