(* ===== verification/ClientIP.thy ===== *)
theory ClientIP
  imports NetAddr
begin

text \<open>
  The address normalisers of \<^verbatim>\<open>pkg/proxy/reverse_proxy_throttle.go\<close>. Every policy of the
  gateway (blacklist, visibility, throttle, WAF exemptions, active-IP counters) keys clients by
  the text these functions return, so what they identify and what they keep apart is stated
  here: the fast IPv4 scanner accepts exactly what \<^verbatim>\<open>netip.ParseAddr\<close> reads as IPv4, and
  a normal form is the canonical text of an unmapped address.
\<close>

section \<open>The IPv4 scanner\<close>

text \<open>
  \<^verbatim>\<open>isCanonicalIPv4\<close> runs over the bytes and checks an octet whenever it meets a dot or
  the end; \<open>seg\<close> is \<^verbatim>\<open>value[start:i]\<close>.
\<close>

definition octet_ok :: "string \<Rightarrow> bool" where
  "octet_ok seg =
     (\<not> (seg = [] \<or> length seg > 3) \<and>
      \<not> (length seg > 1 \<and> hd seg = CHR ''0'') \<and>
      list_all is_digit seg \<and> \<not> dec_val seg > 255)"

fun canonical_scan :: "nat \<Rightarrow> string \<Rightarrow> string \<Rightarrow> bool" where
  "canonical_scan octets seg [] = (octet_ok seg \<and> Suc octets = 4)"
| "canonical_scan octets seg (c # cs) =
     (if c \<noteq> CHR ''.'' then canonical_scan octets (seg @ [c]) cs
      else octet_ok seg \<and> canonical_scan (Suc octets) [] cs)"

definition isCanonicalIPv4 :: "string \<Rightarrow> bool" where
  "isCanonicalIPv4 value = canonical_scan 0 [] value"

definition canonicalIPv4HostPort :: "string \<Rightarrow> string option" where
  "canonicalIPv4HostPort value =
     (case index_byte value CHR '':'' of
        None \<Rightarrow> None
      | Some idx \<Rightarrow>
          if idx = 0 \<or> CHR '':'' \<in> set (drop (Suc idx) value) then None
          else if \<not> isCanonicalIPv4 (take idx value) then None
          else Some (take idx value))"

section \<open>Address texts\<close>

text \<open>\<^verbatim>\<open>netip.ParseAddrPort\<close>: the address of an address and port.\<close>

definition parse_port16 :: "string \<Rightarrow> nat option" where
  "parse_port16 s =
     (if s \<noteq> [] \<and> list_all is_digit s \<and> dec_val s \<le> 65535 then Some (dec_val s) else None)"

definition addr_is6 :: "addr \<Rightarrow> bool" where
  "addr_is6 a = (case a of V4 _ \<Rightarrow> False | V6 _ _ \<Rightarrow> True)"

definition parse_addr_port :: "string \<Rightarrow> addr option" where
  "parse_addr_port s =
     (case last_index_byte s CHR '':'' of
        None \<Rightarrow> None
      | Some i \<Rightarrow>
          (let ip = take i s; port = drop (Suc i) s in
           if ip = [] \<or> port = [] then None
           else
             (let v6 = (hd ip = CHR ''['') in
              if v6 \<and> (length ip < 2 \<or> last ip \<noteq> CHR '']'') then None
              else
                (case parse_port16 port of
                   None \<Rightarrow> None
                 | Some _ \<Rightarrow>
                     (case parse_addr (if v6 then butlast (tl ip) else ip) of
                        None \<Rightarrow> None
                      | Some a \<Rightarrow> if v6 = addr_is6 a then Some a else None)))))"

text \<open>\<^verbatim>\<open>net.ParseIP\<close> followed by \<^verbatim>\<open>IP.String\<close>: no zone, mapped addresses as IPv4.\<close>

definition net_parse_ip :: "string \<Rightarrow> addr option" where
  "net_parse_ip s =
     (case parse_addr s of
        None \<Rightarrow> None
      | Some a \<Rightarrow> if addr_zone a \<noteq> [] then None else Some (unmap a))"

definition netipAddrString :: "addr \<Rightarrow> string" where
  "netipAddrString addr = addr_str (unmap addr)"

definition parseNetipAddrString :: "string \<Rightarrow> string option" where
  "parseNetipAddrString value = map_option netipAddrString (parse_addr value)"

definition bracketed :: "string \<Rightarrow> bool" where
  "bracketed value = (hasPrefix value ''['' \<and> hasSuffix value '']'')"

text \<open>The last two attempts of \<^verbatim>\<open>normalizeIPAddress\<close>: host and port, then brackets.\<close>

definition normalizeBracketedIP :: "string \<Rightarrow> string" where
  "normalizeBracketedIP value =
     (if bracketed value then
        (case net_parse_ip (trim_set value ''[]'') of Some a \<Rightarrow> addr_str a | None \<Rightarrow> [])
      else [])"

definition normalizeHostPortIP :: "string \<Rightarrow> string" where
  "normalizeHostPortIP value =
     (case split_host_port value of
        None \<Rightarrow> normalizeBracketedIP value
      | Some (host0, _) \<Rightarrow>
          (case net_parse_ip (trim_space host0) of
             Some a \<Rightarrow> addr_str a
           | None \<Rightarrow>
               (case net_parse_ip (trim_set (trim_space host0) ''[]'') of
                  Some a \<Rightarrow> addr_str a
                | None \<Rightarrow> normalizeBracketedIP value)))"

definition normalizeIPAddress :: "string \<Rightarrow> string" where
  "normalizeIPAddress value0 =
     (let value = trim_space value0 in
      if value = [] then []
      else if isCanonicalIPv4 value then value
      else (case canonicalIPv4HostPort value of Some host \<Rightarrow> host
      | None \<Rightarrow> (case parseNetipAddrString value of Some ip \<Rightarrow> ip
      | None \<Rightarrow> (case parse_addr_port value of Some a \<Rightarrow> netipAddrString a
      | None \<Rightarrow> (case net_parse_ip value of Some a \<Rightarrow> addr_str a
      | None \<Rightarrow> normalizeHostPortIP value)))))"

definition normalizeClientIP :: "string \<Rightarrow> string" where
  "normalizeClientIP value0 =
     (let value = trim_space value0 in
      if value = [] then []
      else if normalizeIPAddress value \<noteq> [] then normalizeIPAddress value
      else (case split_host_port value of
              Some (host0, _) \<Rightarrow>
                (let host = trim_space host0; ip = normalizeIPAddress host in
                 if ip \<noteq> [] then ip else trim_set host ''[]'')
            | None \<Rightarrow>
                if bracketed value then
                  (let trimmed = trim_set value ''[]''; ip = normalizeIPAddress trimmed in
                   if ip \<noteq> [] then ip else trimmed)
                else value))"

text \<open>\<^verbatim>\<open>firstForwardedClientIP\<close> walks the comma-separated parts.\<close>

fun first_nonempty_ip :: "string list \<Rightarrow> string" where
  "first_nonempty_ip [] = []"
| "first_nonempty_ip (part # rest) =
     (if normalizeIPAddress part \<noteq> [] then normalizeIPAddress part else first_nonempty_ip rest)"

definition firstForwardedClientIP :: "string \<Rightarrow> string" where
  "firstForwardedClientIP value = first_nonempty_ip (split_byte CHR '','' value)"

section \<open>The scanner agrees with the library parser\<close>

text \<open>What one octet may still become: digits, no leading zero, at most 255.\<close>

definition octet_prefix :: "string \<Rightarrow> bool" where
  "octet_prefix seg =
     (list_all is_digit seg \<and> dec_val seg \<le> 255 \<and> (length seg > 1 \<longrightarrow> hd seg \<noteq> CHR ''0''))"

lemma dec_val_snoc: "dec_val (s @ [c]) = dec_val s * 10 + digit_val c"
  by (simp add: dec_val_def)

lemma dec_val_mono: "dec_val s \<le> dec_val (s @ t)"
proof (induction t rule: rev_induct)
  case (snoc c t)
  have "dec_val (s @ t) \<le> dec_val (s @ t @ [c])"
    using dec_val_snoc [of "s @ t" c] by simp
  with snoc show ?case by simp
qed simp

lemma octet_prefix_mono: "octet_prefix (s @ t) \<Longrightarrow> octet_prefix s"
  using dec_val_mono [of s t] by (cases s) (auto simp: octet_prefix_def)

lemma octet_ok_prefix: "octet_ok s \<Longrightarrow> octet_prefix s"
  by (auto simp: octet_ok_def octet_prefix_def)

lemma octet_prefix_length: "octet_prefix seg \<Longrightarrow> length seg \<le> 3"
proof -
  assume p: "octet_prefix seg"
  show ?thesis
  proof (cases "seg = []")
    case False
    with p have "nat_str (dec_val seg) = seg"
      by (intro nat_str_dec_val) (auto simp: octet_prefix_def)
    moreover have "length (nat_str (dec_val seg)) \<le> 3"
      using p by (intro length_nat_str3) (simp add: octet_prefix_def)
    ultimately show ?thesis by simp
  qed simp
qed

lemma octet_ok_iff: "octet_ok seg \<longleftrightarrow> seg \<noteq> [] \<and> octet_prefix seg"
  using octet_prefix_length [of seg] by (auto simp: octet_ok_def octet_prefix_def)

lemma canonical_scan_bad: "\<not> octet_prefix seg \<Longrightarrow> \<not> canonical_scan k seg s"
proof (induction s arbitrary: seg)
  case (Cons c cs)
  then have "\<not> octet_prefix (seg @ [c])" using octet_prefix_mono by blast
  with Cons show ?case by (auto simp: octet_ok_iff)
qed (simp add: octet_ok_iff)

lemma canonical_scan_many: "3 < k \<Longrightarrow> \<not> canonical_scan k seg s"
  by (induction s arbitrary: k seg) auto

lemma octet_prefix_step:
  assumes "octet_prefix seg" and "is_digit c"
  shows "octet_prefix (seg @ [c]) \<longleftrightarrow>
    \<not> (length seg = 1 \<and> dec_val seg = 0) \<and> dec_val seg * 10 + digit_val c \<le> 255"
proof -
  have one: "length seg = 1 \<and> dec_val seg = 0 \<longleftrightarrow> length seg = 1 \<and> hd seg = CHR ''0''"
    using assms(1) by (cases seg) (auto simp: octet_prefix_def dec_val_def digit_val_zero)
  have "length (seg @ [c]) > 1 \<and> hd (seg @ [c]) = CHR ''0'' \<longleftrightarrow> length seg = 1 \<and> hd seg = CHR ''0''"
    if "octet_prefix (seg @ [c]) \<or> octet_prefix seg"
    using assms(1) by (cases seg) (auto simp: octet_prefix_def)
  with assms one show ?thesis by (auto simp: octet_prefix_def dec_val_snoc)
qed

text \<open>One state of the library parser against one state of the scanner.\<close>

lemma scan_parse:
  assumes "octet_prefix seg" and "length fs \<le> 3" and "first = (fs = [] \<and> seg = [])"
    and "dot = (fs \<noteq> [] \<and> seg = [])" and "seg = [] \<Longrightarrow> s \<noteq> []"
  shows "canonical_scan (length fs) seg s \<longleftrightarrow>
    (\<exists>ds. parse_v4_fields first dot (dec_val seg) (length seg) fs s = Some ds)"
  using assms
proof (induction s arbitrary: seg fs first dot)
  case Nil
  then show ?case by (auto simp: octet_ok_iff)
next
  case (Cons c cs)
  consider (digit) "is_digit c" | (dot) "c = CHR ''.''" | (other) "\<not> is_digit c" "c \<noteq> CHR ''.''"
    by blast
  then show ?case
  proof cases
    case digit
    then have "c \<noteq> CHR ''.''" by auto
    then have scan: "canonical_scan (length fs) seg (c # cs) = canonical_scan (length fs) (seg @ [c]) cs"
      by simp
    show ?thesis
    proof (cases "octet_prefix (seg @ [c])")
      case True
      then have "canonical_scan (length fs) (seg @ [c]) cs \<longleftrightarrow>
          (\<exists>ds. parse_v4_fields False False (dec_val (seg @ [c])) (length (seg @ [c])) fs cs = Some ds)"
        using Cons.prems by (intro Cons.IH) auto
      with True scan digit octet_prefix_step [OF Cons.prems(1) digit] show ?thesis
        by (auto simp: dec_val_snoc Let_def)
    next
      case False
      with scan have "\<not> canonical_scan (length fs) seg (c # cs)"
        by (simp add: canonical_scan_bad)
      with False digit octet_prefix_step [OF Cons.prems(1) digit] show ?thesis
        by (auto simp: Let_def)
    qed
  next
    case dot
    show ?thesis
    proof (cases "seg = [] \<or> cs = [] \<or> length fs = 3")
      case True
      have "\<not> canonical_scan (length fs) seg (c # cs)"
      proof
        assume *: "canonical_scan (length fs) seg (c # cs)"
        with dot have ok: "seg \<noteq> []" "canonical_scan (Suc (length fs)) [] cs"
          by (auto simp: octet_ok_iff)
        with True have "cs = [] \<or> length fs = 3" by auto
        moreover have "cs \<noteq> []" using ok by (auto simp: octet_ok_iff)
        moreover have "length fs = 3 \<Longrightarrow> \<not> canonical_scan (Suc (length fs)) [] cs"
          by (rule canonical_scan_many) simp
        ultimately show False using ok by auto
      qed
      with True dot Cons.prems show ?thesis by auto
    next
      case False
      have "canonical_scan (length (fs @ [dec_val seg])) [] cs \<longleftrightarrow>
          (\<exists>ds. parse_v4_fields False True (dec_val []) (length ([] :: string)) (fs @ [dec_val seg]) cs = Some ds)"
        using False Cons.prems by (intro Cons.IH) (auto simp: octet_prefix_def dec_val_def)
      with False dot Cons.prems show ?thesis
        by (auto simp: octet_ok_iff dec_val_def)
    qed
  next
    case other
    then have "\<not> octet_prefix (seg @ [c])" by (auto simp: octet_prefix_def)
    with other show ?thesis by (simp add: canonical_scan_bad)
  qed
qed

lemma isCanonicalIPv4_parse_v4: "isCanonicalIPv4 s \<longleftrightarrow> (\<exists>w. parse_v4 s = Some w)"
proof (cases "s = []")
  case True
  then show ?thesis by (simp add: isCanonicalIPv4_def parse_v4_def octet_ok_def)
next
  case False
  have "octet_prefix []" by (simp add: octet_prefix_def dec_val_def)
  with False show ?thesis
    using scan_parse [of "[]" "[]" True False s]
    by (auto simp: isCanonicalIPv4_def parse_v4_def dec_val_def)
qed

text \<open>The accepted text is the canonical one: printing the parsed address gives it back.\<close>

lemma parse_v4_fields_text:
  assumes "parse_v4_fields first dot (dec_val seg) (length seg) fs s = Some ds"
    and "octet_prefix seg" and "length fs \<le> 3" and "first = (fs = [] \<and> seg = [])"
    and "dot = (fs \<noteq> [] \<and> seg = [])" and "seg = [] \<Longrightarrow> s \<noteq> []"
  shows "\<exists>rest. ds = fs @ rest \<and> rest \<noteq> [] \<and> join_str ''.'' (map nat_str rest) = seg @ s \<and>
    length ds = 4 \<and> (\<forall>d \<in> set rest. d < 256)"
  using assms
proof (induction s arbitrary: seg fs first dot)
  case Nil
  then have "nat_str (dec_val seg) = seg"
    by (intro nat_str_dec_val) (auto simp: octet_prefix_def)
  with Nil show ?case
    by (intro exI [of _ "[dec_val seg]"]) (auto simp: octet_prefix_def split: if_splits)
next
  case (Cons c cs)
  show ?case
  proof (cases "is_digit c")
    case True
    with Cons.prems octet_prefix_step [OF Cons.prems(2) True]
    have "octet_prefix (seg @ [c])"
      and "parse_v4_fields False False (dec_val (seg @ [c])) (length (seg @ [c])) fs cs = Some ds"
      by (auto simp: Let_def dec_val_snoc split: if_splits)
    then show ?thesis using Cons.IH [of False False "seg @ [c]" fs] Cons.prems by simp
  next
    case False
    with Cons.prems have c: "c = CHR ''.''" and seg: "seg \<noteq> []" and cs: "cs \<noteq> []"
      and "parse_v4_fields False True (dec_val []) (length ([] :: string)) (fs @ [dec_val seg]) cs = Some ds"
      and "length fs \<noteq> 3"
      by (auto simp: dec_val_def split: if_splits)
    then obtain rest where r: "ds = (fs @ [dec_val seg]) @ rest" "rest \<noteq> []"
        "join_str ''.'' (map nat_str rest) = cs" "length ds = 4" "\<forall>d \<in> set rest. d < 256"
      using Cons.IH [of False True "[]" "fs @ [dec_val seg]"] Cons.prems
      by (auto simp: octet_prefix_def dec_val_def)
    have "nat_str (dec_val seg) = seg"
      using Cons.prems(2) seg by (intro nat_str_dec_val) (auto simp: octet_prefix_def)
    moreover have "dec_val seg < 256" using Cons.prems(2) by (simp add: octet_prefix_def)
    ultimately show ?thesis
      using r c by (intro exI [of _ "dec_val seg # rest"]) (cases rest; auto)
  qed
qed

lemma parse_v4_text: "parse_v4 s = Some w \<Longrightarrow> v4_str w = s"
proof -
  assume p: "parse_v4 s = Some w"
  then obtain ds where f: "parse_v4_fields True False 0 0 [] s = Some ds" and w: "w = v4_of ds"
    by (auto simp: parse_v4_def)
  from f have "s \<noteq> []" by auto
  with f parse_v4_fields_text [of True False "[]" "[]" s ds]
  have "join_str ''.'' (map nat_str ds) = s" and "length ds = 4" and "\<forall>d \<in> set ds. d < 256"
    by (auto simp: octet_prefix_def dec_val_def)
  with w show "v4_str w = s" by (simp add: v4_str_def v4_fields_of)
qed

lemma isCanonicalIPv4_iff: "isCanonicalIPv4 s \<longleftrightarrow> (\<exists>w. s = v4_str w)"
  using isCanonicalIPv4_parse_v4 parse_v4_text by (metis parse_v4_str)

section \<open>Normal forms\<close>

text \<open>A normal form is the text of an address that is not IPv4-mapped.\<close>

lemma unmap_idem [simp]: "unmap (unmap a) = unmap a"
  by (cases a) auto

lemma addr_str_nonempty [simp]: "addr_str a \<noteq> []"
proof
  assume "addr_str a = []"
  then have "parse_addr [] = Some a" using parse_addr_str [of a] by simp
  then show False by (simp add: parse_addr_def)
qed

lemma net_parse_ip_Some:
  "net_parse_ip s = Some a \<Longrightarrow> unmap a = a \<and> addr_zone a = []"
  by (auto simp: net_parse_ip_def split: option.splits if_splits)
    (metis addr_zone.simps unmap.elims)

lemma unmap_V4 [simp]: "unmap (V4 w) = V4 w"
  by simp

definition ip_normal :: "string \<Rightarrow> bool" where
  "ip_normal s = (\<exists>a. s = addr_str (unmap a))"

lemma ip_normal_v4: "isCanonicalIPv4 s \<Longrightarrow> ip_normal s"
  by (auto simp: isCanonicalIPv4_iff ip_normal_def) (metis addr_str.simps(1) unmap.simps(1))

lemma ip_normal_unmap: "unmap a = a \<Longrightarrow> ip_normal (addr_str a)"
  unfolding ip_normal_def by metis

lemma canonicalIPv4HostPort_normal: "canonicalIPv4HostPort v = Some h \<Longrightarrow> isCanonicalIPv4 h"
  by (auto simp: canonicalIPv4HostPort_def split: option.splits if_splits)

lemma normalizeIPAddress_normal: "normalizeIPAddress v = [] \<or> ip_normal (normalizeIPAddress v)"
proof -
  have n: "ip_normal (netipAddrString a)" for a
    by (auto simp: netipAddrString_def ip_normal_def)
  have p: "ip_normal (addr_str a)" if "net_parse_ip s = Some a" for s a
    using net_parse_ip_Some [OF that] ip_normal_unmap by blast
  have b: "normalizeBracketedIP w = [] \<or> ip_normal (normalizeBracketedIP w)" for w
    by (auto simp: normalizeBracketedIP_def p split: option.split)
  have h: "normalizeHostPortIP w = [] \<or> ip_normal (normalizeHostPortIP w)" for w
    using b [of w] by (auto simp: normalizeHostPortIP_def p split: option.split prod.split)
  show ?thesis
    using h [of "trim_space v"]
    by (simp add: normalizeIPAddress_def Let_def parseNetipAddrString_def n p
        ip_normal_v4 canonicalIPv4HostPort_normal split: option.split)
qed

lemma v4_str_graph: "list_all graph_char (v4_str w)"
proof -
  have "graph_char CHR ''.''" by (simp add: graph_char_def byte_def)
  then have "graph_char c" if "c \<in> set (v4_str w)" for c
    using v4_str_chars [OF that] by auto
  then show ?thesis by (simp add: list_all_iff)
qed

text \<open>The text of an unmapped IPv6 address has more than one colon.\<close>

lemma count_join: "count_list (join_str [c] xs) c \<ge> length xs - 1"
  by (induction "[c]" xs rule: join_str.induct) auto

lemma v6_two_colons: "\<not> is_4in6 w \<Longrightarrow> 2 \<le> count_list (v6_str w) CHR '':''"
  using count_join [where c = "CHR '':''" and xs = "map hex_str (v6_groups w)"]
  by (cases "best_run (v6_groups w)") (auto simp: v6_str_def v6_body_str_def)

lemma index_byte_split: "index_byte s c = Some i \<Longrightarrow> s = take i s @ c # drop (Suc i) s \<and> c \<notin> set (take i s)"
  by (induction s arbitrary: i) (auto split: if_splits)

lemma one_colon_count:
  "canonicalIPv4HostPort s = Some h \<Longrightarrow> count_list s CHR '':'' = 1"
proof -
  assume "canonicalIPv4HostPort s = Some h"
  then obtain i where i: "index_byte s CHR '':'' = Some i" and "CHR '':'' \<notin> set (drop (Suc i) s)"
    by (auto simp: canonicalIPv4HostPort_def split: option.splits if_splits)
  then have "CHR '':'' \<notin> set (take i s)" and e: "s = take i s @ CHR '':'' # drop (Suc i) s"
    and "CHR '':'' \<notin> set (drop (Suc i) s)"
    using index_byte_split [OF i] by auto
  then have "count_list (take i s) CHR '':'' = 0" "count_list (drop (Suc i) s) CHR '':'' = 0"
    by (simp_all add: count_list_0_iff)
  then show ?thesis by (subst e) (simp only: count_list_append count_list.simps, simp)
qed

lemma v4_str_colon: "count_list (v4_str w) CHR '':'' = 0"
  using v4_str_chars [of "CHR '':''" w] by (auto simp: count_list_0_iff)

lemma normalizeIPAddress_fixed:
  assumes "ip_normal s" and "trim_space s = s"
  shows "normalizeIPAddress s = s"
proof -
  from assms(1) obtain a where s: "s = addr_str (unmap a)" by (auto simp: ip_normal_def)
  show ?thesis
  proof (cases "unmap a")
    case (V4 w)
    then have "isCanonicalIPv4 s" using s by (auto simp: isCanonicalIPv4_iff)
    with assms(2) s show ?thesis by (simp add: normalizeIPAddress_def)
  next
    case (V6 w z)
    then have nm: "\<not> is_4in6 w" by (cases a) (auto split: if_splits)
    have c: "2 \<le> count_list s CHR '':''"
      using v6_two_colons [OF nm] s V6 by simp
    then have "\<not> isCanonicalIPv4 s"
      using v4_str_colon by (auto simp: isCanonicalIPv4_iff)
    moreover have "canonicalIPv4HostPort s = None"
      using one_colon_count [of s] c by (cases "canonicalIPv4HostPort s") auto
    moreover have "parseNetipAddrString s = Some s"
      using s by (simp add: parseNetipAddrString_def netipAddrString_def)
    ultimately show ?thesis using assms(2) s by (simp add: normalizeIPAddress_def)
  qed
qed

section \<open>Two texts of one address are one client\<close>

lemma parse_addr_host_port:
  "canonicalIPv4HostPort s = Some h \<Longrightarrow> parse_addr s = None"
proof -
  assume c: "canonicalIPv4HostPort s = Some h"
  then obtain i where i: "index_byte s CHR '':'' = Some i" and h: "isCanonicalIPv4 (take i s)"
    by (auto simp: canonicalIPv4HostPort_def split: option.splits if_splits)
  from i have s: "s = take i s @ CHR '':'' # drop (Suc i) s" using index_byte_split by blast
  from h obtain w where w: "take i s = v4_str w" by (auto simp: isCanonicalIPv4_iff)
  obtain a r where ar: "v4_str w = nat_str a @ ''.'' @ r"
    by (rule v4_str_shape [of w])
  have "find (\<lambda>c. c = CHR ''.'' \<or> c = CHR '':'' \<or> c = CHR ''%'') s = Some CHR ''.''"
    using addr_find [of "CHR ''.''" "nat_str a" "r @ CHR '':'' # drop (Suc i) s"] nat_str_digits [of _ a] s w ar
    by fastforce
  moreover have "parse_v4 s = None"
  proof (cases "parse_v4 s")
    case (Some v)
    then have "s = v4_str v" using parse_v4_text by simp
    then have "CHR '':'' \<in> set (v4_str v)" using s by (metis in_set_conv_decomp)
    then show ?thesis using v4_str_chars by fastforce
  qed simp
  ultimately show ?thesis by (simp add: parse_addr_def)
qed

lemma normalizeIPAddress_parsed:
  assumes "parse_addr v = Some a" and "trim_space v = v"
  shows "normalizeIPAddress v = addr_str (unmap a)"
proof -
  have "v \<noteq> []" using assms(1) by (auto simp: parse_addr_def)
  moreover have "canonicalIPv4HostPort v = None"
    using parse_addr_host_port assms(1) by (cases "canonicalIPv4HostPort v") auto
  moreover have "v = addr_str (unmap a)" if "isCanonicalIPv4 v"
    using that assms(1) by (auto simp: isCanonicalIPv4_iff)
  ultimately show ?thesis
    using assms by (simp add: normalizeIPAddress_def parseNetipAddrString_def netipAddrString_def)
qed

text \<open>The hand-written dotted-quad scanner accepts a text if and only if the standard library
  parses it as an IPv4 address, and then the text is the canonical one, the text
  \<^verbatim>\<open>Addr.String\<close> prints for that address: taking the fast path changes no identity.\<close>

theorem isCanonicalIPv4_spec:
  "isCanonicalIPv4 value =
     (\<exists>w. parse_addr value = Some (V4 w) \<and> value = addr_str (V4 w))"
  by (auto simp: isCanonicalIPv4_iff)

text \<open>Two address texts get the same client identity exactly when they denote the same address
  once an IPv4-mapped IPv6 address is read as IPv4: no client escapes a policy by rewriting its
  address, and no two clients share an entry.\<close>

theorem normalizeIPAddress_identity:
  assumes "parse_addr v = Some a" and "trim_space v = v"
    and "parse_addr w = Some b" and "trim_space w = w"
  shows "normalizeIPAddress v = normalizeIPAddress w \<longleftrightarrow> unmap a = unmap b"
  using assms by (simp add: normalizeIPAddress_parsed)

theorem normalizeIPAddress_identity_witness:
  "normalizeIPAddress ''10.0.0.7'' \<noteq> normalizeIPAddress ''10.0.0.8''"
proof -
  have a: "parse_addr ''10.0.0.7'' = Some (V4 (v4_of [10, 0, 0, 7]))"
  proof -
    have "parse_v4_fields True False 0 0 [] ''10.0.0.7'' = Some [10, 0, 0, 7]" by code_simp
    then show ?thesis by (simp add: parse_addr_def parse_v4_def)
  qed
  have b: "parse_addr ''10.0.0.8'' = Some (V4 (v4_of [10, 0, 0, 8]))"
  proof -
    have "parse_v4_fields True False 0 0 [] ''10.0.0.8'' = Some [10, 0, 0, 8]" by code_simp
    then show ?thesis by (simp add: parse_addr_def parse_v4_def)
  qed
  have ta: "trim_space ''10.0.0.7'' = ''10.0.0.7''" by code_simp
  have tb: "trim_space ''10.0.0.8'' = ''10.0.0.8''" by code_simp
  have u: "unmap (V4 (v4_of [10, 0, 0, 7])) \<noteq> unmap (V4 (v4_of [10, 0, 0, 8]))"
    by (simp add: v4_of_def undigs_def)
  show ?thesis
    by (rule notI, drule normalizeIPAddress_identity [OF a ta b tb, THEN iffD1], rule notE [OF u])
qed

text \<open>Whatever the input, the normaliser returns nothing or the canonical text of an address that
  is not IPv4-mapped, and normalising that text again keeps it: the keys of the policy tables are
  stable under re-normalisation.  (The side condition excludes the zone of a bracketed IPv6
  host-and-port text that ends in white space.)\<close>

theorem normalizeIPAddress_idem:
  assumes "normalizeIPAddress v = ip" and "trim_space ip = ip"
  shows "ip = [] \<or> (\<exists>a. ip = addr_str (unmap a)) \<and> normalizeIPAddress ip = ip"
  using assms normalizeIPAddress_normal [of v] normalizeIPAddress_fixed
  by (auto simp: ip_normal_def)

theorem normalizeIPAddress_idem_witness:
  "normalizeIPAddress '' 10.0.0.7:443'' = ''10.0.0.7'' \<and>
   normalizeIPAddress ''10.0.0.7'' = ''10.0.0.7''"
proof -
  have n: "normalizeIPAddress '' 10.0.0.7:443'' = ''10.0.0.7''" by code_simp
  have t: "trim_space ''10.0.0.7'' = ''10.0.0.7''" by code_simp
  have "''10.0.0.7'' \<noteq> []" by (rule list.distinct(2))
  with normalizeIPAddress_idem [OF n t] have "normalizeIPAddress ''10.0.0.7'' = ''10.0.0.7''"
    by blast
  with n show ?thesis by (rule conjI)
qed

end
