(* ===== verification/Float64.thy ===== *)
theory Float64
  imports Prelude Complex_Main
begin

text \<open>
  The \<^verbatim>\<open>float64\<close> arithmetic of the token bucket in
  \<^verbatim>\<open>pkg/proxy/reverse_proxy_throttle.go\<close>: every operation is the exact result rounded to the
  nearest number with a 53-bit significand, ties to even.  The values the throttle computes stay
  far from the limits of the exponent, so neither overflow nor subnormal numbers are modelled.
  The laws the throttle relies on are the locale \<open>float64\<close>, which \<open>f64\<close> satisfies.
\<close>

section \<open>Rounding to an integer, ties to even\<close>

definition round_even :: "real \<Rightarrow> int" where
  "round_even r =
     (let f = \<lfloor>r\<rfloor>; d = r - of_int f in
      if d < 1 / 2 then f else if d > 1 / 2 then f + 1 else if even f then f else f + 1)"

lemma round_even_cases: "round_even r = \<lfloor>r\<rfloor> \<or> round_even r = \<lfloor>r\<rfloor> + 1"
  by (simp add: round_even_def Let_def)

lemma round_even_int [simp]: "round_even (of_int k) = k"
  by (simp add: round_even_def)

lemma round_even_mono: "r \<le> s \<Longrightarrow> round_even r \<le> round_even s"
proof -
  assume le: "r \<le> s"
  show ?thesis
  proof (cases "\<lfloor>r\<rfloor> = \<lfloor>s\<rfloor>")
    case True
    with le show ?thesis by (auto simp: round_even_def Let_def)
  next
    case False
    with le have "\<lfloor>r\<rfloor> + 1 \<le> \<lfloor>s\<rfloor>" using floor_mono [OF le] by simp
    then show ?thesis using round_even_cases [of r] round_even_cases [of s] by linarith
  qed
qed

lemma round_even_error: "of_int (round_even r) \<le> r + 1 / 2"
proof -
  have "of_int \<lfloor>r\<rfloor> \<le> r" by (rule of_int_floor_le)
  then show ?thesis by (auto simp: round_even_def Let_def) linarith
qed

lemma round_even_lower: "of_int k \<le> r \<Longrightarrow> k \<le> round_even r"
  using round_even_mono [of "of_int k" r] by simp

lemma round_even_upper: "r \<le> of_int k \<Longrightarrow> round_even r \<le> k"
  using round_even_mono [of r "of_int k"] by simp

section \<open>Rounding to 53 bits\<close>

text \<open>The exponent of the last significant bit of a positive number.\<close>

definition ulp_exp :: "real \<Rightarrow> int" where
  "ulp_exp x = \<lfloor>log 2 x\<rfloor> - 52"

definition f64_pos :: "real \<Rightarrow> real" where
  "f64_pos x = of_int (round_even (x / 2 powi (ulp_exp x))) * 2 powi (ulp_exp x)"

definition f64 :: "real \<Rightarrow> real" where
  "f64 x = (if x = 0 then 0 else if 0 < x then f64_pos x else - f64_pos (- x))"

lemma powi_pos [simp]: "(0 :: real) < 2 powi e"
  by (simp add: zero_less_power_int)

lemma powi_add: "(2 :: real) powi (a + b) = 2 powi a * 2 powi b"
  by (simp add: power_int_add)

lemma ulp_bounds:
  assumes "0 < x"
  shows "2 ^ 52 \<le> x / 2 powi (ulp_exp x)" and "x / 2 powi (ulp_exp x) < 2 ^ 53"
proof -
  let ?e = "\<lfloor>log 2 x\<rfloor>"
  have x: "x = 2 powr (log 2 x)" using assms by simp
  have "(2 :: real) powr (of_int ?e) \<le> 2 powr (log 2 x)" by (rule powr_mono) auto
  then have lo: "2 powi ?e \<le> x" using x by (simp add: powr_real_of_int')
  have "(2 :: real) powr (log 2 x) < 2 powr (of_int ?e + 1)" by (rule powr_less_mono) linarith+
  then have "x < 2 powr of_int (?e + 1)" using x by simp
  then have hi: "x < 2 powi (?e + 1)" by (subst (asm) powr_real_of_int') auto
  have e: "?e = 52 + ulp_exp x" by (simp add: ulp_exp_def)
  have "(2 :: real) powi (52 + ulp_exp x) = 2 ^ 52 * 2 powi (ulp_exp x)"
    by (simp add: powi_add)
  with lo e show "2 ^ 52 \<le> x / 2 powi (ulp_exp x)" by (simp add: pos_le_divide_eq)
  have "(2 :: real) powi (52 + ulp_exp x + 1) = 2 ^ 53 * 2 powi (ulp_exp x)"
    by (simp add: powi_add)
  with hi e show "x / 2 powi (ulp_exp x) < 2 ^ 53" by (simp add: pos_divide_less_eq)
qed

lemma ulp_exp_eqI:
  assumes "2 ^ 52 * 2 powi e \<le> x" and "x < 2 ^ 53 * 2 powi e"
  shows "ulp_exp x = e"
proof -
  have p: "0 < x"
    using assms(1) powi_pos [of e] by (meson less_le_trans mult_pos_pos zero_less_numeral zero_less_power)
  have "2 powi (52 + e) \<le> x" using assms(1) by (simp add: powi_add)
  then have "2 powr of_int (52 + e) \<le> x" by (subst powr_real_of_int') auto
  then have a: "of_int (52 + e) \<le> log 2 x" using p by (simp add: le_log_iff)
  have "x < 2 powi (53 + e)" using assms(2) by (simp add: powi_add)
  then have "x < 2 powr of_int (53 + e)" by (subst powr_real_of_int') auto
  then have b: "log 2 x < of_int (53 + e)" using p by (simp add: log_less_iff)
  from a b have "\<lfloor>log 2 x\<rfloor> = 52 + e" by (intro floor_unique) auto
  then show ?thesis by (simp add: ulp_exp_def)
qed

text \<open>A 53-bit significand is kept.\<close>

lemma f64_pos_exact:
  assumes "2 ^ 52 \<le> k" and "k \<le> 2 ^ 53"
  shows "f64_pos (of_int k * 2 powi e) = of_int k * 2 powi e"
proof (cases "k = 2 ^ 53")
  case False
  with assms have "(of_int k :: real) < 2 ^ 53" "(2 :: real) ^ 52 \<le> of_int k"
    by (simp_all del: power_numeral)
  then have "ulp_exp (of_int k * 2 powi e) = e"
    by (intro ulp_exp_eqI mult_strict_right_mono mult_right_mono) auto
  then show ?thesis by (simp add: f64_pos_def)
next
  case True
  then have v: "of_int k * 2 powi e = (2 :: real) ^ 52 * 2 powi (e + 1)"
    by (simp add: powi_add)
  have "ulp_exp (2 ^ 52 * 2 powi (e + 1)) = e + 1"
    by (rule ulp_exp_eqI) (auto intro: mult_strict_right_mono)
  moreover have "round_even (2 ^ 52) = 2 ^ 52"
    using round_even_int [of "2 ^ 52"] by simp
  ultimately have "f64_pos (2 ^ 52 * 2 powi (e + 1)) = 2 ^ 52 * 2 powi (e + 1)"
    by (simp add: f64_pos_def)
  with v show ?thesis by simp
qed

lemma round_even_range:
  assumes "0 < x"
  shows "2 ^ 52 \<le> round_even (x / 2 powi (ulp_exp x))"
    and "round_even (x / 2 powi (ulp_exp x)) \<le> 2 ^ 53"
  using ulp_bounds [OF assms]
  by (auto intro!: round_even_lower round_even_upper simp: less_imp_le)

lemma f64_pos_idem: "0 < x \<Longrightarrow> f64_pos (f64_pos x) = f64_pos x"
  using f64_pos_exact [OF round_even_range] by (simp add: f64_pos_def [of x])

lemma f64_pos_positive: "0 < x \<Longrightarrow> 0 < f64_pos x"
proof -
  assume "0 < x"
  then have "0 < round_even (x / 2 powi (ulp_exp x))"
    using round_even_range(1) [of x] by (meson less_le_trans zero_less_numeral zero_less_power)
  then show ?thesis by (simp add: f64_pos_def)
qed

lemma f64_pos_error: "0 < x \<Longrightarrow> f64_pos x \<le> x * (1 + 1 / 2 ^ 53)"
proof -
  assume x: "0 < x"
  let ?u = "(2 :: real) powi (ulp_exp x)"
  have "of_int (round_even (x / ?u)) * ?u \<le> (x / ?u + 1 / 2) * ?u"
    by (rule mult_right_mono [OF round_even_error]) (simp add: less_imp_le)
  then have "f64_pos x \<le> x + ?u / 2" by (simp add: f64_pos_def distrib_right)
  moreover have "2 ^ 52 * ?u \<le> x" using ulp_bounds(1) [OF x] by (simp add: pos_le_divide_eq)
  ultimately show ?thesis by (simp add: field_simps)
qed

lemma f64_pos_mono: "0 < x \<Longrightarrow> x \<le> y \<Longrightarrow> f64_pos x \<le> f64_pos y"
proof -
  assume x: "0 < x" and le: "x \<le> y"
  then have y: "0 < y" by simp
  show ?thesis
  proof (cases "ulp_exp x = ulp_exp y")
    case True
    have "x / 2 powi (ulp_exp y) \<le> y / 2 powi (ulp_exp y)"
      using le by (intro divide_right_mono) (simp_all add: less_imp_le)
    then have "round_even (x / 2 powi (ulp_exp y)) \<le> round_even (y / 2 powi (ulp_exp y))"
      by (rule round_even_mono)
    with True show ?thesis by (simp add: f64_pos_def mult_right_mono less_imp_le)
  next
    case False
    have "log 2 x \<le> log 2 y" using x le by simp
    with False have "ulp_exp x + 1 \<le> ulp_exp y"
      using floor_mono [of "log 2 x" "log 2 y"] by (simp add: ulp_exp_def)
    then have p: "(2 :: real) powi (ulp_exp x + 1) \<le> 2 powi (ulp_exp y)"
      by (intro power_int_increasing) auto
    have "f64_pos x \<le> 2 ^ 53 * 2 powi (ulp_exp x)"
    proof -
      have "real_of_int (round_even (x / 2 powi (ulp_exp x))) \<le> 2 ^ 53"
        using round_even_range(2) [OF x] by (simp del: power_numeral)
      then show ?thesis unfolding f64_pos_def by (rule mult_right_mono) (simp add: less_imp_le)
    qed
    also have "\<dots> = 2 ^ 52 * 2 powi (ulp_exp x + 1)" by (simp add: powi_add)
    also have "\<dots> \<le> 2 ^ 52 * 2 powi (ulp_exp y)" using p by simp
    also have "\<dots> \<le> f64_pos y"
    proof -
      have "2 ^ 52 \<le> real_of_int (round_even (y / 2 powi (ulp_exp y)))"
        using round_even_range(1) [OF y] by (simp del: power_numeral)
      then show ?thesis unfolding f64_pos_def by (rule mult_right_mono) (simp add: less_imp_le)
    qed
    finally show ?thesis .
  qed
qed

text \<open>Integers of at most 53 bits are exact.\<close>

lemma f64_pos_int:
  assumes "0 < k" and "k \<le> 2 ^ 53"
  shows "f64_pos (of_int k) = of_int k"
proof -
  let ?e = "ulp_exp (of_int k)"
  have x: "(0 :: real) < of_int k" using assms by simp
  show ?thesis
  proof (cases "?e \<le> 0")
    case True
    then obtain n where n: "?e = - int n" by (metis neg_int_cases int_cases2 neg_le_0_iff_le of_nat_0_le_iff
        add.inverse_neutral antisym of_nat_0)
    have u: "(2 :: real) powi (- int n) = inverse (2 ^ n)" by (simp add: power_int_minus)
    have "(of_int k :: real) / 2 powi (- int n) = of_int (k * 2 ^ n)"
      unfolding u by (simp add: divide_inverse)
    then have "round_even (of_int k / 2 powi (- int n)) = k * 2 ^ n"
      by (simp only: round_even_int)
    then show ?thesis unfolding f64_pos_def n u by (simp add: divide_inverse)
  next
    case False
    then have "(2 :: real) powi 1 \<le> 2 powi ?e" by (intro power_int_increasing) auto
    moreover have "2 ^ 52 * 2 powi ?e \<le> (of_int k :: real)"
      using ulp_bounds(1) [OF x] by (simp add: pos_le_divide_eq)
    moreover have "(of_int k :: real) \<le> 2 ^ 53"
      using assms(2) by (simp del: power_numeral)
    ultimately have "(2 :: real) ^ 53 \<le> of_int k" by simp
    then have "k = 2 ^ 53" using assms(2) by (simp del: power_numeral)
    then show ?thesis using f64_pos_exact [of "2 ^ 53" 0] by simp
  qed
qed

section \<open>The laws of the throttle's arithmetic\<close>

locale float64 =
  fixes fl :: "real \<Rightarrow> real"
  assumes fl_mono: "x \<le> y \<Longrightarrow> fl x \<le> fl y"
    and fl_idem: "fl (fl x) = fl x"
    and fl_int: "0 \<le> k \<Longrightarrow> k \<le> 2 ^ 53 \<Longrightarrow> fl (of_int k) = of_int k"
    and fl_error: "0 \<le> x \<Longrightarrow> fl x \<le> x * (1 + 1 / 2 ^ 53)"
begin

lemma fl_0 [simp]: "fl 0 = 0"
  using fl_int [of 0] by simp

lemma fl_1 [simp]: "fl 1 = 1"
  using fl_int [of 1] by simp

lemma fl_nonneg: "0 \<le> x \<Longrightarrow> 0 \<le> fl x"
  using fl_mono [of 0 x] by simp

text \<open>A bound that is itself a \<^verbatim>\<open>float64\<close> number survives rounding.\<close>

lemma fl_le: "x \<le> fl y \<Longrightarrow> fl x \<le> fl y"
  using fl_mono [of x "fl y"] by (simp add: fl_idem)

end

lemma f64_mono: "x \<le> y \<Longrightarrow> f64 x \<le> f64 y"
proof -
  assume le: "x \<le> y"
  consider "0 < x" | "x \<le> 0" "0 \<le> y" | "y < 0" by linarith
  then show ?thesis
  proof cases
    case 2
    have "f64 x \<le> 0" using 2 f64_pos_positive [of "- x"] by (auto simp: f64_def)
    moreover have "0 \<le> f64 y" using 2 f64_pos_positive [of y] by (auto simp: f64_def)
    ultimately show ?thesis by simp
  qed (use le in \<open>auto simp: f64_def intro!: f64_pos_mono\<close>)
qed

interpretation f64: float64 f64
proof
  show "f64 x \<le> f64 y" if "x \<le> y" for x y using that by (rule f64_mono)
  show "f64 (f64 x) = f64 x" for x
    using f64_pos_positive [of x] f64_pos_positive [of "- x"]
    by (auto simp: f64_def f64_pos_idem)
  show "f64 (of_int k) = of_int k" if "0 \<le> k" "k \<le> 2 ^ 53" for k
    using that by (auto simp: f64_def f64_pos_int)
  show "f64 x \<le> x * (1 + 1 / 2 ^ 53)" if "0 \<le> x" for x
    using that f64_pos_error [of x] by (auto simp: f64_def)
qed

end
