(* ===== verification/Throttle.thy ===== *)
theory Throttle
  imports ClientIP Float64 "HOL-Library.Signed_Division"
begin

text \<open>
  The per-client rate limiter of \<^verbatim>\<open>pkg/proxy/reverse_proxy_throttle.go\<close>: 64 shards of token
  buckets keyed by client identity, each evaluation atomic under the shard's lock.  \<open>fl\<close> is the
  rounding of \<^verbatim>\<open>float64\<close> arithmetic; the handler runs with \<open>f64\<close>.  The lemmas show
  that a bucket never leaves its bounds, that a block lasts, that clients do not influence each
  other, and how many requests a client can get through in a window.
\<close>

section \<open>Data\<close>

record throttle_config =
  tc_Enabled :: bool
  tc_RequestsPerSecond :: int
  tc_Burst :: int
  tc_BlockSeconds :: int

definition zero_throttle_config :: throttle_config where
  "zero_throttle_config =
     \<lparr>tc_Enabled = False, tc_RequestsPerSecond = 0, tc_Burst = 0, tc_BlockSeconds = 0\<rparr>"

record throttle_decision =
  td_Allowed :: bool
  td_NewlyBlocked :: bool
  td_BlockedUntil :: time
  td_Config :: throttle_config

record throttle_entry =
  te_tokens :: real
  te_lastSeen :: time
  te_blockedUntil :: time

record throttle_shard =
  sh_entries :: "(string \<times> throttle_entry) list"
  sh_nextCleanup :: time

record throttle =
  th_config :: throttle_config
  th_shards :: "throttle_shard list"

definition shard_count :: nat where
  "shard_count = 64"

definition cleanup_interval :: duration where
  "cleanup_interval = 60 * second"

definition minimum_entry_ttl :: duration where
  "minimum_entry_ttl = 120 * second"

section \<open>Configuration\<close>

definition normalizeReverseProxyThrottleConfig :: "throttle_config \<Rightarrow> throttle_config" where
  "normalizeReverseProxyThrottleConfig cfg =
     (if \<not> tc_Enabled cfg then cfg
      else
        (let cfg = (if tc_RequestsPerSecond cfg \<le> 0 then cfg\<lparr>tc_RequestsPerSecond := 100\<rparr> else cfg);
             cfg = (if tc_Burst cfg \<le> 0 then cfg\<lparr>tc_Burst := 200\<rparr> else cfg);
             cfg = (if tc_BlockSeconds cfg \<le> 0 then cfg\<lparr>tc_BlockSeconds := 30\<rparr> else cfg)
         in cfg))"

definition empty_shard :: throttle_shard where
  "empty_shard = \<lparr>sh_entries = [], sh_nextCleanup = zero_time\<rparr>"

definition newReverseProxyThrottle :: "throttle_config \<Rightarrow> throttle" where
  "newReverseProxyThrottle cfg =
     \<lparr>th_config = normalizeReverseProxyThrottleConfig cfg,
      th_shards = replicate shard_count empty_shard\<rparr>"

definition updateThrottleConfig :: "throttle_config \<Rightarrow> throttle \<Rightarrow> throttle" where
  "updateThrottleConfig cfg t =
     (let t = t\<lparr>th_config := normalizeReverseProxyThrottleConfig cfg\<rparr> in
      if tc_Enabled (th_config t) then t
      else t\<lparr>th_shards :=
              map (\<lambda>s. s\<lparr>sh_entries := [], sh_nextCleanup := zero_time\<rparr>) (th_shards t)\<rparr>)"

section \<open>Shards\<close>

text \<open>FNV-1a over the bytes, in \<^verbatim>\<open>uint32\<close>.\<close>

definition reverseProxyThrottleHash :: "string \<Rightarrow> 32 word" where
  "reverseProxyThrottleHash identity =
     foldl (\<lambda>hash c. (xor hash (word_of_nat (of_char c))) * 16777619) 2166136261 identity"

definition shardForIdentity :: "string \<Rightarrow> nat" where
  "shardForIdentity identity = unat (reverseProxyThrottleHash identity mod 64)"

text \<open>Both products are \<^verbatim>\<open>int64\<close> products.\<close>

definition reverseProxyThrottleEntryTTL :: "throttle_config \<Rightarrow> duration" where
  "reverseProxyThrottleEntryTTL cfg =
     (let ttl = wrap64 (wrap64 (tc_BlockSeconds cfg * 2) * second) in
      if ttl < minimum_entry_ttl then minimum_entry_ttl else ttl)"

definition keep_entry :: "time \<Rightarrow> throttle_config \<Rightarrow> throttle_entry \<Rightarrow> bool" where
  "keep_entry now cfg e =
     (te_blockedUntil e > now \<or>
      \<not> (time_is_zero (te_lastSeen e) \<or>
         time_sub now (te_lastSeen e) > reverseProxyThrottleEntryTTL cfg))"

definition cleanupLocked :: "time \<Rightarrow> throttle_config \<Rightarrow> throttle_shard \<Rightarrow> throttle_shard" where
  "cleanupLocked now cfg s =
     (if now < sh_nextCleanup s then s
      else s\<lparr>sh_entries := filter (\<lambda>(_, e). keep_entry now cfg e) (sh_entries s),
             sh_nextCleanup := now + cleanup_interval\<rparr>)"

section \<open>One request\<close>

text \<open>\<^verbatim>\<open>Duration.Seconds\<close>: whole seconds plus the rest divided by 1e9, rounded at each step.\<close>

definition seconds_of :: "(real \<Rightarrow> real) \<Rightarrow> duration \<Rightarrow> real" where
  "seconds_of fl d =
     fl (fl (of_int (d sdiv second)) + fl (fl (of_int (d smod second)) / 1000000000))"

definition fresh_entry :: "(real \<Rightarrow> real) \<Rightarrow> throttle_config \<Rightarrow> throttle_entry" where
  "fresh_entry fl cfg =
     \<lparr>te_tokens = fl (of_int (tc_Burst cfg)), te_lastSeen = zero_time, te_blockedUntil = zero_time\<rparr>"

text \<open>A block that has run out is cleared, and an empty bucket is filled again.\<close>

definition expire_block :: "(real \<Rightarrow> real) \<Rightarrow> throttle_config \<Rightarrow> time \<Rightarrow> throttle_entry \<Rightarrow> throttle_entry" where
  "expire_block fl cfg now e =
     (if \<not> time_is_zero (te_blockedUntil e) \<and> \<not> te_blockedUntil e > now then
        (let e = e\<lparr>te_blockedUntil := zero_time\<rparr> in
         if te_tokens e < 1 then e\<lparr>te_tokens := fl (of_int (tc_Burst cfg))\<rparr> else e)
      else e)"

definition refill :: "(real \<Rightarrow> real) \<Rightarrow> throttle_config \<Rightarrow> time \<Rightarrow> throttle_entry \<Rightarrow> throttle_entry" where
  "refill fl cfg now e =
     (if time_is_zero (te_lastSeen e) then e
      else
        (let elapsed = seconds_of fl (time_sub now (te_lastSeen e)) in
         if elapsed > 0 then
           (let tokens = fl (te_tokens e + fl (elapsed * fl (of_int (tc_RequestsPerSecond cfg)))) in
            e\<lparr>te_tokens := (if tokens > fl (of_int (tc_Burst cfg))
                              then fl (of_int (tc_Burst cfg)) else tokens)\<rparr>)
         else e))"

text \<open>The body of \<^verbatim>\<open>evaluate\<close> once the entry is at hand.\<close>

definition evaluate_entry ::
    "(real \<Rightarrow> real) \<Rightarrow> throttle_config \<Rightarrow> time \<Rightarrow> throttle_entry \<Rightarrow> throttle_decision \<times> throttle_entry" where
  "evaluate_entry fl cfg now e =
     (let decision = \<lparr>td_Allowed = True, td_NewlyBlocked = False, td_BlockedUntil = zero_time,
                      td_Config = cfg\<rparr> in
      if te_blockedUntil e > now then
        (decision\<lparr>td_Allowed := False, td_BlockedUntil := te_blockedUntil e\<rparr>,
         e\<lparr>te_lastSeen := now\<rparr>)
      else
        (let e = refill fl cfg now (expire_block fl cfg now e);
             e = e\<lparr>te_lastSeen := now\<rparr> in
         if te_tokens e < 1 then
           (let e = e\<lparr>te_blockedUntil := now + wrap64 (tc_BlockSeconds cfg * second)\<rparr> in
            (decision\<lparr>td_Allowed := False, td_NewlyBlocked := True,
                       td_BlockedUntil := te_blockedUntil e\<rparr>, e))
         else (decision, e\<lparr>te_tokens := fl (te_tokens e - 1)\<rparr>)))"

definition open_decision :: throttle_decision where
  "open_decision = \<lparr>td_Allowed = True, td_NewlyBlocked = False, td_BlockedUntil = zero_time,
                    td_Config = zero_throttle_config\<rparr>"

definition throttle_evaluate ::
    "(real \<Rightarrow> real) \<Rightarrow> string \<Rightarrow> time \<Rightarrow> throttle \<Rightarrow> throttle_decision \<times> throttle" where
  "throttle_evaluate fl clientIP now t =
     (let identity = normalizeClientIP clientIP in
      if identity = [] then (open_decision, t)
      else
        (let cfg = normalizeReverseProxyThrottleConfig (th_config t) in
         if \<not> tc_Enabled cfg then (open_decision\<lparr>td_Config := cfg\<rparr>, t)
         else
           (let i = shardForIdentity identity;
                shard = cleanupLocked now cfg (th_shards t ! i);
                e = (case al_get (sh_entries shard) identity of
                       Some e \<Rightarrow> e | None \<Rightarrow> fresh_entry fl cfg) in
            case evaluate_entry fl cfg now e of (decision, e') \<Rightarrow>
              (decision,
               t\<lparr>th_shards := (th_shards t)[i :=
                   shard\<lparr>sh_entries := al_put identity e' (sh_entries shard)\<rparr>]\<rparr>))))"

text \<open>The method is called on a pointer, and a nil throttle lets everything pass.\<close>

fun evaluate_ptr ::
    "(real \<Rightarrow> real) \<Rightarrow> string \<Rightarrow> time \<Rightarrow> throttle option \<Rightarrow> throttle_decision \<times> throttle option" where
  "evaluate_ptr fl clientIP now None = (open_decision, None)"
| "evaluate_ptr fl clientIP now (Some t) = map_prod id Some (throttle_evaluate fl clientIP now t)"

section \<open>Sequences of operations\<close>

text \<open>What the other goroutines may do between two requests of a client.\<close>

datatype throttle_event = Request string time | SetConfig throttle_config

fun throttle_step :: "(real \<Rightarrow> real) \<Rightarrow> throttle_event \<Rightarrow> throttle \<Rightarrow> throttle" where
  "throttle_step fl (Request ip now) t = snd (throttle_evaluate fl ip now t)"
| "throttle_step fl (SetConfig cfg) t = updateThrottleConfig cfg t"

definition throttle_run :: "(real \<Rightarrow> real) \<Rightarrow> throttle_event list \<Rightarrow> throttle \<Rightarrow> throttle" where
  "throttle_run fl evs t = foldl (\<lambda>t ev. throttle_step fl ev t) t evs"

text \<open>The decisions a list of requests gets, with the identity each was made for.\<close>

fun throttle_decisions ::
    "(real \<Rightarrow> real) \<Rightarrow> (string \<times> time) list \<Rightarrow> throttle \<Rightarrow> (string \<times> throttle_decision) list" where
  "throttle_decisions fl [] t = []"
| "throttle_decisions fl ((ip, now) # rs) t =
     (case throttle_evaluate fl ip now t of
        (d, t') \<Rightarrow> (normalizeClientIP ip, d) # throttle_decisions fl rs t')"

definition admitted :: "string \<Rightarrow> (string \<times> throttle_decision) list \<Rightarrow> nat" where
  "admitted identity ds = length (filter (\<lambda>(i, d). i = identity \<and> td_Allowed d) ds)"

definition blocks_started :: "string \<Rightarrow> (string \<times> throttle_decision) list \<Rightarrow> nat" where
  "blocks_started identity ds = length (filter (\<lambda>(i, d). i = identity \<and> td_NewlyBlocked d) ds)"

definition attempts :: "string \<Rightarrow> (string \<times> throttle_decision) list \<Rightarrow> nat" where
  "attempts identity ds = length (filter (\<lambda>(i, d). i = identity) ds)"

section \<open>The table of one client\<close>

definition entry_of :: "throttle \<Rightarrow> string \<Rightarrow> throttle_entry option" where
  "entry_of t identity = al_get (sh_entries (th_shards t ! shardForIdentity identity)) identity"

definition throttle_ok :: "throttle \<Rightarrow> bool" where
  "throttle_ok t =
     (length (th_shards t) = shard_count \<and> (\<forall>s \<in> set (th_shards t). al_ok (sh_entries s)))"

lemma shardForIdentity_less [simp]: "shardForIdentity identity < shard_count"
  by (simp add: shardForIdentity_def shard_count_def unat_mod)

lemma throttle_ok_new [simp]: "throttle_ok (newReverseProxyThrottle cfg)"
  by (auto simp: throttle_ok_def newReverseProxyThrottle_def empty_shard_def)

lemma entry_of_new [simp]: "entry_of (newReverseProxyThrottle cfg) i = None"
  by (simp add: entry_of_def newReverseProxyThrottle_def empty_shard_def al_get_Nil)

lemma normalize_config_idem [simp]:
  "normalizeReverseProxyThrottleConfig (normalizeReverseProxyThrottleConfig cfg) =
   normalizeReverseProxyThrottleConfig cfg"
  by (simp add: normalizeReverseProxyThrottleConfig_def Let_def)

lemma normalize_config_enabled [simp]:
  "tc_Enabled (normalizeReverseProxyThrottleConfig cfg) = tc_Enabled cfg"
  by (simp add: normalizeReverseProxyThrottleConfig_def Let_def)

lemma normalize_config_positive:
  "tc_Enabled cfg \<Longrightarrow> 0 < tc_RequestsPerSecond (normalizeReverseProxyThrottleConfig cfg)"
  "tc_Enabled cfg \<Longrightarrow> 0 < tc_Burst (normalizeReverseProxyThrottleConfig cfg)"
  "tc_Enabled cfg \<Longrightarrow> 0 < tc_BlockSeconds (normalizeReverseProxyThrottleConfig cfg)"
  by (auto simp: normalizeReverseProxyThrottleConfig_def Let_def)

text \<open>The configuration in force.\<close>

abbreviation cfg_of :: "throttle \<Rightarrow> throttle_config" where
  "cfg_of t \<equiv> normalizeReverseProxyThrottleConfig (th_config t)"

definition cleaned :: "time \<Rightarrow> throttle \<Rightarrow> string \<Rightarrow> throttle_entry option" where
  "cleaned now t identity =
     al_get (sh_entries (cleanupLocked now (cfg_of t) (th_shards t ! shardForIdentity identity))) identity"

lemma al_ok_cleanup: "al_ok (sh_entries s) \<Longrightarrow> al_ok (sh_entries (cleanupLocked now cfg s))"
  by (auto simp: cleanupLocked_def intro: al_ok_filter)

lemma cleaned_cases:
  assumes "throttle_ok t"
  shows "cleaned now t i = entry_of t i \<or>
    cleaned now t i = None \<and> (\<exists>e. entry_of t i = Some e \<and> \<not> keep_entry now (cfg_of t) e)"
proof -
  have "al_ok (sh_entries (th_shards t ! shardForIdentity i))"
    using assms by (auto simp: throttle_ok_def)
  then show ?thesis
    by (auto simp: cleaned_def entry_of_def cleanupLocked_def al_get_filter split: option.splits)
qed

lemma evaluate_inactive:
  "normalizeClientIP ip = [] \<or> \<not> tc_Enabled (th_config t) \<Longrightarrow>
     snd (throttle_evaluate fl ip now t) = t \<and> td_Allowed (fst (throttle_evaluate fl ip now t)) \<and>
     \<not> td_NewlyBlocked (fst (throttle_evaluate fl ip now t))"
  by (auto simp: throttle_evaluate_def Let_def open_decision_def)

text \<open>One evaluation, seen through the table: the client's own entry takes the step, every other
  entry of the shard is at most swept.\<close>

lemma evaluate_active:
  assumes "throttle_ok t" and "normalizeClientIP ip = i" and "i \<noteq> []" and "tc_Enabled (th_config t)"
    and "throttle_evaluate fl ip now t = (d, t')"
  shows "\<exists>e'. evaluate_entry fl (cfg_of t) now
              (case cleaned now t i of Some e \<Rightarrow> e | None \<Rightarrow> fresh_entry fl (cfg_of t)) = (d, e') \<and>
            entry_of t' i = Some e'"
    and "th_config t' = th_config t" and "throttle_ok t'"
    and "j \<noteq> i \<Longrightarrow> entry_of t' j = entry_of t j \<or> entry_of t' j = cleaned now t j"
proof -
  let ?k = "shardForIdentity i"
  let ?s = "cleanupLocked now (cfg_of t) (th_shards t ! ?k)"
  let ?e = "case cleaned now t i of Some e \<Rightarrow> e | None \<Rightarrow> fresh_entry fl (cfg_of t)"
  have len: "?k < length (th_shards t)" using assms(1) by (simp add: throttle_ok_def)
  obtain e' where ev: "evaluate_entry fl (cfg_of t) now ?e = (d, e')"
    and t': "t' = t\<lparr>th_shards := (th_shards t)[?k := ?s\<lparr>sh_entries := al_put i e' (sh_entries ?s)\<rparr>]\<rparr>"
    using assms(2-5) by (auto simp: throttle_evaluate_def Let_def cleaned_def split: prod.splits)
  show "\<exists>e'. evaluate_entry fl (cfg_of t) now ?e = (d, e') \<and> entry_of t' i = Some e'"
    using ev t' len by (auto simp: entry_of_def al_get_put)
  show "th_config t' = th_config t" using t' by simp
  have "al_ok (sh_entries (th_shards t ! ?k))" using assms(1) len by (auto simp: throttle_ok_def)
  then have "al_ok (al_put i e' (sh_entries ?s))" by (intro al_ok_put al_ok_cleanup)
  then show "throttle_ok t'"
    using assms(1) t' by (auto simp: throttle_ok_def dest!: set_update_subset_insert [THEN subsetD])
  show "j \<noteq> i \<Longrightarrow> entry_of t' j = entry_of t j \<or> entry_of t' j = cleaned now t j"
    using t' len by (cases "shardForIdentity j = ?k") (auto simp: entry_of_def cleaned_def al_get_put)
qed

lemma throttle_ok_evaluate: "throttle_ok t \<Longrightarrow> throttle_ok (snd (throttle_evaluate fl ip now t))"
  using evaluate_active(3) [of t ip _ fl now] evaluate_inactive [of ip t fl now]
  by (cases "throttle_evaluate fl ip now t") (metis snd_conv)

lemma throttle_ok_step: "throttle_ok t \<Longrightarrow> throttle_ok (throttle_step fl ev t)"
  by (cases ev) (simp add: throttle_ok_evaluate, auto simp: updateThrottleConfig_def throttle_ok_def Let_def)

lemma throttle_run_simps [simp]:
  "throttle_run fl [] t = t"
  "throttle_run fl (ev # evs) t = throttle_run fl evs (throttle_step fl ev t)"
  by (simp_all add: throttle_run_def)

lemma throttle_ok_run: "throttle_ok t \<Longrightarrow> throttle_ok (throttle_run fl evs t)"
  by (induction evs arbitrary: t) (auto simp: throttle_ok_step)

section \<open>A block lasts\<close>

lemma evaluate_entry_blocked:
  "te_blockedUntil e > now \<Longrightarrow>
     evaluate_entry fl cfg now e =
       (\<lparr>td_Allowed = False, td_NewlyBlocked = False, td_BlockedUntil = te_blockedUntil e,
         td_Config = cfg\<rparr>, e\<lparr>te_lastSeen := now\<rparr>)"
  by (simp add: evaluate_entry_def Let_def)

lemma evaluate_entry_newly:
  "evaluate_entry fl cfg now e = (d, e') \<Longrightarrow> td_NewlyBlocked d \<Longrightarrow>
     te_blockedUntil e' = now + wrap64 (tc_BlockSeconds cfg * second) \<and>
     td_BlockedUntil d = te_blockedUntil e' \<and> te_lastSeen e' = now \<and> te_tokens e' < 1 \<and> \<not> td_Allowed d"
  by (auto simp: evaluate_entry_def Let_def split: if_splits)

lemma cleaned_blocked:
  assumes "throttle_ok t" and "entry_of t i = Some e" and "te_blockedUntil e > now"
  shows "cleaned now t i = Some e"
  using cleaned_cases [OF assms(1), of now i] assms(2,3) by (auto simp: keep_entry_def)

definition blocked_until :: "string \<Rightarrow> time \<Rightarrow> throttle \<Rightarrow> bool" where
  "blocked_until i u t =
     (throttle_ok t \<and> tc_Enabled (th_config t) \<and>
      (\<exists>e. entry_of t i = Some e \<and> te_blockedUntil e = u))"

lemma blocked_until_request:
  assumes "blocked_until i u t" and "now < u"
  shows "blocked_until i u (snd (throttle_evaluate fl ip now t))"
proof (cases "normalizeClientIP ip = []")
  case True
  then show ?thesis using assms evaluate_inactive [of ip t fl now] by simp
next
  case False
  from assms obtain e where b: "throttle_ok t" "tc_Enabled (th_config t)" "entry_of t i = Some e"
      "te_blockedUntil e = u" "te_blockedUntil e > now"
    by (auto simp: blocked_until_def)
  obtain d t' where ev: "throttle_evaluate fl ip now t = (d, t')" by force
  note act = evaluate_active [OF b(1) refl False b(2) ev]
  have c: "cleaned now t i = Some e" using b by (simp add: cleaned_blocked)
  have "\<exists>e'. entry_of t' i = Some e' \<and> te_blockedUntil e' = u"
  proof (cases "normalizeClientIP ip = i")
    case True
    then show ?thesis using act(1) c b(4,5) by (auto simp: evaluate_entry_blocked)
  next
    case False
    then have "entry_of t' i = Some e" using act(4) [of i] b(3) c by auto
    then show ?thesis using b(4) by simp
  qed
  with ev b(2) act(2,3) show ?thesis by (simp add: blocked_until_def)
qed

lemma blocked_until_denied:
  assumes "blocked_until i u t" and "now < u" and "normalizeClientIP ip = i" and "i \<noteq> []"
  shows "\<not> td_Allowed (fst (throttle_evaluate fl ip now t))"
proof -
  from assms obtain e where b: "throttle_ok t" "tc_Enabled (th_config t)" "entry_of t i = Some e"
      "te_blockedUntil e > now"
    by (auto simp: blocked_until_def)
  obtain d t' where ev: "throttle_evaluate fl ip now t = (d, t')" by force
  from evaluate_active(1) [OF b(1) assms(3,4) b(2) ev] cleaned_blocked [OF b(1,3,4)] b(4)
  show ?thesis using ev by (auto simp: evaluate_entry_blocked)
qed

definition keeps_block :: "time \<Rightarrow> throttle_event \<Rightarrow> bool" where
  "keeps_block u ev =
     (case ev of Request _ now \<Rightarrow> now < u | SetConfig cfg \<Rightarrow> tc_Enabled cfg)"

lemma blocked_until_run:
  "blocked_until i u t \<Longrightarrow> list_all (keeps_block u) evs \<Longrightarrow> blocked_until i u (throttle_run fl evs t)"
proof (induction evs arbitrary: t)
  case (Cons ev evs)
  have "blocked_until i u (throttle_step fl ev t)"
  proof (cases ev)
    case (Request ip now)
    with Cons.prems show ?thesis by (simp add: keeps_block_def blocked_until_request)
  next
    case (SetConfig cfg)
    with Cons.prems show ?thesis
      by (auto simp: keeps_block_def blocked_until_def updateThrottleConfig_def throttle_ok_def entry_of_def)
  qed
  with Cons show ?case by simp
qed simp

lemma newly_blocked:
  assumes "throttle_ok t" and "throttle_evaluate fl ip now t = (d, t')" and "td_NewlyBlocked d"
  shows "blocked_until (normalizeClientIP ip) (now + wrap64 (tc_BlockSeconds (cfg_of t) * second)) t'"
    and "normalizeClientIP ip \<noteq> []"
proof -
  have a: "normalizeClientIP ip \<noteq> []" "tc_Enabled (th_config t)"
    using assms(2,3) evaluate_inactive [of ip t fl now] by auto
  note act = evaluate_active [OF assms(1) refl a assms(2)]
  from act(1) obtain e' where "entry_of t' (normalizeClientIP ip) = Some e'"
      "te_blockedUntil e' = now + wrap64 (tc_BlockSeconds (cfg_of t) * second)"
    using evaluate_entry_newly assms(3) by blast
  with a act(2,3) show "blocked_until (normalizeClientIP ip)
      (now + wrap64 (tc_BlockSeconds (cfg_of t) * second)) t'"
    by (simp add: blocked_until_def)
  show "normalizeClientIP ip \<noteq> []" by (rule a)
qed

section \<open>Buckets keep their bounds\<close>

abbreviation cap :: "(real \<Rightarrow> real) \<Rightarrow> throttle_config \<Rightarrow> real" where
  "cap fl cfg \<equiv> fl (of_int (tc_Burst cfg))"

definition bucket_ok :: "(real \<Rightarrow> real) \<Rightarrow> throttle_config \<Rightarrow> throttle_entry \<Rightarrow> bool" where
  "bucket_ok fl cfg e = (0 \<le> te_tokens e \<and> te_tokens e \<le> cap fl cfg)"

definition buckets_ok :: "(real \<Rightarrow> real) \<Rightarrow> throttle \<Rightarrow> bool" where
  "buckets_ok fl t =
     (throttle_ok t \<and> (\<forall>i e. entry_of t i = Some e \<longrightarrow> bucket_ok fl (cfg_of t) e))"

definition running :: "throttle_config \<Rightarrow> bool" where
  "running cfg = (tc_Enabled cfg \<and> normalizeReverseProxyThrottleConfig cfg = cfg)"

lemma running_positive:
  assumes "running cfg"
  shows "0 < tc_RequestsPerSecond cfg" "0 < tc_Burst cfg" "0 < tc_BlockSeconds cfg"
  using normalize_config_positive [of cfg] assms by (auto simp: running_def)

lemma signed_second:
  "0 \<le> d \<Longrightarrow> d sdiv second = d div second" "0 \<le> d \<Longrightarrow> d smod second = d mod second"
  by (auto simp: signed_divide_int_def signed_modulo_int_def second_def sgn_if)

lemma running_cfg_of: "tc_Enabled (th_config t) \<Longrightarrow> running (cfg_of t)"
  by (simp add: running_def)

context float64
begin

lemma cap_nonneg: "running cfg \<Longrightarrow> 0 \<le> cap fl cfg"
  using running_positive(2) by (simp add: fl_nonneg less_imp_le)

lemma seconds_nonneg: "0 \<le> d \<Longrightarrow> 0 \<le> seconds_of fl d"
  unfolding seconds_of_def
  by (intro fl_nonneg add_nonneg_nonneg divide_nonneg_pos) (simp_all add: signed_second, simp_all add: second_def pos_imp_zdiv_nonneg_iff)

lemma fresh_ok: "running cfg \<Longrightarrow> bucket_ok fl cfg (fresh_entry fl cfg)"
  by (simp add: bucket_ok_def fresh_entry_def cap_nonneg)

lemma expire_ok: "running cfg \<Longrightarrow> bucket_ok fl cfg e \<Longrightarrow> bucket_ok fl cfg (expire_block fl cfg now e)"
  by (auto simp: bucket_ok_def expire_block_def Let_def cap_nonneg)

lemma refill_ok:
  assumes "running cfg" and "bucket_ok fl cfg e"
  shows "bucket_ok fl cfg (refill fl cfg now e)"
proof -
  let ?el = "seconds_of fl (time_sub now (te_lastSeen e))"
  have "0 \<le> fl (te_tokens e + fl (?el * fl (of_int (tc_RequestsPerSecond cfg))))" if "0 < ?el"
    using that assms running_positive(1) [OF assms(1)]
    by (intro fl_nonneg add_nonneg_nonneg mult_nonneg_nonneg) (auto simp: bucket_ok_def)
  then show ?thesis
    using assms cap_nonneg [OF assms(1)] by (auto simp: bucket_ok_def refill_def Let_def)
qed

lemma take_token_ok:
  "bucket_ok fl cfg e \<Longrightarrow> 1 \<le> te_tokens e \<Longrightarrow> bucket_ok fl cfg (e\<lparr>te_tokens := fl (te_tokens e - 1)\<rparr>)"
  by (auto simp: bucket_ok_def intro: fl_nonneg fl_le)

lemma evaluate_entry_ok:
  assumes "running cfg" and "bucket_ok fl cfg e" and "evaluate_entry fl cfg now e = (d, e')"
  shows "bucket_ok fl cfg e'"
proof -
  let ?e = "refill fl cfg now (expire_block fl cfg now e)"
  have ok: "bucket_ok fl cfg ?e" by (intro refill_ok expire_ok assms)
  then have "bucket_ok fl cfg (?e\<lparr>te_lastSeen := now\<rparr>)" by (simp add: bucket_ok_def)
  with assms(2,3) take_token_ok [OF this] ok show ?thesis
    by (auto simp: evaluate_entry_def Let_def bucket_ok_def split: if_splits)
qed

lemma evaluate_ok:
  assumes "buckets_ok fl t"
  shows "buckets_ok fl (snd (throttle_evaluate fl ip now t))"
proof (cases "normalizeClientIP ip = [] \<or> \<not> tc_Enabled (th_config t)")
  case True
  with assms evaluate_inactive [OF True] show ?thesis by simp
next
  case False
  let ?i = "normalizeClientIP ip"
  obtain d t' where ev: "throttle_evaluate fl ip now t = (d, t')" by force
  have ok: "throttle_ok t" and a: "?i \<noteq> []" "tc_Enabled (th_config t)"
    using assms False by (auto simp: buckets_ok_def)
  note act = evaluate_active [OF ok refl a ev]
  have cl: "bucket_ok fl (cfg_of t) e" if "cleaned now t j = Some e" for j e
    using cleaned_cases [OF ok, of now j] that assms by (auto simp: buckets_ok_def)
  have r: "running (cfg_of t)" using a(2) by (rule running_cfg_of)
  obtain e' where e': "evaluate_entry fl (cfg_of t) now
        (case cleaned now t ?i of Some e \<Rightarrow> e | None \<Rightarrow> fresh_entry fl (cfg_of t)) = (d, e')"
      "entry_of t' ?i = Some e'"
    using act(1) by blast
  have "bucket_ok fl (cfg_of t) e'"
    by (rule evaluate_entry_ok [OF r _ e'(1)]) (auto simp: cl fresh_ok r split: option.split)
  moreover have "bucket_ok fl (cfg_of t) e" if "j \<noteq> ?i" "entry_of t' j = Some e" for j e
    using act(4) [OF that(1)] that(2) cl assms by (auto simp: buckets_ok_def)
  ultimately have "bucket_ok fl (cfg_of t) e" if "entry_of t' j = Some e" for j e
    using that e'(2) by (cases "j = ?i") auto
  with act(2,3) ev show ?thesis by (simp add: buckets_ok_def)
qed

end

definition request_events :: "(string \<times> time) list \<Rightarrow> throttle_event list" where
  "request_events rs = map (\<lambda>(ip, now). Request ip now) rs"

context float64
begin

lemma buckets_ok_requests:
  "buckets_ok fl t \<Longrightarrow> buckets_ok fl (throttle_run fl (request_events rs) t)"
proof (induction rs arbitrary: t)
  case (Cons r rs)
  then have "buckets_ok fl (throttle_step fl (Request (fst r) (snd r)) t)" using evaluate_ok by simp
  with Cons.IH show ?case by (cases r) (simp add: request_events_def)
qed (simp add: request_events_def)

lemma buckets_ok_new: "buckets_ok fl (newReverseProxyThrottle cfg)"
  by (simp add: buckets_ok_def)

end

section \<open>How many requests a client gets through\<close>

text \<open>The unit roundoff, the refill rate with every rounding up, and one step's rounding of the
  bucket.\<close>

definition unit_roundoff :: real where
  "unit_roundoff = 1 / 2 ^ 53"

definition refill_rate :: "throttle_config \<Rightarrow> real" where
  "refill_rate cfg = of_int (tc_RequestsPerSecond cfg) * (1 + unit_roundoff) ^ 5"

definition span_seconds :: "time \<Rightarrow> real" where
  "span_seconds d = of_int d / 1000000000"

lemma unit_roundoff_pos: "0 < unit_roundoff"
  by (simp add: unit_roundoff_def)

lemma span_add: "span_seconds (a + b) = span_seconds a + span_seconds b"
  by (simp add: span_seconds_def add_divide_distrib)

lemma span_mono: "a \<le> b \<Longrightarrow> span_seconds a \<le> span_seconds b"
  by (simp add: span_seconds_def divide_right_mono)

lemma refill_rate_pos: "running cfg \<Longrightarrow> 0 < refill_rate cfg"
  using running_positive(1) [of cfg] unit_roundoff_pos
  by (simp add: refill_rate_def add_pos_pos zero_less_power)

definition pending :: "(real \<Rightarrow> real) \<Rightarrow> throttle_config \<Rightarrow> throttle_entry \<Rightarrow> real" where
  "pending fl cfg e = (if te_blockedUntil e = zero_time then 0 else cap fl cfg)"

definition step_slack :: "(real \<Rightarrow> real) \<Rightarrow> throttle_config \<Rightarrow> real" where
  "step_slack fl cfg = 2 * unit_roundoff * cap fl cfg"

text \<open>The balance of a client over a window that starts at \<open>t0\<close>: \<open>a\<close> requests admitted, \<open>b\<close>
  blocks started, \<open>n\<close> requests made.\<close>

definition paid :: "(real \<Rightarrow> real) \<Rightarrow> throttle_config \<Rightarrow> time \<Rightarrow> time \<Rightarrow> nat \<Rightarrow> nat \<Rightarrow> real" where
  "paid fl cfg t0 now b n =
     cap fl cfg * (1 + real b) + span_seconds (now - t0) * refill_rate cfg + step_slack fl cfg * real n"

definition in_balance ::
    "(real \<Rightarrow> real) \<Rightarrow> throttle_config \<Rightarrow> string \<Rightarrow> time \<Rightarrow> time \<Rightarrow> nat \<Rightarrow> nat \<Rightarrow> nat \<Rightarrow> throttle \<Rightarrow> bool" where
  "in_balance fl cfg i t0 now a b n t =
     (buckets_ok fl t \<and> tc_Enabled (th_config t) \<and> cfg_of t = cfg \<and>
      (a = 0 \<or> (\<exists>e. entry_of t i = Some e \<and> t0 \<le> te_lastSeen e \<and> te_lastSeen e \<le> now \<and>
         real a + te_tokens e + pending fl cfg e \<le> paid fl cfg t0 (te_lastSeen e) b n)))"

context float64
begin

lemma fl_up: "0 \<le> x \<Longrightarrow> fl x \<le> x * (1 + unit_roundoff)"
  using fl_error by (simp add: unit_roundoff_def)

lemma fl_up_below:
  assumes "0 \<le> x" and "x \<le> y"
  shows "fl x \<le> x + unit_roundoff * y"
proof -
  have "unit_roundoff * x \<le> unit_roundoff * y"
    using assms unit_roundoff_pos by (intro mult_left_mono) auto
  with fl_up [OF assms(1)] show ?thesis by (simp add: distrib_left mult.commute)
qed

lemma fl_up_twice: "0 \<le> x \<Longrightarrow> fl x \<le> x * (1 + unit_roundoff) * (1 + unit_roundoff)"
proof -
  assume x: "0 \<le> x"
  have "x * (1 + unit_roundoff) * 1 \<le> x * (1 + unit_roundoff) * (1 + unit_roundoff)"
    using x unit_roundoff_pos by (intro mult_left_mono) auto
  with fl_up [OF x] show ?thesis by simp
qed

lemma seconds_up:
  assumes "0 \<le> d"
  shows "seconds_of fl d \<le> span_seconds d * (1 + unit_roundoff) ^ 3"
proof -
  let ?u = "1 + unit_roundoff"
  let ?s = "real_of_int (d div second)" and ?n = "real_of_int (d mod second)"
  have u: "1 \<le> ?u" using unit_roundoff_pos by simp
  have s0: "0 \<le> ?s" and n0: "0 \<le> ?n"
    using assms by (simp_all add: second_def pos_imp_zdiv_nonneg_iff)
  have "real_of_int d = real_of_int (d div second * second + d mod second)" by simp
  then have d: "span_seconds d = ?s + ?n / 1000000000"
    by (simp only: span_seconds_def of_int_add of_int_mult) (simp add: second_def add_divide_distrib)
  have "fl ?n / 1000000000 \<le> ?n * ?u / 1000000000"
    using fl_up [OF n0] by (intro divide_right_mono) auto
  then have "fl ?n / 1000000000 * ?u \<le> ?n * ?u / 1000000000 * ?u"
    using u by (intro mult_right_mono) auto
  then have "fl (fl ?n / 1000000000) \<le> ?n * ?u / 1000000000 * ?u"
    using fl_up [of "fl ?n / 1000000000"] fl_nonneg [OF n0] by simp
  moreover have "fl ?s \<le> ?s * ?u * ?u"
    using fl_up_twice [OF s0] .
  ultimately have "fl ?s + fl (fl ?n / 1000000000) \<le> ?s * ?u * ?u + ?n * ?u / 1000000000 * ?u"
    by linarith
  also have "\<dots> = span_seconds d * ?u ^ 2"
    unfolding d power2_eq_square by (simp only: distrib_right times_divide_eq_left mult.assoc)
  finally have sum: "fl ?s + fl (fl ?n / 1000000000) \<le> span_seconds d * ?u ^ 2" .
  have "0 \<le> fl ?s + fl (fl ?n / 1000000000)"
    by (intro add_nonneg_nonneg fl_nonneg divide_nonneg_pos s0 n0) simp
  then have "fl (fl ?s + fl (fl ?n / 1000000000)) \<le> (fl ?s + fl (fl ?n / 1000000000)) * ?u"
    by (rule fl_up)
  also have "\<dots> \<le> span_seconds d * ?u ^ 2 * ?u" using sum u by (intro mult_right_mono) auto
  finally have "fl (fl ?s + fl (fl ?n / 1000000000)) \<le> span_seconds d * ?u ^ 3"
    by (simp add: power2_eq_square power3_eq_cube)
  then show ?thesis using signed_second [OF assms] by (simp add: seconds_of_def)
qed

lemma refill_amount_up:
  assumes "running cfg" and "0 \<le> d"
  shows "fl (seconds_of fl d * fl (of_int (tc_RequestsPerSecond cfg))) \<le> span_seconds d * refill_rate cfg"
proof -
  let ?u = "1 + unit_roundoff" and ?r = "real_of_int (tc_RequestsPerSecond cfg)"
  have u: "0 \<le> ?u" using unit_roundoff_pos by simp
  have r: "0 \<le> ?r" using running_positive(1) [OF assms(1)] by simp
  have "seconds_of fl d * fl ?r \<le> (span_seconds d * ?u ^ 3) * (?r * ?u)"
    using seconds_up [OF assms(2)] fl_up [OF r] seconds_nonneg [OF assms(2)] fl_nonneg [OF r]
      order_trans [OF seconds_nonneg [OF assms(2)] seconds_up [OF assms(2)]]
    by (intro mult_mono)
  then have "seconds_of fl d * fl ?r * ?u \<le> (span_seconds d * ?u ^ 3) * (?r * ?u) * ?u"
    using u by (rule mult_right_mono)
  moreover have "fl (seconds_of fl d * fl ?r) \<le> seconds_of fl d * fl ?r * ?u"
    by (intro fl_up mult_nonneg_nonneg seconds_nonneg fl_nonneg r assms)
  moreover have "(span_seconds d * ?u ^ 3) * (?r * ?u) * ?u = span_seconds d * refill_rate cfg"
    by (simp add: refill_rate_def power3_eq_cube numeral_eq_Suc)
  ultimately show ?thesis by simp
qed

text \<open>Filling a bucket, the cap makes the rounding error at most one roundoff of the cap.\<close>

lemma refill_gain:
  assumes r: "running cfg" and ok: "bucket_ok fl cfg e" and le: "te_lastSeen e \<le> now"
  shows "te_tokens (refill fl cfg now e) \<le>
    te_tokens e + span_seconds (now - te_lastSeen e) * refill_rate cfg + unit_roundoff * cap fl cfg"
proof -
  let ?d = "time_sub now (te_lastSeen e)" and ?c = "cap fl cfg"
  let ?g = "fl (seconds_of fl ?d * fl (of_int (tc_RequestsPerSecond cfg)))"
  have d: "0 \<le> ?d" "?d \<le> now - te_lastSeen e"
    using le by (auto simp: time_sub_def min_int64_def max_int64_def)
  have g: "0 \<le> ?g" "?g \<le> span_seconds (now - te_lastSeen e) * refill_rate cfg"
  proof -
    show "0 \<le> ?g"
      using running_positive(1) [OF r] by (intro fl_nonneg mult_nonneg_nonneg seconds_nonneg d) auto
    have "span_seconds ?d * refill_rate cfg \<le> span_seconds (now - te_lastSeen e) * refill_rate cfg"
      using span_mono [OF d(2)] refill_rate_pos [OF r] by (intro mult_right_mono) auto
    with refill_amount_up [OF r d(1)] show "?g \<le> span_seconds (now - te_lastSeen e) * refill_rate cfg"
      by linarith
  qed
  have c: "0 \<le> ?c" using r by (rule cap_nonneg)
  have uc: "0 \<le> unit_roundoff * ?c" using c unit_roundoff_pos by simp
  have t0: "0 \<le> te_tokens e" using ok by (simp add: bucket_ok_def)
  have "min ?c (fl (te_tokens e + ?g)) \<le> te_tokens e + ?g + unit_roundoff * ?c"
  proof (cases "te_tokens e + ?g \<le> ?c")
    case True
    have "0 \<le> te_tokens e + ?g" using t0 g(1) by (rule add_nonneg_nonneg)
    from fl_up_below [OF this True] show ?thesis by (rule min.coboundedI2)
  next
    case False
    with uc show ?thesis by simp
  qed
  moreover have "te_tokens (refill fl cfg now e) = te_tokens e \<or>
      te_tokens (refill fl cfg now e) = min ?c (fl (te_tokens e + ?g))"
    by (auto simp: refill_def Let_def)
  ultimately show ?thesis using g uc by fastforce
qed

lemma take_token_up:
  assumes "bucket_ok fl cfg e" and "1 \<le> te_tokens e"
  shows "fl (te_tokens e - 1) + 1 \<le> te_tokens e + unit_roundoff * cap fl cfg"
  using fl_up_below [of "te_tokens e - 1" "cap fl cfg"] assms by (simp add: bucket_ok_def)

end

context float64
begin

lemma expire_pending:
  assumes "bucket_ok fl cfg e"
  shows "te_tokens (expire_block fl cfg now e) + pending fl cfg (expire_block fl cfg now e)
      \<le> te_tokens e + pending fl cfg e"
    and "te_lastSeen (expire_block fl cfg now e) = te_lastSeen e"
    and "\<not> te_blockedUntil e > now \<Longrightarrow> te_blockedUntil (expire_block fl cfg now e) = zero_time"
  using assms by (auto simp: expire_block_def Let_def pending_def bucket_ok_def time_is_zero_def)

lemma refill_keeps [simp]:
  "te_lastSeen (refill fl cfg now e) = te_lastSeen e"
  "te_blockedUntil (refill fl cfg now e) = te_blockedUntil e"
  by (auto simp: refill_def Let_def)

text \<open>One evaluation, as a balance: what is admitted plus what stays in the bucket is paid by what
  was there, the refill, the rounding and, when a block starts, one more bucket.\<close>

lemma evaluate_entry_balance:
  assumes r: "running cfg" and ok: "bucket_ok fl cfg e" and le: "te_lastSeen e \<le> now"
    and ev: "evaluate_entry fl cfg now e = (d, e')"
  shows "of_bool (td_Allowed d) + te_tokens e' + pending fl cfg e' \<le>
    te_tokens e + pending fl cfg e + span_seconds (now - te_lastSeen e) * refill_rate cfg +
    step_slack fl cfg + of_bool (td_NewlyBlocked d) * cap fl cfg"
proof (cases "te_blockedUntil e > now")
  case True
  have "0 \<le> span_seconds (now - te_lastSeen e) * refill_rate cfg"
    using le refill_rate_pos [OF r] by (auto simp: span_seconds_def)
  moreover have "0 \<le> step_slack fl cfg"
    using cap_nonneg [OF r] unit_roundoff_pos by (simp add: step_slack_def)
  ultimately show ?thesis using True ev by (auto simp: evaluate_entry_blocked pending_def)
next
  case False
  let ?x = "expire_block fl cfg now e"
  let ?e = "refill fl cfg now ?x"
  have xok: "bucket_ok fl cfg ?x" by (intro expire_ok r ok)
  have eok: "bucket_ok fl cfg ?e" by (intro refill_ok r xok)
  have c: "0 \<le> cap fl cfg" using r by (rule cap_nonneg)
  then have uc: "0 \<le> unit_roundoff * cap fl cfg" using unit_roundoff_pos by simp
  have "te_tokens ?e \<le> te_tokens ?x + span_seconds (now - te_lastSeen e) * refill_rate cfg +
      unit_roundoff * cap fl cfg"
    using refill_gain [OF r xok, of now] le expire_pending(2) [OF ok, of now] by simp
  moreover have "te_tokens ?x \<le> te_tokens e + pending fl cfg e"
    using expire_pending(1) [OF ok, of now] expire_pending(3) [OF ok False] by (simp add: pending_def)
  moreover have z: "te_blockedUntil ?e = zero_time" using expire_pending(3) [OF ok False] by simp
  ultimately have bal: "te_tokens ?e \<le> te_tokens e + pending fl cfg e +
      span_seconds (now - te_lastSeen e) * refill_rate cfg + unit_roundoff * cap fl cfg" by linarith
  show ?thesis
  proof (cases "te_tokens ?e < 1")
    case True
    with ev False have "\<not> td_Allowed d" "td_NewlyBlocked d" "te_tokens e' = te_tokens ?e"
      by (auto simp: evaluate_entry_def Let_def)
    then show ?thesis using bal c uc by (auto simp: pending_def step_slack_def)
  next
    case False': False
    with ev False have "td_Allowed d" "\<not> td_NewlyBlocked d" "te_tokens e' = fl (te_tokens ?e - 1)"
        "te_blockedUntil e' = zero_time"
      using z by (auto simp: evaluate_entry_def Let_def)
    then show ?thesis
      using bal take_token_up [OF eok] False' by (auto simp: pending_def step_slack_def)
  qed
qed

lemma evaluate_entry_first:
  assumes r: "running cfg" and ok: "bucket_ok fl cfg e"
    and ev: "evaluate_entry fl cfg now e = (d, e')" and al: "td_Allowed d"
  shows "1 + te_tokens e' + pending fl cfg e' \<le> cap fl cfg + step_slack fl cfg"
proof -
  let ?e = "refill fl cfg now (expire_block fl cfg now e)"
  have eok: "bucket_ok fl cfg ?e" by (intro refill_ok expire_ok r ok)
  have nb: "\<not> te_blockedUntil e > now" using ev al by (auto simp: evaluate_entry_blocked)
  with ev al have t: "1 \<le> te_tokens ?e" "te_tokens e' = fl (te_tokens ?e - 1)"
      "te_blockedUntil e' = zero_time"
    using expire_pending(3) [OF ok nb] by (auto simp: evaluate_entry_def Let_def split: if_splits)
  have "0 \<le> unit_roundoff * cap fl cfg" using cap_nonneg [OF r] unit_roundoff_pos by simp
  then show ?thesis using take_token_up [OF eok t(1)] t eok
    by (auto simp: pending_def step_slack_def bucket_ok_def)
qed

lemma cleaned_window:
  assumes "throttle_ok t" and "entry_of t i = Some e" and "0 < t0" and "t0 \<le> te_lastSeen e"
    and "te_lastSeen e \<le> now" and "now - t0 \<le> reverseProxyThrottleEntryTTL (cfg_of t)"
  shows "cleaned now t i = Some e"
proof -
  have "time_sub now (te_lastSeen e) \<le> now - t0"
    using assms by (auto simp: time_sub_def min_int64_def max_int64_def)
  then have "keep_entry now (cfg_of t) e"
    using assms by (auto simp: keep_entry_def time_is_zero_def zero_time_def)
  then show ?thesis using cleaned_cases [OF assms(1), of now i] assms(2) by auto
qed

lemma evaluate_entry_seen: "evaluate_entry fl cfg now e = (d, e') \<Longrightarrow> te_lastSeen e' = now"
  by (auto simp: evaluate_entry_def Let_def split: if_splits)

lemma in_balance_self:
  assumes inv: "in_balance fl cfg (normalizeClientIP ip) t0 t1 a b n t"
    and i: "normalizeClientIP ip \<noteq> []" and le: "t1 \<le> now" "0 < t0" "t0 \<le> now"
    and ttl: "now - t0 \<le> reverseProxyThrottleEntryTTL cfg"
    and ev: "throttle_evaluate fl ip now t = (d, t')"
  shows "in_balance fl cfg (normalizeClientIP ip) t0 now (a + of_bool (td_Allowed d))
    (b + of_bool (td_NewlyBlocked d)) (Suc n) t'"
proof -
  let ?i = "normalizeClientIP ip"
  from inv have ok: "throttle_ok t" "buckets_ok fl t" and en: "tc_Enabled (th_config t)"
    and cfg: "cfg_of t = cfg"
    by (auto simp: in_balance_def buckets_ok_def)
  have r: "running cfg" using running_cfg_of [OF en] cfg by simp
  note act = evaluate_active [OF ok(1) refl i en ev]
  let ?e = "case cleaned now t ?i of Some e \<Rightarrow> e | None \<Rightarrow> fresh_entry fl cfg"
  obtain e' where e': "evaluate_entry fl cfg now ?e = (d, e')" "entry_of t' ?i = Some e'"
    using act(1) cfg by auto
  have eok: "bucket_ok fl cfg ?e"
    using cleaned_cases [OF ok(1), of now ?i] ok(2) cfg
    by (auto simp: buckets_ok_def fresh_ok r split: option.split)
  have seen: "te_lastSeen e' = now" using e'(1) by (rule evaluate_entry_seen)
  have new: "buckets_ok fl t'" "tc_Enabled (th_config t')" "cfg_of t' = cfg"
    using evaluate_ok [OF ok(2), of ip now] ev act(2) en cfg by auto
  have c: "0 \<le> cap fl cfg" and sl: "0 \<le> step_slack fl cfg" and sp: "0 \<le> span_seconds (now - t0) * refill_rate cfg"
    using cap_nonneg [OF r] unit_roundoff_pos refill_rate_pos [OF r] le
    by (auto simp: step_slack_def span_seconds_def)
  have main: "real (a + of_bool (td_Allowed d)) + te_tokens e' + pending fl cfg e' \<le>
      paid fl cfg t0 now (b + of_bool (td_NewlyBlocked d)) (Suc n)" if "a + of_bool (td_Allowed d) \<noteq> 0"
  proof (cases "a = 0")
    case True
    with that have "td_Allowed d" by (simp split: if_splits)
    have "cap fl cfg * 1 \<le> cap fl cfg * (1 + real (b + of_bool (td_NewlyBlocked d)))"
      using c by (intro mult_left_mono) auto
    moreover have "step_slack fl cfg * 1 \<le> step_slack fl cfg * real (Suc n)"
      using sl by (intro mult_left_mono) auto
    ultimately have "cap fl cfg + step_slack fl cfg \<le> paid fl cfg t0 now (b + of_bool (td_NewlyBlocked d)) (Suc n)"
      using sp by (simp only: paid_def)
    with evaluate_entry_first [OF r eok e'(1) \<open>td_Allowed d\<close>] True \<open>td_Allowed d\<close>
    show ?thesis by simp
  next
    case False
    with inv obtain e where e: "entry_of t ?i = Some e" "t0 \<le> te_lastSeen e" "te_lastSeen e \<le> t1"
        "real a + te_tokens e + pending fl cfg e \<le> paid fl cfg t0 (te_lastSeen e) b n"
      by (auto simp: in_balance_def)
    have "cleaned now t ?i = Some e"
      using cleaned_window [OF ok(1) e(1) le(2) e(2)] e(3) le(1) ttl cfg by simp
    with e'(1) eok have e'': "evaluate_entry fl cfg now e = (d, e')" and eok': "bucket_ok fl cfg e"
      by simp_all
    have "te_lastSeen e \<le> now" using e(3) le(1) by simp
    note bal = evaluate_entry_balance [OF r eok' this e'']
    have "span_seconds (now - t0) = span_seconds (now - te_lastSeen e) + span_seconds (te_lastSeen e - t0)"
      by (simp flip: span_add)
    with bal e(4) show ?thesis by (auto simp: paid_def algebra_simps)
  qed
  have "a + of_bool (td_Allowed d) = 0 \<or> (\<exists>e. entry_of t' ?i = Some e \<and> t0 \<le> te_lastSeen e \<and>
      te_lastSeen e \<le> now \<and> real (a + of_bool (td_Allowed d)) + te_tokens e + pending fl cfg e \<le>
      paid fl cfg t0 (te_lastSeen e) (b + of_bool (td_NewlyBlocked d)) (Suc n))"
  proof (cases "a + of_bool (td_Allowed d) = 0")
    case False
    show ?thesis
      by (intro disjI2 exI [of _ e'] conjI) (simp_all only: seen e'(2) le order_refl main [OF False])
  qed (rule disjI1)
  with new show ?thesis by (simp only: in_balance_def simp_thms)
qed

lemma in_balance_other:
  assumes inv: "in_balance fl cfg i t0 t1 a b n t" and ne: "normalizeClientIP ip \<noteq> i"
    and le: "t1 \<le> now" "0 < t0" and ttl: "now - t0 \<le> reverseProxyThrottleEntryTTL cfg"
    and ev: "throttle_evaluate fl ip now t = (d, t')"
  shows "in_balance fl cfg i t0 now a b n t'"
proof (cases "normalizeClientIP ip = []")
  case True
  then have "t' = t" using evaluate_inactive [of ip t fl now] ev by simp
  with inv le show ?thesis by (fastforce simp: in_balance_def)
next
  case False
  from inv have ok: "throttle_ok t" "buckets_ok fl t" and en: "tc_Enabled (th_config t)"
    and cfg: "cfg_of t = cfg"
    by (auto simp: in_balance_def buckets_ok_def)
  note act = evaluate_active [OF ok(1) refl False en ev]
  have new: "buckets_ok fl t'" "tc_Enabled (th_config t')" "cfg_of t' = cfg"
    using evaluate_ok [OF ok(2), of ip now] ev act(2) en cfg by auto
  have "entry_of t' i = Some e"
    if "entry_of t i = Some e" "t0 \<le> te_lastSeen e" "te_lastSeen e \<le> t1" for e
    using act(4) [of i] ne that cleaned_window [OF ok(1) that(1) le(2) that(2), of now] le(1) ttl cfg by auto
  with inv new le show ?thesis by (fastforce simp: in_balance_def)
qed

lemma in_balance_bound:
  "in_balance fl cfg i t0 t1 a b n t \<Longrightarrow> sorted (map snd rs) \<Longrightarrow> 0 < t0 \<Longrightarrow> t0 \<le> t1 \<Longrightarrow> i \<noteq> [] \<Longrightarrow>
   \<forall>(ip, now) \<in> set rs. t1 \<le> now \<and> now \<le> t0 + w \<Longrightarrow> t1 \<le> t0 + w \<Longrightarrow>
   w \<le> reverseProxyThrottleEntryTTL cfg \<Longrightarrow>
   ds = throttle_decisions fl rs t \<Longrightarrow>
   real (a + admitted i ds) \<le> paid fl cfg t0 (t0 + w) (b + blocks_started i ds) (n + attempts i ds)"
proof (induction rs arbitrary: t t1 a b n ds)
  case Nil
  then have r: "running cfg" using running_cfg_of by (auto simp: in_balance_def)
  have c: "0 \<le> cap fl cfg" "0 \<le> step_slack fl cfg"
    using cap_nonneg [OF r] unit_roundoff_pos by (auto simp: step_slack_def)
  have w: "0 \<le> span_seconds w * refill_rate cfg"
    using Nil.prems refill_rate_pos [OF r] by (simp add: span_seconds_def)
  show ?case
  proof (cases "a = 0")
    case True
    with Nil.prems(9) c w show ?thesis
      by (simp add: paid_def admitted_def blocks_started_def attempts_def)
  next
    case False
    with Nil.prems(1) obtain e where e: "bucket_ok fl cfg e" "te_lastSeen e \<le> t1"
        "real a + te_tokens e + pending fl cfg e \<le> paid fl cfg t0 (te_lastSeen e) b n"
      by (auto simp: in_balance_def buckets_ok_def)
    have "span_seconds (te_lastSeen e - t0) * refill_rate cfg \<le> span_seconds w * refill_rate cfg"
      using e(2) Nil.prems(7) refill_rate_pos [OF r] by (intro mult_right_mono span_mono) auto
    moreover have "0 \<le> te_tokens e" "0 \<le> pending fl cfg e"
      using e(1) c by (auto simp: bucket_ok_def pending_def)
    ultimately show ?thesis using e(3) Nil.prems(9)
      by (simp add: paid_def admitted_def blocks_started_def attempts_def)
  qed
next
  case (Cons x rs)
  obtain ip now where x: "x = (ip, now)" by force
  obtain d t' where ev: "throttle_evaluate fl ip now t = (d, t')" by force
  have le: "t1 \<le> now" "t0 \<le> now" "now \<le> t0 + w" "now - t0 \<le> reverseProxyThrottleEntryTTL cfg"
    using Cons.prems x by auto
  have rest: "sorted (map snd rs)" "\<forall>(ip, now') \<in> set rs. now \<le> now' \<and> now' \<le> t0 + w"
    using Cons.prems(2,6) x by auto
  define ds' where "ds' = throttle_decisions fl rs t'"
  have ds: "ds = (normalizeClientIP ip, d) # ds'"
    using Cons.prems(9) x ev by (simp add: ds'_def)
  show ?case
  proof (cases "normalizeClientIP ip = i")
    case True
    have "in_balance fl cfg i t0 now (a + of_bool (td_Allowed d)) (b + of_bool (td_NewlyBlocked d)) (Suc n) t'"
      using in_balance_self [of cfg ip t0 t1 a b n t now d t'] Cons.prems(1,3,5) le ev True by simp
    from Cons.IH [OF this rest(1) Cons.prems(3) le(2) Cons.prems(5) rest(2) le(3) Cons.prems(8) ds'_def]
    show ?thesis using True ds by (auto simp: admitted_def blocks_started_def attempts_def split: if_splits)
  next
    case False
    have "in_balance fl cfg i t0 now a b n t'"
      using in_balance_other [OF Cons.prems(1) False le(1) Cons.prems(3) le(4) ev] .
    from Cons.IH [OF this rest(1) Cons.prems(3) le(2) Cons.prems(5) rest(2) le(3) Cons.prems(8) ds'_def]
    show ?thesis using False ds by (simp add: admitted_def blocks_started_def attempts_def)
  qed
qed

end

lemma evaluate_config [simp]: "th_config (snd (throttle_evaluate fl ip now t)) = th_config t"
  by (auto simp: throttle_evaluate_def Let_def split: prod.split)

lemma run_requests_config [simp]:
  "th_config (throttle_run fl (request_events rs) t) = th_config t"
  by (induction rs arbitrary: t) (auto simp: request_events_def)

lemma new_config [simp]:
  "th_config (newReverseProxyThrottle cfg) = normalizeReverseProxyThrottleConfig cfg"
  by (simp add: newReverseProxyThrottle_def)

lemma entry_ttl_minimum: "minimum_entry_ttl \<le> reverseProxyThrottleEntryTTL cfg"
  by (simp add: reverseProxyThrottleEntryTTL_def Let_def)

context float64
begin

lemma cap_ge_1: "running cfg \<Longrightarrow> 1 \<le> cap fl cfg"
  using running_positive(2) [of cfg] fl_mono [of 1 "of_int (tc_Burst cfg)"] by simp

lemma full_bucket_allows:
  assumes r: "running cfg" and one: "1 \<le> te_tokens e"
  shows "1 \<le> te_tokens (refill fl cfg now e)"
proof -
  let ?el = "seconds_of fl (time_sub now (te_lastSeen e))"
  have "1 \<le> fl (te_tokens e + fl (?el * fl (of_int (tc_RequestsPerSecond cfg))))" if "0 < ?el"
  proof -
    have "0 \<le> fl (?el * fl (of_int (tc_RequestsPerSecond cfg)))"
      using that running_positive(1) [OF r] by (intro fl_nonneg mult_nonneg_nonneg) auto
    then show ?thesis using fl_mono [of 1] one by simp
  qed
  then show ?thesis using cap_ge_1 [OF r] one by (auto simp: refill_def Let_def)
qed

lemma unblocked_allows:
  assumes "running cfg" and "te_blockedUntil e \<le> now"
    and "1 \<le> te_tokens (expire_block fl cfg now e)"
  shows "td_Allowed (fst (evaluate_entry fl cfg now e))"
  using full_bucket_allows [OF assms(1,3), of now] assms(2)
  by (auto simp: evaluate_entry_def Let_def)

lemma expired_allows:
  assumes "running cfg" and "te_blockedUntil e \<le> now" and "te_blockedUntil e \<noteq> zero_time"
  shows "td_Allowed (fst (evaluate_entry fl cfg now e))"
  using assms cap_ge_1 [OF assms(1)]
  by (intro unblocked_allows) (auto simp: expire_block_def time_is_zero_def Let_def)

lemma fresh_allows:
  assumes "running cfg" and "zero_time \<le> now"
  shows "td_Allowed (fst (evaluate_entry fl cfg now (fresh_entry fl cfg)))"
  using assms cap_ge_1 [OF assms(1)]
  by (intro unblocked_allows) (auto simp: fresh_entry_def expire_block_def time_is_zero_def)

end

section \<open>Properties\<close>

text \<open>C37: a client whose bucket runs dry is refused until the announced end of the block, whatever
  the requests of this and other clients and the configuration updates in between, as long as no
  update switches the throttle off and the clock stays before that end.  The block lasts
  \<^verbatim>\<open>BlockSeconds\<close> provided the product with a second fits an \<^verbatim>\<open>int64\<close>.\<close>

theorem throttle_block_holds:
  assumes "t = throttle_run fl history (newReverseProxyThrottle cfg)"
    and "throttle_evaluate fl ip now t = (d, t')" and "td_NewlyBlocked d"
    and "tc_BlockSeconds (normalizeReverseProxyThrottleConfig (th_config t)) \<le> 9223372036"
    and "until = now + tc_BlockSeconds (normalizeReverseProxyThrottleConfig (th_config t)) * second"
    and "list_all (keeps_block until) evs"
    and "normalizeClientIP ip' = normalizeClientIP ip" and "now' < until"
  shows "\<not> td_Allowed (fst (throttle_evaluate fl ip' now' (throttle_run fl evs t')))"
proof -
  have ok: "throttle_ok t" using assms(1) by (simp add: throttle_ok_run)
  have en: "tc_Enabled (th_config t)"
    using assms(2,3) evaluate_inactive [of ip t fl now] by auto
  have "wrap64 (tc_BlockSeconds (cfg_of t) * second) = tc_BlockSeconds (cfg_of t) * second"
    using assms(4) normalize_config_positive(3) [OF en]
    by (intro wrap64_id) (auto simp: second_def min_int64_def max_int64_def)
  then have "blocked_until (normalizeClientIP ip) until t'" and ne: "normalizeClientIP ip \<noteq> []"
    using newly_blocked [OF ok assms(2,3)] assms(5) by auto
  then have "blocked_until (normalizeClientIP ip) until (throttle_run fl evs t')"
    using assms(6) by (intro blocked_until_run)
  from blocked_until_denied [OF this assms(8,7) ne] show ?thesis .
qed

definition small_throttle_for :: "int \<Rightarrow> throttle_config" where
  "small_throttle_for b =
     \<lparr>tc_Enabled = True, tc_RequestsPerSecond = 1, tc_Burst = 1, tc_BlockSeconds = b\<rparr>"

abbreviation small_throttle :: throttle_config where
  "small_throttle \<equiv> small_throttle_for 30"

lemmas small_throttle_def = small_throttle_for_def

lemma small_client: "normalizeClientIP ''10.0.0.7'' = ''10.0.0.7''"
  by code_simp

lemma small_requests:
  assumes "fl 0 = 0" and "fl 1 = 1" and "0 < b" and "0 < now"
  shows "td_Allowed (fst (throttle_evaluate fl ''10.0.0.7'' now (newReverseProxyThrottle (small_throttle_for b))))"
    and "td_NewlyBlocked (fst (throttle_evaluate fl ''10.0.0.7'' now
           (snd (throttle_evaluate fl ''10.0.0.7'' now (newReverseProxyThrottle (small_throttle_for b))))))"
  using assms
  by (simp_all add: throttle_evaluate_def small_client Let_def newReverseProxyThrottle_def small_throttle_def
      normalizeReverseProxyThrottleConfig_def cleanupLocked_def empty_shard_def zero_time_def second_def
      al_get_Nil fresh_entry_def evaluate_entry_def expire_block_def refill_def time_is_zero_def
      alist_simps cleanup_interval_def time_sub_def seconds_of_def min_int64_def max_int64_def)

theorem throttle_block_holds_witness:
  "\<not> td_Allowed (fst (throttle_evaluate f64 ''10.0.0.7'' (30 * second)
       (throttle_run f64 [Request ''10.0.0.8'' (2 * second)]
         (snd (throttle_evaluate f64 ''10.0.0.7'' second
           (throttle_run f64 [Request ''10.0.0.7'' second] (newReverseProxyThrottle small_throttle)))))))"
proof -
  let ?t = "throttle_run f64 [Request ''10.0.0.7'' second] (newReverseProxyThrottle small_throttle)"
  obtain d t' where ev: "throttle_evaluate f64 ''10.0.0.7'' second ?t = (d, t')" by force
  have nb: "td_NewlyBlocked d"
    using small_requests(2) [of f64 30 second] ev by (simp add: second_def)
  have cfg: "normalizeReverseProxyThrottleConfig (th_config ?t) = small_throttle"
    by (simp add: normalizeReverseProxyThrottleConfig_def small_throttle_def Let_def)
  have b: "tc_BlockSeconds (normalizeReverseProxyThrottleConfig (th_config ?t)) \<le> 9223372036"
    and u: "31 * second = second + tc_BlockSeconds (normalizeReverseProxyThrottleConfig (th_config ?t)) * second"
    unfolding cfg by (simp_all add: small_throttle_def second_def)
  have k: "list_all (keeps_block (31 * second)) [Request ''10.0.0.8'' (2 * second)]"
    by (simp add: keeps_block_def second_def)
  have l: "30 * second < 31 * second" by (simp add: second_def)
  have "\<not> td_Allowed (fst (throttle_evaluate f64 ''10.0.0.7'' (30 * second)
      (throttle_run f64 [Request ''10.0.0.8'' (2 * second)] t')))"
    by (rule throttle_block_holds [OF refl ev nb b u k refl l])
  then show ?thesis using ev by simp
qed

text \<open>C38: the number of requests a client gets through in a window no longer than the time an idle
  entry is kept is at most one bucket, plus one bucket per block that starts in the window, plus
  the refill rate times the window; the last term and the fifth power bound the rounding of
  \<^verbatim>\<open>float64\<close>.  It holds after any earlier requests and whatever other clients do meanwhile.\<close>

theorem throttle_rate_bound:
  assumes "tc_Enabled cfg" and "c = normalizeReverseProxyThrottleConfig cfg"
    and "t = throttle_run f64 (request_events history) (newReverseProxyThrottle cfg)"
    and "sorted (map snd rs)" and "\<forall>(ip, now) \<in> set rs. t0 \<le> now \<and> now \<le> t0 + w"
    and "0 < t0" and "0 \<le> w" and "w \<le> reverseProxyThrottleEntryTTL c"
    and "client \<noteq> []" and "ds = throttle_decisions f64 rs t"
  shows "real (admitted client ds) \<le>
    f64 (of_int (tc_Burst c)) * (1 + real (blocks_started client ds)) +
    of_int (tc_RequestsPerSecond c) * (1 + 1 / 2 ^ 53) ^ 5 * (of_int w / 1000000000) +
    2 / 2 ^ 53 * f64 (of_int (tc_Burst c)) * real (attempts client ds)"
proof -
  have cfg: "cfg_of t = c" and en: "tc_Enabled (th_config t)" using assms(1-3) by simp_all
  have "buckets_ok f64 t"
    using f64.buckets_ok_requests [OF f64.buckets_ok_new] assms(3) by simp
  with cfg en have "in_balance f64 c client t0 t0 0 0 0 t" by (simp add: in_balance_def)
  from f64.in_balance_bound [OF this assms(4,6) order_refl assms(9,5) _ assms(8,10)] assms(7)
  show ?thesis
    by (simp add: paid_def step_slack_def span_seconds_def refill_rate_def unit_roundoff_def mult.commute)
qed

theorem throttle_rate_bound_witness:
  "real (admitted ''10.0.0.7'' (throttle_decisions f64 [(''10.0.0.7'', second)]
      (throttle_run f64 (request_events []) (newReverseProxyThrottle small_throttle)))) \<le> 2"
proof -
  let ?c = "normalizeReverseProxyThrottleConfig small_throttle"
  let ?ds = "throttle_decisions f64 [(''10.0.0.7'', second)]
      (throttle_run f64 (request_events []) (newReverseProxyThrottle small_throttle))"
  have c: "?c = small_throttle"
    by (simp add: normalizeReverseProxyThrottleConfig_def small_throttle_def Let_def)
  have w: "0 \<le> reverseProxyThrottleEntryTTL ?c"
    using entry_ttl_minimum [of ?c] by (simp add: minimum_entry_ttl_def second_def)
  have en: "tc_Enabled small_throttle" by (simp add: small_throttle_def)
  have s: "sorted (map snd [(''10.0.0.7'', second)])" by simp
  have r: "\<forall>(ip, now) \<in> set [(''10.0.0.7'', second)]. second \<le> now \<and> now \<le> second + 0" by simp
  have p: "0 < second" by (simp add: second_def)
  have n: "''10.0.0.7'' \<noteq> []" by (rule list.distinct(2))
  have m: "real (admitted ''10.0.0.7'' ?ds) \<le>
    f64 (of_int (tc_Burst ?c)) * (1 + real (blocks_started ''10.0.0.7'' ?ds)) +
    of_int (tc_RequestsPerSecond ?c) * (1 + 1 / 2 ^ 53) ^ 5 * (of_int 0 / 1000000000) +
    2 / 2 ^ 53 * f64 (of_int (tc_Burst ?c)) * real (attempts ''10.0.0.7'' ?ds)"
    by (rule throttle_rate_bound [OF en refl refl s r p order_refl w n refl])
  obtain d t' where ev: "throttle_evaluate f64 ''10.0.0.7'' second (newReverseProxyThrottle small_throttle) = (d, t')"
    by force
  have al: "td_Allowed d" using small_requests(1) [of f64 30 second] ev by (simp add: second_def)
  have "\<not> td_NewlyBlocked d"
    using evaluate_entry_newly al evaluate_active(1) [OF throttle_ok_new small_client n _ ev] en by auto
  then have "blocks_started ''10.0.0.7'' ?ds = 0" "attempts ''10.0.0.7'' ?ds = 1"
    using ev small_client by (simp_all add: request_events_def blocks_started_def attempts_def)
  with m c show ?thesis by (simp add: small_throttle_def)
qed

text \<open>After any sequence of requests every bucket holds between zero tokens and the burst size.\<close>

theorem throttle_bucket_bounds:
  assumes "tc_Enabled cfg"
    and "entry_of (throttle_run f64 (request_events rs) (newReverseProxyThrottle cfg)) client = Some e"
  shows "0 \<le> te_tokens e \<and>
    te_tokens e \<le> f64 (of_int (tc_Burst (normalizeReverseProxyThrottleConfig cfg)))"
  using f64.buckets_ok_requests [OF f64.buckets_ok_new, of rs cfg] assms
  by (auto simp: buckets_ok_def bucket_ok_def)

theorem throttle_bucket_bounds_witness:
  "\<exists>e. entry_of (throttle_run f64 (request_events [(''10.0.0.7'', second)])
       (newReverseProxyThrottle small_throttle)) ''10.0.0.7'' = Some e \<and> 0 \<le> te_tokens e"
proof -
  let ?t = "newReverseProxyThrottle small_throttle"
  have n: "''10.0.0.7'' \<noteq> []" by (rule list.distinct(2))
  have en: "tc_Enabled (th_config ?t)" "tc_Enabled small_throttle" by (simp_all add: small_throttle_def)
  obtain d t' where ev: "throttle_evaluate f64 ''10.0.0.7'' second ?t = (d, t')" by force
  obtain e where "entry_of t' ''10.0.0.7'' = Some e"
    using evaluate_active(1) [OF throttle_ok_new small_client n en(1) ev] by blast
  then have e: "entry_of (throttle_run f64 (request_events [(''10.0.0.7'', second)]) ?t) ''10.0.0.7'' = Some e"
    using ev by (simp add: request_events_def)
  with throttle_bucket_bounds [OF en(2) e] show ?thesis by blast
qed

text \<open>A request of one client leaves the entry of every other client as it is, or sweeps it away
  when that client is not blocked and has not been seen for more than two minutes.\<close>

theorem throttle_isolation:
  assumes "t = throttle_run fl history (newReverseProxyThrottle cfg)"
    and "normalizeClientIP ip \<noteq> other" and "entry_of t other = Some e"
  shows "entry_of (snd (throttle_evaluate fl ip now t)) other = Some e \<or>
    entry_of (snd (throttle_evaluate fl ip now t)) other = None \<and> te_blockedUntil e \<le> now \<and>
      (time_is_zero (te_lastSeen e) \<or> now - te_lastSeen e > 120 * second)"
proof (cases "normalizeClientIP ip = [] \<or> \<not> tc_Enabled (th_config t)")
  case True
  then show ?thesis using evaluate_inactive [of ip t fl now] assms(3) by simp
next
  case False
  have ok: "throttle_ok t" using assms(1) by (simp add: throttle_ok_run)
  obtain d t' where ev: "throttle_evaluate fl ip now t = (d, t')" by force
  have a: "normalizeClientIP ip \<noteq> []" "tc_Enabled (th_config t)" using False by auto
  have "now - te_lastSeen e > 120 * second" if "time_sub now (te_lastSeen e) > reverseProxyThrottleEntryTTL (cfg_of t)"
    using that entry_ttl_minimum [of "cfg_of t"]
    by (auto simp: minimum_entry_ttl_def second_def time_sub_def min_int64_def max_int64_def)
  with evaluate_active(4) [OF ok refl a ev, of other] cleaned_cases [OF ok, of now other] assms(2,3) ev
  show ?thesis by (auto simp: keep_entry_def)
qed

theorem throttle_isolation_witness:
  "\<exists>e. entry_of (snd (throttle_evaluate f64 ''10.0.0.8'' (2 * second)
       (throttle_run f64 [Request ''10.0.0.7'' second] (newReverseProxyThrottle small_throttle))))
       ''10.0.0.7'' = Some e"
proof -
  let ?n = "newReverseProxyThrottle small_throttle"
  let ?t = "throttle_run f64 [Request ''10.0.0.7'' second] ?n"
  have n: "''10.0.0.7'' \<noteq> []" by (rule list.distinct(2))
  have en: "tc_Enabled (th_config ?n)" by (simp add: small_throttle_def)
  obtain d t' where ev: "throttle_evaluate f64 ''10.0.0.7'' second ?n = (d, t')" by force
  obtain e' where e': "entry_of t' ''10.0.0.7'' = Some e'" "te_lastSeen e' = second"
    using evaluate_active(1) [OF throttle_ok_new small_client n en ev] f64.evaluate_entry_seen by blast
  then have e: "entry_of ?t ''10.0.0.7'' = Some e'" using ev by simp
  have other: "normalizeClientIP ''10.0.0.8'' \<noteq> ''10.0.0.7''"
  proof -
    have "normalizeClientIP ''10.0.0.8'' = ''10.0.0.8''" by code_simp
    then show ?thesis by simp
  qed
  from throttle_isolation [OF refl other e, of "2 * second"] e'(2)
  show ?thesis by (auto simp: time_is_zero_def zero_time_def second_def)
qed

text \<open>When \<^verbatim>\<open>BlockSeconds\<close> seconds do not fit an \<^verbatim>\<open>int64\<close> number of nanoseconds the
  product wraps to a negative duration and the block is over before it begins: the very next
  request of the refused client is served, from a full bucket.\<close>

theorem throttle_block_overflow:
  assumes "t = throttle_run f64 history (newReverseProxyThrottle cfg)"
    and "throttle_evaluate f64 ip now t = (d, t')" and "td_NewlyBlocked d"
    and "9223372036 < tc_BlockSeconds (normalizeReverseProxyThrottleConfig (th_config t))"
    and "tc_BlockSeconds (normalizeReverseProxyThrottleConfig (th_config t)) \<le> 18446744073"
    and "2 ^ 63 < now" and "now \<le> now'" and "normalizeClientIP ip' = normalizeClientIP ip"
  shows "td_Allowed (fst (throttle_evaluate f64 ip' now' t'))"
proof -
  let ?b = "tc_BlockSeconds (cfg_of t) * second" and ?i = "normalizeClientIP ip"
  have ok: "throttle_ok t" using assms(1) by (simp add: throttle_ok_run)
  have w: "wrap64 ?b = ?b - 2 ^ 64"
  proof -
    have "(?b + 2 ^ 63) mod 2 ^ 64 = (?b + 2 ^ 63 - 2 ^ 64) mod (2 ^ 64 :: int)"
      by (metis minus_mod_self2)
    also have "\<dots> = ?b + 2 ^ 63 - 2 ^ 64"
      using assms(4,5) by (intro mod_pos_pos_trivial) (auto simp: second_def)
    finally show ?thesis by (simp add: wrap64_def)
  qed
  have bu: "blocked_until ?i (now + wrap64 ?b) t'" and ne: "?i \<noteq> []"
    using newly_blocked [OF ok assms(2,3)] by simp_all
  then obtain e where e: "throttle_ok t'" "tc_Enabled (th_config t')" "entry_of t' ?i = Some e"
      "te_blockedUntil e = now + wrap64 ?b"
    by (auto simp: blocked_until_def)
  have past: "te_blockedUntil e \<le> now'" "te_blockedUntil e \<noteq> zero_time"
    using e(4) w assms(4-7) by (auto simp: second_def zero_time_def)
  have r: "running (cfg_of t')" using e(2) by (rule running_cfg_of)
  obtain d' t'' where ev: "throttle_evaluate f64 ip' now' t' = (d', t'')" by force
  have z: "zero_time \<le> now'" using assms(6,7) by (simp add: zero_time_def)
  from evaluate_active(1) [OF e(1) assms(8) ne e(2) ev] cleaned_cases [OF e(1), of now' ?i] e(3)
    f64.expired_allows [OF r past] f64.fresh_allows [OF r z]
  show ?thesis using ev by (auto split: option.splits)
qed

theorem throttle_block_overflow_witness:
  "td_Allowed (fst (throttle_evaluate f64 ''10.0.0.7'' (2 ^ 64)
     (snd (throttle_evaluate f64 ''10.0.0.7'' (2 ^ 64)
       (throttle_run f64 [Request ''10.0.0.7'' (2 ^ 64)]
         (newReverseProxyThrottle (small_throttle_for 10000000000)))))))"
proof -
  let ?c = "small_throttle_for 10000000000"
  let ?t = "throttle_run f64 [Request ''10.0.0.7'' (2 ^ 64)] (newReverseProxyThrottle ?c)"
  obtain d t' where ev: "throttle_evaluate f64 ''10.0.0.7'' (2 ^ 64) ?t = (d, t')" by force
  have nb: "td_NewlyBlocked d"
    using small_requests(2) [of f64 10000000000 "2 ^ 64"] ev by simp
  have cfg: "normalizeReverseProxyThrottleConfig (th_config ?t) = ?c"
    by (simp add: normalizeReverseProxyThrottleConfig_def small_throttle_def Let_def)
  have b: "9223372036 < tc_BlockSeconds (normalizeReverseProxyThrottleConfig (th_config ?t))"
      "tc_BlockSeconds (normalizeReverseProxyThrottleConfig (th_config ?t)) \<le> 18446744073"
    unfolding cfg by (simp_all add: small_throttle_def)
  have n: "(2 :: int) ^ 63 < 2 ^ 64" by simp
  have "td_Allowed (fst (throttle_evaluate f64 ''10.0.0.7'' (2 ^ 64) t'))"
    by (rule throttle_block_overflow [OF refl ev nb b n order_refl refl])
  then show ?thesis using ev by simp
qed

end
