(* ===== verification/GoTime.thy ===== *)
theory GoTime
  imports GoStrings
begin

text \<open>
  The part of package \<^verbatim>\<open>time\<close> the source uses on texts: parsing with the layouts
  \<^verbatim>\<open>RFC3339Nano\<close> and \<^verbatim>\<open>RFC3339\<close>, which accept the same texts, and formatting a UTC
  time with \<^verbatim>\<open>RFC3339Nano\<close>.  A time is the number of nanoseconds since the zero time.
\<close>

section \<open>The calendar\<close>

definition leap_year :: "int \<Rightarrow> bool" where
  "leap_year y = (y mod 4 = 0 \<and> (y mod 100 \<noteq> 0 \<or> y mod 400 = 0))"

definition days_in :: "int \<Rightarrow> int \<Rightarrow> int" where
  "days_in m y =
     (if m = 2 then if leap_year y then 29 else 28
      else if m = 4 \<or> m = 6 \<or> m = 9 \<or> m = 11 then 30 else 31)"

definition year_start :: "int \<Rightarrow> int" where
  "year_start y = 365 * (y - 1) + (y - 1) div 4 - (y - 1) div 100 + (y - 1) div 400"

definition month_start :: "int \<Rightarrow> int \<Rightarrow> int" where
  "month_start m y = sum_list (map (\<lambda>k. days_in k y) [1..m - 1])"

definition date_time :: "int \<Rightarrow> int \<Rightarrow> int \<Rightarrow> int \<Rightarrow> int \<Rightarrow> int \<Rightarrow> int \<Rightarrow> time" where
  "date_time y mo d h mi s ns =
     (((year_start y + month_start mo y + (d - 1)) * 24 + h) * 60 + mi) * (60 * second) + s * second + ns"

section \<open>Parsing\<close>

definition num2 :: "string \<Rightarrow> (int \<times> string) option" where
  "num2 s =
     (case s of
        a # b # r \<Rightarrow> if is_digit a \<and> is_digit b then Some (int (dec_val [a, b]), r) else None
      | _ \<Rightarrow> None)"

text \<open>The hour may have one digit.\<close>

definition num12 :: "string \<Rightarrow> (int \<times> string) option" where
  "num12 s =
     (case s of
        a # b # r \<Rightarrow>
          if is_digit a \<and> is_digit b then Some (int (dec_val [a, b]), r)
          else if is_digit a then Some (int (dec_val [a]), b # r) else None
      | [a] \<Rightarrow> if is_digit a then Some (int (dec_val [a]), []) else None
      | [] \<Rightarrow> None)"

definition num4 :: "string \<Rightarrow> (int \<times> string) option" where
  "num4 s =
     (if length s \<ge> 4 \<and> list_all is_digit (take 4 s) then Some (int (dec_val (take 4 s)), drop 4 s)
      else None)"

definition expect :: "char \<Rightarrow> string \<Rightarrow> string option" where
  "expect c s = (case s of x # r \<Rightarrow> if x = c then Some r else None | [] \<Rightarrow> None)"

definition in_range :: "int \<Rightarrow> int \<Rightarrow> int \<Rightarrow> bool" where
  "in_range lo x hi = (lo \<le> x \<and> x \<le> hi)"

definition dec_int :: "string \<Rightarrow> int" where
  "dec_int ds = foldl (\<lambda>n c. n * 10 + int (digit_val c)) 0 ds"

text \<open>A fraction is a dot or comma and digits; nine of them count.\<close>

definition fraction :: "string \<Rightarrow> int \<times> string" where
  "fraction s =
     (case s of
        p # d # r \<Rightarrow>
          if (p = CHR ''.'' \<or> p = CHR '','') \<and> is_digit d then
            (let ds = takeWhile is_digit (d # r) in
             (dec_int (take 9 (ds @ replicate 9 CHR ''0'')), dropWhile is_digit (d # r)))
          else (0, s)
      | _ \<Rightarrow> (0, s))"

text \<open>\<open>Z\<close> or a signed offset, in seconds.\<close>

definition zone_offset :: "string \<Rightarrow> int option" where
  "zone_offset s =
     (if s = ''Z'' then Some 0
      else
        (case s of
           sg # r \<Rightarrow>
             if length r = 5 \<and> r ! 2 = CHR '':'' \<and> (sg = CHR ''+'' \<or> sg = CHR ''-'') then
               (case (num2 (take 2 r), num2 (drop 3 r)) of
                  (Some (h, _), Some (m, _)) \<Rightarrow>
                    if h \<le> 24 \<and> m \<le> 60 then
                      Some ((if sg = CHR ''-'' then -1 else 1) * (h * 60 + m) * 60)
                    else None
                | _ \<Rightarrow> None)
             else None
         | [] \<Rightarrow> None))"

definition parse_clock :: "string \<Rightarrow> (int \<times> int \<times> int \<times> int \<times> string) option" where
  "parse_clock s =
     Option.bind (num12 s) (\<lambda>(h, s).
     Option.bind (expect CHR '':'' s) (\<lambda>s.
     Option.bind (num2 s) (\<lambda>(mi, s).
     Option.bind (expect CHR '':'' s) (\<lambda>s.
     Option.bind (num2 s) (\<lambda>(sec, s).
     if h < 24 \<and> mi < 60 \<and> sec < 60 then
       (case fraction s of (ns, s) \<Rightarrow> Some (h, mi, sec, ns, s))
     else None)))))"

definition parse_rfc3339 :: "string \<Rightarrow> time option" where
  "parse_rfc3339 s =
     Option.bind (num4 s) (\<lambda>(y, s).
     Option.bind (expect CHR ''-'' s) (\<lambda>s.
     Option.bind (num2 s) (\<lambda>(mo, s).
     Option.bind (expect CHR ''-'' s) (\<lambda>s.
     Option.bind (num2 s) (\<lambda>(d, s).
     Option.bind (expect CHR ''T'' s) (\<lambda>s.
     Option.bind (parse_clock s) (\<lambda>(h, mi, sec, ns, s).
     Option.bind (zone_offset s) (\<lambda>off.
     if in_range 1 mo 12 \<and> in_range 1 d (days_in mo y)
     then Some (date_time y mo d h mi sec ns - off * second) else None))))))))"

section \<open>Formatting\<close>

definition pad :: "nat \<Rightarrow> int \<Rightarrow> string" where
  "pad n x = (let ds = nat_str (nat x) in replicate (n - length ds) CHR ''0'' @ ds)"

definition fixed_digits :: "nat \<Rightarrow> int \<Rightarrow> string" where
  "fixed_digits n x = map (\<lambda>k. digit_char (nat (x div 10 ^ k mod 10))) (rev [0..<n])"

text \<open>Year and day of the year (from 0) of a day number.\<close>

definition year_of :: "int \<Rightarrow> int \<times> int" where
  "year_of d =
     (let n400 = d div 146097; d = d mod 146097;
          n100 = d div 36524; n100 = n100 - n100 div 4; d = d - n100 * 36524;
          n4 = d div 1461; d = d - n4 * 1461;
          n1 = d div 365; n1 = n1 - n1 div 4; d = d - n1 * 365
      in (400 * n400 + 100 * n100 + 4 * n4 + n1 + 1, d))"

fun month_of :: "nat \<Rightarrow> int \<Rightarrow> int \<Rightarrow> int \<Rightarrow> int \<times> int" where
  "month_of 0 m y d = (m, d)"
| "month_of (Suc k) m y d =
     (if d < days_in m y then (m, d) else month_of k (m + 1) y (d - days_in m y))"

definition fraction_str :: "int \<Rightarrow> string" where
  "fraction_str ns =
     (if ns = 0 then [] else CHR ''.'' # rev (dropWhile (\<lambda>c. c = CHR ''0'') (rev (fixed_digits 9 ns))))"

definition format_rfc3339 :: "time \<Rightarrow> string" where
  "format_rfc3339 t =
     (let ns = t mod second; s = t div second; day = s div 86400; r = s mod 86400 in
      case year_of day of (y, yd) \<Rightarrow>
      (case month_of 11 1 y yd of (mo, d) \<Rightarrow>
         pad 4 y @ ''-'' @ pad 2 mo @ ''-'' @ pad 2 (d + 1) @ ''T'' @
         pad 2 (r div 3600) @ '':'' @ pad 2 (r mod 3600 div 60) @ '':'' @ pad 2 (r mod 60) @
         fraction_str ns @ ''Z''))"

end
