(* ===== verification/CidrPolicy.thy ===== *)
theory CidrPolicy
  imports ClientIP GoTime
begin

text \<open>
  The three address-list policies of the gateway: who may see it
  (\<^verbatim>\<open>pkg/proxy/gateway_visibility.go\<close>), who is exempt from the throttle
  (\<^verbatim>\<open>pkg/proxy/reverse_proxy_throttle_exempt_ips.go\<close>) and which common locations skip the WAF
  (\<^verbatim>\<open>pkg/proxy/common_location_exemptions.go\<close>).  Each keeps a normalised configuration with
  its parsed prefixes; a nil runtime is \<open>None\<close>.  The lemmas show that a decision depends on the
  configured texts exactly as their addresses say, and that stale updates lose.
\<close>

section \<open>Configured prefixes\<close>

definition parse_cidr :: "string \<Rightarrow> (string \<times> ip_prefix) option" where
  "parse_cidr rawCIDR =
     (let cidr = trim_space rawCIDR in
      if cidr = [] then None
      else map_option (\<lambda>p. (prefix_str (masked p), masked p)) (parse_prefix cidr))"

text \<open>The lenient loop skips what does not parse, the strict one stops there.\<close>

definition collect_cidrs :: "string list \<Rightarrow> (string \<times> ip_prefix) list" where
  "collect_cidrs raws = dedup_on fst parse_cidr [] raws"

fun collect_cidrs_strict :: "string list \<Rightarrow> string list \<Rightarrow> string + (string \<times> ip_prefix) list" where
  "collect_cidrs_strict seen [] = Inr []"
| "collect_cidrs_strict seen (rawCIDR # rest) =
     (let cidr = trim_space rawCIDR in
      if cidr = [] then collect_cidrs_strict seen rest
      else (case parse_prefix cidr of
              None \<Rightarrow> Inl cidr
            | Some prefix0 \<Rightarrow>
                (let text = prefix_str (masked prefix0) in
                 if text \<in> set seen then collect_cidrs_strict seen rest
                 else map_sum id (Cons (text, masked prefix0))
                        (collect_cidrs_strict (text # seen) rest))))"

definition covers :: "string list \<Rightarrow> addr \<Rightarrow> bool" where
  "covers raws a = (\<exists>raw \<in> set raws. \<exists>p. parse_prefix (trim_space raw) = Some p \<and> prefix_contains p a)"

lemma parse_prefix_Nil [simp]: "parse_prefix [] = None"
  by (simp add: parse_prefix_def last_index_byte_def)

lemma parse_cidr_Some:
  "parse_cidr raw = Some y \<longleftrightarrow>
     (\<exists>p. parse_prefix (trim_space raw) = Some p \<and> y = (prefix_str (masked p), masked p))"
  by (auto simp: parse_cidr_def Let_def)

lemma parse_cidr_inj:
  "parse_cidr r = Some y \<Longrightarrow> parse_cidr r' = Some y' \<Longrightarrow> fst y = fst y' \<Longrightarrow> y = y'"
proof -
  assume "parse_cidr r = Some y" "parse_cidr r' = Some y'" and t: "fst y = fst y'"
  then obtain p p' where p: "parse_prefix (trim_space r) = Some p" "y = (prefix_str (masked p), masked p)"
    and p': "parse_prefix (trim_space r') = Some p'" "y' = (prefix_str (masked p'), masked p')"
    by (auto simp: parse_cidr_Some)
  have "prefix_ok (masked p)" "prefix_ok (masked p')"
    using p p' by (auto intro: masked_ok parse_prefix_ok)
  with p p' t show ?thesis by (auto dest: prefix_str_inj)
qed

lemma set_collect_cidrs: "set (collect_cidrs raws) = {y. \<exists>raw \<in> set raws. parse_cidr raw = Some y}"
  unfolding collect_cidrs_def by (rule dedup_on_set) (rule parse_cidr_inj)

lemma collect_covers:
  "(\<exists>p \<in> set (map snd (collect_cidrs raws)). prefix_contains p a) = covers raws a"
proof -
  have "(\<exists>p \<in> set (map snd (collect_cidrs raws)). prefix_contains p a) \<longleftrightarrow>
      (\<exists>y \<in> set (collect_cidrs raws). prefix_contains (snd y) a)" by auto
  also have "\<dots> \<longleftrightarrow> (\<exists>raw \<in> set raws. \<exists>y. parse_cidr raw = Some y \<and> prefix_contains (snd y) a)"
    unfolding set_collect_cidrs by blast
  finally have m: "(\<exists>p \<in> set (map snd (collect_cidrs raws)). prefix_contains p a) \<longleftrightarrow>
      (\<exists>raw \<in> set raws. \<exists>y. parse_cidr raw = Some y \<and> prefix_contains (snd y) a)" .
  have "(\<exists>y. parse_cidr raw = Some y \<and> prefix_contains (snd y) a) \<longleftrightarrow>
      (\<exists>p. parse_prefix (trim_space raw) = Some p \<and> prefix_contains p a)" for raw
    by (auto simp: parse_cidr_Some)
  with m show ?thesis by (simp add: covers_def)
qed

lemma map_sum_Inr: "map_sum id f x = Inr ys \<longleftrightarrow> (\<exists>zs. x = Inr zs \<and> ys = f zs)"
  by (cases x) auto

lemma map_sum_Inl: "map_sum id f x = Inl e \<longleftrightarrow> x = Inl e"
  by (cases x) auto

lemma collect_strict_lenient:
  "collect_cidrs_strict seen raws = Inr xs \<Longrightarrow> xs = dedup_on fst parse_cidr seen raws"
  by (induction seen raws arbitrary: xs rule: collect_cidrs_strict.induct)
    (auto simp: parse_cidr_def Let_def map_sum_Inr split: if_splits option.splits)

lemma collect_strict_total:
  "\<forall>raw \<in> set raws. trim_space raw \<noteq> [] \<longrightarrow> parse_prefix (trim_space raw) \<noteq> None \<Longrightarrow>
     collect_cidrs_strict seen raws = Inr (dedup_on fst parse_cidr seen raws)"
  by (induction seen raws rule: collect_cidrs_strict.induct)
    (auto simp: parse_cidr_def Let_def split: option.splits)

lemma collect_strict_parsed:
  "collect_cidrs_strict seen raws = Inr xs \<Longrightarrow> raw \<in> set raws \<Longrightarrow> trim_space raw \<noteq> [] \<Longrightarrow>
     parse_prefix (trim_space raw) \<noteq> None"
  by (induction seen raws arbitrary: xs rule: collect_cidrs_strict.induct)
    (auto simp: Let_def map_sum_Inr split: if_splits option.splits)

lemma collect_strict_error:
  "collect_cidrs_strict seen raws = Inl e \<Longrightarrow>
     \<exists>raw \<in> set raws. e = trim_space raw \<and> e \<noteq> [] \<and> parse_prefix e = None"
  by (induction seen raws rule: collect_cidrs_strict.induct)
    (auto simp: Let_def map_sum_Inl split: if_splits option.splits)

section \<open>Gateway visibility\<close>

record visibility_config =
  vc_Enabled :: bool
  vc_CIDRs :: "string list"
  vc_UpdatedAt :: string

record gateway_visibility =
  gv_config :: visibility_config
  gv_prefixes :: "ip_prefix list"

definition mustParseVisibilityPrefix :: "string \<Rightarrow> ip_prefix option" where
  "mustParseVisibilityPrefix v = map_option masked (parse_prefix v)"

definition visibilityExemptPrefixes :: "ip_prefix list" where
  "visibilityExemptPrefixes =
     (case mustParseVisibilityPrefix ''100.64.0.0/10'' of Some p \<Rightarrow> [p] | None \<Rightarrow> [])"

definition isVisibilityExemptAddr :: "addr \<Rightarrow> bool" where
  "isVisibilityExemptAddr a =
     (if addr_is_loopback a \<or> addr_is_private a \<or> addr_is_link_local a then True
      else list_ex (\<lambda>p. prefix_contains p a) visibilityExemptPrefixes)"

definition normalizeGatewayVisibilityConfig ::
    "visibility_config \<Rightarrow> string + (visibility_config \<times> ip_prefix list)" where
  "normalizeGatewayVisibilityConfig cfg =
     map_sum id
       (\<lambda>xs. (\<lparr>vc_Enabled = vc_Enabled cfg, vc_CIDRs = map fst xs,
               vc_UpdatedAt = trim_space (vc_UpdatedAt cfg)\<rparr>, map snd xs))
       (collect_cidrs_strict [] (vc_CIDRs cfg))"

definition newGatewayVisibility :: "visibility_config \<Rightarrow> string + gateway_visibility" where
  "newGatewayVisibility cfg =
     map_sum id (\<lambda>(normalized, pfs). \<lparr>gv_config = normalized, gv_prefixes = pfs\<rparr>)
       (normalizeGatewayVisibilityConfig cfg)"

text \<open>An update returns its error, if any, and the runtime afterwards.\<close>

definition visibility_update ::
    "visibility_config \<Rightarrow> gateway_visibility option \<Rightarrow> string option \<times> gateway_visibility option" where
  "visibility_update cfg v =
     (case v of
        None \<Rightarrow> (None, None)
      | Some v \<Rightarrow>
          (case normalizeGatewayVisibilityConfig cfg of
             Inl err \<Rightarrow> (Some err, Some v)
           | Inr (normalized, pfs) \<Rightarrow>
               (None, Some (v\<lparr>gv_config := normalized, gv_prefixes := pfs\<rparr>))))"

definition visibility_getConfig :: "gateway_visibility option \<Rightarrow> visibility_config" where
  "visibility_getConfig v =
     (case v of
        None \<Rightarrow> \<lparr>vc_Enabled = False, vc_CIDRs = [], vc_UpdatedAt = []\<rparr>
      | Some v \<Rightarrow> gv_config v)"

definition visibility_contains :: "gateway_visibility option \<Rightarrow> string \<Rightarrow> bool" where
  "visibility_contains v clientIP =
     (case v of
        None \<Rightarrow> True
      | Some v \<Rightarrow>
          if \<not> vc_Enabled (gv_config v) then True
          else
            (let normalizedIP = normalizeClientIP clientIP in
             if normalizedIP = [] then False
             else (case parse_addr normalizedIP of
                     None \<Rightarrow> False
                   | Some a \<Rightarrow>
                       if isVisibilityExemptAddr a then True
                       else list_ex (\<lambda>p. prefix_contains p a) (gv_prefixes v))))"

lemma list_ex_collect: "list_ex (\<lambda>p. prefix_contains p a) (map snd (collect_cidrs raws)) = covers raws a"
  using collect_covers [where a = a and raws = raws] by (simp add: list_ex_iff)

lemma normalizeGatewayVisibility_Inr:
  assumes "normalizeGatewayVisibilityConfig cfg = Inr (n, ps)"
  shows "n = \<lparr>vc_Enabled = vc_Enabled cfg, vc_CIDRs = map fst (collect_cidrs (vc_CIDRs cfg)),
               vc_UpdatedAt = trim_space (vc_UpdatedAt cfg)\<rparr>"
    and "ps = map snd (collect_cidrs (vc_CIDRs cfg))"
  using assms collect_strict_lenient [of "[]" "vc_CIDRs cfg"]
  by (auto simp: normalizeGatewayVisibilityConfig_def map_sum_Inr collect_cidrs_def)

text \<open>The texts of normalised prefixes parse back to them.\<close>

lemma collect_cidr_text:
  "(t, p) \<in> set (collect_cidrs raws) \<Longrightarrow> parse_prefix t = Some p \<and> masked p = p \<and> t = prefix_str p"
  by (auto simp: set_collect_cidrs parse_cidr_Some masked_ok parse_prefix_ok intro!: parse_prefix_str)

lemma graph_chars:
  "is_digit c \<Longrightarrow> graph_char c" "is_hex c \<Longrightarrow> graph_char c"
  by (auto simp: graph_char_def is_digit_def is_hex_def)

lemma addr_str_graph: "addr_zone a = [] \<Longrightarrow> list_all graph_char (addr_str a)"
proof (cases a)
  case (V6 w z)
  assume "addr_zone a = []"
  have "graph_char c" if "c \<in> set (v6_str w)" for c
  proof -
    have "graph_char CHR '':''" "graph_char CHR ''f''" by (simp_all add: graph_char_def byte_def)
    with that v6_body_str_chars [of c "v6_groups w"] v4_str_graph [of "unmap_4in6 w"] show ?thesis
      by (auto simp: v6_str_def list_all_iff graph_chars split: if_splits)
  qed
  with V6 \<open>addr_zone a = []\<close> show ?thesis by (simp add: list_all_iff)
qed (simp add: v4_str_graph)

lemma prefix_str_graph: "prefix_ok p \<Longrightarrow> list_all graph_char (prefix_str p)"
proof (cases p)
  case (Prefix a n)
  assume "prefix_ok p"
  moreover have "graph_char CHR ''/''" by (simp add: graph_char_def byte_def)
  ultimately show ?thesis
    using Prefix addr_str_graph [of a] nat_str_digits [of _ n] by (auto simp: list_all_iff graph_chars)
qed

lemma trim_prefix_str [simp]: "prefix_ok p \<Longrightarrow> trim_space (prefix_str p) = prefix_str p"
  by (intro trim_space_graph_all prefix_str_graph)

text \<open>Normalising a normalised list keeps it.\<close>

lemma collect_cidrs_idem: "collect_cidrs (map fst (collect_cidrs raws)) = collect_cidrs raws"
proof -
  let ?ys = "collect_cidrs raws"
  have y: "parse_cidr (fst y) = Some y" if "y \<in> set ?ys" for y
  proof -
    from that obtain raw p where "parse_prefix (trim_space raw) = Some p" "y = (prefix_str (masked p), masked p)"
      by (auto simp: set_collect_cidrs parse_cidr_Some)
    then have "prefix_ok (masked p)" "fst y = prefix_str (masked p)" "snd y = masked p"
      by (auto intro: masked_ok parse_prefix_ok)
    then show ?thesis by (cases y) (simp add: parse_cidr_Some parse_prefix_str)
  qed
  define g where "g t = (case parse_cidr t of Some y \<Rightarrow> y | None \<Rightarrow> (t, Prefix (V4 0) 0))" for t
  have g: "g (fst y) = y" if "y \<in> set ?ys" for y using y [OF that] by (simp add: g_def)
  have "dedup_on fst parse_cidr [] (map fst ?ys) = map g (map fst ?ys)"
  proof (rule dedup_on_id)
    show "\<forall>t \<in> set (map fst ?ys). parse_cidr t = Some (g t)" using y g by auto
    have "map (fst \<circ> g) (map fst ?ys) = map fst ?ys" using g by (simp cong: map_cong)
    moreover have "distinct (map fst ?ys)" by (simp add: collect_cidrs_def dedup_on_distinct)
    ultimately show "distinct (map (fst \<circ> g) (map fst ?ys))" by (simp only:)
  qed simp
  also have "\<dots> = ?ys" using g by (simp add: map_idI)
  finally show ?thesis by (simp add: collect_cidrs_def [of "map fst ?ys"])
qed

section \<open>Updates with a time stamp\<close>

definition parseUpdatedAt :: "string \<Rightarrow> time option" where
  "parseUpdatedAt v = (let trimmed = trim_space v in if trimmed = [] then None else parse_rfc3339 trimmed)"

definition shouldIgnoreUpdate :: "string \<Rightarrow> string \<Rightarrow> bool" where
  "shouldIgnoreUpdate currentUpdatedAt nextUpdatedAt =
     (case (parseUpdatedAt currentUpdatedAt, parseUpdatedAt nextUpdatedAt) of
        (Some currentTime, Some nextTime) \<Rightarrow> nextTime < currentTime
      | _ \<Rightarrow> False)"

text \<open>
  The contract of a runtime that is replaced as a whole unless its own stamp is later:
  \<open>prepare\<close> normalises a configuration, \<open>stamp\<close> reads the time stamp, \<open>update\<close> applies.
\<close>

locale stamped_runtime =
  fixes prepare :: "'c \<Rightarrow> 's" and stamp :: "'s \<Rightarrow> string" and update :: "'c \<Rightarrow> 's \<Rightarrow> bool \<times> 's"
  assumes update_law:
    "update c s =
       (if shouldIgnoreUpdate (stamp s) (stamp (prepare c)) then (False, s) else (True, prepare c))"
begin

definition apply_all :: "'c list \<Rightarrow> 's \<Rightarrow> 's" where
  "apply_all cs s = foldl (\<lambda>s c. snd (update c s)) s cs"

lemma update_newer:
  "parseUpdatedAt (stamp s) = Some t \<Longrightarrow> parseUpdatedAt (stamp (prepare c)) = Some u \<Longrightarrow>
     parseUpdatedAt (stamp (snd (update c s))) = Some (max t u)"
  by (auto simp: update_law shouldIgnoreUpdate_def)

text \<open>Whatever the order of arrival, the state is the update with the latest stamp, the last of
  them where several have it.\<close>

lemma apply_all_latest:
  assumes "\<forall>c \<in> set cs. \<exists>u. parseUpdatedAt (stamp (prepare c)) = Some u"
    and "parseUpdatedAt (stamp s) = Some t"
  shows "\<exists>u. parseUpdatedAt (stamp (apply_all cs s)) = Some u \<and> t \<le> u \<and>
    (\<forall>c \<in> set cs. the (parseUpdatedAt (stamp (prepare c))) \<le> u) \<and>
    (apply_all cs s = s \<or> (\<exists>c \<in> set cs. apply_all cs s = prepare c))"
  using assms
proof (induction cs arbitrary: s t)
  case Nil
  then show ?case by (simp add: apply_all_def)
next
  case (Cons c cs)
  from Cons.prems obtain u where u: "parseUpdatedAt (stamp (prepare c)) = Some u" by auto
  let ?s = "snd (update c s)"
  have st: "parseUpdatedAt (stamp ?s) = Some (max t u)"
    using update_newer [OF Cons.prems(2) u] .
  have eq: "apply_all (c # cs) s = apply_all cs ?s" by (simp add: apply_all_def)
  from Cons.IH [OF _ st] Cons.prems(1) obtain w where w:
      "parseUpdatedAt (stamp (apply_all cs ?s)) = Some w" "max t u \<le> w"
      "\<forall>c \<in> set cs. the (parseUpdatedAt (stamp (prepare c))) \<le> w"
      "apply_all cs ?s = ?s \<or> (\<exists>c \<in> set cs. apply_all cs ?s = prepare c)"
    by auto
  have "?s = s \<or> ?s = prepare c" by (auto simp: update_law)
  with w u eq show ?case by (auto intro!: exI [of _ w])
qed

end

section \<open>Throttle exemptions\<close>

record exempt_config =
  ec_Enabled :: bool
  ec_IPs :: "string list"
  ec_CIDRs :: "string list"
  ec_UpdatedAt :: string

record exempt_runtime =
  er_config :: exempt_config
  er_ips :: "string list"
  er_cidrs :: "ip_prefix list"

definition normalizeExemptIP :: "string \<Rightarrow> (string \<times> addr) option" where
  "normalizeExemptIP v =
     (let normalizedIP = normalizeIPAddress v in
      if normalizedIP = [] then None
      else map_option (\<lambda>a. (normalizedIP, a)) (parse_addr normalizedIP))"

definition exempt_ip_entry :: "string \<Rightarrow> string option" where
  "exempt_ip_entry rawIP =
     (case normalizeExemptIP rawIP of
        None \<Rightarrow> None
      | Some (normalizedIP, a) \<Rightarrow> if isVisibilityExemptAddr a then None else Some normalizedIP)"

definition normalizeExemptRuntime :: "exempt_config \<Rightarrow> exempt_runtime" where
  "normalizeExemptRuntime cfg =
     (let ips = dedup_on id exempt_ip_entry [] (ec_IPs cfg); cidrs = collect_cidrs (ec_CIDRs cfg) in
      \<lparr>er_config = \<lparr>ec_Enabled = ec_Enabled cfg, ec_IPs = ips, ec_CIDRs = map fst cidrs,
                    ec_UpdatedAt = trim_space (ec_UpdatedAt cfg)\<rparr>,
       er_ips = ips, er_cidrs = map snd cidrs\<rparr>)"

definition exempt_updateConfig :: "exempt_config \<Rightarrow> exempt_runtime \<Rightarrow> bool \<times> exempt_runtime" where
  "exempt_updateConfig cfg r =
     (let n = normalizeExemptRuntime cfg in
      if shouldIgnoreUpdate (ec_UpdatedAt (er_config r)) (ec_UpdatedAt (er_config n)) then (False, r)
      else (True, r\<lparr>er_config := er_config n, er_ips := er_ips n, er_cidrs := er_cidrs n\<rparr>))"

definition zero_exempt_config :: exempt_config where
  "zero_exempt_config = \<lparr>ec_Enabled = False, ec_IPs = [], ec_CIDRs = [], ec_UpdatedAt = []\<rparr>"

definition newExemptRuntime :: "exempt_config \<Rightarrow> exempt_runtime" where
  "newExemptRuntime cfg =
     snd (exempt_updateConfig cfg \<lparr>er_config = zero_exempt_config, er_ips = [], er_cidrs = []\<rparr>)"

definition exempt_getConfig :: "exempt_runtime option \<Rightarrow> exempt_config" where
  "exempt_getConfig r = (case r of None \<Rightarrow> zero_exempt_config | Some r \<Rightarrow> er_config r)"

definition exempt_shouldBypass :: "exempt_runtime option \<Rightarrow> string \<Rightarrow> bool" where
  "exempt_shouldBypass r clientIP =
     (case normalizeExemptIP clientIP of
        None \<Rightarrow> False
      | Some (normalizedIP, a) \<Rightarrow>
          if isVisibilityExemptAddr a then True
          else (case r of
                  None \<Rightarrow> False
                | Some r \<Rightarrow>
                    if \<not> ec_Enabled (er_config r) then False
                    else if normalizedIP \<in> set (er_ips r) then True
                    else list_ex (\<lambda>p. prefix_contains p a) (er_cidrs r)))"

section \<open>Common locations\<close>

record common_config =
  cc_Enabled :: bool
  cc_WAFEnabled :: bool
  cc_CIDRs :: "string list"
  cc_UpdatedAt :: string

record common_runtime =
  cr_config :: common_config
  cr_prefixes :: "ip_prefix list"

definition normalizeCommonRuntime :: "common_config \<Rightarrow> common_runtime" where
  "normalizeCommonRuntime cfg =
     (let cidrs = collect_cidrs (cc_CIDRs cfg) in
      \<lparr>cr_config = \<lparr>cc_Enabled = cc_Enabled cfg, cc_WAFEnabled = cc_WAFEnabled cfg,
                    cc_CIDRs = map fst cidrs, cc_UpdatedAt = trim_space (cc_UpdatedAt cfg)\<rparr>,
       cr_prefixes = map snd cidrs\<rparr>)"

definition common_updateConfig :: "common_config \<Rightarrow> common_runtime \<Rightarrow> bool \<times> common_runtime" where
  "common_updateConfig cfg r =
     (let n = normalizeCommonRuntime cfg in
      if shouldIgnoreUpdate (cc_UpdatedAt (cr_config r)) (cc_UpdatedAt (cr_config n)) then (False, r)
      else (True, r\<lparr>cr_config := cr_config n, cr_prefixes := cr_prefixes n\<rparr>))"

definition zero_common_config :: common_config where
  "zero_common_config =
     \<lparr>cc_Enabled = False, cc_WAFEnabled = False, cc_CIDRs = [], cc_UpdatedAt = []\<rparr>"

definition newCommonRuntime :: "common_config \<Rightarrow> common_runtime" where
  "newCommonRuntime cfg =
     snd (common_updateConfig cfg \<lparr>cr_config = zero_common_config, cr_prefixes = []\<rparr>)"

definition common_getConfig :: "common_runtime option \<Rightarrow> common_config" where
  "common_getConfig r = (case r of None \<Rightarrow> zero_common_config | Some r \<Rightarrow> cr_config r)"

definition common_shouldBypassWAF :: "common_runtime option \<Rightarrow> string \<Rightarrow> bool" where
  "common_shouldBypassWAF r clientIP =
     (case r of
        None \<Rightarrow> False
      | Some r \<Rightarrow>
          (let normalizedIP = normalizeClientIP clientIP in
           if normalizedIP = [] then False
           else (case parse_addr normalizedIP of
                   None \<Rightarrow> False
                 | Some a \<Rightarrow>
                     if \<not> cc_Enabled (cr_config r) \<or> \<not> cc_WAFEnabled (cr_config r) then False
                     else list_ex (\<lambda>p. prefix_contains p a) (cr_prefixes r))))"

interpretation exempt: stamped_runtime normalizeExemptRuntime "\<lambda>r. ec_UpdatedAt (er_config r)" exempt_updateConfig
  by unfold_locales (simp add: exempt_updateConfig_def Let_def)

interpretation common: stamped_runtime normalizeCommonRuntime "\<lambda>r. cc_UpdatedAt (cr_config r)" common_updateConfig
  by unfold_locales (simp add: common_updateConfig_def Let_def)

section \<open>Properties\<close>

lemma parse_addr_Nil [simp]: "parse_addr [] = None"
  by (simp add: parse_addr_def)

text \<open>After an accepted update the gateway is visible to a client exactly if the policy is off,
  or the client's address is loopback, private, link-local or carrier-grade NAT, or one of the
  configured prefixes, as it was written, contains the address: masking, deduplication and
  re-printing change no decision.\<close>

theorem visibility_policy:
  assumes "visibility_update cfg (Some v) = (None, Some v')"
  shows "visibility_contains (Some v') clientIP \<longleftrightarrow>
    \<not> vc_Enabled cfg \<or>
    (\<exists>a. parse_addr (normalizeClientIP clientIP) = Some a \<and>
         (isVisibilityExemptAddr a \<or> covers (vc_CIDRs cfg) a))"
proof -
  from assms obtain n ps where n: "normalizeGatewayVisibilityConfig cfg = Inr (n, ps)"
    and v': "v' = v\<lparr>gv_config := n, gv_prefixes := ps\<rparr>"
    by (auto simp: visibility_update_def split: sum.splits prod.splits)
  show ?thesis
    using v' normalizeGatewayVisibility_Inr [OF n] list_ex_collect [of _ "vc_CIDRs cfg"]
    by (cases "normalizeClientIP clientIP = []") (auto simp: visibility_contains_def split: option.split)
qed

definition lan_visibility :: visibility_config where
  "lan_visibility = \<lparr>vc_Enabled = True, vc_CIDRs = ['' ''], vc_UpdatedAt = []\<rparr>"

theorem visibility_policy_witness:
  "visibility_contains
     (Some \<lparr>gv_config = \<lparr>vc_Enabled = True, vc_CIDRs = [], vc_UpdatedAt = []\<rparr>, gv_prefixes = []\<rparr>)
     ''not an address'' = False"
proof -
  let ?v = "\<lparr>gv_config = \<lparr>vc_Enabled = True, vc_CIDRs = [], vc_UpdatedAt = []\<rparr>, gv_prefixes = []\<rparr>"
  have u: "visibility_update lan_visibility (Some ?v) = (None, Some ?v)" by code_simp
  have n: "parse_addr (normalizeClientIP ''not an address'') = None" by code_simp
  have e: "vc_Enabled lan_visibility" by (simp add: lan_visibility_def)
  show ?thesis using visibility_policy [OF u, of "''not an address''"] n e by simp
qed

text \<open>An update is refused exactly when some configured text, other than white space, is not a
  prefix; the error is about such a text and the policy in force stays.\<close>

theorem visibility_update_atomic:
  "(fst (visibility_update cfg (Some v)) = None \<longleftrightarrow>
      (\<forall>raw \<in> set (vc_CIDRs cfg). trim_space raw = [] \<or> parse_prefix (trim_space raw) \<noteq> None)) \<and>
   (fst (visibility_update cfg (Some v)) = None \<or> snd (visibility_update cfg (Some v)) = Some v)"
proof -
  have ok: "(\<exists>xs. collect_cidrs_strict [] (vc_CIDRs cfg) = Inr xs) \<longleftrightarrow>
      (\<forall>raw \<in> set (vc_CIDRs cfg). trim_space raw = [] \<or> parse_prefix (trim_space raw) \<noteq> None)"
  proof (cases "collect_cidrs_strict [] (vc_CIDRs cfg)")
    case (Inl e)
    then show ?thesis using collect_strict_error by fastforce
  next
    case (Inr xs)
    have "parse_prefix (trim_space raw) \<noteq> None" if "raw \<in> set (vc_CIDRs cfg)" "trim_space raw \<noteq> []" for raw
      using collect_strict_parsed [OF Inr that] .
    then show ?thesis using Inr by blast
  qed
  show ?thesis
    by (cases "collect_cidrs_strict [] (vc_CIDRs cfg)")
      (use ok in \<open>auto simp: visibility_update_def normalizeGatewayVisibilityConfig_def\<close>)
qed

theorem visibility_update_atomic_witness:
  "snd (visibility_update \<lparr>vc_Enabled = True, vc_CIDRs = [''10.0.0.0/8'', ''10.0.0.0''], vc_UpdatedAt = []\<rparr>
      (Some \<lparr>gv_config = lan_visibility, gv_prefixes = []\<rparr>)) =
   Some \<lparr>gv_config = lan_visibility, gv_prefixes = []\<rparr>"
proof -
  let ?c = "\<lparr>vc_Enabled = True, vc_CIDRs = [''10.0.0.0/8'', ''10.0.0.0''], vc_UpdatedAt = []\<rparr>"
  have "trim_space ''10.0.0.0'' \<noteq> [] \<and> parse_prefix (trim_space ''10.0.0.0'') = None" by code_simp
  then show ?thesis
    using visibility_update_atomic [of ?c "\<lparr>gv_config = lan_visibility, gv_prefixes = []\<rparr>"] by auto
qed

text \<open>A client is exempt from the throttle exactly if its address is local, or the list is on and
  names the address in whatever spelling or covers it by a prefix.\<close>

theorem exempt_policy:
  "exempt_shouldBypass (Some (normalizeExemptRuntime cfg)) clientIP \<longleftrightarrow>
     (\<exists>a. parse_addr (normalizeIPAddress clientIP) = Some a \<and>
        (isVisibilityExemptAddr a \<or>
         ec_Enabled cfg \<and>
           ((\<exists>raw \<in> set (ec_IPs cfg). normalizeIPAddress raw = normalizeIPAddress clientIP) \<or>
            covers (ec_CIDRs cfg) a)))"
proof -
  have ips: "set (dedup_on id exempt_ip_entry [] raws) = {y. \<exists>raw \<in> set raws. exempt_ip_entry raw = Some y}" for raws
    by (rule dedup_on_set) simp
  show ?thesis
  proof (cases "parse_addr (normalizeIPAddress clientIP)")
    case None
    then show ?thesis by (simp add: exempt_shouldBypass_def normalizeExemptIP_def Let_def)
  next
    case (Some a)
    then have ne: "normalizeIPAddress clientIP \<noteq> []" by auto
    have entry: "exempt_ip_entry raw = Some (normalizeIPAddress clientIP) \<longleftrightarrow>
        normalizeIPAddress raw = normalizeIPAddress clientIP" if "\<not> isVisibilityExemptAddr a" for raw
      using that Some ne
      by (auto simp: exempt_ip_entry_def normalizeExemptIP_def Let_def split: option.splits if_splits)
    show ?thesis
      using Some ne entry
      by (simp add: exempt_shouldBypass_def normalizeExemptIP_def normalizeExemptRuntime_def Let_def ips
          list_ex_collect)
  qed
qed

text \<open>A client skips the WAF exactly if both switches are on and a configured prefix contains its
  address.\<close>

theorem common_location_policy:
  "common_shouldBypassWAF (Some (normalizeCommonRuntime cfg)) clientIP \<longleftrightarrow>
     cc_Enabled cfg \<and> cc_WAFEnabled cfg \<and>
     (\<exists>a. parse_addr (normalizeClientIP clientIP) = Some a \<and> covers (cc_CIDRs cfg) a)"
  by (cases "normalizeClientIP clientIP = []")
    (auto simp: common_shouldBypassWAF_def normalizeCommonRuntime_def Let_def list_ex_collect split: option.split)

text \<open>When updates with valid time stamps arrive in any order, the exemption list in force has the
  latest of their stamps, and is one of them or the list there was.\<close>

theorem exempt_latest_wins:
  assumes "\<forall>c \<in> set cs. \<exists>u. parseUpdatedAt (ec_UpdatedAt (er_config (normalizeExemptRuntime c))) = Some u"
    and "parseUpdatedAt (ec_UpdatedAt (er_config r)) = Some t"
    and "r' = foldl (\<lambda>r c. snd (exempt_updateConfig c r)) r cs"
  shows "\<exists>u. parseUpdatedAt (ec_UpdatedAt (er_config r')) = Some u \<and> t \<le> u \<and>
    (\<forall>c \<in> set cs. the (parseUpdatedAt (ec_UpdatedAt (er_config (normalizeExemptRuntime c)))) \<le> u) \<and>
    (r' = r \<or> (\<exists>c \<in> set cs. r' = normalizeExemptRuntime c))"
  using exempt.apply_all_latest [OF assms(1,2)] assms(3) by (simp add: exempt.apply_all_def)

definition stamped_exempt :: "string \<Rightarrow> exempt_config" where
  "stamped_exempt u = \<lparr>ec_Enabled = True, ec_IPs = [], ec_CIDRs = [], ec_UpdatedAt = u\<rparr>"

theorem exempt_latest_wins_witness:
  "\<exists>u. parseUpdatedAt (ec_UpdatedAt (er_config
      (snd (exempt_updateConfig (stamped_exempt ''2024-01-01T00:00:00Z'')
        (normalizeExemptRuntime (stamped_exempt ''2025-01-01T00:00:00Z'')))))) = Some u \<and>
     63871286400000000000 \<le> u"
proof -
  let ?new = "stamped_exempt ''2025-01-01T00:00:00Z''" and ?old = "stamped_exempt ''2024-01-01T00:00:00Z''"
  have o: "parseUpdatedAt (ec_UpdatedAt (er_config (normalizeExemptRuntime ?old))) = Some 63839664000000000000"
    by code_simp
  have n: "parseUpdatedAt (ec_UpdatedAt (er_config (normalizeExemptRuntime ?new))) = Some 63871286400000000000"
    by code_simp
  have a: "\<forall>c \<in> set [?old]. \<exists>u. parseUpdatedAt (ec_UpdatedAt (er_config (normalizeExemptRuntime c))) = Some u"
    using o by simp
  from exempt_latest_wins [OF a n refl] show ?thesis by auto
qed

text \<open>Normalising an exemption list twice is normalising it once.\<close>

theorem exempt_normalize_idem:
  assumes "\<forall>raw \<in> set (ec_IPs cfg). trim_space (normalizeIPAddress raw) = normalizeIPAddress raw"
  shows "normalizeExemptRuntime (er_config (normalizeExemptRuntime cfg)) = normalizeExemptRuntime cfg"
proof -
  let ?ips = "dedup_on id exempt_ip_entry [] (ec_IPs cfg)"
  have e: "exempt_ip_entry ip = Some ip" if "ip \<in> set ?ips" for ip
  proof -
    from dedup_on_sound [OF that] obtain raw where raw: "raw \<in> set (ec_IPs cfg)"
        "exempt_ip_entry raw = Some ip" by blast
    then have i: "ip = normalizeIPAddress raw" "ip \<noteq> []"
      by (auto simp: exempt_ip_entry_def normalizeExemptIP_def Let_def split: option.splits if_splits)
    have t: "trim_space ip = ip" using assms raw(1) i(1) by simp
    have "normalizeIPAddress ip = ip"
      using normalizeIPAddress_normal [of raw] i t normalizeIPAddress_fixed by auto
    with raw(2) i show ?thesis
      by (auto simp: exempt_ip_entry_def normalizeExemptIP_def Let_def split: option.splits if_splits)
  qed
  have "dedup_on id exempt_ip_entry [] ?ips = map id ?ips"
    using e dedup_on_distinct [of id exempt_ip_entry "[]" "ec_IPs cfg"]
    by (intro dedup_on_id) auto
  then show ?thesis by (simp add: normalizeExemptRuntime_def Let_def collect_cidrs_idem)
qed

theorem exempt_normalize_idem_witness:
  "normalizeExemptRuntime (er_config (normalizeExemptRuntime ((stamped_exempt []) \<lparr>ec_IPs := [''8.8.8.8:53'']\<rparr>)))
   = normalizeExemptRuntime ((stamped_exempt []) \<lparr>ec_IPs := [''8.8.8.8:53'']\<rparr>)"
proof -
  have n: "trim_space (normalizeIPAddress ''8.8.8.8:53'') = normalizeIPAddress ''8.8.8.8:53''" by code_simp
  show ?thesis by (rule exempt_normalize_idem) (simp add: n)
qed

end
