(* ===== verification/Ascii.thy ===== *)
theory Ascii
  imports GoStrings
begin

text \<open>
  The case-insensitive searches of \<^verbatim>\<open>pkg/proxy/ascii.go\<close> and \<^verbatim>\<open>pkg/waf/redact.go\<close>.
  The lemmas reduce each hand-written scan to the search of the lower-case texts.
\<close>

section \<open>Ranging over a string\<close>

text \<open>
  \<^verbatim>\<open>for i := range a\<close> visits the first byte of every rune; \<open>rune_len\<close> is the number of bytes
  the next rune of a nonempty string takes (1 for an invalid byte).
\<close>

definition cont_byte :: "char \<Rightarrow> bool" where
  "cont_byte c = (128 \<le> byte c \<and> byte c \<le> 191)"

definition second_ok :: "nat \<Rightarrow> nat \<Rightarrow> bool" where
  "second_ok b0 b1 =
     (if b0 = 224 then 160 \<le> b1 \<and> b1 \<le> 191
      else if b0 = 237 then 128 \<le> b1 \<and> b1 \<le> 159
      else if b0 = 240 then 144 \<le> b1 \<and> b1 \<le> 191
      else if b0 = 244 then 128 \<le> b1 \<and> b1 \<le> 143
      else 128 \<le> b1 \<and> b1 \<le> 191)"

definition rune_need :: "nat \<Rightarrow> nat" where
  "rune_need b0 =
     (if 194 \<le> b0 \<and> b0 \<le> 223 then 2 else if 224 \<le> b0 \<and> b0 \<le> 239 then 3
      else if 240 \<le> b0 \<and> b0 \<le> 244 then 4 else 1)"

definition rune_len :: "string \<Rightarrow> nat" where
  "rune_len s =
     (let n = rune_need (byte (hd s)) in
      if n = 1 then 1
      else if n \<le> length s \<and> second_ok (byte (hd s)) (byte (s ! 1)) \<and>
              list_all cont_byte (take (n - 2) (drop 2 s)) then n
      else 1)"

lemma rune_len_pos: "0 < rune_len s"
  by (simp add: rune_len_def rune_need_def Let_def)

lemma rune_len_ascii: "byte c < 128 \<Longrightarrow> rune_len (c # s) = 1"
  by (simp add: rune_len_def rune_need_def)

lemma rune_need_high: "rune_need b \<noteq> 1 \<Longrightarrow> 194 \<le> b"
  by (simp add: rune_need_def split: if_splits)

section \<open>Comparison\<close>

function equal_fold_range :: "string \<Rightarrow> string \<Rightarrow> bool" where
  "equal_fold_range [] b = True"
| "equal_fold_range (x # a) b =
     (if lowerASCII x \<noteq> lowerASCII (hd b) then False
      else equal_fold_range (drop (rune_len (x # a)) (x # a)) (drop (rune_len (x # a)) b))"
  by pat_completeness auto
termination
  by (relation "measure (length \<circ> fst)") (auto simp: rune_len_pos)

definition equalFoldASCIIString :: "string \<Rightarrow> string \<Rightarrow> bool" where
  "equalFoldASCIIString a b = (if length a \<noteq> length b then False else equal_fold_range a b)"

lemma equal_fold_range_ascii:
  "length a = length b \<Longrightarrow> is_ascii a \<or> is_ascii b \<Longrightarrow>
     equal_fold_range a b = (map lowerASCII a = map lowerASCII b)"
proof (induction a arbitrary: b)
  case (Cons x a)
  then obtain y b' where b: "b = y # b'" by (cases b) auto
  show ?case
  proof (cases "lowerASCII x = lowerASCII y")
    case True
    have "byte x < 128"
    proof (rule ccontr)
      assume "\<not> byte x < 128"
      then have "byte y < 128" "byte (lowerASCII x) = byte x"
        using Cons.prems(2) b by (auto simp: is_ascii_def byte_lowerASCII)
      with \<open>\<not> byte x < 128\<close> True show False by (auto simp: byte_lowerASCII split: if_splits)
    qed
    then have "rune_len (x # a) = 1" by (rule rune_len_ascii)
    moreover have "equal_fold_range a b' = (map lowerASCII a = map lowerASCII b')"
      using Cons.prems b by (intro Cons.IH) (auto simp: is_ascii_def)
    ultimately show ?thesis using True b by simp
  qed (simp add: b)
qed simp

lemma equalFold_ascii:
  "is_ascii a \<or> is_ascii b \<Longrightarrow> equalFoldASCIIString a b = (map lowerASCII a = map lowerASCII b)"
  using equal_fold_range_ascii [of a b] map_eq_imp_length_eq [of lowerASCII a lowerASCII b]
  by (auto simp: equalFoldASCIIString_def)

section \<open>Search\<close>

text \<open>The proxy's prefix test starts at index 1: its caller has compared the first byte.\<close>

definition hasFoldASCIIPrefixString :: "string \<Rightarrow> string \<Rightarrow> bool" where
  "hasFoldASCIIPrefixString value pre =
     (if length pre > length value then False
      else list_all (\<lambda>i. lowerASCII (value ! i) = lowerASCII (pre ! i)) [1..<length pre])"

text \<open>\<open>fold_search\<close> is the loop over the start positions; \<open>k\<close> positions are left.\<close>

fun fold_search :: "nat \<Rightarrow> string \<Rightarrow> string \<Rightarrow> bool" where
  "fold_search 0 value search = False"
| "fold_search (Suc k) value search =
     (if lowerASCII (hd value) \<noteq> lowerASCII (hd search) then fold_search k (tl value) search
      else if hasFoldASCIIPrefixString value search then True
      else fold_search k (tl value) search)"

definition containsFoldASCIIString :: "string \<Rightarrow> string \<Rightarrow> bool" where
  "containsFoldASCIIString value search =
     (if search = [] then True
      else if length search > length value then False
      else fold_search (Suc (length value - length search)) value search)"

definition containsFoldString :: "unicode \<Rightarrow> string \<Rightarrow> string \<Rightarrow> bool" where
  "containsFoldString U value search =
     (if search = [] then True
      else if is_ascii value \<and> is_ascii search then containsFoldASCIIString value search
      else contains_str (to_lower U value) (to_lower U search))"

definition isHTMLContentType :: "string \<Rightarrow> bool" where
  "isHTMLContentType contentType = containsFoldASCIIString contentType ''text/html''"

definition lowerASCIIString :: "unicode \<Rightarrow> string \<Rightarrow> string" where
  "lowerASCIIString U value =
     (if list_ex (\<lambda>c. byte c \<ge> 128 \<or> (65 \<le> byte c \<and> byte c \<le> 90)) value
      then to_lower U value else value)"

definition isASCIISpace :: "char \<Rightarrow> bool" where
  "isASCIISpace c = (byte c \<in> {32, 9, 10, 13, 12, 11})"

text \<open>The copy in the WAF compares every byte.\<close>

definition hasFoldASCIIPrefix :: "string \<Rightarrow> string \<Rightarrow> bool" where
  "hasFoldASCIIPrefix value pre =
     (if length pre > length value then False
      else list_all (\<lambda>i. lowerASCII (value ! i) = lowerASCII (pre ! i)) [0..<length pre])"

fun waf_fold_search :: "nat \<Rightarrow> string \<Rightarrow> string \<Rightarrow> bool" where
  "waf_fold_search 0 value search = False"
| "waf_fold_search (Suc k) value search =
     (if lowerASCII (hd value) \<noteq> lowerASCII (hd search) then waf_fold_search k (tl value) search
      else if hasFoldASCIIPrefix value search then True
      else waf_fold_search k (tl value) search)"

definition waf_containsFoldASCIIString :: "string \<Rightarrow> string \<Rightarrow> bool" where
  "waf_containsFoldASCIIString value search =
     (if search = [] then True
      else if length search > length value then False
      else waf_fold_search (Suc (length value - length search)) value search)"

section \<open>The scans are searches of the lower-case texts\<close>

lemma fold_prefix_iff:
  assumes "length pre \<le> length value"
  shows "prefix (map lowerASCII pre) (map lowerASCII value) \<longleftrightarrow>
    (\<forall>i < length pre. lowerASCII (value ! i) = lowerASCII (pre ! i))"
proof -
  have "prefix (map lowerASCII pre) (map lowerASCII value) \<longleftrightarrow>
      take (length pre) (map lowerASCII value) = map lowerASCII pre"
    by (metis length_map prefix_def append_eq_conv_conj take_is_prefix)
  also have "\<dots> \<longleftrightarrow> (\<forall>i < length pre. lowerASCII (value ! i) = lowerASCII (pre ! i))"
    using assms by (auto simp: list_eq_iff_nth_eq)
  finally show ?thesis .
qed

lemma hasFoldASCIIPrefix_iff:
  "hasFoldASCIIPrefix value pre = prefix (map lowerASCII pre) (map lowerASCII value)"
  using fold_prefix_iff [of pre "value"] prefix_length_le [of "map lowerASCII pre" "map lowerASCII value"]
  by (auto simp: hasFoldASCIIPrefix_def list_all_iff)

lemma hasFoldASCIIPrefixString_iff:
  assumes "pre \<noteq> []" and "lowerASCII (hd value) = lowerASCII (hd pre)"
  shows "hasFoldASCIIPrefixString value pre = hasFoldASCIIPrefix value pre"
proof -
  have "[0..<length pre] = 0 # [1..<length pre]" using assms(1) by (simp add: upt_conv_Cons)
  moreover have "length pre \<le> length value \<Longrightarrow> lowerASCII (value ! 0) = lowerASCII (pre ! 0)"
    using assms by (cases "value"; cases pre) auto
  ultimately show ?thesis by (simp add: hasFoldASCIIPrefixString_def hasFoldASCIIPrefix_def)
qed

lemma fold_search_waf: "search \<noteq> [] \<Longrightarrow> fold_search k v search = waf_fold_search k v search"
  by (induction k arbitrary: v) (auto simp: hasFoldASCIIPrefixString_iff)

lemma containsFold_waf: "containsFoldASCIIString value search = waf_containsFoldASCIIString value search"
  by (simp add: containsFoldASCIIString_def waf_containsFoldASCIIString_def fold_search_waf
      del: fold_search.simps waf_fold_search.simps)

lemma contains_str_Cons:
  "contains_str (c # s) p \<longleftrightarrow> prefix p (c # s) \<or> contains_str s p"
  by (auto simp: contains_str_def)

lemma contains_str_length: "contains_str s p \<Longrightarrow> length p \<le> length s"
proof (induction s)
  case (Cons c s)
  then show ?case using prefix_length_le by (fastforce simp: contains_str_Cons)
qed (auto simp: contains_str_def split: if_splits)

lemma waf_fold_search_iff:
  assumes "search \<noteq> []" and "length search \<le> length v"
  shows "waf_fold_search (Suc (length v - length search)) v search =
    contains_str (map lowerASCII v) (map lowerASCII search)"
  using assms(2)
proof (induction v)
  case (Cons x v)
  obtain y r where s: "search = y # r" using assms(1) by (cases search) auto
  have pre: "hasFoldASCIIPrefix (x # v) search \<Longrightarrow> lowerASCII x = lowerASCII (hd search)"
    by (simp add: hasFoldASCIIPrefix_iff s)
  have step: "waf_fold_search (Suc k) (x # v) search \<longleftrightarrow>
      hasFoldASCIIPrefix (x # v) search \<or> waf_fold_search k v search" for k
    using pre by auto
  have con: "contains_str (map lowerASCII (x # v)) (map lowerASCII search) \<longleftrightarrow>
      hasFoldASCIIPrefix (x # v) search \<or> contains_str (map lowerASCII v) (map lowerASCII search)"
    by (simp add: contains_str_Cons hasFoldASCIIPrefix_iff)
  show ?case
  proof (cases "length search \<le> length v")
    case True
    then have "length (x # v) - length search = Suc (length v - length search)" by simp
    with Cons.IH [OF True] show ?thesis by (simp only: step con)
  next
    case False
    then have "\<not> contains_str (map lowerASCII v) (map lowerASCII search)"
      using contains_str_length by fastforce
    moreover have "length (x # v) - length search = 0" using False by simp
    ultimately show ?thesis by (simp only: step con waf_fold_search.simps(1))
  qed
qed (use assms in simp)

lemma containsFold_iff:
  "containsFoldASCIIString value search = contains_str (map lowerASCII value) (map lowerASCII search)"
proof -
  have "contains_str s []" for s by (cases s) (auto simp: contains_str_def)
  then show ?thesis
    using contains_str_length [of "map lowerASCII value" "map lowerASCII search"]
    by (auto simp: containsFold_waf waf_containsFoldASCIIString_def waf_fold_search_iff
        simp del: waf_fold_search.simps)
qed

lemma lowerASCIIString_to_lower [simp]: "lowerASCIIString U value = to_lower U value"
proof (cases "list_ex (\<lambda>c. byte c \<ge> 128 \<or> (65 \<le> byte c \<and> byte c \<le> 90)) value")
  case False
  then have "\<forall>c \<in> set value. byte c < 128 \<and> lowerASCII c = c"
    by (auto simp: list_ex_iff lowerASCII_def)
  then have "map lowerASCII value = value" and "is_ascii value"
    by (auto simp: is_ascii_def list_all_iff intro: map_idI)
  with False show ?thesis by (simp add: lowerASCIIString_def to_lower_def)
qed (simp add: lowerASCIIString_def)

lemma containsFoldString_iff:
  "containsFoldString U value search \<longleftrightarrow>
     search = [] \<or> contains_str (to_lower U value) (to_lower U search)"
  by (auto simp: containsFoldString_def containsFold_iff to_lower_ascii)

lemma isASCIISpace_eq: "isASCIISpace c = ascii_space c"
  by (auto simp: isASCIISpace_def ascii_space_def)

text \<open>Each of the hand-written case-insensitive searches, the proxy's, which skips the first byte
  in its inner loop, and the WAF's, which does not, finds exactly the substrings of the lower-case
  text.\<close>

theorem containsFoldASCIIString_spec:
  "containsFoldASCIIString value search = contains_str (map lowerASCII value) (map lowerASCII search) \<and>
   waf_containsFoldASCIIString value search = containsFoldASCIIString value search"
  using containsFold_iff containsFold_waf by simp

text \<open>The case-insensitive comparison is exact when one of its arguments is ASCII, which every
  caller guarantees by comparing with a literal.\<close>

theorem equalFoldASCIIString_spec:
  assumes "is_ascii a \<or> is_ascii b"
  shows "equalFoldASCIIString a b = (map lowerASCII a = map lowerASCII b)"
  using assms by (rule equalFold_ascii)

theorem equalFoldASCIIString_spec_witness:
  "equalFoldASCIIString ''Max-Age'' ''max-age''"
proof -
  have a: "is_ascii ''Max-Age'' \<or> is_ascii ''max-age''" by code_simp
  have m: "map lowerASCII ''Max-Age'' = map lowerASCII ''max-age''" by code_simp
  show ?thesis by (rule equalFoldASCIIString_spec [OF a, THEN iffD2, OF m])
qed

text \<open>Two texts that differ only in a continuation byte compare as equal.\<close>

lemma equalFoldASCIIString_continuation:
  "equalFoldASCIIString [CHR 0xC3, CHR 0xA9] [CHR 0xC3, CHR 0xA8]"
  by code_simp

end
