(* ===== verification/Blacklist.thy ===== *)
theory Blacklist
  imports ClientIP GoTime Ascii "HOL-Library.Product_Lexorder"
begin

text \<open>
  The blacklist of client addresses, \<^verbatim>\<open>pkg/proxy/general_blacklist.go\<close>: a map from
  normalised addresses to records and the sorted list of the same records.  \<open>clock\<close> is
  \<^verbatim>\<open>time.Now()\<close>, read when no time is given.  The lemmas show that list and map agree, that
  what is added is found and what is removed is not, and which page a listing returns.
\<close>

section \<open>Data\<close>

record bl_record =
  bl_IP :: string
  bl_Source :: string
  bl_Comment :: string
  bl_CreatedAt :: string
  bl_UpdatedAt :: string

type_synonym bl_config = "bl_record list"

record bl_result =
  bm_Added :: int
  bm_Updated :: int
  bm_Removed :: int
  bm_Total :: int
  bm_Items :: "bl_record list"

record bl_page =
  bp_Total :: int
  bp_Items :: "bl_record list"

record blacklist =
  bl_items :: bl_config
  bl_records :: "(string \<times> bl_record) list"

datatype bl_error = Invalid_IP string | No_IP

section \<open>Addresses, sources, times\<close>

definition normalizeGeneralBlacklistIP :: "string \<Rightarrow> (string \<times> addr) option" where
  "normalizeGeneralBlacklistIP v =
     (let normalizedIP = normalizeIPAddress v in
      if normalizedIP = [] then None
      else (case parse_addr normalizedIP of
              None \<Rightarrow> None
            | Some a \<Rightarrow>
                if addr_is_loopback a \<or> addr_is_unspecified a then None else Some (normalizedIP, a)))"

definition normalizeGeneralBlacklistSource :: "string \<Rightarrow> string" where
  "normalizeGeneralBlacklistSource v =
     (let s = trim_space v in
      if s = ''request_log'' \<or> s = ''active_ip'' \<or> s = ''waf_log'' then s else ''manual'')"

definition normalizeGeneralBlacklistIPListForStatus :: "string list \<Rightarrow> string list" where
  "normalizeGeneralBlacklistIPListForStatus ips =
     dedup_on id (\<lambda>raw. map_option fst (normalizeGeneralBlacklistIP raw)) [] ips"

fun normalize_ip_list :: "string list \<Rightarrow> string list \<Rightarrow> bl_error + string list" where
  "normalize_ip_list seen [] = Inr []"
| "normalize_ip_list seen (raw # rest) =
     (case normalizeGeneralBlacklistIP raw of
        None \<Rightarrow> Inl (Invalid_IP (trim_space raw))
      | Some (ip, _) \<Rightarrow>
          if ip \<in> set seen then normalize_ip_list seen rest
          else map_sum id (Cons ip) (normalize_ip_list (ip # seen) rest))"

definition normalizeGeneralBlacklistIPList :: "string list \<Rightarrow> bl_error + string list" where
  "normalizeGeneralBlacklistIPList ips = normalize_ip_list [] ips"

definition parseGeneralBlacklistTime :: "string \<Rightarrow> time" where
  "parseGeneralBlacklistTime v =
     (let trimmed = trim_space v in
      if trimmed = [] then zero_time
      else (case parse_rfc3339 trimmed of Some t \<Rightarrow> t | None \<Rightarrow> zero_time))"

section \<open>The sorted list\<close>

text \<open>Most recent first, then by address text: \<^verbatim>\<open>sort.SliceStable\<close> with that order.\<close>

definition bl_sort_key :: "bl_record \<Rightarrow> int \<times> string" where
  "bl_sort_key r = (- parseGeneralBlacklistTime (bl_CreatedAt r), bl_IP r)"

definition sortGeneralBlacklistRecords :: "bl_record list \<Rightarrow> bl_record list" where
  "sortGeneralBlacklistRecords items = sort_key bl_sort_key items"

definition recordsMapToSortedGeneralBlacklistItems :: "(string \<times> bl_record) list \<Rightarrow> bl_record list" where
  "recordsMapToSortedGeneralBlacklistItems records = sortGeneralBlacklistRecords (map snd records)"

definition normalize_bl_record :: "string \<Rightarrow> bl_record \<Rightarrow> bl_record" where
  "normalize_bl_record ip raw =
     (let r = \<lparr>bl_IP = ip, bl_Source = normalizeGeneralBlacklistSource (bl_Source raw),
               bl_Comment = trim_space (bl_Comment raw), bl_CreatedAt = trim_space (bl_CreatedAt raw),
               bl_UpdatedAt = trim_space (bl_UpdatedAt raw)\<rparr>;
          r = (if bl_CreatedAt r = [] then r\<lparr>bl_CreatedAt := bl_UpdatedAt r\<rparr> else r)
      in if bl_UpdatedAt r = [] then r\<lparr>bl_UpdatedAt := bl_CreatedAt r\<rparr> else r)"

definition put_bl_record :: "(string \<times> bl_record) list \<Rightarrow> bl_record \<Rightarrow> (string \<times> bl_record) list" where
  "put_bl_record records raw =
     (case normalizeGeneralBlacklistIP (bl_IP raw) of
        None \<Rightarrow> records
      | Some (ip, _) \<Rightarrow> al_put ip (normalize_bl_record ip raw) records)"

definition normalizeGeneralBlacklistConfig :: "bl_config \<Rightarrow> bl_config \<times> (string \<times> bl_record) list" where
  "normalizeGeneralBlacklistConfig cfg =
     (let records = foldl put_bl_record [] cfg in
      (recordsMapToSortedGeneralBlacklistItems records, records))"

section \<open>Operations\<close>

definition bl_updateConfig :: "bl_config \<Rightarrow> blacklist \<Rightarrow> bl_config \<times> blacklist" where
  "bl_updateConfig cfg r =
     (case normalizeGeneralBlacklistConfig cfg of (normalized, records) \<Rightarrow>
        (normalized, r\<lparr>bl_items := normalized, bl_records := records\<rparr>))"

definition newGeneralBlacklistRuntime :: "bl_config \<Rightarrow> blacklist" where
  "newGeneralBlacklistRuntime cfg = snd (bl_updateConfig cfg \<lparr>bl_items = [], bl_records = []\<rparr>)"

definition bl_getConfig :: "blacklist option \<Rightarrow> bl_config" where
  "bl_getConfig r = (case r of None \<Rightarrow> [] | Some r \<Rightarrow> bl_items r)"

definition bl_contains :: "blacklist option \<Rightarrow> string \<Rightarrow> bl_record option" where
  "bl_contains r clientIP =
     (case (normalizeGeneralBlacklistIP clientIP, r) of
        (Some (normalizedIP, _), Some r) \<Rightarrow> al_get (bl_records r) normalizedIP
      | _ \<Rightarrow> None)"

definition generalBlacklistRecordMatches :: "unicode \<Rightarrow> bl_record \<Rightarrow> string \<Rightarrow> bool" where
  "generalBlacklistRecordMatches U r needle =
     (containsFoldString U (bl_IP r) needle \<or> containsFoldString U (bl_Source r) needle \<or>
      containsFoldString U (bl_Comment r) needle)"

text \<open>\<open>items[start:end]\<close> panics unless \<open>0 \<le> start \<le> end \<le> len\<close>: \<open>None\<close>.\<close>

definition slice :: "int \<Rightarrow> int \<Rightarrow> 'a list \<Rightarrow> 'a list option" where
  "slice i j xs =
     (if 0 \<le> i \<and> i \<le> j \<and> j \<le> int (length xs) then Some (take (nat (j - i)) (drop (nat i) xs)) else None)"

definition bl_page_of :: "int \<Rightarrow> int \<Rightarrow> bl_record list \<Rightarrow> bl_page option" where
  "bl_page_of page limit items =
     (let total = int (length items); start = wrap64 ((page - 1) * limit) in
      if start \<ge> total then Some \<lparr>bp_Total = total, bp_Items = []\<rparr>
      else
        (let stop = start + limit; stop = (if stop > total then total else stop) in
         map_option (\<lambda>xs. \<lparr>bp_Total = total, bp_Items = xs\<rparr>) (slice start stop items)))"

definition bl_list :: "unicode \<Rightarrow> int \<Rightarrow> int \<Rightarrow> string \<Rightarrow> blacklist option \<Rightarrow> bl_page option" where
  "bl_list U page limit search r =
     (case r of
        None \<Rightarrow> Some \<lparr>bp_Total = 0, bp_Items = []\<rparr>
      | Some r \<Rightarrow>
          (let page = (if page \<le> 0 then 1 else page);
               limit = (if limit \<le> 0 then 20 else limit);
               limit = (if limit > 200 then 200 else limit);
               needle = trim_space search in
           bl_page_of page limit
             (sortGeneralBlacklistRecords
                (filter (\<lambda>item. needle = [] \<or> generalBlacklistRecordMatches U item needle) (bl_items r)))))"

definition bl_status :: "string list \<Rightarrow> blacklist option \<Rightarrow> (string \<times> bl_record) list" where
  "bl_status ips r =
     (let normalizedIPs = normalizeGeneralBlacklistIPListForStatus ips in
      case r of
        None \<Rightarrow> []
      | Some r \<Rightarrow>
          foldl (\<lambda>m ip. case al_get (bl_records r) ip of Some x \<Rightarrow> al_put ip x m | None \<Rightarrow> m) [] normalizedIPs)"

definition upsert_record :: "string \<Rightarrow> string \<Rightarrow> string \<Rightarrow> string \<Rightarrow> bl_record option \<Rightarrow> bl_record" where
  "upsert_record nextSource nextComment nowText ip known =
     (let r = (case known of
                 Some r \<Rightarrow> r
               | None \<Rightarrow> \<lparr>bl_IP = ip, bl_Source = [], bl_Comment = [], bl_CreatedAt = nowText,
                          bl_UpdatedAt = []\<rparr>);
          r = r\<lparr>bl_IP := ip, bl_Source := nextSource, bl_Comment := nextComment\<rparr>;
          r = (if trim_space (bl_CreatedAt r) = [] then r\<lparr>bl_CreatedAt := nowText\<rparr> else r)
      in r\<lparr>bl_UpdatedAt := nowText\<rparr>)"

definition add_record ::
    "string \<Rightarrow> string \<Rightarrow> string \<Rightarrow> (string \<times> bl_record) list \<times> int \<times> int \<Rightarrow> string \<Rightarrow>
     (string \<times> bl_record) list \<times> int \<times> int" where
  "add_record nextSource nextComment nowText st ip =
     (case st of (current, added, updated) \<Rightarrow>
        (let known = al_get current ip in
         (al_put ip (upsert_record nextSource nextComment nowText ip known) current,
          if known = None then added + 1 else added,
          if known = None then updated else updated + 1)))"

definition bl_addMany ::
    "time \<Rightarrow> string list \<Rightarrow> string \<Rightarrow> string \<Rightarrow> time \<Rightarrow> blacklist \<Rightarrow> (bl_error + bl_config \<times> bl_result) \<times> blacklist" where
  "bl_addMany clock ips source comment now r =
     (case normalizeGeneralBlacklistIPList ips of
        Inl err \<Rightarrow> (Inl err, r)
      | Inr normalizedIPs \<Rightarrow>
          if normalizedIPs = [] then (Inl No_IP, r)
          else
            (let now = (if time_is_zero now then clock else now);
                 nowText = format_rfc3339 now in
             case foldl (add_record (normalizeGeneralBlacklistSource source) (trim_space comment) nowText)
                    (bl_records r, 0, 0) normalizedIPs of
               (current, added, updated) \<Rightarrow>
                 (let items = recordsMapToSortedGeneralBlacklistItems current in
                  (Inr (items,
                        \<lparr>bm_Added = added, bm_Updated = updated, bm_Removed = 0, bm_Total = int (length items),
                         bm_Items = sortGeneralBlacklistRecords (List.map_filter (al_get current) normalizedIPs)\<rparr>),
                   r\<lparr>bl_items := items, bl_records := current\<rparr>))))"

definition remove_record :: "(string \<times> bl_record) list \<times> int \<Rightarrow> string \<Rightarrow> (string \<times> bl_record) list \<times> int" where
  "remove_record st ip =
     (case st of (current, removed) \<Rightarrow>
        if al_get current ip \<noteq> None then (al_del ip current, removed + 1) else (current, removed))"

definition bl_removeMany :: "string list \<Rightarrow> blacklist \<Rightarrow> (bl_error + bl_config \<times> bl_result) \<times> blacklist" where
  "bl_removeMany ips r =
     (case normalizeGeneralBlacklistIPList ips of
        Inl err \<Rightarrow> (Inl err, r)
      | Inr normalizedIPs \<Rightarrow>
          if normalizedIPs = [] then (Inl No_IP, r)
          else
            (case foldl remove_record (bl_records r, 0) normalizedIPs of
               (current, removed) \<Rightarrow>
                 (let items = recordsMapToSortedGeneralBlacklistItems current in
                  (Inr (items,
                        \<lparr>bm_Added = 0, bm_Updated = 0, bm_Removed = removed, bm_Total = int (length items),
                         bm_Items = []\<rparr>),
                   r\<lparr>bl_items := items, bl_records := current\<rparr>))))"

section \<open>Normalised addresses\<close>

lemma normalizeIP_fst: "normalizeGeneralBlacklistIP v = Some (ip, a) \<Longrightarrow> ip = normalizeIPAddress v"
  by (auto simp: normalizeGeneralBlacklistIP_def Let_def split: option.splits if_splits)

lemma normalize_ip_list_Inr:
  "normalize_ip_list seen raws = Inr ips \<Longrightarrow>
     distinct ips \<and> set ips \<inter> set seen = {} \<and>
     (\<forall>raw \<in> set raws. \<exists>a. normalizeGeneralBlacklistIP raw = Some (normalizeIPAddress raw, a)) \<and>
     set ips \<union> set seen = normalizeIPAddress ` set raws \<union> set seen"
proof (induction seen raws arbitrary: ips rule: normalize_ip_list.induct)
  case (2 seen raw rest)
  from 2(3) obtain ip a where n: "normalizeGeneralBlacklistIP raw = Some (ip, a)"
    by (auto split: option.splits)
  have ip: "normalizeIPAddress raw = ip" using normalizeIP_fst [OF n] by simp
  show ?case
  proof (cases "ip \<in> set seen")
    case True
    with 2(3) n have "normalize_ip_list seen rest = Inr ips" by simp
    from 2(1) [OF n refl True this] show ?thesis
      using n ip True by (simp add: insert_absorb)
  next
    case False
    with 2(3) n obtain zs where zs: "normalize_ip_list (ip # seen) rest = Inr zs" "ips = ip # zs"
      by (cases "normalize_ip_list (ip # seen) rest") auto
    note ih = 2(2) [OF n refl False zs(1)]
    note z = ih [THEN conjunct1] ih [THEN conjunct2, THEN conjunct1]
      ih [THEN conjunct2, THEN conjunct2, THEN conjunct1] ih [THEN conjunct2, THEN conjunct2, THEN conjunct2]
    have "set ips \<union> set seen = normalizeIPAddress ` set (raw # rest) \<union> set seen"
      using z(4) zs(2) ip by simp
    with z(1-3) zs(2) n ip False show ?thesis by simp
  qed
qed simp

lemma normalize_ip_list_Inl:
  "normalize_ip_list seen raws = Inl e \<Longrightarrow>
     \<exists>raw \<in> set raws. normalizeGeneralBlacklistIP raw = None \<and> e = Invalid_IP (trim_space raw)"
proof (induction seen raws rule: normalize_ip_list.induct)
  case (2 seen raw rest)
  show ?case
  proof (cases "normalizeGeneralBlacklistIP raw")
    case (Some y)
    then obtain ip a where n: "normalizeGeneralBlacklistIP raw = Some (ip, a)" by (cases y) auto
    show ?thesis
    proof (cases "ip \<in> set seen")
      case True
      with 2(1) [OF n refl True] 2(3) n show ?thesis by auto
    next
      case False
      with 2(3) n have "normalize_ip_list (ip # seen) rest = Inl e"
        by (cases "normalize_ip_list (ip # seen) rest") auto
      with 2(2) [OF n refl False] show ?thesis by auto
    qed
  qed (use 2(3) in auto)
qed simp

section \<open>The list and the map agree\<close>

definition records_ok :: "(string \<times> bl_record) list \<Rightarrow> bool" where
  "records_ok m = (al_ok m \<and> (\<forall>(k, r) \<in> set m. bl_IP r = k))"

definition bl_ok :: "blacklist \<Rightarrow> bool" where
  "bl_ok r = (records_ok (bl_records r) \<and>
     bl_items r = recordsMapToSortedGeneralBlacklistItems (bl_records r))"

lemma records_ok_put:
  assumes "records_ok m" and "bl_IP r = k"
  shows "records_ok (al_put k r m)"
proof -
  have ok: "al_ok m" using assms by (simp add: records_ok_def)
  have "bl_IP v = k'" if "(k', v) \<in> set (al_put k r m)" for k' v
  proof -
    from that have "al_get (al_put k r m) k' = Some v" by (simp add: al_get_iff al_ok_put ok)
    then have "k' = k \<and> v = r \<or> (k', v) \<in> set m"
      by (auto simp: al_get_put al_get_iff [OF ok] split: if_splits)
    with assms show ?thesis by (auto simp: records_ok_def)
  qed
  with ok show ?thesis by (auto simp: records_ok_def)
qed

lemma records_ok_del: "records_ok m \<Longrightarrow> records_ok (al_del k m)"
proof -
  assume m: "records_ok m"
  then have ok: "al_ok m" by (simp add: records_ok_def)
  have "set (al_del k m) \<subseteq> set m" by (auto simp: al_del_def AList.delete_eq)
  with m ok show ?thesis by (auto simp: records_ok_def)
qed

lemma records_ok_normalize: "records_ok (foldl put_bl_record m cfg)" if "records_ok m"
  using that
proof (induction cfg arbitrary: m)
  case (Cons raw cfg)
  have "bl_IP (normalize_bl_record ip raw) = ip" for ip
    by (simp add: normalize_bl_record_def Let_def)
  then have "records_ok (put_bl_record m raw)"
    using Cons.prems by (auto simp: put_bl_record_def intro: records_ok_put split: option.split)
  with Cons.IH show ?case by simp
qed simp

lemma upsert_IP [simp]: "bl_IP (upsert_record src cmt t ip known) = ip"
  by (simp add: upsert_record_def Let_def)

lemma records_ok_add:
  "records_ok m \<Longrightarrow> records_ok (fst (foldl (add_record src cmt t) (m, a, u) ips))"
proof (induction ips arbitrary: m a u)
  case (Cons ip ips)
  have "records_ok (al_put ip (upsert_record src cmt t ip (al_get m ip)) m)"
    using Cons.prems by (intro records_ok_put) simp_all
  with Cons.IH show ?case by (simp add: add_record_def Let_def)
qed simp

lemma records_ok_remove:
  "records_ok m \<Longrightarrow> records_ok (fst (foldl remove_record (m, n) ips))"
  by (induction ips arbitrary: m n) (auto simp: remove_record_def intro: records_ok_del)

section \<open>Folding over the requested addresses\<close>

lemma add_record_lookup:
  "distinct ips \<Longrightarrow>
     al_get (fst (foldl (add_record src cmt t) (m, a, u) ips)) k =
       (if k \<in> set ips then Some (upsert_record src cmt t k (al_get m k)) else al_get m k)"
  by (induction ips arbitrary: m a u) (auto simp: add_record_def Let_def al_get_put)

lemma add_record_counts:
  assumes "distinct ips"
  shows "snd (foldl (add_record src cmt t) (m, a, u) ips) =
    (a + int (length (filter (\<lambda>ip. al_get m ip = None) ips)),
     u + int (length (filter (\<lambda>ip. al_get m ip \<noteq> None) ips)))"
  using assms
proof (induction ips arbitrary: m a u)
  case (Cons ip ips)
  let ?m = "al_put ip (upsert_record src cmt t ip (al_get m ip)) m"
  have eq: "filter (\<lambda>i. P (al_get ?m i)) ips = filter (\<lambda>i. P (al_get m i)) ips" for P
    using Cons.prems by (intro filter_cong) (auto simp: al_get_put)
  have ih: "snd (foldl (add_record src cmt t) (?m, a', u') ips) =
      (a' + int (length (filter (\<lambda>ip. al_get m ip = None) ips)),
       u' + int (length (filter (\<lambda>ip. al_get m ip \<noteq> None) ips)))" for a' u'
    using Cons.IH [of ?m a' u'] Cons.prems eq [of "\<lambda>x. x = None"] eq [of "\<lambda>x. x \<noteq> None"] by simp
  show ?case
  proof (cases "al_get m ip")
    case None
    then have "add_record src cmt t (m, a, u) ip = (?m, a + 1, u)" by (simp add: add_record_def Let_def)
    with ih [of "a + 1" u] None show ?thesis by simp
  next
    case (Some x)
    then have "add_record src cmt t (m, a, u) ip = (?m, a, u + 1)" by (simp add: add_record_def Let_def)
    with ih [of a "u + 1"] Some show ?thesis by simp
  qed
qed simp

lemma remove_record_lookup:
  "al_get (fst (foldl remove_record (m, n) ips)) k = (if k \<in> set ips then None else al_get m k)"
  by (induction ips arbitrary: m n) (auto simp: remove_record_def al_get_del)

lemma remove_record_count:
  assumes "distinct ips"
  shows "snd (foldl remove_record (m, n) ips) = n + int (length (filter (\<lambda>ip. al_get m ip \<noteq> None) ips))"
  using assms
proof (induction ips arbitrary: m n)
  case (Cons ip ips)
  have eq: "filter (\<lambda>i. al_get (al_del ip m) i \<noteq> None) ips = filter (\<lambda>i. al_get m i \<noteq> None) ips"
    using Cons.prems by (intro filter_cong) (auto simp: al_get_del)
  show ?case
  proof (cases "al_get m ip")
    case None
    with Cons show ?thesis by (simp add: remove_record_def)
  next
    case (Some x)
    then have "remove_record (m, n) ip = (al_del ip m, n + 1)" by (simp add: remove_record_def)
    with Cons.IH [of "al_del ip m" "n + 1"] Cons.prems eq Some show ?thesis by simp
  qed
qed simp

lemma contains_lookup:
  "bl_contains (Some r) ip =
     (if normalizeGeneralBlacklistIP ip = None then None else al_get (bl_records r) (normalizeIPAddress ip))"
  by (auto simp: bl_contains_def dest: normalizeIP_fst split: option.splits)

lemma normalizeIP_same:
  "normalizeIPAddress v = normalizeIPAddress w \<Longrightarrow>
     normalizeGeneralBlacklistIP v = normalizeGeneralBlacklistIP w"
  by (simp add: normalizeGeneralBlacklistIP_def)

lemma addMany_Inr:
  assumes "bl_addMany clock ips source comment now r = (Inr (cfg, res), r')"
  obtains ns where "normalizeGeneralBlacklistIPList ips = Inr ns" and "ns \<noteq> []"
    and "bl_records r' = fst (foldl (add_record (normalizeGeneralBlacklistSource source) (trim_space comment)
           (format_rfc3339 (if time_is_zero now then clock else now))) (bl_records r, 0, 0) ns)"
    and "cfg = recordsMapToSortedGeneralBlacklistItems (bl_records r')" and "bl_items r' = cfg"
    and "(bl_records r', bm_Added res, bm_Updated res) = foldl (add_record (normalizeGeneralBlacklistSource source)
           (trim_space comment) (format_rfc3339 (if time_is_zero now then clock else now))) (bl_records r, 0, 0) ns"
    and "bm_Total res = int (length cfg)"
  using assms that
  by (auto simp: bl_addMany_def Let_def split: sum.splits if_splits prod.splits)

lemma removeMany_Inr:
  assumes "bl_removeMany ips r = (Inr (cfg, res), r')"
  obtains ns where "normalizeGeneralBlacklistIPList ips = Inr ns" and "ns \<noteq> []"
    and "bl_records r' = fst (foldl remove_record (bl_records r, 0) ns)"
    and "cfg = recordsMapToSortedGeneralBlacklistItems (bl_records r')" and "bl_items r' = cfg"
    and "(bl_records r', bm_Removed res) = foldl remove_record (bl_records r, 0) ns"
  using assms that
  by (auto simp: bl_removeMany_def Let_def split: sum.splits if_splits prod.splits)

lemma ip_list_set:
  assumes "normalizeGeneralBlacklistIPList ips = Inr ns"
  shows "distinct ns" and "set ns = normalizeIPAddress ` set ips"
    and "raw \<in> set ips \<Longrightarrow> normalizeGeneralBlacklistIP raw \<noteq> None"
  using normalize_ip_list_Inr [OF assms [unfolded normalizeGeneralBlacklistIPList_def]] by auto

lemma in_ip_list:
  assumes "normalizeGeneralBlacklistIPList ips = Inr ns"
    and "normalizeIPAddress ip \<in> set ns"
  shows "normalizeGeneralBlacklistIP ip \<noteq> None"
proof -
  from assms(2) ip_list_set(2) [OF assms(1)] obtain raw where
      raw: "raw \<in> set ips" "normalizeIPAddress ip = normalizeIPAddress raw" by auto
  from ip_list_set(3) [OF assms(1) raw(1)] normalizeIP_same [OF raw(2)] show ?thesis by simp
qed

section \<open>Sequences of operations\<close>

datatype bl_op =
    BL_Update bl_config
  | BL_Add time "string list" string string time
  | BL_Remove "string list"

fun bl_step :: "bl_op \<Rightarrow> blacklist \<Rightarrow> blacklist" where
  "bl_step (BL_Update cfg) r = snd (bl_updateConfig cfg r)"
| "bl_step (BL_Add clock ips source comment now) r = snd (bl_addMany clock ips source comment now r)"
| "bl_step (BL_Remove ips) r = snd (bl_removeMany ips r)"

lemma bl_ok_updateConfig: "bl_ok (snd (bl_updateConfig cfg r))"
  using records_ok_normalize [of "[]" cfg]
  by (simp add: bl_updateConfig_def normalizeGeneralBlacklistConfig_def Let_def bl_ok_def records_ok_def)

lemma bl_ok_step: "bl_ok r \<Longrightarrow> bl_ok (bl_step op r)"
proof (cases op)
  case (BL_Add clock ips source comment now)
  assume ok: "bl_ok r"
  obtain x r' where x: "bl_addMany clock ips source comment now r = (x, r')" by force
  show ?thesis
  proof (cases x)
    case (Inl e)
    then have "r' = r" using x by (auto simp: bl_addMany_def Let_def split: sum.splits if_splits prod.splits)
    with ok x BL_Add show ?thesis by simp
  next
    case (Inr y)
    then obtain cfg res where "bl_addMany clock ips source comment now r = (Inr (cfg, res), r')"
      using x by (cases y) auto
    from addMany_Inr [OF this] show ?thesis
      using ok x BL_Add by (metis bl_ok_def bl_step.simps(2) records_ok_add snd_conv)
  qed
next
  case (BL_Remove ips)
  assume ok: "bl_ok r"
  obtain x r' where x: "bl_removeMany ips r = (x, r')" by force
  show ?thesis
  proof (cases x)
    case (Inl e)
    then have "r' = r" using x by (auto simp: bl_removeMany_def Let_def split: sum.splits if_splits prod.splits)
    with ok x BL_Remove show ?thesis by simp
  next
    case (Inr y)
    then obtain cfg res where "bl_removeMany ips r = (Inr (cfg, res), r')"
      using x by (cases y) auto
    from removeMany_Inr [OF this] show ?thesis
      using ok x BL_Remove by (metis bl_ok_def bl_step.simps(3) records_ok_remove snd_conv)
  qed
qed (simp add: bl_ok_updateConfig)

lemma bl_ok_run: "bl_ok r \<Longrightarrow> bl_ok (foldl (\<lambda>r op. bl_step op r) r ops)"
  by (induction ops arbitrary: r) (auto simp: bl_ok_step)

section \<open>Properties\<close>

lemma contains_after_add:
  assumes "bl_addMany clock ips source comment now r = (Inr (cfg, res), r')"
  shows "bl_contains (Some r') ip =
    (if normalizeIPAddress ip \<in> normalizeIPAddress ` set ips
     then Some (upsert_record (normalizeGeneralBlacklistSource source) (trim_space comment)
                 (format_rfc3339 (if time_is_zero now then clock else now)) (normalizeIPAddress ip)
                 (bl_contains (Some r) ip))
     else bl_contains (Some r) ip)"
proof -
  from addMany_Inr [OF assms] obtain ns where ns: "normalizeGeneralBlacklistIPList ips = Inr ns"
    and rec: "bl_records r' = fst (foldl (add_record (normalizeGeneralBlacklistSource source) (trim_space comment)
           (format_rfc3339 (if time_is_zero now then clock else now))) (bl_records r, 0, 0) ns)" by metis
  show ?thesis
  proof (cases "normalizeIPAddress ip \<in> set ns")
    case True
    from in_ip_list [OF ns True] obtain y where "normalizeGeneralBlacklistIP ip = Some y" by blast
    with True ip_list_set(1,2) [OF ns] show ?thesis
      by (simp add: contains_lookup rec add_record_lookup)
  next
    case False
    with ip_list_set(1,2) [OF ns] show ?thesis
      by (simp add: contains_lookup rec add_record_lookup)
  qed
qed

text \<open>After a successful addition every listed address, in any spelling, is blacklisted with the
  given source, comment and time (a known one keeps its creation time), every other address is
  blacklisted exactly as before, and the counts say how many were new and how many known.\<close>

theorem blacklist_add:
  assumes "bl_addMany clock ips source comment now r = (Inr (cfg, res), r')"
  shows "bl_contains (Some r') ip =
      (if normalizeIPAddress ip \<in> normalizeIPAddress ` set ips
       then Some (upsert_record (normalizeGeneralBlacklistSource source) (trim_space comment)
                   (format_rfc3339 (if time_is_zero now then clock else now)) (normalizeIPAddress ip)
                   (bl_contains (Some r) ip))
       else bl_contains (Some r) ip) \<and>
    bm_Added res + bm_Updated res = int (card (normalizeIPAddress ` set ips)) \<and>
    bm_Added res = int (card {i \<in> normalizeIPAddress ` set ips. al_get (bl_records r) i = None})"
proof -
  from addMany_Inr [OF assms] obtain ns where ns: "normalizeGeneralBlacklistIPList ips = Inr ns"
    and cnt: "(bl_records r', bm_Added res, bm_Updated res) = foldl (add_record
        (normalizeGeneralBlacklistSource source) (trim_space comment)
        (format_rfc3339 (if time_is_zero now then clock else now))) (bl_records r, 0, 0) ns" by metis
  note d = ip_list_set(1) [OF ns] and set = ip_list_set(2) [OF ns]
  have c: "(bm_Added res, bm_Updated res) =
      (int (length (filter (\<lambda>ip. al_get (bl_records r) ip = None) ns)),
       int (length (filter (\<lambda>ip. al_get (bl_records r) ip \<noteq> None) ns)))"
    using add_record_counts [OF d, where m = "bl_records r" and a = 0 and u = 0] cnt [symmetric]
    by (metis add_0 snd_conv)
  have "length (filter (\<lambda>ip. al_get (bl_records r) ip = None) ns) +
      length (filter (\<lambda>ip. al_get (bl_records r) ip \<noteq> None) ns) = card (normalizeIPAddress ` set ips)"
    using sum_length_filter_compl [of "\<lambda>ip. al_get (bl_records r) ip = None" ns] d set
    by (simp add: distinct_card [symmetric])
  moreover have "length (filter (\<lambda>ip. al_get (bl_records r) ip = None) ns) =
      card {i \<in> normalizeIPAddress ` set ips. al_get (bl_records r) i = None}"
    using distinct_card [OF distinct_filter [OF d], of "\<lambda>ip. al_get (bl_records r) ip = None"] set by simp
  ultimately show ?thesis using contains_after_add [OF assms] c by (simp del: o_apply)
qed

definition empty_blacklist :: blacklist where
  "empty_blacklist = \<lparr>bl_items = [], bl_records = []\<rparr>"

theorem blacklist_add_witness:
  "bl_contains (Some (snd (bl_addMany 0 [''8.8.8.8''] ''manual'' '' seen '' second empty_blacklist)))
     ''8.8.8.8:53'' =
   Some \<lparr>bl_IP = ''8.8.8.8'', bl_Source = ''manual'', bl_Comment = ''seen'',
         bl_CreatedAt = ''0001-01-01T00:00:01Z'', bl_UpdatedAt = ''0001-01-01T00:00:01Z''\<rparr>"
proof -
  obtain x r' where x: "bl_addMany 0 [''8.8.8.8''] ''manual'' '' seen '' second empty_blacklist = (x, r')"
    by force
  have "case fst (bl_addMany 0 [''8.8.8.8''] ''manual'' '' seen '' second empty_blacklist) of
      Inl e \<Rightarrow> False | Inr y \<Rightarrow> True" by code_simp
  with x obtain cfg res where y: "bl_addMany 0 [''8.8.8.8''] ''manual'' '' seen '' second empty_blacklist =
      (Inr (cfg, res), r')"
    by (cases x) auto
  have i: "normalizeIPAddress ''8.8.8.8:53'' = ''8.8.8.8''" "normalizeIPAddress ''8.8.8.8'' = ''8.8.8.8''"
    by code_simp+
  have u: "upsert_record (normalizeGeneralBlacklistSource ''manual'') (trim_space '' seen '')
      (format_rfc3339 (if time_is_zero second then 0 else second)) ''8.8.8.8''
      (bl_contains (Some empty_blacklist) ''8.8.8.8:53'') =
      \<lparr>bl_IP = ''8.8.8.8'', bl_Source = ''manual'', bl_Comment = ''seen'',
       bl_CreatedAt = ''0001-01-01T00:00:01Z'', bl_UpdatedAt = ''0001-01-01T00:00:01Z''\<rparr>"
    by code_simp
  show ?thesis
    using blacklist_add [OF y, of "''8.8.8.8:53''"] y by (simp add: i u)
qed

text \<open>After a successful removal no listed address is blacklisted, in any spelling, and every
  other one is as before.\<close>

theorem blacklist_remove:
  assumes "bl_removeMany ips r = (Inr (cfg, res), r')"
  shows "bl_contains (Some r') ip =
      (if normalizeIPAddress ip \<in> normalizeIPAddress ` set ips then None else bl_contains (Some r) ip) \<and>
    bm_Removed res = int (card {i \<in> normalizeIPAddress ` set ips. al_get (bl_records r) i \<noteq> None})"
proof -
  from removeMany_Inr [OF assms] obtain ns where ns: "normalizeGeneralBlacklistIPList ips = Inr ns"
    and rec: "bl_records r' = fst (foldl remove_record (bl_records r, 0) ns)"
    and cnt: "(bl_records r', bm_Removed res) = foldl remove_record (bl_records r, 0) ns" by metis
  note d = ip_list_set(1) [OF ns] and set = ip_list_set(2) [OF ns]
  have "bm_Removed res = int (length (filter (\<lambda>ip. al_get (bl_records r) ip \<noteq> None) ns))"
    using remove_record_count [OF d, of "bl_records r" 0] by (simp flip: cnt)
  also have "length (filter (\<lambda>ip. al_get (bl_records r) ip \<noteq> None) ns) =
      card {i \<in> normalizeIPAddress ` set ips. al_get (bl_records r) i \<noteq> None}"
    using distinct_card [OF distinct_filter [OF d], of "\<lambda>ip. al_get (bl_records r) ip \<noteq> None"] set by simp
  finally show ?thesis
    using set by (simp add: contains_lookup rec remove_record_lookup)
qed

theorem blacklist_remove_witness:
  "bl_contains (Some (snd (bl_removeMany ['' 8.8.8.8 ''] empty_blacklist))) ''8.8.8.8'' = None"
proof -
  obtain x r' where x: "bl_removeMany ['' 8.8.8.8 ''] empty_blacklist = (x, r')" by force
  have "case fst (bl_removeMany ['' 8.8.8.8 ''] empty_blacklist) of Inl e \<Rightarrow> False | Inr y \<Rightarrow> True"
    by code_simp
  with x obtain cfg res where y: "bl_removeMany ['' 8.8.8.8 ''] empty_blacklist = (Inr (cfg, res), r')"
    by (cases x) auto
  have i: "normalizeIPAddress '' 8.8.8.8 '' = ''8.8.8.8''" "normalizeIPAddress ''8.8.8.8'' = ''8.8.8.8''"
    by code_simp+
  show ?thesis using blacklist_remove [OF y, of "''8.8.8.8''"] y by (simp add: i)
qed

text \<open>C40: after any sequence of updates, additions and removals, successful or not, the list shown and
  saved has the records of the lookup map and no other, one per address, most recent first and by
  address text within the same time.\<close>

theorem blacklist_list_is_map:
  assumes "r = foldl (\<lambda>r op. bl_step op r) (newGeneralBlacklistRuntime cfg) ops"
  shows "sorted (map bl_sort_key (bl_items r)) \<and> distinct (map bl_IP (bl_items r)) \<and>
    (\<forall>ip x. al_get (bl_records r) ip = Some x \<longleftrightarrow> x \<in> set (bl_items r) \<and> bl_IP x = ip)"
proof -
  have "bl_ok r"
    unfolding assms newGeneralBlacklistRuntime_def by (intro bl_ok_run bl_ok_updateConfig)
  then have ok: "al_ok (bl_records r)" "\<forall>(k, x) \<in> set (bl_records r). bl_IP x = k"
    and items: "bl_items r = sort_key bl_sort_key (map snd (bl_records r))"
    by (auto simp: bl_ok_def records_ok_def recordsMapToSortedGeneralBlacklistItems_def
        sortGeneralBlacklistRecords_def)
  have ips: "map bl_IP (map snd (bl_records r)) = map fst (bl_records r)" using ok(2) by auto
  have "mset (map bl_IP (bl_items r)) = mset (map fst (bl_records r))"
    unfolding items by (metis ips mset_map mset_sort)
  then have "distinct (map bl_IP (bl_items r))"
    using ok(1) by (metis al_ok_def mset_eq_imp_distinct_iff)
  moreover have "sorted (map bl_sort_key (bl_items r))" unfolding items by (rule sorted_sort_key)
  moreover have "al_get (bl_records r) ip = Some x \<longleftrightarrow> x \<in> set (bl_items r) \<and> bl_IP x = ip" for ip x
    using ok(2) by (force simp: al_get_iff [OF ok(1)] items)
  ultimately show ?thesis by blast
qed

theorem blacklist_list_is_map_witness:
  "distinct (map bl_IP (bl_items (snd (bl_addMany 0 [''8.8.8.8''] [] [] second (newGeneralBlacklistRuntime [])))))"
  using blacklist_list_is_map [of _ "[]" "[BL_Add 0 [''8.8.8.8''] [] [] second]", OF refl]
  by (simp only: foldl_Cons foldl_Nil bl_step.simps conj_assoc)

text \<open>An addition or removal fails exactly when the list is empty or one of its texts is not a
  usable address, and then nothing changes.\<close>

theorem blacklist_atomic:
  "((\<exists>e. fst (bl_addMany clock ips source comment now r) = Inl e) \<longleftrightarrow>
      ips = [] \<or> (\<exists>raw \<in> set ips. normalizeGeneralBlacklistIP raw = None)) \<and>
   ((\<exists>e. fst (bl_removeMany ips r) = Inl e) \<longleftrightarrow>
      ips = [] \<or> (\<exists>raw \<in> set ips. normalizeGeneralBlacklistIP raw = None)) \<and>
   (case bl_addMany clock ips source comment now r of (Inl _, r') \<Rightarrow> r' = r | _ \<Rightarrow> True) \<and>
   (case bl_removeMany ips r of (Inl _, r') \<Rightarrow> r' = r | _ \<Rightarrow> True)"
proof (cases "normalizeGeneralBlacklistIPList ips")
  case (Inl e)
  then have "\<exists>raw \<in> set ips. normalizeGeneralBlacklistIP raw = None"
    using normalize_ip_list_Inl [of "[]" ips e] by (auto simp: normalizeGeneralBlacklistIPList_def)
  with Inl show ?thesis by (simp add: bl_addMany_def bl_removeMany_def)
next
  case (Inr ns)
  have "ns = [] \<longleftrightarrow> ips = []" using ip_list_set(2) [OF Inr] by (cases ips) auto
  moreover have "\<not> (\<exists>raw \<in> set ips. normalizeGeneralBlacklistIP raw = None)"
    using ip_list_set(3) [OF Inr] by blast
  ultimately show ?thesis
    using Inr by (auto simp: bl_addMany_def bl_removeMany_def Let_def split: prod.split)
qed

text \<open>A page of the listing is the corresponding section of the sorted matching records, as long as
  the offset fits an \<^verbatim>\<open>int\<close>.\<close>

theorem blacklist_page:
  assumes "1 \<le> page" and "1 \<le> limit" and "(page - 1) * min limit 200 \<le> max_int64"
    and "needle = trim_space search"
    and "found = sortGeneralBlacklistRecords
           (filter (\<lambda>x. needle = [] \<or> generalBlacklistRecordMatches U x needle) (bl_items r))"
  shows "bl_list U page limit search (Some r) =
    Some \<lparr>bp_Total = int (length found),
          bp_Items = take (nat (min limit 200)) (drop (nat ((page - 1) * min limit 200)) found)\<rparr>"
proof -
  let ?l = "min limit 200"
  have l: "(if limit > 200 then 200 else limit) = ?l" by simp
  have p: "0 \<le> (page - 1) * ?l" using assms(1,2) by simp
  have w: "wrap64 ((page - 1) * ?l) = (page - 1) * ?l"
    using p assms(3) by (intro wrap64_id) (auto simp: min_int64_def)
  let ?s = "(page - 1) * ?l"
  have f: "sortGeneralBlacklistRecords (filter (\<lambda>item. trim_space search = [] \<or>
      generalBlacklistRecordMatches U item (trim_space search)) (bl_items r)) = found"
    using assms(4,5) by simp
  have eq: "bl_list U page limit search (Some r) = bl_page_of page ?l found"
    using assms(1,2) by (simp add: bl_list_def Let_def f l)
  show ?thesis
  proof (cases "int (length found) \<le> ?s")
    case True
    then have "drop (nat ?s) found = []" using p by simp
    with True show ?thesis by (simp add: eq bl_page_of_def Let_def w)
  next
    case False
    let ?e = "if ?s + ?l > int (length found) then int (length found) else ?s + ?l"
    have e: "?s \<le> ?e" "?e \<le> int (length found)" using False assms(2) by auto
    have "take (nat (?e - ?s)) (drop (nat ?s) found) = take (nat ?l) (drop (nat ?s) found)"
      using False p assms(2) by (auto simp: nat_le_iff)
    with e p have "slice ?s ?e found = Some (take (nat ?l) (drop (nat ?s) found))"
      by (simp add: slice_def)
    with False show ?thesis by (simp add: eq bl_page_of_def Let_def w del: min_def)
  qed
qed

definition plain_record :: "string \<Rightarrow> bl_record" where
  "plain_record ip = \<lparr>bl_IP = ip, bl_Source = ''manual'', bl_Comment = [], bl_CreatedAt = [], bl_UpdatedAt = []\<rparr>"

definition two_records :: blacklist where
  "two_records = \<lparr>bl_items = [plain_record ''b'', plain_record ''a''], bl_records = []\<rparr>"

theorem blacklist_page_witness:
  "bl_list plain_unicode 2 1 [] (Some two_records) = Some \<lparr>bp_Total = 2, bp_Items = [plain_record ''b'']\<rparr>"
proof -
  have t: "trim_space [] = []" by code_simp
  have k: "bl_sort_key (plain_record ip) = (0, ip)" for ip
    by (simp add: bl_sort_key_def parseGeneralBlacklistTime_def plain_record_def t zero_time_def)
  have "''a'' < ''b''" by code_simp
  then have s: "sortGeneralBlacklistRecords [plain_record ''b'', plain_record ''a''] =
      [plain_record ''a'', plain_record ''b'']"
    by (simp add: sortGeneralBlacklistRecords_def k)
  have l: "(1 :: int) \<le> 2" "(1 :: int) \<le> 1" "(2 - 1) * min 1 200 \<le> max_int64"
    by (simp_all add: max_int64_def)
  show ?thesis
    using blacklist_page [OF l refl refl, where U = plain_unicode and r = two_records and search = "[]"]
    by (simp add: t two_records_def s)
qed

text \<open>For some page numbers the admin interface accepts, the offset wraps to a negative number and
  the listing panics, whatever the blacklist holds.\<close>

theorem blacklist_page_overflow:
  assumes "2 ^ 63 div 200 < page - 1" and "page - 1 < 2 ^ 64 div 200" and "200 \<le> limit"
  shows "bl_list U page limit search (Some r) = None"
proof -
  have l: "(if limit > 200 then 200 else limit) = 200" using assms(3) by simp
  have w: "wrap64 ((page - 1) * 200) = (page - 1) * 200 - 2 ^ 64"
  proof -
    have "((page - 1) * 200 + 2 ^ 63) mod 2 ^ 64 = ((page - 1) * 200 + 2 ^ 63 - 2 ^ 64) mod (2 ^ 64 :: int)"
      by (metis minus_mod_self2)
    also have "\<dots> = (page - 1) * 200 + 2 ^ 63 - 2 ^ 64"
      using assms(1,2) by (intro mod_pos_pos_trivial) auto
    finally show ?thesis by (simp add: wrap64_def)
  qed
  have "wrap64 ((page - 1) * 200) < 0" unfolding w using assms(2) by simp
  moreover have "1 \<le> page" "0 < limit" using assms by auto
  ultimately show ?thesis using l by (simp add: bl_list_def bl_page_of_def Let_def slice_def)
qed

theorem blacklist_page_overflow_witness:
  "bl_list plain_unicode 50000000000000001 200 [] (Some empty_blacklist) = None"
  by (rule blacklist_page_overflow) simp_all

end
