(* ===== verification/NetUrl.thy ===== *)
theory NetUrl
  imports GoStrings
begin

text \<open>
  \<^verbatim>\<open>net/url\<close> of the Go standard library, as far as the proxy uses it: escaping and
  unescaping in the modes of the package, parsing a URL reference, printing a URL, resolving a
  reference against a base, and query strings.  Parse errors are \<open>None\<close>; which error it is never
  matters to the proxy.
\<close>

record url =
  u_Scheme :: string
  u_Opaque :: string
  u_User :: "(string \<times> string option) option"
  u_Host :: string
  u_Path :: string
  u_RawPath :: string
  u_OmitHost :: bool
  u_ForceQuery :: bool
  u_RawQuery :: string
  u_Fragment :: string
  u_RawFragment :: string

definition zero_url :: url where
  "zero_url = \<lparr>u_Scheme = [], u_Opaque = [], u_User = None, u_Host = [], u_Path = [], u_RawPath = [],
               u_OmitHost = False, u_ForceQuery = False, u_RawQuery = [], u_Fragment = [],
               u_RawFragment = []\<rparr>"

section \<open>Escaping\<close>

datatype url_mode = Mode_Path | Mode_Host | Mode_Zone | Mode_User | Mode_Query | Mode_Fragment

definition alnum :: "char \<Rightarrow> bool" where
  "alnum c = (is_digit c \<or> (65 \<le> byte c \<and> byte c \<le> 90) \<or> (97 \<le> byte c \<and> byte c \<le> 122))"

definition should_escape :: "url_mode \<Rightarrow> char \<Rightarrow> bool" where
  "should_escape m c =
     (if alnum c then False
      else if (m = Mode_Host \<or> m = Mode_Zone) \<and> (c \<in> set ''!$&()*+,;=:[]<>'' \<or> byte c = 39 \<or> byte c = 34)
      then False
      else if c \<in> set ''-_.~'' then False
      else if c \<in> set ''$&+,/:;=?@'' \<and> m = Mode_Path then c = CHR ''?''
      else if c \<in> set ''$&+,/:;=?@'' \<and> m = Mode_User then c \<in> set ''@/?:''
      else if c \<in> set ''$&+,/:;=?@'' \<and> m = Mode_Query then True
      else if c \<in> set ''$&+,/:;=?@'' \<and> m = Mode_Fragment then False
      else if c \<in> set ''!()*'' \<and> m = Mode_Fragment then False
      else True)"

definition upper_hex_char :: "nat \<Rightarrow> char" where
  "upper_hex_char d = upperASCII (hex_char d)"

definition url_escape :: "url_mode \<Rightarrow> string \<Rightarrow> string" where
  "url_escape m s =
     concat (map (\<lambda>c. if should_escape m c
                      then (if c = CHR '' '' \<and> m = Mode_Query then ''+''
                            else [CHR ''%'', upper_hex_char (byte c div 16), upper_hex_char (byte c mod 16)])
                      else [c]) s)"

text \<open>What a percent triple may stand for: anything, but in a host only a byte above 127, and in a
  zone also a space, a percent sign and what a host may hold.\<close>

definition percent_ok :: "url_mode \<Rightarrow> char \<Rightarrow> char \<Rightarrow> bool" where
  "percent_ok m a b =
     (is_hex a \<and> is_hex b \<and>
      (m = Mode_Host \<longrightarrow> hex_digit_val a \<ge> 8 \<or> [a, b] = ''25'') \<and>
      (m = Mode_Zone \<longrightarrow>
         [a, b] = ''25'' \<or> hex_val [a, b] = 32 \<or> \<not> should_escape Mode_Host (char_of (hex_val [a, b]))))"

fun url_unescape :: "url_mode \<Rightarrow> string \<Rightarrow> string option" where
  "url_unescape m [] = Some []"
| "url_unescape m (c # s) =
     (if c = CHR ''%'' then
        (case s of
           a # b # r \<Rightarrow>
             if percent_ok m a b then map_option (Cons (char_of (hex_val [a, b]))) (url_unescape m r)
             else None
         | _ \<Rightarrow> None)
      else if c = CHR ''+'' \<and> m = Mode_Query then map_option (Cons CHR '' '') (url_unescape m s)
      else if c \<noteq> CHR ''+'' \<and> (m = Mode_Host \<or> m = Mode_Zone) \<and> byte c < 128 \<and> should_escape m c then None
      else map_option (Cons c) (url_unescape m s))"

definition valid_encoded :: "url_mode \<Rightarrow> string \<Rightarrow> bool" where
  "valid_encoded m s =
     list_all (\<lambda>c. c \<in> set ''!$&()*+,;=:@[]%'' \<or> byte c = 39 \<or> \<not> should_escape m c) s"

definition escaped_path :: "url \<Rightarrow> string" where
  "escaped_path u =
     (if u_RawPath u \<noteq> [] \<and> valid_encoded Mode_Path (u_RawPath u) \<and>
         url_unescape Mode_Path (u_RawPath u) = Some (u_Path u)
      then u_RawPath u
      else if u_Path u = ''*'' then ''*''
      else url_escape Mode_Path (u_Path u))"

definition escaped_fragment :: "url \<Rightarrow> string" where
  "escaped_fragment u =
     (if u_RawFragment u \<noteq> [] \<and> valid_encoded Mode_Fragment (u_RawFragment u) \<and>
         url_unescape Mode_Fragment (u_RawFragment u) = Some (u_Fragment u)
      then u_RawFragment u
      else url_escape Mode_Fragment (u_Fragment u))"

definition set_path :: "string \<Rightarrow> url \<Rightarrow> url option" where
  "set_path p u =
     (case url_unescape Mode_Path p of
        None \<Rightarrow> None
      | Some q \<Rightarrow> Some (u\<lparr>u_Path := q, u_RawPath := (if p = url_escape Mode_Path q then [] else p)\<rparr>))"

definition set_fragment :: "string \<Rightarrow> url \<Rightarrow> url option" where
  "set_fragment f u =
     (case url_unescape Mode_Fragment f of
        None \<Rightarrow> None
      | Some q \<Rightarrow> Some (u\<lparr>u_Fragment := q, u_RawFragment := (if f = url_escape Mode_Fragment q then [] else f)\<rparr>))"

section \<open>Parsing\<close>

fun scheme_scan :: "string \<Rightarrow> string \<Rightarrow> string \<Rightarrow> (string \<times> string) option" where
  "scheme_scan raw seen [] = Some ([], raw)"
| "scheme_scan raw seen (c # cs) =
     (if (65 \<le> byte c \<and> byte c \<le> 90) \<or> (97 \<le> byte c \<and> byte c \<le> 122) then scheme_scan raw (seen @ [c]) cs
      else if is_digit c \<or> c \<in> set ''+-.'' then
        (if seen = [] then Some ([], raw) else scheme_scan raw (seen @ [c]) cs)
      else if c = CHR '':'' then (if seen = [] then None else Some (seen, cs))
      else Some ([], raw))"

definition valid_optional_port :: "string \<Rightarrow> bool" where
  "valid_optional_port p = (p = [] \<or> hd p = CHR '':'' \<and> list_all is_digit (tl p))"

definition parse_url_host :: "string \<Rightarrow> string option" where
  "parse_url_host host =
     (if prefix ''['' host then
        (case last_index_byte host CHR '']'' of
           None \<Rightarrow> None
         | Some i \<Rightarrow>
             if \<not> valid_optional_port (drop (Suc i) host) then None
             else (case index_str (take i host) ''%25'' of
                     Some z \<Rightarrow>
                       (case (url_unescape Mode_Host (take z host),
                              url_unescape Mode_Zone (drop z (take i host)),
                              url_unescape Mode_Host (drop i host)) of
                          (Some a, Some b, Some c) \<Rightarrow> Some (a @ b @ c)
                        | _ \<Rightarrow> None)
                   | None \<Rightarrow> url_unescape Mode_Host host))
      else (case last_index_byte host CHR '':'' of
              Some i \<Rightarrow> if valid_optional_port (drop i host) then url_unescape Mode_Host host else None
            | None \<Rightarrow> url_unescape Mode_Host host))"

definition valid_userinfo :: "string \<Rightarrow> bool" where
  "valid_userinfo s = list_all (\<lambda>c. alnum c \<or> c \<in> set ''-._:~!$&()*+,;=%@'' \<or> byte c = 39) s"

definition parse_userinfo :: "string \<Rightarrow> (string \<times> string option) option" where
  "parse_userinfo s =
     (if \<not> valid_userinfo s then None
      else (case cut_byte CHR '':'' s of (user, pw, ok) \<Rightarrow>
              if \<not> ok then map_option (\<lambda>x. (x, None)) (url_unescape Mode_User s)
              else (case (url_unescape Mode_User user, url_unescape Mode_User pw) of
                      (Some a, Some b) \<Rightarrow> Some (a, Some b)
                    | _ \<Rightarrow> None)))"

definition parse_authority :: "string \<Rightarrow> ((string \<times> string option) option \<times> string) option" where
  "parse_authority authority =
     (case last_index_byte authority CHR ''@'' of
        None \<Rightarrow> map_option (\<lambda>h. (None, h)) (parse_url_host authority)
      | Some i \<Rightarrow>
          (case (parse_url_host (drop (Suc i) authority), parse_userinfo (take i authority)) of
             (Some h, Some u) \<Rightarrow> Some (Some u, h)
           | _ \<Rightarrow> None))"

definition ctl_byte :: "char \<Rightarrow> bool" where
  "ctl_byte c = (byte c < 32 \<or> byte c = 127)"

definition cut_query :: "string \<Rightarrow> url \<Rightarrow> string \<times> url" where
  "cut_query rest u =
     (if suffix ''?'' rest \<and> count_byte rest CHR ''?'' = 1 then (butlast rest, u\<lparr>u_ForceQuery := True\<rparr>)
      else (case cut_byte CHR ''?'' rest of (a, b, _) \<Rightarrow> (a, u\<lparr>u_RawQuery := b\<rparr>)))"

text \<open>The scheme of a parsed URL is lower case; it is ASCII, so no case tables are involved.\<close>

definition parse_reference :: "string \<Rightarrow> url option" where
  "parse_reference raw =
     (if list_ex ctl_byte raw then None
      else if raw = ''*'' then Some (zero_url\<lparr>u_Path := ''*''\<rparr>)
      else (case scheme_scan raw [] raw of
              None \<Rightarrow> None
            | Some (scheme0, rest0) \<Rightarrow>
                (let scheme = map lowerASCII scheme0 in
                 case cut_query rest0 (zero_url\<lparr>u_Scheme := scheme\<rparr>) of (rest, u) \<Rightarrow>
                   if \<not> prefix ''/'' rest \<and> scheme \<noteq> [] then Some (u\<lparr>u_Opaque := rest\<rparr>)
                   else if \<not> prefix ''/'' rest \<and> CHR '':'' \<in> set (fst (cut_byte CHR ''/'' rest)) then None
                   else if (scheme \<noteq> [] \<or> \<not> prefix ''///'' rest) \<and> prefix ''//'' rest then
                     (let a = takeWhile (\<lambda>c. c \<noteq> CHR ''/'') (drop 2 rest);
                          p = dropWhile (\<lambda>c. c \<noteq> CHR ''/'') (drop 2 rest) in
                      case parse_authority a of
                        None \<Rightarrow> None
                      | Some (user, host) \<Rightarrow> set_path p (u\<lparr>u_User := user, u_Host := host\<rparr>))
                   else set_path rest (u\<lparr>u_OmitHost := (scheme \<noteq> [] \<and> prefix ''/'' rest)\<rparr>))))"

definition url_parse :: "string \<Rightarrow> url option" where
  "url_parse raw =
     (case cut_byte CHR ''#'' raw of (a, frag, _) \<Rightarrow>
        (case parse_reference a of
           None \<Rightarrow> None
         | Some u \<Rightarrow> if frag = [] then Some u else set_fragment frag u))"

section \<open>Host and port of a parsed URL\<close>

definition url_split_host_port :: "string \<Rightarrow> string \<times> string" where
  "url_split_host_port hp =
     (let (host, port) =
        (case last_index_byte hp CHR '':'' of
           Some i \<Rightarrow> if valid_optional_port (drop i hp) then (take i hp, drop (Suc i) hp) else (hp, [])
         | None \<Rightarrow> (hp, []))
      in (if prefix ''['' host \<and> suffix '']'' host then butlast (tl host) else host, port))"

definition url_hostname :: "url \<Rightarrow> string" where
  "url_hostname u = fst (url_split_host_port (u_Host u))"

definition url_port :: "url \<Rightarrow> string" where
  "url_port u = snd (url_split_host_port (u_Host u))"

section \<open>Printing\<close>

definition user_text :: "string \<times> string option \<Rightarrow> string" where
  "user_text ui =
     url_escape Mode_User (fst ui) @
     (case snd ui of Some pw \<Rightarrow> '':'' @ url_escape Mode_User pw | None \<Rightarrow> [])"

definition authority_text :: "url \<Rightarrow> string" where
  "authority_text u =
     (if u_Scheme u = [] \<and> u_Host u = [] \<and> u_User u = None then []
      else if u_OmitHost u \<and> u_Host u = [] \<and> u_User u = None then []
      else
        (if u_Host u \<noteq> [] \<or> u_Path u \<noteq> [] \<or> u_User u \<noteq> None then ''//'' else []) @
        (case u_User u of Some ui \<Rightarrow> user_text ui @ ''@'' | None \<Rightarrow> []) @
        url_escape Mode_Host (u_Host u))"

definition url_tail :: "url \<Rightarrow> string" where
  "url_tail u = (if u_ForceQuery u \<or> u_RawQuery u \<noteq> [] then ''?'' @ u_RawQuery u else [])"

definition url_string :: "url \<Rightarrow> string" where
  "url_string u =
     (let s = (if u_Scheme u = [] then [] else u_Scheme u @ '':'');
          body =
            (if u_Opaque u \<noteq> [] then u_Opaque u
             else
               (let a = authority_text u; p = escaped_path u;
                    p1 = (if p \<noteq> [] \<and> hd p \<noteq> CHR ''/'' \<and> u_Host u \<noteq> [] then CHR ''/'' # p else p);
                    p2 = (if s @ a = [] \<and> p1 = p \<and> CHR '':'' \<in> set (fst (cut_byte CHR ''/'' p))
                          then ''./'' @ p else p1)
                in a @ p2))
      in s @ body @ url_tail u @ (if u_Fragment u \<noteq> [] then ''#'' @ escaped_fragment u else []))"

text \<open>\<^verbatim>\<open>RequestURI\<close>\<close>

definition url_request_uri :: "url \<Rightarrow> string" where
  "url_request_uri u =
     (if u_Opaque u = [] then (if escaped_path u = [] then ''/'' else escaped_path u)
      else if prefix ''//'' (u_Opaque u) then u_Scheme u @ '':'' @ u_Opaque u
      else u_Opaque u) @ url_tail u"

section \<open>Resolving references\<close>

text \<open>The path under construction is kept without the leading slash; \<open>first\<close> is Go's flag of the
  same name.\<close>

fun resolve_elems :: "string \<Rightarrow> bool \<Rightarrow> string list \<Rightarrow> string" where
  "resolve_elems dst first [] = dst"
| "resolve_elems dst first (e # es) =
     (let tail = (if es = [] \<and> (e = ''.'' \<or> e = ''..'') then ''/'' else []) in
      if e = ''.'' then resolve_elems (dst @ tail) False es
      else if e = ''..'' then
        (case last_index_byte dst CHR ''/'' of
           None \<Rightarrow> resolve_elems tail True es
         | Some i \<Rightarrow> resolve_elems (take i dst @ tail) first es)
      else resolve_elems (dst @ (if first then [] else ''/'') @ e) False es)"

definition resolve_path :: "string \<Rightarrow> string \<Rightarrow> string" where
  "resolve_path base ref =
     (let full = (if ref = [] then base
                  else if hd ref \<noteq> CHR ''/'' then
                    (case last_index_byte base CHR ''/'' of Some i \<Rightarrow> take (Suc i) base | None \<Rightarrow> []) @ ref
                  else ref)
      in if full = [] then []
         else (let r = CHR ''/'' # resolve_elems [] True (split_byte CHR ''/'' full) in
               if prefix ''//'' r then tl r else r))"

definition resolve_reference :: "url \<Rightarrow> url \<Rightarrow> url" where
  "resolve_reference base ref =
     (let u = (if u_Scheme ref = [] then ref\<lparr>u_Scheme := u_Scheme base\<rparr> else ref);
          put = (\<lambda>p v. case set_path p v of Some v' \<Rightarrow> v' | None \<Rightarrow> v)
      in if u_Scheme ref \<noteq> [] \<or> u_Host ref \<noteq> [] \<or> u_User ref \<noteq> None
         then put (resolve_path (escaped_path ref) []) u
         else if u_Opaque ref \<noteq> [] then u\<lparr>u_User := None, u_Host := [], u_Path := []\<rparr>
         else
           (let u = (if u_Path ref = [] \<and> \<not> u_ForceQuery ref \<and> u_RawQuery ref = [] then
                       (let u = u\<lparr>u_RawQuery := u_RawQuery base\<rparr> in
                        if u_Fragment ref = []
                        then u\<lparr>u_Fragment := u_Fragment base, u_RawFragment := u_RawFragment base\<rparr> else u)
                     else u)
            in if u_Path ref = [] \<and> u_Opaque base \<noteq> []
               then u\<lparr>u_Opaque := u_Opaque base, u_User := None, u_Host := [], u_Path := []\<rparr>
               else put (resolve_path (escaped_path base) (escaped_path ref))
                      (u\<lparr>u_Host := u_Host base, u_User := u_User base\<rparr>)))"

section \<open>Query strings\<close>

type_synonym url_values = "(string \<times> string list) list"

definition values_add :: "string \<Rightarrow> string \<Rightarrow> url_values \<Rightarrow> url_values" where
  "values_add k v m = al_put k ((case al_get m k of Some vs \<Rightarrow> vs | None \<Rightarrow> []) @ [v]) m"

text \<open>One \<^verbatim>\<open>key=value\<close> part; the flag tells whether every part was well formed.\<close>

definition query_part :: "url_values \<times> bool \<Rightarrow> string \<Rightarrow> url_values \<times> bool" where
  "query_part st part =
     (case st of (m, ok) \<Rightarrow>
        if CHR '';'' \<in> set part then (m, False)
        else if part = [] then (m, ok)
        else (case cut_byte CHR ''='' part of (k, v, _) \<Rightarrow>
                (case (url_unescape Mode_Query k, url_unescape Mode_Query v) of
                   (Some k', Some v') \<Rightarrow> (values_add k' v' m, ok)
                 | _ \<Rightarrow> (m, False))))"

definition parse_query :: "string \<Rightarrow> url_values \<times> bool" where
  "parse_query q = foldl query_part ([], True) (if q = [] then [] else split_byte CHR ''&'' q)"

definition encode_query :: "url_values \<Rightarrow> string" where
  "encode_query m =
     join_str ''&''
       (concat (map (\<lambda>k. map (\<lambda>v. url_escape Mode_Query k @ ''='' @ url_escape Mode_Query v)
                          (case al_get m k of Some vs \<Rightarrow> vs | None \<Rightarrow> []))
                 (sort (map fst m))))"

section \<open>Escaping is undone by unescaping\<close>

definition component_mode :: "url_mode \<Rightarrow> bool" where
  "component_mode m = (m \<noteq> Mode_Host \<and> m \<noteq> Mode_Zone)"

lemma upper_hex_char_props:
  "d < 16 \<Longrightarrow> is_hex (upper_hex_char d)" "d < 16 \<Longrightarrow> hex_digit_val (upper_hex_char d) = d"
  by (auto simp: upper_hex_char_def upperASCII_def hex_char_def is_hex_def hex_digit_val_def is_digit_def)

lemma hex_val_pair:
  "hex_val [upper_hex_char (byte c div 16), upper_hex_char (byte c mod 16)] = byte c"
proof -
  have "byte c < 256" by (rule byte_bound)
  then show ?thesis by (simp add: hex_val_def num_val_def upper_hex_char_props)
qed

lemma percent_ok_component:
  "component_mode m \<Longrightarrow> percent_ok m a b \<longleftrightarrow> is_hex a \<and> is_hex b"
  by (simp add: percent_ok_def component_mode_def)

lemma should_escape_percent [simp]: "should_escape m CHR ''%''"
  by (simp add: should_escape_def alnum_def is_digit_def byte_def)

lemma should_escape_plus [simp]: "should_escape Mode_Query CHR ''+''"
  by (simp add: should_escape_def alnum_def is_digit_def byte_def)

lemma url_escape_Nil [simp]: "url_escape m [] = []"
  by (simp add: url_escape_def)

lemma url_escape_Cons:
  "url_escape m (c # s) =
     (if should_escape m c
      then (if c = CHR '' '' \<and> m = Mode_Query then ''+''
            else [CHR ''%'', upper_hex_char (byte c div 16), upper_hex_char (byte c mod 16)])
      else [c]) @ url_escape m s"
  by (simp add: url_escape_def)

theorem url_unescape_escape:
  assumes "component_mode m"
  shows "url_unescape m (url_escape m s) = Some s"
proof (induction s)
  case (Cons c s)
  have "byte c < 256" by (rule byte_bound)
  then have d: "byte c div 16 < 16" "byte c mod 16 < 16" by auto
  have "c = CHR ''%'' \<Longrightarrow> should_escape m c" "c = CHR ''+'' \<Longrightarrow> m = Mode_Query \<Longrightarrow> should_escape m c" by auto
  with Cons assms d show ?case
    by (auto simp: url_escape_Cons percent_ok_component upper_hex_char_props hex_val_pair component_mode_def
        simp del: One_nat_def)
qed simp

text \<open>The characters of an escaped query component do not separate components.\<close>

lemma should_escape_query: "\<not> should_escape Mode_Query c \<longleftrightarrow> alnum c \<or> c \<in> set ''-_.~''"
  by (auto simp: should_escape_def)

lemma alnum_plain: "alnum c \<Longrightarrow> c \<notin> set '';&=#?%+ ''"
  by (auto simp: alnum_def is_digit_def byte_def)

lemma upper_hex_alnum: "d < 16 \<Longrightarrow> alnum (upper_hex_char d)"
  by (auto simp: upper_hex_char_def upperASCII_def hex_char_def alnum_def is_digit_def)

lemma query_escape_chars:
  assumes "c \<in> set (url_escape Mode_Query s)"
  shows "c \<notin> set '';&=#''"
  using assms
proof (induction s)
  case (Cons d s)
  have "byte d < 256" by (rule byte_bound)
  then have a: "alnum (upper_hex_char (byte d div 16))" "alnum (upper_hex_char (byte d mod 16))"
    by (auto intro!: upper_hex_alnum)
  have n: "\<not> should_escape Mode_Query d \<Longrightarrow> d \<notin> set '';&=#''"
    using alnum_plain [of d] by (auto simp: should_escape_query)
  show ?case
    using Cons alnum_plain [OF a(1)] alnum_plain [OF a(2)] n
    by (auto simp: url_escape_Cons split: if_splits)
qed simp

definition query_text :: "string \<times> string \<Rightarrow> string" where
  "query_text kv = url_escape Mode_Query (fst kv) @ ''='' @ url_escape Mode_Query (snd kv)"

lemma query_text_sep: "CHR ''&'' \<notin> set (query_text kv)" "CHR '';'' \<notin> set (query_text kv)" "query_text kv \<noteq> []"
  using query_escape_chars by (fastforce simp: query_text_def)+

lemma query_part_text: "query_part (m, ok) (query_text kv) = (values_add (fst kv) (snd kv) m, ok)"
proof -
  have e: "CHR ''='' \<notin> set (url_escape Mode_Query (fst kv))" using query_escape_chars by fastforce
  have c: "cut_byte CHR ''='' (query_text kv) =
      (url_escape Mode_Query (fst kv), url_escape Mode_Query (snd kv), True)"
    using e by (auto simp: cut_byte_def query_text_def takeWhile_append dropWhile_append)
  show ?thesis
    using query_text_sep [of kv] c url_unescape_escape [of Mode_Query]
    by (simp add: query_part_def component_mode_def)
qed

lemma parse_query_texts:
  "parse_query (join_str ''&'' (map query_text kvs)) = (foldl (\<lambda>m kv. values_add (fst kv) (snd kv) m) [] kvs, True)"
proof (cases "kvs = []")
  case False
  let ?q = "join_str ''&'' (map query_text kvs)"
  have ne: "?q \<noteq> []"
    using False query_text_sep(3) by (cases kvs rule: list.exhaust; cases "tl kvs") auto
  have "split_byte CHR ''&'' ?q = map query_text kvs"
    using False query_text_sep(1) by (intro split_join) auto
  moreover have "foldl query_part (m, True) (map query_text kvs) =
      (foldl (\<lambda>m kv. values_add (fst kv) (snd kv) m) m kvs, True)" for m
    by (induction kvs arbitrary: m) (simp_all add: query_part_text)
  ultimately show ?thesis using ne by (simp add: parse_query_def)
qed (simp add: parse_query_def)

definition values_get_all :: "url_values \<Rightarrow> string \<Rightarrow> string list" where
  "values_get_all m k = (case al_get m k of Some vs \<Rightarrow> vs | None \<Rightarrow> [])"

lemma values_get_all_add:
  "values_get_all (values_add k v m) k' = values_get_all m k' @ (if k' = k then [v] else [])"
  by (simp add: values_get_all_def values_add_def al_get_put)

lemma values_get_all_foldl:
  "values_get_all (foldl (\<lambda>m kv. values_add (fst kv) (snd kv) m) m kvs) k =
     values_get_all m k @ map snd (filter (\<lambda>kv. fst kv = k) kvs)"
  by (induction kvs arbitrary: m) (auto simp: values_get_all_add)

lemma filter_keys:
  "distinct ks \<Longrightarrow> filter (\<lambda>kv. fst kv = k) (concat (map (\<lambda>j. map (Pair j) (f j)) ks)) =
     (if k \<in> set ks then map (Pair k) (f k) else [])"
  by (induction ks) (auto simp: filter_map o_def filter_empty_conv)

theorem parse_encode_query:
  assumes "al_ok m"
  shows "snd (parse_query (encode_query m))"
    and "values_get_all (fst (parse_query (encode_query m))) k = values_get_all m k"
proof -
  let ?ks = "sort (map fst m)"
  let ?kvs = "concat (map (\<lambda>j. map (Pair j) (values_get_all m j)) ?ks)"
  have e: "encode_query m = join_str ''&'' (map query_text ?kvs)"
    by (simp add: encode_query_def values_get_all_def query_text_def map_concat o_def)
  have p: "parse_query (encode_query m) = (foldl (\<lambda>m kv. values_add (fst kv) (snd kv) m) [] ?kvs, True)"
    unfolding e by (rule parse_query_texts)
  then show "snd (parse_query (encode_query m))" by simp
  have "distinct ?ks" using assms by (simp add: al_ok_def)
  moreover have "k \<notin> set (map fst m) \<Longrightarrow> values_get_all m k = []"
    by (auto simp: values_get_all_def al_get_def map_of_eq_None_iff [THEN iffD2])
  ultimately show "values_get_all (fst (parse_query (encode_query m))) k = values_get_all m k"
    unfolding p by (auto simp: values_get_all_foldl filter_keys o_def values_get_all_def [of "[]"] al_get_Nil)
qed

end
