(* ===== verification/Http.thy ===== *)
theory Http
  imports NetUrl
begin

text \<open>
  The parts of \<^verbatim>\<open>net/http\<close> a request consists of: the header as a map from canonical names
  to values, and the request itself, with its URL from \<open>NetUrl\<close>.
\<close>

section \<open>Header fields\<close>

text \<open>\<^verbatim>\<open>httpguts.ValidHeaderFieldName\<close>: a nonempty sequence of token characters.\<close>

definition token_char :: "char \<Rightarrow> bool" where
  "token_char c =
     (is_digit c \<or> (65 \<le> byte c \<and> byte c \<le> 90) \<or> (97 \<le> byte c \<and> byte c \<le> 122) \<or>
      c \<in> set ''!#$%&*+-.^_`|~'' \<or> byte c = 39)"

definition valid_field_name :: "string \<Rightarrow> bool" where
  "valid_field_name s = (s \<noteq> [] \<and> list_all token_char s)"

text \<open>\<^verbatim>\<open>textproto.CanonicalMIMEHeaderKey\<close>\<close>

fun canonical_chars :: "bool \<Rightarrow> string \<Rightarrow> string" where
  "canonical_chars up [] = []"
| "canonical_chars up (c # cs) =
     (if up then upperASCII c else lowerASCII c) # canonical_chars (c = CHR ''-'') cs"

definition canonical_header_key :: "string \<Rightarrow> string" where
  "canonical_header_key k = (if list_all token_char k then canonical_chars True k else k)"

type_synonym header = "(string \<times> string list) list"

definition header_values :: "header \<Rightarrow> string \<Rightarrow> string list" where
  "header_values h key = (case al_get h (canonical_header_key key) of Some vs \<Rightarrow> vs | None \<Rightarrow> [])"

definition header_get :: "header \<Rightarrow> string \<Rightarrow> string" where
  "header_get h key = (case header_values h key of v # _ \<Rightarrow> v | [] \<Rightarrow> [])"

definition header_set :: "string \<Rightarrow> string \<Rightarrow> header \<Rightarrow> header" where
  "header_set key v h = al_put (canonical_header_key key) [v] h"

definition header_add :: "string \<Rightarrow> string \<Rightarrow> header \<Rightarrow> header" where
  "header_add key v h = al_put (canonical_header_key key) (header_values h key @ [v]) h"

definition header_del :: "string \<Rightarrow> header \<Rightarrow> header" where
  "header_del key h = al_del (canonical_header_key key) h"

lemma header_get_set [alist_simps]:
  "header_get (header_set k v h) k' =
     (if canonical_header_key k' = canonical_header_key k then v else header_get h k')"
  by (simp add: header_get_def header_values_def header_set_def al_get_put)

lemma header_get_del [alist_simps]:
  "header_get (header_del k h) k' =
     (if canonical_header_key k' = canonical_header_key k then [] else header_get h k')"
  by (simp add: header_get_def header_values_def header_del_def al_get_del)

section \<open>Requests\<close>

record request =
  rq_Method :: string
  rq_Host :: string
  rq_Header :: header
  rq_URL :: url
  rq_TLS :: bool
  rq_RemoteAddr :: string

abbreviation cookie_headers :: "request \<Rightarrow> string list" where
  "cookie_headers r \<equiv> header_values (rq_Header r) ''Cookie''"

abbreviation auth_header :: "request \<Rightarrow> string" where
  "auth_header r \<equiv> header_get (rq_Header r) ''Authorization''"

end
