(* ===== verification/Sha256.thy ===== *)
theory Sha256
  imports GoStrings
begin

text \<open>
  \<^verbatim>\<open>crypto/sha256\<close> and \<^verbatim>\<open>encoding/hex\<close>, which turn identities and cache fields of
  \<^verbatim>\<open>pkg/proxy/auth_cache.go\<close> into keys: FIPS 180-4 on 32-bit words, executable.
\<close>

unbundle bit_operations_syntax

definition rotr32 :: "nat \<Rightarrow> 32 word \<Rightarrow> 32 word" where
  "rotr32 n w = (drop_bit n w OR push_bit (32 - n) w)"

definition sha_K :: "32 word list" where
  "sha_K = map word_of_int
    [1116352408, 1899447441, 3049323471, 3921009573, 961987163, 1508970993, 2453635748, 2870763221,
     3624381080, 310598401, 607225278, 1426881987, 1925078388, 2162078206, 2614888103, 3248222580,
     3835390401, 4022224774, 264347078, 604807628, 770255983, 1249150122, 1555081692, 1996064986,
     2554220882, 2821834349, 2952996808, 3210313671, 3336571891, 3584528711, 113926993, 338241895,
     666307205, 773529912, 1294757372, 1396182291, 1695183700, 1986661051, 2177026350, 2456956037,
     2730485921, 2820302411, 3259730800, 3345764771, 3516065817, 3600352804, 4094571909, 275423344,
     430227734, 506948616, 659060556, 883997877, 958139571, 1322822218, 1537002063, 1747873779,
     1955562222, 2024104815, 2227730452, 2361852424, 2428436474, 2756734187, 3204031479, 3329325298]"

definition sha_init :: "32 word list" where
  "sha_init = map word_of_int
    [0x6a09e667, 0xbb67ae85, 0x3c6ef372, 0xa54ff53a, 0x510e527f, 0x9b05688c, 0x1f83d9ab, 0x5be0cd19]"

text \<open>The message schedule keeps the last sixteen words, the newest first.\<close>

definition schedule_word :: "32 word list \<Rightarrow> 32 word" where
  "schedule_word ws =
     (let w2 = ws ! 1; w7 = ws ! 6; w15 = ws ! 14; w16 = ws ! 15;
          s0 = rotr32 7 w15 XOR rotr32 18 w15 XOR drop_bit 3 w15;
          s1 = rotr32 17 w2 XOR rotr32 19 w2 XOR drop_bit 10 w2
      in w16 + s0 + w7 + s1)"

fun extend_schedule :: "nat \<Rightarrow> 32 word list \<Rightarrow> 32 word list" where
  "extend_schedule 0 ws = rev ws"
| "extend_schedule (Suc k) ws = extend_schedule k (schedule_word ws # ws)"

fun sha_round :: "32 word list \<Rightarrow> 32 word \<times> 32 word \<Rightarrow> 32 word list" where
  "sha_round [a, b, c, d, e, f, g, h] (k, w) =
     (let s1 = rotr32 6 e XOR rotr32 11 e XOR rotr32 25 e;
          ch = (e AND f) XOR (NOT e AND g);
          t1 = h + s1 + ch + k + w;
          s0 = rotr32 2 a XOR rotr32 13 a XOR rotr32 22 a;
          maj = (a AND b) XOR (a AND c) XOR (b AND c);
          t2 = s0 + maj
      in [t1 + t2, a, b, c, d + t1, e, f, g])"
| "sha_round st _ = st"

definition be_word :: "string \<Rightarrow> 32 word" where
  "be_word s = word_of_int (undigs_int 256 (map byte s))"

fun chunks :: "nat \<Rightarrow> nat \<Rightarrow> 'a list \<Rightarrow> 'a list list" where
  "chunks 0 n xs = []"
| "chunks (Suc k) n xs = take n xs # chunks k n (drop n xs)"

definition sha_block :: "32 word list \<Rightarrow> string \<Rightarrow> 32 word list" where
  "sha_block st block =
     map2 (+) st
       (foldl sha_round st (zip sha_K (extend_schedule 48 (rev (map be_word (chunks 16 4 block))))))"

definition sha_pad :: "string \<Rightarrow> string" where
  "sha_pad m =
     m @ [char_of (128 :: nat)] @ replicate ((119 - length m mod 64) mod 64) (char_of (0 :: nat)) @
     map char_of (digs_int 256 8 (8 * int (length m)))"

definition sha256 :: "string \<Rightarrow> string" where
  "sha256 m =
     (let p = sha_pad m in
      concat (map (\<lambda>w. map char_of (digs_int 256 4 (uint w)))
        (foldl sha_block sha_init (chunks (length p div 64) 64 p))))"

definition hex_encode :: "string \<Rightarrow> string" where
  "hex_encode s = concat (map (\<lambda>c. [hex_char (byte c div 16), hex_char (byte c mod 16)]) s)"

definition sha256HexBytes :: "string \<Rightarrow> string" where
  "sha256HexBytes v = hex_encode (sha256 v)"

section \<open>The hexadecimal text determines the digest\<close>

lemma hex_char_inj: "a < 16 \<Longrightarrow> b < 16 \<Longrightarrow> hex_char a = hex_char b \<Longrightarrow> a = b"
  by (metis hex_char_props(2))

lemma hex_pair:
  assumes "a < 256" and "b < 256"
  shows "hex_char (a div 16) = hex_char (b div 16) \<and> hex_char (a mod 16) = hex_char (b mod 16) \<longleftrightarrow> a = b"
proof
  assume h: "hex_char (a div 16) = hex_char (b div 16) \<and> hex_char (a mod 16) = hex_char (b mod 16)"
  have "a div 16 < 16" "b div 16 < 16" using assms by simp_all
  with h have "a div 16 = b div 16" using hex_char_inj by blast
  moreover have "a mod 16 = b mod 16"
    using h by (intro hex_char_inj) simp_all
  ultimately show "a = b" by (metis div_mult_mod_eq)
qed simp

lemma hex_encode_Cons:
  "hex_encode (x # xs) = hex_char (byte x div 16) # hex_char (byte x mod 16) # hex_encode xs"
  by (simp add: hex_encode_def)

lemma hex_encode_inj [simp]: "hex_encode s = hex_encode t \<longleftrightarrow> s = t"
proof (induction s arbitrary: t)
  case Nil
  then show ?case by (cases t) (simp_all add: hex_encode_def)
next
  case (Cons c s)
  show ?case
  proof (cases t)
    case Nil
    then show ?thesis by (simp add: hex_encode_def)
  next
    case (Cons d t')
    with hex_pair [OF byte_bound byte_bound, of c d] Cons.IH [of t'] show ?thesis
      by (simp only: Cons hex_encode_Cons list.inject byte_inj) blast
  qed
qed

lemma hex_encode_chars: "c \<in> set (hex_encode s) \<Longrightarrow> is_hex c"
  using byte_bound by (auto simp: hex_encode_def hex_char_props less_mult_imp_div_less)

section \<open>A digest has 32 bytes\<close>

lemma length_sha_round: "length st = 8 \<Longrightarrow> length (sha_round st kw) = 8"
  by (cases "(st, kw)" rule: sha_round.cases) (auto simp: Let_def)

lemma length_sha_rounds: "length st = 8 \<Longrightarrow> length (foldl sha_round st kws) = 8"
  by (induction kws arbitrary: st) (simp_all add: length_sha_round)

lemma length_sha_blocks: "length st = 8 \<Longrightarrow> length (foldl sha_block st bs) = 8"
  by (induction bs arbitrary: st) (simp_all add: sha_block_def length_sha_rounds)

lemma length_digs_int [simp]: "length (digs_int b k n) = k"
  by (induction k arbitrary: n) simp_all

lemma length_sha256: "length (sha256 m) = 32"
  by (simp add: sha256_def Let_def length_concat o_def sum_list_triv length_sha_blocks sha_init_def)

lemma sha256HexBytes_nonempty [simp]: "sha256HexBytes v \<noteq> []"
proof -
  obtain c cs where "sha256 v = c # cs" using length_sha256 [of v] by (cases "sha256 v") auto
  then show ?thesis by (simp add: sha256HexBytes_def hex_encode_Cons)
qed

end
