(* ===== verification/Cookies.thy ===== *)
theory Cookies
  imports ClientIP Http Sha256 Ascii "HOL-Library.Product_Lexorder"
begin

text \<open>
  How the proxy names a client by its cookies: the parsing and the canonical identity of
  \<^verbatim>\<open>pkg/proxy/handler.go\<close> and the cookie maps and \<^verbatim>\<open>Set-Cookie\<close> parsing of
  \<^verbatim>\<open>pkg/proxy/auth_cache.go\<close>.  A request is its list of \<^verbatim>\<open>Cookie\<close> header values.
  The lemmas show that the identity is the multiset of cookies, no more and no less, and when the
  two ways of computing it agree.
\<close>

section \<open>Cookie parts\<close>

definition proxyPathCookieName :: string where
  "proxyPathCookieName = ''__proxy_path''"

definition authSessionCookieName :: string where
  "authSessionCookieName = ''x-go-reauth-proxy-session-id''"

definition authShareSessionCookieName :: string where
  "authShareSessionCookieName = ''fn-knock-fnos-share-session''"

definition defaultCookieMaxNum :: nat where
  "defaultCookieMaxNum = 3000"

definition validCanonicalCookieValueByte :: "char \<Rightarrow> bool" where
  "validCanonicalCookieValueByte b =
     (32 \<le> byte b \<and> byte b < 127 \<and> byte b \<noteq> 34 \<and> byte b \<noteq> 59 \<and> byte b \<noteq> 92)"

definition parseCanonicalCookieValue :: "string \<Rightarrow> string option" where
  "parseCanonicalCookieValue raw0 =
     (let raw = (if length raw0 > 1 \<and> byte (hd raw0) = 34 \<and> byte (last raw0) = 34
                 then butlast (tl raw0) else raw0) in
      if list_all validCanonicalCookieValueByte raw then Some raw else None)"

definition parseCanonicalCookiePart :: "string \<Rightarrow> (string \<times> string) option" where
  "parseCanonicalCookiePart part =
     (if part = [] then None
      else
        (case cut_byte CHR ''='' part of (name0, rawValue, _) \<Rightarrow>
          (let name = trim_space name0 in
           if name = [] \<or> \<not> valid_field_name name then None
           else map_option (\<lambda>v. (name, v)) (parseCanonicalCookieValue rawValue))))"

section \<open>The canonical identity\<close>

definition cookieHeaderValuesWithinDefaultLimit :: "string list \<Rightarrow> bool" where
  "cookieHeaderValuesWithinDefaultLimit headers =
     (headers = [] \<or>
      sum_list (map length headers) + length headers \<le> defaultCookieMaxNum \<or>
      sum_list (map (\<lambda>h. count_byte h CHR '';'' + 1) headers) \<le> defaultCookieMaxNum)"

definition identity_pair :: "string \<Rightarrow> (string \<times> string) option" where
  "identity_pair part =
     (case parseCanonicalCookiePart (trim_space part) of
        Some (name, v) \<Rightarrow> if name \<noteq> proxyPathCookieName \<and> v \<noteq> [] then Some (name, v) else None
      | None \<Rightarrow> None)"

definition appendCanonicalCookieIdentityPairs :: "(string \<times> string) list \<Rightarrow> string \<Rightarrow> (string \<times> string) list" where
  "appendCanonicalCookieIdentityPairs pairs header =
     pairs @ List.map_filter identity_pair (split_byte CHR '';'' header)"

definition canonicalCookiePairLess :: "string \<times> string \<Rightarrow> string \<times> string \<Rightarrow> bool" where
  "canonicalCookiePairLess a b =
     (if fst a = fst b then snd a < snd b else fst a < fst b)"

text \<open>The insertion sort: a pair moves left past the pairs it is less than.\<close>

definition insert_pair :: "string \<times> string \<Rightarrow> (string \<times> string) list \<Rightarrow> (string \<times> string) list" where
  "insert_pair p sorted_prefix =
     (let r = rev sorted_prefix in
      rev (dropWhile (canonicalCookiePairLess p) r) @ [p] @ rev (takeWhile (canonicalCookiePairLess p) r))"

definition sortCanonicalCookiePairs :: "(string \<times> string) list \<Rightarrow> (string \<times> string) list" where
  "sortCanonicalCookiePairs pairs = foldl (\<lambda>acc p. insert_pair p acc) [] pairs"

definition cookie_text :: "string \<times> string \<Rightarrow> string" where
  "cookie_text p = fst p @ ''='' @ snd p"

definition cookie_pairs :: "string list \<Rightarrow> (string \<times> string) list" where
  "cookie_pairs headers =
     (if headers = [] \<or> \<not> cookieHeaderValuesWithinDefaultLimit headers then []
      else foldl appendCanonicalCookieIdentityPairs [] headers)"

definition canonicalCookieIdentity :: "string list \<Rightarrow> string" where
  "canonicalCookieIdentity headers =
     (let pairs = cookie_pairs headers in
      if pairs = [] then []
      else if length pairs = 1 then cookie_text (hd pairs)
      else join_str '';'' (map cookie_text (sortCanonicalCookiePairs pairs)))"

definition cookie_identity_buffer :: "string list \<Rightarrow> string" where
  "cookie_identity_buffer headers =
     (let pairs = cookie_pairs headers in
      ''cookie:'' @ (if length pairs = 1 then cookie_text (hd pairs)
                   else join_str '';'' (map cookie_text (sortCanonicalCookiePairs pairs))))"

definition canonicalCookieIdentityKey :: "string list \<Rightarrow> string option" where
  "canonicalCookieIdentityKey headers =
     (if cookie_pairs headers = [] then None else Some (sha256HexBytes (cookie_identity_buffer headers)))"

section \<open>Cookie maps\<close>

definition map_cookie :: "(string \<times> string) list \<Rightarrow> string \<Rightarrow> (string \<times> string) list" where
  "map_cookie m part =
     (case parseCanonicalCookiePart (trim_space part) of
        Some (name, v) \<Rightarrow>
          if name = proxyPathCookieName then m
          else if v = [] then al_del name m else al_put name v m
      | None \<Rightarrow> m)"

definition appendRequestCookieMapHeader :: "(string \<times> string) list \<Rightarrow> string \<Rightarrow> (string \<times> string) list" where
  "appendRequestCookieMapHeader m header = foldl map_cookie m (split_byte CHR '';'' header)"

definition requestCookieMap :: "string list \<Rightarrow> (string \<times> string) list" where
  "requestCookieMap headers =
     (if headers = [] \<or> \<not> cookieHeaderValuesWithinDefaultLimit headers then []
      else foldl appendRequestCookieMapHeader [] headers)"

definition canonicalCookieIdentityFromMap :: "(string \<times> string) list \<Rightarrow> string" where
  "canonicalCookieIdentityFromMap values =
     (let names = sort (filter (\<lambda>name. name \<noteq> [] \<and> al_get values name \<noteq> Some [] \<and> name \<noteq> proxyPathCookieName)
                          (map fst values)) in
      join_str '';'' (map (\<lambda>name. name @ ''='' @ the (al_get values name)) names))"

section \<open>Identities of a request\<close>

definition activeIdentityKeyFromParts :: "string \<Rightarrow> string \<Rightarrow> string" where
  "activeIdentityKeyFromParts pre v = sha256HexBytes (pre @ v)"

definition activeIdentityKeyFromSource :: "string \<Rightarrow> string" where
  "activeIdentityKeyFromSource src = (if trim_space src = [] then [] else sha256HexBytes src)"

definition activeIdentityKeyFromClientIP :: "string \<Rightarrow> string" where
  "activeIdentityKeyFromClientIP clientIP =
     (if trim_space clientIP = [] then [] else activeIdentityKeyFromParts ''ip:'' (trim_space clientIP))"

definition activeIdentityKey :: "string list \<Rightarrow> string \<Rightarrow> string \<Rightarrow> string" where
  "activeIdentityKey cookies authorization clientIP =
     (case canonicalCookieIdentityKey cookies of
        Some k \<Rightarrow> k
      | None \<Rightarrow>
          if authorization \<noteq> [] then activeIdentityKeyFromParts ''auth:'' authorization
          else if clientIP \<noteq> [] then activeIdentityKeyFromParts ''ip:'' clientIP
          else [])"

definition requestIdentityForCache :: "string list \<Rightarrow> string \<Rightarrow> string \<Rightarrow> (string \<times> string) option" where
  "requestIdentityForCache cookies authorization clientIP =
     (case canonicalCookieIdentityKey cookies of
        Some k \<Rightarrow> Some (k, trim_space clientIP)
      | None \<Rightarrow>
          (let auth = trim_space authorization; ip = trim_space clientIP in
           if auth \<noteq> [] then Some (activeIdentityKeyFromParts ''auth:'' auth, ip)
           else if ip \<noteq> [] then Some (activeIdentityKeyFromParts ''ip:'' ip, [])
           else None))"

definition requestIdentityKey :: "string list \<Rightarrow> string \<Rightarrow> string \<Rightarrow> string" where
  "requestIdentityKey cookies authorization clientIP =
     (case requestIdentityForCache cookies authorization clientIP of Some (k, _) \<Rightarrow> k | None \<Rightarrow> [])"

definition requestIdentitySource :: "string list \<Rightarrow> string \<Rightarrow> string \<Rightarrow> string" where
  "requestIdentitySource cookies authorization clientIP =
     (if canonicalCookieIdentity cookies \<noteq> [] then ''cookie:'' @ canonicalCookieIdentity cookies
      else if trim_space authorization \<noteq> [] then ''auth:'' @ trim_space authorization
      else if trim_space clientIP \<noteq> [] then ''ip:'' @ trim_space clientIP
      else [])"

definition identityKeyFromState :: "(string \<times> string) list \<Rightarrow> string \<Rightarrow> string \<Rightarrow> string" where
  "identityKeyFromState cookieValues authHeader clientIP =
     (if canonicalCookieIdentityFromMap cookieValues \<noteq> []
      then activeIdentityKeyFromSource (''cookie:'' @ canonicalCookieIdentityFromMap cookieValues)
      else if trim_space authHeader \<noteq> [] then activeIdentityKeyFromSource (''auth:'' @ trim_space authHeader)
      else if trim_space clientIP \<noteq> [] then activeIdentityKeyFromSource (''ip:'' @ trim_space clientIP)
      else [])"

section \<open>\<^verbatim>\<open>Set-Cookie\<close> mutations\<close>

record auth_set_cookie =
  sc_name :: string
  sc_value :: string
  sc_maxAge :: int

fun max_age_digits :: "int \<Rightarrow> string \<Rightarrow> int option" where
  "max_age_digits seconds [] = Some seconds"
| "max_age_digits seconds (c # cs) =
     (if \<not> is_digit c then None
      else (let digit = int (digit_val c) in
            if seconds > (max_int64 - digit) div 10 then None
            else max_age_digits (seconds * 10 + digit) cs))"

definition parseSetCookieMaxAge :: "string \<Rightarrow> int" where
  "parseSetCookieMaxAge v =
     (if v = [] then 0
      else
        (let signed = (hd v = CHR ''+'' \<or> hd v = CHR ''-''); negative = (hd v = CHR ''-'');
             ds = (if signed then tl v else v) in
         if ds = [] then 0
         else (case max_age_digits 0 ds of
                 None \<Rightarrow> 0
               | Some seconds \<Rightarrow>
                   if hd v = CHR ''0'' \<and> seconds \<noteq> 0 then 0
                   else if negative \<or> seconds \<le> 0 then -1 else seconds)))"

definition parseSetCookieAttributeValue :: "string \<Rightarrow> string option" where
  "parseSetCookieAttributeValue raw = (if list_all validCanonicalCookieValueByte raw then Some raw else None)"

abbreviation (input) blank_set :: string where
  "blank_set \<equiv> [CHR '' '', CHR 0x09]"

definition max_age_attr :: "int \<Rightarrow> string \<Rightarrow> int" where
  "max_age_attr maxAge attrPart0 =
     (let attrPart = trim_set attrPart0 blank_set in
      if attrPart = [] then maxAge
      else
        (case cut_byte CHR ''='' attrPart of (attr, rawAttrValue, _) \<Rightarrow>
           if \<not> equalFoldASCIIString attr ''max-age'' then maxAge
           else (case parseSetCookieAttributeValue rawAttrValue of
                   None \<Rightarrow> maxAge
                 | Some v \<Rightarrow> parseSetCookieMaxAge v)))"

definition parseRelevantAuthSetCookie :: "string \<Rightarrow> auth_set_cookie option" where
  "parseRelevantAuthSetCookie header =
     (case cut_byte CHR '';'' (trim_set header blank_set) of (part0, attrs, _) \<Rightarrow>
        (case cut_byte CHR ''='' (trim_set part0 blank_set) of (name0, rawValue, ok) \<Rightarrow>
           (let name = trim_set name0 blank_set in
            if \<not> ok then None
            else if \<not> (name = authSessionCookieName \<or> name = authShareSessionCookieName) then None
            else (case parseCanonicalCookieValue rawValue of
                    None \<Rightarrow> None
                  | Some v \<Rightarrow>
                      Some \<lparr>sc_name = name, sc_value = v,
                            sc_maxAge = (if attrs = [] then 0
                                         else foldl max_age_attr 0 (split_byte CHR '';'' attrs))\<rparr>))))"

definition parseRelevantAuthSetCookies :: "string list \<Rightarrow> auth_set_cookie list" where
  "parseRelevantAuthSetCookies setCookieHeaders = List.map_filter parseRelevantAuthSetCookie setCookieHeaders"

definition apply_mutation :: "(string \<times> string) list \<Rightarrow> auth_set_cookie \<Rightarrow> (string \<times> string) list" where
  "apply_mutation updated cookie =
     (if sc_name cookie = [] then updated
      else if sc_value cookie = [] \<or> sc_maxAge cookie < 0 \<or> sc_maxAge cookie = 0
      then al_del (sc_name cookie) updated
      else al_put (sc_name cookie) (sc_value cookie) updated)"

definition applySetCookieMutations ::
    "(string \<times> string) list \<Rightarrow> auth_set_cookie list \<Rightarrow> (string \<times> string) list" where
  "applySetCookieMutations base cookies = foldl apply_mutation base cookies"

section \<open>Sorting\<close>

lemma pair_less: "canonicalCookiePairLess a b \<longleftrightarrow> a < b"
  by (cases a; cases b) (auto simp: canonicalCookiePairLess_def less_prod_def less_eq_prod_def)

lemma mset_insert_pair: "mset (insert_pair p xs) = add_mset p (mset xs)"
proof -
  have "mset (dropWhile P r) + mset (takeWhile P r) = mset r" for P and r :: "(string \<times> string) list"
    by (metis mset_append takeWhile_dropWhile_id union_commute)
  then show ?thesis by (simp add: insert_pair_def Let_def)
qed

lemma sorted_insert_pair: "sorted xs \<Longrightarrow> sorted (insert_pair p xs)"
proof -
  assume s: "sorted xs"
  let ?P = "canonicalCookiePairLess p"
  let ?t = "takeWhile ?P (rev xs)" and ?d = "dropWhile ?P (rev xs)"
  have xs: "xs = rev ?d @ rev ?t" by (simp flip: rev_append)
  have t: "p < y" if "y \<in> set ?t" for y using that set_takeWhileD [of y ?P "rev xs"] by (simp add: pair_less)
  have d: "y \<le> p" if "y \<in> set ?d" for y
  proof -
    from that have ne: "?d \<noteq> []" by (metis empty_iff list.set(1))
    then have "\<not> p < hd ?d" using hd_dropWhile [OF ne] by (simp add: pair_less)
    moreover have "y \<le> hd ?d"
    proof -
      have "sorted (rev ?d)" using s xs by (metis sorted_append)
      moreover obtain a r where ad: "?d = a # r" using ne by (cases ?d) auto
      ultimately have "sorted (rev r @ [a])" by simp
      then show ?thesis using that ad by (auto simp: sorted_append)
    qed
    ultimately show ?thesis by simp
  qed
  have st: "sorted (rev ?d)" "sorted (rev ?t)" using s xs by (metis sorted_append)+
  have "x \<le> y" if "x \<in> set ?d" "y \<in> set ?t" for x y
    using d [OF that(1)] t [OF that(2)] by simp
  then show ?thesis
    using st d t by (fastforce simp: insert_pair_def Let_def sorted_append less_imp_le)
qed

lemma sortCanonicalCookiePairs_sort [simp]: "sortCanonicalCookiePairs pairs = sort pairs"
proof -
  have "sorted (foldl (\<lambda>acc p. insert_pair p acc) acc pairs) \<and>
      mset (foldl (\<lambda>acc p. insert_pair p acc) acc pairs) = mset acc + mset pairs" if "sorted acc" for acc
    using that by (induction pairs arbitrary: acc) (auto simp: sorted_insert_pair mset_insert_pair)
  from this [of "[]"] have "sorted (sortCanonicalCookiePairs pairs)"
      "mset (sortCanonicalCookiePairs pairs) = mset pairs"
    by (simp_all add: sortCanonicalCookiePairs_def)
  then show ?thesis by (metis properties_for_sort)
qed

section \<open>The identity is the multiset of cookies\<close>

definition pair_ok :: "string \<times> string \<Rightarrow> bool" where
  "pair_ok p =
     (fst p \<noteq> [] \<and> fst p \<noteq> proxyPathCookieName \<and> list_all token_char (fst p) \<and>
      list_all validCanonicalCookieValueByte (snd p) \<and> snd p \<noteq> [])"

lemma token_chars: "token_char c \<Longrightarrow> c \<noteq> CHR ''='' \<and> c \<noteq> CHR '';''"
  by (auto simp: token_char_def is_digit_def byte_def)

lemma value_chars: "validCanonicalCookieValueByte c \<Longrightarrow> c \<noteq> CHR '';''"
  by (auto simp: validCanonicalCookieValueByte_def byte_def)

lemma identity_pair_ok: "identity_pair part = Some p \<Longrightarrow> pair_ok p"
  by (auto simp: identity_pair_def parseCanonicalCookiePart_def parseCanonicalCookieValue_def pair_ok_def
      valid_field_name_def Let_def split: option.splits if_splits prod.splits)

lemma foldl_append_pairs:
  "foldl appendCanonicalCookieIdentityPairs acc headers =
     acc @ List.map_filter identity_pair (concat (map (split_byte CHR '';'') headers))"
  by (induction headers arbitrary: acc)
    (auto simp: appendCanonicalCookieIdentityPairs_def map_filter_append)

lemma cookie_pairs_ok: "p \<in> set (cookie_pairs headers) \<Longrightarrow> pair_ok p"
proof -
  assume "p \<in> set (cookie_pairs headers)"
  then have "p \<in> set (List.map_filter identity_pair (concat (map (split_byte CHR '';'') headers)))"
    by (auto simp: cookie_pairs_def foldl_append_pairs split: if_splits)
  then obtain part where "identity_pair part = Some p" by (auto simp: set_map_filter)
  then show ?thesis by (rule identity_pair_ok)
qed

lemma cookie_text_inj: "pair_ok p \<Longrightarrow> pair_ok q \<Longrightarrow> cookie_text p = cookie_text q \<Longrightarrow> p = q"
proof -
  assume ok: "pair_ok p" "pair_ok q" and t: "cookie_text p = cookie_text q"
  have n: "CHR ''='' \<notin> set (fst p)" "CHR ''='' \<notin> set (fst q)"
    using ok token_chars by (auto simp: pair_ok_def list_all_iff)
  have "cut_byte CHR ''='' (cookie_text r) = (fst r, snd r, True)" if "CHR ''='' \<notin> set (fst r)" for r
    using that cut_byte_append [of "CHR ''=''" "fst r" "snd r"] by (simp add: cookie_text_def)
  from this [OF n(1)] this [OF n(2)] t show ?thesis by (auto intro: prod_eqI)
qed

lemma cookie_text_no_semicolon: "pair_ok p \<Longrightarrow> CHR '';'' \<notin> set (cookie_text p)"
  using token_chars value_chars by (fastforce simp: pair_ok_def cookie_text_def list_all_iff)

lemma join_cookie_inj:
  assumes "list_all pair_ok ps" and "list_all pair_ok qs"
    and "join_str '';'' (map cookie_text ps) = join_str '';'' (map cookie_text qs)"
    and "ps \<noteq> []" and "qs \<noteq> []"
  shows "ps = qs"
proof -
  have "split_byte CHR '';'' (join_str '';'' (map cookie_text rs)) = map cookie_text rs"
    if "list_all pair_ok rs" "rs \<noteq> []" for rs
    using that by (intro split_join) (auto simp: list_all_iff cookie_text_no_semicolon)
  with assms have e: "map cookie_text ps = map cookie_text qs" by metis
  have "inj_on cookie_text (set ps \<union> set qs)"
  proof (rule inj_onI)
    fix x y
    assume "x \<in> set ps \<union> set qs" "y \<in> set ps \<union> set qs" "cookie_text x = cookie_text y"
    with assms(1,2) show "x = y" by (intro cookie_text_inj) (auto simp: list_all_iff)
  qed
  with e show ?thesis by (simp add: inj_on_map_eq_map)
qed

lemma identity_text:
  "canonicalCookieIdentity headers = join_str '';'' (map cookie_text (sort (cookie_pairs headers)))"
proof (cases "cookie_pairs headers")
  case (Cons p ps)
  then show ?thesis by (cases ps) (simp_all add: canonicalCookieIdentity_def Let_def)
qed (simp add: canonicalCookieIdentity_def)

lemma sort_eq_mset: "sort xs = sort ys \<longleftrightarrow> mset xs = mset ys"
  by (metis mset_sort properties_for_sort sorted_sort)

lemma cookie_text_nonempty: "join_str '';'' (map cookie_text ps) = [] \<longleftrightarrow> ps = []"
proof (cases ps)
  case (Cons p qs)
  then show ?thesis by (cases qs) (auto simp: cookie_text_def)
qed simp

lemma identity_eq_iff:
  "canonicalCookieIdentity hs = canonicalCookieIdentity hs' \<longleftrightarrow> mset (cookie_pairs hs) = mset (cookie_pairs hs')"
proof
  assume e: "canonicalCookieIdentity hs = canonicalCookieIdentity hs'"
  have ok: "list_all pair_ok (sort (cookie_pairs xs))" for xs
    by (auto simp: list_all_iff dest: cookie_pairs_ok)
  show "mset (cookie_pairs hs) = mset (cookie_pairs hs')"
  proof (cases "cookie_pairs hs = [] \<or> cookie_pairs hs' = []")
    case True
    with e cookie_text_nonempty have "cookie_pairs hs = []" "cookie_pairs hs' = []"
      unfolding identity_text by (metis mset_sort mset_zero_iff join_str.simps(1) list.map(1))+
    then show ?thesis by simp
  next
    case False
    then have "sort (cookie_pairs hs) \<noteq> []" "sort (cookie_pairs hs') \<noteq> []"
      by (metis mset_sort mset_zero_iff)+
    from join_cookie_inj [OF ok ok e [unfolded identity_text] this] show ?thesis
      by (simp add: sort_eq_mset)
  qed
next
  assume "mset (cookie_pairs hs) = mset (cookie_pairs hs')"
  then have "sort (cookie_pairs hs) = sort (cookie_pairs hs')" by (simp add: sort_eq_mset)
  then show "canonicalCookieIdentity hs = canonicalCookieIdentity hs'" by (simp add: identity_text)
qed

lemma identity_buffer: "cookie_identity_buffer hs = ''cookie:'' @ canonicalCookieIdentity hs"
proof (cases "cookie_pairs hs")
  case (Cons p ps)
  then show ?thesis
    by (cases ps) (simp_all add: cookie_identity_buffer_def canonicalCookieIdentity_def Let_def)
qed (simp add: cookie_identity_buffer_def canonicalCookieIdentity_def)

section \<open>The identity from the cookie map\<close>

text \<open>Every cookie of the request, those without a value included.\<close>

definition parsed_cookie :: "string \<Rightarrow> (string \<times> string) option" where
  "parsed_cookie part =
     (case parseCanonicalCookiePart (trim_space part) of
        Some (name, v) \<Rightarrow> if name \<noteq> proxyPathCookieName then Some (name, v) else None
      | None \<Rightarrow> None)"

definition parsed_cookies :: "string list \<Rightarrow> (string \<times> string) list" where
  "parsed_cookies headers = List.map_filter parsed_cookie (concat (map (split_byte CHR '';'') headers))"

lemma identity_pairs_parsed:
  "List.map_filter identity_pair parts = filter (\<lambda>p. snd p \<noteq> []) (List.map_filter parsed_cookie parts)"
  by (induction parts) (auto simp: identity_pair_def parsed_cookie_def split: option.split)

lemma foldl_map_cookie_fresh:
  "distinct (map fst (List.map_filter parsed_cookie parts)) \<Longrightarrow>
   fst ` set m \<inter> fst ` set (List.map_filter parsed_cookie parts) = {} \<Longrightarrow>
   foldl map_cookie m parts = m @ List.map_filter identity_pair parts"
proof (induction parts arbitrary: m)
  case (Cons part parts)
  show ?case
  proof (cases "parsed_cookie part")
    case None
    then have "map_cookie m part = m" "identity_pair part = None"
      by (auto simp: parsed_cookie_def map_cookie_def identity_pair_def split: option.splits if_splits)
    with Cons None show ?thesis by simp
  next
    case (Some p)
    then have f: "fst p \<notin> fst ` set m" using Cons.prems(2) by auto
    have "map_cookie m part = (if snd p = [] then m else m @ [p])"
      using Some f
      by (auto simp: parsed_cookie_def map_cookie_def al_put_fresh al_del_fresh
          split: option.splits if_splits)
    moreover have "identity_pair part = (if snd p = [] then None else Some p)"
      using Some by (auto simp: parsed_cookie_def identity_pair_def split: option.splits if_splits)
    ultimately show ?thesis
      using Cons.prems Some Cons.IH [of m] Cons.IH [of "m @ [p]"] by (auto split: if_splits)
  qed
qed simp

lemma foldl_headers:
  "foldl appendRequestCookieMapHeader m headers = foldl map_cookie m (concat (map (split_byte CHR '';'') headers))"
  by (induction headers arbitrary: m) (auto simp: appendRequestCookieMapHeader_def)

lemma requestCookieMap_pairs:
  assumes "distinct (map fst (parsed_cookies headers))"
  shows "requestCookieMap headers = cookie_pairs headers"
  using foldl_map_cookie_fresh [of "concat (map (split_byte CHR '';'') headers)" "[]"] assms
  by (simp add: requestCookieMap_def cookie_pairs_def foldl_headers foldl_append_pairs parsed_cookies_def)

lemma distinct_pairs:
  "distinct (map fst (parsed_cookies headers)) \<Longrightarrow> distinct (map fst (cookie_pairs headers))"
  by (auto simp: cookie_pairs_def foldl_append_pairs identity_pairs_parsed parsed_cookies_def
      intro: distinct_map_filter)

lemma map_fst_sort: "distinct (map fst ps) \<Longrightarrow> map fst (sort ps) = sort (map fst ps)"
  for ps :: "(string \<times> string) list"
proof -
  have "sorted (map fst (sort ps))"
    by (rule sorted_map_mono) (auto intro!: monoI monotone_onI simp: less_eq_prod_def)
  then show ?thesis by (metis mset_map mset_sort properties_for_sort)
qed

lemma identity_from_map:
  assumes "distinct (map fst ps)" and "list_all pair_ok ps"
  shows "canonicalCookieIdentityFromMap ps = join_str '';'' (map cookie_text (sort ps))"
proof -
  have get: "al_get ps (fst p) = Some (snd p)" if "p \<in> set ps" for p
    using that assms(1) al_get_iff [of ps "fst p" "snd p"] by (simp only: al_ok_def prod.collapse)
  have "filter (\<lambda>name. name \<noteq> [] \<and> al_get ps name \<noteq> Some [] \<and> name \<noteq> proxyPathCookieName) (map fst ps) =
      map fst ps"
    using assms(2) get by (auto simp: filter_id_conv list_all_iff pair_ok_def)
  moreover have "map (\<lambda>name. name @ ''='' @ the (al_get ps name)) (map fst (sort ps)) = map cookie_text (sort ps)"
    using get by (auto simp: cookie_text_def)
  ultimately show ?thesis
    by (simp only: canonicalCookieIdentityFromMap_def Let_def map_fst_sort [OF assms(1)])
qed

lemma cookie_map_identity:
  assumes "distinct (map fst (parsed_cookies headers))"
  shows "canonicalCookieIdentityFromMap (requestCookieMap headers) = canonicalCookieIdentity headers"
proof -
  have "list_all pair_ok (cookie_pairs headers)" by (auto simp: list_all_iff dest: cookie_pairs_ok)
  with identity_from_map [OF distinct_pairs [OF assms]] requestCookieMap_pairs [OF assms]
  show ?thesis by (simp add: identity_text)
qed

section \<open>Properties\<close>


text \<open>Two requests with cookies get the same identity key only if they carry the same cookies or
  the hashed texts are a collision of SHA-256.\<close>

theorem cookie_identity_key:
  assumes "canonicalCookieIdentityKey hs = Some k" and "canonicalCookieIdentityKey hs' = Some k"
  shows "mset (cookie_pairs hs) = mset (cookie_pairs hs') \<or>
    (cookie_identity_buffer hs \<noteq> cookie_identity_buffer hs' \<and>
     sha256 (cookie_identity_buffer hs) = sha256 (cookie_identity_buffer hs'))"
proof -
  have "sha256 (cookie_identity_buffer hs) = sha256 (cookie_identity_buffer hs')"
    using assms by (auto simp: canonicalCookieIdentityKey_def sha256HexBytes_def split: if_splits)
  moreover have "cookie_identity_buffer hs = cookie_identity_buffer hs' \<longleftrightarrow>
      mset (cookie_pairs hs) = mset (cookie_pairs hs')"
    by (simp add: identity_buffer identity_eq_iff)
  ultimately show ?thesis by blast
qed

theorem cookie_identity_key_witness:
  "mset (cookie_pairs [''a=1; b=2'']) = mset (cookie_pairs [''b=2'', ''a=1'']) \<or>
    (cookie_identity_buffer [''a=1; b=2''] \<noteq> cookie_identity_buffer [''b=2'', ''a=1''] \<and>
     sha256 (cookie_identity_buffer [''a=1; b=2'']) = sha256 (cookie_identity_buffer [''b=2'', ''a=1'']))"
proof -
  have b: "cookie_identity_buffer [''a=1; b=2''] = cookie_identity_buffer [''b=2'', ''a=1'']" by code_simp
  have ne: "cookie_pairs [''a=1; b=2''] \<noteq> []" "cookie_pairs [''b=2'', ''a=1''] \<noteq> []" by code_simp+
  have k: "canonicalCookieIdentityKey [''a=1; b=2''] =
      Some (sha256HexBytes (cookie_identity_buffer [''b=2'', ''a=1'']))"
    "canonicalCookieIdentityKey [''b=2'', ''a=1''] =
      Some (sha256HexBytes (cookie_identity_buffer [''b=2'', ''a=1'']))"
    using ne b by (simp_all add: canonicalCookieIdentityKey_def)
  show ?thesis by (rule cookie_identity_key [OF k])
qed

text \<open>For a request that names no cookie twice, the identity key computed from the cookie map, which
  decides what a login or logout invalidates, is the key the caches were filled under.\<close>

lemma graph_tail: "graph_char c \<Longrightarrow> space_len_rev (xs @ [c]) \<le> length xs"
  by (cases xs rule: space_len_rev.cases)
    (auto simp: graph_char_def ascii_space_def space2_def space3_def)

lemma trim_left_rev_graph: "graph_char c \<Longrightarrow> trim_left_rev (xs @ [c]) \<noteq> []"
proof (induction xs rule: length_induct)
  case (1 xs)
  let ?k = "space_len_rev (xs @ [c])"
  show ?case
  proof (cases "?k = 0")
    case False
    have k: "?k \<le> length xs" using graph_tail [OF 1(2)] .
    then have "drop ?k (xs @ [c]) = drop ?k xs @ [c]" by simp
    moreover have "length (drop ?k xs) < length xs" using False k by (cases xs) auto
    ultimately show ?thesis using 1 False by (simp add: trim_left_rev.simps [of "xs @ [c]"])
  qed (simp add: trim_left_rev.simps [of "xs @ [c]"])
qed

lemma trim_space_graph_head: "graph_char c \<Longrightarrow> trim_space (c # s) \<noteq> []"
  using trim_left_rev_graph [of c "rev s"]
  by (simp add: trim_space_def trim_right_def trim_left.simps [of "c # s"] space_len_graph)

lemma identity_source_key [simp]:
  "activeIdentityKeyFromSource (''cookie:'' @ v) = sha256HexBytes (''cookie:'' @ v)"
  "activeIdentityKeyFromSource (''auth:'' @ v) = sha256HexBytes (''auth:'' @ v)"
  "activeIdentityKeyFromSource (''ip:'' @ v) = sha256HexBytes (''ip:'' @ v)"
  using trim_space_graph_head [of "CHR ''c''"] trim_space_graph_head [of "CHR ''a''"]
    trim_space_graph_head [of "CHR ''i''"]
  by (simp_all add: activeIdentityKeyFromSource_def graph_char_def byte_def)

theorem identity_from_state:
  assumes "distinct (map fst (parsed_cookies headers))"
  shows "identityKeyFromState (requestCookieMap headers) authorization clientIP =
    requestIdentityKey headers authorization clientIP"
proof -
  have "canonicalCookieIdentity headers = [] \<longleftrightarrow> cookie_pairs headers = []"
    by (metis identity_text cookie_text_nonempty mset_sort mset_zero_iff)
  then show ?thesis
    unfolding identityKeyFromState_def cookie_map_identity [OF assms]
    by (simp add: requestIdentityKey_def requestIdentityForCache_def canonicalCookieIdentityKey_def
        identity_buffer activeIdentityKeyFromParts_def Let_def del: append.simps)
qed

theorem identity_from_state_witness:
  "identityKeyFromState (requestCookieMap [''b=2; a=1'']) [] ''10.0.0.7'' =
   requestIdentityKey [''b=2; a=1''] [] ''10.0.0.7''"
proof -
  have d: "distinct (map fst (parsed_cookies [''b=2; a=1'']))" by code_simp
  show ?thesis by (rule identity_from_state [OF d])
qed

text \<open>With a cookie named twice the two computations differ.\<close>

lemma identity_from_map_duplicate:
  "canonicalCookieIdentity [''a=1; a=2''] = ''a=1;a=2''"
  "canonicalCookieIdentityFromMap (requestCookieMap [''a=1; a=2'']) = ''a=2''"
  by code_simp+

text \<open>A session cookie without a \<^verbatim>\<open>Max-Age\<close> attribute counts as a deletion.\<close>

lemma session_cookie_without_max_age:
  "applySetCookieMutations [] (parseRelevantAuthSetCookies [authSessionCookieName @ ''=s1; Path=/'']) = []"
  by code_simp

end
