(* ===== verification/PublicUrl.thy ===== *)
theory PublicUrl
  imports Http Ascii NetAddr
begin

text \<open>
  The public address of a request as the client sees it, \<^verbatim>\<open>pkg/proxy/public_url.go\<close>: scheme
  from the forwarding headers, host and port, and the redirect to HTTPS.  One function of the
  standard library is a parameter: the \<^verbatim>\<open>scheme\<close> member \<^verbatim>\<open>encoding/json\<close> finds in
  a \<^verbatim>\<open>Cf-Visitor\<close> header that the fast path refuses.
\<close>

record golib =
  gl_json_scheme :: "string \<Rightarrow> string option"

record auth_config =
  ac_AuthPort :: int
  ac_AuthURL :: string
  ac_LoginURL :: string
  ac_LogoutURL :: string
  ac_PreflightURL :: string
  ac_AuthCacheTTL :: int
  ac_AuthCacheFailTTL :: int
  ac_EdgeClientIPEnabled :: bool
  ac_AliyunESAEnabled :: bool
  ac_TencentEdgeOneEnabled :: bool
  ac_PublicAuthBaseURL :: string
  ac_PublicHTTPPort :: int
  ac_PublicHTTPSPort :: int
  ac_AuthHost :: string
  ac_TrustForwardedProto :: bool

section \<open>Scheme\<close>

definition firstForwardedValue :: "string \<Rightarrow> string" where
  "firstForwardedValue v = (if v = [] then [] else trim_space (fst (cut_byte CHR '','' v)))"

text \<open>The key is used as it is written, without canonicalisation.\<close>

definition canonicalHeaderValue :: "header \<Rightarrow> string \<Rightarrow> string" where
  "canonicalHeaderValue h key = (case al_get h key of Some (v # _) \<Rightarrow> v | _ \<Rightarrow> [])"

definition normalizePublicSchemeValue :: "string \<Rightarrow> string" where
  "normalizePublicSchemeValue v =
     (let scheme = trim_space v;
          scheme = (if scheme \<noteq> [] \<and> last scheme = CHR '':'' then trim_space (butlast scheme) else scheme)
      in if length scheme = 4 \<and> equalFoldASCIIString scheme ''http'' then ''http''
         else if length scheme = 5 \<and> equalFoldASCIIString scheme ''https'' then ''https''
         else [])"

fun first_proto_param :: "string \<Rightarrow> string list \<Rightarrow> string" where
  "first_proto_param key [] = []"
| "first_proto_param key (segment # rest) =
     (case cut_byte CHR ''='' segment of (name, rawValue, ok) \<Rightarrow>
        if \<not> ok \<or> \<not> equalFoldASCIIString (trim_space name) key then first_proto_param key rest
        else
          (let normalized = normalizePublicSchemeValue (trim_set (trim_space rawValue) [CHR 0x22]) in
           if normalized \<noteq> [] then normalized else first_proto_param key rest))"

definition forwardedHeaderParam :: "string \<Rightarrow> string \<Rightarrow> string" where
  "forwardedHeaderParam v key0 =
     (let first = firstForwardedValue v; key = trim_space key0 in
      if first = [] \<or> key = [] then [] else first_proto_param key (split_byte CHR '';'' first))"

text \<open>
  \<open>None\<close>: the fast path gives up.  Each round looks for the key \<^verbatim>\<open>"scheme"\<close> further to the
  right; \<open>fuel\<close> is the length of the text, and every round consumes the key.
\<close>

definition scheme_key :: string where
  "scheme_key = CHR 0x22 # ''scheme'' @ [CHR 0x22]"

fun cf_scheme_scan :: "nat \<Rightarrow> string \<Rightarrow> string option" where
  "cf_scheme_scan 0 v = None"
| "cf_scheme_scan (Suc fuel) v =
     (case index_str v scheme_key of
        None \<Rightarrow> None
      | Some idx \<Rightarrow>
          (let after_key = drop (idx + length scheme_key) v;
               r = dropWhile isASCIISpace after_key in
           if r = [] \<or> hd r \<noteq> CHR '':'' then cf_scheme_scan fuel after_key
           else
             (let q = dropWhile isASCIISpace (tl r) in
              if q = [] \<or> byte (hd q) \<noteq> 34 then None
              else
                (let body = tl q; text = takeWhile (\<lambda>c. byte c \<noteq> 34 \<and> byte c \<noteq> 92) body;
                     stop = drop (length text) body in
                 if stop \<noteq> [] \<and> byte (hd stop) = 34 then Some (normalizePublicSchemeValue text)
                 else None))))"

definition cloudflareVisitorSchemeFast :: "string \<Rightarrow> string option" where
  "cloudflareVisitorSchemeFast v = cf_scheme_scan (length v) v"

definition cloudflareVisitorScheme :: "golib \<Rightarrow> string \<Rightarrow> string" where
  "cloudflareVisitorScheme G v0 =
     (let v = trim_space v0 in
      if v = [] then []
      else (case cloudflareVisitorSchemeFast v of
              Some scheme \<Rightarrow> scheme
            | None \<Rightarrow>
                (case gl_json_scheme G v of
                   None \<Rightarrow> []
                 | Some scheme \<Rightarrow> normalizePublicSchemeValue scheme)))"

definition first_nonempty :: "string list \<Rightarrow> string" where
  "first_nonempty xs = (case filter (\<lambda>x. x \<noteq> []) xs of x # _ \<Rightarrow> x | [] \<Rightarrow> [])"

definition publicRequestScheme :: "golib \<Rightarrow> request \<Rightarrow> string" where
  "publicRequestScheme G r =
     (let h = rq_Header r;
          named = (\<lambda>key. normalizePublicSchemeValue (firstForwardedValue (canonicalHeaderValue h key))) in
      first_nonempty
        [forwardedHeaderParam (canonicalHeaderValue h ''Forwarded'') ''proto'',
         named ''X-Forwarded-Proto'', named ''X-Forwarded-Scheme'',
         named ''X-Original-Proto'', named ''X-Original-Scheme'',
         cloudflareVisitorScheme G (canonicalHeaderValue h ''Cf-Visitor''),
         if rq_TLS r then ''https'' else ''http''])"

definition IsPublicHTTPSRequest :: "golib \<Rightarrow> request \<Rightarrow> bool" where
  "IsPublicHTTPSRequest G r = (publicRequestScheme G r = ''https'')"

definition ShouldRedirectHTTPToHTTPS :: "golib \<Rightarrow> request \<Rightarrow> auth_config \<Rightarrow> bool" where
  "ShouldRedirectHTTPToHTTPS G r cfg = (\<not> ac_TrustForwardedProto cfg \<or> \<not> IsPublicHTTPSRequest G r)"

definition normalizedPublicScheme :: "golib \<Rightarrow> request \<Rightarrow> string \<Rightarrow> string" where
  "normalizedPublicScheme G r schemeOverride =
     first_nonempty [normalizePublicSchemeValue schemeOverride, publicRequestScheme G r, ''http'']"

section \<open>Ports\<close>

text \<open>The loops stop at the first bad character or as soon as the value passes 65535.\<close>

fun port_loop :: "nat \<Rightarrow> string \<Rightarrow> nat option" where
  "port_loop n [] = Some n"
| "port_loop n (c # cs) =
     (if \<not> is_digit c then None
      else if n * 10 + digit_val c > 65535 then None
      else port_loop (n * 10 + digit_val c) cs)"

lemma port_loop_code [code]:
  "port_loop n [] = Some n"
  "port_loop n (c # cs) =
     (let v = int n * 10 + int (digit_val c) in
      if \<not> is_digit c \<or> v > 65535 then None else port_loop (nat v) cs)"
  by (auto simp: Let_def nat_add_distrib nat_mult_distrib)

definition isValidPort :: "string \<Rightarrow> bool" where
  "isValidPort v0 =
     (let v = trim_space v0 in
      if v = [] then False
      else
        (let v = (if hd v = CHR ''+'' then tl v else v) in
         if v = [] \<or> length v > 5 then False
         else (case port_loop 0 v of None \<Rightarrow> False | Some n \<Rightarrow> n > 0)))"

text \<open>The results are the port, whether there is one, and whether it is invalid.\<close>

definition validateURLPort :: "string \<Rightarrow> string \<times> bool \<times> bool" where
  "validateURLPort port =
     (if port = [] then ([], False, False)
      else (case port_loop 0 port of
              None \<Rightarrow> ([], False, True)
            | Some n \<Rightarrow> if n = 0 then ([], False, True) else (port, True, False)))"

definition urlAuthorityPort :: "string \<Rightarrow> string \<times> bool \<times> bool" where
  "urlAuthorityPort authority =
     (if authority = [] then ([], False, False)
      else if hd authority = CHR ''['' then
        (case index_byte authority CHR '']'' of
           None \<Rightarrow> ([], False, True)
         | Some closeBracket \<Rightarrow>
             if length authority = closeBracket + 1 then ([], False, False)
             else if authority ! (closeBracket + 1) \<noteq> CHR '':'' then ([], False, True)
             else validateURLPort (drop (closeBracket + 2) authority))
      else (case last_index_byte authority CHR '':'' of
              None \<Rightarrow> ([], False, False)
            | Some colon \<Rightarrow> validateURLPort (drop (colon + 1) authority)))"

definition publicPortFromAuthBaseURL :: "string \<Rightarrow> string \<Rightarrow> string" where
  "publicPortFromAuthBaseURL rawBaseURL scheme =
     (case cut_str (trim_space rawBaseURL) ''://'' of (rawScheme, rest, ok) \<Rightarrow>
        if \<not> ok \<or> rawScheme = [] \<or> \<not> equalFoldASCIIString rawScheme (trim_space scheme) then []
        else
          (let authority = takeWhile (\<lambda>c. c \<notin> set ''/?#'') rest in
           if authority = [] then []
           else
             (let authority = (case last_index_byte authority CHR ''@'' of
                                 Some i \<Rightarrow> drop (Suc i) authority | None \<Rightarrow> authority) in
              if authority = [] then []
              else (case urlAuthorityPort authority of (port, ok, invalid) \<Rightarrow>
                      if \<not> ok \<or> invalid then [] else port))))"

definition configuredPublicPort :: "unicode \<Rightarrow> auth_config \<Rightarrow> string \<Rightarrow> string" where
  "configuredPublicPort U cfg scheme =
     (let s = to_lower U (trim_space scheme) in
      if s = ''http'' \<and> ac_PublicHTTPPort cfg > 0 then nat_str (nat (ac_PublicHTTPPort cfg))
      else if s = ''https'' \<and> ac_PublicHTTPSPort cfg > 0 then nat_str (nat (ac_PublicHTTPSPort cfg))
      else publicPortFromAuthBaseURL (ac_PublicAuthBaseURL cfg) scheme)"

definition forwardedRequestPort :: "request \<Rightarrow> string" where
  "forwardedRequestPort r =
     (let v = firstForwardedValue (canonicalHeaderValue (rq_Header r) ''X-Forwarded-Port'') in
      if isValidPort v then v else [])"

definition resolvedPublicPort :: "unicode \<Rightarrow> request \<Rightarrow> auth_config \<Rightarrow> string \<Rightarrow> string \<Rightarrow> string" where
  "resolvedPublicPort U r cfg scheme requestHostPort =
     first_nonempty [configuredPublicPort U cfg scheme, forwardedRequestPort r,
                     if isValidPort requestHostPort then requestHostPort else []]"

section \<open>Hosts\<close>

definition splitRequestHostPortFast :: "string \<Rightarrow> (string \<times> string) option" where
  "splitRequestHostPortFast host =
     (if contains_any host ''/?#@'' then None
      else if hasPrefix host ''['' then
        (case last_index_byte host CHR '']'' of
           None \<Rightarrow> None
         | Some idx \<Rightarrow>
             if idx \<le> 1 then None
             else
               (let hostname = drop 1 (take idx host); rest = drop (idx + 1) host in
                if hostname = [] \<or> contains_any hostname ''[]'' then None
                else if rest = [] then Some (hostname, [])
                else if length rest > 1 \<and> hd rest = CHR '':'' \<and> tl rest = trim_space (tl rest) \<and>
                        isValidPort (tl rest) then Some (hostname, tl rest)
                else None))
      else (case index_byte host CHR '':'' of
              None \<Rightarrow> Some (host, [])
            | Some idx \<Rightarrow>
                if idx = 0 \<or> CHR '':'' \<in> set (drop (idx + 1) host) then None
                else
                  (let hostname = take idx host; port = drop (idx + 1) host in
                   if hostname \<noteq> trim_space hostname \<or> port = [] \<or> port \<noteq> trim_space port \<or>
                      \<not> isValidPort port then None
                   else Some (hostname, port))))"

definition splitRequestHostPort :: "string \<Rightarrow> string \<times> string" where
  "splitRequestHostPort host0 =
     (let host = trim_space host0 in
      if host = [] then ([], [])
      else (case splitRequestHostPortFast host of
              Some hp \<Rightarrow> hp
            | None \<Rightarrow>
                (case url_parse (''//'' @ host) of
                   None \<Rightarrow> (host, [])
                 | Some parsed \<Rightarrow>
                     if url_hostname parsed = [] then (host, []) else (url_hostname parsed, url_port parsed))))"

definition defaultPortForScheme :: "unicode \<Rightarrow> string \<Rightarrow> string" where
  "defaultPortForScheme U scheme =
     (let s = to_lower U (trim_space scheme) in
      if s = ''http'' then ''80'' else if s = ''https'' then ''443'' else [])"

definition formatURLHost :: "unicode \<Rightarrow> string \<Rightarrow> string \<Rightarrow> string \<Rightarrow> string" where
  "formatURLHost U hostname port scheme =
     (if hostname = [] then []
      else if port = [] \<or> port = defaultPortForScheme U scheme then
        (if contains_str hostname '':'' then ''['' @ hostname @ '']'' else hostname)
      else join_host_port hostname port)"

definition publicRequestHostHeader :: "request \<Rightarrow> string" where
  "publicRequestHostHeader r =
     (let forwardedHost = firstForwardedValue (canonicalHeaderValue (rq_Header r) ''X-Forwarded-Host'') in
      if forwardedHost \<noteq> [] then trim_space forwardedHost else trim_space (rq_Host r))"

definition publicRequestHost :: "unicode \<Rightarrow> request \<Rightarrow> auth_config \<Rightarrow> string \<Rightarrow> string" where
  "publicRequestHost U r cfg scheme =
     (let requestHost = publicRequestHostHeader r in
      case splitRequestHostPort requestHost of (hostname, hostPort) \<Rightarrow>
        if hostname = [] then trim_space requestHost
        else formatURLHost U hostname (resolvedPublicPort U r cfg scheme hostPort) scheme)"

definition buildPublicRequestURL :: "golib \<Rightarrow> unicode \<Rightarrow> request option \<Rightarrow> auth_config \<Rightarrow> string \<Rightarrow> url option" where
  "buildPublicRequestURL G U r0 cfg schemeOverride =
     (case r0 of
        None \<Rightarrow> None
      | Some r \<Rightarrow>
          (let scheme = normalizedPublicScheme G r schemeOverride;
               host = publicRequestHost U r cfg scheme;
               host = (if host = [] then trim_space (rq_Host r) else host) in
           Some (zero_url\<lparr>u_Scheme := scheme, u_Host := host, u_Path := u_Path (rq_URL r),
                          u_RawQuery := u_RawQuery (rq_URL r)\<rparr>)))"

definition BuildHTTPSRedirectURL :: "golib \<Rightarrow> unicode \<Rightarrow> request option \<Rightarrow> auth_config \<Rightarrow> string" where
  "BuildHTTPSRedirectURL G U r cfg =
     (case buildPublicRequestURL G U r cfg ''https'' of None \<Rightarrow> [] | Some u \<Rightarrow> url_string u)"

section \<open>Ports are numbers from 1 to 65535\<close>

definition dec_from :: "nat \<Rightarrow> string \<Rightarrow> nat" where
  "dec_from n s = foldl (\<lambda>a c. a * 10 + digit_val c) n s"

lemma dec_from_mono: "n \<le> dec_from n s"
proof (induction s arbitrary: n)
  case (Cons c s)
  have "n \<le> n * 10 + digit_val c" by simp
  also have "\<dots> \<le> dec_from (n * 10 + digit_val c) s" by (rule Cons.IH)
  finally show ?case by (simp add: dec_from_def)
qed (simp add: dec_from_def)

lemma dec_from_0: "dec_from 0 s = dec_val s"
  by (simp add: dec_from_def dec_val_def num_val_def)

lemma port_loop_eq:
  "n \<le> 65535 \<Longrightarrow> port_loop n s =
     (if list_all is_digit s \<and> dec_from n s \<le> 65535 then Some (dec_from n s) else None)"
proof (induction s arbitrary: n)
  case (Cons c s)
  show ?case
  proof (cases "n * 10 + digit_val c \<le> 65535")
    case True
    then show ?thesis using Cons.IH [OF True] by (auto simp: dec_from_def)
  next
    case False
    have "n * 10 + digit_val c \<le> dec_from n (c # s)"
      using dec_from_mono [of "n * 10 + digit_val c" s] by (simp add: dec_from_def)
    with False show ?thesis by auto
  qed
qed (simp add: dec_from_def)

lemma port_loop_0: "port_loop 0 s = (if list_all is_digit s \<and> dec_val s \<le> 65535 then Some (dec_val s) else None)"
  using port_loop_eq [of 0 s] by (simp add: dec_from_0)

definition port_text :: "string \<Rightarrow> bool" where
  "port_text p = (p \<noteq> [] \<and> list_all is_digit p \<and> 1 \<le> dec_val p \<and> dec_val p \<le> 65535)"

lemma graph_digits: "list_all is_digit p \<Longrightarrow> trim_space p = p"
  by (rule trim_space_graph_all) (auto simp: list_all_iff graph_char_def is_digit_def)

lemma isValidPort_iff:
  "isValidPort v \<longleftrightarrow>
     (\<exists>p. port_text p \<and> length p \<le> 5 \<and> (trim_space v = p \<or> trim_space v = CHR ''+'' # p))"
proof -
  have plus: "\<not> is_digit CHR ''+''" by (simp add: is_digit_def byte_def)
  show ?thesis
  proof (cases "trim_space v")
    case Nil
    then show ?thesis by (auto simp: isValidPort_def port_text_def)
  next
    case (Cons c r)
    then show ?thesis
      using plus by (cases "c = CHR ''+''")
        (auto simp: isValidPort_def port_text_def port_loop_0 Let_def simp del: port_loop.simps split: if_splits)
  qed
qed

lemma validateURLPort_iff: "validateURLPort p = (q, True, False) \<longleftrightarrow> port_text p \<and> q = p"
  by (auto simp: validateURLPort_def port_loop_0 port_text_def)

lemma port_text_valid: "port_text p \<Longrightarrow> length p \<le> 5 \<Longrightarrow> isValidPort p"
  by (auto simp: isValidPort_iff port_text_def graph_digits intro!: exI [of _ p])

section \<open>Properties\<close>

lemma normalizePublicSchemeValue_cases:
  "normalizePublicSchemeValue v \<in> {[], ''http'', ''https''}"
  by (simp add: normalizePublicSchemeValue_def Let_def)

lemma first_proto_param_cases: "first_proto_param key segs \<in> {[], ''http'', ''https''}"
proof (induction segs)
  case (Cons s segs)
  show ?case
    using Cons normalizePublicSchemeValue_cases
      [of "trim_set (trim_space (fst (snd (cut_byte CHR ''='' s)))) [CHR 0x22]"]
    by (auto simp: Let_def split: prod.split)
qed simp

lemma cf_scheme_scan_cases: "cf_scheme_scan n v = Some s \<Longrightarrow> s \<in> {[], ''http'', ''https''}"
proof (induction n arbitrary: v)
  case (Suc n)
  then show ?case
    using normalizePublicSchemeValue_cases by (fastforce simp: Let_def split: option.splits if_splits)
qed simp

lemma first_nonempty_simps [simp]:
  "first_nonempty [] = []"
  "first_nonempty (x # xs) = (if x \<noteq> [] then x else first_nonempty xs)"
  by (simp_all add: first_nonempty_def)

lemma first_nonempty_in: "first_nonempty xs = [] \<or> first_nonempty xs \<in> set xs"
  by (induction xs) auto

lemma first_nonempty_last: "x \<noteq> [] \<Longrightarrow> first_nonempty (xs @ [x]) \<noteq> []"
  by (induction xs) auto

text \<open>Whatever a client puts into the forwarding headers, the scheme of a request is
  \<^verbatim>\<open>http\<close> or \<^verbatim>\<open>https\<close>; no header text reaches a URL the proxy builds.\<close>

theorem public_scheme_closed:
  "publicRequestScheme G r \<in> {''http'', ''https''}"
proof -
  define named where "named key = normalizePublicSchemeValue
      (firstForwardedValue (canonicalHeaderValue (rq_Header r) key))" for key
  define cf where "cf = cloudflareVisitorScheme G (canonicalHeaderValue (rq_Header r) ''Cf-Visitor'')"
  define fwd where "fwd = forwardedHeaderParam (canonicalHeaderValue (rq_Header r) ''Forwarded'') ''proto''"
  define tls where "tls = (if rq_TLS r then ''https'' else ''http'')"
  define xs where "xs = [fwd, named ''X-Forwarded-Proto'', named ''X-Forwarded-Scheme'',
    named ''X-Original-Proto'', named ''X-Original-Scheme'', cf]"
  have p: "publicRequestScheme G r = first_nonempty (xs @ [tls])"
    by (simp only: publicRequestScheme_def Let_def xs_def fwd_def named_def cf_def tls_def append.simps)
  have cf: "cf \<in> {[], ''http'', ''https''}"
    using normalizePublicSchemeValue_cases cf_scheme_scan_cases
    by (auto simp: cf_def cloudflareVisitorScheme_def cloudflareVisitorSchemeFast_def Let_def split: option.split)
  have fwd: "fwd \<in> {[], ''http'', ''https''}"
    using first_proto_param_cases by (auto simp: fwd_def forwardedHeaderParam_def Let_def)
  have named: "named key \<in> {[], ''http'', ''https''}" for key
    unfolding named_def by (rule normalizePublicSchemeValue_cases)
  have tls: "tls \<in> {[], ''http'', ''https''}" "tls \<noteq> []" by (simp_all add: tls_def)
  have "set (xs @ [tls]) \<subseteq> {[], ''http'', ''https''}"
    using cf fwd named tls(1) by (simp only: xs_def set_append list.set Un_insert_left insert_subset Un_empty_left) blast
  moreover have "first_nonempty (xs @ [tls]) \<noteq> []" using tls(2) by (rule first_nonempty_last)
  ultimately show ?thesis unfolding p using first_nonempty_in [of "xs @ [tls]"] by blast
qed

text \<open>The two port checks accept decimal numbers from 1 to 65535: the check of URL authorities
  those texts exactly, the check of header values also white space around and a plus sign before.\<close>

theorem port_checks:
  "(validateURLPort v = (v, True, False) \<longleftrightarrow> port_text v) \<and>
   (isValidPort v \<longleftrightarrow>
     (\<exists>p. port_text p \<and> length p \<le> 5 \<and> (trim_space v = p \<or> trim_space v = CHR ''+'' # p)))"
  using validateURLPort_iff isValidPort_iff by blast

definition host_text :: "string \<Rightarrow> bool" where
  "host_text h = (h \<noteq> [] \<and> set h \<inter> set ''/?#@[]'' = {} \<and> trim_space h = h)"

lemma index_byte_append: "c \<notin> set p \<Longrightarrow> index_byte (p @ c # r) c = Some (length p)"
  by (induction p) auto

lemma index_byte_None: "index_byte s c = None \<longleftrightarrow> c \<notin> set s"
  by (induction s) auto

lemma contains_str_byte: "contains_str s [c] \<longleftrightarrow> c \<in> set s"
  by (induction s) (auto simp: contains_str_def)

lemma port_text_chars: "port_text p \<Longrightarrow> c \<in> set p \<Longrightarrow> is_digit c"
  by (auto simp: port_text_def list_all_iff)

lemma port_text_sep:
  "port_text p \<Longrightarrow> set p \<inter> set ''/?#@[]:'' = {}"
  by (auto simp: port_text_def list_all_iff is_digit_def byte_def)

lemma split_format_host:
  assumes h: "host_text h" and p: "p = [] \<or> port_text p \<and> length p \<le> 5"
  shows "splitRequestHostPortFast
      (if p = [] then (if CHR '':'' \<in> set h then ''['' @ h @ '']'' else h) else join_host_port h p) = Some (h, p)"
proof -
  have hc: "c \<notin> set h" if "c \<in> set ''/?#@[]''" for c using h that by (auto simp: host_text_def)
  have any: "\<not> contains_any h ''/?#@''" "\<not> contains_any h ''[]''"
    using hc by (auto simp: contains_any_def list_ex_iff)
  have pany: "\<not> contains_any p ''/?#@''" "CHR '']'' \<notin> set p" "CHR '':'' \<notin> set p"
    using p port_text_sep [of p] by (auto simp: contains_any_def list_ex_iff)
  have app: "contains_any (xs @ ys) cs \<longleftrightarrow> contains_any xs cs \<or> contains_any ys cs" for xs ys cs
    by (simp add: contains_any_def)
  have valid: "p \<noteq> [] \<Longrightarrow> isValidPort p \<and> trim_space p = p"
    using p port_text_valid by (auto simp: port_text_def graph_digits)
  have ne: "h \<noteq> []" "trim_space h = h" using h by (auto simp: host_text_def)
  have hd: "\<not> hasPrefix (h @ r) ''[''" for r
    using ne hc [of "CHR ''[''"] by (cases h) (auto simp: hasPrefix_def)
  show ?thesis
  proof (cases "CHR '':'' \<in> set h")
    case True
    have v6: "last_index_byte (''['' @ h @ '']'' @ r) CHR '']'' = Some (length h + 1)" if "CHR '']'' \<notin> set r" for r
      using last_index_byte_append [OF that, of "''['' @ h"] by simp
    have b: "contains_any (''['' @ h @ '']'' @ r) ''/?#@'' \<longleftrightarrow> contains_any r ''/?#@''" for r
      using any(1) by (simp add: app) (simp add: contains_any_def)
    show ?thesis
    proof (cases "p = []")
      case True': True
      show ?thesis
        using v6 [of "[]"] b [of "[]"] any ne True True'
        by (simp add: splitRequestHostPortFast_def hasPrefix_def) (simp add: contains_any_def)
    next
      case False
      have "contains_any (CHR '':'' # p) ''/?#@'' = False" "CHR '']'' \<notin> set (CHR '':'' # p)"
        using pany by (simp_all add: contains_any_def)
      with v6 [of "CHR '':'' # p"] b [of "CHR '':'' # p"] show ?thesis
        using any ne valid [OF False] True False
        by (simp add: splitRequestHostPortFast_def join_host_port_def hasPrefix_def Let_def)
    qed
  next
    case False
    show ?thesis
    proof (cases "p = []")
      case True
      then show ?thesis using any hd [of "[]"] False
        by (simp add: splitRequestHostPortFast_def index_byte_None [THEN iffD2])
    next
      case False': False
      have "\<not> contains_any (h @ CHR '':'' # p) ''/?#@''"
        using any pany by (simp add: contains_any_def)
      with hd [of "CHR '':'' # p"] index_byte_append [OF False, of p] show ?thesis
        using False False' ne valid [OF False'] pany
        by (simp add: splitRequestHostPortFast_def join_host_port_def Let_def)
    qed
  qed
qed

text \<open>The redirect to HTTPS goes to the same path and query, and to the host of the request with
  the public port: reading the target's host gives back the request's host name, with no port
  if it is 443.\<close>

theorem https_redirect_target:
  assumes "splitRequestHostPort (publicRequestHostHeader r) = (hostname, hostPort)"
    and "port = resolvedPublicPort U r cfg ''https'' hostPort"
    and "host_text hostname" and "port = [] \<or> port_text port \<and> length port \<le> 5"
    and "buildPublicRequestURL G U (Some r) cfg ''https'' = Some u"
  shows "u_Scheme u = ''https'' \<and> u_Path u = u_Path (rq_URL r) \<and> u_RawQuery u = u_RawQuery (rq_URL r) \<and>
    splitRequestHostPortFast (u_Host u) = Some (hostname, if port = ''443'' then [] else port)"
proof -
  have n: "normalizePublicSchemeValue ''https'' = ''https''" by code_simp
  then have s: "normalizedPublicScheme G r ''https'' = ''https''" by (simp add: normalizedPublicScheme_def)
  have a: "is_ascii (trim_space ''https'')" "map lowerASCII (trim_space ''https'') = ''https''" by code_simp+
  have d: "defaultPortForScheme U ''https'' = ''443''"
    using a by (simp add: defaultPortForScheme_def to_lower_ascii)
  have ne: "hostname \<noteq> []" using assms(3) by (simp add: host_text_def)
  let ?p = "if port = ''443'' then [] else port"
  have f: "formatURLHost U hostname port ''https'' =
      (if ?p = [] then (if CHR '':'' \<in> set hostname then ''['' @ hostname @ '']'' else hostname)
       else join_host_port hostname ?p)"
    using ne by (simp add: formatURLHost_def d contains_str_byte)
  have h: "publicRequestHost U r cfg ''https'' = formatURLHost U hostname port ''https''"
    using assms(1,2) ne by (simp add: publicRequestHost_def)
  have pt: "?p = [] \<or> port_text ?p \<and> length ?p \<le> 5" using assms(4) by simp
  have sp: "splitRequestHostPortFast (formatURLHost U hostname port ''https'') = Some (hostname, ?p)"
    unfolding f by (rule split_format_host [OF assms(3) pt])
  moreover have "formatURLHost U hostname port ''https'' \<noteq> []"
    unfolding f using ne by (simp add: join_host_port_def)
  ultimately show ?thesis using assms(5) s h by (auto simp: buildPublicRequestURL_def Let_def)
qed

definition plain_golib :: golib where
  "plain_golib = \<lparr>gl_json_scheme = (\<lambda>_. None)\<rparr>"

definition plain_config :: auth_config where
  "plain_config = \<lparr>ac_AuthPort = 7997, ac_AuthURL = ''/api/auth/verify'', ac_LoginURL = ''/login'',
     ac_LogoutURL = ''/logout'', ac_PreflightURL = [], ac_AuthCacheTTL = 0, ac_AuthCacheFailTTL = 0,
     ac_EdgeClientIPEnabled = False, ac_AliyunESAEnabled = False, ac_TencentEdgeOneEnabled = False,
     ac_PublicAuthBaseURL = [], ac_PublicHTTPPort = 0, ac_PublicHTTPSPort = 81, ac_AuthHost = [],
     ac_TrustForwardedProto = False\<rparr>"

definition plain_request :: request where
  "plain_request = \<lparr>rq_Method = ''GET'', rq_Host = ''app.example:80'', rq_Header = [],
     rq_URL = zero_url\<lparr>u_Path := ''/x''\<rparr>, rq_TLS = False, rq_RemoteAddr = ''8.8.8.8:5000''\<rparr>"

theorem https_redirect_target_witness:
  "splitRequestHostPortFast (publicRequestHost plain_unicode plain_request plain_config ''https'') =
     Some (''app.example'', ''81'')"
proof -
  have s: "splitRequestHostPort (publicRequestHostHeader plain_request) = (''app.example'', ''80'')"
    by code_simp
  have p: "''81'' = resolvedPublicPort plain_unicode plain_request plain_config ''https'' ''80''" by code_simp
  have h: "host_text ''app.example''" by code_simp
  have t: "''81'' = [] \<or> port_text ''81'' \<and> length ''81'' \<le> 5"
  proof -
    have "dec_val ''81'' = 81" by code_simp
    then show ?thesis by (simp add: port_text_def is_digit_def byte_def)
  qed
  have n: "publicRequestHost plain_unicode plain_request plain_config ''https'' \<noteq> []" by code_simp
  have q: "normalizedPublicScheme plain_golib plain_request ''https'' = ''https''" by code_simp
  obtain u where u: "buildPublicRequestURL plain_golib plain_unicode (Some plain_request) plain_config ''https'' = Some u"
      and uh: "u_Host u = publicRequestHost plain_unicode plain_request plain_config ''https''"
    using n q by (simp add: buildPublicRequestURL_def Let_def)
  show ?thesis using https_redirect_target [OF s p h t u] uh by simp
qed

end
