(* ===== verification/AuthCache.thy ===== *)
theory AuthCache
  imports Cookies PublicUrl
begin

text \<open>
  The caches of authentication results and of preflight decisions, \<^verbatim>\<open>pkg/proxy/auth_cache.go\<close>.
  The source writes the cache twice, once per type of entry; here it is written once, for any
  record that extends \<open>cached\<close>, and used at both types.  A cache maps keys to entries and
  identities to the keys stored under them.  The lemmas show that an answer from the cache was
  stored before, and that neither an invalidation of its identity nor an overwriting, a deletion
  or a clearing came in between.
\<close>

section \<open>Entries and caches\<close>

record cached =
  en_expiresAt :: time
  en_identityKey :: string

record credential_identity =
  ci_credentialID :: string
  ci_credentialName :: string
  ci_credentialMethod :: string
  ci_linkedTOTPID :: string
  ci_linkedTOTPName :: string

record auth_result =
  ar_allowed :: bool
  ar_authenticated :: bool
  ar_suppressToolbar :: bool
  ar_decision :: string
  ar_subdomainAccessCustom :: bool
  ar_allowedSubdomainHosts :: "string list"
  ar_credentialIdentity :: credential_identity

record preflight_decision =
  pd_deny :: bool
  pd_redirectLocation :: string
  pd_accessDeniedReason :: string
  pd_credentialIdentity :: credential_identity

record auth_entry = cached +
  ae_result :: auth_result
  ae_setCookies :: "string list"
  ae_redirectLocation :: string
  ae_abortConnection :: bool

record preflight_entry = cached +
  pe_decision :: preflight_decision

record 'e state_cache =
  st_entries :: "(string \<times> 'e) list"
  st_keysByIdentity :: "(string \<times> string list) list"
  st_lastCleanup :: time

definition newStateCache :: "'e state_cache" where
  "newStateCache = \<lparr>st_entries = [], st_keysByIdentity = [], st_lastCleanup = zero_time\<rparr>"

definition authCacheCleanupInterval :: duration where
  "authCacheCleanupInterval = 30 * second"

section \<open>Operations\<close>

definition identity_keys :: "'e state_cache \<Rightarrow> string \<Rightarrow> string list" where
  "identity_keys c ident = (case al_get (st_keysByIdentity c) ident of Some ks \<Rightarrow> ks | None \<Rightarrow> [])"

definition deleteEntry :: "string \<Rightarrow> 'a cached_scheme state_cache \<Rightarrow> 'a cached_scheme state_cache" where
  "deleteEntry cacheKey c =
     (case al_get (st_entries c) cacheKey of
        None \<Rightarrow> c
      | Some entry \<Rightarrow>
          (let c = c\<lparr>st_entries := al_del cacheKey (st_entries c)\<rparr> in
           if en_identityKey entry = [] then c
           else
             (let ks = filter (\<lambda>k. k \<noteq> cacheKey) (identity_keys c (en_identityKey entry)) in
              c\<lparr>st_keysByIdentity :=
                 (if ks = [] then al_del (en_identityKey entry) (st_keysByIdentity c)
                  else al_put (en_identityKey entry) ks (st_keysByIdentity c))\<rparr>)))"

definition cleanupExpired :: "time \<Rightarrow> 'a cached_scheme state_cache \<Rightarrow> 'a cached_scheme state_cache" where
  "cleanupExpired now c =
     (if \<not> time_is_zero (st_lastCleanup c) \<and> time_sub now (st_lastCleanup c) < authCacheCleanupInterval then c
      else (foldl (\<lambda>c k. deleteEntry k c) c
              (map fst (filter (\<lambda>(k, e). \<not> now < en_expiresAt e) (st_entries c))))
           \<lparr>st_lastCleanup := now\<rparr>)"

definition cacheGet :: "string \<Rightarrow> time \<Rightarrow> 'a cached_scheme state_cache \<Rightarrow>
    'a cached_scheme option \<times> 'a cached_scheme state_cache" where
  "cacheGet cacheKey now c =
     (case al_get (st_entries c) cacheKey of
        None \<Rightarrow> (None, c)
      | Some entry \<Rightarrow>
          if \<not> now < en_expiresAt entry then (None, deleteEntry cacheKey c) else (Some entry, c))"

definition insertEntry :: "string \<Rightarrow> 'a cached_scheme \<Rightarrow> 'a cached_scheme state_cache \<Rightarrow>
    'a cached_scheme state_cache" where
  "insertEntry cacheKey entry c =
     (let c = c\<lparr>st_entries := al_put cacheKey entry (st_entries c)\<rparr>;
          ident = en_identityKey entry;
          ks = identity_keys c ident
      in if ident = [] then c
         else c\<lparr>st_keysByIdentity :=
                 al_put ident (if cacheKey \<in> set ks then ks else ks @ [cacheKey]) (st_keysByIdentity c)\<rparr>)"

definition cacheStore :: "string \<Rightarrow> 'a cached_scheme \<Rightarrow> time \<Rightarrow> 'a cached_scheme state_cache \<Rightarrow>
    'a cached_scheme state_cache" where
  "cacheStore cacheKey entry now c = cleanupExpired now (insertEntry cacheKey entry c)"

definition invalidateIdentity :: "'a cached_scheme state_cache \<Rightarrow> string \<Rightarrow> 'a cached_scheme state_cache" where
  "invalidateIdentity c ident =
     (if ident = [] then c else foldl (\<lambda>c k. deleteEntry k c) c (identity_keys c ident))"

definition invalidateIdentities :: "string list \<Rightarrow> 'a cached_scheme state_cache \<Rightarrow> 'a cached_scheme state_cache" where
  "invalidateIdentities idents c = foldl invalidateIdentity c idents"

text \<open>The two caches of the handler, and the operations on both.\<close>

record auth_caches =
  hc_auth :: "auth_entry state_cache"
  hc_preflight :: "preflight_entry state_cache"

definition authCacheGet :: "string \<Rightarrow> time \<Rightarrow> auth_entry state_cache \<Rightarrow> auth_entry option \<times> auth_entry state_cache" where
  "authCacheGet = cacheGet"

definition preflightCacheGet ::
    "string \<Rightarrow> time \<Rightarrow> preflight_entry state_cache \<Rightarrow> preflight_entry option \<times> preflight_entry state_cache" where
  "preflightCacheGet = cacheGet"

definition authCacheStore :: "string \<Rightarrow> auth_entry \<Rightarrow> time \<Rightarrow> auth_entry state_cache \<Rightarrow> auth_entry state_cache" where
  "authCacheStore = cacheStore"

definition preflightCacheStore ::
    "string \<Rightarrow> preflight_entry \<Rightarrow> time \<Rightarrow> preflight_entry state_cache \<Rightarrow> preflight_entry state_cache" where
  "preflightCacheStore = cacheStore"

definition authCacheInvalidateByIdentityKeys ::
    "string list \<Rightarrow> 'a auth_caches_scheme \<Rightarrow> 'a auth_caches_scheme" where
  "authCacheInvalidateByIdentityKeys idents h =
     h\<lparr>hc_auth := invalidateIdentities idents (hc_auth h),
       hc_preflight := invalidateIdentities idents (hc_preflight h)\<rparr>"

definition clearAuthCache :: "'a auth_caches_scheme \<Rightarrow> 'a auth_caches_scheme" where
  "clearAuthCache h = h\<lparr>hc_auth := newStateCache, hc_preflight := newStateCache\<rparr>"

section \<open>What a cache holds\<close>

abbreviation cache_look :: "'e state_cache \<Rightarrow> string \<Rightarrow> 'e option" where
  "cache_look c \<equiv> al_get (st_entries c)"

text \<open>Every entry is listed under its identity: what an invalidation relies on.\<close>

definition cache_ok :: "'a cached_scheme state_cache \<Rightarrow> bool" where
  "cache_ok c \<longleftrightarrow>
     al_ok (st_entries c) \<and>
     (\<forall>k e. cache_look c k = Some e \<longrightarrow> en_identityKey e \<noteq> [] \<longrightarrow> k \<in> set (identity_keys c (en_identityKey e)))"

lemma identity_keys_upd:
  "identity_keys (c\<lparr>st_entries := es\<rparr>) = identity_keys c"
  "identity_keys (c\<lparr>st_lastCleanup := t\<rparr>) = identity_keys c"
  by (rule ext, simp add: identity_keys_def)+

lemma identity_keys_put:
  "identity_keys (c\<lparr>st_keysByIdentity := al_put i ks (st_keysByIdentity c)\<rparr>) j =
     (if j = i then ks else identity_keys c j)"
  by (simp add: identity_keys_def al_get_put)

lemma identity_keys_del:
  "identity_keys (c\<lparr>st_keysByIdentity := al_del i (st_keysByIdentity c)\<rparr>) j =
     (if j = i then [] else identity_keys c j)"
  by (simp add: identity_keys_def al_get_del)

lemma look_delete: "cache_look (deleteEntry k c) j = (if j = k then None else cache_look c j)"
  by (simp add: deleteEntry_def Let_def al_get_del split: option.split)

lemma keys_delete:
  "set (identity_keys (deleteEntry k c) i) =
     (case cache_look c k of
        Some e \<Rightarrow> if en_identityKey e \<noteq> [] \<and> en_identityKey e = i
                  then set (identity_keys c i) - {k} else set (identity_keys c i)
      | None \<Rightarrow> set (identity_keys c i))"
proof -
  have "identity_keys (c\<lparr>st_entries := es, st_keysByIdentity := x\<rparr>) i =
      identity_keys (c\<lparr>st_keysByIdentity := x\<rparr>) i" for es x
    by (simp add: identity_keys_def)
  then show ?thesis
    by (auto simp: deleteEntry_def Let_def identity_keys_upd identity_keys_put identity_keys_del
        filter_empty_conv split: option.split)
qed

lemma ok_delete [intro]: "cache_ok c \<Longrightarrow> cache_ok (deleteEntry k c)"
proof -
  assume ok: "cache_ok c"
  then have "al_ok (st_entries (deleteEntry k c))"
    by (auto simp: cache_ok_def deleteEntry_def Let_def split: option.split)
  then show ?thesis
    using ok by (auto simp: cache_ok_def look_delete keys_delete split: option.split)
qed

lemma look_delete_all:
  "cache_look (foldl (\<lambda>c k. deleteEntry k c) c ks) j = (if j \<in> set ks then None else cache_look c j)"
  by (induction ks arbitrary: c) (auto simp: look_delete)

lemma ok_delete_all [intro]: "cache_ok c \<Longrightarrow> cache_ok (foldl (\<lambda>c k. deleteEntry k c) c ks)"
  by (induction ks arbitrary: c) auto

lemma ok_cleanup_stamp: "cache_ok c \<Longrightarrow> cache_ok (c\<lparr>st_lastCleanup := t\<rparr>)"
  by (simp add: cache_ok_def identity_keys_upd)

lemma ok_cleanup [intro]: "cache_ok c \<Longrightarrow> cache_ok (cleanupExpired now c)"
  by (auto simp: cleanupExpired_def intro!: ok_cleanup_stamp)

lemma look_cleanup: "cache_look (cleanupExpired now c) j = Some e \<Longrightarrow> cache_look c j = Some e"
  by (auto simp: cleanupExpired_def look_delete_all split: if_splits)

text \<open>A sweep removes expired entries only.\<close>

lemma look_cleanup_live:
  assumes "cache_ok c" and "cache_look c j = Some e" and "now < en_expiresAt e"
  shows "cache_look (cleanupExpired now c) j = Some e"
proof -
  have "j \<notin> fst ` set (filter (\<lambda>(k, e). \<not> now < en_expiresAt e) (st_entries c))"
    using assms by (force simp: cache_ok_def al_get_iff al_ok_def dest: eq_key_imp_eq_value)
  then show ?thesis using assms by (simp add: cleanupExpired_def look_delete_all)
qed

lemma look_insert: "cache_look (insertEntry k e c) j = (if j = k then Some e else cache_look c j)"
  by (simp add: insertEntry_def Let_def al_get_put)

lemma keys_insert:
  "set (identity_keys (insertEntry k e c) i) =
     (if en_identityKey e \<noteq> [] \<and> i = en_identityKey e then insert k (set (identity_keys c i))
      else set (identity_keys c i))"
proof -
  have "identity_keys (c\<lparr>st_entries := es, st_keysByIdentity := x\<rparr>) i =
      identity_keys (c\<lparr>st_keysByIdentity := x\<rparr>) i" for es x
    by (simp add: identity_keys_def)
  then show ?thesis by (auto simp: insertEntry_def Let_def identity_keys_upd identity_keys_put)
qed

lemma ok_insert [intro]: "cache_ok c \<Longrightarrow> cache_ok (insertEntry k e c)"
proof -
  assume ok: "cache_ok c"
  then have "al_ok (st_entries (insertEntry k e c))" by (auto simp: cache_ok_def insertEntry_def Let_def)
  moreover have "j \<in> set (identity_keys (insertEntry k e c) (en_identityKey x))"
    if l: "cache_look (insertEntry k e c) j = Some x" and n: "en_identityKey x \<noteq> []" for j x
  proof (cases "j = k")
    case True
    with l n show ?thesis by (simp add: look_insert keys_insert)
  next
    case False
    with l n ok have "j \<in> set (identity_keys c (en_identityKey x))" by (auto simp: look_insert cache_ok_def)
    then show ?thesis using n by (cases "en_identityKey x = en_identityKey e") (simp_all add: keys_insert)
  qed
  ultimately show ?thesis by (simp add: cache_ok_def)
qed

lemma ok_store [intro]: "cache_ok c \<Longrightarrow> cache_ok (cacheStore k e now c)"
  by (auto simp: cacheStore_def)

lemma look_store:
  "cache_look (cacheStore k e now c) j = Some x \<Longrightarrow> if j = k then x = e else cache_look c j = Some x"
  by (auto simp: cacheStore_def look_insert dest!: look_cleanup split: if_splits)

lemma look_store_live:
  "cache_ok c \<Longrightarrow> now < en_expiresAt e \<Longrightarrow> cache_look (cacheStore k e now c) k = Some e"
  unfolding cacheStore_def by (rule look_cleanup_live) (auto simp: look_insert)

lemma look_get: "cache_look (snd (cacheGet k now c)) j = Some e \<Longrightarrow> cache_look c j = Some e"
  by (auto simp: cacheGet_def look_delete split: option.splits if_splits)

lemma get_hit: "fst (cacheGet k now c) = Some e \<longleftrightarrow> cache_look c k = Some e \<and> now < en_expiresAt e"
  by (auto simp: cacheGet_def split: option.split)

lemma ok_get [intro]: "cache_ok c \<Longrightarrow> cache_ok (snd (cacheGet k now c))"
  by (auto simp: cacheGet_def split: option.split)

lemma ok_invalidate1 [intro]: "cache_ok c \<Longrightarrow> cache_ok (invalidateIdentity c i)"
  by (auto simp: invalidateIdentity_def)

lemma ok_invalidate [intro]: "cache_ok c \<Longrightarrow> cache_ok (invalidateIdentities is c)"
  by (induction "is" arbitrary: c) (auto simp: invalidateIdentities_def)

lemma look_invalidate1:
  "cache_ok c \<Longrightarrow> cache_look (invalidateIdentity c i) k = Some e \<Longrightarrow>
     cache_look c k = Some e \<and> (en_identityKey e = [] \<or> en_identityKey e \<noteq> i)"
  by (auto simp: invalidateIdentity_def look_delete_all cache_ok_def split: if_splits)

lemma look_invalidate:
  "cache_ok c \<Longrightarrow> cache_look (invalidateIdentities is c) k = Some e \<Longrightarrow>
     cache_look c k = Some e \<and> (en_identityKey e = [] \<or> en_identityKey e \<notin> set is)"
proof (induction "is" arbitrary: c)
  case (Cons i "is")
  from Cons.IH [of "invalidateIdentity c i"] Cons.prems look_invalidate1 [OF Cons.prems(1), of i k e]
  show ?case by (auto simp: invalidateIdentities_def)
qed (simp add: invalidateIdentities_def)

lemma ok_new [simp]: "cache_ok newStateCache" "cache_look newStateCache k = None"
  by (simp_all add: newStateCache_def cache_ok_def al_get_Nil)

section \<open>Traces of operations\<close>

datatype 'e cache_op =
    Op_Get string time
  | Op_Store string 'e time
  | Op_Delete string
  | Op_Invalidate "string list"
  | Op_Clear

fun cache_step :: "'a cached_scheme state_cache \<Rightarrow> 'a cached_scheme cache_op \<Rightarrow> 'a cached_scheme state_cache" where
  "cache_step c (Op_Get k now) = snd (cacheGet k now c)"
| "cache_step c (Op_Store k e now) = cacheStore k e now c"
| "cache_step c (Op_Delete k) = deleteEntry k c"
| "cache_step c (Op_Invalidate idents) = invalidateIdentities idents c"
| "cache_step c Op_Clear = newStateCache"

text \<open>The operations after which an entry is gone: one on its key, one on its identity, a clearing.\<close>

fun drops :: "('e \<Rightarrow> string) \<Rightarrow> string \<Rightarrow> 'e \<Rightarrow> 'e cache_op \<Rightarrow> bool" where
  "drops ident k e (Op_Get j now) = False"
| "drops ident k e (Op_Store j x now) = (j = k)"
| "drops ident k e (Op_Delete j) = (j = k)"
| "drops ident k e (Op_Invalidate idents) = (ident e \<noteq> [] \<and> ident e \<in> set idents)"
| "drops ident k e Op_Clear = True"

text \<open>Anything that is stored under keys by some steps and lost in others: what is found was stored, and
  no step that loses it came after.\<close>

locale kept_store =
  fixes look :: "'c \<Rightarrow> string \<Rightarrow> 'e option"
    and step :: "'c \<Rightarrow> 'op \<Rightarrow> 'c"
    and ok :: "'c \<Rightarrow> bool"
    and stores :: "'op \<Rightarrow> string \<Rightarrow> 'e \<Rightarrow> bool"
    and loses :: "'op \<Rightarrow> string \<Rightarrow> 'e \<Rightarrow> bool"
  assumes ok_step: "ok c \<Longrightarrow> ok (step c op)"
    and look_step: "ok c \<Longrightarrow> look (step c op) k = Some e \<Longrightarrow> stores op k e \<or> look c k = Some e \<and> \<not> loses op k e"
begin

lemma ok_run: "ok c \<Longrightarrow> ok (foldl step c ops)"
  by (induction ops rule: rev_induct) (simp_all add: ok_step)

lemma provenance:
  assumes "ok c" and "look c k = None" and "look (foldl step c ops) k = Some e"
  shows "\<exists>pre op post. ops = pre @ op # post \<and> stores op k e \<and> (\<forall>op' \<in> set post. \<not> loses op' k e)"
  using assms(3)
proof (induction ops rule: rev_induct)
  case Nil
  with assms(2) show ?case by simp
next
  case (snoc op ops)
  from look_step [OF ok_run [OF assms(1)], of ops op k e] snoc.prems
  consider (stored) "stores op k e" | (kept) "look (foldl step c ops) k = Some e" "\<not> loses op k e" by auto
  then show ?case
  proof cases
    case stored
    then show ?thesis by (intro exI [of _ ops] exI [of _ op] exI [of _ "[]"]) simp
  next
    case kept
    with snoc.IH obtain pre op' post where "ops = pre @ op' # post" "stores op' k e"
        "\<forall>x \<in> set post. \<not> loses x k e" by blast
    with kept show ?thesis by (intro exI [of _ pre] exI [of _ op'] exI [of _ "post @ [op]"]) simp
  qed
qed

lemma gone_after_loss:
  assumes "ok c" and "loses op k e" and "\<forall>op' \<in> set (op # ops). \<not> stores op' k e"
  shows "look (foldl step (step c op) ops) k \<noteq> Some e"
  using assms(3)
proof (induction ops rule: rev_induct)
  case Nil
  with look_step [OF assms(1), of op k e] assms(2) show ?case by auto
next
  case (snoc op' ops)
  have "ok (foldl step (step c op) ops)" by (intro ok_run ok_step assms(1))
  from look_step [OF this, of op' k e] snoc show ?case by auto
qed

end

fun puts :: "'e cache_op \<Rightarrow> string \<Rightarrow> 'e \<Rightarrow> bool" where
  "puts (Op_Store j x now) k e = (j = k \<and> x = e)"
| "puts _ k e = False"

lemma puts_iff: "puts op k e \<longleftrightarrow> (\<exists>now. op = Op_Store k e now)"
  by (cases "(op, k, e)" rule: puts.cases) auto

lemma cache_step_ok: "cache_ok c \<Longrightarrow> cache_ok (cache_step c op)"
  by (cases op) auto

lemma cache_step_look:
  "cache_ok c \<Longrightarrow> cache_look (cache_step c op) k = Some e \<Longrightarrow>
     puts op k e \<or> cache_look c k = Some e \<and> \<not> drops en_identityKey k e op"
  by (cases op) (auto simp: look_delete dest: look_get look_store look_invalidate split: if_splits)

interpretation auth_cache: kept_store
    "\<lambda>c. cache_look c" cache_step "cache_ok :: auth_entry state_cache \<Rightarrow> bool" puts
    "\<lambda>op k e. drops en_identityKey k e op"
  by unfold_locales (simp_all add: cache_step_ok cache_step_look)

interpretation preflight_cache: kept_store
    "\<lambda>c. cache_look c" cache_step "cache_ok :: preflight_entry state_cache \<Rightarrow> bool" puts
    "\<lambda>op k e. drops en_identityKey k e op"
  by unfold_locales (simp_all add: cache_step_ok cache_step_look)

section \<open>Keys\<close>

text \<open>Fields are joined with line feeds, the first one without.\<close>

definition appendCacheKeyField :: "string \<Rightarrow> string \<Rightarrow> string" where
  "appendCacheKeyField buf field = (if buf \<noteq> [] then buf @ [CHR 0x0A] @ field else field)"

definition appendURLRequestURI :: "url \<Rightarrow> string" where
  "appendURLRequestURI u =
     (let result = (if u_Opaque u = [] then (if escaped_path u = [] then ''/'' else escaped_path u)
                    else u_Opaque u);
          scheme = (if u_Opaque u \<noteq> [] \<and> hasPrefix (u_Opaque u) ''//'' then u_Scheme u @ '':'' else [])
      in scheme @ result @ (if u_ForceQuery u \<or> u_RawQuery u \<noteq> [] then ''?'' @ u_RawQuery u else []))"

definition appendCacheKeyRequestURIField :: "string \<Rightarrow> url \<Rightarrow> string" where
  "appendCacheKeyRequestURIField buf u = appendCacheKeyField buf (appendURLRequestURI u)"

definition boolCacheField :: "bool \<Rightarrow> string" where
  "boolCacheField v = (if v then ''true'' else ''false'')"

definition cache_key_buffer :: "string list \<Rightarrow> url \<Rightarrow> string" where
  "cache_key_buffer fs u = appendCacheKeyRequestURIField (foldl appendCacheKeyField [] fs) u"

definition authCacheLookupKey ::
    "string \<Rightarrow> string \<Rightarrow> string \<Rightarrow> string \<Rightarrow> string \<Rightarrow> string \<Rightarrow> url \<Rightarrow> string" where
  "authCacheLookupKey identityKey clientIPDimension accessMode scheme meth host requestURL =
     sha256HexBytes (cache_key_buffer [identityKey, clientIPDimension, accessMode, scheme, meth, host] requestURL)"

definition preflightCacheLookupKey ::
    "string \<Rightarrow> string \<Rightarrow> string \<Rightarrow> string \<Rightarrow> string \<Rightarrow> string \<Rightarrow> url \<Rightarrow> string" where
  "preflightCacheLookupKey identityKey clientIPDimension accessMode scheme host isMatch requestURL =
     sha256HexBytes (cache_key_buffer [identityKey, clientIPDimension, accessMode, scheme, host, isMatch] requestURL)"

definition normalizeRequestHost :: "unicode \<Rightarrow> string \<Rightarrow> string" where
  "normalizeRequestHost U host =
     (let v = trim_space host in
      if v = [] then []
      else
        (case (if hasPrefix v ''['' then last_index_byte v CHR '']'' else None) of
           Some idx \<Rightarrow> lowerASCIIString U (take (Suc idx) v)
         | None \<Rightarrow>
             (case last_index_byte v CHR '':'' of
                Some idx \<Rightarrow>
                  if CHR '':'' \<notin> set (take idx v) then lowerASCIIString U (trim_space (take idx v))
                  else lowerASCIIString U v
              | None \<Rightarrow> lowerASCIIString U v)))"

definition cache_host :: "unicode \<Rightarrow> request \<Rightarrow> string" where
  "cache_host U r =
     (if normalizeRequestHost U (rq_Host r) = [] then normalizeRequestHost U (header_get (rq_Header r) ''X-Forwarded-Host'')
      else normalizeRequestHost U (rq_Host r))"

definition requestIdentity :: "request \<Rightarrow> string \<Rightarrow> (string \<times> string) option" where
  "requestIdentity r clientIP = requestIdentityForCache (cookie_headers r) (auth_header r) clientIP"

text \<open>The lookup: cache key and identity key.\<close>

definition buildAuthCacheLookup ::
    "golib \<Rightarrow> unicode \<Rightarrow> request \<Rightarrow> string \<Rightarrow> string \<Rightarrow> (string \<times> string) option" where
  "buildAuthCacheLookup G U r clientIP accessMode =
     (case requestIdentity r clientIP of
        None \<Rightarrow> None
      | Some (identityKey, dimension) \<Rightarrow>
          Some (authCacheLookupKey identityKey dimension (trim_space (to_lower U accessMode))
                  (trim_space (to_lower U (publicRequestScheme G r))) (trim_space (to_upper U (rq_Method r)))
                  (cache_host U r) (rq_URL r),
                identityKey))"

definition buildPreflightCacheLookup ::
    "golib \<Rightarrow> unicode \<Rightarrow> request \<Rightarrow> string \<Rightarrow> string \<Rightarrow> bool \<Rightarrow> (string \<times> string) option" where
  "buildPreflightCacheLookup G U r clientIP accessMode isMatch =
     (case requestIdentity r clientIP of
        None \<Rightarrow> None
      | Some (identityKey, dimension) \<Rightarrow>
          Some (preflightCacheLookupKey identityKey dimension (trim_space (to_lower U accessMode))
                  (trim_space (to_lower U (publicRequestScheme G r))) (cache_host U r)
                  (boolCacheField isMatch) (rq_URL r),
                identityKey))"

section \<open>Equal keys\<close>

lemma join_snoc: "xs \<noteq> [] \<Longrightarrow> join_str s (xs @ [y]) = join_str s xs @ s @ y"
  by (induction s xs rule: join_str.induct) auto

lemma join_head_nonempty: "f \<noteq> [] \<Longrightarrow> join_str s (f # fs) \<noteq> []"
  by (cases fs) auto

lemma append_fields: "f \<noteq> [] \<Longrightarrow> foldl appendCacheKeyField f fs = join_str [CHR 0x0A] (f # fs)"
proof (induction fs rule: rev_induct)
  case (snoc g fs)
  with join_snoc [of "f # fs" "[CHR 0x0A]" g] join_head_nonempty [OF snoc.prems] show ?case
    by (simp add: appendCacheKeyField_def)
qed simp

lemma key_buffer:
  "f \<noteq> [] \<Longrightarrow> cache_key_buffer (f # fs) u = join_str [CHR 0x0A] (f # fs @ [appendURLRequestURI u])"
  using append_fields [of f fs] join_snoc [of "f # fs" "[CHR 0x0A]"] join_head_nonempty [of f "[CHR 0x0A]" fs]
  by (simp add: cache_key_buffer_def appendCacheKeyRequestURIField_def appendCacheKeyField_def)

lemma cons_sep_inj:
  "c \<notin> set f \<Longrightarrow> c \<notin> set g \<Longrightarrow> f @ c # r = g @ c # s \<longleftrightarrow> f = g \<and> r = s"
proof (induction f arbitrary: g)
  case Nil
  then show ?case by (cases g) auto
next
  case (Cons x f)
  then show ?case by (cases g) auto
qed

lemma join_sep_inj:
  "length fs = length gs \<Longrightarrow> \<forall>f \<in> set (fs @ gs). c \<notin> set f \<Longrightarrow>
     join_str [c] (fs @ [x]) = join_str [c] (gs @ [y]) \<Longrightarrow> fs = gs \<and> x = y"
proof (induction fs gs rule: list_induct2)
  case (Cons f fs g gs)
  have j: "join_str [c] (h # hs @ [z]) = h @ c # join_str [c] (hs @ [z])" for h z and hs :: "string list"
    by (cases hs) auto
  from Cons show ?case by (auto simp: j cons_sep_inj)
qed simp

lemma sha256HexBytes_chars: "c \<in> set (sha256HexBytes v) \<Longrightarrow> is_hex c"
  unfolding sha256HexBytes_def by (rule hex_encode_chars)

lemma sha256HexBytes_no_lf: "CHR 0x0A \<notin> set (sha256HexBytes v)"
  using sha256HexBytes_chars [of "CHR 0x0A" v] by (auto simp: is_hex_def is_digit_def byte_def)

lemma sha256HexBytes_eq: "sha256HexBytes v = sha256HexBytes w \<longleftrightarrow> sha256 v = sha256 w"
  by (simp add: sha256HexBytes_def)

text \<open>The parts of a request an authentication result is cached under.\<close>

definition auth_key_fields :: "golib \<Rightarrow> unicode \<Rightarrow> request \<Rightarrow> string \<Rightarrow> string \<Rightarrow> string list" where
  "auth_key_fields G U r clientIP accessMode =
     (case requestIdentity r clientIP of
        None \<Rightarrow> []
      | Some (identityKey, dimension) \<Rightarrow>
          [identityKey, dimension, trim_space (to_lower U accessMode),
           trim_space (to_lower U (publicRequestScheme G r)), trim_space (to_upper U (rq_Method r)),
           cache_host U r])"

definition key_text :: "golib \<Rightarrow> unicode \<Rightarrow> request \<Rightarrow> string \<Rightarrow> string \<Rightarrow> string" where
  "key_text G U r clientIP accessMode = cache_key_buffer (auth_key_fields G U r clientIP accessMode) (rq_URL r)"

definition no_lf :: "string list \<Rightarrow> bool" where
  "no_lf fs = list_all (\<lambda>f. CHR 0x0A \<notin> set f) fs"

lemma requestIdentity_key:
  "requestIdentity r clientIP = Some (i, d) \<Longrightarrow> i \<noteq> [] \<and> CHR 0x0A \<notin> set i"
  by (auto simp: requestIdentity_def requestIdentityForCache_def canonicalCookieIdentityKey_def
      activeIdentityKeyFromParts_def Let_def sha256HexBytes_no_lf split: option.splits if_splits)

lemma buildAuthCacheLookup_key:
  "buildAuthCacheLookup G U r clientIP accessMode = Some (k, i) \<Longrightarrow>
     k = sha256HexBytes (key_text G U r clientIP accessMode) \<and> i \<noteq> [] \<and>
     (\<exists>fs. auth_key_fields G U r clientIP accessMode = i # fs \<and> length fs = 5)"
  by (auto simp: buildAuthCacheLookup_def auth_key_fields_def key_text_def authCacheLookupKey_def
      dest: requestIdentity_key split: option.splits)

text \<open>C31: two requests share a cached authentication result only if they have the same identity, client
  address dimension, access mode, scheme, method and host and the same request URI, or the two texts
  hashed for their keys are a collision of SHA-256.\<close>

theorem auth_cache_key_separates:
  assumes "buildAuthCacheLookup G U r clientIP accessMode = Some (k, i)"
    and "buildAuthCacheLookup G U r' clientIP' accessMode' = Some (k, i')"
    and "no_lf (auth_key_fields G U r clientIP accessMode)"
    and "no_lf (auth_key_fields G U r' clientIP' accessMode')"
  shows "auth_key_fields G U r clientIP accessMode = auth_key_fields G U r' clientIP' accessMode' \<and>
      appendURLRequestURI (rq_URL r) = appendURLRequestURI (rq_URL r') \<or>
    key_text G U r clientIP accessMode \<noteq> key_text G U r' clientIP' accessMode' \<and>
      sha256 (key_text G U r clientIP accessMode) = sha256 (key_text G U r' clientIP' accessMode')"
proof -
  let ?f = "auth_key_fields G U r clientIP accessMode" and ?f' = "auth_key_fields G U r' clientIP' accessMode'"
  obtain fs where fs: "?f = i # fs" "length fs = 5" "i \<noteq> []"
    and k: "k = sha256HexBytes (key_text G U r clientIP accessMode)"
    using buildAuthCacheLookup_key [OF assms(1)] by blast
  obtain fs' where fs': "?f' = i' # fs'" "length fs' = 5" "i' \<noteq> []"
    and k': "k = sha256HexBytes (key_text G U r' clientIP' accessMode')"
    using buildAuthCacheLookup_key [OF assms(2)] by blast
  have sha: "sha256 (key_text G U r clientIP accessMode) = sha256 (key_text G U r' clientIP' accessMode')"
    using k k' by (simp add: sha256HexBytes_eq)
  have t: "key_text G U r clientIP accessMode = join_str [CHR 0x0A] (?f @ [appendURLRequestURI (rq_URL r)])"
    "key_text G U r' clientIP' accessMode' = join_str [CHR 0x0A] (?f' @ [appendURLRequestURI (rq_URL r')])"
    unfolding key_text_def fs(1) fs'(1) by (simp_all add: key_buffer [OF fs(3)] key_buffer [OF fs'(3)])
  have n: "\<forall>f \<in> set (?f @ ?f'). CHR 0x0A \<notin> set f"
    using assms(3,4) by (auto simp: no_lf_def list_all_iff)
  have "?f = ?f' \<and> appendURLRequestURI (rq_URL r) = appendURLRequestURI (rq_URL r')"
    if "key_text G U r clientIP accessMode = key_text G U r' clientIP' accessMode'"
    using that unfolding t by (rule join_sep_inj [OF _ n, rotated]) (simp add: fs fs')
  with sha show ?thesis by blast
qed

text \<open>Two connections of one client without cookies.\<close>

theorem auth_cache_key_separates_witness:
  "appendURLRequestURI (rq_URL plain_request) =
     appendURLRequestURI (rq_URL (plain_request\<lparr>rq_RemoteAddr := ''8.8.8.8:5001''\<rparr>)) \<or>
   sha256 (key_text plain_golib plain_unicode plain_request ''8.8.8.8'' ''open'') =
     sha256 (key_text plain_golib plain_unicode (plain_request\<lparr>rq_RemoteAddr := ''8.8.8.8:5001''\<rparr>)
       ''8.8.8.8'' ''open'')"
proof -
  let ?r = plain_request and ?r' = "plain_request\<lparr>rq_RemoteAddr := ''8.8.8.8:5001''\<rparr>"
  let ?ip = "''8.8.8.8''" and ?i = "activeIdentityKeyFromParts ''ip:'' ''8.8.8.8''"
  let ?fs = "[?i, [], ''open'', ''http'', ''GET'', ''app.example'']"
  have c: "canonicalCookieIdentityKey (cookie_headers ?r) = None" by code_simp
  have a: "trim_space (auth_header ?r) = []" "trim_space ?ip = ?ip" "?ip \<noteq> []" by code_simp+
  have id: "requestIdentity ?r ?ip = Some (?i, [])" "requestIdentity ?r' ?ip = Some (?i, [])"
    using c a by (simp_all add: requestIdentity_def requestIdentityForCache_def Let_def)
  have f: "trim_space (to_lower plain_unicode ''open'') = ''open''"
    "trim_space (to_lower plain_unicode (publicRequestScheme plain_golib ?r)) = ''http''"
    "trim_space (to_upper plain_unicode (rq_Method ?r)) = ''GET''"
    "cache_host plain_unicode ?r = ''app.example''" by code_simp+
  have same: "publicRequestScheme plain_golib ?r' = publicRequestScheme plain_golib ?r"
    "cache_host plain_unicode ?r' = cache_host plain_unicode ?r"
    by (simp_all add: publicRequestScheme_def cache_host_def)
  have fs: "auth_key_fields plain_golib plain_unicode ?r ?ip ''open'' = ?fs"
    "auth_key_fields plain_golib plain_unicode ?r' ?ip ''open'' = ?fs"
    using id f same by (simp_all add: auth_key_fields_def)
  have n: "no_lf ?fs" by (simp add: no_lf_def activeIdentityKeyFromParts_def sha256HexBytes_no_lf)
  obtain k where k: "buildAuthCacheLookup plain_golib plain_unicode ?r ?ip ''open'' = Some (k, ?i)"
    "buildAuthCacheLookup plain_golib plain_unicode ?r' ?ip ''open'' = Some (k, ?i)"
    using id same by (simp add: buildAuthCacheLookup_def)
  from auth_cache_key_separates [OF k] fs n show ?thesis by auto
qed

text \<open>An authentication result found in the cache after any sequence of operations was stored
  under that key, has not expired, and neither its identity was invalidated nor its key overwritten
  or deleted nor the cache cleared since.\<close>

theorem auth_cache_provenance:
  assumes "fst (authCacheGet k now (foldl cache_step newStateCache ops)) = Some e"
  shows "now < en_expiresAt e \<and>
    (\<exists>pre t post. ops = pre @ Op_Store k e t # post \<and>
       (\<forall>op \<in> set post. \<not> drops en_identityKey k e op))"
proof -
  have "cache_look (foldl cache_step newStateCache ops) k = Some e" and "now < en_expiresAt e"
    using assms by (simp_all add: authCacheGet_def get_hit)
  with auth_cache.provenance [of newStateCache k ops e] show ?thesis by (fastforce simp: puts_iff)
qed

definition allow_result :: auth_result where
  "allow_result = \<lparr>ar_allowed = True, ar_authenticated = True, ar_suppressToolbar = False,
     ar_decision = ''passed'', ar_subdomainAccessCustom = False, ar_allowedSubdomainHosts = [],
     ar_credentialIdentity = \<lparr>ci_credentialID = [], ci_credentialName = [], ci_credentialMethod = [],
       ci_linkedTOTPID = [], ci_linkedTOTPName = []\<rparr>\<rparr>"

definition allow_entry :: "time \<Rightarrow> string \<Rightarrow> auth_entry" where
  "allow_entry t ident = \<lparr>en_expiresAt = t, en_identityKey = ident, ae_result = allow_result,
     ae_setCookies = [], ae_redirectLocation = [], ae_abortConnection = False\<rparr>"

theorem auth_cache_provenance_witness:
  "\<exists>pre t post. [Op_Store ''k'' (allow_entry 9 ''i'') 5, Op_Invalidate [''j'']] =
      pre @ Op_Store ''k'' (allow_entry 9 ''i'') t # post \<and>
    (\<forall>op \<in> set post. \<not> drops en_identityKey ''k'' (allow_entry 9 ''i'') op)"
proof -
  let ?ops = "[Op_Store ''k'' (allow_entry 9 ''i'') 5, Op_Invalidate [''j'']]"
  have h: "fst (authCacheGet ''k'' 6 (foldl cache_step newStateCache ?ops)) = Some (allow_entry 9 ''i'')"
    by code_simp
  from auth_cache_provenance [OF h] show ?thesis by blast
qed



end
