(* ===== verification/AuthReply.thy ===== *)
theory AuthReply
  imports AuthCache LoginUrl
begin

text \<open>
  What the proxy reads from the headers of the authentication service, and the requests it sends
  there (\<^verbatim>\<open>pkg/proxy/handler.go\<close>).  \<^verbatim>\<open>strings.EqualFold\<close> against an ASCII literal and the
  URL-safe base64 decoders of the standard library are written out.
\<close>

section \<open>Folding equality with a literal\<close>

text \<open>
  Besides its two ASCII forms, \<^verbatim>\<open>s\<close> folds to the long s (U+017F) and \<^verbatim>\<open>k\<close> to the
  Kelvin sign (U+212A).
\<close>

definition long_s :: string where
  "long_s = [char_of (197 :: nat), char_of (191 :: nat)]"

definition kelvin :: string where
  "kelvin = [char_of (226 :: nat), char_of (132 :: nat), char_of (170 :: nat)]"

fun equal_fold :: "string \<Rightarrow> string \<Rightarrow> bool" where
  "equal_fold s [] = (s = [])"
| "equal_fold s (c # cs) =
     (case s of
        [] \<Rightarrow> False
      | x # xs \<Rightarrow>
          if lowerASCII x = lowerASCII c then equal_fold xs cs
          else if lowerASCII c = CHR ''s'' \<and> prefix long_s s then equal_fold (drop 2 s) cs
          else if lowerASCII c = CHR ''k'' \<and> prefix kelvin s then equal_fold (drop 3 s) cs
          else False)"

lemma equal_fold_lower: "map lowerASCII s = map lowerASCII t \<Longrightarrow> equal_fold s t"
  by (induction t arbitrary: s) (auto simp: map_eq_Cons_conv)

section \<open>Base64\<close>

definition b64_digit :: "char \<Rightarrow> nat option" where
  "b64_digit c =
     (if 65 \<le> byte c \<and> byte c \<le> 90 then Some (byte c - 65)
      else if 97 \<le> byte c \<and> byte c \<le> 122 then Some (byte c - 71)
      else if is_digit c then Some (byte c + 4)
      else if c = CHR ''-'' then Some 62
      else if c = CHR ''_'' then Some 63
      else None)"

fun b64_bytes :: "nat option list \<Rightarrow> string option" where
  "b64_bytes [] = Some []"
| "b64_bytes [Some a, Some b] = Some [char_of (a * 4 + b div 16)]"
| "b64_bytes [Some a, Some b, Some c] =
     Some [char_of (a * 4 + b div 16), char_of (b mod 16 * 16 + c div 4)]"
| "b64_bytes (Some a # Some b # Some c # Some d # r) =
     map_option (\<lambda>s. char_of (a * 4 + b div 16) # char_of (b mod 16 * 16 + c div 4) #
                     char_of (c mod 4 * 64 + d) # s) (b64_bytes r)"
| "b64_bytes _ = None"

definition b64_clean :: "string \<Rightarrow> string" where
  "b64_clean s = filter (\<lambda>c. c \<noteq> CHR 0x0A \<and> c \<noteq> CHR 0x0D) s"

definition raw_url_decode :: "string \<Rightarrow> string option" where
  "raw_url_decode s = b64_bytes (map b64_digit (b64_clean s))"

definition url_decode :: "string \<Rightarrow> string option" where
  "url_decode s =
     (let t = b64_clean s in
      if length t mod 4 \<noteq> 0 then None
      else b64_bytes (map b64_digit
             (if suffix ''=='' t then take (length t - 2) t
              else if suffix ''='' t then butlast t else t)))"

section \<open>Headers of the reply\<close>

definition normalizeReauthAccessDeniedReason :: "string \<Rightarrow> string" where
  "normalizeReauthAccessDeniedReason v = (if equal_fold (trim_space v) ''scope'' then ''scope'' else [])"

definition allowed_host :: "unicode \<Rightarrow> string \<Rightarrow> string option" where
  "allowed_host U rawHost =
     (if normalizeRequestHost U rawHost = [] then None else Some (normalizeRequestHost U rawHost))"

definition parseAllowedSubdomainHosts :: "unicode \<Rightarrow> header \<Rightarrow> bool \<times> string list" where
  "parseAllowedSubdomainHosts U h =
     (if \<not> equal_fold (trim_space (header_get h ''X-Reauth-Subdomain-Access'')) ''custom'' then (False, [])
      else (True, dedup_on id (allowed_host U) []
              (concat (map (split_byte CHR '','') (header_values h ''X-Reauth-Allowed-Subdomain-Hosts'')))))"

definition decodeReauthHeaderValue :: "string \<Rightarrow> string" where
  "decodeReauthHeaderValue v =
     (if \<not> hasPrefix v ''b64:'' then v
      else (let encoded = drop 4 v in
            case raw_url_decode encoded of
              Some d \<Rightarrow> d
            | None \<Rightarrow> (case url_decode encoded of Some d \<Rightarrow> d | None \<Rightarrow> [])))"

fun truncateRunes :: "nat \<Rightarrow> string \<Rightarrow> string" where
  "truncateRunes 0 v = []"
| "truncateRunes (Suc n) v =
     (if v = [] then [] else take (rune_len v) v @ truncateRunes n (drop (rune_len v) v))"

definition maxReauthCredentialHeaderRunes :: nat where
  "maxReauthCredentialHeaderRunes = 256"

definition reauthHeaderValue :: "header \<Rightarrow> string \<Rightarrow> string" where
  "reauthHeaderValue h name =
     truncateRunes maxReauthCredentialHeaderRunes (decodeReauthHeaderValue (trim_space (header_get h name)))"

definition parseAuthCredentialIdentity :: "header \<Rightarrow> credential_identity" where
  "parseAuthCredentialIdentity h =
     \<lparr>ci_credentialID = reauthHeaderValue h ''X-Reauth-Credential-Id'',
      ci_credentialName = reauthHeaderValue h ''X-Reauth-Credential-Name'',
      ci_credentialMethod = reauthHeaderValue h ''X-Reauth-Credential-Method'',
      ci_linkedTOTPID = reauthHeaderValue h ''X-Reauth-Linked-Totp-Id'',
      ci_linkedTOTPName = reauthHeaderValue h ''X-Reauth-Linked-Totp-Name''\<rparr>"

definition hasCredential :: "credential_identity \<Rightarrow> bool" where
  "hasCredential i = (trim_space (ci_credentialID i) \<noteq> [] \<or> trim_space (ci_linkedTOTPID i) \<noteq> [])"

definition redirect_header :: "header \<Rightarrow> string" where
  "redirect_header h =
     (let location = trim_space (header_get h ''X-Reauth-Redirect-Location'') in
      if hasPrefix location ''/'' \<or> hasPrefix location ''http://'' \<or> hasPrefix location ''https://''
      then location else [])"

lemma rune_len_le: "rune_len v \<le> 4"
  by (simp add: rune_len_def rune_need_def Let_def)

lemma truncateRunes_length: "length (truncateRunes n v) \<le> 4 * n"
proof (induction n arbitrary: v)
  case (Suc n)
  show ?case using Suc [of "drop (rune_len v) v"] rune_len_le [of v] by simp linarith
qed simp

lemma truncateRunes_prefix: "prefix (truncateRunes n v) v"
  by (induction n arbitrary: v)
    (auto simp: prefix_def, metis append.assoc append_take_drop_id)

section \<open>Requests to the service\<close>

definition localServiceBaseURL :: "int \<Rightarrow> string" where
  "localServiceBaseURL port = ''http://127.0.0.1:'' @ itoa port"

definition localServiceHostPort :: "int \<Rightarrow> string" where
  "localServiceHostPort port = ''127.0.0.1:'' @ itoa port"

definition localServiceTargetURL :: "int \<Rightarrow> url" where
  "localServiceTargetURL port = zero_url\<lparr>u_Scheme := ''http'', u_Host := localServiceHostPort port\<rparr>"

definition localServiceURL :: "int \<Rightarrow> string \<Rightarrow> string" where
  "localServiceURL port urlPath = ''http://127.0.0.1:'' @ itoa port @ ensureLeadingSlash urlPath"

text \<open>An empty \<^verbatim>\<open>User-Agent\<close> is set, so that the client's library adds none of its own.\<close>

definition copyUserAgentHeader :: "header \<Rightarrow> header \<Rightarrow> header" where
  "copyUserAgentHeader dst src = header_set ''User-Agent'' (header_get src ''User-Agent'') dst"

definition copy_header :: "string \<Rightarrow> header \<Rightarrow> header \<Rightarrow> header" where
  "copy_header name src dst = (if header_get src name \<noteq> [] then header_set name (header_get src name) dst else dst)"

definition auth_request_header :: "golib \<Rightarrow> request \<Rightarrow> string \<Rightarrow> string \<Rightarrow> header" where
  "auth_request_header G r clientIP accessMode =
     (let h = header_set ''X-Real-IP'' clientIP [];
          h = header_set ''X-Forwarded-For'' clientIP h;
          h = header_set ''X-Forwarded-Host'' (rq_Host r) h;
          h = header_set ''X-Forwarded-Proto'' (publicRequestScheme G r) h;
          h = (if accessMode \<noteq> [] then header_set ''X-Reauth-Access-Mode'' accessMode h else h);
          h = copy_header ''Cookie'' (rq_Header r) h;
          h = copy_header ''Authorization'' (rq_Header r) h;
          h = header_set ''X-Forwarded-Path'' (url_request_uri (rq_URL r)) h
      in copyUserAgentHeader h (rq_Header r))"

definition preflight_request_header :: "golib \<Rightarrow> request \<Rightarrow> string \<Rightarrow> bool \<Rightarrow> string \<Rightarrow> header" where
  "preflight_request_header G r clientIP isMatch accessMode =
     (let h = header_set ''X-Real-IP'' clientIP [];
          h = header_set ''X-Forwarded-For'' clientIP h;
          h = header_set ''X-Forwarded-Path'' (url_request_uri (rq_URL r)) h;
          h = header_set ''X-Forwarded-Host'' (rq_Host r) h;
          h = header_set ''X-Forwarded-Proto'' (publicRequestScheme G r) h;
          h = header_set ''X-Match'' (boolCacheField isMatch) h;
          h = header_set ''X-Reauth-Internal-Preflight'' ''1'' h;
          h = (if accessMode \<noteq> [] then header_set ''X-Reauth-Access-Mode'' accessMode h else h);
          h = copy_header ''Cookie'' (rq_Header r) h;
          h = copy_header ''Authorization'' (rq_Header r) h
      in copyUserAgentHeader h (rq_Header r))"

section \<open>Requests of the FN app\<close>

definition isFNAppRequest :: "request \<Rightarrow> bool" where
  "isFNAppRequest r =
     (let cleanPath = path_clean (u_Path (rq_URL r));
          userAgent = trim_space (header_get (rq_Header r) ''User-Agent'')
      in if cleanPath \<noteq> ''/trimcon'' \<and> cleanPath \<noteq> ''/websocket'' then False
         else if containsFoldASCIIString userAgent ''com.trim.app'' \<or>
                 containsFoldASCIIString userAgent ''com.trim.media'' \<or>
                 containsFoldASCIIString userAgent ''dart:io'' \<or>
                 containsFoldASCIIString userAgent ''flutter/'' then True
         else containsFoldASCIIString (header_get (rq_Header r) ''Cookie'') ''mode=relay'')"

definition isFNAppWebSocketRequest :: "request \<Rightarrow> bool" where
  "isFNAppWebSocketRequest r =
     (equal_fold (trim_space (header_get (rq_Header r) ''Upgrade'')) ''websocket'' \<and>
      containsFoldASCIIString (header_get (rq_Header r) ''Connection'') ''upgrade'')"

section \<open>What the service learns from the client's headers\<close>

lemma header_get_copy [alist_simps]:
  "header_get (copy_header k src dst) k' =
     (if canonical_header_key k' = canonical_header_key k \<and> header_get src k \<noteq> [] then header_get src k
      else header_get dst k')"
  by (simp add: copy_header_def header_get_set)

lemma header_get_agent [alist_simps]:
  "header_get (copyUserAgentHeader dst src) k' =
     (if canonical_header_key k' = canonical_header_key ''User-Agent'' then header_get src ''User-Agent''
      else header_get dst k')"
  by (simp add: copyUserAgentHeader_def header_get_set)

definition service_headers :: "string set" where
  "service_headers = {''X-Real-Ip'', ''X-Forwarded-For'', ''X-Forwarded-Host'', ''X-Forwarded-Proto'',
     ''X-Forwarded-Path'', ''X-Reauth-Access-Mode'', ''Cookie'', ''Authorization'', ''User-Agent''}"

lemma service_keys:
  "canonical_header_key ''X-Real-IP'' = ''X-Real-Ip''" "canonical_header_key ''X-Real-Ip'' = ''X-Real-Ip''"
  "canonical_header_key ''X-Forwarded-For'' = ''X-Forwarded-For''"
  "canonical_header_key ''X-Forwarded-Host'' = ''X-Forwarded-Host''"
  "canonical_header_key ''X-Forwarded-Proto'' = ''X-Forwarded-Proto''"
  "canonical_header_key ''X-Forwarded-Path'' = ''X-Forwarded-Path''"
  "canonical_header_key ''X-Reauth-Access-Mode'' = ''X-Reauth-Access-Mode''"
  "canonical_header_key ''Cookie'' = ''Cookie''" "canonical_header_key ''Authorization'' = ''Authorization''"
  "canonical_header_key ''User-Agent'' = ''User-Agent''"
  by code_simp+

lemma header_get_Nil [simp]: "header_get [] k = []"
  by (simp add: header_get_def header_values_def al_get_Nil)

lemma header_get_if: "header_get (if b then h else h') k = (if b then header_get h k else header_get h' k)"
  by simp

lemma auth_request_get:
  "header_get (auth_request_header G r clientIP accessMode) k =
     (let c = canonical_header_key k in
      if c = ''User-Agent'' then header_get (rq_Header r) ''User-Agent''
      else if c = ''X-Forwarded-Path'' then url_request_uri (rq_URL r)
      else if c = ''Authorization'' then header_get (rq_Header r) ''Authorization''
      else if c = ''Cookie'' then header_get (rq_Header r) ''Cookie''
      else if c = ''X-Reauth-Access-Mode'' then accessMode
      else if c = ''X-Forwarded-Proto'' then publicRequestScheme G r
      else if c = ''X-Forwarded-Host'' then rq_Host r
      else if c = ''X-Forwarded-For'' then clientIP
      else if c = ''X-Real-Ip'' then clientIP else [])"
  unfolding auth_request_header_def Let_def
  by (simp only: header_get_agent header_get_set header_get_copy header_get_if service_keys header_get_Nil)
    (cases "accessMode = []"; cases "header_get (rq_Header r) ''Cookie'' = []";
      cases "header_get (rq_Header r) ''Authorization'' = []"; simp)

text \<open>C35: the authentication service is told the address, host, scheme and access mode the proxy
  determined, whatever headers of these names the client sent, and of the client's headers it gets
  the cookies, the authorization and the user agent and no other.\<close>

theorem auth_request_trusted:
  "header_get (auth_request_header G r clientIP accessMode) ''X-Real-IP'' = clientIP \<and>
   header_get (auth_request_header G r clientIP accessMode) ''X-Forwarded-For'' = clientIP \<and>
   header_get (auth_request_header G r clientIP accessMode) ''X-Forwarded-Host'' = rq_Host r \<and>
   header_get (auth_request_header G r clientIP accessMode) ''X-Forwarded-Proto'' = publicRequestScheme G r \<and>
   header_get (auth_request_header G r clientIP accessMode) ''X-Reauth-Access-Mode'' = accessMode \<and>
   header_get (auth_request_header G r clientIP accessMode) ''Cookie'' = header_get (rq_Header r) ''Cookie'' \<and>
   header_get (auth_request_header G r clientIP accessMode) ''Authorization'' =
     header_get (rq_Header r) ''Authorization'' \<and>
   canonical_header_key ` {k. header_get (auth_request_header G r clientIP accessMode) k \<noteq> []} \<subseteq> service_headers"
proof (intro conjI)
  let ?H = "auth_request_header G r clientIP accessMode"
  show "canonical_header_key ` {k. header_get ?H k \<noteq> []} \<subseteq> service_headers"
    unfolding auth_request_get Let_def service_headers_def by (auto simp only: split: if_splits)
qed (simp_all add: auth_request_get service_keys)

end
