(* ===== verification/AuthCheck.thy ===== *)
theory AuthCheck
  imports AuthReply
begin

text \<open>
  The authentication of a request (\<^verbatim>\<open>pkg/proxy/handler.go\<close>, \<^verbatim>\<open>performAuthCheck\<close> to
  \<^verbatim>\<open>checkAuth\<close>, and the rest of \<^verbatim>\<open>auth_cache.go\<close>): what the authentication service answers
  becomes a plan, a plan may become a cache entry, and a plan or an entry is applied to the
  response.  The answer of the service is an input: whether the request failed, or its header and
  its decoded JSON body.  The clock is read where the source reads it.  \<^verbatim>\<open>singleflight\<close> runs the
  check once for requests with the same key at the same time; here that is the order of the steps
  of a trace.
\<close>

section \<open>Plans\<close>

datatype auth_reply = Request_Failed | Reply header "(bool \<times> string) option"

record error_page =
  ep_code :: int
  ep_title :: string
  ep_message :: string

record auth_plan =
  ap_result :: auth_result
  ap_setCookies :: "string list"
  ap_redirectLocation :: string
  ap_abortConnection :: bool
  ap_accessDeniedReason :: string
  ap_errorPage :: "error_page option"

definition no_identity :: credential_identity where
  "no_identity = \<lparr>ci_credentialID = [], ci_credentialName = [], ci_credentialMethod = [],
                  ci_linkedTOTPID = [], ci_linkedTOTPName = []\<rparr>"

definition decision_result :: "string \<Rightarrow> auth_result" where
  "decision_result d = \<lparr>ar_allowed = False, ar_authenticated = False, ar_suppressToolbar = False, ar_decision = d,
     ar_subdomainAccessCustom = False, ar_allowedSubdomainHosts = [], ar_credentialIdentity = no_identity\<rparr>"

definition plain_plan :: "string \<Rightarrow> string list \<Rightarrow> auth_plan" where
  "plain_plan d cookies = \<lparr>ap_result = decision_result d, ap_setCookies = cookies, ap_redirectLocation = [],
     ap_abortConnection = False, ap_accessDeniedReason = [], ap_errorPage = None\<rparr>"

definition error_plan :: "int \<Rightarrow> string \<Rightarrow> auth_plan" where
  "error_plan code text =
     (plain_plan ''error'' [])\<lparr>ap_errorPage := Some \<lparr>ep_code = code, ep_title = text, ep_message = text\<rparr>\<rparr>"

definition success_plan :: "unicode \<Rightarrow> header \<Rightarrow> auth_plan" where
  "success_plan U h =
     (case parseAllowedSubdomainHosts U h of (custom, hosts) \<Rightarrow>
        (plain_plan [] (header_values h ''Set-Cookie''))
        \<lparr>ap_result :=
           \<lparr>ar_allowed = True, ar_authenticated = True,
            ar_suppressToolbar = equal_fold (header_get h ''X-Reauth-Access-Mode'') ''fnos-share'',
            ar_decision = ''passed'', ar_subdomainAccessCustom = custom, ar_allowedSubdomainHosts = hosts,
            ar_credentialIdentity = parseAuthCredentialIdentity h\<rparr>\<rparr>)"

definition login_location :: "golib \<Rightarrow> unicode \<Rightarrow> request \<Rightarrow> auth_config \<Rightarrow> string" where
  "login_location G U r cfg =
     (let originalURL =
        (case buildPublicRequestURL G U (Some r) cfg [] of
           Some u \<Rightarrow> u
         | None \<Rightarrow> zero_url\<lparr>u_Scheme := publicRequestScheme G r, u_Host := rq_Host r,
                            u_Path := u_Path (rq_URL r), u_RawQuery := u_RawQuery (rq_URL r)\<rparr>)
      in url_string
           (case buildPublicAuthLoginURL U cfg r originalURL of
              Some u \<Rightarrow> u
            | None \<Rightarrow> set_redirect_uri (url_string originalURL) (zero_url\<lparr>u_Path := ''/__auth__/login''\<rparr>)))"

definition refusal_plan :: "golib \<Rightarrow> unicode \<Rightarrow> request \<Rightarrow> auth_config \<Rightarrow> string \<Rightarrow> header \<Rightarrow> auth_plan" where
  "refusal_plan G U r cfg accessMode h =
     (let cookies = header_values h ''Set-Cookie'';
          reason = normalizeReauthAccessDeniedReason (header_get h ''X-Reauth-Access-Denied'')
      in if reason \<noteq> [] then
           (let ident = parseAuthCredentialIdentity h in
            (plain_plan ''access_denied'' cookies)
            \<lparr>ap_result := (decision_result ''access_denied'')
                \<lparr>ar_authenticated := hasCredential ident, ar_credentialIdentity := ident\<rparr>,
             ap_accessDeniedReason := reason\<rparr>)
         else if accessMode = ''strict_whitelist'' then
           (plain_plan ''denied'' cookies)\<lparr>ap_abortConnection := True\<rparr>
         else if redirect_header h \<noteq> [] then
           (plain_plan ''redirected'' cookies)\<lparr>ap_redirectLocation := redirect_header h\<rparr>
         else (plain_plan ''redirected'' cookies)\<lparr>ap_redirectLocation := login_location G U r cfg\<rparr>)"

definition auth_url :: "auth_config \<Rightarrow> string" where
  "auth_url cfg =
     localServiceURL (ac_AuthPort cfg) (if ac_AuthURL cfg = [] then ''/api/auth/verify'' else ac_AuthURL cfg)"

definition performAuthCheck ::
    "golib \<Rightarrow> unicode \<Rightarrow> request \<Rightarrow> auth_config \<Rightarrow> string \<Rightarrow> auth_reply \<Rightarrow> auth_plan" where
  "performAuthCheck G U r cfg accessMode reply =
     (if ac_AuthPort cfg \<le> 0 then error_plan 500 ''Authentication Service Not Configured''
      else if url_parse (auth_url cfg) = None then error_plan 500 ''Internal Server Error during Auth''
      else (case reply of
              Request_Failed \<Rightarrow> error_plan 20002 ''Authentication Service Unavailable''
            | Reply h None \<Rightarrow> error_plan 500 ''Invalid Auth Response Format''
            | Reply h (Some (success, _)) \<Rightarrow>
                if success then success_plan U h else refusal_plan G U r cfg accessMode h))"

section \<open>Caching\<close>

definition authCacheEnabled :: "auth_config \<Rightarrow> bool" where
  "authCacheEnabled cfg = (ac_AuthCacheTTL cfg > 0 \<or> ac_AuthCacheFailTTL cfg > 0)"

definition authCacheTTL :: "auth_config \<Rightarrow> auth_result \<Rightarrow> duration" where
  "authCacheTTL cfg result =
     (if ar_allowed result \<and> ar_authenticated result \<and> ac_AuthCacheTTL cfg > 0
      then wrap64 (ac_AuthCacheTTL cfg * second)
      else if \<not> ar_allowed result \<and> ar_decision result \<noteq> ''error'' \<and> ar_decision result \<noteq> ''fn_app_prompt'' \<and>
              ac_AuthCacheFailTTL cfg > 0
      then wrap64 (ac_AuthCacheFailTTL cfg * second)
      else 0)"

definition shouldBypassFNAppUnauthorizedAuthCache :: "request \<Rightarrow> auth_result \<Rightarrow> bool" where
  "shouldBypassFNAppUnauthorizedAuthCache r result =
     (isFNAppRequest r \<and> (\<not> ar_allowed result \<or> \<not> ar_authenticated result))"

datatype auth_execution = Exec_Entry auth_entry | Exec_Plan auth_plan

text \<open>Looking a key up, outside the group and again inside it.\<close>

definition auth_probe :: "request \<Rightarrow> string \<Rightarrow> time \<Rightarrow> auth_entry state_cache \<Rightarrow>
    auth_entry option \<times> auth_entry state_cache" where
  "auth_probe r cacheKey now c =
     (case authCacheGet cacheKey now c of
        (None, c) \<Rightarrow> (None, c)
      | (Some e, c) \<Rightarrow>
          if shouldBypassFNAppUnauthorizedAuthCache r (ae_result e) then (None, deleteEntry cacheKey c)
          else (Some e, c))"

text \<open>What happens with the plan: \<open>expiry_base\<close> and \<open>stored\<close> are the two readings of the clock.\<close>

definition plan_entry :: "auth_plan \<Rightarrow> time \<Rightarrow> string \<Rightarrow> auth_entry" where
  "plan_entry plan expires ident =
     \<lparr>en_expiresAt = expires, en_identityKey = ident, ae_result = ap_result plan,
      ae_setCookies = ap_setCookies plan, ae_redirectLocation = ap_redirectLocation plan,
      ae_abortConnection = ap_abortConnection plan\<rparr>"

definition auth_finish ::
    "auth_config \<Rightarrow> request \<Rightarrow> string \<times> string \<Rightarrow> auth_plan \<Rightarrow> time \<Rightarrow> time \<Rightarrow> auth_entry state_cache \<Rightarrow>
     auth_execution \<times> auth_entry state_cache" where
  "auth_finish cfg r lookup plan expiry_base stored c =
     (let ttl = authCacheTTL cfg (ap_result plan) in
      if ap_errorPage plan = None \<and> ap_setCookies plan = [] \<and> ttl > 0 then
        (let entry = plan_entry plan (expiry_base + ttl) (snd lookup) in
         (Exec_Entry entry,
          if shouldBypassFNAppUnauthorizedAuthCache r (ap_result plan) then c
          else authCacheStore (fst lookup) entry stored c))
      else (Exec_Plan plan, c))"

record auth_clock =
  ak_start :: time
  ak_group :: time
  ak_expiry :: time
  ak_stored :: time

definition executeAuthCheck ::
    "golib \<Rightarrow> unicode \<Rightarrow> request \<Rightarrow> auth_config \<Rightarrow> string \<Rightarrow> string \<Rightarrow> auth_clock \<Rightarrow> auth_reply \<Rightarrow>
     'a auth_caches_scheme \<Rightarrow> auth_execution \<times> 'a auth_caches_scheme" where
  "executeAuthCheck G U r cfg clientIP accessMode t reply h =
     (case (if authCacheEnabled cfg then buildAuthCacheLookup G U r clientIP accessMode else None) of
        Some lookup \<Rightarrow>
          (case auth_probe r (fst lookup) (ak_start t) (hc_auth h) of
             (Some e, c) \<Rightarrow> (Exec_Entry e, h\<lparr>hc_auth := c\<rparr>)
           | (None, c) \<Rightarrow>
               (case auth_probe r (fst lookup) (ak_group t) c of
                  (Some e, c) \<Rightarrow> (Exec_Entry e, h\<lparr>hc_auth := c\<rparr>)
                | (None, c) \<Rightarrow>
                    (case auth_finish cfg r lookup (performAuthCheck G U r cfg accessMode reply)
                            (ak_expiry t) (ak_stored t) c of
                       (x, c) \<Rightarrow> (x, h\<lparr>hc_auth := c\<rparr>))))
      | None \<Rightarrow> (Exec_Plan (performAuthCheck G U r cfg accessMode reply), h))"

section \<open>Invalidation after a \<^verbatim>\<open>Set-Cookie\<close>\<close>

definition mutation_identities :: "request \<Rightarrow> string \<Rightarrow> auth_set_cookie list \<Rightarrow> string list" where
  "mutation_identities r clientIP relevant =
     remdups (filter (\<lambda>k. k \<noteq> [])
       [requestIdentityKey (cookie_headers r) (auth_header r) clientIP,
        activeIdentityKeyFromClientIP clientIP,
        identityKeyFromState (applySetCookieMutations (requestCookieMap (cookie_headers r)) relevant)
          (auth_header r) clientIP])"

definition authCacheInvalidateForSetCookieMutation ::
    "request \<Rightarrow> string \<Rightarrow> string list \<Rightarrow> 'a auth_caches_scheme \<Rightarrow> 'a auth_caches_scheme" where
  "authCacheInvalidateForSetCookieMutation r clientIP setCookieHeaders h =
     (let relevant = parseRelevantAuthSetCookies setCookieHeaders in
      if relevant = [] then h
      else authCacheInvalidateByIdentityKeys (mutation_identities r clientIP relevant) h)"

section \<open>Applying a plan or an entry\<close>

text \<open>The handler: both caches, the end of the preflight pause, who was seen logged in, and whether the
  mock service of the FN app is there.\<close>

record auth_handler = auth_caches +
  ah_skipUntil :: int
  ah_loggedIn :: "(string \<times> int) list"
  ah_mock :: bool

definition unix_nano :: "time \<Rightarrow> int" where
  "unix_nano t = wrap64 (t - 62135596800 * second)"

definition storeLoggedInActive :: "string \<Rightarrow> time \<Rightarrow> auth_handler \<Rightarrow> auth_handler" where
  "storeLoggedInActive key now h =
     (if key = [] then h else h\<lparr>ah_loggedIn := al_put key (unix_nano now) (ah_loggedIn h)\<rparr>)"

definition markLoggedInActive :: "request \<Rightarrow> string \<Rightarrow> time \<Rightarrow> auth_handler \<Rightarrow> auth_handler" where
  "markLoggedInActive r clientIP now h =
     storeLoggedInActive (activeIdentityKey (cookie_headers r) (auth_header r) clientIP) now h"

datatype answer =
    Ans_None
  | Ans_Page int string
  | Ans_AccessDenied
  | Ans_Redirect string
  | Ans_Abort
  | Ans_Trimcon
  | Ans_UpgradeRequired
  | Ans_Websocket

record reaction =
  rx_result :: auth_result
  rx_setCookies :: "string list"
  rx_answer :: answer
  rx_suppressLog :: bool

text \<open>Handled, failed, and what was answered; \<open>ws_failed\<close> is how the websocket dialogue ends.\<close>

definition handleUnauthorizedRequest :: "bool \<Rightarrow> request \<Rightarrow> bool \<Rightarrow> bool \<times> bool \<times> answer" where
  "handleUnauthorizedRequest mock r ws_failed =
     (if \<not> mock \<or> \<not> isFNAppRequest r then (False, False, Ans_None)
      else if path_clean (u_Path (rq_URL r)) = ''/trimcon'' then (True, False, Ans_Trimcon)
      else if path_clean (u_Path (rq_URL r)) = ''/websocket'' then
        (if \<not> isFNAppWebSocketRequest r then (True, False, Ans_UpgradeRequired)
         else (True, ws_failed, Ans_Websocket))
      else (False, False, Ans_None))"

definition react :: "auth_result \<Rightarrow> string list \<Rightarrow> answer \<Rightarrow> reaction" where
  "react result cookies a = \<lparr>rx_result = result, rx_setCookies = cookies, rx_answer = a, rx_suppressLog = False\<rparr>"

definition applyAuthCacheEntry ::
    "request \<Rightarrow> auth_entry \<Rightarrow> string \<Rightarrow> bool \<Rightarrow> time \<Rightarrow> auth_handler \<Rightarrow> reaction \<times> auth_handler" where
  "applyAuthCacheEntry r e clientIP ws_failed now h =
     (let rx = react (ae_result e) (ae_setCookies e) in
      if ar_allowed (ae_result e) \<and> ar_authenticated (ae_result e)
      then (rx Ans_None, markLoggedInActive r clientIP now h)
      else if ar_decision (ae_result e) = ''access_denied'' then (rx Ans_AccessDenied, h)
      else
        (case handleUnauthorizedRequest (ah_mock h) r ws_failed of (handled, failed, a) \<Rightarrow>
           if failed then (react (decision_result ''error'') (ae_setCookies e) a, h)
           else if handled then (react (decision_result ''fn_app_prompt'') (ae_setCookies e) a, h)
           else if ae_abortConnection e then (rx Ans_Abort, h)
           else if ae_redirectLocation e \<noteq> [] then (rx (Ans_Redirect (ae_redirectLocation e)), h)
           else (rx Ans_None, h)))"

definition applyAuthCheckPlan ::
    "request \<Rightarrow> auth_plan \<Rightarrow> string \<Rightarrow> bool \<Rightarrow> time \<Rightarrow> auth_handler \<Rightarrow> reaction \<times> auth_handler" where
  "applyAuthCheckPlan r plan clientIP ws_failed now h0 =
     (let rx = react (ap_result plan) (ap_setCookies plan);
          h = (if ap_setCookies plan \<noteq> []
               then authCacheInvalidateForSetCookieMutation r clientIP (ap_setCookies plan) h0 else h0)
      in case ap_errorPage plan of
           Some page \<Rightarrow> (rx (Ans_Page (ep_code page) (ep_message page)), h)
         | None \<Rightarrow>
             if ar_allowed (ap_result plan) then (rx Ans_None, markLoggedInActive r clientIP now h)
             else if ap_accessDeniedReason plan \<noteq> [] \<or> ar_decision (ap_result plan) = ''access_denied''
             then (rx Ans_AccessDenied, h)
             else
               (case handleUnauthorizedRequest (ah_mock h) r ws_failed of (handled, failed, a) \<Rightarrow>
                  if failed then (react (decision_result ''error'') (ap_setCookies plan) a, h)
                  else if handled then (react (decision_result ''fn_app_prompt'') (ap_setCookies plan) a, h)
                  else if ap_abortConnection plan then ((rx Ans_Abort)\<lparr>rx_suppressLog := True\<rparr>, h)
                  else if ap_redirectLocation plan \<noteq> [] then (rx (Ans_Redirect (ap_redirectLocation plan)), h)
                  else (rx Ans_None, h)))"

definition checkAuth ::
    "golib \<Rightarrow> unicode \<Rightarrow> request \<Rightarrow> auth_config \<Rightarrow> string \<Rightarrow> string \<Rightarrow> auth_clock \<Rightarrow> auth_reply \<Rightarrow> bool \<Rightarrow> time \<Rightarrow>
     auth_handler \<Rightarrow> reaction \<times> auth_handler" where
  "checkAuth G U r cfg clientIP accessMode t reply ws_failed now h0 =
     (case executeAuthCheck G U r cfg clientIP accessMode t reply h0 of
        (Exec_Entry e, h) \<Rightarrow> applyAuthCacheEntry r e clientIP ws_failed now h
      | (Exec_Plan plan, h) \<Rightarrow> applyAuthCheckPlan r plan clientIP ws_failed now h)"

section \<open>The check for the toolbar\<close>

definition not_required :: auth_result where
  "not_required = (decision_result ''not_required'')\<lparr>ar_allowed := True\<rparr>"

definition applyToolbarAuthCacheEntry ::
    "request \<Rightarrow> auth_entry \<Rightarrow> string \<Rightarrow> time \<Rightarrow> auth_handler \<Rightarrow> reaction \<times> auth_handler" where
  "applyToolbarAuthCacheEntry r e clientIP now h =
     (if ar_allowed (ae_result e) \<and> ar_authenticated (ae_result e)
      then (react (ae_result e) (ae_setCookies e) Ans_None, markLoggedInActive r clientIP now h)
      else (react not_required (ae_setCookies e) Ans_None, h))"

definition applyToolbarAuthCheckPlan ::
    "request \<Rightarrow> auth_plan \<Rightarrow> string \<Rightarrow> time \<Rightarrow> auth_handler \<Rightarrow> reaction \<times> auth_handler" where
  "applyToolbarAuthCheckPlan r plan clientIP now h0 =
     (let h = (if ap_setCookies plan \<noteq> []
               then authCacheInvalidateForSetCookieMutation r clientIP (ap_setCookies plan) h0 else h0)
      in if ar_allowed (ap_result plan) \<and> ar_authenticated (ap_result plan)
         then (react (ap_result plan) (ap_setCookies plan) Ans_None, markLoggedInActive r clientIP now h)
         else (react not_required (ap_setCookies plan) Ans_None, h))"

definition checkAuthForToolbar ::
    "golib \<Rightarrow> unicode \<Rightarrow> request \<Rightarrow> auth_config \<Rightarrow> string \<Rightarrow> auth_clock \<Rightarrow> auth_reply \<Rightarrow> time \<Rightarrow>
     auth_handler \<Rightarrow> reaction \<times> auth_handler" where
  "checkAuthForToolbar G U r cfg clientIP t reply now h0 =
     (case executeAuthCheck G U r cfg clientIP [] t reply h0 of
        (Exec_Entry e, h) \<Rightarrow> applyToolbarAuthCacheEntry r e clientIP now h
      | (Exec_Plan plan, h) \<Rightarrow> applyToolbarAuthCheckPlan r plan clientIP now h)"

definition cookiePartHasExplicitAuthIdentity :: "string \<Rightarrow> bool" where
  "cookiePartHasExplicitAuthIdentity part =
     (case cut_byte CHR ''='' part of (name0, rawValue, _) \<Rightarrow>
        (let name = trim_space name0 in
         if name \<noteq> authSessionCookieName \<and> name \<noteq> authShareSessionCookieName then False
         else (case parseCanonicalCookieValue rawValue of Some v \<Rightarrow> v \<noteq> [] | None \<Rightarrow> False)))"

definition cookieHeaderHasExplicitAuthIdentity :: "string \<Rightarrow> bool" where
  "cookieHeaderHasExplicitAuthIdentity h =
     list_ex (\<lambda>part. cookiePartHasExplicitAuthIdentity (trim_space part)) (split_byte CHR '';'' h)"

definition requestHasExplicitAuthIdentity :: "request \<Rightarrow> bool" where
  "requestHasExplicitAuthIdentity r =
     ((cookieHeaderValuesWithinDefaultLimit (cookie_headers r) \<and>
       list_ex cookieHeaderHasExplicitAuthIdentity (cookie_headers r)) \<or>
      trim_space (auth_header r) \<noteq> [])"

end
