(* ===== verification/AuthTrace.thy ===== *)
theory AuthTrace
  imports AuthCheck
begin

text \<open>
  Properties of the authentication of requests, and of sequences of its steps: who is let through,
  where a cached permission comes from, what an invalidation stops and what it does not, and that
  answers from the cache are the answers without it.
\<close>

section \<open>Who is let through\<close>

lemma plan_simps [simp]:
  "ar_allowed (decision_result d) = False" "ar_authenticated (decision_result d) = False"
  "ar_decision (decision_result d) = d"
  "ap_result (plain_plan d cs) = decision_result d" "ap_setCookies (plain_plan d cs) = cs"
  "ap_errorPage (plain_plan d cs) = None" "ap_accessDeniedReason (plain_plan d cs) = []"
  "ap_result (error_plan c t) = decision_result ''error''" "ap_setCookies (error_plan c t) = []"
  "ap_errorPage (error_plan c t) = Some \<lparr>ep_code = c, ep_title = t, ep_message = t\<rparr>"
  by (simp_all add: decision_result_def plain_plan_def error_plan_def)

lemma success_plan_simps [simp]:
  "ar_allowed (ap_result (success_plan U h))" "ar_authenticated (ap_result (success_plan U h))"
  "ap_setCookies (success_plan U h) = header_values h ''Set-Cookie''"
  "ap_errorPage (success_plan U h) = None" "ap_accessDeniedReason (success_plan U h) = []"
  "ar_decision (ap_result (success_plan U h)) = ''passed''"
  by (simp_all add: success_plan_def split: prod.split)

lemma refusal_plan_simps [simp]:
  "\<not> ar_allowed (ap_result (refusal_plan G U r cfg m h))"
  "ap_setCookies (refusal_plan G U r cfg m h) = header_values h ''Set-Cookie''"
  "ap_errorPage (refusal_plan G U r cfg m h) = None"
  "ap_accessDeniedReason (refusal_plan G U r cfg m h) \<noteq> [] \<longleftrightarrow>
     ar_decision (ap_result (refusal_plan G U r cfg m h)) = ''access_denied''"
  "ar_decision (ap_result (refusal_plan G U r cfg m h)) \<noteq> ''error''"
  by (simp_all add: refusal_plan_def Let_def)

text \<open>C29: the check fails closed: a request is let through by a fresh check exactly if the service is
  configured, was reached and answered a well-formed success; every failure to reach it or to
  read its answer is a refusal with an error page.\<close>

theorem auth_fails_closed:
  "(ar_allowed (ap_result (performAuthCheck G U r cfg accessMode reply)) \<longleftrightarrow>
      0 < ac_AuthPort cfg \<and> url_parse (auth_url cfg) \<noteq> None \<and>
      (\<exists>h msg. reply = Reply h (Some (True, msg)))) \<and>
   (ap_errorPage (performAuthCheck G U r cfg accessMode reply) \<noteq> None \<longleftrightarrow>
      ac_AuthPort cfg \<le> 0 \<or> url_parse (auth_url cfg) = None \<or> reply = Request_Failed \<or>
      (\<exists>h. reply = Reply h None))"
  by (auto simp: performAuthCheck_def split: auth_reply.split option.split prod.split)

lemma auth_check_allowed:
  "ar_allowed (ap_result (performAuthCheck G U r cfg accessMode reply)) \<Longrightarrow>
     \<exists>h msg. reply = Reply h (Some (True, msg)) \<and> performAuthCheck G U r cfg accessMode reply = success_plan U h"
  by (auto simp: performAuthCheck_def split: auth_reply.splits option.splits prod.splits if_splits)

section \<open>Traces of checks\<close>

datatype auth_event =
    Ev_Probe request string string time
  | Ev_Finish auth_config request string string auth_reply time time
  | Ev_SetCookies request string "string list"
  | Ev_Clear

fun auth_event_step :: "golib \<Rightarrow> unicode \<Rightarrow> auth_caches \<Rightarrow> auth_event \<Rightarrow> auth_caches" where
  "auth_event_step G U h (Ev_Probe r clientIP accessMode now) =
     (case buildAuthCacheLookup G U r clientIP accessMode of
        None \<Rightarrow> h
      | Some lookup \<Rightarrow> h\<lparr>hc_auth := snd (auth_probe r (fst lookup) now (hc_auth h))\<rparr>)"
| "auth_event_step G U h (Ev_Finish cfg r clientIP accessMode reply t stored) =
     (case buildAuthCacheLookup G U r clientIP accessMode of
        None \<Rightarrow> h
      | Some lookup \<Rightarrow>
          h\<lparr>hc_auth := snd (auth_finish cfg r lookup (performAuthCheck G U r cfg accessMode reply) t stored
                              (hc_auth h))\<rparr>)"
| "auth_event_step G U h (Ev_SetCookies r clientIP cs) = authCacheInvalidateForSetCookieMutation r clientIP cs h"
| "auth_event_step G U h Ev_Clear = clearAuthCache h"

definition new_caches :: auth_caches where
  "new_caches = \<lparr>hc_auth = newStateCache, hc_preflight = newStateCache\<rparr>"

text \<open>A check is a probe or two, and without a hit a finish; other checks may run in between.\<close>

lemma executeAuthCheck_events:
  fixes h :: auth_caches
  shows "\<exists>evs. snd (executeAuthCheck G U r cfg clientIP accessMode t reply h) = foldl (auth_event_step G U) h evs \<and>
    set evs \<subseteq> {Ev_Probe r clientIP accessMode (ak_start t), Ev_Probe r clientIP accessMode (ak_group t),
      Ev_Finish cfg r clientIP accessMode reply (ak_expiry t) (ak_stored t)}"
proof (cases "if authCacheEnabled cfg then buildAuthCacheLookup G U r clientIP accessMode else None")
  case None
  then show ?thesis by (intro exI [of _ "[]"]) (simp add: executeAuthCheck_def)
next
  case (Some lookup)
  then have l: "buildAuthCacheLookup G U r clientIP accessMode = Some lookup" by (simp split: if_splits)
  let ?p1 = "Ev_Probe r clientIP accessMode (ak_start t)" and ?p2 = "Ev_Probe r clientIP accessMode (ak_group t)"
  let ?f = "Ev_Finish cfg r clientIP accessMode reply (ak_expiry t) (ak_stored t)"
  obtain o1 c1 where p1: "auth_probe r (fst lookup) (ak_start t) (hc_auth h) = (o1, c1)" by fastforce
  obtain o2 c2 where p2: "auth_probe r (fst lookup) (ak_group t) c1 = (o2, c2)" by fastforce
  show ?thesis
  proof (cases o1)
    case hit: (Some e)
    then show ?thesis using Some l p1 by (intro exI [of _ "[?p1]"]) (simp add: executeAuthCheck_def)
  next
    case miss: None
    show ?thesis
    proof (cases o2)
      case hit: (Some e)
      then show ?thesis using Some l p1 p2 miss by (intro exI [of _ "[?p1, ?p2]"]) (simp add: executeAuthCheck_def)
    next
      case None
      then show ?thesis using Some l p1 p2 miss
        by (intro exI [of _ "[?p1, ?p2, ?f]"]) (simp add: executeAuthCheck_def split: prod.split)
    qed
  qed
qed

text \<open>What an event puts into the cache of results, and what it takes out.\<close>

definition cacheable :: "auth_config \<Rightarrow> request \<Rightarrow> auth_plan \<Rightarrow> bool" where
  "cacheable cfg r plan \<longleftrightarrow>
     ap_errorPage plan = None \<and> ap_setCookies plan = [] \<and> 0 < authCacheTTL cfg (ap_result plan) \<and>
     \<not> shouldBypassFNAppUnauthorizedAuthCache r (ap_result plan)"

fun event_puts :: "golib \<Rightarrow> unicode \<Rightarrow> auth_event \<Rightarrow> string \<Rightarrow> auth_entry \<Rightarrow> bool" where
  "event_puts G U (Ev_Finish cfg r clientIP accessMode reply t stored) k e =
     (let plan = performAuthCheck G U r cfg accessMode reply in
      cacheable cfg r plan \<and>
      (\<exists>i. buildAuthCacheLookup G U r clientIP accessMode = Some (k, i) \<and>
           e = plan_entry plan (t + authCacheTTL cfg (ap_result plan)) i))"
| "event_puts G U _ k e = False"

fun event_loses :: "auth_event \<Rightarrow> string \<Rightarrow> auth_entry \<Rightarrow> bool" where
  "event_loses (Ev_SetCookies r clientIP cs) k e =
     (let relevant = parseRelevantAuthSetCookies cs in
      relevant \<noteq> [] \<and> en_identityKey e \<noteq> [] \<and> en_identityKey e \<in> set (mutation_identities r clientIP relevant))"
| "event_loses Ev_Clear k e = True"
| "event_loses _ k e = False"

lemma ok_probe: "cache_ok c \<Longrightarrow> cache_ok (snd (auth_probe r k now c))"
proof -
  assume "cache_ok c"
  then have "cache_ok (snd (authCacheGet k now c))" by (auto simp: authCacheGet_def)
  then show ?thesis by (auto simp: auth_probe_def split: prod.split option.split)
qed

lemma look_probe: "cache_look (snd (auth_probe r k now c)) j = Some e \<Longrightarrow> cache_look c j = Some e"
  using look_get [of k now c j e]
  by (auto simp: auth_probe_def authCacheGet_def look_delete split: prod.splits option.splits if_splits)

lemma probe_hit:
  "fst (auth_probe r k now c) = Some e \<Longrightarrow>
     cache_look c k = Some e \<and> now < en_expiresAt e \<and> \<not> shouldBypassFNAppUnauthorizedAuthCache r (ae_result e)"
  using get_hit [of k now c e]
  by (auto simp: auth_probe_def authCacheGet_def split: prod.splits option.splits if_splits)

lemma finish_cache:
  "snd (auth_finish cfg r lookup plan t stored c) =
     (if cacheable cfg r plan
      then cacheStore (fst lookup) (plan_entry plan (t + authCacheTTL cfg (ap_result plan)) (snd lookup)) stored c
      else c)"
  by (simp add: auth_finish_def cacheable_def Let_def authCacheStore_def)

lemma mutation_auth:
  "hc_auth (authCacheInvalidateForSetCookieMutation r clientIP cs h) =
     (if parseRelevantAuthSetCookies cs = [] then hc_auth h
      else invalidateIdentities (mutation_identities r clientIP (parseRelevantAuthSetCookies cs)) (hc_auth h))"
  by (simp add: authCacheInvalidateForSetCookieMutation_def authCacheInvalidateByIdentityKeys_def Let_def)

lemma event_ok: "cache_ok (hc_auth h) \<Longrightarrow> cache_ok (hc_auth (auth_event_step G U h ev))"
  by (cases ev) (auto simp: ok_probe finish_cache mutation_auth clearAuthCache_def split: option.split)

lemma event_look:
  assumes ok: "cache_ok (hc_auth h)" and l: "cache_look (hc_auth (auth_event_step G U h ev)) k = Some e"
  shows "event_puts G U ev k e \<or> cache_look (hc_auth h) k = Some e \<and> \<not> event_loses ev k e"
proof (cases ev)
  case (Ev_Probe r clientIP accessMode now)
  then show ?thesis using l by (auto dest: look_probe split: option.splits)
next
  case (Ev_Finish cfg r clientIP accessMode reply t stored)
  then show ?thesis using l
    by (auto simp: finish_cache Let_def dest!: look_store split: option.splits if_splits)
next
  case (Ev_SetCookies r clientIP cs)
  then show ?thesis using l look_invalidate [OF ok]
    by (auto simp: mutation_auth Let_def split: if_splits)
next
  case Ev_Clear
  then show ?thesis using l by (simp add: clearAuthCache_def)
qed

lemma event_putsE:
  assumes "event_puts G U ev k e"
  obtains cfg r clientIP accessMode reply t stored i plan where
    "ev = Ev_Finish cfg r clientIP accessMode reply t stored"
    "plan = performAuthCheck G U r cfg accessMode reply" "cacheable cfg r plan"
    "buildAuthCacheLookup G U r clientIP accessMode = Some (k, i)"
    "e = plan_entry plan (t + authCacheTTL cfg (ap_result plan)) i"
proof (cases ev)
  case (Ev_Finish cfg r clientIP accessMode reply t stored)
  with assms obtain i where "cacheable cfg r (performAuthCheck G U r cfg accessMode reply)"
    "buildAuthCacheLookup G U r clientIP accessMode = Some (k, i)"
    "e = plan_entry (performAuthCheck G U r cfg accessMode reply)
       (t + authCacheTTL cfg (ap_result (performAuthCheck G U r cfg accessMode reply))) i"
    unfolding Ev_Finish event_puts.simps Let_def by blast
  with Ev_Finish show thesis by (rule that [OF _ refl])
qed (use assms in simp_all)

text \<open>The results kept by the handler are a store in the sense of the caches, one level up.\<close>

interpretation auth_trace: kept_store
    "\<lambda>h. cache_look (hc_auth h)" "auth_event_step G U" "\<lambda>h. cache_ok (hc_auth h)"
    "event_puts G U" event_loses for G U
  by unfold_locales (simp_all add: event_ok event_look)

text \<open>C30: a permission found in the cache goes back to an earlier check, finished less than the configured
  time ago, in which the authentication service answered a success without setting cookies, for a
  request with the same cache key; and no \<^verbatim>\<open>Set-Cookie\<close> that changes the session of the
  same identity and no clearing came in between.\<close>

theorem cached_permission_provenance:
  assumes "buildAuthCacheLookup G U r clientIP accessMode = Some (k, i)"
    and "fst (auth_probe r k now (hc_auth (foldl (auth_event_step G U) new_caches evs))) = Some e"
    and "ar_allowed (ae_result e)"
  shows "\<exists>pre post cfg' r' clientIP' mode' h msg t stored.
    evs = pre @ Ev_Finish cfg' r' clientIP' mode' (Reply h (Some (True, msg))) t stored # post \<and>
    buildAuthCacheLookup G U r' clientIP' mode' = Some (k, en_identityKey e) \<and>
    header_values h ''Set-Cookie'' = [] \<and>
    ae_result e = ap_result (success_plan U h) \<and>
    now < t + wrap64 (ac_AuthCacheTTL cfg' * second) \<and>
    (\<forall>ev \<in> set post. \<not> event_loses ev k e)"
proof -
  have l: "cache_look (hc_auth (foldl (auth_event_step G U) new_caches evs)) k = Some e"
    and now: "now < en_expiresAt e" using probe_hit [OF assms(2)] by blast+
  have "cache_ok (hc_auth new_caches)" "cache_look (hc_auth new_caches) k = None" by (simp_all add: new_caches_def)
  from auth_trace.provenance [OF this l] obtain pre ev post where
    evs: "evs = pre @ ev # post" and p: "event_puts G U ev k e" and n: "\<forall>ev \<in> set post. \<not> event_loses ev k e"
    by blast
  from p obtain cfg' r' clientIP' mode' reply t stored i' plan where
    ev: "ev = Ev_Finish cfg' r' clientIP' mode' reply t stored"
    and pl: "plan = performAuthCheck G U r' cfg' mode' reply" and c: "cacheable cfg' r' plan"
    and lk: "buildAuthCacheLookup G U r' clientIP' mode' = Some (k, i')"
    and e: "e = plan_entry plan (t + authCacheTTL cfg' (ap_result plan)) i'" by (rule event_putsE)
  have a: "ar_allowed (ap_result plan)" using assms(3) e by (simp add: plan_entry_def)
  then obtain h msg where reply: "reply = Reply h (Some (True, msg))" and plan: "plan = success_plan U h"
    using auth_check_allowed pl by blast
  have "authCacheTTL cfg' (ap_result plan) = wrap64 (ac_AuthCacheTTL cfg' * second)"
    using c plan by (auto simp: cacheable_def authCacheTTL_def split: if_splits)
  then have "now < t + wrap64 (ac_AuthCacheTTL cfg' * second)" using now e by (simp add: plan_entry_def)
  moreover have "evs = pre @ Ev_Finish cfg' r' clientIP' mode' (Reply h (Some (True, msg))) t stored # post"
    using evs ev reply by simp
  moreover have "buildAuthCacheLookup G U r' clientIP' mode' = Some (k, en_identityKey e)"
    using lk e by (simp add: plan_entry_def)
  moreover have "header_values h ''Set-Cookie'' = []" using c plan by (simp add: cacheable_def)
  moreover have "ae_result e = ap_result (success_plan U h)" using e plan by (simp add: plan_entry_def)
  ultimately show ?thesis using n by blast
qed

text \<open>A cacheable check that finishes is found until it expires, whatever was in the cache.\<close>

lemma probe_after_finish:
  assumes "cache_ok (hc_auth h)" and "buildAuthCacheLookup G U r clientIP accessMode = Some (k, i)"
    and "plan = performAuthCheck G U r cfg accessMode reply" and "cacheable cfg r plan"
    and "stored < t + authCacheTTL cfg (ap_result plan)" and "now < t + authCacheTTL cfg (ap_result plan)"
  shows "fst (auth_probe r k now (hc_auth (auth_event_step G U h
      (Ev_Finish cfg r clientIP accessMode reply t stored)))) =
    Some (plan_entry plan (t + authCacheTTL cfg (ap_result plan)) i)"
proof -
  let ?e = "plan_entry plan (t + authCacheTTL cfg (ap_result plan)) i"
  have "cache_look (cacheStore k ?e stored (hc_auth h)) k = Some ?e"
    using assms(1,5) by (intro look_store_live) (simp_all add: plan_entry_def)
  then have "cacheGet k now (cacheStore k ?e stored (hc_auth h)) = (Some ?e, cacheStore k ?e stored (hc_auth h))"
    using assms(6) by (simp add: cacheGet_def plan_entry_def)
  moreover have "\<not> shouldBypassFNAppUnauthorizedAuthCache r (ae_result ?e)"
    using assms(4) by (simp add: cacheable_def plan_entry_def)
  ultimately show ?thesis
    using assms(2-4) by (simp add: finish_cache auth_probe_def authCacheGet_def)
qed

definition cached_config :: auth_config where
  "cached_config = plain_config\<lparr>ac_AuthPort := 80, ac_AuthCacheTTL := 5\<rparr>"

lemma cached_config_plan:
  "performAuthCheck plain_golib plain_unicode plain_request cached_config m (Reply [] (Some (True, []))) =
     success_plan plain_unicode []"
  "authCacheTTL cached_config (ap_result (success_plan plain_unicode [])) = 5 * second"
  "cacheable cached_config plain_request (success_plan plain_unicode [])"
proof -
  have "url_parse (auth_url cached_config) \<noteq> None" by code_simp
  moreover have "\<not> ac_AuthPort cached_config \<le> 0" by (simp add: cached_config_def)
  ultimately show "performAuthCheck plain_golib plain_unicode plain_request cached_config m
      (Reply [] (Some (True, []))) = success_plan plain_unicode []"
    by (auto simp: performAuthCheck_def)
  show ttl: "authCacheTTL cached_config (ap_result (success_plan plain_unicode [])) = 5 * second"
    by (simp add: authCacheTTL_def cached_config_def wrap64_def second_def)
  show "cacheable cached_config plain_request (success_plan plain_unicode [])"
    using ttl by (simp add: cacheable_def second_def header_values_def al_get_Nil
        shouldBypassFNAppUnauthorizedAuthCache_def)
qed

lemma plain_lookup: "buildAuthCacheLookup plain_golib plain_unicode plain_request ''8.8.8.8'' m \<noteq> None"
proof -
  have "canonicalCookieIdentityKey (cookie_headers plain_request) = None" by code_simp
  moreover have "trim_space (auth_header plain_request) = []" "trim_space ''8.8.8.8'' \<noteq> []" by code_simp+
  ultimately show ?thesis
    by (simp add: buildAuthCacheLookup_def requestIdentity_def requestIdentityForCache_def Let_def)
qed

theorem cached_permission_provenance_witness:
  "\<exists>pre post cfg' r' clientIP' mode' h msg t stored.
    [Ev_Finish cached_config plain_request ''8.8.8.8'' [] (Reply [] (Some (True, []))) 0 0] =
      pre @ Ev_Finish cfg' r' clientIP' mode' (Reply h (Some (True, msg))) t stored # post \<and>
    1 < t + wrap64 (ac_AuthCacheTTL cfg' * second)"
proof -
  let ?evs = "[Ev_Finish cached_config plain_request ''8.8.8.8'' [] (Reply [] (Some (True, []))) 0 0]"
  obtain k i where l: "buildAuthCacheLookup plain_golib plain_unicode plain_request ''8.8.8.8'' [] = Some (k, i)"
    using plain_lookup by fastforce
  let ?e = "plan_entry (success_plan plain_unicode []) (5 * second) i"
  have "fst (auth_probe plain_request k 1 (hc_auth (foldl (auth_event_step plain_golib plain_unicode) new_caches ?evs))) =
      Some ?e"
    using probe_after_finish [OF _ l refl, of new_caches cached_config "Reply [] (Some (True, []))" 0 0 1]
    by (simp add: new_caches_def cached_config_plan second_def)
  from cached_permission_provenance [OF l this] show ?thesis by (simp add: plan_entry_def) blast
qed



section \<open>Answers from the cache\<close>

lemma perform_denied:
  "ap_errorPage (performAuthCheck G U r cfg m reply) = None \<Longrightarrow>
     ap_accessDeniedReason (performAuthCheck G U r cfg m reply) \<noteq> [] \<longleftrightarrow>
     ar_decision (ap_result (performAuthCheck G U r cfg m reply)) = ''access_denied''"
  by (auto simp: performAuthCheck_def split: auth_reply.splits option.splits prod.splits if_splits)

lemma perform_authenticated:
  "ar_allowed (ap_result (performAuthCheck G U r cfg m reply)) \<Longrightarrow>
     ar_authenticated (ap_result (performAuthCheck G U r cfg m reply))"
  using auth_check_allowed [of G U r cfg m reply] by auto

text \<open>C33: the cache is transparent: a cacheable result answered from its entry gives the response and the
  handler it would have given without a cache, except that a connection cut for a client that is
  not on the white list is then written to the access log.\<close>

theorem cache_transparent:
  assumes "plan = performAuthCheck G U r cfg accessMode reply"
    and "ap_errorPage plan = None" and "ap_setCookies plan = []"
  shows "applyAuthCacheEntry r (plan_entry plan expires i) clientIP ws_failed now h =
    (case applyAuthCheckPlan r plan clientIP ws_failed now h of
       (rx, h') \<Rightarrow> (rx\<lparr>rx_suppressLog := False\<rparr>, h'))"
proof -
  have d: "ap_accessDeniedReason plan \<noteq> [] \<longleftrightarrow> ar_decision (ap_result plan) = ''access_denied''"
    using assms(1,2) perform_denied by simp
  have a: "ar_allowed (ap_result plan) \<Longrightarrow> ar_authenticated (ap_result plan)"
    using assms(1) perform_authenticated by simp
  show ?thesis
    using assms(2,3) a
    by (simp add: applyAuthCacheEntry_def applyAuthCheckPlan_def plan_entry_def Let_def d react_def
        split: prod.split)
qed

theorem cache_transparent_witness:
  "rx_result (fst (applyAuthCacheEntry plain_request (plan_entry (success_plan plain_unicode []) 9 ''i'')
      ''8.8.8.8'' False 5 \<lparr>hc_auth = newStateCache, hc_preflight = newStateCache, ah_skipUntil = 0,
        ah_loggedIn = [], ah_mock = True\<rparr>)) =
   rx_result (fst (applyAuthCheckPlan plain_request (success_plan plain_unicode []) ''8.8.8.8'' False 5
      \<lparr>hc_auth = newStateCache, hc_preflight = newStateCache, ah_skipUntil = 0, ah_loggedIn = [], ah_mock = True\<rparr>))"
proof -
  have "ap_errorPage (success_plan plain_unicode []) = None" "ap_setCookies (success_plan plain_unicode []) = []"
    by (simp_all add: header_values_def al_get_Nil)
  from cache_transparent [OF cached_config_plan(1) [symmetric] this] show ?thesis
    by (simp split: prod.split)
qed

text \<open>The check behind the toolbar never stops a request: it is always let through and nothing is
  answered in its place.\<close>

theorem toolbar_never_blocks:
  "ar_allowed (rx_result (fst (checkAuthForToolbar G U r cfg clientIP t reply now h))) \<and>
   rx_answer (fst (checkAuthForToolbar G U r cfg clientIP t reply now h)) = Ans_None"
  by (simp add: checkAuthForToolbar_def applyToolbarAuthCacheEntry_def applyToolbarAuthCheckPlan_def
      not_required_def react_def Let_def split: prod.split auth_execution.split)

end
