(* ===== verification/Preflight.thy ===== *)
theory Preflight
  imports AuthCheck
begin

text \<open>
  The preflight of a request (\<^verbatim>\<open>pkg/proxy/handler.go\<close>, \<^verbatim>\<open>runPreflight\<close> and
  \<^verbatim>\<open>performPreflight\<close>): before a request is routed the service may deny it or redirect
  it.  Decisions are cached; after a failure to reach the service the preflight pauses for three
  seconds.  The lemmas say when the service is not asked at all.
\<close>

datatype preflight_reply = Preflight_Failed | Preflight_Reply header

definition no_decision :: preflight_decision where
  "no_decision = \<lparr>pd_deny = False, pd_redirectLocation = [], pd_accessDeniedReason = [],
                  pd_credentialIdentity = no_identity\<rparr>"

definition preflightFailureCooldown :: duration where
  "preflightFailureCooldown = 3 * second"

definition preflightCacheTTL :: "auth_config \<Rightarrow> duration" where
  "preflightCacheTTL cfg =
     (let successTTL = ac_AuthCacheTTL cfg; failTTL = ac_AuthCacheFailTTL cfg in
      if successTTL > 0 \<and> failTTL > 0 then
        (if successTTL < failTTL then wrap64 (successTTL * second) else wrap64 (failTTL * second))
      else if successTTL > 0 then wrap64 (successTTL * second)
      else if failTTL > 0 then wrap64 (failTTL * second)
      else 0)"

definition shouldBypassFNAppNegativePreflightCache :: "request \<Rightarrow> preflight_decision \<Rightarrow> bool" where
  "shouldBypassFNAppNegativePreflightCache r d =
     (isFNAppRequest r \<and> (pd_deny d \<or> trim_space (pd_redirectLocation d) \<noteq> []))"

definition preflight_url :: "auth_config \<Rightarrow> string" where
  "preflight_url cfg =
     localServiceURL (ac_AuthPort cfg)
       (if ac_PreflightURL cfg = [] then ''/api/auth/preflight'' else ac_PreflightURL cfg)"

text \<open>\<open>None\<close>: the service could not be asked or did not answer.\<close>

definition performPreflight :: "auth_config \<Rightarrow> preflight_reply \<Rightarrow> preflight_decision option" where
  "performPreflight cfg reply =
     (if url_parse (preflight_url cfg) = None then None
      else (case reply of
              Preflight_Failed \<Rightarrow> None
            | Preflight_Reply h \<Rightarrow>
                Some \<lparr>pd_deny = equal_fold (header_get h ''X-Option'') ''deny'',
                      pd_redirectLocation = redirect_header h,
                      pd_accessDeniedReason =
                        normalizeReauthAccessDeniedReason (header_get h ''X-Reauth-Access-Denied''),
                      pd_credentialIdentity = parseAuthCredentialIdentity h\<rparr>))"

definition preflight_probe :: "request \<Rightarrow> string \<Rightarrow> time \<Rightarrow> preflight_entry state_cache \<Rightarrow>
    preflight_entry option \<times> preflight_entry state_cache" where
  "preflight_probe r cacheKey now c =
     (case preflightCacheGet cacheKey now c of
        (None, c) \<Rightarrow> (None, c)
      | (Some e, c) \<Rightarrow>
          if shouldBypassFNAppNegativePreflightCache r (pe_decision e) then (None, deleteEntry cacheKey c)
          else (Some e, c))"

text \<open>The clock is read at the start, in the group, when the service has answered or failed, and for
  the store.\<close>

record preflight_clock =
  pk_start :: time
  pk_group :: time
  pk_done :: time
  pk_stored :: time

definition preflight_pause :: "time \<Rightarrow> auth_handler \<Rightarrow> auth_handler" where
  "preflight_pause t h = h\<lparr>ah_skipUntil := unix_nano (t + preflightFailureCooldown)\<rparr>"

definition preflight_asked ::
    "request \<Rightarrow> auth_config \<Rightarrow> (string \<times> string) option \<Rightarrow> preflight_clock \<Rightarrow> preflight_reply \<Rightarrow>
     auth_handler \<Rightarrow> preflight_decision \<times> auth_handler" where
  "preflight_asked r cfg lookup t reply h =
     (case performPreflight cfg reply of
        None \<Rightarrow> (no_decision, preflight_pause (pk_done t) h)
      | Some d \<Rightarrow>
          (let h = h\<lparr>ah_skipUntil := 0\<rparr> in
           (d, case lookup of
                 None \<Rightarrow> h
               | Some (cacheKey, identityKey) \<Rightarrow>
                   if shouldBypassFNAppNegativePreflightCache r d then h
                   else h\<lparr>hc_preflight := preflightCacheStore cacheKey
                            \<lparr>en_expiresAt = pk_done t + preflightCacheTTL cfg, en_identityKey = identityKey,
                             pe_decision = d\<rparr> (pk_stored t) (hc_preflight h)\<rparr>)))"

definition preflight_lookup ::
    "request \<Rightarrow> (string \<times> string) option \<Rightarrow> time \<Rightarrow> 'a auth_caches_scheme \<Rightarrow>
     preflight_entry option \<times> 'a auth_caches_scheme" where
  "preflight_lookup r lookup now h =
     (case lookup of
        None \<Rightarrow> (None, h)
      | Some (cacheKey, _) \<Rightarrow>
          (case preflight_probe r cacheKey now (hc_preflight h) of (hit, c) \<Rightarrow> (hit, h\<lparr>hc_preflight := c\<rparr>)))"

definition preflight_checked ::
    "request \<Rightarrow> auth_config \<Rightarrow> (string \<times> string) option \<Rightarrow> preflight_clock \<Rightarrow> preflight_reply \<Rightarrow>
     auth_handler \<Rightarrow> preflight_decision \<times> auth_handler" where
  "preflight_checked r cfg lookup t reply h0 =
     (case preflight_lookup r lookup (pk_start t) h0 of
        (Some e, h) \<Rightarrow> (pe_decision e, h)
      | (None, h) \<Rightarrow>
          if ah_skipUntil h > unix_nano (pk_start t) then (no_decision, h)
          else (case preflight_lookup r lookup (pk_group t) h of
                  (Some e, h) \<Rightarrow> (pe_decision e, h)
                | (None, h) \<Rightarrow> preflight_asked r cfg lookup t reply h))"

definition runPreflight ::
    "golib \<Rightarrow> unicode \<Rightarrow> request \<Rightarrow> auth_config \<Rightarrow> string \<Rightarrow> bool \<Rightarrow> string \<Rightarrow> preflight_clock \<Rightarrow>
     preflight_reply \<Rightarrow> auth_handler \<Rightarrow> preflight_decision \<times> auth_handler" where
  "runPreflight G U r cfg clientIP isMatch accessMode t reply h =
     (if header_get (rq_Header r) ''X-Reauth-Internal-Preflight'' = ''1'' then (no_decision, h)
      else if ac_AuthPort cfg \<le> 0 then (no_decision, h)
      else preflight_checked r cfg
             (if preflightCacheTTL cfg > 0 then buildPreflightCacheLookup G U r clientIP accessMode isMatch else None)
             t reply h)"

section \<open>Properties\<close>

lemma preflight_probe_hit:
  "fst (preflight_probe r k now c) = Some e \<Longrightarrow> cache_look c k = Some e \<and> now < en_expiresAt e"
  using get_hit [of k now c e]
  by (auto simp: preflight_probe_def preflightCacheGet_def split: prod.splits option.splits if_splits)

lemma preflight_probe_look:
  "cache_look (snd (preflight_probe r k now c)) j = Some e \<Longrightarrow> cache_look c j = Some e"
  using look_get [of k now c j e]
  by (auto simp: preflight_probe_def preflightCacheGet_def look_delete split: prod.splits option.splits if_splits)

lemma preflight_probe_empty:
  "cache_look c k = None \<Longrightarrow> preflight_probe r k now c = (None, c)"
  by (simp add: preflight_probe_def preflightCacheGet_def cacheGet_def)

lemma preflight_asked_fst:
  "fst (preflight_asked r cfg lookup t reply h) =
     (case performPreflight cfg reply of None \<Rightarrow> no_decision | Some d \<Rightarrow> d)"
  by (simp add: preflight_asked_def Let_def split: option.split)

lemma preflight_lookup_hit:
  "fst (preflight_lookup r lookup now h) = Some e \<Longrightarrow>
     \<exists>k i. lookup = Some (k, i) \<and> cache_look (hc_preflight h) k = Some e \<and> now < en_expiresAt e"
  by (auto simp: preflight_lookup_def split: option.splits prod.splits)
    (metis fst_conv preflight_probe_hit)+

lemma preflight_lookup_look:
  "cache_look (hc_preflight (snd (preflight_lookup r lookup now h))) j = Some e \<Longrightarrow>
     cache_look (hc_preflight h) j = Some e"
  by (auto simp: preflight_lookup_def split: option.splits prod.splits)
    (metis snd_conv preflight_probe_look)

lemma preflight_checked_source:
  "fst (preflight_checked r cfg lookup t reply h) = no_decision \<or>
   performPreflight cfg reply = Some (fst (preflight_checked r cfg lookup t reply h)) \<or>
   (\<exists>k i e. lookup = Some (k, i) \<and> cache_look (hc_preflight h) k = Some e \<and>
      (pk_start t < en_expiresAt e \<or> pk_group t < en_expiresAt e) \<and>
      fst (preflight_checked r cfg lookup t reply h) = pe_decision e)"
proof -
  obtain o1 h1 where p1: "preflight_lookup r lookup (pk_start t) h = (o1, h1)" by fastforce
  obtain o2 h2 where p2: "preflight_lookup r lookup (pk_group t) h1 = (o2, h2)" by fastforce
  show ?thesis
  proof (cases o1)
    case (Some e)
    with preflight_lookup_hit [of r lookup "pk_start t" h e] p1 show ?thesis
      by (auto simp: preflight_checked_def)
  next
    case miss: None
    show ?thesis
    proof (cases o2)
      case (Some e)
      obtain k i where "lookup = Some (k, i)" "cache_look (hc_preflight h1) k = Some e" "pk_group t < en_expiresAt e"
        using preflight_lookup_hit [of r lookup "pk_group t" h1 e] p2 Some by auto
      moreover from this have "cache_look (hc_preflight h) k = Some e"
        using preflight_lookup_look [of r lookup "pk_start t" h k e] p1 by simp
      ultimately show ?thesis using miss Some p1 p2 by (auto simp: preflight_checked_def)
    next
      case None
      with miss p1 p2 show ?thesis
        by (auto simp: preflight_checked_def preflight_asked_fst split: option.split)
    qed
  qed
qed

text \<open>A decision comes from the service, or from the cache, where it was stored for a request with
  the same key and has not expired; otherwise there is none: the service was not asked or did not
  answer, and the request goes on.\<close>

theorem preflight_decision_source:
  "fst (runPreflight G U r cfg clientIP isMatch accessMode t reply h) = no_decision \<or>
   performPreflight cfg reply = Some (fst (runPreflight G U r cfg clientIP isMatch accessMode t reply h)) \<or>
   (\<exists>cacheKey i e.
      buildPreflightCacheLookup G U r clientIP accessMode isMatch = Some (cacheKey, i) \<and>
      cache_look (hc_preflight h) cacheKey = Some e \<and>
      (pk_start t < en_expiresAt e \<or> pk_group t < en_expiresAt e) \<and>
      fst (runPreflight G U r cfg clientIP isMatch accessMode t reply h) = pe_decision e)"
proof -
  let ?lookup = "if preflightCacheTTL cfg > 0 then buildPreflightCacheLookup G U r clientIP accessMode isMatch
    else None"
  have s: "?lookup = Some x \<Longrightarrow> buildPreflightCacheLookup G U r clientIP accessMode isMatch = Some x" for x
    by (simp split: if_splits)
  show ?thesis
  proof (cases "header_get (rq_Header r) ''X-Reauth-Internal-Preflight'' = ''1'' \<or> ac_AuthPort cfg \<le> 0")
    case False
    then have "runPreflight G U r cfg clientIP isMatch accessMode t reply h = preflight_checked r cfg ?lookup t reply h"
      by (simp add: runPreflight_def)
    with preflight_checked_source [of r cfg ?lookup t reply h] s show ?thesis by metis
  qed (auto simp: runPreflight_def)
qed

text \<open>A client that sends the internal marker header itself is never checked: no decision is made
  for it and the service is not asked, whatever the cache, the configuration and the service say.\<close>

theorem preflight_skipped_by_client:
  assumes "header_get (rq_Header r) ''X-Reauth-Internal-Preflight'' = ''1''"
  shows "runPreflight G U r cfg clientIP isMatch accessMode t reply h = (no_decision, h)"
  using assms by (simp add: runPreflight_def)

definition idle_handler :: auth_handler where
  "idle_handler = \<lparr>hc_auth = newStateCache, hc_preflight = newStateCache, ah_skipUntil = 0, ah_loggedIn = [],
                   ah_mock = True\<rparr>"

definition early_clock :: preflight_clock where
  "early_clock = \<lparr>pk_start = 0, pk_group = 0, pk_done = 0, pk_stored = 0\<rparr>"

definition denying_header :: header where
  "denying_header = [(''X-Option'', [''deny''])]"

theorem preflight_skipped_by_client_witness:
  "pd_deny (fst (runPreflight plain_golib plain_unicode
       (plain_request\<lparr>rq_Header := [(''X-Reauth-Internal-Preflight'', [''1''])]\<rparr>)
       (plain_config\<lparr>ac_AuthPort := 80\<rparr>) ''8.8.8.8'' True [] early_clock (Preflight_Reply denying_header) idle_handler)) = False \<and>
   (\<exists>d. performPreflight (plain_config\<lparr>ac_AuthPort := 80\<rparr>) (Preflight_Reply denying_header) = Some d \<and> pd_deny d)"
proof -
  have h: "header_get (rq_Header (plain_request\<lparr>rq_Header := [(''X-Reauth-Internal-Preflight'', [''1''])]\<rparr>))
      ''X-Reauth-Internal-Preflight'' = ''1''" by code_simp
  have "url_parse (preflight_url (plain_config\<lparr>ac_AuthPort := 80\<rparr>)) \<noteq> None"
    "equal_fold (header_get denying_header ''X-Option'') ''deny''" by code_simp+
  then show ?thesis
    using preflight_skipped_by_client [OF h] by (auto simp: performPreflight_def no_decision_def)
qed

text \<open>An outage fails open: when the service cannot be asked, the request goes on, and until three
  seconds later so does every other request without a cached decision, unasked.\<close>

definition unix_range :: "time \<Rightarrow> bool" where
  "unix_range t \<longleftrightarrow> min_int64 \<le> t - 62135596800 * second \<and> t - 62135596800 * second \<le> max_int64"

lemma unix_nano_less: "unix_range a \<Longrightarrow> unix_range b \<Longrightarrow> unix_nano a < unix_nano b \<longleftrightarrow> a < b"
  by (simp add: unix_nano_def unix_range_def wrap64_id)

lemma run_uncached:
  assumes "cache_look (hc_preflight h) = (\<lambda>_. None)"
    and "header_get (rq_Header r) ''X-Reauth-Internal-Preflight'' \<noteq> ''1''" and "0 < ac_AuthPort cfg"
  shows "runPreflight G U r cfg clientIP isMatch accessMode t reply h =
    (if ah_skipUntil h > unix_nano (pk_start t) then (no_decision, h)
     else preflight_asked r cfg
       (if preflightCacheTTL cfg > 0 then buildPreflightCacheLookup G U r clientIP accessMode isMatch else None)
       t reply h)"
proof -
  have "cache_look (hc_preflight h) k = None" for k using assms(1) by metis
  then have "preflight_lookup r lookup now h = (None, h)" for lookup now
    by (simp add: preflight_lookup_def preflight_probe_empty split: option.split)
  then show ?thesis using assms(2,3) by (simp add: runPreflight_def preflight_checked_def)
qed

theorem preflight_outage_fails_open:
  assumes "cache_look (hc_preflight h) = (\<lambda>_. None)"
    and "header_get (rq_Header r) ''X-Reauth-Internal-Preflight'' \<noteq> ''1''" and "0 < ac_AuthPort cfg"
    and "performPreflight cfg reply = None" and "\<not> ah_skipUntil h > unix_nano (pk_start t)"
    and "runPreflight G U r cfg clientIP isMatch accessMode t reply h = (d, h')"
    and "unix_range (pk_start t')" and "unix_range (pk_done t + preflightFailureCooldown)"
    and "pk_start t' < pk_done t + preflightFailureCooldown"
  shows "d = no_decision \<and>
    runPreflight G U r' cfg' clientIP' isMatch' accessMode' t' reply' h' = (no_decision, h')"
proof -
  have h': "d = no_decision" "h' = preflight_pause (pk_done t) h"
    using assms(4-6) run_uncached [OF assms(1-3), of G U clientIP isMatch accessMode t reply]
    by (simp_all add: preflight_asked_def)
  have skip: "ah_skipUntil h' > unix_nano (pk_start t')"
    using assms(7-9) h'(2) by (simp add: preflight_pause_def unix_nano_less)
  have c: "cache_look (hc_preflight h') = (\<lambda>_. None)" using assms(1) h'(2) by (simp add: preflight_pause_def)
  show ?thesis
  proof (cases "header_get (rq_Header r') ''X-Reauth-Internal-Preflight'' = ''1'' \<or> ac_AuthPort cfg' \<le> 0")
    case True
    then show ?thesis using h'(1) by (auto simp: runPreflight_def)
  next
    case False
    with run_uncached [OF c, of r' cfg'] skip h'(1) show ?thesis by simp
  qed
qed

theorem preflight_outage_fails_open_witness:
  "runPreflight plain_golib plain_unicode plain_request (plain_config\<lparr>ac_AuthPort := 80\<rparr>) ''9.9.9.9'' True []
     (early_clock\<lparr>pk_start := 62135596800 * second + 2 * second\<rparr>) (Preflight_Reply denying_header)
     (snd (runPreflight plain_golib plain_unicode plain_request (plain_config\<lparr>ac_AuthPort := 80\<rparr>) ''8.8.8.8'' True []
       (early_clock\<lparr>pk_start := 62135596800 * second, pk_done := 62135596800 * second\<rparr>) Preflight_Failed idle_handler))
   = (no_decision, snd (runPreflight plain_golib plain_unicode plain_request (plain_config\<lparr>ac_AuthPort := 80\<rparr>)
       ''8.8.8.8'' True []
       (early_clock\<lparr>pk_start := 62135596800 * second, pk_done := 62135596800 * second\<rparr>) Preflight_Failed idle_handler))"
proof -
  have c: "cache_look (hc_preflight idle_handler) = (\<lambda>_. None)"
    by (rule ext) (simp add: idle_handler_def)
  have n: "header_get (rq_Header plain_request) ''X-Reauth-Internal-Preflight'' \<noteq> ''1''" by code_simp
  have p: "performPreflight (plain_config\<lparr>ac_AuthPort := 80\<rparr>) Preflight_Failed = None"
    by (simp add: performPreflight_def)
  show ?thesis
    by (rule preflight_outage_fails_open [OF c n _ p _ surjective_pairing, THEN conjunct2])
      (simp_all add: idle_handler_def early_clock_def unix_nano_def wrap64_def unix_range_def
        min_int64_def max_int64_def preflightFailureCooldown_def second_def)
qed

end
