(* ===== verification/Targets.thy ===== *)
theory Targets
  imports LoginUrl AuthReply
begin

text \<open>
  The targets of rules: parsing, the schemes the proxy supports, what is compiled for a
  target when a configuration is published, and the check that keeps rules from pointing at
  the administration interface (\<^verbatim>\<open>proxy/handler.go\<close>).
\<close>

section \<open>Parsing targets\<close>

datatype target_error =
    Malformed_URL
  | Unsupported_Scheme string
  | No_Hostname
  | Local_Admin_Port int

definition isSupportedReverseProxyTargetScheme :: "unicode \<Rightarrow> string \<Rightarrow> bool" where
  "isSupportedReverseProxyTargetScheme U scheme =
     (to_lower U scheme \<in> set [''http'', ''https'', ''ws'', ''wss''])"

definition parseReverseProxyTargetURL :: "unicode \<Rightarrow> string \<Rightarrow> target_error + url" where
  "parseReverseProxyTargetURL U target =
     (case url_parse (trim_space target) of
        None \<Rightarrow> Inl Malformed_URL
      | Some u0 \<Rightarrow>
          let u = u0\<lparr>u_Scheme := to_lower U (u_Scheme u0)\<rparr> in
          if \<not> isSupportedReverseProxyTargetScheme U (u_Scheme u) then Inl (Unsupported_Scheme (u_Scheme u))
          else if url_hostname u = [] then Inl No_Hostname
          else Inr u)"

definition reverseProxyTransportURL :: "unicode \<Rightarrow> url \<Rightarrow> url" where
  "reverseProxyTransportURL U u =
     (let s = to_lower U (u_Scheme u) in
      if s = ''ws'' then u\<lparr>u_Scheme := ''http''\<rparr>
      else if s = ''wss'' then u\<lparr>u_Scheme := ''https''\<rparr>
      else if s = ''http'' \<or> s = ''https'' then u\<lparr>u_Scheme := s\<rparr>
      else u)"

definition parseReverseProxyTargetURLs :: "unicode \<Rightarrow> string \<Rightarrow> target_error + url \<times> url" where
  "parseReverseProxyTargetURLs U target =
     (case parseReverseProxyTargetURL U target of
        Inl e \<Rightarrow> Inl e
      | Inr u \<Rightarrow> Inr (u, reverseProxyTransportURL U u))"

definition reverseProxyTargetSupportsHTMLFeatures :: "unicode \<Rightarrow> url \<Rightarrow> bool" where
  "reverseProxyTargetSupportsHTMLFeatures U u = (to_lower U (u_Scheme u) \<in> {''http'', ''https''})"

definition rawReverseProxyTargetSupportsHTMLFeatures :: "unicode \<Rightarrow> string \<Rightarrow> bool" where
  "rawReverseProxyTargetSupportsHTMLFeatures U target =
     (case parseReverseProxyTargetURL U target of
        Inl e \<Rightarrow> False
      | Inr u \<Rightarrow> reverseProxyTargetSupportsHTMLFeatures U u)"

section \<open>Compiled targets\<close>

record target_runtime =
  rt_targetURL :: "url option"
  rt_transportURL :: "url option"
  rt_supportsHTMLFeatures :: bool
  rt_err :: "target_error option"

definition compileReverseProxyTargetRuntime :: "unicode \<Rightarrow> string \<Rightarrow> target_runtime" where
  "compileReverseProxyTargetRuntime U target =
     (case parseReverseProxyTargetURLs U target of
        Inl e \<Rightarrow> \<lparr>rt_targetURL = None, rt_transportURL = None, rt_supportsHTMLFeatures = False, rt_err = Some e\<rparr>
      | Inr (u, t) \<Rightarrow> \<lparr>rt_targetURL = Some u, rt_transportURL = Some t,
                        rt_supportsHTMLFeatures = reverseProxyTargetSupportsHTMLFeatures U u, rt_err = None\<rparr>)"

definition reverseProxyTargetRuntimeKey :: "string \<Rightarrow> string" where
  "reverseProxyTargetRuntimeKey target = trim_space target"

type_synonym target_map = "(string \<times> target_runtime) list"

definition runtime_usable :: "target_runtime \<Rightarrow> bool" where
  "runtime_usable rt = (rt_err rt = None \<and> rt_supportsHTMLFeatures rt)"

definition targetRuntimeFor :: "unicode \<Rightarrow> target_map \<Rightarrow> string \<Rightarrow> target_runtime" where
  "targetRuntimeFor U targets target =
     (case al_get targets (reverseProxyTargetRuntimeKey target) of
        Some rt \<Rightarrow> rt
      | None \<Rightarrow> compileReverseProxyTargetRuntime U target)"

definition targetSupportsToolbarNavigation :: "unicode \<Rightarrow> string \<Rightarrow> target_map \<Rightarrow> bool" where
  "targetSupportsToolbarNavigation U target targets =
     (if trim_space target = [] then True else runtime_usable (targetRuntimeFor U targets target))"

section \<open>Targets a rule may have\<close>

definition checkSafeTarget :: "unicode \<Rightarrow> int \<Rightarrow> string \<Rightarrow> target_error option" where
  "checkSafeTarget U adminPort target =
     (case parseReverseProxyTargetURLs U target of
        Inl e \<Rightarrow> Some e
      | Inr (u, t) \<Rightarrow>
          if url_hostname u = [] then Some No_Hostname
          else if url_hostname u \<in> {''localhost'', ''127.0.0.1'', ''::1''} \<and> url_port u = itoa adminPort
          then Some (Local_Admin_Port adminPort)
          else None)"

section \<open>Lemmas\<close>

lemma hostname_with_scheme [simp]: "url_hostname (u\<lparr>u_Scheme := s\<rparr>) = url_hostname u"
  "url_port (u\<lparr>u_Scheme := s\<rparr>) = url_port u"
  by (simp_all add: url_hostname_def url_port_def)

lemma trim_space_idem_key [simp]:
  "reverseProxyTargetRuntimeKey (reverseProxyTargetRuntimeKey t) = reverseProxyTargetRuntimeKey t"
  by (simp add: reverseProxyTargetRuntimeKey_def trim_space_idem)

text \<open>Two targets with one key compile alike.\<close>

lemma compile_key:
  assumes "reverseProxyTargetRuntimeKey s = reverseProxyTargetRuntimeKey t"
  shows "compileReverseProxyTargetRuntime U s = compileReverseProxyTargetRuntime U t"
  using assms
  by (simp add: compileReverseProxyTargetRuntime_def parseReverseProxyTargetURLs_def
      parseReverseProxyTargetURL_def reverseProxyTargetRuntimeKey_def)

lemma parsed_target:
  assumes "parseReverseProxyTargetURL U target = Inr u"
  shows "to_lower U (u_Scheme u) \<in> {''http'', ''https'', ''ws'', ''wss''} \<and> url_hostname u \<noteq> []"
  using assms
  by (auto simp: parseReverseProxyTargetURL_def isSupportedReverseProxyTargetScheme_def Let_def
      split: option.splits if_splits)

lemma safe_target_parses:
  assumes "checkSafeTarget U port target = None"
  obtains u where "parseReverseProxyTargetURL U target = Inr u"
    and "\<not> (url_hostname u \<in> {''localhost'', ''127.0.0.1'', ''::1''} \<and> url_port u = itoa port)"
  using assms
  by (auto simp: checkSafeTarget_def parseReverseProxyTargetURLs_def
      split: sum.splits if_splits)

end
