(* ===== verification/HostNames.thy ===== *)
theory HostNames
  imports Targets AuthCheck
begin

text \<open>
  What the normalisation of host names gives: without port, trimmed, in lower case, and
  normal already, so that the names under which rules are stored are found again.
\<close>


lemma trimmed_iff: "trim_space s = s \<longleftrightarrow> space_len s = 0 \<and> space_len_rev (rev s) = 0"
proof
  assume t: "trim_space s = s"
  have "space_len s = 0"
    using space_len_prefix [OF trim_right_prefix [of "trim_left s"] space_len_trim_left] t
    by (simp add: trim_space_def)
  moreover have "space_len_rev (rev s) = 0"
    using t space_len_trim_left_rev [of "rev (trim_left s)"] by (metis rev_rev_ident trim_right_def trim_space_def)
  ultimately show "space_len s = 0 \<and> space_len_rev (rev s) = 0" ..
next
  assume "space_len s = 0 \<and> space_len_rev (rev s) = 0"
  then show "trim_space s = s"
    by (simp add: trim_space_def trim_right_def trim_left_id trim_left_rev_id)
qed

lemma space_len_ascii: "is_ascii s \<Longrightarrow> space_len s = 0 \<longleftrightarrow> s = [] \<or> \<not> ascii_space (hd s)"
  by (cases s rule: space_len.cases) (auto simp: is_ascii_def space2_def space3_def)

lemma space_len_rev_ascii: "is_ascii s \<Longrightarrow> space_len_rev s = 0 \<longleftrightarrow> s = [] \<or> \<not> ascii_space (hd s)"
  by (cases s rule: space_len_rev.cases) (auto simp: is_ascii_def space2_def space3_def)

lemma is_ascii_rev [simp]: "is_ascii (rev s) = is_ascii s"
  by (simp add: is_ascii_def)

lemma ascii_space_lower [simp]: "ascii_space (lowerASCII c) = ascii_space c"
  by (simp add: ascii_space_def byte_lowerASCII)

lemma trim_lower:
  assumes "is_ascii s"
  shows "trim_space (map lowerASCII s) = map lowerASCII s \<longleftrightarrow> trim_space s = s"
  using assms
  by (auto simp: trimmed_iff space_len_ascii space_len_rev_ascii rev_map hd_map)

lemma lowerASCIIString_ascii: "is_ascii s \<Longrightarrow> lowerASCIIString U s = map lowerASCII s"
  by (auto simp: lowerASCIIString_def to_lower_def is_ascii_def list_all_iff list_ex_iff lowerASCII_def
      intro!: map_idI [symmetric])

lemma lower_punct: "byte c < 65 \<or> 90 < byte c \<and> byte c < 97 \<Longrightarrow> lowerASCII x = c \<longleftrightarrow> x = c"
  by (auto simp: lowerASCII_def split: if_splits)


text \<open>The host name without its port, and the texts that have none.\<close>

definition host_body :: "string \<Rightarrow> string" where
  "host_body v =
     (case (if hasPrefix v ''['' then last_index_byte v CHR '']'' else None) of
        Some idx \<Rightarrow> take (Suc idx) v
      | None \<Rightarrow>
          (case last_index_byte v CHR '':'' of
             Some idx \<Rightarrow> if CHR '':'' \<notin> set (take idx v) then trim_space (take idx v) else v
           | None \<Rightarrow> v))"

definition portless :: "string \<Rightarrow> bool" where
  "portless v =
     (if hasPrefix v ''['' \<and> CHR '']'' \<in> set v then last v = CHR '']'' else count_list v CHR '':'' \<noteq> 1)"

lemma last_index_cases:
  obtains "last_index_byte s c = None" "c \<notin> set s"
  | p r where "s = p @ c # r" "c \<notin> set r" "last_index_byte s c = Some (length p)"
proof (cases "c \<in> set s")
  case True
  then obtain p r where "s = p @ c # r" "c \<notin> set r" by (metis split_list_last)
  then show ?thesis using that(2) last_index_byte_append by blast
qed (use that(1) in \<open>simp add: last_index_byte_def\<close>)

lemma count_list_0 [simp]: "count_list s c = 0 \<longleftrightarrow> c \<notin> set s"
  by (rule count_list_0_iff)

lemma host_body_portless: "portless v \<Longrightarrow> host_body v = v"
proof -
  assume p: "portless v"
  show ?thesis
  proof (cases "hasPrefix v ''['' \<and> CHR '']'' \<in> set v")
    case True
    with p have l: "last v = CHR '']''" by (simp add: portless_def)
    from True have "v \<noteq> []" by auto
    with l obtain p where "v = p @ [CHR '']'']" by (metis append_butlast_last_id)
    with True show ?thesis
      using last_index_byte_append [of "CHR '']''" "[]" p] by (simp add: host_body_def)
  next
    case False
    with p have c: "count_list v CHR '':'' \<noteq> 1" by (auto simp: portless_def)
    have n: "(if hasPrefix v ''['' then last_index_byte v CHR '']'' else None) = None"
      using False by (auto simp: last_index_byte_def)
    show ?thesis
      using c unfolding host_body_def n
      by (cases rule: last_index_cases [of v "CHR '':''"]) auto
  qed
qed

lemma trim_prefix_hd: "trim_space v = v \<Longrightarrow> prefix p v \<Longrightarrow> prefix (trim_space p) p"
proof -
  assume "trim_space v = v" "prefix p v"
  then have "space_len p = 0" using space_len_prefix by (auto simp: trimmed_iff)
  then show ?thesis using trim_right_prefix [of p] by (simp add: trim_space_def trim_left_id)
qed

lemma portless_host_body:
  assumes t: "trim_space v = v"
  shows "portless (host_body v) \<and> trim_space (host_body v) = host_body v"
proof (cases "hasPrefix v ''['' \<and> CHR '']'' \<in> set v")
  case True
  then obtain p r where v: "v = p @ CHR '']'' # r" and r: "CHR '']'' \<notin> set r"
    by (metis split_list_last)
  with True have b: "host_body v = p @ [CHR '']'']"
    by (simp add: host_body_def last_index_byte_append)
  have pre: "hasPrefix (p @ [CHR '']'']) ''[''"
    using True v by (cases p) (auto simp: hasPrefix_def)
  have "trim_space (p @ [CHR '']'']) = p @ [CHR '']'']"
    by (rule trim_space_graph) (use pre in \<open>auto simp: hasPrefix_def prefix_def graph_char_def byte_def\<close>)
  with b pre show ?thesis by (simp add: portless_def)
next
  case False
  have n: "(if hasPrefix v ''['' then last_index_byte v CHR '']'' else None) = None"
    using False by (auto simp: last_index_byte_def)
  show ?thesis
  proof (cases "count_list v CHR '':'' = 1")
    case True
    then have "CHR '':'' \<in> set v" by (metis count_list_0 zero_neq_one)
    then obtain p r where v: "v = p @ CHR '':'' # r" and "CHR '':'' \<notin> set r"
      by (metis split_list_last)
    with True have p: "CHR '':'' \<notin> set p" by simp
    have b: "host_body v = trim_space p"
      unfolding host_body_def n using v p \<open>CHR '':'' \<notin> set r\<close> by (simp add: last_index_byte_append)
    have pre: "prefix (trim_space p) v"
      using trim_prefix_hd [OF t, of p] v by (meson prefixI prefix_order.trans)
    have "\<not> (hasPrefix (trim_space p) ''['' \<and> CHR '']'' \<in> set (trim_space p))"
      using False pre by (auto simp: hasPrefix_def prefix_def)
    moreover have "CHR '':'' \<notin> set (trim_space p)" using p set_trim_space [of p] by auto
    ultimately have "portless (trim_space p)" by (auto simp: portless_def)
    with b show ?thesis by simp
  next
    case c: False
    have "host_body v = v"
      by (rule host_body_portless) (use False c in \<open>auto simp: portless_def\<close>)
    with False c t show ?thesis by (auto simp: portless_def)
  qed
qed

lemma normalizeRequestHost_ascii:
  assumes "is_ascii host"
  shows "normalizeRequestHost U host = map lowerASCII (host_body (trim_space host))"
proof -
  let ?v = "trim_space host"
  have a: "is_ascii ?v" using assms by (rule is_ascii_trim)
  have take: "is_ascii (take n ?v)" "is_ascii (trim_space (take n ?v))" for n
    using a by (auto intro: prefix_is_ascii [OF take_is_prefix] is_ascii_trim)
  note low = lowerASCIIString_ascii [OF a, of U] lowerASCIIString_ascii [OF take(1), of U]
    lowerASCIIString_ascii [OF take(2), of U]
  have e: "host_body [] = []" by (simp add: host_body_def last_index_byte_def)
  show ?thesis
  proof (cases "?v = []")
    case False
    then show ?thesis
      unfolding normalizeRequestHost_def Let_def host_body_def low by (auto split: option.splits)
  qed (simp add: normalizeRequestHost_def e)
qed

lemma is_ascii_host_body: "is_ascii v \<Longrightarrow> is_ascii (host_body v)"
  by (auto simp: host_body_def intro: prefix_is_ascii [OF take_is_prefix] is_ascii_trim split: option.split)

lemma count_list_lower: "byte c < 65 \<Longrightarrow> count_list (map lowerASCII s) c = count_list s c"
  by (induction s) (auto simp: lower_punct)

lemma in_set_map_punct:
  "byte c < 65 \<or> 90 < byte c \<and> byte c < 97 \<Longrightarrow> c \<in> set (map lowerASCII s) \<longleftrightarrow> c \<in> set s"
proof -
  assume c: "byte c < 65 \<or> 90 < byte c \<and> byte c < 97"
  have "c \<in> set (map lowerASCII s) \<longleftrightarrow> (\<exists>x \<in> set s. lowerASCII x = c)" by auto
  also have "\<dots> \<longleftrightarrow> c \<in> set s" unfolding lower_punct [OF c] by auto
  finally show ?thesis .
qed

lemma portless_lower: "portless (map lowerASCII v) = portless v"
proof (cases v)
  case (Cons c cs)
  have m: "CHR '']'' \<in> set (map lowerASCII v) \<longleftrightarrow> CHR '']'' \<in> set v"
    by (rule in_set_map_punct) (simp add: byte_def)
  have h: "hasPrefix (map lowerASCII v) ''['' \<longleftrightarrow> hasPrefix v ''[''"
    using lower_punct [of "CHR ''[''" c] Cons by (auto simp: hasPrefix_def byte_def)
  have ne: "v \<noteq> []" using Cons by simp
  have l: "last (map lowerASCII v) = CHR '']'' \<longleftrightarrow> last v = CHR '']''"
    unfolding last_map [OF ne] by (rule lower_punct) (simp add: byte_def)
  show ?thesis
    unfolding portless_def m h l using count_list_lower [of "CHR '':''" v] by (simp add: byte_def)
qed simp

lemma normalizeRequestHost_idem:
  assumes "is_ascii host"
  shows "normalizeRequestHost U (normalizeRequestHost U host) = normalizeRequestHost U host"
    and "is_ascii (normalizeRequestHost U host)"
proof -
  let ?b = "host_body (trim_space host)"
  have a: "is_ascii ?b" using assms by (simp add: is_ascii_host_body is_ascii_trim)
  have p: "portless ?b" "trim_space ?b = ?b" using portless_host_body [of "trim_space host"] by auto
  have n: "normalizeRequestHost U host = map lowerASCII ?b"
    using assms by (rule normalizeRequestHost_ascii)
  have t: "trim_space (map lowerASCII ?b) = map lowerASCII ?b"
    using a p(2) by (simp add: trim_lower)
  have "host_body (map lowerASCII ?b) = map lowerASCII ?b"
    by (rule host_body_portless) (simp add: portless_lower p(1))
  then show "normalizeRequestHost U (normalizeRequestHost U host) = normalizeRequestHost U host"
    using a by (simp add: n normalizeRequestHost_ascii t o_def)
  show "is_ascii (normalizeRequestHost U host)" using a by (simp add: n)
qed

end
