(* ===== verification/Routes.thy ===== *)
theory Routes
  imports HostNames
begin

text \<open>
  Rules, the snapshot of the configuration a request is served from, and how a request finds
  its rule: by path, by host, by location within a host, by the cookie of the last root-mode
  selection (\<^verbatim>\<open>models/config.go\<close>, \<^verbatim>\<open>proxy/handler.go\<close>).
\<close>

section \<open>Rules\<close>

record path_rule =
  pr_Path :: string
  pr_Target :: string
  pr_UseAuth :: bool
  pr_StripPath :: bool
  pr_RewriteHTML :: bool
  pr_UseRootMode :: bool

record location_response =
  lr_Status :: int
  lr_ContentType :: string
  lr_Headers :: "(string \<times> string) list"
  lr_Body :: string

record host_location =
  hl_Path :: string
  hl_Match :: string
  hl_Action :: string
  hl_Target :: string
  hl_StripPath :: bool
  hl_RewriteHTML :: bool
  hl_Response :: location_response

record basic_auth =
  ba_Enabled :: bool
  ba_Username :: string
  ba_Password :: string

record host_rule =
  hr_Host :: string
  hr_Target :: string
  hr_UseAuth :: bool
  hr_AccessMode :: string
  hr_SuppressToolbar :: bool
  hr_PreserveHost :: bool
  hr_Title :: string
  hr_Favicon :: string
  hr_BasicAuth :: basic_auth
  hr_Locations :: "host_location list"

record gateway_portal =
  gp_Enabled :: bool
  gp_DisplayStyle :: string
  gp_ShowAppIcon :: bool
  gp_enabledSet :: bool

definition NormalizeGatewayPortalConfig :: "gateway_portal \<Rightarrow> gateway_portal" where
  "NormalizeGatewayPortalConfig cfg =
     \<lparr>gp_Enabled = (if \<not> gp_enabledSet cfg \<and> \<not> gp_Enabled cfg then True else gp_Enabled cfg),
      gp_DisplayStyle = (if gp_DisplayStyle cfg = ''title'' then ''title'' else ''domain''),
      gp_ShowAppIcon = gp_ShowAppIcon cfg,
      gp_enabledSet = True\<rparr>"

section \<open>The snapshot\<close>

record request_snapshot =
  sn_rules :: "path_rule list"
  sn_rulesByLength :: "path_rule list"
  sn_rulesByPath :: "(string \<times> path_rule) list"
  sn_hostRules :: "host_rule list"
  sn_hostRulesByHost :: "(string \<times> host_rule) list"
  sn_targets :: target_map
  sn_toolbarRules :: "path_rule list"
  sn_toolbarHostRules :: "host_rule list"
  sn_defaultRoute :: string
  sn_defaultRule :: "path_rule option"
  sn_authConfig :: auth_config
  sn_gatewayPortal :: gateway_portal
  sn_proxyProtocolForce :: bool

text \<open>The two indexes keep the first rule of every key that is not empty.\<close>

definition index_rule :: "('a \<Rightarrow> string) \<Rightarrow> (string \<times> 'a) list \<Rightarrow> 'a \<Rightarrow> (string \<times> 'a) list" where
  "index_rule key m x = (if key x = [] \<or> al_get m (key x) \<noteq> None then m else al_put (key x) x m)"

definition index_rules :: "('a \<Rightarrow> string) \<Rightarrow> 'a list \<Rightarrow> (string \<times> 'a) list" where
  "index_rules key xs = foldl (index_rule key) [] xs"

definition rules_by_length :: "path_rule list \<Rightarrow> path_rule list" where
  "rules_by_length rules = sort_key (\<lambda>r. - int (length (pr_Path r))) rules"

definition add_target :: "unicode \<Rightarrow> target_map \<Rightarrow> string \<Rightarrow> target_map" where
  "add_target U targets target =
     (let key = reverseProxyTargetRuntimeKey target in
      if al_get targets key \<noteq> None then targets
      else al_put key (compileReverseProxyTargetRuntime U target) targets)"

definition rule_targets :: "path_rule list \<Rightarrow> host_rule list \<Rightarrow> string list" where
  "rule_targets rules hostRules =
     map pr_Target rules @
     concat (map (\<lambda>h. hr_Target h #
                      map hl_Target (filter (\<lambda>l. hl_Action l \<noteq> ''response'') (hr_Locations h))) hostRules)"

definition buildReverseProxyTargetRuntimeMap :: "unicode \<Rightarrow> path_rule list \<Rightarrow> host_rule list \<Rightarrow> target_map" where
  "buildReverseProxyTargetRuntimeMap U rules hostRules = foldl (add_target U) [] (rule_targets rules hostRules)"

definition reverseProxyTargetRuntimeFor :: "unicode \<Rightarrow> request_snapshot \<Rightarrow> string \<Rightarrow> target_runtime" where
  "reverseProxyTargetRuntimeFor U sn target = targetRuntimeFor U (sn_targets sn) target"

definition snapshotReverseProxyTargetSupportsHTMLFeatures :: "unicode \<Rightarrow> request_snapshot \<Rightarrow> string \<Rightarrow> bool" where
  "snapshotReverseProxyTargetSupportsHTMLFeatures U sn target =
     runtime_usable (reverseProxyTargetRuntimeFor U sn target)"

definition buildToolbarRouteSnapshot ::
    "unicode \<Rightarrow> path_rule list \<Rightarrow> host_rule list \<Rightarrow> target_map \<Rightarrow> path_rule list \<times> host_rule list" where
  "buildToolbarRouteSnapshot U rules hostRules targets =
     (filter (\<lambda>r. targetSupportsToolbarNavigation U (pr_Target r) targets) rules,
      filter (\<lambda>h. targetSupportsToolbarNavigation U (hr_Target h) targets) hostRules)"

definition selectRoute :: string where
  "selectRoute = ''/__select__''"

definition buildRequestSnapshot ::
    "unicode \<Rightarrow> path_rule list \<Rightarrow> host_rule list \<Rightarrow> string \<Rightarrow> auth_config \<Rightarrow> gateway_portal \<Rightarrow> bool \<Rightarrow> request_snapshot" where
  "buildRequestSnapshot U rules hostRules defaultRoute cfg portal force =
     (let byPath = index_rules pr_Path rules;
          targets = buildReverseProxyTargetRuntimeMap U rules hostRules;
          toolbar = buildToolbarRouteSnapshot U rules hostRules targets
      in \<lparr>sn_rules = rules,
          sn_rulesByLength = rules_by_length rules,
          sn_rulesByPath = byPath,
          sn_hostRules = hostRules,
          sn_hostRulesByHost = index_rules (\<lambda>h. normalizeRequestHost U (hr_Host h)) hostRules,
          sn_targets = targets,
          sn_toolbarRules = fst toolbar,
          sn_toolbarHostRules = snd toolbar,
          sn_defaultRoute = defaultRoute,
          sn_defaultRule = (if defaultRoute \<noteq> [] \<and> defaultRoute \<noteq> selectRoute then al_get byPath defaultRoute else None),
          sn_authConfig = cfg,
          sn_gatewayPortal = NormalizeGatewayPortalConfig portal,
          sn_proxyProtocolForce = force\<rparr>)"

section \<open>The rule of a path\<close>

fun indexed_match :: "(string \<times> path_rule) list \<Rightarrow> string \<Rightarrow> nat \<Rightarrow> path_rule option" where
  "indexed_match m p 0 = None"
| "indexed_match m p (Suc n) =
     (case al_get m (take (Suc n) p) of Some r \<Rightarrow> Some r | None \<Rightarrow> indexed_match m p n)"

definition path_prefixed :: "string \<Rightarrow> path_rule \<Rightarrow> bool" where
  "path_prefixed p r = (pr_Path r \<noteq> [] \<and> hasPrefix p (pr_Path r))"

definition rule_and_length :: "path_rule option \<Rightarrow> path_rule option \<times> nat" where
  "rule_and_length m = (m, case m of Some r \<Rightarrow> length (pr_Path r) | None \<Rightarrow> 0)"

definition longestPathRuleMatch :: "string \<Rightarrow> request_snapshot \<Rightarrow> path_rule option \<times> nat" where
  "longestPathRuleMatch p sn =
     (let rules = (if sn_rulesByLength sn = [] then sn_rules sn else sn_rulesByLength sn) in
      if sn_rulesByPath sn \<noteq> [] \<and> length p \<le> length rules * 4
      then rule_and_length (indexed_match (sn_rulesByPath sn) p (length p))
      else rule_and_length (List.find (path_prefixed p) rules))"

text \<open>\<^verbatim>\<open>Request.Cookie\<close>: the first cookie of that name that is well formed.\<close>

definition http_blanks :: string where
  "http_blanks = [CHR '' '', CHR 0x09, CHR 0x0A, CHR 0x0D]"

definition read_cookie :: "string \<Rightarrow> string \<Rightarrow> string option" where
  "read_cookie want part0 =
     (let part = trim_set part0 http_blanks in
      case cut_byte CHR ''='' part of (name0, raw, _) \<Rightarrow>
        let name = trim_set name0 http_blanks in
        if \<not> valid_field_name name \<or> name \<noteq> want then None else parseCanonicalCookieValue raw)"

definition request_cookie :: "request \<Rightarrow> string \<Rightarrow> string option" where
  "request_cookie r want =
     (if sum_list (map (\<lambda>h. count_byte h CHR '';'' + 1) (cookie_headers r)) > defaultCookieMaxNum then None
      else (case List.map_filter (read_cookie want)
                   (concat (map (\<lambda>h. split_byte CHR '';'' (trim_set h http_blanks)) (cookie_headers r))) of
              v # _ \<Rightarrow> Some v | [] \<Rightarrow> None))"

definition matchRuleFromProxyPathCookie :: "request \<Rightarrow> request_snapshot \<Rightarrow> path_rule option" where
  "matchRuleFromProxyPathCookie r sn =
     (case request_cookie r proxyPathCookieName of
        None \<Rightarrow> None
      | Some v \<Rightarrow>
          if v = [] then None
          else (case al_get (sn_rulesByPath sn) v of
                  Some rule \<Rightarrow> Some rule
                | None \<Rightarrow> List.find (\<lambda>rule. v = pr_Path rule) (sn_rules sn)))"

text \<open>
  The rule of a request and the path it must be redirected to, when that is the rule's path
  with a slash. A request without a rule may be that of a page in root mode: the cookie, and
  then the path of the referring page, name the rule.
\<close>

definition slash_candidate :: "string \<Rightarrow> request_snapshot \<Rightarrow> string" where
  "slash_candidate p sn =
     (case al_get (sn_rulesByPath sn) (p @ ''/'') of
        Some rule \<Rightarrow> pr_Path rule
      | None \<Rightarrow>
          if sn_rulesByPath sn = [] then
            (case List.find (\<lambda>rule. p @ ''/'' = pr_Path rule) (sn_rules sn) of
               Some rule \<Rightarrow> pr_Path rule | None \<Rightarrow> [])
          else [])"

definition direct_match :: "request \<Rightarrow> request_snapshot \<Rightarrow> path_rule option \<times> string" where
  "direct_match r sn =
     (let p = u_Path (rq_URL r); slash = slash_candidate p sn in
      case longestPathRuleMatch p sn of (m, longest) \<Rightarrow>
        (case (if m \<noteq> None \<and> pr_Path (the m) \<noteq> ''/'' \<and> p = pr_Path (the m) \<and> \<not> hasSuffix (pr_Path (the m)) ''/''
               then m else None) of
           Some rule \<Rightarrow> if rq_Method r = ''GET'' then (None, pr_Path rule @ ''/'') else (m, slash)
         | None \<Rightarrow>
             if longest = length p then (m, [])
             else if slash \<noteq> [] then (None, slash)
             else (m, slash)))"

definition root_mode_match :: "request \<Rightarrow> request_snapshot \<Rightarrow> path_rule option" where
  "root_mode_match r sn =
     (let p = u_Path (rq_URL r);
          referer = header_get (rq_Header r) ''Referer'';
          isWebSocket = equalFoldASCIIString (header_get (rq_Header r) ''Upgrade'') ''websocket'';
          canUseCookie = (p = ''/'' \<or> referer \<noteq> [] \<or> header_get (rq_Header r) ''Origin'' \<noteq> [] \<or> isWebSocket);
          m = (if canUseCookie then matchRuleFromProxyPathCookie r sn else None)
      in if m = None \<and> referer \<noteq> [] then
           (case url_parse referer of
              Some u \<Rightarrow> fst (longestPathRuleMatch (u_Path u) sn)
            | None \<Rightarrow> None)
         else m)"

definition matchRule :: "request \<Rightarrow> request_snapshot \<Rightarrow> path_rule option \<times> string" where
  "matchRule r sn =
     (let rootRule = (if u_Path (rq_URL r) = ''/'' then matchRuleFromProxyPathCookie r sn else None) in
      case direct_match r sn of (m0, slash) \<Rightarrow>
        let m = (if rootRule \<noteq> None \<and> slash = [] then rootRule else m0) in
        if m = None \<and> slash = [] then (root_mode_match r sn, slash) else (m, slash))"

section \<open>The rule of a host\<close>

definition route_host :: "unicode \<Rightarrow> request \<Rightarrow> string" where
  "route_host U r =
     (let forwarded = normalizeRequestHost U (header_get (rq_Header r) ''X-Forwarded-Host'') in
      if forwarded \<noteq> [] then forwarded else normalizeRequestHost U (rq_Host r))"

definition matchHostRule :: "unicode \<Rightarrow> request \<Rightarrow> request_snapshot \<Rightarrow> host_rule option" where
  "matchHostRule U r sn =
     (if sn_hostRules sn = [] \<and> sn_hostRulesByHost sn = [] then None
      else if route_host U r = [] then None
      else (case al_get (sn_hostRulesByHost sn) (route_host U r) of
              Some h \<Rightarrow> Some h
            | None \<Rightarrow> List.find (\<lambda>h. normalizeRequestHost U (hr_Host h) = route_host U r) (sn_hostRules sn)))"

definition hostLocationPrefixMatches :: "string \<Rightarrow> string \<Rightarrow> bool" where
  "hostLocationPrefixMatches requestPath locationPath =
     (if locationPath = [] then False
      else if requestPath = locationPath then True
      else if hasSuffix locationPath ''/'' then hasPrefix requestPath locationPath
      else hasPrefix requestPath (locationPath @ ''/''))"

text \<open>The loop over the locations, with the best prefix so far and its length, \<open>-1\<close> at first.\<close>

fun scan_locations :: "string \<Rightarrow> host_location option \<Rightarrow> int \<Rightarrow> host_location list \<Rightarrow> host_location option" where
  "scan_locations p best longest [] = best"
| "scan_locations p best longest (l # ls) =
     (if hl_Path l = [] then scan_locations p best longest ls
      else if hl_Match l = ''exact'' then
        (if p = hl_Path l then Some l else scan_locations p best longest ls)
      else if hl_Match l = ''prefix'' \<and> hostLocationPrefixMatches p (hl_Path l) \<and> int (length (hl_Path l)) > longest
      then scan_locations p (Some l) (int (length (hl_Path l))) ls
      else scan_locations p best longest ls)"

definition matchHostLocation :: "request \<Rightarrow> host_rule option \<Rightarrow> host_location option" where
  "matchHostLocation r hostRule =
     (case hostRule of
        None \<Rightarrow> None
      | Some h \<Rightarrow> scan_locations (u_Path (rq_URL r)) None (- 1) (hr_Locations h))"

definition hostLocationRouteKey :: "host_rule \<Rightarrow> host_location \<Rightarrow> string" where
  "hostLocationRouteKey h l =
     (if hr_Host h = [] then hl_Path l
      else if hl_Path l = [] then hr_Host h
      else hr_Host h @ '' '' @ hl_Path l)"

definition filterSelectHostRulesByAuthScope :: "unicode \<Rightarrow> host_rule list \<Rightarrow> auth_result \<Rightarrow> host_rule list" where
  "filterSelectHostRulesByAuthScope U hostRules res =
     (if \<not> ar_subdomainAccessCustom res then hostRules
      else if hostRules = [] \<or> ar_allowedSubdomainHosts res = [] then []
      else filter (\<lambda>h. normalizeRequestHost U (hr_Host h) \<noteq> [] \<and>
                       normalizeRequestHost U (hr_Host h) \<in> set (ar_allowedSubdomainHosts res)) hostRules)"

section \<open>The client address\<close>

definition nonempty_or :: "string \<Rightarrow> string \<Rightarrow> string" where
  "nonempty_or s t = (if s \<noteq> [] then s else t)"

definition resolveClientIP :: "request \<Rightarrow> auth_config \<Rightarrow> bool \<Rightarrow> string" where
  "resolveClientIP r cfg force =
     (let xff = firstForwardedClientIP (header_get (rq_Header r) ''X-Forwarded-For'');
          remote = normalizeClientIP (rq_RemoteAddr r);
          real = normalizeIPAddress (header_get (rq_Header r) ''X-Real-IP'');
          direct = (if force
                    then (if \<not> EdgeClientIPActive cfg then nonempty_or xff (nonempty_or real remote)
                          else nonempty_or real remote)
                    else remote);
          ali = (if AliyunESAActive cfg
                 then nonempty_or (normalizeIPAddress (header_get (rq_Header r) ''Ali-Real-Client-IP''))
                        (nonempty_or xff direct)
                 else direct)
      in if TencentEdgeOneActive cfg
         then nonempty_or (normalizeIPAddress (header_get (rq_Header r) ''EO-Connecting-IP'')) (nonempty_or xff ali)
         else ali)"

section \<open>The reference: the first of the longest\<close>

text \<open>The first element with the longest key among those that satisfy \<open>P\<close>.\<close>

fun first_longest :: "('a \<Rightarrow> string) \<Rightarrow> ('a \<Rightarrow> bool) \<Rightarrow> 'a list \<Rightarrow> 'a option" where
  "first_longest key P [] = None"
| "first_longest key P (x # xs) =
     (case first_longest key P xs of
        None \<Rightarrow> if P x then Some x else None
      | Some y \<Rightarrow> if P x \<and> length (key y) \<le> length (key x) then Some x else Some y)"

lemma first_longest_None: "first_longest key P xs = None \<longleftrightarrow> (\<forall>x \<in> set xs. \<not> P x)"
  by (induction xs) (auto split: option.splits)

lemma first_longest_Some:
  "first_longest key P xs = Some y \<Longrightarrow>
     y \<in> set xs \<and> P y \<and> (\<forall>x \<in> set xs. P x \<longrightarrow> length (key x) \<le> length (key y))"
proof (induction xs arbitrary: y)
  case (Cons a xs)
  show ?case
  proof (cases "first_longest key P xs")
    case None
    with Cons.prems show ?thesis by (auto simp: first_longest_None split: if_splits)
  next
    case (Some b)
    with Cons.IH [OF Some] Cons.prems show ?thesis by (force split: if_splits)
  qed
qed simp

lemma first_longest_cong:
  "(\<And>x. x \<in> set xs \<Longrightarrow> P x = Q x) \<Longrightarrow> first_longest key P xs = first_longest key Q xs"
  by (induction xs) (auto split: option.splits)

lemma find_cong_set: "(\<And>x. x \<in> set xs \<Longrightarrow> P x = Q x) \<Longrightarrow> List.find P xs = List.find Q xs"
  by (induction xs) auto

lemma find_SomeD: "List.find P xs = Some x \<Longrightarrow> x \<in> set xs \<and> P x"
  by (induction xs) (auto split: if_splits)

lemma find_NoneD: "List.find P xs = None \<longleftrightarrow> (\<forall>x \<in> set xs. \<not> P x)"
  by (induction xs) auto

text \<open>When the longest candidates are those that satisfy \<open>Q\<close>, it is the first of these.\<close>

lemma first_longest_find:
  assumes "List.find Q xs = Some y"
    and "\<And>x. x \<in> set xs \<Longrightarrow> Q x \<Longrightarrow> P x \<and> length (key x) = L"
    and "\<And>x. x \<in> set xs \<Longrightarrow> P x \<Longrightarrow> length (key x) \<le> L \<and> (length (key x) = L \<longrightarrow> Q x)"
  shows "first_longest key P xs = Some y"
  using assms
proof (induction xs)
  case (Cons a xs)
  have IH: "first_longest key P xs = Some y" if "List.find Q xs = Some y"
    using that Cons.prems(2,3) by (intro Cons.IH) auto
  show ?case
  proof (cases "Q a")
    case True
    with Cons.prems have y: "y = a" and a: "P a" "length (key a) = L" by auto
    show ?thesis
    proof (cases "first_longest key P xs")
      case (Some b)
      then have "length (key b) \<le> L"
        using first_longest_Some [OF Some] Cons.prems(3) by auto
      with Some y a show ?thesis by simp
    qed (use y a in simp)
  next
    case False
    with Cons.prems(1) have f: "List.find Q xs = Some y" by simp
    have "length (key y) = L" using Cons.prems(2) find_SomeD [OF f] by auto
    moreover have "P a \<Longrightarrow> length (key a) < L"
      using Cons.prems(3) [of a] False by auto
    ultimately show ?thesis using IH [OF f] by auto
  qed
qed simp

lemma find_insort_key:
  assumes "sorted (map f xs)"
  shows "List.find P (insort_key f a xs) =
     (if P a then (case List.find P xs of None \<Rightarrow> Some a | Some b \<Rightarrow> if f a \<le> f b then Some a else Some b)
      else List.find P xs)"
  using assms
proof (induction xs)
  case (Cons y ys)
  have le: "f y \<le> f b" if "List.find P ys = Some b" for b
    using find_SomeD [OF that] Cons.prems by auto
  have IH: "List.find P (insort_key f a ys) =
     (if P a then (case List.find P ys of None \<Rightarrow> Some a | Some b \<Rightarrow> if f a \<le> f b then Some a else Some b)
      else List.find P ys)"
    by (rule Cons.IH) (use Cons.prems in simp)
  show ?case
  proof (cases "f a \<le> f y")
    case True
    have "f a \<le> f b" if "List.find P ys = Some b" for b
      using le [OF that] True by (rule order_trans [rotated])
    with True show ?thesis by (cases "List.find P ys") auto
  next
    case False
    with IH show ?thesis by (cases "P y") simp_all
  qed
qed simp

lemma find_sorted_longest:
  "List.find P (sort_key (\<lambda>x. - int (length (key x))) xs) = first_longest key P xs"
  by (induction xs) (auto simp: find_insort_key split: option.splits)

section \<open>The indexes\<close>

lemma index_rule_get:
  "al_get (foldl (index_rule key) m xs) k =
     (case al_get m k of Some y \<Rightarrow> Some y
      | None \<Rightarrow> if k = [] then None else List.find (\<lambda>x. key x = k) xs)"
proof (induction xs arbitrary: m)
  case (Cons a xs)
  show ?case
    unfolding foldl_Cons Cons.IH
    by (auto simp: index_rule_def alist_simps split: option.splits)
qed (auto split: option.splits)

lemma index_rules_get:
  "al_get (index_rules key xs) k = (if k = [] then None else List.find (\<lambda>x. key x = k) xs)"
  by (simp add: index_rules_def index_rule_get alist_simps)

lemma add_target_get:
  "al_get (foldl (add_target U) m ts) k =
     (case al_get m k of Some rt \<Rightarrow> Some rt
      | None \<Rightarrow> map_option (compileReverseProxyTargetRuntime U)
                  (List.find (\<lambda>t. reverseProxyTargetRuntimeKey t = k) ts))"
proof (induction ts arbitrary: m)
  case (Cons a xs)
  show ?case
    unfolding foldl_Cons Cons.IH
    by (auto simp: add_target_def Let_def alist_simps split: option.splits)
qed (auto split: option.splits)

text \<open>The compiled targets are a cache: a snapshot gives what compiling the target gives.\<close>

lemma runtime_for_snapshot:
  "reverseProxyTargetRuntimeFor U (buildRequestSnapshot U rules hostRules d cfg po f) target =
     compileReverseProxyTargetRuntime U target"
  by (auto simp: reverseProxyTargetRuntimeFor_def targetRuntimeFor_def buildRequestSnapshot_def Let_def
      buildReverseProxyTargetRuntimeMap_def add_target_get alist_simps
      dest: find_SomeD intro: compile_key split: option.splits)

section \<open>Matching paths\<close>

definition path_candidate :: "string \<Rightarrow> nat \<Rightarrow> path_rule \<Rightarrow> bool" where
  "path_candidate p n r = (path_prefixed p r \<and> length (pr_Path r) \<le> n)"

lemma prefix_take: "hasPrefix p q \<longleftrightarrow> length q \<le> length p \<and> take (length q) p = q"
  by (auto simp: hasPrefix_def prefix_def) (metis append_take_drop_id)

lemma indexed_match_longest:
  "n \<le> length p \<Longrightarrow>
   indexed_match (index_rules pr_Path rules) p n = first_longest pr_Path (path_candidate p n) rules"
proof (induction n)
  case 0
  have "first_longest pr_Path (path_candidate p 0) rules = None"
    by (simp add: first_longest_None path_candidate_def path_prefixed_def)
  then show ?case by simp
next
  case (Suc n)
  let ?q = "take (Suc n) p"
  have q: "?q \<noteq> []" "length ?q = Suc n" using Suc.prems by auto
  have cand: "path_candidate p (Suc n) r \<longleftrightarrow> path_candidate p n r \<or> pr_Path r = ?q" for r
    using q Suc.prems by (auto simp: path_candidate_def path_prefixed_def prefix_take le_Suc_eq)
  show ?case
  proof (cases "List.find (\<lambda>r. pr_Path r = ?q) rules")
    case None
    then have "first_longest pr_Path (path_candidate p (Suc n)) rules =
      first_longest pr_Path (path_candidate p n) rules"
      by (intro first_longest_cong) (auto simp: cand find_NoneD)
    with None Suc q show ?thesis by (simp add: index_rules_get)
  next
    case (Some r)
    have "first_longest pr_Path (path_candidate p (Suc n)) rules = Some r"
    proof (rule first_longest_find [OF Some])
      show "path_candidate p (Suc n) x \<and> length (pr_Path x) = Suc n" if "pr_Path x = ?q" for x
        using that q by (simp add: cand)
      show "length (pr_Path x) \<le> Suc n \<and> (length (pr_Path x) = Suc n \<longrightarrow> pr_Path x = ?q)"
        if "path_candidate p (Suc n) x" for x
        using that by (auto simp: path_candidate_def path_prefixed_def prefix_take)
    qed
    with Some q show ?thesis by (simp add: index_rules_get)
  qed
qed

lemma rules_by_length_empty [simp]: "rules_by_length rules = [] \<longleftrightarrow> rules = []"
  by (metis length_0_conv length_sort rules_by_length_def)

text \<open>C3: longest prefix.
  However many rules there are and whichever of the two algorithms is chosen for it, the rule
  found for a path is the first one configured among those with the longest path that is a
  prefix of it.\<close>

theorem longest_path_rule:
  "longestPathRuleMatch p (buildRequestSnapshot U rules hostRules d cfg po f) =
     rule_and_length (first_longest pr_Path (path_prefixed p) rules)"
proof -
  have "first_longest pr_Path (path_candidate p (length p)) rules = first_longest pr_Path (path_prefixed p) rules"
    by (rule first_longest_cong) (auto simp: path_candidate_def path_prefixed_def prefix_take)
  then have "indexed_match (index_rules pr_Path rules) p (length p) = first_longest pr_Path (path_prefixed p) rules"
    by (simp add: indexed_match_longest)
  moreover have "List.find (path_prefixed p) (rules_by_length rules) = first_longest pr_Path (path_prefixed p) rules"
    by (simp add: rules_by_length_def find_sorted_longest)
  ultimately show ?thesis
    by (simp add: longestPathRuleMatch_def buildRequestSnapshot_def Let_def)
qed

section \<open>Matching locations\<close>

definition exact_location :: "string \<Rightarrow> host_location \<Rightarrow> bool" where
  "exact_location p l = (hl_Path l \<noteq> [] \<and> hl_Match l = ''exact'' \<and> p = hl_Path l)"

definition prefix_location :: "string \<Rightarrow> host_location \<Rightarrow> bool" where
  "prefix_location p l = (hl_Path l \<noteq> [] \<and> hl_Match l = ''prefix'' \<and> hostLocationPrefixMatches p (hl_Path l))"

lemma scan_locations_longest:
  "scan_locations p best n ls =
     (case List.find (exact_location p) ls of
        Some l \<Rightarrow> Some l
      | None \<Rightarrow>
          (case first_longest hl_Path (prefix_location p) ls of
             None \<Rightarrow> best
           | Some l \<Rightarrow> if int (length (hl_Path l)) > n then Some l else best))"
proof (induction ls arbitrary: best n)
  case (Cons a ls)
  consider "exact_location p a" | "prefix_location p a" "\<not> exact_location p a"
    | "\<not> prefix_location p a" "\<not> exact_location p a"
    by blast
  then show ?case
  proof cases
    case 1
    then show ?thesis by (auto simp: exact_location_def)
  next
    case 2
    then have hd: "scan_locations p best n (a # ls) =
        (if int (length (hl_Path a)) > n then scan_locations p (Some a) (int (length (hl_Path a))) ls
         else scan_locations p best n ls)"
      by (auto simp: prefix_location_def)
    show ?thesis
      unfolding hd Cons.IH using 2 by (auto split: option.splits)
  next
    case 3
    then have "scan_locations p best n (a # ls) = scan_locations p best n ls"
      by (auto simp: prefix_location_def exact_location_def)
    with 3 Cons.IH show ?thesis by (auto split: option.splits)
  qed
qed simp

lemma location_boundary:
  "hostLocationPrefixMatches p q \<longleftrightarrow>
     q \<noteq> [] \<and> (p = q \<or> (\<exists>rest. p = (if hasSuffix q ''/'' then q else q @ ''/'') @ rest))"
  by (auto simp: hostLocationPrefixMatches_def hasPrefix_def prefix_def)

text \<open>C4: locations of a host.
  A request gets the first location that names exactly its path and, if there is none, the first
  of the longest prefix locations; a prefix location covers its path and what follows it after a
  slash, never a longer name that merely starts like it.\<close>

theorem host_location_match:
  "matchHostLocation r (Some h) =
     (let p = u_Path (rq_URL r) in
      case List.find (exact_location p) (hr_Locations h) of
        Some l \<Rightarrow> Some l
      | None \<Rightarrow> first_longest hl_Path (prefix_location p) (hr_Locations h)) \<and>
   (hostLocationPrefixMatches p q \<longleftrightarrow>
     q \<noteq> [] \<and> (p = q \<or> (\<exists>rest. p = (if hasSuffix q ''/'' then q else q @ ''/'') @ rest)))"
  by (simp add: matchHostLocation_def scan_locations_longest Let_def location_boundary split: option.splits)

section \<open>Matching hosts\<close>

lemma match_host_rule:
  "matchHostRule U r (buildRequestSnapshot U rules hostRules d cfg po f) =
     (if route_host U r = [] then None
      else List.find (\<lambda>h. normalizeRequestHost U (hr_Host h) = route_host U r) hostRules)"
  by (simp add: matchHostRule_def buildRequestSnapshot_def Let_def index_rules_get split: option.splits)

abbreviation with_forwarded_host :: "string \<Rightarrow> request \<Rightarrow> request" where
  "with_forwarded_host x r \<equiv> r\<lparr>rq_Header := header_set ''X-Forwarded-Host'' x (rq_Header r)\<rparr>"

lemma header_values_set_other:
  "canonical_header_key k' \<noteq> canonical_header_key k \<Longrightarrow>
     header_values (header_set k v h) k' = header_values h k'"
  by (simp add: header_values_def header_set_def alist_simps)

lemma forwarded_host_value:
  "canonicalHeaderValue (header_set ''X-Forwarded-Host'' x h) key =
     (if key = ''X-Forwarded-Host'' then x else canonicalHeaderValue h key)"
  by (simp add: canonicalHeaderValue_def header_set_def alist_simps service_keys)

lemma with_forwarded_host_rest:
  "publicRequestScheme G (with_forwarded_host x r) = publicRequestScheme G r"
  "cookie_headers (with_forwarded_host x r) = cookie_headers r"
  "auth_header (with_forwarded_host x r) = auth_header r"
  by (simp_all add: publicRequestScheme_def forwarded_host_value header_values_set_other header_get_set
      service_keys Let_def)

lemma auth_request_forwarded_host:
  "auth_request_header G (with_forwarded_host x r) clientIP accessMode = auth_request_header G r clientIP accessMode"
proof -
  have "copy_header k (header_set ''X-Forwarded-Host'' x h) dst = copy_header k h dst"
    if "canonical_header_key k \<noteq> ''X-Forwarded-Host''" for k h dst
    using that by (simp add: copy_header_def header_get_set service_keys)
  then show ?thesis
    by (simp add: auth_request_header_def with_forwarded_host_rest copyUserAgentHeader_def
        header_get_set service_keys)
qed

lemma auth_lookup_forwarded_host:
  assumes "normalizeRequestHost U (rq_Host r) \<noteq> []"
  shows "buildAuthCacheLookup G U (with_forwarded_host x r) clientIP accessMode =
     buildAuthCacheLookup G U r clientIP accessMode"
  using assms
  unfolding buildAuthCacheLookup_def requestIdentity_def with_forwarded_host_rest cache_host_def
  by (simp split: option.split)

text \<open>C7: the routed host is not the authorised one.
  A client that adds an X-Forwarded-Host header to a request is routed to the rule of that host,
  while the authentication service is still asked about the host of the request line and the
  result is cached under it: a permission for one host opens every other.\<close>

theorem forwarded_host_escapes_scope:
  assumes "normalizeRequestHost U (rq_Host r) \<noteq> []" and "normalizeRequestHost U x \<noteq> []"
  shows "matchHostRule U (with_forwarded_host x r) (buildRequestSnapshot U rules hostRules d cfg po f) =
           List.find (\<lambda>h. normalizeRequestHost U (hr_Host h) = normalizeRequestHost U x) hostRules \<and>
         auth_request_header G (with_forwarded_host x r) clientIP accessMode =
           auth_request_header G r clientIP accessMode \<and>
         buildAuthCacheLookup G U (with_forwarded_host x r) clientIP accessMode =
           buildAuthCacheLookup G U r clientIP accessMode"
  using assms
  by (simp add: match_host_rule route_host_def header_get_set auth_request_forwarded_host auth_lookup_forwarded_host)

definition plain_location_response :: location_response where
  "plain_location_response = \<lparr>lr_Status = 0, lr_ContentType = [], lr_Headers = [], lr_Body = []\<rparr>"

definition plain_host_rule :: "string \<Rightarrow> string \<Rightarrow> host_rule" where
  "plain_host_rule host target =
     \<lparr>hr_Host = host, hr_Target = target, hr_UseAuth = True, hr_AccessMode = ''login_first'',
      hr_SuppressToolbar = False, hr_PreserveHost = False, hr_Title = [], hr_Favicon = [],
      hr_BasicAuth = \<lparr>ba_Enabled = False, ba_Username = [], ba_Password = []\<rparr>, hr_Locations = []\<rparr>"

definition plain_portal :: gateway_portal where
  "plain_portal = \<lparr>gp_Enabled = True, gp_DisplayStyle = ''domain'', gp_ShowAppIcon = False, gp_enabledSet = True\<rparr>"

theorem forwarded_host_escapes_scope_witness:
  "map_option hr_Host
     (matchHostRule plain_unicode (with_forwarded_host ''admin.lan'' (plain_request\<lparr>rq_Host := ''blog.lan''\<rparr>))
       (buildRequestSnapshot plain_unicode [] [plain_host_rule ''blog.lan'' ''http://10.0.0.1'',
          plain_host_rule ''admin.lan'' ''http://10.0.0.2''] [] plain_config plain_portal False)) = Some ''admin.lan''"
proof -
  have a: "normalizeRequestHost plain_unicode ''admin.lan'' = ''admin.lan''"
    and b: "normalizeRequestHost plain_unicode ''blog.lan'' = ''blog.lan''" by code_simp+
  let ?r = "plain_request\<lparr>rq_Host := ''blog.lan''\<rparr>"
  show ?thesis
    using forwarded_host_escapes_scope [of plain_unicode ?r "''admin.lan''" "[]"
        "[plain_host_rule ''blog.lan'' ''http://10.0.0.1'', plain_host_rule ''admin.lan'' ''http://10.0.0.2'']"
        "[]" plain_config plain_portal False]
    by (simp add: a b plain_host_rule_def)
qed

end
