(* ===== verification/RuleStore.thy ===== *)
theory RuleStore
  imports Routes
begin

text \<open>
  The rules of the gateway as the administrator changes them: the checks and normalisation of
  path, host and stream rules, the operations that replace them, and the snapshot that is
  published after each (\<^verbatim>\<open>proxy/handler.go\<close>).
\<close>

section \<open>Errors\<close>

datatype header_error = Header_Empty | Header_Invalid string | Header_Fixed string

datatype rule_error =
    Root_Path | Share_Path | Reserved_Path | Trailing_Slash
  | Empty_Target | Invalid_Target target_error
  | Empty_Host | Inexact_Host
  | Location_No_Path | Location_Relative | Location_Root | Location_Share string | Location_Reserved
  | Location_Match | Location_Action
  | Location_No_Target string | Location_Invalid_Target string target_error
  | Location_Status string | Location_Headers string header_error
  | Location_Duplicate string string
  | Basic_Auth_Incomplete | Basic_Auth_Colon

datatype stream_error =
    Stream_Format | Stream_No_Host | Stream_Bad_Port
  | Stream_Protocol | Listen_Port_Range | Listen_Port_Reserved int string
  | Stream_Empty_Target | Stream_Target stream_error | Stream_Admin_Port int
  | Stream_Own_Port int | Stream_Duplicate string

section \<open>State\<close>

record stream_rule =
  sr_Protocol :: string
  sr_ListenPort :: int
  sr_Target :: string
  sr_UseAuth :: bool

record gateway =
  gw_Rules :: "path_rule list"
  gw_HostRules :: "host_rule list"
  gw_StreamRules :: "stream_rule list"
  gw_DefaultRoute :: string
  gw_AuthConfig :: auth_config
  gw_GatewayPortal :: gateway_portal
  gw_ProxyProtocolForce :: bool
  gw_AdminPort :: int
  gw_ProxyPort :: int
  gw_requestState :: "request_snapshot option"
  gw_auth :: auth_handler

definition current_snapshot :: "unicode \<Rightarrow> gateway \<Rightarrow> request_snapshot" where
  "current_snapshot U g =
     buildRequestSnapshot U (gw_Rules g) (gw_HostRules g) (gw_DefaultRoute g) (gw_AuthConfig g)
       (gw_GatewayPortal g) (gw_ProxyProtocolForce g)"

definition publishRequestSnapshotLocked :: "unicode \<Rightarrow> gateway \<Rightarrow> gateway" where
  "publishRequestSnapshotLocked U g = g\<lparr>gw_requestState := Some (current_snapshot U g)\<rparr>"

definition snapshotForRequest :: "unicode \<Rightarrow> gateway \<Rightarrow> request_snapshot" where
  "snapshotForRequest U g =
     (case gw_requestState g of Some sn \<Rightarrow> sn | None \<Rightarrow> current_snapshot U g)"

text \<open>The loop of the two upserts: the first match is replaced, a new rule goes to the end.\<close>

fun upsert_first :: "('a \<Rightarrow> bool) \<Rightarrow> 'a \<Rightarrow> 'a list \<Rightarrow> 'a list" where
  "upsert_first P x [] = [x]"
| "upsert_first P x (y # ys) = (if P y then x # ys else y # upsert_first P x ys)"

section \<open>Path rules\<close>

definition path_rule_error :: "unicode \<Rightarrow> int \<Rightarrow> path_rule \<Rightarrow> rule_error option" where
  "path_rule_error U adminPort r =
     (if pr_Path r = ''/'' \<or> pr_Path r = [] then Some Root_Path
      else if pr_Target r = [] then Some Empty_Target
      else if pr_Path r = ''/s'' \<or> pr_Path r = ''/s/'' then Some Share_Path
      else if hasPrefix (pr_Path r) ''/__'' \<or> hasPrefix (pr_Path r) ''__'' then Some Reserved_Path
      else if hasSuffix (pr_Path r) ''/'' then Some Trailing_Slash
      else map_option Invalid_Target (checkSafeTarget U adminPort (pr_Target r)))"

definition AddRule :: "unicode \<Rightarrow> path_rule \<Rightarrow> gateway \<Rightarrow> rule_error option \<times> gateway" where
  "AddRule U r g =
     (case path_rule_error U (gw_AdminPort g) r of
        Some e \<Rightarrow> (Some e, g)
      | None \<Rightarrow>
          (None, publishRequestSnapshotLocked U
                   (g\<lparr>gw_Rules := upsert_first (\<lambda>x. pr_Path x = pr_Path r) r (gw_Rules g)\<rparr>)))"

definition RemoveRule :: "unicode \<Rightarrow> string \<Rightarrow> gateway \<Rightarrow> gateway" where
  "RemoveRule U p g =
     publishRequestSnapshotLocked U (g\<lparr>gw_Rules := filter (\<lambda>r. pr_Path r \<noteq> p) (gw_Rules g)\<rparr>)"

definition FlushRules :: "unicode \<Rightarrow> gateway \<Rightarrow> gateway" where
  "FlushRules U g = publishRequestSnapshotLocked U (g\<lparr>gw_Rules := []\<rparr>)"

section \<open>Locations of a host\<close>

definition fixed_headers :: "string list" where
  "fixed_headers = [''connection'', ''keep-alive'', ''proxy-authenticate'', ''proxy-authorization'',
     ''proxy-connection'', ''te'', ''trailer'', ''transfer-encoding'', ''upgrade'', ''content-length'',
     ''content-type'']"

fun normalize_headers ::
    "unicode \<Rightarrow> (string \<times> string) list \<Rightarrow> (string \<times> string) list \<Rightarrow> header_error + (string \<times> string) list" where
  "normalize_headers U acc [] = Inr acc"
| "normalize_headers U acc ((rawName, v) # hs) =
     (let name = trim_space rawName in
      if name = [] then Inl Header_Empty
      else if \<not> valid_field_name name then Inl (Header_Invalid rawName)
      else if to_lower U name \<in> set fixed_headers then Inl (Header_Fixed name)
      else normalize_headers U (al_put (canonical_header_key name) v acc) hs)"

definition normalizeHostLocationResponseHeaders ::
    "unicode \<Rightarrow> (string \<times> string) list \<Rightarrow> header_error + (string \<times> string) list" where
  "normalizeHostLocationResponseHeaders U headers = normalize_headers U [] headers"

definition no_response :: location_response where
  "no_response = \<lparr>lr_Status = 0, lr_ContentType = [], lr_Headers = [], lr_Body = []\<rparr>"

definition location_path :: "string \<Rightarrow> rule_error + string" where
  "location_path raw0 =
     (let raw = trim_space raw0; p = path_clean raw in
      if raw = [] then Inl Location_No_Path
      else if \<not> hasPrefix raw ''/'' then Inl Location_Relative
      else if p = ''/'' then Inl Location_Root
      else if p = ''/s'' \<or> p = ''/s/'' then Inl (Location_Share p)
      else if hasPrefix p ''/__'' then Inl Location_Reserved
      else Inr p)"

definition location_match :: "unicode \<Rightarrow> string \<Rightarrow> rule_error + string" where
  "location_match U m0 =
     (let m = trim_space (to_lower U m0) in
      if m = [] \<or> m = ''prefix'' then Inr ''prefix''
      else if m = ''exact'' then Inr ''exact''
      else Inl Location_Match)"

definition location_action :: "unicode \<Rightarrow> string \<Rightarrow> rule_error + string" where
  "location_action U a0 =
     (let a = trim_space (to_lower U a0) in
      if a = [] \<or> a = ''proxy'' then Inr ''proxy''
      else if a = ''response'' then Inr ''response''
      else Inl Location_Action)"

text \<open>What is left of a location that proxies, and of one that answers itself.\<close>

definition proxy_location :: "unicode \<Rightarrow> int \<Rightarrow> host_location \<Rightarrow> rule_error + host_location" where
  "proxy_location U adminPort l =
     (let target = trim_space (hl_Target l) in
      if target = [] then Inl (Location_No_Target (hl_Path l))
      else (case checkSafeTarget U adminPort target of
              Some e \<Rightarrow> Inl (Location_Invalid_Target (hl_Path l) e)
            | None \<Rightarrow> Inr (l\<lparr>hl_Target := target, hl_Response := no_response\<rparr>)))"

definition response_location :: "unicode \<Rightarrow> host_location \<Rightarrow> rule_error + host_location" where
  "response_location U l =
     (let resp = hl_Response l;
          status = (if lr_Status resp = 0 then 200 else lr_Status resp);
          contentType = trim_space (lr_ContentType resp)
      in if status < 100 \<or> status > 599 then Inl (Location_Status (hl_Path l))
         else (case normalizeHostLocationResponseHeaders U (lr_Headers resp) of
                 Inl e \<Rightarrow> Inl (Location_Headers (hl_Path l) e)
               | Inr headers \<Rightarrow>
                   Inr (l\<lparr>hl_Target := [], hl_StripPath := False, hl_RewriteHTML := False,
                          hl_Response := resp\<lparr>lr_Status := status,
                            lr_ContentType := (if contentType = [] then ''text/plain; charset=utf-8'' else contentType),
                            lr_Headers := headers\<rparr>\<rparr>)))"

definition normalizeHostLocation :: "unicode \<Rightarrow> int \<Rightarrow> host_location \<Rightarrow> rule_error + host_location" where
  "normalizeHostLocation U adminPort l =
     (case location_path (hl_Path l) of
        Inl e \<Rightarrow> Inl e
      | Inr p \<Rightarrow>
          (case location_match U (hl_Match l) of
             Inl e \<Rightarrow> Inl e
           | Inr m \<Rightarrow>
               (case location_action U (hl_Action l) of
                  Inl e \<Rightarrow> Inl e
                | Inr a \<Rightarrow>
                    (let l' = l\<lparr>hl_Path := p, hl_Match := m, hl_Action := a\<rparr> in
                     if a = ''proxy'' then proxy_location U adminPort l' else response_location U l'))))"

definition hostLocationMapKey :: "host_location \<Rightarrow> string" where
  "hostLocationMapKey l = hl_Match l @ CHR 0x00 # hl_Path l"

fun normalize_locations ::
    "unicode \<Rightarrow> int \<Rightarrow> host_location list \<Rightarrow> host_location list \<Rightarrow> rule_error + host_location list" where
  "normalize_locations U adminPort acc [] = Inr acc"
| "normalize_locations U adminPort acc (l # ls) =
     (case normalizeHostLocation U adminPort l of
        Inl e \<Rightarrow> Inl e
      | Inr l' \<Rightarrow>
          if hostLocationMapKey l' \<in> hostLocationMapKey ` set acc
          then Inl (Location_Duplicate (hl_Match l') (hl_Path l'))
          else normalize_locations U adminPort (acc @ [l']) ls)"

definition normalizeHostLocations ::
    "unicode \<Rightarrow> int \<Rightarrow> host_location list \<Rightarrow> rule_error + host_location list" where
  "normalizeHostLocations U adminPort ls = normalize_locations U adminPort [] ls"

section \<open>Host rules\<close>

definition normalizeBasicAuthConfig :: "basic_auth \<Rightarrow> rule_error + basic_auth" where
  "normalizeBasicAuthConfig cfg =
     (if \<not> ba_Enabled cfg then Inr \<lparr>ba_Enabled = False, ba_Username = [], ba_Password = []\<rparr>
      else
        (let username = trim_space (ba_Username cfg) in
         if username = [] \<or> ba_Password cfg = [] then Inl Basic_Auth_Incomplete
         else if CHR '':'' \<in> set username then Inl Basic_Auth_Colon
         else Inr \<lparr>ba_Enabled = True, ba_Username = username, ba_Password = ba_Password cfg\<rparr>))"

definition normalizeHostRule :: "unicode \<Rightarrow> int \<Rightarrow> host_rule \<Rightarrow> rule_error + host_rule" where
  "normalizeHostRule U adminPort h =
     (let host = normalizeRequestHost U (hr_Host h) in
      if host = [] then Inl Empty_Host
      else if CHR ''/'' \<in> set host \<or> CHR ''*'' \<in> set host then Inl Inexact_Host
      else if hr_Target h = [] then Inl Empty_Target
      else (case checkSafeTarget U adminPort (hr_Target h) of
              Some e \<Rightarrow> Inl (Invalid_Target e)
            | None \<Rightarrow>
                (case normalizeBasicAuthConfig (hr_BasicAuth h) of
                   Inl e \<Rightarrow> Inl e
                 | Inr basicAuth \<Rightarrow>
                     (case normalizeHostLocations U adminPort (hr_Locations h) of
                        Inl e \<Rightarrow> Inl e
                      | Inr locations \<Rightarrow>
                          Inr (h\<lparr>hr_Host := host,
                                 hr_AccessMode := (if hr_AccessMode h = [] then ''login_first'' else hr_AccessMode h),
                                 hr_Title := trim_space (hr_Title h),
                                 hr_Favicon := trim_space (hr_Favicon h),
                                 hr_BasicAuth := basicAuth,
                                 hr_Locations := locations\<rparr>)))))"

definition AddHostRule :: "unicode \<Rightarrow> host_rule \<Rightarrow> gateway \<Rightarrow> rule_error option \<times> gateway" where
  "AddHostRule U h0 g =
     (case normalizeHostRule U (gw_AdminPort g) h0 of
        Inl e \<Rightarrow> (Some e, g)
      | Inr h \<Rightarrow>
          (None, publishRequestSnapshotLocked U
                   (g\<lparr>gw_HostRules := upsert_first (\<lambda>x. normalizeRequestHost U (hr_Host x) = hr_Host h) h
                        (gw_HostRules g)\<rparr>)))"

text \<open>Of two rules for one host the later one is kept, in the place of the earlier one.\<close>

fun normalize_host_rules ::
    "unicode \<Rightarrow> int \<Rightarrow> host_rule list \<Rightarrow> host_rule list \<Rightarrow> rule_error + host_rule list" where
  "normalize_host_rules U adminPort acc [] = Inr acc"
| "normalize_host_rules U adminPort acc (h # hs) =
     (case normalizeHostRule U adminPort h of
        Inl e \<Rightarrow> Inl e
      | Inr h' \<Rightarrow> normalize_host_rules U adminPort (upsert_first (\<lambda>x. hr_Host x = hr_Host h') h' acc) hs)"

definition SetHostRules :: "unicode \<Rightarrow> host_rule list \<Rightarrow> gateway \<Rightarrow> rule_error option \<times> gateway" where
  "SetHostRules U hs g =
     (case normalize_host_rules U (gw_AdminPort g) [] hs of
        Inl e \<Rightarrow> (Some e, g)
      | Inr hs' \<Rightarrow> (None, publishRequestSnapshotLocked U (g\<lparr>gw_HostRules := hs'\<rparr>)))"

definition FlushHostRules :: "unicode \<Rightarrow> gateway \<Rightarrow> gateway" where
  "FlushHostRules U g = publishRequestSnapshotLocked U (g\<lparr>gw_HostRules := []\<rparr>)"

section \<open>Stream rules\<close>

text \<open>\<^verbatim>\<open>strconv.Atoi\<close>: an optional sign and decimal digits, within 64 bits.\<close>

definition atoi :: "string \<Rightarrow> int option" where
  "atoi s =
     (let (neg, ds) = (case s of c # cs \<Rightarrow> if c = CHR ''-'' then (True, cs)
                                         else if c = CHR ''+'' then (False, cs) else (False, s)
                       | [] \<Rightarrow> (False, [])) in
      if ds = [] \<or> \<not> list_all is_digit ds then None
      else (let v = (if neg then - int (dec_val ds) else int (dec_val ds)) in
            if v < min_int64 \<or> v > max_int64 then None else Some v))"

definition parseStreamTarget :: "string \<Rightarrow> stream_error + string \<times> int" where
  "parseStreamTarget target =
     (case split_host_port (trim_space target) of
        None \<Rightarrow> Inl Stream_Format
      | Some (host, port) \<Rightarrow>
          if trim_space host = [] then Inl Stream_No_Host
          else (case atoi port of
                  None \<Rightarrow> Inl Stream_Bad_Port
                | Some n \<Rightarrow> if n \<le> 0 \<or> n > 65535 then Inl Stream_Bad_Port else Inr (host, n)))"

definition normalizeStreamProtocol :: "unicode \<Rightarrow> string \<Rightarrow> stream_error + string" where
  "normalizeStreamProtocol U protocol =
     (let p = to_lower U (trim_space protocol) in
      if p = [] \<or> p = ''tcp'' then Inr ''tcp''
      else if p = ''udp'' then Inr ''udp''
      else Inl Stream_Protocol)"

definition streamRuleMapKey :: "stream_rule \<Rightarrow> string" where
  "streamRuleMapKey r = sr_Protocol r @ ''/'' @ itoa (sr_ListenPort r)"

definition isLoopbackOrUnspecifiedHost :: "string \<Rightarrow> bool" where
  "isLoopbackOrUnspecifiedHost host =
     (let h = trim_space (trim_set host ''[]'') in
      if h = [] then False
      else if equal_fold h ''localhost'' then True
      else (case net_parse_ip h of
              None \<Rightarrow> False
            | Some a \<Rightarrow> addr_is_loopback a \<or> addr_is_unspecified a))"

definition reservedStreamPortName :: "gateway \<Rightarrow> stream_rule \<Rightarrow> string" where
  "reservedStreamPortName g r =
     (if sr_Protocol r \<noteq> ''tcp'' then []
      else if gw_AdminPort g > 0 \<and> sr_ListenPort r = gw_AdminPort g then ''admin API''
      else if gw_ProxyPort g > 0 \<and> sr_ListenPort r = gw_ProxyPort g then ''reverse proxy''
      else [])"

definition checkSafeStreamTarget :: "gateway \<Rightarrow> string \<Rightarrow> string \<Rightarrow> stream_error + string \<times> int" where
  "checkSafeStreamTarget g protocol target =
     (case parseStreamTarget target of
        Inl e \<Rightarrow> Inl e
      | Inr (host, port) \<Rightarrow>
          if protocol = ''tcp'' \<and> isLoopbackOrUnspecifiedHost host \<and> port = gw_AdminPort g
          then Inl (Stream_Admin_Port (gw_AdminPort g))
          else Inr (host, port))"

definition normalizeStreamRule :: "unicode \<Rightarrow> gateway \<Rightarrow> stream_rule \<Rightarrow> stream_error + stream_rule" where
  "normalizeStreamRule U g r0 =
     (case normalizeStreamProtocol U (sr_Protocol r0) of
        Inl e \<Rightarrow> Inl e
      | Inr protocol \<Rightarrow>
          (let r = r0\<lparr>sr_Target := trim_space (sr_Target r0), sr_Protocol := protocol\<rparr> in
           if sr_ListenPort r \<le> 0 \<or> sr_ListenPort r > 65535 then Inl Listen_Port_Range
           else if reservedStreamPortName g r \<noteq> []
           then Inl (Listen_Port_Reserved (sr_ListenPort r) (reservedStreamPortName g r))
           else if sr_Target r = [] then Inl Stream_Empty_Target
           else (case checkSafeStreamTarget g (sr_Protocol r) (sr_Target r) of
                   Inl e \<Rightarrow> Inl (Stream_Target e)
                 | Inr (host, port) \<Rightarrow>
                     if sr_ListenPort r = port \<and> isLoopbackOrUnspecifiedHost host
                     then Inl (Stream_Own_Port (sr_ListenPort r))
                     else Inr r)))"

fun validate_stream_rules ::
    "unicode \<Rightarrow> gateway \<Rightarrow> stream_rule list \<Rightarrow> stream_rule list \<Rightarrow> stream_error + stream_rule list" where
  "validate_stream_rules U g acc [] = Inr acc"
| "validate_stream_rules U g acc (r # rs) =
     (case normalizeStreamRule U g r of
        Inl e \<Rightarrow> Inl e
      | Inr r' \<Rightarrow>
          if streamRuleMapKey r' \<in> streamRuleMapKey ` set acc then Inl (Stream_Duplicate (streamRuleMapKey r'))
          else validate_stream_rules U g (acc @ [r']) rs)"

definition ValidateStreamRules :: "unicode \<Rightarrow> gateway \<Rightarrow> stream_rule list \<Rightarrow> stream_error + stream_rule list" where
  "ValidateStreamRules U g rs = validate_stream_rules U g [] rs"

definition SetStreamRules :: "unicode \<Rightarrow> stream_rule list \<Rightarrow> gateway \<Rightarrow> stream_error option \<times> gateway" where
  "SetStreamRules U rs g =
     (case ValidateStreamRules U g rs of
        Inl e \<Rightarrow> (Some e, g)
      | Inr rs' \<Rightarrow> (None, g\<lparr>gw_StreamRules := rs'\<rparr>))"

definition FlushStreamRules :: "gateway \<Rightarrow> gateway" where
  "FlushStreamRules g = g\<lparr>gw_StreamRules := []\<rparr>"

section \<open>Settings that are part of the snapshot\<close>

definition SetDefaultRoute :: "unicode \<Rightarrow> string \<Rightarrow> gateway \<Rightarrow> gateway" where
  "SetDefaultRoute U route g =
     publishRequestSnapshotLocked U (g\<lparr>gw_DefaultRoute := (if route = [] then selectRoute else route)\<rparr>)"

definition NormalizeEdgeClientIPSelection :: "auth_config \<Rightarrow> auth_config \<times> bool" where
  "NormalizeEdgeClientIPSelection c =
     (if \<not> ac_EdgeClientIPEnabled c
      then (c\<lparr>ac_AliyunESAEnabled := False, ac_TencentEdgeOneEnabled := False\<rparr>,
            ac_AliyunESAEnabled c \<or> ac_TencentEdgeOneEnabled c)
      else if ac_TencentEdgeOneEnabled c \<and> ac_AliyunESAEnabled c
      then (c\<lparr>ac_AliyunESAEnabled := False\<rparr>, True)
      else (c, False))"

definition normalized_auth_config :: "unicode \<Rightarrow> auth_config \<Rightarrow> auth_config" where
  "normalized_auth_config U c =
     fst (NormalizeEdgeClientIPSelection
       (c\<lparr>ac_AuthPort := (if ac_AuthPort c \<le> 0 then 7997 else ac_AuthPort c),
          ac_AuthURL := nonempty_or (ac_AuthURL c) ''/api/auth/verify'',
          ac_LoginURL := nonempty_or (ac_LoginURL c) ''/login'',
          ac_LogoutURL := nonempty_or (ac_LogoutURL c) ''/api/auth/logout'',
          ac_PreflightURL := nonempty_or (ac_PreflightURL c) ''/api/auth/preflight'',
          ac_AuthCacheTTL := max 0 (ac_AuthCacheTTL c),
          ac_AuthCacheFailTTL := max 0 (ac_AuthCacheFailTTL c),
          ac_PublicHTTPPort := max 0 (ac_PublicHTTPPort c),
          ac_PublicHTTPSPort := max 0 (ac_PublicHTTPSPort c),
          ac_PublicAuthBaseURL := trim_space (trim_right_set (ac_PublicAuthBaseURL c) ''/''),
          ac_AuthHost := normalizeRequestHost U (ac_AuthHost c)\<rparr>))"

definition clear_gateway_cache :: "gateway \<Rightarrow> gateway" where
  "clear_gateway_cache g = g\<lparr>gw_auth := clearAuthCache (gw_auth g)\<rparr>"

definition SetAuthConfig :: "unicode \<Rightarrow> auth_config \<Rightarrow> gateway \<Rightarrow> gateway" where
  "SetAuthConfig U c g =
     clear_gateway_cache (publishRequestSnapshotLocked U (g\<lparr>gw_AuthConfig := normalized_auth_config U c\<rparr>))"

definition SetGatewayPortalConfig :: "unicode \<Rightarrow> gateway_portal \<Rightarrow> gateway \<Rightarrow> gateway" where
  "SetGatewayPortalConfig U cfg g =
     publishRequestSnapshotLocked U (g\<lparr>gw_GatewayPortal := NormalizeGatewayPortalConfig cfg\<rparr>)"

definition SetProxyProtocolForce :: "unicode \<Rightarrow> bool \<Rightarrow> gateway \<Rightarrow> gateway" where
  "SetProxyProtocolForce U force g =
     publishRequestSnapshotLocked U (g\<lparr>gw_ProxyProtocolForce := force\<rparr>)"

section \<open>What the checks guarantee\<close>

definition location_ok :: "unicode \<Rightarrow> int \<Rightarrow> host_location \<Rightarrow> bool" where
  "location_ok U port l =
     (hasPrefix (hl_Path l) ''/'' \<and> hl_Path l \<noteq> ''/'' \<and> hl_Path l \<noteq> ''/s'' \<and> \<not> hasPrefix (hl_Path l) ''/__'' \<and>
      hl_Match l \<in> {''prefix'', ''exact''} \<and>
      (if hl_Action l = ''proxy'' then hl_Target l \<noteq> [] \<and> checkSafeTarget U port (hl_Target l) = None
       else hl_Action l = ''response'' \<and> hl_Target l = [] \<and> \<not> hl_StripPath l \<and> \<not> hl_RewriteHTML l \<and>
         100 \<le> lr_Status (hl_Response l) \<and> lr_Status (hl_Response l) \<le> 599 \<and>
         lr_ContentType (hl_Response l) \<noteq> [] \<and>
         (\<forall>(k, v) \<in> set (lr_Headers (hl_Response l)). to_lower U k \<notin> set fixed_headers)))"

definition host_rule_ok :: "unicode \<Rightarrow> int \<Rightarrow> host_rule \<Rightarrow> bool" where
  "host_rule_ok U port h =
     (hr_Host h \<noteq> [] \<and> CHR ''/'' \<notin> set (hr_Host h) \<and> CHR ''*'' \<notin> set (hr_Host h) \<and>
      normalizeRequestHost U (hr_Host h) = hr_Host h \<and>
      hr_Target h \<noteq> [] \<and> checkSafeTarget U port (hr_Target h) = None \<and> hr_AccessMode h \<noteq> [] \<and>
      (ba_Enabled (hr_BasicAuth h) \<longrightarrow> CHR '':'' \<notin> set (ba_Username (hr_BasicAuth h))) \<and>
      (\<forall>l \<in> set (hr_Locations h). location_ok U port l) \<and>
      distinct (map (\<lambda>l. (hl_Match l, hl_Path l)) (hr_Locations h)))"

lemma canonical_chars_lower: "map lowerASCII (canonical_chars up s) = map lowerASCII s"
proof (induction s arbitrary: up)
  case (Cons c s)
  have "lowerASCII (upperASCII c) = lowerASCII c"
    by (auto simp: lowerASCII_def upperASCII_def)
  with Cons show ?case by simp
qed simp

lemma token_ascii: "list_all token_char s \<Longrightarrow> is_ascii s"
  by (auto simp: is_ascii_def list_all_iff token_char_def is_digit_def byte_def)

lemma canonical_chars_ascii: "is_ascii (canonical_chars up s) = is_ascii s"
  using canonical_chars_lower [of up s] is_ascii_lower [of s] is_ascii_lower [of "canonical_chars up s"] by simp

lemma to_lower_canonical: "to_lower U (canonical_header_key k) = to_lower U k"
proof (cases "list_all token_char k")
  case True
  then show ?thesis
    by (simp add: canonical_header_key_def to_lower_def canonical_chars_ascii token_ascii canonical_chars_lower)
qed (simp add: canonical_header_key_def)

lemma normalize_headers_ok:
  "normalize_headers U acc hs = Inr out \<Longrightarrow>
   \<forall>(k, v) \<in> set acc. to_lower U k \<notin> set fixed_headers \<Longrightarrow>
   \<forall>(k, v) \<in> set out. to_lower U k \<notin> set fixed_headers"
proof (induction U acc hs rule: normalize_headers.induct)
  case (2 U acc rawName v hs)
  let ?k = "canonical_header_key (trim_space rawName)"
  from "2.prems" have n: "to_lower U (trim_space rawName) \<notin> set fixed_headers"
    and r: "normalize_headers U (al_put ?k v acc) hs = Inr out"
    and c: "trim_space rawName \<noteq> []" "valid_field_name (trim_space rawName)"
    by (auto simp: Let_def split: if_splits)
  have sub: "set (al_put k x m) \<subseteq> insert (k, x) (set m)" for k x and m :: "(string \<times> string) list"
    unfolding al_put_def by (induction m) auto
  have "\<forall>(k, v) \<in> set (al_put ?k v acc). to_lower U k \<notin> set fixed_headers"
    using sub [of ?k v acc] n "2.prems"(2) to_lower_canonical [of U "trim_space rawName"] by auto
  with "2.IH" c n r show ?case by blast
qed auto

lemma path_clean_slash: "hasPrefix p ''/'' \<Longrightarrow> hasPrefix (path_clean p) ''/''"
  by (cases p) (auto simp: path_clean_def hasPrefix_def Let_def)

lemma sum_case_InrE:
  assumes "(case x of Inl e \<Rightarrow> Inl e | Inr a \<Rightarrow> f a) = Inr y"
  obtains a where "x = Inr a" "f a = Inr y"
  using assms by (cases x) auto

lemma location_path_ok:
  "location_path raw = Inr p \<Longrightarrow>
     hasPrefix p ''/'' \<and> p \<noteq> ''/'' \<and> p \<noteq> ''/s'' \<and> \<not> hasPrefix p ''/__''"
  using path_clean_slash [of "trim_space raw"] by (auto simp: location_path_def Let_def split: if_splits)

lemma normalizeHostLocation_ok:
  assumes "normalizeHostLocation U port l = Inr l'"
  shows "location_ok U port l'"
proof -
  from assms obtain p m a where p: "location_path (hl_Path l) = Inr p" and m: "location_match U (hl_Match l) = Inr m"
    and a: "location_action U (hl_Action l) = Inr a"
    and r: "(let l' = l\<lparr>hl_Path := p, hl_Match := m, hl_Action := a\<rparr> in
        if a = ''proxy'' then proxy_location U port l' else response_location U l') = Inr l'"
    unfolding normalizeHostLocation_def by (elim sum_case_InrE) blast
  have m': "m \<in> {''prefix'', ''exact''}" using m by (auto simp: location_match_def Let_def split: if_splits)
  have a': "a \<in> {''proxy'', ''response''}" using a by (auto simp: location_action_def Let_def split: if_splits)
  let ?l = "l\<lparr>hl_Path := p, hl_Match := m, hl_Action := a\<rparr>"
  show ?thesis
  proof (cases "a = ''proxy''")
    case True
    then have "proxy_location U port ?l = Inr l'" using r by simp
    then have "l' = ?l\<lparr>hl_Target := trim_space (hl_Target l), hl_Response := no_response\<rparr>"
      and "trim_space (hl_Target l) \<noteq> []" "checkSafeTarget U port (trim_space (hl_Target l)) = None"
      by (simp_all add: proxy_location_def Let_def split: if_splits option.splits)
    with location_path_ok [OF p] m' True show ?thesis by (simp add: location_ok_def)
  next
    case False
    with r have r: "response_location U ?l = Inr l'" by simp
    then obtain hs where hs: "normalizeHostLocationResponseHeaders U (lr_Headers (hl_Response l)) = Inr hs"
      by (auto simp: response_location_def Let_def split: if_splits sum.splits)
    then have ok: "\<forall>(k, v) \<in> set hs. to_lower U k \<notin> set fixed_headers"
      by (auto simp: normalizeHostLocationResponseHeaders_def dest: normalize_headers_ok)
    let ?status = "if lr_Status (hl_Response l) = 0 then 200 else lr_Status (hl_Response l)"
    let ?type = "trim_space (lr_ContentType (hl_Response l))"
    from r hs have "l' = ?l\<lparr>hl_Target := [], hl_StripPath := False, hl_RewriteHTML := False,
        hl_Response := (hl_Response l)\<lparr>lr_Status := ?status,
          lr_ContentType := (if ?type = [] then ''text/plain; charset=utf-8'' else ?type), lr_Headers := hs\<rparr>\<rparr>"
      and "100 \<le> ?status" "?status \<le> 599"
      by (simp_all add: response_location_def Let_def split: if_splits)
    with location_path_ok [OF p] m' a' False ok show ?thesis by (simp add: location_ok_def)
  qed
qed

lemma normalize_locations_ok:
  "normalize_locations U port acc ls = Inr out \<Longrightarrow>
   (\<forall>l \<in> set acc. location_ok U port l) \<and> distinct (map hostLocationMapKey acc) \<Longrightarrow>
   (\<forall>l \<in> set out. location_ok U port l) \<and> distinct (map hostLocationMapKey out)"
proof (induction U port acc ls rule: normalize_locations.induct)
  case (2 U port acc l ls)
  from "2.prems"(1) obtain l' where l: "normalizeHostLocation U port l = Inr l'"
    and n: "hostLocationMapKey l' \<notin> hostLocationMapKey ` set acc"
    and r: "normalize_locations U port (acc @ [l']) ls = Inr out"
    by (auto split: sum.splits if_splits)
  show ?case
    by (rule "2.IH" [OF l n r]) (use "2.prems"(2) n normalizeHostLocation_ok [OF l] in auto)
qed auto

lemma distinct_mapped: "distinct (map f xs) \<Longrightarrow> (\<And>x y. g x = g y \<Longrightarrow> f x = f y) \<Longrightarrow> distinct (map g xs)"
  unfolding distinct_map inj_on_def by blast

lemma normalizeHostRule_ok:
  assumes "normalizeHostRule U port h = Inr h'" and "is_ascii (hr_Host h)"
  shows "host_rule_ok U port h' \<and> is_ascii (hr_Host h') \<and> hr_Host h' = normalizeRequestHost U (hr_Host h)"
proof -
  let ?host = "normalizeRequestHost U (hr_Host h)"
  from assms(1) have n: "?host \<noteq> []" "CHR ''/'' \<notin> set ?host" "CHR ''*'' \<notin> set ?host"
    and t: "hr_Target h \<noteq> []"
    by (simp_all add: normalizeHostRule_def Let_def split: if_splits)
  with assms(1) have t2: "checkSafeTarget U port (hr_Target h) = None"
    by (simp add: normalizeHostRule_def Let_def split: option.splits)
  from assms(1) n t t2 have r: "(case normalizeBasicAuthConfig (hr_BasicAuth h) of
       Inl e \<Rightarrow> Inl e
     | Inr basicAuth \<Rightarrow>
         (case normalizeHostLocations U port (hr_Locations h) of
            Inl e \<Rightarrow> Inl e
          | Inr locations \<Rightarrow>
              Inr (h\<lparr>hr_Host := ?host,
                     hr_AccessMode := (if hr_AccessMode h = [] then ''login_first'' else hr_AccessMode h),
                     hr_Title := trim_space (hr_Title h), hr_Favicon := trim_space (hr_Favicon h),
                     hr_BasicAuth := basicAuth, hr_Locations := locations\<rparr>))) = Inr h'"
    by (simp add: normalizeHostRule_def Let_def)
  then obtain ba ls where ba: "normalizeBasicAuthConfig (hr_BasicAuth h) = Inr ba"
    and ls: "normalizeHostLocations U port (hr_Locations h) = Inr ls"
    and h': "h' = h\<lparr>hr_Host := ?host,
        hr_AccessMode := (if hr_AccessMode h = [] then ''login_first'' else hr_AccessMode h),
        hr_Title := trim_space (hr_Title h), hr_Favicon := trim_space (hr_Favicon h),
        hr_BasicAuth := ba, hr_Locations := ls\<rparr>"
    by (elim sum_case_InrE) simp
  have "(\<forall>l \<in> set ls. location_ok U port l) \<and> distinct (map hostLocationMapKey ls)"
    using ls by (auto simp: normalizeHostLocations_def dest: normalize_locations_ok)
  moreover have "distinct (map (\<lambda>l. (hl_Match l, hl_Path l)) ls)" if "distinct (map hostLocationMapKey ls)"
    using that by (rule distinct_mapped) (simp add: hostLocationMapKey_def)
  moreover have "ba_Enabled ba \<longrightarrow> CHR '':'' \<notin> set (ba_Username ba)"
    using ba by (auto simp: normalizeBasicAuthConfig_def Let_def split: if_splits)
  ultimately show ?thesis
    using t t2 n normalizeRequestHost_idem [OF assms(2), of U] by (simp add: h' host_rule_ok_def)
qed

section \<open>Replacing in place\<close>

lemma upsert_first_set: "set (upsert_first P x ys) \<subseteq> insert x (set ys)"
  by (induction ys) auto

lemma upsert_first_distinct:
  assumes "distinct (map key ys)" and "\<And>y. y \<in> set ys \<Longrightarrow> P y \<longleftrightarrow> key y = key x"
  shows "distinct (map key (upsert_first P x ys))"
  using assms
proof (induction ys)
  case (Cons y ys)
  show ?case
  proof (cases "P y")
    case True
    with Cons.prems have "key y = key x" by simp
    with Cons.prems(1) True show ?thesis by simp
  next
    case False
    then have "key y \<noteq> key x" using Cons.prems(2) by simp
    with Cons False show ?thesis using upsert_first_set [of P x ys] by auto
  qed
qed simp

lemma find_upsert_first:
  assumes "\<And>y. y \<in> set ys \<Longrightarrow> P y \<longleftrightarrow> key y = key x"
  shows "List.find (\<lambda>y. key y = k) (upsert_first P x ys) =
     (if k = key x then Some x else List.find (\<lambda>y. key y = k) ys)"
  using assms by (induction ys) auto

section \<open>Sequences of operations\<close>

datatype admin_op =
    Op_AddRule path_rule
  | Op_RemoveRule string
  | Op_FlushRules
  | Op_AddHostRule host_rule
  | Op_SetHostRules "host_rule list"
  | Op_FlushHostRules
  | Op_SetStreamRules "stream_rule list"
  | Op_FlushStreamRules
  | Op_SetDefaultRoute string
  | Op_SetAuthConfig auth_config
  | Op_SetPortal gateway_portal
  | Op_SetForce bool

fun admin_step :: "unicode \<Rightarrow> gateway \<Rightarrow> admin_op \<Rightarrow> gateway" where
  "admin_step U g (Op_AddRule r) = snd (AddRule U r g)"
| "admin_step U g (Op_RemoveRule p) = RemoveRule U p g"
| "admin_step U g Op_FlushRules = FlushRules U g"
| "admin_step U g (Op_AddHostRule h) = snd (AddHostRule U h g)"
| "admin_step U g (Op_SetHostRules hs) = snd (SetHostRules U hs g)"
| "admin_step U g Op_FlushHostRules = FlushHostRules U g"
| "admin_step U g (Op_SetStreamRules rs) = snd (SetStreamRules U rs g)"
| "admin_step U g Op_FlushStreamRules = FlushStreamRules g"
| "admin_step U g (Op_SetDefaultRoute p) = SetDefaultRoute U p g"
| "admin_step U g (Op_SetAuthConfig c) = SetAuthConfig U c g"
| "admin_step U g (Op_SetPortal c) = SetGatewayPortalConfig U c g"
| "admin_step U g (Op_SetForce b) = SetProxyProtocolForce U b g"

fun ascii_op :: "admin_op \<Rightarrow> bool" where
  "ascii_op (Op_AddHostRule h) = is_ascii (hr_Host h)"
| "ascii_op (Op_SetHostRules hs) = list_all (\<lambda>h. is_ascii (hr_Host h)) hs"
| "ascii_op _ = True"

definition rules_ok :: "unicode \<Rightarrow> gateway \<Rightarrow> bool" where
  "rules_ok U g =
     ((\<forall>r \<in> set (gw_Rules g). path_rule_error U (gw_AdminPort g) r = None) \<and>
      distinct (map pr_Path (gw_Rules g)) \<and>
      (\<forall>h \<in> set (gw_HostRules g). host_rule_ok U (gw_AdminPort g) h \<and> is_ascii (hr_Host h)) \<and>
      distinct (map hr_Host (gw_HostRules g)) \<and>
      (\<forall>r \<in> set (gw_StreamRules g). normalizeStreamRule U g r = Inr r) \<and>
      distinct (map (\<lambda>r. (sr_Protocol r, sr_ListenPort r)) (gw_StreamRules g)) \<and>
      gw_requestState g = Some (current_snapshot U g))"

lemma normalizeStreamRule_ports:
  assumes "gw_AdminPort g' = gw_AdminPort g" and "gw_ProxyPort g' = gw_ProxyPort g"
  shows "normalizeStreamRule U g' = normalizeStreamRule U g"
proof -
  have eqs: "reservedStreamPortName g' = reservedStreamPortName g"
    and eqc: "checkSafeStreamTarget g' = checkSafeStreamTarget g"
    unfolding fun_eq_iff reservedStreamPortName_def checkSafeStreamTarget_def assms by simp_all
  show ?thesis by (rule ext) (unfold normalizeStreamRule_def eqs eqc, rule refl)
qed

lemma stream_protocol_fix:
  "normalizeStreamProtocol U p = Inr q \<Longrightarrow> q \<in> {''tcp'', ''udp''} \<and> normalizeStreamProtocol U q = Inr q"
proof -
  assume "normalizeStreamProtocol U p = Inr q"
  then have q: "q \<in> {''tcp'', ''udp''}" by (auto simp: normalizeStreamProtocol_def Let_def split: if_splits)
  have "trim_space ''tcp'' = ''tcp''" "trim_space ''udp'' = ''udp''"
    "to_lower U ''tcp'' = ''tcp''" "to_lower U ''udp'' = ''udp''"
    by (code_simp, code_simp, simp_all add: to_lower_def is_ascii_def lowerASCII_def byte_def)
  with q show ?thesis by (auto simp: normalizeStreamProtocol_def)
qed

text \<open>A normalised stream rule is accepted as it is.\<close>

lemma normalizeStreamRule_fix:
  assumes "normalizeStreamRule U g r = Inr r'"
  shows "normalizeStreamRule U g r' = Inr r'"
proof -
  from assms obtain q where q: "normalizeStreamProtocol U (sr_Protocol r) = Inr q"
    unfolding normalizeStreamRule_def by (elim sum_case_InrE) blast
  let ?r = "r\<lparr>sr_Target := trim_space (sr_Target r), sr_Protocol := q\<rparr>"
  from assms q have r': "r' = ?r"
    by (auto simp: normalizeStreamRule_def Let_def split: if_splits sum.splits)
  have "normalizeStreamRule U g ?r = normalizeStreamRule U g r"
    using q stream_protocol_fix [OF q] by (simp add: normalizeStreamRule_def Let_def)
  with assms r' show ?thesis by simp
qed

lemma validate_stream_rules_ok:
  "validate_stream_rules U g acc rs = Inr out \<Longrightarrow>
   (\<forall>r \<in> set acc. normalizeStreamRule U g r = Inr r) \<and> distinct (map streamRuleMapKey acc) \<Longrightarrow>
   (\<forall>r \<in> set out. normalizeStreamRule U g r = Inr r) \<and> distinct (map streamRuleMapKey out)"
proof (induction U g acc rs rule: validate_stream_rules.induct)
  case (2 U g acc r rs)
  from "2.prems"(1) obtain r' where r: "normalizeStreamRule U g r = Inr r'"
    and n: "streamRuleMapKey r' \<notin> streamRuleMapKey ` set acc"
    and v: "validate_stream_rules U g (acc @ [r']) rs = Inr out"
    by (auto split: sum.splits if_splits)
  show ?case
    by (rule "2.IH" [OF r n v]) (use "2.prems"(2) n normalizeStreamRule_fix [OF r] in auto)
qed auto

lemma normalize_host_rules_ok:
  "normalize_host_rules U port acc hs = Inr out \<Longrightarrow>
   list_all (\<lambda>h. is_ascii (hr_Host h)) hs \<Longrightarrow>
   (\<forall>h \<in> set acc. host_rule_ok U port h \<and> is_ascii (hr_Host h)) \<and> distinct (map hr_Host acc) \<Longrightarrow>
   (\<forall>h \<in> set out. host_rule_ok U port h \<and> is_ascii (hr_Host h)) \<and> distinct (map hr_Host out)"
proof (induction U port acc hs rule: normalize_host_rules.induct)
  case (2 U port acc h hs)
  from "2.prems"(1) obtain h' where h: "normalizeHostRule U port h = Inr h'"
    and r: "normalize_host_rules U port (upsert_first (\<lambda>x. hr_Host x = hr_Host h') h' acc) hs = Inr out"
    by (auto split: sum.splits)
  have "is_ascii (hr_Host h)" using "2.prems"(2) by simp
  note ok = normalizeHostRule_ok [OF h this]
  show ?case
  proof (rule "2.IH" [OF h r])
    show "(\<forall>x \<in> set (upsert_first (\<lambda>x. hr_Host x = hr_Host h') h' acc). host_rule_ok U port x \<and> is_ascii (hr_Host x)) \<and>
      distinct (map hr_Host (upsert_first (\<lambda>x. hr_Host x = hr_Host h') h' acc))"
      using upsert_first_set [of "\<lambda>x. hr_Host x = hr_Host h'" h' acc] ok "2.prems"(3)
      by (auto intro: upsert_first_distinct)
  qed (use "2.prems"(2) in simp)
qed auto

section \<open>The invariant of the rule store\<close>

lemma published [simp]:
  "gw_requestState (publishRequestSnapshotLocked U g) = Some (current_snapshot U (publishRequestSnapshotLocked U g))"
  by (simp add: publishRequestSnapshotLocked_def current_snapshot_def)

lemma rules_ok_publish:
  assumes "rules_ok U g" and "gw_AdminPort g' = gw_AdminPort g" and "gw_ProxyPort g' = gw_ProxyPort g"
    and "gw_StreamRules g' = gw_StreamRules g"
    and "(\<forall>r \<in> set (gw_Rules g'). path_rule_error U (gw_AdminPort g) r = None) \<and> distinct (map pr_Path (gw_Rules g'))"
    and "(\<forall>h \<in> set (gw_HostRules g'). host_rule_ok U (gw_AdminPort g) h \<and> is_ascii (hr_Host h)) \<and>
      distinct (map hr_Host (gw_HostRules g'))"
  shows "rules_ok U (publishRequestSnapshotLocked U g')"
proof -
  have "normalizeStreamRule U (publishRequestSnapshotLocked U g') = normalizeStreamRule U g"
    by (rule normalizeStreamRule_ports) (simp_all add: publishRequestSnapshotLocked_def assms(2,3))
  then show ?thesis
    using assms by (simp add: rules_ok_def publishRequestSnapshotLocked_def current_snapshot_def)
qed

lemma rules_ok_streams:
  assumes "rules_ok U g" and "\<forall>r \<in> set rs. normalizeStreamRule U g r = Inr r"
    and "distinct (map streamRuleMapKey rs)"
  shows "rules_ok U (g\<lparr>gw_StreamRules := rs\<rparr>)"
proof -
  have "normalizeStreamRule U (g\<lparr>gw_StreamRules := rs\<rparr>) = normalizeStreamRule U g"
    by (rule normalizeStreamRule_ports) simp_all
  moreover have "distinct (map (\<lambda>r. (sr_Protocol r, sr_ListenPort r)) rs)"
    using assms(3) by (rule distinct_mapped) (simp add: streamRuleMapKey_def)
  ultimately show ?thesis using assms by (simp add: rules_ok_def current_snapshot_def)
qed

lemma rules_ok_cache: "rules_ok U g \<Longrightarrow> rules_ok U (clear_gateway_cache g)"
proof -
  assume ok: "rules_ok U g"
  have "normalizeStreamRule U (clear_gateway_cache g) = normalizeStreamRule U g"
    by (rule normalizeStreamRule_ports) (simp_all add: clear_gateway_cache_def)
  with ok show ?thesis by (simp add: rules_ok_def current_snapshot_def clear_gateway_cache_def)
qed

lemma admin_step_ok:
  assumes ok: "rules_ok U g" and "ascii_op op"
  shows "rules_ok U (admin_step U g op)"
proof (cases op)
  case (Op_AddRule r)
  let ?rs = "upsert_first (\<lambda>x. pr_Path x = pr_Path r) r (gw_Rules g)"
  show ?thesis
  proof (cases "path_rule_error U (gw_AdminPort g) r")
    case None
    have "distinct (map pr_Path ?rs)"
      using ok by (intro upsert_first_distinct) (simp_all add: rules_ok_def)
    then have "rules_ok U (publishRequestSnapshotLocked U (g\<lparr>gw_Rules := ?rs\<rparr>))"
      using upsert_first_set [of "\<lambda>x. pr_Path x = pr_Path r" r "gw_Rules g"] ok None
      by (intro rules_ok_publish [OF ok]) (auto simp: rules_ok_def)
    with None Op_AddRule show ?thesis by (simp add: AddRule_def)
  qed (use ok Op_AddRule in \<open>simp add: AddRule_def\<close>)
next
  case (Op_AddHostRule h0)
  show ?thesis
  proof (cases "normalizeHostRule U (gw_AdminPort g) h0")
    case (Inr h)
    let ?P = "\<lambda>x. normalizeRequestHost U (hr_Host x) = hr_Host h"
    let ?hs = "upsert_first ?P h (gw_HostRules g)"
    have h: "host_rule_ok U (gw_AdminPort g) h" "is_ascii (hr_Host h)"
      using normalizeHostRule_ok [OF Inr] assms(2) Op_AddHostRule by auto
    have "distinct (map hr_Host ?hs)"
      using ok by (intro upsert_first_distinct) (auto simp: rules_ok_def host_rule_ok_def)
    then have "rules_ok U (publishRequestSnapshotLocked U (g\<lparr>gw_HostRules := ?hs\<rparr>))"
      using upsert_first_set [of ?P h "gw_HostRules g"] ok h
      by (intro rules_ok_publish [OF ok]) (auto simp: rules_ok_def)
    with Inr Op_AddHostRule show ?thesis by (simp add: AddHostRule_def)
  qed (use ok Op_AddHostRule in \<open>simp add: AddHostRule_def\<close>)
next
  case (Op_SetHostRules hs)
  show ?thesis
  proof (cases "normalize_host_rules U (gw_AdminPort g) [] hs")
    case (Inr hs')
    then have "(\<forall>h \<in> set hs'. host_rule_ok U (gw_AdminPort g) h \<and> is_ascii (hr_Host h)) \<and> distinct (map hr_Host hs')"
      by (rule normalize_host_rules_ok) (use assms(2) Op_SetHostRules in simp_all)
    then have "rules_ok U (publishRequestSnapshotLocked U (g\<lparr>gw_HostRules := hs'\<rparr>))"
      using ok by (intro rules_ok_publish [OF ok]) (simp_all add: rules_ok_def)
    with Inr Op_SetHostRules show ?thesis by (simp add: SetHostRules_def)
  qed (use ok Op_SetHostRules in \<open>simp add: SetHostRules_def\<close>)
next
  case (Op_SetStreamRules rs)
  show ?thesis
  proof (cases "ValidateStreamRules U g rs")
    case (Inr rs')
    then have "(\<forall>r \<in> set rs'. normalizeStreamRule U g r = Inr r) \<and> distinct (map streamRuleMapKey rs')"
      unfolding ValidateStreamRules_def by (rule validate_stream_rules_ok) simp
    then have "rules_ok U (g\<lparr>gw_StreamRules := rs'\<rparr>)" by (intro rules_ok_streams [OF ok]) simp_all
    with Inr Op_SetStreamRules show ?thesis by (simp add: SetStreamRules_def)
  qed (use ok Op_SetStreamRules in \<open>simp add: SetStreamRules_def\<close>)
next
  case Op_FlushStreamRules
  have "rules_ok U (g\<lparr>gw_StreamRules := []\<rparr>)" by (rule rules_ok_streams [OF ok]) simp_all
  then show ?thesis by (simp add: Op_FlushStreamRules FlushStreamRules_def)
next
  case (Op_SetAuthConfig c)
  have "rules_ok U (publishRequestSnapshotLocked U (g\<lparr>gw_AuthConfig := normalized_auth_config U c\<rparr>))"
    using ok by (intro rules_ok_publish [OF ok]) (simp_all add: rules_ok_def)
  then have "rules_ok U (SetAuthConfig U c g)" unfolding SetAuthConfig_def by (rule rules_ok_cache)
  with Op_SetAuthConfig show ?thesis by simp
next
  case (Op_RemoveRule p)
  have "rules_ok U (RemoveRule U p g)"
    unfolding RemoveRule_def using ok
    by (intro rules_ok_publish [OF ok]) (auto simp: rules_ok_def distinct_map_filter)
  then show ?thesis by (simp add: Op_RemoveRule)
next
  case Op_FlushRules
  show ?thesis
    unfolding Op_FlushRules admin_step.simps FlushRules_def
    by (rule rules_ok_publish [OF ok]) (use ok in \<open>simp_all add: rules_ok_def\<close>)
next
  case Op_FlushHostRules
  show ?thesis
    unfolding Op_FlushHostRules admin_step.simps FlushHostRules_def
    by (rule rules_ok_publish [OF ok]) (use ok in \<open>simp_all add: rules_ok_def\<close>)
next
  case (Op_SetDefaultRoute p)
  show ?thesis
    unfolding Op_SetDefaultRoute admin_step.simps SetDefaultRoute_def
    by (rule rules_ok_publish [OF ok]) (use ok in \<open>simp_all add: rules_ok_def\<close>)
next
  case (Op_SetPortal c)
  show ?thesis
    unfolding Op_SetPortal admin_step.simps SetGatewayPortalConfig_def
    by (rule rules_ok_publish [OF ok]) (use ok in \<open>simp_all add: rules_ok_def\<close>)
next
  case (Op_SetForce b)
  show ?thesis
    unfolding Op_SetForce admin_step.simps SetProxyProtocolForce_def
    by (rule rules_ok_publish [OF ok]) (use ok in \<open>simp_all add: rules_ok_def\<close>)
qed


definition empty_gateway :: "unicode \<Rightarrow> gateway" where
  "empty_gateway U = publishRequestSnapshotLocked U
     \<lparr>gw_Rules = [], gw_HostRules = [], gw_StreamRules = [], gw_DefaultRoute = selectRoute,
      gw_AuthConfig = plain_config, gw_GatewayPortal = plain_portal, gw_ProxyProtocolForce = False,
      gw_AdminPort = 79, gw_ProxyPort = 80, gw_requestState = None,
      gw_auth = \<lparr>hc_auth = newStateCache, hc_preflight = newStateCache, ah_skipUntil = 0, ah_loggedIn = [],
        ah_mock = False\<rparr>\<rparr>"

lemma rules_ok_empty: "rules_ok U (empty_gateway U)"
  by (simp add: rules_ok_def empty_gateway_def publishRequestSnapshotLocked_def current_snapshot_def)



text \<open>The administration port.
  The check that keeps rules from pointing at the administration interface compares three
  spellings: any other loopback address of the machine is accepted as a target, although the check
  of TCP stream rules refuses the very same address and port.\<close>

theorem admin_port_reachable:
  assumes "parseReverseProxyTargetURL U target = Inr u" and "isLoopbackOrUnspecifiedHost (url_hostname u)"
    and "url_hostname u \<notin> {''localhost'', ''127.0.0.1'', ''::1''}"
    and "parseStreamTarget streamTarget = Inr (url_hostname u, gw_AdminPort g)"
  shows "checkSafeTarget U (gw_AdminPort g) target = None \<and>
    checkSafeStreamTarget g ''tcp'' streamTarget = Inl (Stream_Admin_Port (gw_AdminPort g))"
  using assms parsed_target [OF assms(1)]
  by (simp add: checkSafeTarget_def parseReverseProxyTargetURLs_def checkSafeStreamTarget_def)

theorem admin_port_reachable_witness:
  "checkSafeTarget plain_unicode 79 ''http://127.0.0.2:79'' = None \<and>
   checkSafeTarget plain_unicode 79 ''http://127.0.0.1:79'' = Some (Local_Admin_Port 79) \<and>
   checkSafeStreamTarget (empty_gateway plain_unicode) ''tcp'' ''127.0.0.2:79'' = Inl (Stream_Admin_Port 79)"
proof -
  obtain u where u: "parseReverseProxyTargetURL plain_unicode ''http://127.0.0.2:79'' = Inr u"
    and h: "url_hostname u = ''127.0.0.2''"
  proof -
    have "(case parseReverseProxyTargetURL plain_unicode ''http://127.0.0.2:79'' of
            Inl e \<Rightarrow> False | Inr u \<Rightarrow> url_hostname u = ''127.0.0.2'')" by code_simp
    then show ?thesis using that by (auto split: sum.splits)
  qed
  have l: "isLoopbackOrUnspecifiedHost ''127.0.0.2''"
    and p: "parseStreamTarget ''127.0.0.2:79'' = Inr (''127.0.0.2'', 79)" by code_simp+
  have a: "gw_AdminPort (empty_gateway plain_unicode) = 79"
    by (simp add: empty_gateway_def publishRequestSnapshotLocked_def)
  have "checkSafeTarget plain_unicode 79 ''http://127.0.0.2:79'' = None \<and>
      checkSafeStreamTarget (empty_gateway plain_unicode) ''tcp'' ''127.0.0.2:79'' = Inl (Stream_Admin_Port 79)"
    using admin_port_reachable [OF u, of "''127.0.0.2:79''" "empty_gateway plain_unicode"] h l p a by simp
  moreover have "checkSafeTarget plain_unicode 79 ''http://127.0.0.1:79'' = Some (Local_Admin_Port 79)"
    by code_simp
  ultimately show ?thesis by blast
qed


end
