(* ===== verification/TargetPolicy.thy ===== *)
theory TargetPolicy
  imports RuleStore
begin

text \<open>
  What is decided per target of a proxied request: whether the forwarding headers and the host
  name of the client are passed on (\<^verbatim>\<open>forwarded_headers_config.go\<close>,
  \<^verbatim>\<open>preserve_host_config.go\<close>), and the private address of the upstream that is announced
  to it (\<^verbatim>\<open>upstream_private_ipv4.go\<close>).
\<close>

section \<open>Keys of targets\<close>

definition normalizeForwardedHeadersTargetScheme :: "unicode \<Rightarrow> string \<Rightarrow> string" where
  "normalizeForwardedHeadersTargetScheme U scheme0 =
     (let scheme = trim_space scheme0 in
      if length scheme = 2 \<and> equalFoldASCIIString scheme ''ws'' then ''ws''
      else if length scheme = 3 \<and> equalFoldASCIIString scheme ''wss'' then ''wss''
      else if length scheme = 4 \<and> equalFoldASCIIString scheme ''http'' then ''http''
      else if length scheme = 5 \<and> equalFoldASCIIString scheme ''https'' then ''https''
      else lowerASCIIString U scheme)"

definition canonicalForwardedHeadersBasePath :: "string \<Rightarrow> string" where
  "canonicalForwardedHeadersBasePath raw0 =
     (let raw = trim_space raw0 in
      if raw = [] \<or> raw = ''/'' then []
      else (let cleaned = path_clean (ensureLeadingSlash raw) in
            if cleaned = ''.'' \<or> cleaned = ''/'' then [] else cleaned))"

definition forwardedHeadersTargetKeyParts :: "string \<Rightarrow> string \<Rightarrow> string \<Rightarrow> string" where
  "forwardedHeadersTargetKeyParts scheme host targetPath =
     scheme @ ''://'' @ host @
     (if targetPath \<noteq> [] then escaped_path (zero_url\<lparr>u_Path := targetPath\<rparr>) else [])"

text \<open>Scheme, path and key of a target; websocket targets have the keys of plain ones.\<close>

definition normalizedForwardedHeadersTargetParts :: "unicode \<Rightarrow> url \<Rightarrow> (string \<times> string \<times> string) option" where
  "normalizedForwardedHeadersTargetParts U target =
     (let s0 = normalizeForwardedHeadersTargetScheme U (u_Scheme target);
          scheme = (if s0 = ''ws'' then ''http'' else if s0 = ''wss'' then ''https'' else s0)
      in if scheme \<noteq> ''http'' \<and> scheme \<noteq> ''https'' then None
         else if trim_space (u_Host target) = [] then None
         else (let targetPath = canonicalForwardedHeadersBasePath (u_Path target) in
               Some (scheme, targetPath, forwardedHeadersTargetKeyParts scheme (u_Host target) targetPath)))"

definition forwardedHeadersTargetKeyForURL :: "unicode \<Rightarrow> url \<Rightarrow> string option" where
  "forwardedHeadersTargetKeyForURL U target =
     map_option (\<lambda>(_, _, key). key) (normalizedForwardedHeadersTargetParts U target)"

definition normalizeForwardedHeadersTargetURL :: "unicode \<Rightarrow> url \<Rightarrow> (url \<times> string) option" where
  "normalizeForwardedHeadersTargetURL U target =
     (case normalizedForwardedHeadersTargetParts U target of
        None \<Rightarrow> None
      | Some (scheme, targetPath, key) \<Rightarrow>
          Some (target\<lparr>u_Scheme := scheme, u_User := None, u_RawQuery := [], u_Fragment := [],
                       u_RawPath := [], u_Path := targetPath\<rparr>, key))"

definition normalizeForwardedHeadersTarget :: "unicode \<Rightarrow> string \<Rightarrow> string option" where
  "normalizeForwardedHeadersTarget U rawTarget =
     (case url_parse (trim_space rawTarget) of
        None \<Rightarrow> None
      | Some parsed \<Rightarrow> map_option snd (normalizeForwardedHeadersTargetURL U parsed))"

section \<open>The two policies\<close>

record target_policy =
  tp_Enabled :: bool
  tp_OmitTargets :: "string list"
  tp_UpdatedAt :: string

record policy_runtime =
  po_config :: target_policy
  po_omitTargets :: "string list"

text \<open>
  \<^verbatim>\<open>normalizeForwardedHeadersConfig\<close> and \<^verbatim>\<open>normalizePreserveHostConfig\<close> are one function on
  two types: targets that cannot be parsed are left out, and so are repetitions.
\<close>

definition normalizeTargetPolicy :: "unicode \<Rightarrow> target_policy \<Rightarrow> target_policy \<times> string list" where
  "normalizeTargetPolicy U cfg =
     (let omit = dedup_on (\<lambda>k. k) (normalizeForwardedHeadersTarget U) [] (tp_OmitTargets cfg) in
      (\<lparr>tp_Enabled = tp_Enabled cfg, tp_OmitTargets = omit, tp_UpdatedAt = trim_space (tp_UpdatedAt cfg)\<rparr>, omit))"

definition policy_updateConfig :: "unicode \<Rightarrow> target_policy \<Rightarrow> policy_runtime" where
  "policy_updateConfig U cfg =
     (case normalizeTargetPolicy U cfg of (normalized, omit) \<Rightarrow>
        \<lparr>po_config = normalized, po_omitTargets = omit\<rparr>)"

definition policy_getConfig :: "policy_runtime \<Rightarrow> target_policy" where
  "policy_getConfig c = po_config c"

definition shouldOmit :: "unicode \<Rightarrow> policy_runtime \<Rightarrow> url \<Rightarrow> bool" where
  "shouldOmit U c target =
     (case forwardedHeadersTargetKeyForURL U target of
        None \<Rightarrow> False
      | Some key \<Rightarrow> tp_Enabled (po_config c) \<and> key \<in> set (po_omitTargets c))"

text \<open>Targets without forwarding headers, or without the client's host name.
  A target is exempt exactly if the policy is on and one of the configured texts denotes it: the
  same host, the same cleaned path and the same scheme, ws and wss read as http and https.\<close>

theorem target_policy:
  "shouldOmit U (policy_updateConfig U cfg) target \<longleftrightarrow>
     tp_Enabled cfg \<and>
     (\<exists>raw \<in> set (tp_OmitTargets cfg). \<exists>u. url_parse (trim_space raw) = Some u \<and>
        forwardedHeadersTargetKeyForURL U u = forwardedHeadersTargetKeyForURL U target \<and>
        forwardedHeadersTargetKeyForURL U u \<noteq> None)"
proof -
  have key: "normalizeForwardedHeadersTarget U raw = Some k \<longleftrightarrow>
      (\<exists>u. url_parse (trim_space raw) = Some u \<and> forwardedHeadersTargetKeyForURL U u = Some k)" for raw k
    by (auto simp: normalizeForwardedHeadersTarget_def normalizeForwardedHeadersTargetURL_def
        forwardedHeadersTargetKeyForURL_def split: option.splits)
  have "set (dedup_on (\<lambda>k. k) (normalizeForwardedHeadersTarget U) [] (tp_OmitTargets cfg)) =
      {k. \<exists>raw \<in> set (tp_OmitTargets cfg). normalizeForwardedHeadersTarget U raw = Some k}"
    by (rule dedup_on_set) simp
  then show ?thesis
    unfolding shouldOmit_def policy_updateConfig_def normalizeTargetPolicy_def Let_def
    by (auto simp: key split: option.splits)
qed

section \<open>The headers of a proxied request\<close>

definition applyForwardedHeaderPolicy :: "golib \<Rightarrow> header \<Rightarrow> request \<Rightarrow> string \<Rightarrow> bool \<Rightarrow> header" where
  "applyForwardedHeaderPolicy G out inr clientIP omit =
     (let h = header_set ''X-Real-IP'' clientIP out in
      if omit then
        header_del ''X-Forwarded-Proto'' (header_del ''X-Forwarded-Host'' (header_del ''X-Forwarded-For'' h))
      else
        header_set ''X-Forwarded-Proto'' (publicRequestScheme G inr)
          (header_set ''X-Forwarded-Host'' (rq_Host inr) (header_set ''X-Forwarded-For'' clientIP h)))"

definition applyPreserveHostPolicy :: "request \<Rightarrow> url \<Rightarrow> bool \<Rightarrow> string" where
  "applyPreserveHostPolicy inr target preserveHost = (if preserveHost then rq_Host inr else u_Host target)"

definition applyInternalAuthProxyHeaders ::
    "golib \<Rightarrow> header \<Rightarrow> request \<Rightarrow> string \<Rightarrow> auth_config \<Rightarrow> header" where
  "applyInternalAuthProxyHeaders G out source clientIP cfg =
     (let h = header_set ''X-Real-IP'' clientIP out;
          h = header_set ''X-Forwarded-For'' clientIP h;
          h = header_set ''X-Forwarded-Host'' (rq_Host source) h;
          h = header_set ''X-Forwarded-Proto'' (publicRequestScheme G source) h;
          h = (if TencentEdgeOneActive cfg \<and> clientIP \<noteq> []
               then header_del ''Ali-Real-Client-IP'' (header_set ''EO-Connecting-IP'' clientIP h)
               else if AliyunESAActive cfg \<and> clientIP \<noteq> []
               then header_del ''EO-Connecting-IP'' (header_set ''Ali-Real-Client-IP'' clientIP h)
               else header_del ''EO-Connecting-IP'' (header_del ''Ali-Real-Client-IP'' h));
          h = header_del ''X-Match'' (header_del ''X-Forwarded-Path'' h)
      in copyUserAgentHeader h (rq_Header source))"

definition applyNoStoreCacheHeaders :: "header \<Rightarrow> header" where
  "applyNoStoreCacheHeaders h =
     header_set ''Surrogate-Control'' ''no-store''
       (header_set ''CDN-Cache-Control'' ''private, no-store''
         (header_set ''Expires'' ''0''
           (header_set ''Pragma'' ''no-cache''
             (header_set ''Cache-Control'' ''private, no-store, no-cache, max-age=0, must-revalidate'' h))))"

definition shouldDisableAuthResponseCaching :: "string \<Rightarrow> bool" where
  "shouldDisableAuthResponseCaching requestPath =
     (let p = path_clean (ensureLeadingSlash (trim_space requestPath)) in
      p = ''/api/auth'' \<or> hasPrefix p ''/api/auth/'')"

text \<open>\<^verbatim>\<open>base64.StdEncoding\<close>\<close>

definition b64_char :: "nat \<Rightarrow> char" where
  "b64_char n =
     (if n < 26 then char_of (n + 65) else if n < 52 then char_of (n + 71)
      else if n < 62 then char_of (n - 4) else if n = 62 then CHR ''+'' else CHR ''/'')"

fun b64_encode :: "string \<Rightarrow> string" where
  "b64_encode [] = []"
| "b64_encode [a] = [b64_char (byte a div 4), b64_char (byte a mod 4 * 16), CHR ''='', CHR ''='']"
| "b64_encode [a, b] =
     [b64_char (byte a div 4), b64_char (byte a mod 4 * 16 + byte b div 16), b64_char (byte b mod 16 * 4), CHR ''='']"
| "b64_encode (a # b # c # s) =
     [b64_char (byte a div 4), b64_char (byte a mod 4 * 16 + byte b div 16),
      b64_char (byte b mod 16 * 4 + byte c div 64), b64_char (byte c mod 64)] @ b64_encode s"

definition applyBasicAuthInjection :: "header \<Rightarrow> basic_auth \<Rightarrow> header" where
  "applyBasicAuthInjection out cfg =
     (let username = trim_space (ba_Username cfg) in
      if \<not> ba_Enabled cfg \<or> username = [] \<or> ba_Password cfg = [] \<or> CHR '':'' \<in> set username then out
      else header_set ''Authorization'' (''Basic '' @ b64_encode (username @ '':'' @ ba_Password cfg)) out)"

lemma forwarded_keys:
  "canonical_header_key ''Forwarded'' = ''Forwarded''" "canonical_header_key ''X-Match'' = ''X-Match''"
  "canonical_header_key ''Ali-Real-Client-IP'' = ''Ali-Real-Client-Ip''"
  "canonical_header_key ''EO-Connecting-IP'' = ''Eo-Connecting-Ip''"
  by code_simp+

lemma forwarded_policy_get:
  "header_get (applyForwardedHeaderPolicy G out inr clientIP omit) k =
     (let c = canonical_header_key k in
      if c = ''X-Real-Ip'' then clientIP
      else if c = ''X-Forwarded-For'' then (if omit then [] else clientIP)
      else if c = ''X-Forwarded-Host'' then (if omit then [] else rq_Host inr)
      else if c = ''X-Forwarded-Proto'' then (if omit then [] else publicRequestScheme G inr)
      else header_get out k)"
  unfolding applyForwardedHeaderPolicy_def Let_def
  by (cases omit) (simp_all add: header_get_set header_get_del service_keys)

lemma internal_auth_get:
  "header_get (applyInternalAuthProxyHeaders G out source clientIP cfg) k =
     (let c = canonical_header_key k in
      if c = ''User-Agent'' then header_get (rq_Header source) ''User-Agent''
      else if c = ''X-Match'' \<or> c = ''X-Forwarded-Path'' then []
      else if c = ''Eo-Connecting-Ip'' then (if TencentEdgeOneActive cfg then clientIP else [])
      else if c = ''Ali-Real-Client-Ip'' then (if AliyunESAActive cfg then clientIP else [])
      else if c = ''X-Forwarded-Proto'' then publicRequestScheme G source
      else if c = ''X-Forwarded-Host'' then rq_Host source
      else if c = ''X-Forwarded-For'' \<or> c = ''X-Real-Ip'' then clientIP
      else header_get out k)"
proof -
  have excl: "\<not> (TencentEdgeOneActive cfg \<and> AliyunESAActive cfg)"
    by (simp add: TencentEdgeOneActive_def AliyunESAActive_def)
  show ?thesis
    unfolding applyInternalAuthProxyHeaders_def Let_def header_get_agent header_get_del header_get_if
      header_get_set service_keys forwarded_keys
    using excl by (cases "clientIP = []") auto
qed



section \<open>The private address of the upstream\<close>

text \<open>
  The network as the code sees it: the addresses of a host name, the local address of a socket
  connected to a remote one, and the interfaces with their addresses (\<open>None\<close> where the call fails).
\<close>

record net_env =
  ne_lookup :: "string \<Rightarrow> addr list option"
  ne_outbound :: "string \<Rightarrow> addr option"
  ne_interfaces :: "(string \<times> addr list option) list option"

definition upstreamPrivateIPv4CacheTTL :: duration where
  "upstreamPrivateIPv4CacheTTL = 30 * second"

definition normalizeUpstreamHostname :: "unicode \<Rightarrow> string \<Rightarrow> string" where
  "normalizeUpstreamHostname U v = trimSuffix (trim_space (to_lower U v)) ''.''"

definition normalizeIPv4 :: "addr \<Rightarrow> string" where
  "normalizeIPv4 a = (case unmap a of V4 w \<Rightarrow> v4_str w | V6 w z \<Rightarrow> [])"

fun private_v4 :: "addr \<Rightarrow> bool" where
  "private_v4 (V6 w z) = False"
| "private_v4 (V4 w) =
     (let a = v4_fields w ! 0; b = v4_fields w ! 1 in
      a = 10 \<or> (a = 172 \<and> 16 \<le> b \<and> b \<le> 31) \<or> (a = 192 \<and> b = 168))"

definition isUsablePrivateIPv4 :: "string \<Rightarrow> bool" where
  "isUsablePrivateIPv4 v =
     (case net_parse_ip (trim_space v) of None \<Rightarrow> False | Some a \<Rightarrow> private_v4 a)"

definition isLoopbackOrLocalHostname :: "unicode \<Rightarrow> string \<Rightarrow> bool" where
  "isLoopbackOrLocalHostname U v =
     (let h = trim_space (to_lower U v) in
      if h = [] then False
      else if h = ''localhost'' then True
      else (case net_parse_ip h of None \<Rightarrow> False | Some a \<Rightarrow> addr_is_loopback a))"

definition skipped_interfaces :: "string list" where
  "skipped_interfaces = [''lo'', ''docker'', ''br-'', ''veth'', ''tailscale'', ''zt'', ''tun'', ''tap'', ''wg'', ''vmnet'']"

definition shouldSkipPrivateIPv4Interface :: "unicode \<Rightarrow> string \<Rightarrow> bool" where
  "shouldSkipPrivateIPv4Interface U name =
     (let n = trim_space (to_lower U name) in n = [] \<or> list_ex (hasPrefix n) skipped_interfaces)"

definition first_usable :: "string list \<Rightarrow> string" where
  "first_usable ips = (case filter (\<lambda>ip. ip \<noteq> [] \<and> isUsablePrivateIPv4 ip) ips of ip # _ \<Rightarrow> ip | [] \<Rightarrow> [])"

definition lookupHostnamePrivateIPv4 :: "net_env \<Rightarrow> string \<Rightarrow> string" where
  "lookupHostnamePrivateIPv4 E hostname =
     (case ne_lookup E hostname of None \<Rightarrow> [] | Some addresses \<Rightarrow> first_usable (map normalizeIPv4 addresses))"

definition detectOutboundPrivateIPv4 :: "net_env \<Rightarrow> string \<Rightarrow> string" where
  "detectOutboundPrivateIPv4 E remoteAddr =
     (case ne_outbound E remoteAddr of
        None \<Rightarrow> []
      | Some a \<Rightarrow> if isUsablePrivateIPv4 (normalizeIPv4 a) then normalizeIPv4 a else [])"

definition detectInterfacePrivateIPv4 :: "unicode \<Rightarrow> net_env \<Rightarrow> string" where
  "detectInterfacePrivateIPv4 U E =
     (case ne_interfaces E of
        None \<Rightarrow> []
      | Some is \<Rightarrow>
          first_usable (concat (map (\<lambda>(name, addrs).
            if shouldSkipPrivateIPv4Interface U name then []
            else (case addrs of None \<Rightarrow> [] | Some as \<Rightarrow> map normalizeIPv4 as)) (sort_key fst is))))"

definition detectPreferredPrivateIPv4 :: "unicode \<Rightarrow> net_env \<Rightarrow> string" where
  "detectPreferredPrivateIPv4 U E =
     first_nonempty [detectOutboundPrivateIPv4 E ''1.1.1.1:53'', detectOutboundPrivateIPv4 E ''8.8.8.8:53'',
       detectInterfacePrivateIPv4 U E]"

text \<open>The two caches; \<open>t\<close> is the clock before, \<open>t'\<close> after the network was asked.\<close>

record ipv4_detector =
  pd_value :: string
  pd_expiresAt :: time
  pd_ttl :: duration

definition detector_get ::
    "unicode \<Rightarrow> net_env \<Rightarrow> time \<Rightarrow> time \<Rightarrow> ipv4_detector \<Rightarrow> string \<times> ipv4_detector" where
  "detector_get U E t t' d =
     (if \<not> time_is_zero (pd_expiresAt d) \<and> t < pd_expiresAt d then (pd_value d, d)
      else (let v = detectPreferredPrivateIPv4 U E in
            (v, d\<lparr>pd_value := v, pd_expiresAt := t' + pd_ttl d\<rparr>)))"

record ipv4_resolver =
  rs_ttl :: duration
  rs_entries :: "(string \<times> string \<times> time) list"

definition resolver_get ::
    "unicode \<Rightarrow> net_env \<Rightarrow> time \<Rightarrow> time \<Rightarrow> string \<Rightarrow> ipv4_resolver \<Rightarrow> string \<times> ipv4_resolver" where
  "resolver_get U E t t' hostname r =
     (let key = normalizeUpstreamHostname U hostname in
      if key = [] then ([], r)
      else (case (case al_get (rs_entries r) key of
                    Some (v, expiresAt) \<Rightarrow> if t < expiresAt then Some v else None
                  | None \<Rightarrow> None) of
              Some v \<Rightarrow> (v, r)
            | None \<Rightarrow>
                (let v = lookupHostnamePrivateIPv4 E key in
                 (v, r\<lparr>rs_entries := al_put key (v, t' + rs_ttl r) (rs_entries r)\<rparr>))))"

record hint_state =
  hs_detector :: ipv4_detector
  hs_resolver :: ipv4_resolver

definition new_hint_state :: hint_state where
  "new_hint_state =
     \<lparr>hs_detector = \<lparr>pd_value = [], pd_expiresAt = zero_time, pd_ttl = upstreamPrivateIPv4CacheTTL\<rparr>,
      hs_resolver = \<lparr>rs_ttl = upstreamPrivateIPv4CacheTTL, rs_entries = []\<rparr>\<rparr>"

definition resolveUpstreamPrivateIPv4Hint ::
    "unicode \<Rightarrow> net_env \<Rightarrow> time \<Rightarrow> time \<Rightarrow> url \<Rightarrow> hint_state \<Rightarrow> string \<times> hint_state" where
  "resolveUpstreamPrivateIPv4Hint U E t t' target s =
     (let hostname = normalizeUpstreamHostname U (url_hostname target) in
      if hostname = [] then ([], s)
      else if isUsablePrivateIPv4 hostname then (hostname, s)
      else if isLoopbackOrLocalHostname U hostname then
        (case detector_get U E t t' (hs_detector s) of (v, d) \<Rightarrow> (v, s\<lparr>hs_detector := d\<rparr>))
      else
        (case resolver_get U E t t' hostname (hs_resolver s) of (v, r) \<Rightarrow> (v, s\<lparr>hs_resolver := r\<rparr>)))"

definition applyUpstreamPrivateIPv4HintHeader ::
    "unicode \<Rightarrow> net_env \<Rightarrow> time \<Rightarrow> time \<Rightarrow> header \<Rightarrow> url \<Rightarrow> hint_state \<Rightarrow> header \<times> hint_state" where
  "applyUpstreamPrivateIPv4HintHeader U E t t' out target s =
     (case resolveUpstreamPrivateIPv4Hint U E t t' target s of (hint, s') \<Rightarrow>
        (if hint \<noteq> [] then header_set ''X-Reauth-Upstream-Private-IPv4'' hint out
         else header_del ''X-Reauth-Upstream-Private-IPv4'' out, s'))"

definition hint_ok :: "string \<Rightarrow> bool" where
  "hint_ok v = (v = [] \<or> isUsablePrivateIPv4 v)"

definition entries_ok :: "(string \<times> string \<times> time) list \<Rightarrow> bool" where
  "entries_ok m = (\<forall>k p. al_get m k = Some p \<longrightarrow> hint_ok (fst p))"

lemma entries_ok_get: "entries_ok m \<Longrightarrow> al_get m k = Some (v, e) \<Longrightarrow> hint_ok v"
  unfolding entries_ok_def by fastforce

lemma entries_ok_put: "entries_ok m \<Longrightarrow> hint_ok v \<Longrightarrow> entries_ok (al_put k (v, e) m)"
  unfolding entries_ok_def al_get_put by (metis fst_conv option.inject)

definition hint_state_ok :: "hint_state \<Rightarrow> bool" where
  "hint_state_ok s =
     (hint_ok (pd_value (hs_detector s)) \<and>
      entries_ok (rs_entries (hs_resolver s)))"

lemma first_usable_ok: "hint_ok (first_usable ips)"
proof (cases "filter (\<lambda>ip. ip \<noteq> [] \<and> isUsablePrivateIPv4 ip) ips")
  case (Cons ip rest)
  then have "ip \<in> set (filter (\<lambda>ip. ip \<noteq> [] \<and> isUsablePrivateIPv4 ip) ips)" by simp
  then have "isUsablePrivateIPv4 ip" by (simp only: set_filter mem_Collect_eq)
  with Cons show ?thesis by (simp add: first_usable_def hint_ok_def)
qed (simp add: first_usable_def hint_ok_def)

lemma detect_ok: "hint_ok (detectPreferredPrivateIPv4 U E)"
proof -
  have o: "hint_ok (detectOutboundPrivateIPv4 E a)" for a
    by (auto simp: detectOutboundPrivateIPv4_def hint_ok_def split: option.split)
  have i: "hint_ok (detectInterfacePrivateIPv4 U E)"
    by (auto simp: detectInterfacePrivateIPv4_def first_usable_ok hint_ok_def [of "[]"] split: option.split)
  show ?thesis
    using o [of "''1.1.1.1:53''"] o [of "''8.8.8.8:53''"] i
    by (auto simp: detectPreferredPrivateIPv4_def first_nonempty_def)
qed

lemma resolve_hint_ok:
  assumes "hint_state_ok s" and "resolveUpstreamPrivateIPv4Hint U E t t' target s = (v, s')"
  shows "hint_ok v \<and> hint_state_ok s'"
proof -
  have l: "hint_ok (lookupHostnamePrivateIPv4 E k)" for k
    by (simp add: lookupHostnamePrivateIPv4_def first_usable_ok hint_ok_def [of "[]"] split: option.split)
  have d: "hint_ok w \<and> hint_ok (pd_value d')" if "detector_get U E t t' (hs_detector s) = (w, d')" for w d'
    using that assms(1) detect_ok [of U E]
    by (auto simp: detector_get_def hint_state_ok_def Let_def split: if_splits)
  have r: "hint_ok w \<and> entries_ok (rs_entries r')"
    if "resolver_get U E t t' h (hs_resolver s) = (w, r')" for h w r'
  proof -
    let ?key = "normalizeUpstreamHostname U h"
    have s: "entries_ok (rs_entries (hs_resolver s))"
      using assms(1) by (simp add: hint_state_ok_def)
    show ?thesis
    proof (cases "al_get (rs_entries (hs_resolver s)) ?key")
      case None
      with that s l [of ?key] show ?thesis
        by (auto simp: resolver_get_def Let_def hint_ok_def [of "[]"] entries_ok_put split: if_splits)
    next
      case (Some p)
      then show ?thesis
        using that s l [of ?key]
        by (cases p) (auto simp: resolver_get_def Let_def hint_ok_def [of "[]"] entries_ok_put
            dest: entries_ok_get split: if_splits)
    qed
  qed
  show ?thesis
    using assms d r
    by (auto simp: resolveUpstreamPrivateIPv4Hint_def Let_def hint_state_ok_def hint_ok_def [of "[]"]
        hint_ok_def [of "normalizeUpstreamHostname U (url_hostname target)"]
        split: if_splits prod.splits)
qed

definition hint_steps ::
    "unicode \<Rightarrow> (net_env \<times> time \<times> time \<times> header \<times> url) list \<Rightarrow> hint_state \<Rightarrow> hint_state" where
  "hint_steps U steps s =
     foldl (\<lambda>s (E, t, t', out, target). snd (applyUpstreamPrivateIPv4HintHeader U E t t' out target s)) s steps"

lemma hint_steps_ok: "hint_state_ok s \<Longrightarrow> hint_state_ok (hint_steps U steps s)"
proof (induction steps arbitrary: s)
  case (Cons a steps)
  obtain E t t' out target where a: "a = (E, t, t', out, target)" by (cases a)
  obtain v s' where r: "resolveUpstreamPrivateIPv4Hint U E t t' target s = (v, s')" by fastforce
  have "hint_state_ok s'" using resolve_hint_ok [OF Cons.prems r] by simp
  with Cons.IH [of s'] show ?case
    by (simp add: hint_steps_def a applyUpstreamPrivateIPv4HintHeader_def r)
qed (simp add: hint_steps_def)

text \<open>The announced address.
  In any sequence of requests the header with the private address of the upstream is absent or
  names a private IPv4 address, whatever the network answers and whatever the client sent.\<close>

theorem hint_header_private:
  "hint_ok (header_get (fst (applyUpstreamPrivateIPv4HintHeader U E t t' out target (hint_steps U steps new_hint_state)))
     ''X-Reauth-Upstream-Private-IPv4'')"
proof -
  let ?s = "hint_steps U steps new_hint_state"
  have "hint_state_ok new_hint_state"
    by (simp add: new_hint_state_def hint_state_ok_def hint_ok_def entries_ok_def alist_simps)
  then have ok: "hint_state_ok ?s" by (rule hint_steps_ok)
  obtain v s' where r: "resolveUpstreamPrivateIPv4Hint U E t t' target ?s = (v, s')" by fastforce
  have "hint_ok v" using resolve_hint_ok [OF ok r] by simp
  then show ?thesis
    by (simp add: applyUpstreamPrivateIPv4HintHeader_def r header_get_set header_get_del hint_ok_def [of "[]"])
qed

end
