(* ===== verification/Upstream.thy ===== *)
theory Upstream
  imports TargetPolicy
begin

text \<open>
  The request that is sent to an upstream: the three \<^verbatim>\<open>Rewrite\<close> functions of
  \<^verbatim>\<open>proxyToRuleTarget\<close>, \<^verbatim>\<open>proxyToHostTarget\<close> and
  \<^verbatim>\<open>proxyToHostLocationTarget\<close> (\<^verbatim>\<open>proxy/handler.go\<close>) on top of
  \<^verbatim>\<open>httputil.ProxyRequest.SetURL\<close>, and the websocket dialogue that bypasses them
  (\<^verbatim>\<open>fnos_port_icon_hijack.go\<close>). The outgoing header, from which the proxy of the standard
  library has already removed the hop-by-hop and forwarding headers, is an argument.
\<close>

section \<open>Joining the target and the request\<close>

definition joinURLPath :: "url \<Rightarrow> url \<Rightarrow> string \<times> string" where
  "joinURLPath a b =
     (if u_RawPath a = [] \<and> u_RawPath b = [] then (singleJoiningSlash (u_Path a) (u_Path b), [])
      else
        (let apath = escaped_path a; bpath = escaped_path b in
         if hasSuffix apath ''/'' \<and> hasPrefix bpath ''/'' then (u_Path a @ tl (u_Path b), apath @ tl bpath)
         else if \<not> hasSuffix apath ''/'' \<and> \<not> hasPrefix bpath ''/'' then
           (u_Path a @ ''/'' @ u_Path b, apath @ ''/'' @ bpath)
         else (u_Path a @ u_Path b, apath @ bpath)))"

definition rewriteRequestURL :: "url \<Rightarrow> url \<Rightarrow> url" where
  "rewriteRequestURL target u =
     (case joinURLPath target u of (p, rawp) \<Rightarrow>
        u\<lparr>u_Scheme := u_Scheme target, u_Host := u_Host target, u_Path := p, u_RawPath := rawp,
          u_RawQuery := (if u_RawQuery target = [] \<or> u_RawQuery u = [] then u_RawQuery target @ u_RawQuery u
                         else u_RawQuery target @ ''&'' @ u_RawQuery u)\<rparr>)"

definition strip_prefix :: "string \<Rightarrow> string \<Rightarrow> string" where
  "strip_prefix pre p = (let q = trimPrefix p pre in if hasPrefix q ''/'' then q else ''/'' @ q)"

definition strip_url :: "string \<Rightarrow> url \<Rightarrow> url" where
  "strip_url pre u = u\<lparr>u_Path := strip_prefix pre (u_Path u), u_RawPath := []\<rparr>"

section \<open>Origin and referrer\<close>

definition set_origin :: "url \<Rightarrow> header \<Rightarrow> header \<Rightarrow> header" where
  "set_origin target inh out =
     (if header_get inh ''Origin'' \<noteq> [] then header_set ''Origin'' (u_Scheme target @ ''://'' @ u_Host target) out
      else out)"

definition set_referer :: "(url \<Rightarrow> url) \<Rightarrow> url \<Rightarrow> header \<Rightarrow> header \<Rightarrow> header" where
  "set_referer adapt target inh out =
     (if header_get inh ''Referer'' = [] then out
      else (case url_parse (header_get inh ''Referer'') of
              None \<Rightarrow> out
            | Some ref \<Rightarrow>
                header_set ''Referer'' (url_string (adapt (ref\<lparr>u_Scheme := u_Scheme target, u_Host := u_Host target\<rparr>))) out))"

definition referer_path :: "string option \<Rightarrow> url \<Rightarrow> url" where
  "referer_path strip ref =
     (let p = path_clean (u_Path ref) in
      ref\<lparr>u_Path := (case strip of Some pre \<Rightarrow> strip_prefix pre p | None \<Rightarrow> p), u_RawPath := []\<rparr>)"

section \<open>The outgoing request\<close>

record upstream_request =
  ur_URL :: url
  ur_Host :: string
  ur_Header :: header

definition cleanFnosPortIconHijackPath :: "string \<Rightarrow> string" where
  "cleanFnosPortIconHijackPath raw = (let p = path_clean raw in if p = ''.'' then ''/'' else p)"

definition shouldHijackFnosPortIconHijackServiceList :: "bool \<Rightarrow> url \<Rightarrow> bool" where
  "shouldHijackFnosPortIconHijackServiceList enabled u =
     (cleanFnosPortIconHijackPath (u_Path u) = ''/app-center/v1/service/list'' \<and> enabled)"

definition plain_encoding :: "bool \<Rightarrow> header \<Rightarrow> header" where
  "plain_encoding b h = (if b then header_del ''Accept-Encoding'' h else h)"

text \<open>What the three functions do first: forwarding headers, user agent, URL.\<close>

definition base_header :: "golib \<Rightarrow> request \<Rightarrow> string \<Rightarrow> bool \<Rightarrow> header \<Rightarrow> header" where
  "base_header G r clientIP omit out =
     copyUserAgentHeader (applyForwardedHeaderPolicy G out r clientIP omit) (rq_Header r)"

record proxy_env =
  px_net :: net_env
  px_before :: time
  px_after :: time
  px_fnos :: bool

definition hinted :: "unicode \<Rightarrow> proxy_env \<Rightarrow> header \<Rightarrow> url \<Rightarrow> hint_state \<Rightarrow> header \<times> hint_state" where
  "hinted U E out target s =
     applyUpstreamPrivateIPv4HintHeader U (px_net E) (px_before E) (px_after E) out target s"

definition rewrite_to_rule ::
    "golib \<Rightarrow> unicode \<Rightarrow> proxy_env \<Rightarrow> request \<Rightarrow> header \<Rightarrow> string \<Rightarrow> path_rule \<Rightarrow> url \<Rightarrow> bool \<Rightarrow> bool \<Rightarrow> bool \<Rightarrow>
     hint_state \<Rightarrow> upstream_request \<times> hint_state" where
  "rewrite_to_rule G U E r out clientIP rule target preserveHost html toolbar s =
     (case hinted U E (base_header G r clientIP False out) target s of
        (h, s') \<Rightarrow>
          let u0 = rewriteRequestURL target (rq_URL r);
              u = (if pr_StripPath rule then strip_url (pr_Path rule) u0 else u0);
              h = (if \<not> preserveHost
                   then set_referer (referer_path (if pr_StripPath rule then Some (pr_Path rule) else None)) target
                          (rq_Header r) (set_origin target (rq_Header r) h)
                   else h);
              h = plain_encoding ((html \<and> pr_RewriteHTML rule) \<or> toolbar) h
          in (\<lparr>ur_URL = u, ur_Host = applyPreserveHostPolicy r target preserveHost,
               ur_Header = plain_encoding (shouldHijackFnosPortIconHijackServiceList (px_fnos E) u) h\<rparr>, s'))"

definition rewrite_to_host ::
    "golib \<Rightarrow> unicode \<Rightarrow> proxy_env \<Rightarrow> request \<Rightarrow> header \<Rightarrow> string \<Rightarrow> bool \<Rightarrow> host_rule \<Rightarrow> url \<Rightarrow> bool \<Rightarrow> bool \<Rightarrow>
     hint_state \<Rightarrow> upstream_request \<times> hint_state" where
  "rewrite_to_host G U E r out clientIP omit rule target preserveHost toolbar s =
     (case hinted U E (applyBasicAuthInjection (base_header G r clientIP omit out) (hr_BasicAuth rule)) target s of
        (h, s') \<Rightarrow>
          let u = rewriteRequestURL target (rq_URL r);
              h = plain_encoding (shouldHijackFnosPortIconHijackServiceList (px_fnos E) u) h;
              h = (if \<not> preserveHost
                   then set_referer (\<lambda>ref. ref) target (rq_Header r) (set_origin target (rq_Header r) h) else h)
          in (\<lparr>ur_URL = u, ur_Host = applyPreserveHostPolicy r target preserveHost,
               ur_Header = plain_encoding toolbar h\<rparr>, s'))"

definition rewrite_to_location ::
    "golib \<Rightarrow> unicode \<Rightarrow> proxy_env \<Rightarrow> request \<Rightarrow> header \<Rightarrow> string \<Rightarrow> bool \<Rightarrow> host_rule \<Rightarrow> host_location \<Rightarrow> url \<Rightarrow>
     bool \<Rightarrow> bool \<Rightarrow> bool \<Rightarrow> hint_state \<Rightarrow> upstream_request \<times> hint_state" where
  "rewrite_to_location G U E r out clientIP omit rule l target preserveHost html toolbar s =
     (case hinted U E (applyBasicAuthInjection (base_header G r clientIP omit out) (hr_BasicAuth rule)) target s of
        (h, s') \<Rightarrow>
          let u0 = rewriteRequestURL target (rq_URL r);
              h = plain_encoding (shouldHijackFnosPortIconHijackServiceList (px_fnos E) u0) h;
              u = (if hl_StripPath l then strip_url (hl_Path l) u0 else u0);
              h = (if \<not> preserveHost
                   then set_referer (referer_path (if hl_StripPath l then Some (hl_Path l) else None)) target
                          (rq_Header r) (set_origin target (rq_Header r) h)
                   else h)
          in (\<lparr>ur_URL = u, ur_Host = applyPreserveHostPolicy r target preserveHost,
               ur_Header = plain_encoding ((html \<and> hl_RewriteHTML l) \<or> toolbar) h\<rparr>, s'))"

section \<open>The websocket dialogue\<close>

definition buildFnosPortIconHijackWebSocketURL :: "unicode \<Rightarrow> url \<Rightarrow> url \<Rightarrow> bool \<Rightarrow> string \<Rightarrow> url" where
  "buildFnosPortIconHijackWebSocketURL U target incoming stripPath pathPrefix =
     target\<lparr>u_Scheme := (if to_lower U (u_Scheme target) \<in> {''https'', ''wss''} then ''wss'' else ''ws''),
       u_RawQuery := u_RawQuery incoming,
       u_Path := singleJoiningSlash (u_Path target)
         (if stripPath then strip_prefix pathPrefix (u_Path incoming) else u_Path incoming),
       u_RawPath := [], u_Fragment := []\<rparr>"

definition websocket_headers :: "string list" where
  "websocket_headers = [''Connection'', ''Upgrade'', ''Sec-WebSocket-Accept'', ''Sec-WebSocket-Extensions'',
     ''Sec-WebSocket-Key'', ''Sec-WebSocket-Protocol'', ''Sec-WebSocket-Version'']"

definition buildFnosPortIconHijackWebSocketHeader ::
    "golib \<Rightarrow> unicode \<Rightarrow> proxy_env \<Rightarrow> request \<Rightarrow> string \<Rightarrow> bool \<Rightarrow> bool \<Rightarrow> basic_auth \<Rightarrow> bool \<Rightarrow> string option \<Rightarrow>
     url \<Rightarrow> url \<Rightarrow> hint_state \<Rightarrow> header \<times> hint_state" where
  "buildFnosPortIconHijackWebSocketHeader G U E r clientIP omit preserveHost basicAuth rewriteReferer strip
       target upstream s =
     (let h0 = foldl (\<lambda>h name. header_del name h) (rq_Header r) websocket_headers in
      case hinted U E (base_header G r clientIP omit h0) target s of
        (h, s') \<Rightarrow>
          let host = applyPreserveHostPolicy r target preserveHost;
              h = applyBasicAuthInjection h basicAuth;
              h = (if rewriteReferer
                   then set_referer (referer_path strip) target (rq_Header r) (set_origin target (rq_Header r) h)
                   else h)
          in (if host \<noteq> [] \<and> host \<noteq> u_Host upstream then header_set ''Host'' host h else h, s'))"

section \<open>Stripping\<close>

lemma trimPrefix_append [simp]: "trimPrefix (p @ q) p = q"
  by (simp add: trimPrefix_def hasPrefix_def)

lemma strip_prefix_boundary: "strip_prefix pre (pre @ CHR ''/'' # rest) = CHR ''/'' # rest"
  by (simp add: strip_prefix_def hasPrefix_def)

lemma strip_prefix_other: "\<not> hasPrefix p pre \<Longrightarrow> hasPrefix p ''/'' \<Longrightarrow> strip_prefix pre p = p"
  by (auto simp: strip_prefix_def trimPrefix_def hasPrefix_def)

lemma rewrite_rule_path:
  "u_Path (ur_URL (fst (rewrite_to_rule G U E r out clientIP rule target preserveHost html toolbar s))) =
     (if pr_StripPath rule then strip_prefix (pr_Path rule) (fst (joinURLPath target (rq_URL r)))
      else fst (joinURLPath target (rq_URL r)))"
  by (simp add: rewrite_to_rule_def rewriteRequestURL_def strip_url_def Let_def split: prod.split)

text \<open>Stripping the path of a rule.
  For a target without a path of its own the rule's path is removed from the request's, in HTTP as
  in the websocket dialogue. Otherwise the websocket URL is the target's path with the stripped
  path, as it should be, but the HTTP request keeps the rule's path whenever the target's path does
  not happen to start with it.\<close>

theorem strip_path_of_rule:
  assumes "pr_StripPath rule" and "u_RawPath target = []" and "u_RawPath (rq_URL r) = []"
    and "u_Path (rq_URL r) = pr_Path rule @ ''/'' @ rest" and "hasPrefix (pr_Path rule) ''/''"
  shows "u_Path (buildFnosPortIconHijackWebSocketURL U target (rq_URL r) True (pr_Path rule)) =
      singleJoiningSlash (u_Path target) (''/'' @ rest) \<and>
    (u_Path target \<in> {[], ''/''} \<longrightarrow>
      u_Path (ur_URL (fst (rewrite_to_rule G U E r out clientIP rule target preserveHost html toolbar s))) = ''/'' @ rest) \<and>
    (hasPrefix (u_Path target) ''/'' \<and>
     \<not> hasPrefix (singleJoiningSlash (u_Path target) (u_Path (rq_URL r))) (pr_Path rule) \<longrightarrow>
      u_Path (ur_URL (fst (rewrite_to_rule G U E r out clientIP rule target preserveHost html toolbar s))) =
        singleJoiningSlash (u_Path target) (u_Path (rq_URL r)))"
proof -
  have j: "fst (joinURLPath target (rq_URL r)) = singleJoiningSlash (u_Path target) (u_Path (rq_URL r))"
    using assms(2,3) by (simp add: joinURLPath_def)
  obtain q where q: "pr_Path rule = CHR ''/'' # q"
    using assms(5) by (auto simp: hasPrefix_def prefix_def)
  have root: "singleJoiningSlash (u_Path target) (u_Path (rq_URL r)) = u_Path (rq_URL r)"
    if "u_Path target \<in> {[], ''/''}"
    using that assms(4) q by (auto simp: singleJoiningSlash_def hasSuffix_def hasPrefix_def)
  have sl: "hasPrefix (singleJoiningSlash (u_Path target) p) ''/''" if "hasPrefix (u_Path target) ''/''" for p
    using that by (auto simp: singleJoiningSlash_def hasPrefix_def prefix_def Let_def)
  show ?thesis
    using assms(1,4) root
    by (auto simp: rewrite_rule_path j strip_prefix_boundary strip_prefix_other sl
        buildFnosPortIconHijackWebSocketURL_def)
qed

abbreviation offline :: proxy_env where
  "offline \<equiv> \<lparr>px_net = \<lparr>ne_lookup = (\<lambda>h. None), ne_outbound = (\<lambda>h. None), ne_interfaces = None\<rparr>,
     px_before = zero_time, px_after = zero_time, px_fnos = False\<rparr>"

theorem strip_path_of_rule_witness:
  "u_Path (ur_URL (fst (rewrite_to_rule plain_golib plain_unicode offline
        (plain_request\<lparr>rq_URL := zero_url\<lparr>u_Path := ''/app/x''\<rparr>\<rparr>) [] ''8.8.8.8''
        \<lparr>pr_Path = ''/app'', pr_Target = [], pr_UseAuth = False, pr_StripPath = True, pr_RewriteHTML = False,
         pr_UseRootMode = False\<rparr> (zero_url\<lparr>u_Path := ''/base''\<rparr>) True False False new_hint_state)))
     = ''/base/app/x''"
  using strip_path_of_rule [of "\<lparr>pr_Path = ''/app'', pr_Target = [], pr_UseAuth = False, pr_StripPath = True,
        pr_RewriteHTML = False, pr_UseRootMode = False\<rparr>" "zero_url\<lparr>u_Path := ''/base''\<rparr>"
      "plain_request\<lparr>rq_URL := zero_url\<lparr>u_Path := ''/app/x''\<rparr>\<rparr>" "''x''" plain_unicode plain_golib offline
      "[]" "''8.8.8.8''" True False False new_hint_state]
  by (simp add: zero_url_def singleJoiningSlash_def hasSuffix_def hasPrefix_def suffix_def)

end
