(* ===== verification/FnosIcons.thy ===== *)
theory FnosIcons
  imports Complex_Main Upstream
begin

text \<open>
  The rewriting of the desktop's service list (\<^verbatim>\<open>fnos_port_icon_hijack.go\<close>): entries that name
  only a port of this machine are given the public host of the rule whose target has that port.
  JSON texts are read and written by \<^verbatim>\<open>encoding/json\<close>, a parameter; numbers are the floating-point
  numbers it delivers.
\<close>

section \<open>The port of a target\<close>

text \<open>The three answers of the port parsers: no port, a bad one, a port.\<close>

datatype authority_port = Port_Absent | Port_Invalid | Port_Found int

fun host_rule_digits :: "int \<Rightarrow> string \<Rightarrow> int option" where
  "host_rule_digits v [] = Some v"
| "host_rule_digits v (c # cs) =
     (if \<not> is_digit c then None
      else (let v' = v * 10 + int (digit_val c) in if v' > 65535 then None else host_rule_digits v' cs))"

definition parseHostRulePort :: "string \<Rightarrow> authority_port" where
  "parseHostRulePort port =
     (if port = [] then Port_Absent
      else (case host_rule_digits 0 port of
              None \<Rightarrow> Port_Invalid
            | Some v \<Rightarrow> if v = 0 then Port_Invalid else Port_Found v))"

definition hostRuleAuthorityPort :: "string \<Rightarrow> authority_port" where
  "hostRuleAuthorityPort authority =
     (if authority = [] then Port_Absent
      else if hd authority = CHR ''['' then
        (case index_byte authority CHR '']'' of
           None \<Rightarrow> Port_Invalid
         | Some i \<Rightarrow>
             if length authority = Suc i then Port_Absent
             else if authority ! Suc i \<noteq> CHR '':'' then Port_Invalid
             else parseHostRulePort (drop (i + 2) authority))
      else (case last_index_byte authority CHR '':'' of
              None \<Rightarrow> Port_Absent
            | Some i \<Rightarrow> parseHostRulePort (drop (Suc i) authority)))"

definition hostRuleTargetPort :: "string \<Rightarrow> int option" where
  "hostRuleTargetPort rawTarget =
     (case cut_str (trim_space rawTarget) ''://'' of (scheme, rest, found) \<Rightarrow>
        if \<not> found \<or> scheme = [] then None
        else
          (let a0 = takeWhile (\<lambda>c. c \<notin> set ''/?#'') rest;
               a = (case last_index_byte a0 CHR ''@'' of Some i \<Rightarrow> drop (Suc i) a0 | None \<Rightarrow> a0)
           in if a = [] then None
              else (case hostRuleAuthorityPort a of
                      Port_Found p \<Rightarrow> Some p
                    | Port_Invalid \<Rightarrow> None
                    | Port_Absent \<Rightarrow>
                        if equalFoldASCIIString scheme ''http'' \<or> equalFoldASCIIString scheme ''ws'' then Some 80
                        else if equalFoldASCIIString scheme ''https'' \<or> equalFoldASCIIString scheme ''wss'' then Some 443
                        else None)))"

type_synonym icon_targets = "(int \<times> string) list"

definition add_icon_target :: "unicode \<Rightarrow> icon_targets \<Rightarrow> host_rule \<Rightarrow> icon_targets" where
  "add_icon_target U m h =
     (let host = normalizeRequestHost U (hr_Host h) in
      if host = [] then m
      else (case hostRuleTargetPort (hr_Target h) of
              None \<Rightarrow> m
            | Some p \<Rightarrow> if al_get m p \<noteq> None then m else al_put p host m))"

definition buildFnosPortIconHijackTargets :: "unicode \<Rightarrow> host_rule list \<Rightarrow> icon_targets" where
  "buildFnosPortIconHijackTargets U rules = foldl (add_icon_target U) [] rules"

section \<open>The public endpoint\<close>

record icon_endpoint =
  ie_protocol :: string
  ie_port :: int

definition fnosPortIconHijackPublicEndpoint :: "bool \<Rightarrow> gateway \<Rightarrow> icon_endpoint" where
  "fnosPortIconHijackPublicEndpoint sslEnabled g =
     \<lparr>ie_protocol = (if sslEnabled then ''https'' else ''http''),
      ie_port = (if ac_EdgeClientIPEnabled (gw_AuthConfig g) then (if sslEnabled then 443 else 80)
                 else if gw_ProxyPort g \<le> 0 then 7999 else gw_ProxyPort g)\<rparr>"

definition normalizeFnosPortIconHijackPublicEndpoint :: "unicode \<Rightarrow> icon_endpoint \<Rightarrow> icon_endpoint" where
  "normalizeFnosPortIconHijackPublicEndpoint U e =
     e\<lparr>ie_protocol := (if to_lower U (trim_space (ie_protocol e)) = ''https'' then ''https'' else ''http'')\<rparr>"

section \<open>Messages\<close>

datatype json =
    J_Null
  | J_Bool bool
  | J_Float real
  | J_Number string
  | J_Str string
  | J_Arr "json list"
  | J_Obj "(string \<times> json) list"

record json_lib =
  jl_unmarshal :: "string \<Rightarrow> json option"
  jl_marshal :: "json \<Rightarrow> string"

text \<open>The conversion of a floating-point number to \<^verbatim>\<open>int\<close>; outside the range it is the least one.\<close>

definition float_to_int :: "real \<Rightarrow> int" where
  "float_to_int x =
     (let n = (if 0 \<le> x then \<lfloor>x\<rfloor> else \<lceil>x\<rceil>) in if min_int64 \<le> n \<and> n \<le> max_int64 then n else min_int64)"

definition port_range :: "int option \<Rightarrow> int option" where
  "port_range p = (case p of Some n \<Rightarrow> if n \<le> 0 \<or> n > 65535 then None else Some n | None \<Rightarrow> None)"

definition jsonPortNumber :: "json option \<Rightarrow> int option" where
  "jsonPortNumber v =
     (case v of
        Some (J_Str s) \<Rightarrow> port_range (atoi (trim_space s))
      | Some (J_Float x) \<Rightarrow>
          (let port = float_to_int x in if x \<noteq> real_of_int port then None else port_range (Some port))
      | Some (J_Number s) \<Rightarrow> port_range (atoi s)
      | _ \<Rightarrow> None)"

definition rewriteFnosPortIconHijackObject ::
    "icon_targets \<Rightarrow> icon_endpoint \<Rightarrow> (string \<times> json) list \<Rightarrow> bool \<times> (string \<times> json) list" where
  "rewriteFnosPortIconHijackObject m e kvs =
     (case al_get kvs ''host'' of
        Some (J_Str host) \<Rightarrow>
          if trim_space host \<noteq> [] then (False, kvs)
          else (case jsonPortNumber (al_get kvs ''port'') of
                  None \<Rightarrow> (False, kvs)
                | Some port \<Rightarrow>
                    (case al_get m port of
                       None \<Rightarrow> (False, kvs)
                     | Some nextHost \<Rightarrow>
                         if nextHost = [] then (False, kvs)
                         else (True, al_put ''path'' (J_Str []) (al_put ''protocol'' (J_Str (ie_protocol e))
                                (al_put ''port'' (J_Str (itoa (ie_port e))) (al_put ''host'' (J_Str nextHost) kvs))))))
      | _ \<Rightarrow> (False, kvs))"

fun json_depth :: "json \<Rightarrow> nat" where
  "json_depth (J_Arr xs) = Suc (foldr max (map json_depth xs) 0)"
| "json_depth (J_Obj kvs) = Suc (foldr max (map (\<lambda>(k, v). json_depth v) kvs) 0)"
| "json_depth _ = 0"

lemma foldr_max_ge: "x \<in> set xs \<Longrightarrow> x \<le> foldr max xs (0 :: nat)"
  by (induction xs) auto

lemma depth_arr: "x \<in> set xs \<Longrightarrow> json_depth x < json_depth (J_Arr xs)"
  using foldr_max_ge [of "json_depth x" "map json_depth xs"] by (simp add: less_Suc_eq_le)

lemma depth_obj: "(k, v) \<in> set kvs \<Longrightarrow> json_depth v < json_depth (J_Obj kvs)"
  using foldr_max_ge [of "json_depth v" "map (\<lambda>(k, v). json_depth v) kvs"]
  by (force simp: less_Suc_eq_le)

lemma set_al_put: "(k, v) \<in> set (al_put k' v' m) \<Longrightarrow> (k, v) \<in> set m \<or> v = v'"
  unfolding al_put_def by (induction m) (auto split: if_splits)

lemma object_values:
  assumes "(k, v) \<in> set (snd (rewriteFnosPortIconHijackObject m e kvs))"
  shows "(k, v) \<in> set kvs \<or> (\<exists>s. v = J_Str s)"
  using assms
  by (auto simp: rewriteFnosPortIconHijackObject_def dest!: set_al_put split: option.splits json.splits if_splits)

function rewriteFnosPortIconHijackValue :: "icon_targets \<Rightarrow> icon_endpoint \<Rightarrow> json \<Rightarrow> bool \<times> json" where
  "rewriteFnosPortIconHijackValue m e (J_Obj kvs) =
     (case rewriteFnosPortIconHijackObject m e kvs of
        (changed, kvs') \<Rightarrow>
          let rs = map (\<lambda>(k, v). (k, rewriteFnosPortIconHijackValue m e v)) kvs'
          in (changed \<or> list_ex (\<lambda>(k, r). fst r) rs, J_Obj (map (\<lambda>(k, r). (k, snd r)) rs)))"
| "rewriteFnosPortIconHijackValue m e (J_Arr xs) =
     (let rs = map (rewriteFnosPortIconHijackValue m e) xs in (list_ex fst rs, J_Arr (map snd rs)))"
| "rewriteFnosPortIconHijackValue m e J_Null = (False, J_Null)"
| "rewriteFnosPortIconHijackValue m e (J_Bool b) = (False, J_Bool b)"
| "rewriteFnosPortIconHijackValue m e (J_Float x) = (False, J_Float x)"
| "rewriteFnosPortIconHijackValue m e (J_Number s) = (False, J_Number s)"
| "rewriteFnosPortIconHijackValue m e (J_Str s) = (False, J_Str s)"
  by pat_completeness auto
termination
proof (relation "measure (\<lambda>(m, e, v). json_depth v)", goal_cases)
  case (2 m e kvs changed kvs' kv k v)
  then have "(k, v) \<in> set (snd (rewriteFnosPortIconHijackObject m e kvs))" by (metis snd_conv)
  from object_values [OF this] show ?case by (auto dest: depth_obj)
qed (auto simp: depth_arr simp del: json_depth.simps)

definition rewriteFnosPortIconHijackMessage ::
    "unicode \<Rightarrow> json_lib \<Rightarrow> string \<Rightarrow> icon_targets \<Rightarrow> icon_endpoint \<Rightarrow> string \<times> bool" where
  "rewriteFnosPortIconHijackMessage U J payload m e0 =
     (let e = normalizeFnosPortIconHijackPublicEndpoint U e0 in
      if m = [] \<or> ie_port e \<le> 0 then (payload, False)
      else (case jl_unmarshal J payload of
              None \<Rightarrow> (payload, False)
            | Some v \<Rightarrow>
                (case rewriteFnosPortIconHijackValue m e v of
                   (changed, v') \<Rightarrow> if changed then (jl_marshal J v', True) else (payload, False))))"

section \<open>Rewriting once is enough\<close>

lemma icon_targets_find:
  "al_get (foldl (add_icon_target U) m rules) p =
     (case al_get m p of
        Some h \<Rightarrow> Some h
      | None \<Rightarrow> map_option (\<lambda>h. normalizeRequestHost U (hr_Host h))
                  (List.find (\<lambda>h. normalizeRequestHost U (hr_Host h) \<noteq> [] \<and> hostRuleTargetPort (hr_Target h) = Some p) rules))"
proof (induction rules arbitrary: m)
  case Nil
  then show ?case by (simp split: option.split)
next
  case (Cons h rules)
  have "al_get (add_icon_target U m h) p =
      (if al_get m p = None \<and> normalizeRequestHost U (hr_Host h) \<noteq> [] \<and> hostRuleTargetPort (hr_Target h) = Some p
       then Some (normalizeRequestHost U (hr_Host h)) else al_get m p)"
    by (auto simp: add_icon_target_def Let_def alist_simps split: option.split)
  with Cons.IH [of "add_icon_target U m h"] show ?case by (auto split: option.splits)
qed

definition icon_hosts_ok :: "icon_targets \<Rightarrow> bool" where
  "icon_hosts_ok m = (\<forall>p h. al_get m p = Some h \<longrightarrow> trim_space h \<noteq> [])"

lemma normalized_host_not_blank:
  assumes "is_ascii host" and "normalizeRequestHost U host \<noteq> []"
  shows "trim_space (normalizeRequestHost U host) \<noteq> []"
  using normalizeRequestHost_idem(1) [OF assms(1), of U] assms(2)
  by (auto simp: normalizeRequestHost_def [of U "normalizeRequestHost U host"] Let_def)

lemma icon_hosts:
  assumes "\<forall>h \<in> set rules. is_ascii (hr_Host h)"
  shows "icon_hosts_ok (buildFnosPortIconHijackTargets U rules)"
  using assms normalized_host_not_blank
  unfolding icon_hosts_ok_def buildFnosPortIconHijackTargets_def icon_targets_find
  by (fastforce simp: alist_simps find_Some_iff)

text \<open>What a second pass looks at is the same after the first.\<close>

lemma value_kind:
  "(snd (rewriteFnosPortIconHijackValue m e v) = J_Str s) = (v = J_Str s)"
  "jsonPortNumber (Some (snd (rewriteFnosPortIconHijackValue m e v))) = jsonPortNumber (Some v)"
  by (cases v; simp add: jsonPortNumber_def Let_def split: prod.split)+

lemma al_get_map: "al_get (map (\<lambda>(k, v). (k, f v)) kvs) k = map_option f (al_get kvs k)"
  by (simp add: al_get_def map_of_map)

lemma object_unchanged: "\<not> fst (rewriteFnosPortIconHijackObject m e kvs) \<Longrightarrow> snd (rewriteFnosPortIconHijackObject m e kvs) = kvs"
  by (auto simp: rewriteFnosPortIconHijackObject_def split: option.split json.split)

lemma object_host_known:
  assumes "fst (rewriteFnosPortIconHijackObject m e kvs)"
  shows "\<exists>host port next. al_get kvs ''host'' = Some (J_Str host) \<and> trim_space host = [] \<and>
    jsonPortNumber (al_get kvs ''port'') = Some port \<and> al_get m port = Some next \<and> next \<noteq> [] \<and>
    al_get (snd (rewriteFnosPortIconHijackObject m e kvs)) ''host'' = Some (J_Str next)"
  using assms
  by (auto simp: rewriteFnosPortIconHijackObject_def alist_simps split: option.splits json.splits if_splits)

lemma object_settled:
  assumes "icon_hosts_ok m"
  shows "\<not> fst (rewriteFnosPortIconHijackObject m e (snd (rewriteFnosPortIconHijackObject m e kvs)))"
proof
  assume again: "fst (rewriteFnosPortIconHijackObject m e (snd (rewriteFnosPortIconHijackObject m e kvs)))"
  show False
  proof (cases "fst (rewriteFnosPortIconHijackObject m e kvs)")
    case True
    from object_host_known [OF this] object_host_known [OF again] assms show False
      by (auto simp: icon_hosts_ok_def)
  next
    case False
    with again show False by (simp add: object_unchanged)
  qed
qed

lemma object_of_rewritten:
  "fst (rewriteFnosPortIconHijackObject m e (map (\<lambda>(k, v). (k, snd (rewriteFnosPortIconHijackValue m e v))) kvs)) =
     fst (rewriteFnosPortIconHijackObject m e kvs)"
proof -
  let ?f = "\<lambda>v. snd (rewriteFnosPortIconHijackValue m e v)"
  have host: "map_option ?f x = Some (J_Str s) \<longleftrightarrow> x = Some (J_Str s)" for x s
    by (cases x) (simp_all add: value_kind)
  have port: "jsonPortNumber (map_option ?f x) = jsonPortNumber x" for x
    by (cases x) (simp_all add: value_kind)
  have c: "fst (rewriteFnosPortIconHijackObject m e kvs) \<longleftrightarrow>
      (\<exists>host port next. al_get kvs ''host'' = Some (J_Str host) \<and> trim_space host = [] \<and>
         jsonPortNumber (al_get kvs ''port'') = Some port \<and> al_get m port = Some next \<and> next \<noteq> [])" for kvs
    by (auto simp: rewriteFnosPortIconHijackObject_def split: option.splits json.splits)
  show ?thesis unfolding c al_get_map host port ..
qed

lemma value_unchanged:
  "\<not> fst (rewriteFnosPortIconHijackValue m e v) \<Longrightarrow> snd (rewriteFnosPortIconHijackValue m e v) = v"
proof (induction m e v rule: rewriteFnosPortIconHijackValue.induct)
  case (1 m e kvs)
  obtain changed kvs' where o: "rewriteFnosPortIconHijackObject m e kvs = (changed, kvs')" by fastforce
  with 1(2) have nc: "\<not> changed" and ch: "\<forall>(k, v) \<in> set kvs'. \<not> fst (rewriteFnosPortIconHijackValue m e v)"
    by (auto simp: Let_def list_ex_iff)
  have same: "kvs' = kvs" using object_unchanged [of m e kvs] o nc by simp
  have "map (\<lambda>(k, v). (k, snd (rewriteFnosPortIconHijackValue m e v))) kvs' = map (\<lambda>x. x) kvs'"
    using 1(1) [OF o [symmetric] _ refl] ch by (intro map_cong refl) auto
  with o nc same show ?case by (simp add: Let_def o_def case_prod_unfold)
next
  case (2 m e xs)
  then have "map (\<lambda>x. snd (rewriteFnosPortIconHijackValue m e x)) xs = map (\<lambda>x. x) xs"
    by (intro map_cong refl) (auto simp: Let_def list_ex_iff)
  then show ?case by (simp add: Let_def o_def)
qed simp_all

lemma changed_object:
  assumes "rewriteFnosPortIconHijackObject m e kvs = (changed, kvs')"
  shows "fst (rewriteFnosPortIconHijackValue m e (J_Obj kvs)) \<longleftrightarrow>
    changed \<or> list_ex (\<lambda>(k, w). fst (rewriteFnosPortIconHijackValue m e w)) kvs'"
proof -
  have "list_ex (\<lambda>(k, r). fst r) (map (\<lambda>(k, v). (k, rewriteFnosPortIconHijackValue m e v)) xs) =
      list_ex (\<lambda>(k, v). fst (rewriteFnosPortIconHijackValue m e v)) xs" for xs :: "(string \<times> json) list"
    by (induction xs) auto
  with assms show ?thesis by (simp add: Let_def)
qed

lemma value_settled:
  assumes "icon_hosts_ok m"
  shows "\<not> fst (rewriteFnosPortIconHijackValue m e (snd (rewriteFnosPortIconHijackValue m e v)))"
  using assms
proof (induction m e v rule: rewriteFnosPortIconHijackValue.induct)
  case (1 m e kvs)
  obtain changed kvs' where o: "rewriteFnosPortIconHijackObject m e kvs = (changed, kvs')" by fastforce
  let ?kvs2 = "map (\<lambda>(k, v). (k, snd (rewriteFnosPortIconHijackValue m e v))) kvs'"
  have v: "snd (rewriteFnosPortIconHijackValue m e (J_Obj kvs)) = J_Obj ?kvs2"
    using o by (simp add: Let_def o_def case_prod_beta)
  have n: "\<not> fst (rewriteFnosPortIconHijackObject m e ?kvs2)"
    using object_settled [OF 1(2), of e kvs] o by (simp only: object_of_rewritten snd_conv not_False_eq_True)
  have k: "snd (rewriteFnosPortIconHijackObject m e ?kvs2) = ?kvs2" using n by (rule object_unchanged)
  have "\<not> fst (rewriteFnosPortIconHijackValue m e w)" if "(k, w) \<in> set ?kvs2" for k w
    using that 1(1) [OF o [symmetric] _ refl 1(2)] by auto
  then have c: "\<not> list_ex (\<lambda>(k, w). fst (rewriteFnosPortIconHijackValue m e w)) ?kvs2"
    unfolding list_ex_iff by blast
  have "rewriteFnosPortIconHijackObject m e ?kvs2 = (False, ?kvs2)" using n k by (simp add: prod_eq_iff del: prod.collapse)
  from changed_object [OF this] c show ?case unfolding v by blast
next
  case (2 m e xs)
  then show ?case by (auto simp: Let_def list_ex_iff o_def)
qed simp_all

text \<open>The service list.
  A port is given the host of the first rule with a host whose target has that port, a message
  in which no entry qualifies stays as it is, and rewriting a message a second time changes
  nothing.\<close>

theorem icons_rewritten_once:
  assumes "\<forall>h \<in> set rules. is_ascii (hr_Host h)" and "m = buildFnosPortIconHijackTargets U rules"
  shows "rewriteFnosPortIconHijackValue m e (snd (rewriteFnosPortIconHijackValue m e v)) =
      (False, snd (rewriteFnosPortIconHijackValue m e v)) \<and>
    (\<not> fst (rewriteFnosPortIconHijackValue m e v) \<longrightarrow> snd (rewriteFnosPortIconHijackValue m e v) = v) \<and>
    al_get m p = map_option (\<lambda>h. normalizeRequestHost U (hr_Host h))
      (List.find (\<lambda>h. normalizeRequestHost U (hr_Host h) \<noteq> [] \<and> hostRuleTargetPort (hr_Target h) = Some p) rules)"
proof -
  have ok: "icon_hosts_ok m" using assms by (simp add: icon_hosts)
  have "rewriteFnosPortIconHijackValue m e (snd (rewriteFnosPortIconHijackValue m e v)) =
      (False, snd (rewriteFnosPortIconHijackValue m e v))"
    using value_settled [OF ok, of e v] value_unchanged [of m e "snd (rewriteFnosPortIconHijackValue m e v)"]
    by (cases "rewriteFnosPortIconHijackValue m e (snd (rewriteFnosPortIconHijackValue m e v))") simp
  then show ?thesis
    using value_unchanged [of m e v] icon_targets_find [of U "[]" rules p]
    by (simp add: assms(2) buildFnosPortIconHijackTargets_def alist_simps)
qed

theorem icons_rewritten_once_witness:
  "let m = buildFnosPortIconHijackTargets plain_unicode [plain_host_rule ''nas.lan'' ''http://10.0.0.1''];
       e = \<lparr>ie_protocol = ''https'', ie_port = 9\<rparr>;
       v = J_Arr [J_Obj [(''host'', J_Str []), (''port'', J_Str ''80'')], J_Null];
       v' = J_Arr [J_Obj [(''host'', J_Str ''nas.lan''), (''port'', J_Str ''9''),
                          (''protocol'', J_Str ''https''), (''path'', J_Str [])], J_Null]
   in rewriteFnosPortIconHijackValue m e v = (True, v') \<and> rewriteFnosPortIconHijackValue m e v' = (False, v')"
proof -
  let ?rules = "[plain_host_rule ''nas.lan'' ''http://10.0.0.1'']"
  let ?m = "buildFnosPortIconHijackTargets plain_unicode ?rules"
  let ?e = "\<lparr>ie_protocol = ''https'', ie_port = 9\<rparr>"
  let ?v = "J_Arr [J_Obj [(''host'', J_Str []), (''port'', J_Str ''80'')], J_Null]"
  let ?w = "J_Arr [J_Obj [(''host'', J_Str ''nas.lan''), (''port'', J_Str ''9''),
                          (''protocol'', J_Str ''https''), (''path'', J_Str [])], J_Null]"
  have m: "?m = [(80, ''nas.lan'')]" by code_simp
  have p: "atoi (trim_space ''80'') = Some 80" and b: "trim_space [] = []" and i: "itoa 9 = ''9''" by code_simp+
  have 1: "rewriteFnosPortIconHijackValue ?m ?e ?v = (True, ?w)"
    unfolding m
    by (simp add: rewriteFnosPortIconHijackObject_def jsonPortNumber_def port_range_def p b i al_get_def al_put_def)
  have h: "\<forall>h \<in> set ?rules. is_ascii (hr_Host h)" by code_simp
  have "rewriteFnosPortIconHijackValue ?m ?e (snd (rewriteFnosPortIconHijackValue ?m ?e ?v)) =
      (False, snd (rewriteFnosPortIconHijackValue ?m ?e ?v))"
    using icons_rewritten_once [OF h refl, of plain_unicode ?e ?v 80] by (rule conjunct1)
  then have "rewriteFnosPortIconHijackValue ?m ?e ?w = (False, ?w)" unfolding 1 snd_conv .
  with 1 show ?thesis unfolding Let_def by blast
qed

end
