(* ===== verification/HtmlRewrite.thy ===== *)
theory HtmlRewrite
  imports Ascii
begin

text \<open>
  What the proxy does to the HTML pages of an upstream (\<^verbatim>\<open>proxy/handler.go\<close>): the absolute
  paths of links, sources, forms and of the base element get the path of the rule in front, and
  the toolbar goes before the last closing body tag. A page is its bytes.
\<close>

section \<open>Absolute paths\<close>

definition htmlRewriteHrefPattern :: string where
  "htmlRewriteHrefPattern = ''href=\"/''"

definition htmlRewriteSrcPattern :: string where
  "htmlRewriteSrcPattern = ''src=\"/''"

definition htmlRewriteActionPattern :: string where
  "htmlRewriteActionPattern = ''action=\"/''"

definition htmlRewriteBasePattern :: string where
  "htmlRewriteBasePattern = ''<base href=\"/\">''"

lemmas html_patterns = htmlRewriteHrefPattern_def htmlRewriteSrcPattern_def
  htmlRewriteActionPattern_def htmlRewriteBasePattern_def

text \<open>
  The pattern at the start of a text: its length (0 for none), how much of it comes before the
  inserted path, and what comes after it.
\<close>

definition htmlAbsolutePathReplacement :: "string \<Rightarrow> nat \<times> nat \<times> string" where
  "htmlAbsolutePathReplacement s =
     (case s of
        [] \<Rightarrow> (0, 0, [])
      | c # _ \<Rightarrow>
          if c = CHR ''h'' \<and> hasPrefix s htmlRewriteHrefPattern then (7, 6, ''/'')
          else if c = CHR ''s'' \<and> hasPrefix s htmlRewriteSrcPattern then (6, 5, ''/'')
          else if c = CHR ''a'' \<and> hasPrefix s htmlRewriteActionPattern then (9, 8, ''/'')
          else if c = CHR ''<'' \<and> hasPrefix s htmlRewriteBasePattern then (15, 12, ''/\">'')
          else (0, 0, []))"

text \<open>The loop over the page, from the current position on.\<close>

function rewrite_from :: "string \<Rightarrow> string \<Rightarrow> string" where
  "rewrite_from pre [] = []"
| "rewrite_from pre (c # cs) =
     (case htmlAbsolutePathReplacement (c # cs) of
        (oldLen, headLen, tail) \<Rightarrow>
          if oldLen = 0 then c # rewrite_from pre cs
          else take headLen (c # cs) @ pre @ tail @ rewrite_from pre (drop oldLen (c # cs)))"
  by pat_completeness auto
termination
  by (relation "measure (length \<circ> snd)") auto

definition rewriteHTMLAbsolutePaths :: "string \<Rightarrow> string \<Rightarrow> string" where
  "rewriteHTMLAbsolutePaths body pre = (if body = [] \<or> pre = [] then body else rewrite_from pre body)"

section \<open>Every absolute path is prefixed\<close>

text \<open>Whether one of the patterns starts here.\<close>

definition replaced :: "string \<Rightarrow> bool" where
  "replaced s = (fst (htmlAbsolutePathReplacement s) \<noteq> 0)"

lemma prefix_split: "prefix p s \<Longrightarrow> \<exists>t. s = p @ t"
  by (auto simp: prefix_def)

lemma guarded_prefix: "(c = x \<and> hasPrefix (c # cs) (x # p)) = hasPrefix (c # cs) (x # p)"
  by (auto simp: hasPrefix_def)

lemma replacement_alt:
  "htmlAbsolutePathReplacement s =
     (if hasPrefix s htmlRewriteHrefPattern then (7, 6, ''/'')
      else if hasPrefix s htmlRewriteSrcPattern then (6, 5, ''/'')
      else if hasPrefix s htmlRewriteActionPattern then (9, 8, ''/'')
      else if hasPrefix s htmlRewriteBasePattern then (15, 12, ''/\">'')
      else (0, 0, []))"
proof (cases s)
  case (Cons c cs)
  then show ?thesis
    by (simp only: htmlAbsolutePathReplacement_def html_patterns guarded_prefix list.case)
qed (simp add: htmlAbsolutePathReplacement_def html_patterns hasPrefix_def)

lemma replaced_iff:
  "replaced s \<longleftrightarrow> hasPrefix s htmlRewriteHrefPattern \<or> hasPrefix s htmlRewriteSrcPattern \<or>
     hasPrefix s htmlRewriteActionPattern \<or> hasPrefix s htmlRewriteBasePattern"
  by (simp add: replaced_def replacement_alt)

lemma rewrite_kept: "\<not> replaced (c # cs) \<Longrightarrow> rewrite_from pre (c # cs) = c # rewrite_from pre cs"
  by (auto simp: replaced_def split: prod.splits)

lemma rewrite_href: "rewrite_from pre (''href=\"/'' @ t) = ''href=\"'' @ pre @ CHR ''/'' # rewrite_from pre t"
  and rewrite_src: "rewrite_from pre (''src=\"/'' @ t) = ''src=\"'' @ pre @ CHR ''/'' # rewrite_from pre t"
  and rewrite_action: "rewrite_from pre (''action=\"/'' @ t) = ''action=\"'' @ pre @ CHR ''/'' # rewrite_from pre t"
  and rewrite_base:
    "rewrite_from pre (''<base href=\"/\">'' @ t) = ''<base href=\"'' @ pre @ CHR ''/'' # ''\">'' @ rewrite_from pre t"
  by (simp_all add: htmlAbsolutePathReplacement_def html_patterns hasPrefix_def)

lemma replaced_split:
  assumes "replaced s"
  obtains t where "s = ''href=\"/'' @ t" | t where "s = ''src=\"/'' @ t"
  | t where "s = ''action=\"/'' @ t" | t where "s = ''<base href=\"/\">'' @ t"
  using assms unfolding replaced_iff html_patterns hasPrefix_def by (blast dest: prefix_split)

text \<open>A text no pattern starts in is read back from the output unchanged.\<close>

lemma quiet_prefix:
  "prefix w (rewrite_from pre s) \<Longrightarrow> set w \<inter> {CHR ''h'', CHR ''s'', CHR ''a'', CHR ''<''} = {} \<Longrightarrow> prefix w s"
proof (induction w arbitrary: s)
  case (Cons x w)
  then obtain c cs where s: "s = c # cs" by (cases s) auto
  show ?case
  proof (cases "replaced s")
    case True
    then have "\<exists>u. rewrite_from pre s = CHR ''h'' # u \<or> rewrite_from pre s = CHR ''s'' # u \<or>
        rewrite_from pre s = CHR ''a'' # u \<or> rewrite_from pre s = CHR ''<'' # u"
      by (rule replaced_split) (simp_all only: rewrite_href rewrite_src rewrite_action rewrite_base, auto)
    with Cons.prems show ?thesis by auto
  next
    case False
    then have r: "rewrite_from pre s = c # rewrite_from pre cs" unfolding s by (rule rewrite_kept)
    have "x = c \<and> prefix w (rewrite_from pre cs)" using Cons.prems(1) by (simp add: r)
    with Cons.IH [of cs] Cons.prems(2) show ?thesis by (simp add: s)
  qed
qed simp

text \<open>The attributes, up to the quote, and what holds at each of them.\<close>

definition link_heads :: "string list" where
  "link_heads = [''href=\"'', ''src=\"'', ''action=\"'']"

definition links_prefixed :: "string \<Rightarrow> string \<Rightarrow> bool" where
  "links_prefixed pre out \<longleftrightarrow>
     (\<forall>h \<in> set link_heads. \<forall>u v. out = u @ h @ CHR ''/'' # v \<longrightarrow> prefix pre (CHR ''/'' # v))"

lemma links_nil [simp]: "links_prefixed pre []"
  by (simp add: links_prefixed_def)

lemma links_cons:
  "links_prefixed pre (c # out) \<longleftrightarrow>
     (\<forall>h \<in> set link_heads. \<forall>v. c # out = h @ CHR ''/'' # v \<longrightarrow> prefix pre (CHR ''/'' # v)) \<and> links_prefixed pre out"
proof
  assume l: "links_prefixed pre (c # out)"
  have "prefix pre (CHR ''/'' # v)" if "h \<in> set link_heads" "c # out = u @ h @ CHR ''/'' # v" for h u v
    using l that unfolding links_prefixed_def by blast
  from this [where u = "[]"] this [where u = "c # u" for u]
  show "(\<forall>h \<in> set link_heads. \<forall>v. c # out = h @ CHR ''/'' # v \<longrightarrow> prefix pre (CHR ''/'' # v)) \<and> links_prefixed pre out"
    unfolding links_prefixed_def by simp
next
  assume r: "(\<forall>h \<in> set link_heads. \<forall>v. c # out = h @ CHR ''/'' # v \<longrightarrow> prefix pre (CHR ''/'' # v)) \<and>
    links_prefixed pre out"
  have "prefix pre (CHR ''/'' # v)" if "h \<in> set link_heads" "c # out = u @ h @ CHR ''/'' # v" for h u v
    using r that unfolding links_prefixed_def by (cases u) simp_all
  then show "links_prefixed pre (c # out)" unfolding links_prefixed_def by blast
qed

lemma first_mark:
  "CHR 0x22 \<notin> set w \<Longrightarrow> hd (dropWhile (\<lambda>c. c \<noteq> CHR 0x22 \<and> c \<noteq> CHR ''/'') (w @ CHR ''/'' # r)) = CHR ''/''"
  by (induction w) auto

lemma head_mark:
  "h \<in> set link_heads \<Longrightarrow> hd (dropWhile (\<lambda>c. c \<noteq> CHR 0x22 \<and> c \<noteq> CHR ''/'') (h @ r)) = CHR 0x22"
  by (auto simp: link_heads_def)

lemma links_unquoted:
  "CHR 0x22 \<notin> set w \<Longrightarrow> links_prefixed pre (CHR ''/'' # out) \<Longrightarrow> links_prefixed pre (w @ CHR ''/'' # out)"
proof (induction w)
  case (Cons x w)
  have "(x # w) @ CHR ''/'' # out \<noteq> h @ CHR ''/'' # v" if "h \<in> set link_heads" for h v
  proof
    assume e: "(x # w) @ CHR ''/'' # out = h @ CHR ''/'' # v"
    show False
      using first_mark [OF Cons.prems(1), of out] head_mark [OF that, of "CHR ''/'' # v"] unfolding e by simp
  qed
  with Cons show ?case by (simp add: links_cons)
qed simp

lemma links_slash: "links_prefixed pre out \<Longrightarrow> links_prefixed pre (CHR ''/'' # out)"
  by (auto simp: links_cons link_heads_def)

lemma links_inserted:
  assumes "CHR 0x22 \<notin> set pre" and "links_prefixed pre (CHR ''/'' # out)"
  shows "links_prefixed pre (''href=\"'' @ pre @ CHR ''/'' # out)"
    and "links_prefixed pre (''src=\"'' @ pre @ CHR ''/'' # out)"
    and "links_prefixed pre (''action=\"'' @ pre @ CHR ''/'' # out)"
    and "links_prefixed pre (''<base href=\"'' @ pre @ CHR ''/'' # out)"
proof -
  have p: "links_prefixed pre (pre @ CHR ''/'' # out)" using assms by (rule links_unquoted)
  have q: "pre @ CHR ''/'' # out = CHR ''/'' # v \<Longrightarrow> prefix pre (CHR ''/'' # v)" for v
    by (metis prefixI)
  show "links_prefixed pre (''href=\"'' @ pre @ CHR ''/'' # out)"
    and "links_prefixed pre (''src=\"'' @ pre @ CHR ''/'' # out)"
    and "links_prefixed pre (''action=\"'' @ pre @ CHR ''/'' # out)"
    and "links_prefixed pre (''<base href=\"'' @ pre @ CHR ''/'' # out)"
    by (simp_all add: links_cons p q link_heads_def)
qed

lemma quiet_head:
  "h \<in> set link_heads \<Longrightarrow>
     h = hd h # tl h \<and> set (tl h @ ''/'') \<inter> {CHR ''h'', CHR ''s'', CHR ''a'', CHR ''<''} = {}"
  unfolding link_heads_def by (simp; elim disjE; simp)

lemma links_kept:
  assumes "\<not> replaced (c # cs)" and "links_prefixed pre (rewrite_from pre cs)"
  shows "links_prefixed pre (c # rewrite_from pre cs)"
proof -
  have "c # rewrite_from pre cs \<noteq> h @ CHR ''/'' # v" if h: "h \<in> set link_heads" for h v
  proof
    assume e: "c # rewrite_from pre cs = h @ CHR ''/'' # v"
    define x w where xw: "x = hd h" "w = tl h"
    have hw: "h = x # w" and quiet: "set (w @ ''/'') \<inter> {CHR ''h'', CHR ''s'', CHR ''a'', CHR ''<''} = {}"
      using quiet_head [OF h] unfolding xw by simp_all
    have "rewrite_from pre cs = (w @ ''/'') @ v" using e hw by simp
    then have "prefix (w @ ''/'') (rewrite_from pre cs)" by (rule prefixI)
    then have "prefix (w @ ''/'') cs" using quiet by (rule quiet_prefix)
    then have "prefix (h @ ''/'') (c # cs)" using e hw by simp
    moreover have "h @ ''/'' \<in> {htmlRewriteHrefPattern, htmlRewriteSrcPattern, htmlRewriteActionPattern}"
      using h unfolding link_heads_def html_patterns by (simp; elim disjE; simp)
    ultimately have "replaced (c # cs)" by (auto simp: replaced_iff hasPrefix_def)
    with assms(1) show False by contradiction
  qed
  with assms(2) show ?thesis by (simp add: links_cons)
qed

lemma links_rewritten: "CHR 0x22 \<notin> set pre \<Longrightarrow> links_prefixed pre (rewrite_from pre s)"
proof (induction "length s" arbitrary: s rule: less_induct)
  case less
  show ?case
  proof (cases "replaced s")
    case True
    then show ?thesis
    proof (rule replaced_split)
      fix t assume t: "s = ''href=\"/'' @ t"
      with less have "links_prefixed pre (rewrite_from pre t)" by simp
      then show ?thesis unfolding t rewrite_href by (intro links_inserted(1) links_slash less.prems)
    next
      fix t assume t: "s = ''src=\"/'' @ t"
      with less have "links_prefixed pre (rewrite_from pre t)" by simp
      then show ?thesis unfolding t rewrite_src by (intro links_inserted(2) links_slash less.prems)
    next
      fix t assume t: "s = ''action=\"/'' @ t"
      with less have "links_prefixed pre (rewrite_from pre t)" by simp
      then show ?thesis unfolding t rewrite_action by (intro links_inserted(3) links_slash less.prems)
    next
      fix t assume t: "s = ''<base href=\"/\">'' @ t"
      with less have "links_prefixed pre (rewrite_from pre t)" by simp
      then show ?thesis unfolding t rewrite_base
        by (intro links_inserted(4) links_slash less.prems) (auto simp: links_cons link_heads_def)
    qed
  next
    case False
    show ?thesis
    proof (cases s)
      case (Cons c cs)
      have "links_prefixed pre (rewrite_from pre cs)" using less Cons by simp
      with False show ?thesis unfolding Cons by (simp only: rewrite_kept links_kept not_False_eq_True)
    qed simp
  qed
qed

text \<open>Nothing of the page is lost.\<close>

lemma rewrite_keeps: "subseq s (rewrite_from pre s)"
proof (induction "length s" arbitrary: s rule: less_induct)
  case less
  have mid: "subseq (a @ x @ t) (a @ pre @ x @ rewrite_from pre t)" if "length t < length s" for a x t
    using less [OF that] by (intro list_emb_append_mono subseq_order.order_refl list_emb_append2)
  show ?case
  proof (cases "replaced s")
    case True
    then show ?thesis
    proof (rule replaced_split)
      fix t assume t: "s = ''href=\"/'' @ t"
      show ?thesis using mid [of t "''href=\"''" "''/''"] unfolding t rewrite_href by simp
    next
      fix t assume t: "s = ''src=\"/'' @ t"
      show ?thesis using mid [of t "''src=\"''" "''/''"] unfolding t rewrite_src by simp
    next
      fix t assume t: "s = ''action=\"/'' @ t"
      show ?thesis using mid [of t "''action=\"''" "''/''"] unfolding t rewrite_action by simp
    next
      fix t assume t: "s = ''<base href=\"/\">'' @ t"
      show ?thesis using mid [of t "''<base href=\"''" "''/\">''"] unfolding t rewrite_base by simp
    qed
  next
    case False
    show ?thesis
    proof (cases s)
      case (Cons c cs)
      have "subseq cs (rewrite_from pre cs)" using less Cons by simp
      with False show ?thesis unfolding Cons by (simp only: rewrite_kept subseq_Cons2 not_False_eq_True)
    qed simp
  qed
qed



section \<open>The toolbar\<close>

definition equalFoldASCIIBytes :: "string \<Rightarrow> string \<Rightarrow> bool" where
  "equalFoldASCIIBytes a b =
     (length a = length b \<and> list_all2 (\<lambda>x y. lowerASCII x = lowerASCII y) a b)"

definition equalFoldASCIIPrefix :: "string \<Rightarrow> string \<Rightarrow> bool" where
  "equalFoldASCIIPrefix s pre = (length pre \<le> length s \<and> equalFoldASCIIBytes (take (length pre) s) pre)"

text \<open>The loop downwards from position \<open>n\<close>.\<close>

fun last_fold_from :: "string \<Rightarrow> string \<Rightarrow> nat \<Rightarrow> nat option" where
  "last_fold_from s sub n =
     (if equalFoldASCIIBytes (take (length sub) (drop n s)) sub then Some n
      else case n of 0 \<Rightarrow> None | Suc m \<Rightarrow> last_fold_from s sub m)"

declare last_fold_from.simps [simp del]

definition lastIndexFoldASCII :: "string \<Rightarrow> string \<Rightarrow> nat option" where
  "lastIndexFoldASCII s sub =
     (if sub = [] then Some (length s)
      else if length sub > length s then None
      else last_fold_from s sub (length s - length sub))"

fun containsAnyHTMLMarkerFoldASCII :: "string \<Rightarrow> bool" where
  "containsAnyHTMLMarkerFoldASCII [] = False"
| "containsAnyHTMLMarkerFoldASCII (c # cs) =
     ((c = CHR ''<'' \<and>
       (equalFoldASCIIPrefix (c # cs) ''<html'' \<or> equalFoldASCIIPrefix (c # cs) ''<head'' \<or>
        equalFoldASCIIPrefix (c # cs) ''<body'' \<or> equalFoldASCIIPrefix (c # cs) ''<!doctype'')) \<or>
      containsAnyHTMLMarkerFoldASCII cs)"

definition injectToolbarIntoHTMLBytes :: "string \<Rightarrow> string \<Rightarrow> string" where
  "injectToolbarIntoHTMLBytes body toolbarHTML =
     (if toolbarHTML = [] \<or> body = [] then body
      else (case lastIndexFoldASCII body ''</body>'' of
              Some idx \<Rightarrow> take idx body @ toolbarHTML @ drop idx body
            | None \<Rightarrow> if containsAnyHTMLMarkerFoldASCII body then body @ toolbarHTML else body))"

lemma equalFoldASCIIBytes_iff: "equalFoldASCIIBytes a b \<longleftrightarrow> map lowerASCII a = map lowerASCII b"
  by (auto simp: equalFoldASCIIBytes_def list_all2_map1 list_all2_map2 list_eq_iff_nth_eq list_all2_conv_all_nth)

text \<open>The reference: the last place at which the text occurs in any case.\<close>

definition occurs_at :: "string \<Rightarrow> string \<Rightarrow> nat \<Rightarrow> bool" where
  "occurs_at s sub i = (i + length sub \<le> length s \<and> map lowerASCII (take (length sub) (drop i s)) = map lowerASCII sub)"

lemma last_fold_from_Some:
  "last_fold_from s sub n = Some i \<Longrightarrow> n + length sub \<le> length s \<Longrightarrow>
     occurs_at s sub i \<and> i \<le> n \<and> (\<forall>j. i < j \<and> j \<le> n \<longrightarrow> \<not> occurs_at s sub j)"
proof (induction n)
  case 0
  then show ?case
    by (subst (asm) last_fold_from.simps) (auto simp: occurs_at_def equalFoldASCIIBytes_iff split: if_splits)
next
  case (Suc n)
  then show ?case
    by (subst (asm) (2) last_fold_from.simps)
      (auto simp: occurs_at_def equalFoldASCIIBytes_iff le_Suc_eq split: if_splits)
qed

lemma last_fold_from_None:
  "last_fold_from s sub n = None \<Longrightarrow> j \<le> n \<Longrightarrow> \<not> occurs_at s sub j"
proof (induction n)
  case 0
  then show ?case
    by (subst (asm) last_fold_from.simps) (auto simp: occurs_at_def equalFoldASCIIBytes_iff split: if_splits)
next
  case (Suc n)
  then show ?case
    by (subst (asm) (2) last_fold_from.simps)
      (auto simp: occurs_at_def equalFoldASCIIBytes_iff le_Suc_eq split: if_splits)
qed

lemma last_index_Some:
  assumes "lastIndexFoldASCII s sub = Some i"
  shows "occurs_at s sub i \<and> (\<forall>j. i < j \<longrightarrow> \<not> occurs_at s sub j)"
proof (cases "sub = []")
  case True
  with assms show ?thesis by (simp add: lastIndexFoldASCII_def occurs_at_def)
next
  case False
  with assms have "length sub \<le> length s" "last_fold_from s sub (length s - length sub) = Some i"
    by (simp_all add: lastIndexFoldASCII_def split: if_splits)
  with last_fold_from_Some [of s sub "length s - length sub" i] show ?thesis
    by (auto simp: occurs_at_def)
qed

lemma last_index_None: "lastIndexFoldASCII s sub = None \<Longrightarrow> \<not> occurs_at s sub j"
  using last_fold_from_None [of s sub "length s - length sub" j]
  by (cases "j \<le> length s - length sub") (auto simp: lastIndexFoldASCII_def occurs_at_def split: if_splits)

lemma fold_prefix_occurs: "equalFoldASCIIPrefix s pre \<longleftrightarrow> occurs_at s pre 0"
  by (auto simp: equalFoldASCIIPrefix_def occurs_at_def equalFoldASCIIBytes_iff)

definition html_markers :: "string list" where
  "html_markers = [''<html'', ''<head'', ''<body'', ''<!doctype'']"

lemma marker_here:
  "(c = CHR ''<'' \<and>
       (equalFoldASCIIPrefix (c # cs) ''<html'' \<or> equalFoldASCIIPrefix (c # cs) ''<head'' \<or>
        equalFoldASCIIPrefix (c # cs) ''<body'' \<or> equalFoldASCIIPrefix (c # cs) ''<!doctype'')) \<longleftrightarrow>
   (\<exists>m \<in> set html_markers. occurs_at (c # cs) m 0)"
proof -
  have "c = CHR ''<''" if "lowerASCII c = lowerASCII CHR ''<''"
  proof -
    have "byte (lowerASCII c) = byte (lowerASCII CHR ''<'')" using that by simp
    then have "byte c = 60" unfolding byte_lowerASCII by (simp add: byte_def split: if_splits)
    then have "byte c = byte CHR ''<''" by (simp add: byte_def)
    then show ?thesis by (simp only: byte_inj)
  qed
  then have "occurs_at (c # cs) (CHR ''<'' # m) 0 \<Longrightarrow> c = CHR ''<''" for m
    by (simp add: occurs_at_def)
  then show ?thesis by (auto simp: fold_prefix_occurs html_markers_def)
qed

lemma occurs_at_Suc: "occurs_at (c # cs) m (Suc i) = occurs_at cs m i"
  by (simp add: occurs_at_def)

lemma marker_iff: "containsAnyHTMLMarkerFoldASCII s \<longleftrightarrow> (\<exists>m \<in> set html_markers. \<exists>i. occurs_at s m i)"
proof (induction s)
  case Nil
  then show ?case by (simp add: html_markers_def occurs_at_def)
next
  case (Cons c cs)
  have "(\<exists>i. occurs_at (c # cs) m i) \<longleftrightarrow> occurs_at (c # cs) m 0 \<or> (\<exists>i. occurs_at cs m i)" for m
    by (metis occurs_at_Suc not0_implies_Suc)
  then show ?case using Cons.IH by (simp only: containsAnyHTMLMarkerFoldASCII.simps marker_here) blast
qed

text \<open>The place of the toolbar.
  The toolbar is put into a page once, before its last closing body tag in any case of letters, or
  at its end when there is none but the text looks like HTML; every other text is left alone.\<close>

theorem toolbar_position:
  "(\<exists>i. toolbar \<noteq> [] \<and> body \<noteq> [] \<and> occurs_at body ''</body>'' i \<and> (\<nexists>j. i < j \<and> occurs_at body ''</body>'' j) \<and>
        injectToolbarIntoHTMLBytes body toolbar = take i body @ toolbar @ drop i body) \<or>
   (toolbar \<noteq> [] \<and> body \<noteq> [] \<and> (\<nexists>i. occurs_at body ''</body>'' i) \<and>
      (\<exists>m \<in> set html_markers. \<exists>i. occurs_at body m i) \<and> injectToolbarIntoHTMLBytes body toolbar = body @ toolbar) \<or>
   ((toolbar = [] \<or> body = [] \<or>
       (\<nexists>i. occurs_at body ''</body>'' i) \<and> (\<nexists>i. \<exists>m \<in> set html_markers. occurs_at body m i)) \<and>
      injectToolbarIntoHTMLBytes body toolbar = body)"
proof (cases "toolbar = [] \<or> body = []")
  case True
  then show ?thesis by (auto simp: injectToolbarIntoHTMLBytes_def)
next
  case n: False
  show ?thesis
  proof (cases "lastIndexFoldASCII body ''</body>''")
    case None
    with n last_index_None [OF None] show ?thesis
      by (auto simp: injectToolbarIntoHTMLBytes_def marker_iff)
  next
    case (Some i)
    with n last_index_Some [OF Some] show ?thesis by (auto simp: injectToolbarIntoHTMLBytes_def)
  qed
qed

end
