(* ===== verification/Serve.thy ===== *)
theory Serve
  imports TargetPolicy Throttle CidrPolicy Blacklist AuthTrace Preflight
begin

text \<open>
  The way of a request through the gateway (\<^verbatim>\<open>Handler.ServeHTTP\<close> of
  \<^verbatim>\<open>proxy/handler.go\<close>): the gates in their order, the choice of a route, the
  authentication check of the route, and what is answered or proxied.  The clock readings, the
  answers of the authentication service and the verdict of the web application firewall are
  arguments.
\<close>

section \<open>State, environment and answers\<close>

record server =
  sv_gateway :: gateway
  sv_blacklist :: "blacklist option"
  sv_visibility :: "gateway_visibility option"
  sv_throttle :: "throttle option"
  sv_exempt :: "exempt_runtime option"
  sv_common :: "common_runtime option"

text \<open>What the firewall is told besides the request, and its verdict.\<close>

record waf_context =
  wx_ClientIP :: string
  wx_RouteType :: string
  wx_RouteKey :: string
  wx_Upstream :: string
  wx_Scheme :: string
  wx_RemoteAddr :: string

record waf_decision =
  wd_Allowed :: bool
  wd_Status :: int
  wd_TraceID :: string

record serve_env =
  se_fl :: "real \<Rightarrow> real"
  se_waf :: "(request \<Rightarrow> waf_context \<Rightarrow> waf_decision) option"
  se_throttleTime :: time
  se_preflightClock :: preflight_clock
  se_preflightReply :: preflight_reply
  se_authClock :: auth_clock
  se_authReply :: auth_reply
  se_wsFailed :: bool
  se_authDone :: time

datatype auth_route =
    Auth_Unconfigured
  | Auth_Redirect string
  | Auth_Proxy url string

datatype outcome =
    Out_Abort
  | Out_Favicon string
  | Out_WAF int string
  | Out_AccessDenied
  | Out_Redirect int string
  | Out_Select "path_rule list" "host_rule list" gateway_portal
  | Out_Auth auth_route
  | Out_Refused answer
  | Out_Host host_rule
  | Out_Location host_rule host_location
  | Out_Response location_response
  | Out_BadLocation
  | Out_RootMode string
  | Out_Path path_rule
  | Out_Welcome
  | Out_NotFound

record served =
  so_outcome :: outcome
  so_auth :: auth_result
  so_setCookies :: "string list"

definition plainly :: "outcome \<Rightarrow> served" where
  "plainly a = \<lparr>so_outcome = a, so_auth = not_required, so_setCookies = []\<rparr>"

section \<open>Routes\<close>

definition faviconFiles :: "string list" where
  "faviconFiles = map (\<lambda>f. ''/__assets__/favicon/'' @ f)
     [''favicon-16x16.png'', ''favicon-32x32.png'', ''apple-touch-icon.png'', ''android-chrome-192x192.png'',
      ''android-chrome-512x512.png'', ''site.webmanifest'']"

definition IsFaviconPath :: "string \<Rightarrow> bool" where
  "IsFaviconPath p = (p \<in> set faviconFiles)"

definition ShouldSuppressToolbarForUserAgent :: "string \<Rightarrow> bool" where
  "ShouldSuppressToolbarForUserAgent userAgent =
     (let n = trim_space userAgent in
      n \<noteq> [] \<and>
      (containsFoldASCIIString n ''com.trim.app'' \<or> containsFoldASCIIString n ''com.trim.media'' \<or>
       containsFoldASCIIString n ''fnos''))"

definition shouldProbeAuthForToolbar :: "request \<Rightarrow> auth_config \<Rightarrow> gateway_portal \<Rightarrow> bool" where
  "shouldProbeAuthForToolbar r cfg portal =
     (ac_AuthPort cfg > 0 \<and> ac_AuthURL cfg \<noteq> [] \<and> gp_Enabled (NormalizeGatewayPortalConfig portal) \<and>
      requestHasExplicitAuthIdentity r \<and>
      \<not> ShouldSuppressToolbarForUserAgent (header_get (rq_Header r) ''User-Agent''))"

definition serve_path :: "string \<Rightarrow> string" where
  "serve_path p =
     (let cleaned = path_clean p in
      if hasSuffix p ''/'' \<and> cleaned \<noteq> ''/'' then cleaned @ ''/'' else cleaned)"

definition clean_request :: "request \<Rightarrow> request" where
  "clean_request r = r\<lparr>rq_URL := (rq_URL r)\<lparr>u_Path := serve_path (u_Path (rq_URL r))\<rparr>\<rparr>"

text \<open>What the path and host of a request lead to.\<close>

record routing =
  ro_isSelect :: bool
  ro_isAuth :: bool
  ro_hostRule :: "host_rule option"
  ro_location :: "host_location option"
  ro_rule :: "path_rule option"
  ro_slash :: string

definition route_request :: "unicode \<Rightarrow> request \<Rightarrow> request_snapshot \<Rightarrow> routing" where
  "route_request U r sn =
     (let hostRule = matchHostRule U r sn;
          (m, slash) = (if hostRule \<noteq> None then (None, []) else matchRule r sn)
      in \<lparr>ro_isSelect = (u_Path (rq_URL r) = selectRoute),
          ro_isAuth = hasPrefix (u_Path (rq_URL r)) ''/__auth__/'',
          ro_hostRule = hostRule,
          ro_location = matchHostLocation r hostRule,
          ro_rule = (if m = None then sn_defaultRule sn else m),
          ro_slash = slash\<rparr>)"

definition access_mode :: "routing \<Rightarrow> string" where
  "access_mode ro = (case ro_hostRule ro of Some h \<Rightarrow> hr_AccessMode h | None \<Rightarrow> [])"

definition is_match :: "request \<Rightarrow> routing \<Rightarrow> bool" where
  "is_match r ro =
     (ro_isSelect ro \<or> ro_isAuth ro \<or> ro_hostRule ro \<noteq> None \<or> ro_rule ro \<noteq> None \<or> u_Path (rq_URL r) = ''/'')"

definition evaluateReverseProxyThrottleRequest ::
    "(real \<Rightarrow> real) \<Rightarrow> routing \<Rightarrow> string \<Rightarrow> time \<Rightarrow> server \<Rightarrow> throttle_decision \<times> server" where
  "evaluateReverseProxyThrottleRequest fl ro clientIP now s =
     (if \<not> ro_isAuth ro \<and> ro_hostRule ro = None \<and> ro_rule ro = None then (open_decision, s)
      else (case sv_throttle s of
              None \<Rightarrow> (open_decision, s)
            | Some t \<Rightarrow>
                if sv_exempt s \<noteq> None \<and> exempt_shouldBypass (sv_exempt s) clientIP then (open_decision, s)
                else (case throttle_evaluate fl clientIP now t of
                        (d, t') \<Rightarrow> (d, s\<lparr>sv_throttle := Some t'\<rparr>))))"

definition classifyReverseProxyRouteType :: "string \<Rightarrow> routing \<Rightarrow> string" where
  "classifyReverseProxyRouteType requestPath ro =
     (if ro_isAuth ro then ''auth_proxy''
      else if requestPath = selectRoute then ''select''
      else if ro_hostRule ro \<noteq> None \<and> ro_location ro \<noteq> None then ''host_location''
      else if ro_hostRule ro \<noteq> None then ''host_rule''
      else if ro_rule ro \<noteq> None then ''path_rule''
      else ''not_found'')"

definition wafRouteContext :: "request \<Rightarrow> request_snapshot \<Rightarrow> routing \<Rightarrow> string \<times> string \<times> string" where
  "wafRouteContext r sn ro =
     (let p = u_Path (rq_URL r); routeType = classifyReverseProxyRouteType p ro in
      if ro_isAuth ro then
        (routeType, p, if ac_AuthPort (sn_authConfig sn) > 0 then localServiceBaseURL (ac_AuthPort (sn_authConfig sn)) else [])
      else if p = selectRoute then (routeType, p, [])
      else (case (ro_hostRule ro, ro_location ro, ro_rule ro) of
              (Some h, Some l, _) \<Rightarrow>
                (routeType, hostLocationRouteKey h l, if hl_Action l = ''proxy'' then hl_Target l else [])
            | (Some h, None, _) \<Rightarrow> (routeType, hr_Host h, hr_Target h)
            | (None, _, Some rule) \<Rightarrow> (routeType, pr_Path rule, pr_Target rule)
            | (None, _, None) \<Rightarrow> (routeType, p, [])))"

section \<open>Route handlers\<close>

definition handleAuthProxyRoute :: "request \<Rightarrow> request_snapshot \<Rightarrow> auth_route" where
  "handleAuthProxyRoute r sn =
     (let cfg = sn_authConfig sn; p = u_Path (rq_URL r) in
      if ac_AuthPort cfg \<le> 0 then Auth_Unconfigured
      else
        (let login = nonempty_or (ac_LoginURL cfg) ''/login'';
             target = localServiceTargetURL (ac_AuthPort cfg);
             to = (\<lambda>q. Auth_Proxy (target\<lparr>u_Path := singleJoiningSlash (u_Path target) q\<rparr>) q)
         in if p = ''/__auth__/login'' then
              (let redirect = buildInternalAuthLoginRedirect login (u_RawQuery (rq_URL r)) in
               if redirect \<noteq> [] then Auth_Redirect redirect else to login)
            else if p = ''/__auth__/logout'' \<or> p = ''/__auth__/api/auth/logout'' then
              to (nonempty_or (ac_LogoutURL cfg) ''/api/auth/logout'')
            else if p = ''/__auth__/oidc/bind'' \<or> p = ''/__auth__/oidc/bind/'' then to ''/api/auth/oidc/bind''
            else to (path_clean (ensureLeadingSlash (trimPrefix p ''/__auth__'')))))"

definition handleNoMatchRoute :: "request \<Rightarrow> request_snapshot \<Rightarrow> outcome" where
  "handleNoMatchRoute r sn =
     (if u_Path (rq_URL r) = ''/'' \<and> sn_rules sn = [] \<and> sn_hostRules sn = [] then Out_Welcome
      else if u_Path (rq_URL r) = ''/'' \<and> sn_rules sn \<noteq> [] then Out_Redirect 302 selectRoute
      else Out_NotFound)"

definition serveHostLocationResponse :: "host_location \<Rightarrow> location_response" where
  "serveHostLocationResponse l =
     (let resp = hl_Response l; contentType = trim_space (lr_ContentType resp);
          headers = foldl (\<lambda>h (k, v). header_set k v h) [] (lr_Headers resp)
      in resp\<lparr>lr_Status := (if lr_Status resp = 0 then 200 else lr_Status resp),
              lr_ContentType := (if contentType = [] then ''text/plain; charset=utf-8'' else contentType),
              lr_Headers := map (\<lambda>(k, vs). (k, hd vs)) headers\<rparr>)"

text \<open>The authentication checks on the handler's state.\<close>

definition with_auth :: "(auth_handler \<Rightarrow> 'a \<times> auth_handler) \<Rightarrow> server \<Rightarrow> 'a \<times> server" where
  "with_auth f s =
     (case f (gw_auth (sv_gateway s)) of (x, a) \<Rightarrow> (x, s\<lparr>sv_gateway := (sv_gateway s)\<lparr>gw_auth := a\<rparr>\<rparr>))"

definition check_auth ::
    "golib \<Rightarrow> unicode \<Rightarrow> serve_env \<Rightarrow> request \<Rightarrow> auth_config \<Rightarrow> string \<Rightarrow> string \<Rightarrow> auth_handler \<Rightarrow>
     reaction \<times> auth_handler" where
  "check_auth G U v r cfg clientIP accessMode h =
     checkAuth G U r cfg clientIP accessMode (se_authClock v) (se_authReply v) (se_wsFailed v) (se_authDone v) h"

definition check_toolbar ::
    "golib \<Rightarrow> unicode \<Rightarrow> serve_env \<Rightarrow> request \<Rightarrow> auth_config \<Rightarrow> string \<Rightarrow> auth_handler \<Rightarrow>
     reaction \<times> auth_handler" where
  "check_toolbar G U v r cfg clientIP h =
     checkAuthForToolbar G U r cfg clientIP (se_authClock v) (se_authReply v) (se_authDone v) h"

definition served_auth :: "outcome \<Rightarrow> reaction \<Rightarrow> served" where
  "served_auth a rx = \<lparr>so_outcome = a, so_auth = rx_result rx, so_setCookies = rx_setCookies rx\<rparr>"

text \<open>
  A route that needs a login is served if the check allows it, and answered as the check says
  otherwise; one that needs none may ask who the visitor is, for the toolbar.
\<close>

definition authorised ::
    "golib \<Rightarrow> unicode \<Rightarrow> serve_env \<Rightarrow> request \<Rightarrow> request_snapshot \<Rightarrow> string \<Rightarrow> bool \<Rightarrow> string \<Rightarrow> bool \<Rightarrow>
     (auth_result \<Rightarrow> outcome) \<Rightarrow> server \<Rightarrow> served \<times> server" where
  "authorised G U v r sn clientIP required accessMode toolbar out s =
     (let cfg = sn_authConfig sn in
      if required then
        (case with_auth (check_auth G U v r cfg clientIP accessMode) s of
           (rx, s') \<Rightarrow>
             (served_auth (if ar_allowed (rx_result rx) then out (rx_result rx) else Out_Refused (rx_answer rx)) rx, s'))
      else if toolbar \<and> shouldProbeAuthForToolbar r cfg (sn_gatewayPortal sn) then
        (case with_auth (check_toolbar G U v r cfg clientIP) s of
           (rx, s') \<Rightarrow> (served_auth (out (rx_result rx)) rx, s'))
      else (plainly (out not_required), s))"

definition auth_required :: "request_snapshot \<Rightarrow> bool \<Rightarrow> bool" where
  "auth_required sn useAuth = (useAuth \<and> ac_AuthURL (sn_authConfig sn) \<noteq> [])"

definition handleSelectRoute ::
    "golib \<Rightarrow> unicode \<Rightarrow> serve_env \<Rightarrow> request \<Rightarrow> request_snapshot \<Rightarrow> string \<Rightarrow> server \<Rightarrow> served \<times> server" where
  "handleSelectRoute G U v r sn clientIP s =
     authorised G U v r sn clientIP (ac_AuthURL (sn_authConfig sn) \<noteq> []) [] False
       (\<lambda>res. Out_Select (sn_toolbarRules sn)
                (if ac_AuthURL (sn_authConfig sn) \<noteq> []
                 then filterSelectHostRulesByAuthScope U (sn_toolbarHostRules sn) res
                 else sn_toolbarHostRules sn) (sn_gatewayPortal sn)) s"

definition location_outcome :: "host_rule \<Rightarrow> host_location option \<Rightarrow> outcome" where
  "location_outcome h location =
     (case location of
        None \<Rightarrow> Out_Host h
      | Some l \<Rightarrow>
          if hl_Action l = ''response'' then Out_Response (serveHostLocationResponse l)
          else if hl_Action l = ''proxy'' then Out_Location h l
          else Out_BadLocation)"

definition toolbar_target :: "host_rule \<Rightarrow> host_location option \<Rightarrow> string" where
  "toolbar_target h location =
     (case location of
        None \<Rightarrow> hr_Target h
      | Some l \<Rightarrow> if hl_Action l = ''proxy'' then hl_Target l else [])"

definition serve_host ::
    "golib \<Rightarrow> unicode \<Rightarrow> serve_env \<Rightarrow> request \<Rightarrow> request_snapshot \<Rightarrow> string \<Rightarrow> host_rule \<Rightarrow> host_location option \<Rightarrow>
     server \<Rightarrow> served \<times> server" where
  "serve_host G U v r sn clientIP h location s =
     authorised G U v r sn clientIP (auth_required sn (hr_UseAuth h)) (hr_AccessMode h)
       (\<not> hr_SuppressToolbar h \<and> snapshotReverseProxyTargetSupportsHTMLFeatures U sn (toolbar_target h location))
       (\<lambda>_. location_outcome h location) s"

definition serve_rule ::
    "golib \<Rightarrow> unicode \<Rightarrow> serve_env \<Rightarrow> request \<Rightarrow> request_snapshot \<Rightarrow> string \<Rightarrow> path_rule \<Rightarrow> server \<Rightarrow>
     served \<times> server" where
  "serve_rule G U v r sn clientIP rule s =
     (let html = snapshotReverseProxyTargetSupportsHTMLFeatures U sn (pr_Target rule) in
      if html \<and> pr_UseRootMode rule \<and> pr_Path rule \<noteq> ''/'' \<and> hasPrefix (u_Path (rq_URL r)) (pr_Path rule)
      then (plainly (Out_RootMode (pr_Path rule)), s)
      else authorised G U v r sn clientIP (auth_required sn (pr_UseAuth rule)) [] html (\<lambda>_. Out_Path rule) s)"

section \<open>The whole request\<close>

definition serve_route ::
    "golib \<Rightarrow> unicode \<Rightarrow> serve_env \<Rightarrow> request \<Rightarrow> request_snapshot \<Rightarrow> string \<Rightarrow> routing \<Rightarrow> server \<Rightarrow>
     served \<times> server" where
  "serve_route G U v r sn clientIP ro s =
     (if ro_slash ro \<noteq> [] then
        (plainly (Out_Redirect 301 (ro_slash ro @
           (if u_RawQuery (rq_URL r) \<noteq> [] then ''?'' @ u_RawQuery (rq_URL r) else []))), s)
      else if ro_isSelect ro then handleSelectRoute G U v r sn clientIP s
      else if ro_isAuth ro then (plainly (Out_Auth (handleAuthProxyRoute r sn)), s)
      else (case (ro_hostRule ro, ro_rule ro) of
              (Some h, _) \<Rightarrow> serve_host G U v r sn clientIP h (ro_location ro) s
            | (None, Some rule) \<Rightarrow> serve_rule G U v r sn clientIP rule s
            | (None, None) \<Rightarrow> (plainly (handleNoMatchRoute r sn), s)))"

definition serve_preflight ::
    "golib \<Rightarrow> unicode \<Rightarrow> serve_env \<Rightarrow> request \<Rightarrow> request_snapshot \<Rightarrow> string \<Rightarrow> routing \<Rightarrow> server \<Rightarrow>
     served \<times> server" where
  "serve_preflight G U v r sn clientIP ro s =
     (case with_auth (runPreflight G U r (sn_authConfig sn) clientIP (is_match r ro) (access_mode ro)
                        (se_preflightClock v) (se_preflightReply v)) s of
        (d, s') \<Rightarrow>
          if pd_accessDeniedReason d \<noteq> [] \<and> \<not> ro_isAuth ro then (plainly Out_AccessDenied, s')
          else if pd_deny d then (plainly Out_Abort, s')
          else if pd_redirectLocation d \<noteq> [] then (plainly (Out_Redirect 302 (pd_redirectLocation d)), s')
          else serve_route G U v r sn clientIP ro s')"

definition waf_verdict ::
    "golib \<Rightarrow> serve_env \<Rightarrow> request \<Rightarrow> request_snapshot \<Rightarrow> string \<Rightarrow> routing \<Rightarrow> server \<Rightarrow> waf_decision option" where
  "waf_verdict G v r sn clientIP ro s =
     (case se_waf v of
        None \<Rightarrow> None
      | Some waf \<Rightarrow>
          if sv_common s \<noteq> None \<and> common_shouldBypassWAF (sv_common s) clientIP then None
          else (case wafRouteContext r sn ro of (routeType, routeKey, upstream) \<Rightarrow>
                  Some (waf r \<lparr>wx_ClientIP = clientIP, wx_RouteType = routeType, wx_RouteKey = routeKey,
                               wx_Upstream = upstream, wx_Scheme = publicRequestScheme G r,
                               wx_RemoteAddr = rq_RemoteAddr r\<rparr>)))"

definition serve_throttled ::
    "golib \<Rightarrow> unicode \<Rightarrow> serve_env \<Rightarrow> request \<Rightarrow> request_snapshot \<Rightarrow> string \<Rightarrow> routing \<Rightarrow> server \<Rightarrow>
     served \<times> server" where
  "serve_throttled G U v r sn clientIP ro s =
     (case evaluateReverseProxyThrottleRequest (se_fl v) ro clientIP (se_throttleTime v) s of
        (d, s') \<Rightarrow>
          if \<not> td_Allowed d then (plainly Out_Abort, s')
          else (case waf_verdict G v r sn clientIP ro s' of
                  Some w \<Rightarrow>
                    if wd_Allowed w then serve_preflight G U v r sn clientIP ro s'
                    else (plainly (Out_WAF (wd_Status w) (wd_TraceID w)), s')
                | None \<Rightarrow> serve_preflight G U v r sn clientIP ro s'))"

definition ServeHTTP :: "golib \<Rightarrow> unicode \<Rightarrow> serve_env \<Rightarrow> request \<Rightarrow> server \<Rightarrow> served \<times> server" where
  "ServeHTTP G U v r0 s =
     (let sn = snapshotForRequest U (sv_gateway s);
          r = clean_request r0;
          clientIP = resolveClientIP r (sn_authConfig sn) (sn_proxyProtocolForce sn)
      in if bl_contains (sv_blacklist s) clientIP \<noteq> None then (plainly Out_Abort, s)
         else if \<not> visibility_contains (sv_visibility s) clientIP then (plainly Out_Abort, s)
         else if IsFaviconPath (u_Path (rq_URL r)) then (plainly (Out_Favicon (u_Path (rq_URL r))), s)
         else serve_throttled G U v r sn clientIP (route_request U r sn) s)"

section \<open>Where a permission comes from\<close>

lemma preflight_lookup_auth: "hc_auth (snd (preflight_lookup r lookup now h)) = hc_auth h"
  by (simp add: preflight_lookup_def split: option.split prod.split)

lemma preflight_asked_auth: "hc_auth (snd (preflight_asked r cfg lookup t reply h)) = hc_auth h"
  by (simp add: preflight_asked_def preflight_pause_def Let_def split: option.split prod.split)

lemma runPreflight_auth: "hc_auth (snd (runPreflight G U r cfg clientIP m mode t reply h)) = hc_auth h"
proof -
  have "hc_auth (snd (preflight_checked r cfg lookup t reply h)) = hc_auth h" for lookup
  proof -
    obtain o1 h1 where p1: "preflight_lookup r lookup (pk_start t) h = (o1, h1)" by fastforce
    obtain o2 h2 where p2: "preflight_lookup r lookup (pk_group t) h1 = (o2, h2)" by fastforce
    have "hc_auth h1 = hc_auth h" "hc_auth h2 = hc_auth h1"
      using preflight_lookup_auth [of r lookup "pk_start t" h] p1
        preflight_lookup_auth [of r lookup "pk_group t" h1] p2 by simp_all
    with p1 p2 show ?thesis
      by (simp add: preflight_checked_def preflight_asked_auth split: option.split)
  qed
  then show ?thesis by (simp add: runPreflight_def)
qed

text \<open>The service said yes, or a permission stored under the request's key has not expired.\<close>

definition permitted ::
    "golib \<Rightarrow> unicode \<Rightarrow> serve_env \<Rightarrow> request \<Rightarrow> auth_config \<Rightarrow> string \<Rightarrow> string \<Rightarrow> auth_entry state_cache \<Rightarrow> bool" where
  "permitted G U v r cfg clientIP mode c \<longleftrightarrow>
     (0 < ac_AuthPort cfg \<and> (\<exists>hd msg. se_authReply v = Reply hd (Some (True, msg)))) \<or>
     (\<exists>k i e. buildAuthCacheLookup G U r clientIP mode = Some (k, i) \<and> cache_look c k = Some e \<and>
        ar_allowed (ae_result e) \<and>
        (ak_start (se_authClock v) < en_expiresAt e \<or> ak_group (se_authClock v) < en_expiresAt e))"

lemma decision_not_allowed [simp]: "\<not> ar_allowed (decision_result d)"
  by (simp add: decision_result_def)

lemma entry_allowed:
  "ar_allowed (rx_result (fst (applyAuthCacheEntry r e clientIP ws now h))) \<Longrightarrow> ar_allowed (ae_result e)"
  by (auto simp: applyAuthCacheEntry_def react_def Let_def split: if_splits prod.splits)

lemma plan_allowed:
  "ar_allowed (rx_result (fst (applyAuthCheckPlan r plan clientIP ws now h))) \<Longrightarrow> ar_allowed (ap_result plan)"
  by (auto simp: applyAuthCheckPlan_def react_def Let_def split: if_splits prod.splits option.splits)

lemma perform_allowed:
  "ar_allowed (ap_result (performAuthCheck G U r cfg mode reply)) \<Longrightarrow>
     0 < ac_AuthPort cfg \<and> (\<exists>hd msg. reply = Reply hd (Some (True, msg)))"
  using auth_check_allowed [of G U r cfg mode reply]
  by (cases "ac_AuthPort cfg \<le> 0") (auto simp: performAuthCheck_def error_plan_def plain_plan_def)

lemma finish_allowed:
  "fst (auth_finish cfg r lookup plan t t' c) = Exec_Entry e \<Longrightarrow> ae_result e = ap_result plan"
  "fst (auth_finish cfg r lookup plan t t' c) = Exec_Plan plan' \<Longrightarrow> plan' = plan"
  by (auto simp: auth_finish_def plan_entry_def Let_def split: if_splits)

lemma check_permitted:
  assumes "ar_allowed (rx_result (fst (check_auth G U v r cfg clientIP mode h)))"
  shows "permitted G U v r cfg clientIP mode (hc_auth h)"
proof -
  let ?x = "executeAuthCheck G U r cfg clientIP mode (se_authClock v) (se_authReply v) h"
  let ?plan = "performAuthCheck G U r cfg mode (se_authReply v)"
  have said: "permitted G U v r cfg clientIP mode (hc_auth h)" if "ar_allowed (ap_result ?plan)"
    using perform_allowed [OF that] by (simp add: permitted_def)
  have x: "(\<exists>e. fst ?x = Exec_Entry e \<and> ar_allowed (ae_result e)) \<or>
      (\<exists>plan. fst ?x = Exec_Plan plan \<and> ar_allowed (ap_result plan))"
    using assms unfolding check_auth_def checkAuth_def
    by (cases ?x; cases "fst ?x") (auto dest: entry_allowed plan_allowed)
  show ?thesis
  proof (cases "if authCacheEnabled cfg then buildAuthCacheLookup G U r clientIP mode else None")
    case None
    with x show ?thesis by (auto simp: executeAuthCheck_def intro: said)
  next
    case (Some lookup)
    then have l: "buildAuthCacheLookup G U r clientIP mode = Some (fst lookup, snd lookup)"
      by (simp split: if_splits)
    obtain o1 c1 where p1: "auth_probe r (fst lookup) (ak_start (se_authClock v)) (hc_auth h) = (o1, c1)" by fastforce
    obtain o2 c2 where p2: "auth_probe r (fst lookup) (ak_group (se_authClock v)) c1 = (o2, c2)" by fastforce
    show ?thesis
    proof (cases o1)
      case hit: (Some e)
      with probe_hit [of r "fst lookup" "ak_start (se_authClock v)" "hc_auth h" e] p1
      have "cache_look (hc_auth h) (fst lookup) = Some e" "ak_start (se_authClock v) < en_expiresAt e" by simp_all
      moreover have "ar_allowed (ae_result e)" using x Some p1 hit by (simp add: executeAuthCheck_def)
      ultimately show ?thesis using l unfolding permitted_def by blast
    next
      case miss: None
      show ?thesis
      proof (cases o2)
        case hit: (Some e)
        with probe_hit [of r "fst lookup" "ak_group (se_authClock v)" c1 e] p2
        have "cache_look c1 (fst lookup) = Some e" and t: "ak_group (se_authClock v) < en_expiresAt e" by simp_all
        with look_probe [of r "fst lookup" "ak_start (se_authClock v)" "hc_auth h" "fst lookup" e] p1
        have "cache_look (hc_auth h) (fst lookup) = Some e" by simp
        moreover have "ar_allowed (ae_result e)" using x Some p1 p2 miss hit by (simp add: executeAuthCheck_def)
        ultimately show ?thesis using l t unfolding permitted_def by blast
      next
        case None
        let ?f = "auth_finish cfg r lookup ?plan (ak_expiry (se_authClock v)) (ak_stored (se_authClock v)) c2"
        have "fst ?x = fst ?f" using Some p1 p2 miss None by (simp add: executeAuthCheck_def split: prod.split)
        with x have "ar_allowed (ap_result ?plan)" by (auto dest: finish_allowed)
        then show ?thesis by (rule said)
      qed
    qed
  qed
qed

section \<open>Protected routes\<close>

definition route_of :: "unicode \<Rightarrow> request \<Rightarrow> server \<Rightarrow> routing" where
  "route_of U r0 s = route_request U (clean_request r0) (snapshotForRequest U (sv_gateway s))"

definition client_of :: "unicode \<Rightarrow> request \<Rightarrow> server \<Rightarrow> string" where
  "client_of U r0 s =
     (let sn = snapshotForRequest U (sv_gateway s) in
      resolveClientIP (clean_request r0) (sn_authConfig sn) (sn_proxyProtocolForce sn))"

text \<open>Answers that only visitors who are logged in may get.\<close>

definition protected_outcome :: "request_snapshot \<Rightarrow> routing \<Rightarrow> outcome \<Rightarrow> bool" where
  "protected_outcome sn ro a =
     (case a of
        Out_Host h \<Rightarrow> auth_required sn (hr_UseAuth h)
      | Out_Location h l \<Rightarrow> auth_required sn (hr_UseAuth h)
      | Out_Response resp \<Rightarrow> (case ro_hostRule ro of Some h \<Rightarrow> auth_required sn (hr_UseAuth h) | None \<Rightarrow> False)
      | Out_Path rule \<Rightarrow> auth_required sn (pr_UseAuth rule)
      | Out_Select rules hosts portal \<Rightarrow> ac_AuthURL (sn_authConfig sn) \<noteq> []
      | _ \<Rightarrow> False)"

lemma plainly_outcome [simp]: "so_outcome (plainly a) = a"
  by (simp add: plainly_def)

lemma authorised_permitted:
  assumes "authorised G U v r sn clientIP True mode toolbar out s = (sv, s')"
    and "\<nexists>a. so_outcome sv = Out_Refused a"
  shows "permitted G U v r (sn_authConfig sn) clientIP mode (hc_auth (gw_auth (sv_gateway s)))"
  using assms check_permitted [of G U v r "sn_authConfig sn" clientIP mode "gw_auth (sv_gateway s)"]
  by (auto simp: authorised_def with_auth_def served_auth_def Let_def split: prod.splits if_splits)

lemma authorised_outcome:
  assumes "authorised G U v r sn clientIP required mode toolbar out s = (sv, s')"
  shows "(\<exists>a. so_outcome sv = Out_Refused a) \<or> (\<exists>res. so_outcome sv = out res)"
  using assms
  by (auto simp: authorised_def with_auth_def served_auth_def Let_def split: prod.splits if_splits)

lemma route_protected:
  assumes "serve_route G U v r sn clientIP ro s = (sv, s')" and "protected_outcome sn ro (so_outcome sv)"
  shows "\<exists>mode. permitted G U v r (sn_authConfig sn) clientIP mode (hc_auth (gw_auth (sv_gateway s)))"
proof -
  have nr: "\<nexists>a. so_outcome sv = Out_Refused a" using assms(2) by (auto simp: protected_outcome_def)
  have slash: "ro_slash ro = []" using assms by (auto simp: serve_route_def protected_outcome_def split: if_splits)
  show ?thesis
  proof (cases "ro_isSelect ro")
    case True
    with assms slash have a: "handleSelectRoute G U v r sn clientIP s = (sv, s')" by (simp add: serve_route_def)
    with authorised_outcome [OF a [unfolded handleSelectRoute_def]] nr assms(2)
    have "ac_AuthURL (sn_authConfig sn) \<noteq> []" by (auto simp: protected_outcome_def)
    then have "ac_AuthURL (sn_authConfig sn) \<noteq> [] \<longleftrightarrow> True" by simp
    from authorised_permitted [OF a [unfolded handleSelectRoute_def this] nr] show ?thesis by (rule exI)
  next
    case ns: False
    have na: "\<not> ro_isAuth ro"
      using assms slash ns by (auto simp: serve_route_def protected_outcome_def split: if_splits)
    show ?thesis
    proof (cases "ro_hostRule ro")
      case (Some h)
      with assms slash ns na have a: "serve_host G U v r sn clientIP h (ro_location ro) s = (sv, s')"
        by (simp add: serve_route_def)
      with authorised_outcome [OF a [unfolded serve_host_def]] nr assms(2) Some
      have "auth_required sn (hr_UseAuth h)"
        by (auto simp: protected_outcome_def location_outcome_def split: option.splits if_splits)
      then have "auth_required sn (hr_UseAuth h) \<longleftrightarrow> True" by simp
      from authorised_permitted [OF a [unfolded serve_host_def this] nr] show ?thesis by (rule exI)
    next
      case nh: None
      show ?thesis
      proof (cases "ro_rule ro")
        case None
        with assms slash ns na nh show ?thesis
          by (auto simp: serve_route_def protected_outcome_def handleNoMatchRoute_def split: if_splits)
      next
        case (Some rule)
        with assms slash ns na nh have a: "serve_rule G U v r sn clientIP rule s = (sv, s')"
          by (simp add: serve_route_def)
        then have b: "authorised G U v r sn clientIP (auth_required sn (pr_UseAuth rule)) []
            (snapshotReverseProxyTargetSupportsHTMLFeatures U sn (pr_Target rule)) (\<lambda>_. Out_Path rule) s = (sv, s')"
          using assms(2) by (auto simp: serve_rule_def protected_outcome_def Let_def split: if_splits)
        with authorised_outcome [OF b] nr assms(2) have "auth_required sn (pr_UseAuth rule)"
          by (auto simp: protected_outcome_def)
        then have "auth_required sn (pr_UseAuth rule) \<longleftrightarrow> True" by simp
        from authorised_permitted [OF b [unfolded this] nr] show ?thesis by (rule exI)
      qed
    qed
  qed
qed

lemma throttle_gateway:
  "evaluateReverseProxyThrottleRequest fl ro clientIP now s = (d, s') \<Longrightarrow> sv_gateway s' = sv_gateway s"
  by (auto simp: evaluateReverseProxyThrottleRequest_def split: if_splits option.splits prod.splits)

text \<open>The gates a request has passed when it reaches its route, in their order.\<close>

definition passed_gates ::
    "golib \<Rightarrow> unicode \<Rightarrow> serve_env \<Rightarrow> request \<Rightarrow> request_snapshot \<Rightarrow> string \<Rightarrow> routing \<Rightarrow> server \<Rightarrow> server \<Rightarrow> bool" where
  "passed_gates G U v r sn clientIP ro s s2 \<longleftrightarrow>
     bl_contains (sv_blacklist s) clientIP = None \<and> visibility_contains (sv_visibility s) clientIP \<and>
     (\<exists>d1 s1. evaluateReverseProxyThrottleRequest (se_fl v) ro clientIP (se_throttleTime v) s = (d1, s1) \<and>
        td_Allowed d1 \<and> (\<forall>w. waf_verdict G v r sn clientIP ro s1 = Some w \<longrightarrow> wd_Allowed w) \<and>
        (\<exists>d2. with_auth (runPreflight G U r (sn_authConfig sn) clientIP (is_match r ro) (access_mode ro)
                (se_preflightClock v) (se_preflightReply v)) s1 = (d2, s2) \<and>
           (pd_accessDeniedReason d2 = [] \<or> ro_isAuth ro) \<and> \<not> pd_deny d2 \<and>
           pd_redirectLocation d2 = []))"

lemma serve_route_reached:
  assumes "ServeHTTP G U v r0 s = (sv, s')"
    and "so_outcome sv \<noteq> Out_Abort" "so_outcome sv \<noteq> Out_AccessDenied" "\<nexists>p. so_outcome sv = Out_Favicon p"
    and "\<nexists>c t. so_outcome sv = Out_WAF c t" "\<nexists>l. so_outcome sv = Out_Redirect 302 l"
  shows "\<exists>s2. passed_gates G U v (clean_request r0) (snapshotForRequest U (sv_gateway s)) (client_of U r0 s)
             (route_of U r0 s) s s2 \<and>
    serve_route G U v (clean_request r0) (snapshotForRequest U (sv_gateway s)) (client_of U r0 s)
             (route_of U r0 s) s2 = (sv, s')"
proof -
  let ?sn = "snapshotForRequest U (sv_gateway s)" and ?r = "clean_request r0"
  let ?ip = "client_of U r0 s" and ?ro = "route_of U r0 s"
  have g: "bl_contains (sv_blacklist s) ?ip = None" "visibility_contains (sv_visibility s) ?ip"
    and t: "serve_throttled G U v ?r ?sn ?ip ?ro s = (sv, s')"
    using assms by (auto simp: ServeHTTP_def client_of_def route_of_def Let_def split: if_splits)
  obtain d1 s1 where th: "evaluateReverseProxyThrottleRequest (se_fl v) ?ro ?ip (se_throttleTime v) s = (d1, s1)"
    by fastforce
  have a: "td_Allowed d1" using t th assms(2) by (auto simp: serve_throttled_def split: if_splits)
  have w: "\<forall>w. waf_verdict G v ?r ?sn ?ip ?ro s1 = Some w \<longrightarrow> wd_Allowed w"
    and p: "serve_preflight G U v ?r ?sn ?ip ?ro s1 = (sv, s')"
    using t th a assms(5) by (auto simp: serve_throttled_def split: option.splits if_splits)
  obtain d2 s2 where pf: "with_auth (runPreflight G U ?r (sn_authConfig ?sn) ?ip (is_match ?r ?ro) (access_mode ?ro)
      (se_preflightClock v) (se_preflightReply v)) s1 = (d2, s2)" by fastforce
  have d: "pd_accessDeniedReason d2 = [] \<or> ro_isAuth ?ro" "\<not> pd_deny d2" "pd_redirectLocation d2 = []"
    and r: "serve_route G U v ?r ?sn ?ip ?ro s2 = (sv, s')"
    using p pf assms(2,3,6) by (auto simp: serve_preflight_def split: if_splits)
  show ?thesis unfolding passed_gates_def using g th a w pf d r by blast
qed

text \<open>C2: the gates.
  A request that reaches a route comes from an address that is neither blacklisted nor outside the
  visible networks, was not throttled, was not rejected by the firewall, and was neither denied nor
  sent elsewhere by the preflight, save that the login pages stay open to visitors the preflight
  denies access; a blacklisted or invisible client changes nothing.\<close>

theorem gates_in_order:
  assumes "ServeHTTP G U v r0 s = (sv, s')"
  shows "(so_outcome sv \<in> {Out_Abort, Out_AccessDenied} \<or> (\<exists>p. so_outcome sv = Out_Favicon p) \<or>
      (\<exists>c t. so_outcome sv = Out_WAF c t) \<or> (\<exists>l. so_outcome sv = Out_Redirect 302 l) \<or>
      (\<exists>s2. passed_gates G U v (clean_request r0) (snapshotForRequest U (sv_gateway s)) (client_of U r0 s)
             (route_of U r0 s) s s2)) \<and>
    (bl_contains (sv_blacklist s) (client_of U r0 s) \<noteq> None \<or>
      \<not> visibility_contains (sv_visibility s) (client_of U r0 s) \<longrightarrow> so_outcome sv = Out_Abort \<and> s' = s)"
proof (intro conjI impI)
  show "so_outcome sv \<in> {Out_Abort, Out_AccessDenied} \<or> (\<exists>p. so_outcome sv = Out_Favicon p) \<or>
      (\<exists>c t. so_outcome sv = Out_WAF c t) \<or> (\<exists>l. so_outcome sv = Out_Redirect 302 l) \<or>
      (\<exists>s2. passed_gates G U v (clean_request r0) (snapshotForRequest U (sv_gateway s)) (client_of U r0 s)
             (route_of U r0 s) s s2)"
    using serve_route_reached [OF assms] by blast
qed (use assms in \<open>auto simp: ServeHTTP_def client_of_def Let_def split: if_splits\<close>)

text \<open>C1: protected routes.
  What a rule protects by a login is served only when the authentication service granted this very
  request, or a permission it granted earlier is stored under the request's cache key when the
  request arrives and has not expired.\<close>

theorem protected_routes:
  assumes "ServeHTTP G U v r0 s = (sv, s')"
    and "protected_outcome (snapshotForRequest U (sv_gateway s)) (route_of U r0 s) (so_outcome sv)"
  shows "\<exists>mode. permitted G U v (clean_request r0) (sn_authConfig (snapshotForRequest U (sv_gateway s)))
     (client_of U r0 s) mode (hc_auth (gw_auth (sv_gateway s)))"
proof -
  have "so_outcome sv \<noteq> Out_Abort" "so_outcome sv \<noteq> Out_AccessDenied" "\<nexists>p. so_outcome sv = Out_Favicon p"
    "\<nexists>c t. so_outcome sv = Out_WAF c t" "\<nexists>l. so_outcome sv = Out_Redirect 302 l"
    using assms(2) by (auto simp: protected_outcome_def)
  from serve_route_reached [OF assms(1) this] obtain s2 where
    g: "passed_gates G U v (clean_request r0) (snapshotForRequest U (sv_gateway s)) (client_of U r0 s)
       (route_of U r0 s) s s2" and
    r: "serve_route G U v (clean_request r0) (snapshotForRequest U (sv_gateway s)) (client_of U r0 s)
       (route_of U r0 s) s2 = (sv, s')" by blast
  from g obtain d1 s1 d2 where
    t: "evaluateReverseProxyThrottleRequest (se_fl v) (route_of U r0 s) (client_of U r0 s) (se_throttleTime v) s = (d1, s1)"
    and p: "with_auth (runPreflight G U (clean_request r0) (sn_authConfig (snapshotForRequest U (sv_gateway s)))
      (client_of U r0 s) (is_match (clean_request r0) (route_of U r0 s)) (access_mode (route_of U r0 s))
      (se_preflightClock v) (se_preflightReply v)) s1 = (d2, s2)"
    unfolding passed_gates_def by blast
  have "hc_auth (gw_auth (sv_gateway s2)) = hc_auth (gw_auth (sv_gateway s1))"
    using p runPreflight_auth by (auto simp: with_auth_def split: prod.splits) (metis snd_conv)
  with throttle_gateway [OF t] route_protected [OF r assms(2)] show ?thesis by simp
qed

section \<open>An example\<close>

definition example_rule :: path_rule where
  "example_rule = \<lparr>pr_Path = ''/app'', pr_Target = ''http://10.0.0.1'', pr_UseAuth = True, pr_StripPath = True,
     pr_RewriteHTML = False, pr_UseRootMode = False\<rparr>"

definition example_server :: server where
  "example_server =
     \<lparr>sv_gateway = (empty_gateway plain_unicode)\<lparr>gw_Rules := [example_rule],
        gw_AuthConfig := plain_config\<lparr>ac_AuthPort := 79\<rparr>, gw_requestState := None\<rparr>,
      sv_blacklist = None, sv_visibility = None, sv_throttle = None, sv_exempt = None, sv_common = None\<rparr>"

definition example_env :: serve_env where
  "example_env =
     \<lparr>se_fl = (\<lambda>x. x), se_waf = None, se_throttleTime = 0,
      se_preflightClock = \<lparr>pk_start = 0, pk_group = 0, pk_done = 0, pk_stored = 0\<rparr>,
      se_preflightReply = Preflight_Reply [],
      se_authClock = \<lparr>ak_start = 0, ak_group = 0, ak_expiry = 0, ak_stored = 0\<rparr>,
      se_authReply = Reply [] (Some (True, [])), se_wsFailed = False, se_authDone = 0\<rparr>"

definition example_request :: request where
  "example_request = plain_request\<lparr>rq_URL := zero_url\<lparr>u_Path := ''/app/x''\<rparr>\<rparr>"

lemma granted_allowed:
  assumes "\<not> authCacheEnabled cfg" and "ap_errorPage (performAuthCheck G U r cfg mode (se_authReply v)) = None"
    and "ar_allowed (ap_result (performAuthCheck G U r cfg mode (se_authReply v)))"
  shows "ar_allowed (rx_result (fst (check_auth G U v r cfg clientIP mode h)))"
  using assms
  by (simp add: check_auth_def checkAuth_def executeAuthCheck_def applyAuthCheckPlan_def react_def Let_def)

lemma example_required:
  "auth_required (snapshotForRequest plain_unicode (sv_gateway example_server)) (pr_UseAuth example_rule)"
  by code_simp

lemma example_served:
  "so_outcome (fst (ServeHTTP plain_golib plain_unicode example_env example_request example_server)) = Out_Path example_rule"
proof -
  let ?sn = "snapshotForRequest plain_unicode (sv_gateway example_server)"
  let ?r = "clean_request example_request" and ?ro = "route_of plain_unicode example_request example_server"
  let ?ip = "client_of plain_unicode example_request example_server" and ?cfg = "sn_authConfig ?sn"
  have sv: "sv_blacklist example_server = None" "sv_visibility example_server = None"
    "sv_throttle example_server = None" "se_waf example_env = None"
    by (simp_all add: example_server_def example_env_def)
  have "(let ro = ?ro in (ro_slash ro, ro_isSelect ro, ro_isAuth ro, ro_hostRule ro, ro_rule ro)) =
      ([], False, False, None, Some example_rule)" by code_simp
  then have ro: "ro_slash ?ro = []" "\<not> ro_isSelect ?ro" "\<not> ro_isAuth ?ro" "ro_hostRule ?ro = None"
    "ro_rule ?ro = Some example_rule" by (simp_all add: Let_def)
  have f: "\<not> IsFaviconPath (u_Path (rq_URL ?r))" by code_simp
  have c: "\<not> authCacheEnabled ?cfg" by code_simp
  have a: "ap_errorPage (performAuthCheck plain_golib plain_unicode ?r ?cfg [] (se_authReply example_env)) = None"
    "ar_allowed (ap_result (performAuthCheck plain_golib plain_unicode ?r ?cfg [] (se_authReply example_env)))"
    by code_simp+
  have q: "auth_required ?sn (pr_UseAuth example_rule)" by (rule example_required)
  have n: "\<not> (pr_UseRootMode example_rule)" by code_simp
  obtain d2 s2 where p: "with_auth (runPreflight plain_golib plain_unicode ?r ?cfg ?ip (is_match ?r ?ro) (access_mode ?ro)
      (se_preflightClock example_env) (se_preflightReply example_env)) example_server = (d2, s2)" by fastforce
  have "fst (with_auth (runPreflight plain_golib plain_unicode ?r ?cfg ?ip (is_match ?r ?ro) (access_mode ?ro)
      (se_preflightClock example_env) (se_preflightReply example_env)) example_server) = no_decision" by code_simp
  with p have d: "pd_accessDeniedReason d2 = []" "\<not> pd_deny d2" "pd_redirectLocation d2 = []"
    by (simp_all add: no_decision_def)
  have w: "waf_verdict plain_golib example_env ?r ?sn ?ip ?ro example_server = None"
    by (simp add: waf_verdict_def sv)
  have t: "evaluateReverseProxyThrottleRequest (se_fl example_env) ?ro ?ip (se_throttleTime example_env) example_server =
      (open_decision, example_server)" "td_Allowed open_decision"
    by (simp_all add: evaluateReverseProxyThrottleRequest_def sv open_decision_def)
  have r: "so_outcome (fst (serve_rule plain_golib plain_unicode example_env ?r ?sn ?ip example_rule s2)) = Out_Path example_rule"
  proof -
    obtain rx h' where x: "check_auth plain_golib plain_unicode example_env ?r ?cfg ?ip [] (gw_auth (sv_gateway s2)) = (rx, h')"
      by fastforce
    have "ar_allowed (rx_result rx)" using granted_allowed [OF c a, of ?ip "gw_auth (sv_gateway s2)"] x by simp
    with x q n show ?thesis by (simp add: serve_rule_def authorised_def with_auth_def served_auth_def Let_def)
  qed
  have "ServeHTTP plain_golib plain_unicode example_env example_request example_server =
      serve_throttled plain_golib plain_unicode example_env ?r ?sn ?ip ?ro example_server"
    unfolding ServeHTTP_def client_of_def route_of_def Let_def
    using f by (simp add: sv bl_contains_def visibility_contains_def split: option.split)
  also have "\<dots> = serve_rule plain_golib plain_unicode example_env ?r ?sn ?ip example_rule s2"
    using t w p d ro by (simp add: serve_throttled_def serve_preflight_def serve_route_def)
  finally show ?thesis using r by simp
qed

theorem protected_routes_witness:
  "\<exists>mode. permitted plain_golib plain_unicode example_env (clean_request example_request)
     (sn_authConfig (snapshotForRequest plain_unicode (sv_gateway example_server)))
     (client_of plain_unicode example_request example_server) mode (hc_auth (gw_auth (sv_gateway example_server)))"
proof -
  obtain sv s' where e: "ServeHTTP plain_golib plain_unicode example_env example_request example_server = (sv, s')"
    by fastforce
  have "protected_outcome (snapshotForRequest plain_unicode (sv_gateway example_server))
      (route_of plain_unicode example_request example_server) (Out_Path example_rule)"
    using example_required by (simp add: protected_outcome_def)
  with e example_served protected_routes [OF e] show ?thesis by simp
qed

theorem gates_in_order_witness:
  "\<exists>s2. passed_gates plain_golib plain_unicode example_env (clean_request example_request)
     (snapshotForRequest plain_unicode (sv_gateway example_server))
     (client_of plain_unicode example_request example_server)
     (route_of plain_unicode example_request example_server) example_server s2"
proof -
  obtain sv s' where e: "ServeHTTP plain_golib plain_unicode example_env example_request example_server = (sv, s')"
    by fastforce
  with example_served gates_in_order [OF e] show ?thesis by simp
qed

end
