(* ===== verification/Responses.thy ===== *)
theory Responses
  imports FnosIcons HtmlRewrite Serve
begin

text \<open>
  The three proxying handlers as a whole (\<^verbatim>\<open>proxyToRuleTarget\<close>, \<^verbatim>\<open>proxyToHostTarget\<close>,
  \<^verbatim>\<open>proxyToHostLocationTarget\<close> of \<^verbatim>\<open>proxy/handler.go\<close>): what is asked of which upstream, and
  what becomes of its answer. The upstream's answer, the toolbar's HTML and \<^verbatim>\<open>encoding/json\<close> are
  arguments.
\<close>

record response =
  rp_Status :: int
  rp_Header :: header
  rp_Body :: string
  rp_ContentLength :: int

section \<open>The cookie of the root mode\<close>

text \<open>\<^verbatim>\<open>http.ParseSetCookie\<close>, of which the name is used, and \<^verbatim>\<open>Cookie.String\<close>.\<close>

definition set_cookie_name :: "string \<Rightarrow> string option" where
  "set_cookie_name line =
     (let part = trim_set (fst (cut_byte CHR '';'' (trim_set line http_blanks))) http_blanks in
      case cut_byte CHR ''='' part of (name0, v, found) \<Rightarrow>
        let name = trim_set name0 http_blanks in
        if \<not> found \<or> \<not> valid_field_name name \<or> parseCanonicalCookieValue v = None then None else Some name)"

definition cookie_value_text :: "string \<Rightarrow> string" where
  "cookie_value_text v0 =
     (let v = filter validCanonicalCookieValueByte v0 in
      if CHR '' '' \<in> set v \<or> CHR '','' \<in> set v then CHR 0x22 # v @ [CHR 0x22] else v)"

definition isProxyPathSetCookie :: "string \<Rightarrow> bool" where
  "isProxyPathSetCookie v =
     (case set_cookie_name v of
        Some name \<Rightarrow> name = proxyPathCookieName
      | None \<Rightarrow> (case cut_byte CHR ''='' v of (name, _, found) \<Rightarrow> found \<and> trim_space name = proxyPathCookieName))"

definition stripProxyPathSetCookies :: "header \<Rightarrow> header" where
  "stripProxyPathSetCookies h =
     (let vs = header_values h ''Set-Cookie'' in
      if vs = [] then h
      else foldl (\<lambda>h v. if isProxyPathSetCookie v then h else header_add ''Set-Cookie'' v h)
             (header_del ''Set-Cookie'' h) vs)"

definition addProxyPathCookieIfChanged :: "request \<Rightarrow> string \<Rightarrow> response \<Rightarrow> response" where
  "addProxyPathCookieIfChanged r proxyPath resp =
     (if trim_space proxyPath = [] then resp
      else
        (let h = stripProxyPathSetCookies (rp_Header resp) in
         if request_cookie r proxyPathCookieName = Some proxyPath then resp\<lparr>rp_Header := h\<rparr>
         else resp\<lparr>rp_Header := header_add ''Set-Cookie''
                (proxyPathCookieName @ ''='' @ cookie_value_text proxyPath @ ''; Path=/'') h\<rparr>))"

section \<open>The service list in an answer\<close>

definition resetFnosPortIconHijackResponseBody :: "string \<Rightarrow> response \<Rightarrow> response" where
  "resetFnosPortIconHijackResponseBody body resp =
     resp\<lparr>rp_Body := body, rp_ContentLength := int (length body),
          rp_Header := header_set ''Content-Length'' (itoa (int (length body))) (rp_Header resp)\<rparr>"

record icon_env =
  ic_enabled :: bool
  ic_endpoint :: icon_endpoint
  ic_json :: json_lib

definition maybeRewriteFnosPortIconHijackHTTPResponse ::
    "unicode \<Rightarrow> icon_env \<Rightarrow> url \<Rightarrow> host_rule list \<Rightarrow> response \<Rightarrow> response" where
  "maybeRewriteFnosPortIconHijackHTTPResponse U E u hostRules resp =
     (if \<not> shouldHijackFnosPortIconHijackServiceList (ic_enabled E) u then resp
      else
        (let targets = buildFnosPortIconHijackTargets U hostRules in
         if targets = [] then resp
         else (case rewriteFnosPortIconHijackMessage U (ic_json E) (rp_Body resp) targets (ic_endpoint E) of
                 (rewritten, changed) \<Rightarrow>
                   if \<not> changed then resetFnosPortIconHijackResponseBody (rp_Body resp) resp
                   else (let resp' = resetFnosPortIconHijackResponseBody rewritten resp in
                         resp'\<lparr>rp_Header := header_del ''ETag'' (header_del ''Content-MD5''
                                 (header_del ''Content-Encoding'' (rp_Header resp')))\<rparr>))))"

section \<open>Pages\<close>

definition prefix_redirect :: "string \<Rightarrow> response \<Rightarrow> response" where
  "prefix_redirect pre resp =
     (let location = header_get (rp_Header resp) ''Location'' in
      if hasPrefix location ''/'' then resp\<lparr>rp_Header := header_set ''Location'' (pre @ location) (rp_Header resp)\<rparr>
      else resp)"

text \<open>The part the three \<^verbatim>\<open>ModifyResponse\<close> functions share; a host rule never rewrites.\<close>

definition rewrite_page :: "bool \<Rightarrow> bool \<Rightarrow> string \<Rightarrow> string \<Rightarrow> response \<Rightarrow> response" where
  "rewrite_page needsRewrite needsToolbar path toolbar resp =
     (if \<not> needsRewrite \<and> \<not> needsToolbar then resp
      else
        (let resp = (if needsRewrite then prefix_redirect path resp else resp) in
         if \<not> isHTMLContentType (header_get (rp_Header resp) ''Content-Type'') then resp
         else
           (let b = rp_Body resp;
                b = (if needsRewrite then rewriteHTMLAbsolutePaths b (trimSuffix path ''/'') else b);
                b = (if needsToolbar then injectToolbarIntoHTMLBytes b toolbar else b)
            in resp\<lparr>rp_Body := b, rp_ContentLength := int (length b),
                    rp_Header := header_set ''Content-Length'' (itoa (int (length b))) (rp_Header resp)\<rparr>)))"

definition rule_response ::
    "unicode \<Rightarrow> icon_env \<Rightarrow> request \<Rightarrow> request_snapshot \<Rightarrow> path_rule \<Rightarrow> url \<Rightarrow> bool \<Rightarrow> bool \<Rightarrow> string \<Rightarrow>
     response \<Rightarrow> response" where
  "rule_response U E r sn rule u html toolbarCandidate toolbar resp =
     rewrite_page (html \<and> pr_RewriteHTML rule \<and> \<not> pr_UseRootMode rule) toolbarCandidate (pr_Path rule) toolbar
       (maybeRewriteFnosPortIconHijackHTTPResponse U E u (sn_hostRules sn)
          (addProxyPathCookieIfChanged r (pr_Path rule) resp))"

text \<open>A host rule for the authentication service itself keeps the caches in step with its cookies.\<close>

definition is_auth_host :: "unicode \<Rightarrow> request_snapshot \<Rightarrow> host_rule \<Rightarrow> bool" where
  "is_auth_host U sn h =
     (ac_AuthHost (sn_authConfig sn) \<noteq> [] \<and> normalizeRequestHost U (hr_Host h) = ac_AuthHost (sn_authConfig sn))"

definition auth_host_response ::
    "unicode \<Rightarrow> request \<Rightarrow> request_snapshot \<Rightarrow> string \<Rightarrow> host_rule \<Rightarrow> response \<Rightarrow> auth_handler \<Rightarrow>
     response \<times> auth_handler" where
  "auth_host_response U r sn clientIP h resp a =
     (if \<not> is_auth_host U sn h then (resp, a)
      else
        (let resp' = (if shouldDisableAuthResponseCaching (u_Path (rq_URL r))
                      then resp\<lparr>rp_Header := applyNoStoreCacheHeaders (rp_Header resp)\<rparr> else resp)
         in (resp', authCacheInvalidateForSetCookieMutation r clientIP
                      (header_values (rp_Header resp') ''Set-Cookie'') a)))"

definition host_response ::
    "unicode \<Rightarrow> icon_env \<Rightarrow> request \<Rightarrow> request_snapshot \<Rightarrow> string \<Rightarrow> host_rule \<Rightarrow> url \<Rightarrow> bool \<Rightarrow> string \<Rightarrow>
     response \<Rightarrow> auth_handler \<Rightarrow> response \<times> auth_handler" where
  "host_response U E r sn clientIP h u toolbarCandidate toolbar resp a =
     (case auth_host_response U r sn clientIP h resp a of
        (resp', a') \<Rightarrow>
          (rewrite_page False toolbarCandidate [] toolbar
             (maybeRewriteFnosPortIconHijackHTTPResponse U E u (sn_hostRules sn) resp'), a'))"

definition location_reply ::
    "unicode \<Rightarrow> icon_env \<Rightarrow> request \<Rightarrow> request_snapshot \<Rightarrow> string \<Rightarrow> host_rule \<Rightarrow> host_location \<Rightarrow> url \<Rightarrow> bool \<Rightarrow>
     bool \<Rightarrow> string \<Rightarrow> response \<Rightarrow> auth_handler \<Rightarrow> response \<times> auth_handler" where
  "location_reply U E r sn clientIP h l u html toolbarCandidate toolbar resp a =
     (case auth_host_response U r sn clientIP h resp a of
        (resp', a') \<Rightarrow>
          (rewrite_page (html \<and> hl_RewriteHTML l) toolbarCandidate (hl_Path l) toolbar
             (maybeRewriteFnosPortIconHijackHTTPResponse U E u (sn_hostRules sn) resp'), a'))"

section \<open>The request side\<close>

record proxy_policies =
  pp_forwarded :: "policy_runtime option"
  pp_preserve :: "policy_runtime option"

definition shouldOmitForwardedHeaders :: "unicode \<Rightarrow> proxy_policies \<Rightarrow> url \<Rightarrow> bool" where
  "shouldOmitForwardedHeaders U p target =
     (case pp_forwarded p of None \<Rightarrow> False | Some c \<Rightarrow> shouldOmit U c target)"

definition shouldOmitPreserveHost :: "unicode \<Rightarrow> proxy_policies \<Rightarrow> url \<Rightarrow> bool" where
  "shouldOmitPreserveHost U p target =
     (case pp_preserve p of None \<Rightarrow> False | Some c \<Rightarrow> shouldOmit U c target)"

definition toolbar_candidate :: "request \<Rightarrow> request_snapshot \<Rightarrow> bool \<Rightarrow> bool \<Rightarrow> auth_result \<Rightarrow> bool" where
  "toolbar_candidate r sn html suppressed res =
     (html \<and> gp_Enabled (sn_gatewayPortal sn) \<and> ar_authenticated res \<and> \<not> suppressed \<and> \<not> ar_suppressToolbar res \<and>
      \<not> ShouldSuppressToolbarForUserAgent (header_get (rq_Header r) ''User-Agent''))"

definition shouldProxyFnosPortIconHijackWebSocket :: "bool \<Rightarrow> request \<Rightarrow> bool" where
  "shouldProxyFnosPortIconHijackWebSocket enabled r =
     (if \<not> isFNAppWebSocketRequest r then False
      else if cleanFnosPortIconHijackPath (u_Path (rq_URL r)) \<noteq> ''/websocket'' then False
      else
        (let ty = trim_space (case values_get_all (fst (parse_query (u_RawQuery (rq_URL r)))) ''type'' of
                                v # _ \<Rightarrow> v | [] \<Rightarrow> []) in
         if ty \<noteq> [] \<and> \<not> equal_fold ty ''main'' then False else enabled))"

datatype proxied =
    Px_InvalidTarget
  | Px_WebSocket url header
  | Px_Request upstream_request

definition maybeProxyFnosPortIconHijackWebSocket ::
    "unicode \<Rightarrow> proxy_env \<Rightarrow> request \<Rightarrow> request_snapshot \<Rightarrow> bool" where
  "maybeProxyFnosPortIconHijackWebSocket U E r sn =
     (shouldProxyFnosPortIconHijackWebSocket (px_fnos E) r \<and>
      buildFnosPortIconHijackTargets U (sn_hostRules sn) \<noteq> [])"

definition no_basic_auth :: basic_auth where
  "no_basic_auth = \<lparr>ba_Enabled = False, ba_Username = [], ba_Password = []\<rparr>"

definition websocket_dialogue ::
    "golib \<Rightarrow> unicode \<Rightarrow> proxy_env \<Rightarrow> request \<Rightarrow> string \<Rightarrow> bool \<Rightarrow> bool \<Rightarrow> basic_auth \<Rightarrow> string option \<Rightarrow> url \<Rightarrow>
     hint_state \<Rightarrow> proxied \<times> hint_state" where
  "websocket_dialogue G U E r clientIP omit preserveHost basicAuth strip target s =
     (let u = buildFnosPortIconHijackWebSocketURL U target (rq_URL r) (strip \<noteq> None)
                (case strip of Some p \<Rightarrow> p | None \<Rightarrow> []) in
      case buildFnosPortIconHijackWebSocketHeader G U E r clientIP omit preserveHost basicAuth (\<not> preserveHost)
             strip target u s of
        (h, s') \<Rightarrow> (Px_WebSocket u h, s'))"

definition proxyToRuleTarget ::
    "golib \<Rightarrow> unicode \<Rightarrow> proxy_env \<Rightarrow> proxy_policies \<Rightarrow> request \<Rightarrow> header \<Rightarrow> request_snapshot \<Rightarrow> path_rule \<Rightarrow>
     string \<Rightarrow> auth_result \<Rightarrow> hint_state \<Rightarrow> proxied \<times> hint_state" where
  "proxyToRuleTarget G U E P r out sn rule clientIP res s =
     (let rt = reverseProxyTargetRuntimeFor U sn (pr_Target rule) in
      case rt_transportURL rt of
        None \<Rightarrow> (Px_InvalidTarget, s)
      | Some target \<Rightarrow>
          (let preserveHost = (\<not> shouldOmitPreserveHost U P target);
               html = rt_supportsHTMLFeatures rt;
               toolbar = toolbar_candidate r sn html False res
           in if maybeProxyFnosPortIconHijackWebSocket U E r sn
              then websocket_dialogue G U E r clientIP False preserveHost no_basic_auth
                     (if pr_StripPath rule then Some (pr_Path rule) else None) target s
              else (case rewrite_to_rule G U E r out clientIP rule target preserveHost html toolbar s of
                      (q, s') \<Rightarrow> (Px_Request q, s'))))"

definition proxyToHostTarget ::
    "golib \<Rightarrow> unicode \<Rightarrow> proxy_env \<Rightarrow> proxy_policies \<Rightarrow> request \<Rightarrow> header \<Rightarrow> request_snapshot \<Rightarrow> host_rule \<Rightarrow>
     string \<Rightarrow> auth_result \<Rightarrow> hint_state \<Rightarrow> proxied \<times> hint_state" where
  "proxyToHostTarget G U E P r out sn h clientIP res s =
     (let rt = reverseProxyTargetRuntimeFor U sn (hr_Target h) in
      case rt_transportURL rt of
        None \<Rightarrow> (Px_InvalidTarget, s)
      | Some target \<Rightarrow>
          (let omit = shouldOmitForwardedHeaders U P target;
               preserveHost = (hr_PreserveHost h \<and> \<not> shouldOmitPreserveHost U P target);
               toolbar = toolbar_candidate r sn (rt_supportsHTMLFeatures rt) (hr_SuppressToolbar h) res
           in if maybeProxyFnosPortIconHijackWebSocket U E r sn
              then websocket_dialogue G U E r clientIP omit preserveHost (hr_BasicAuth h) None target s
              else (case rewrite_to_host G U E r out clientIP omit h target preserveHost toolbar s of
                      (q, s') \<Rightarrow> (Px_Request q, s'))))"

definition proxyToHostLocationTarget ::
    "golib \<Rightarrow> unicode \<Rightarrow> proxy_env \<Rightarrow> proxy_policies \<Rightarrow> request \<Rightarrow> header \<Rightarrow> request_snapshot \<Rightarrow> host_rule \<Rightarrow>
     host_location \<Rightarrow> string \<Rightarrow> auth_result \<Rightarrow> hint_state \<Rightarrow> proxied \<times> hint_state" where
  "proxyToHostLocationTarget G U E P r out sn h l clientIP res s =
     (let rt = reverseProxyTargetRuntimeFor U sn (hl_Target l) in
      case rt_transportURL rt of
        None \<Rightarrow> (Px_InvalidTarget, s)
      | Some target \<Rightarrow>
          (let omit = shouldOmitForwardedHeaders U P target;
               preserveHost = (hr_PreserveHost h \<and> \<not> shouldOmitPreserveHost U P target);
               html = rt_supportsHTMLFeatures rt;
               toolbar = toolbar_candidate r sn html (hr_SuppressToolbar h) res
           in if maybeProxyFnosPortIconHijackWebSocket U E r sn
              then websocket_dialogue G U E r clientIP omit preserveHost (hr_BasicAuth h)
                     (if hl_StripPath l then Some (hl_Path l) else None) target s
              else (case rewrite_to_location G U E r out clientIP omit h l target preserveHost html toolbar s of
                      (q, s') \<Rightarrow> (Px_Request q, s'))))"

section \<open>The cookie is read back\<close>

lemma trim_set_id:
  assumes "s \<noteq> []" and "hd s \<notin> set cs" and "last s \<notin> set cs"
  shows "trim_set s cs = s"
proof -
  have "dropWhile (\<lambda>c. c \<in> set cs) s = s" using assms by (cases s) simp_all
  moreover have "dropWhile (\<lambda>c. c \<in> set cs) (rev s) = rev s"
    using assms by (cases s rule: rev_cases) simp_all
  ultimately show ?thesis by (simp add: trim_set_def)
qed

lemma proxy_path_name:
  "valid_field_name proxyPathCookieName" "CHR '';'' \<notin> set proxyPathCookieName"
  "CHR ''='' \<notin> set proxyPathCookieName" "trim_set proxyPathCookieName http_blanks = proxyPathCookieName"
  by code_simp+

lemma proxy_path_name_ends: "proxyPathCookieName \<noteq> []" "hd proxyPathCookieName \<notin> set http_blanks"
  by code_simp+

lemma valid_byte_not_special:
  "validCanonicalCookieValueByte c \<Longrightarrow> c \<noteq> CHR '';'' \<and> c \<noteq> CHR 0x22 \<and> (c \<noteq> CHR '' '' \<longrightarrow> c \<notin> set http_blanks)"
  by (auto simp: validCanonicalCookieValueByte_def http_blanks_def byte_def)

lemma cookie_text_chars:
  shows "CHR '';'' \<notin> set (cookie_value_text p)"
    and "cookie_value_text p \<noteq> [] \<Longrightarrow> last (cookie_value_text p) \<notin> set http_blanks"
    and "parseCanonicalCookieValue (cookie_value_text p) = Some (filter validCanonicalCookieValueByte p)"
proof -
  let ?v = "filter validCanonicalCookieValueByte p"
  have v: "\<forall>c \<in> set ?v. validCanonicalCookieValueByte c" by simp
  show "CHR '';'' \<notin> set (cookie_value_text p)"
    using valid_byte_not_special by (auto simp: cookie_value_text_def Let_def)
  show "last (cookie_value_text p) \<notin> set http_blanks" if "cookie_value_text p \<noteq> []"
  proof (cases "CHR '' '' \<in> set ?v \<or> CHR '','' \<in> set ?v")
    case True
    then show ?thesis by (simp add: cookie_value_text_def http_blanks_def)
  next
    case False
    then have t: "cookie_value_text p = ?v" by (auto simp: cookie_value_text_def Let_def)
    have "last ?v \<in> set ?v" using that unfolding t by (rule last_in_set)
    with False valid_byte_not_special [of "last ?v"] v show ?thesis unfolding t by metis
  qed
  have q: "hd ?v \<noteq> CHR 0x22" if "?v \<noteq> []"
    using hd_in_set [OF that] v valid_byte_not_special by blast
  show "parseCanonicalCookieValue (cookie_value_text p) = Some ?v"
  proof (cases "CHR '' '' \<in> set ?v \<or> CHR '','' \<in> set ?v")
    case True
    then have t: "cookie_value_text p = CHR 0x22 # ?v @ [CHR 0x22]" by (simp add: cookie_value_text_def)
    have "byte (CHR 0x22) = 34" by (simp add: byte_def)
    with v show ?thesis
      unfolding t parseCanonicalCookieValue_def Let_def by (simp add: list_all_iff)
  next
    case False
    then have t: "cookie_value_text p = ?v" by (auto simp: cookie_value_text_def Let_def)
    have "byte (hd ?v) \<noteq> 34" if "?v \<noteq> []"
    proof
      assume "byte (hd ?v) = 34"
      then have "byte (hd ?v) = byte (CHR 0x22)" by (simp add: byte_def)
      with q [OF that] show False by (simp only: byte_inj)
    qed
    then have n: "\<not> (1 < length ?v \<and> byte (hd ?v) = 34 \<and> byte (last ?v) = 34)"
      by (cases "?v = []") (simp_all only: list.size(3) not_one_less_zero simp_thms not_False_eq_True)
    show ?thesis
      unfolding t parseCanonicalCookieValue_def Let_def if_not_P [OF n] using v by (simp add: list_all_iff)
  qed
qed

lemma read_proxy_path_cookie:
  assumes "cookie_headers r = [proxyPathCookieName @ CHR ''='' # cookie_value_text p]"
  shows "request_cookie r proxyPathCookieName = Some (filter validCanonicalCookieValueByte p)"
proof -
  let ?h = "proxyPathCookieName @ CHR ''='' # cookie_value_text p"
  have sc: "CHR '';'' \<notin> set ?h" using proxy_path_name cookie_text_chars(1) by simp
  have trim: "trim_set ?h http_blanks = ?h"
    using proxy_path_name_ends cookie_text_chars(2) [of p]
    by (intro trim_set_id) (auto simp: http_blanks_def)
  have read: "read_cookie proxyPathCookieName ?h = Some (filter validCanonicalCookieValueByte p)"
    unfolding read_cookie_def Let_def trim
    by (simp add: cut_byte_append proxy_path_name cookie_text_chars(3))
  have "count_byte ?h CHR '';'' = 0" using sc by (simp add: count_byte_def)
  then show ?thesis
    unfolding request_cookie_def assms
    by (simp add: trim split_byte_atom [OF sc] read defaultCookieMaxNum_def List.map_filter_simps)
qed

text \<open>The cookie that selects a rule in root mode.
  A client that sends the cookie back as it was set names the path of the rule without the bytes
  cookies cannot carry: the rule is found again exactly when its path has no such byte, no
  letter outside of ASCII for instance. Otherwise the cookie is set with every answer again.\<close>

theorem root_mode_cookie:
  assumes "cookie_headers r = [proxyPathCookieName @ CHR ''='' # cookie_value_text (pr_Path rule)]"
    and "List.find (\<lambda>x. pr_Path x = pr_Path rule) rules = Some rule" and "trim_space (pr_Path rule) \<noteq> []"
    and "sn = buildRequestSnapshot U rules hosts route cfg portal force"
  shows "(matchRuleFromProxyPathCookie r sn = Some rule \<longleftrightarrow> list_all validCanonicalCookieValueByte (pr_Path rule)) \<and>
    header_values (rp_Header (addProxyPathCookieIfChanged r (pr_Path rule) resp)) ''Set-Cookie'' =
      header_values (stripProxyPathSetCookies (rp_Header resp)) ''Set-Cookie'' @
      (if list_all validCanonicalCookieValueByte (pr_Path rule) then []
       else [proxyPathCookieName @ ''='' @ cookie_value_text (pr_Path rule) @ ''; Path=/''])"
proof -
  let ?p = "pr_Path rule"
  let ?v = "filter validCanonicalCookieValueByte ?p"
  have c: "request_cookie r proxyPathCookieName = Some ?v" by (rule read_proxy_path_cookie [OF assms(1)])
  have v: "?v = ?p \<longleftrightarrow> list_all validCanonicalCookieValueByte ?p"
    by (metis filter_id_conv list_all_iff)
  have "trim_space ([] :: string) = []" by code_simp
  then have ne: "?p \<noteq> []" using assms(3) by metis
  have byPath: "al_get (sn_rulesByPath sn) q = (if q = [] then None else List.find (\<lambda>x. pr_Path x = q) rules)" for q
    by (simp add: assms(4) buildRequestSnapshot_def Let_def index_rules_get)
  have rules: "sn_rules sn = rules" by (simp add: assms(4) buildRequestSnapshot_def Let_def)
  have m: "matchRuleFromProxyPathCookie r sn = (if ?v = [] then None else List.find (\<lambda>x. pr_Path x = ?v) rules)"
    unfolding matchRuleFromProxyPathCookie_def c rules
    by (auto simp: byPath eq_commute [of ?v] split: option.split)
  have path: "pr_Path rule = q" if "List.find (\<lambda>x. pr_Path x = q) rules = Some rule" for q
    using that by (auto simp: find_Some_iff)
  have "matchRuleFromProxyPathCookie r sn = Some rule \<longleftrightarrow> ?v = ?p"
    using m path [of ?v] assms(2) ne by (auto split: if_splits)
  moreover have "header_values (rp_Header (addProxyPathCookieIfChanged r ?p resp)) ''Set-Cookie'' =
      header_values (stripProxyPathSetCookies (rp_Header resp)) ''Set-Cookie'' @
      (if ?v = ?p then [] else [proxyPathCookieName @ ''='' @ cookie_value_text ?p @ ''; Path=/''])"
    using assms(3) c
    by (simp add: addProxyPathCookieIfChanged_def header_add_def header_values_def al_get_put Let_def)
  ultimately show ?thesis unfolding v by blast
qed

abbreviation umlaut_rule :: path_rule where
  "umlaut_rule \<equiv> \<lparr>pr_Path = [CHR ''/'', CHR 0xC3, CHR 0xA4], pr_Target = ''http://10.0.0.1'', pr_UseAuth = False,
     pr_StripPath = False, pr_RewriteHTML = False, pr_UseRootMode = True\<rparr>"

theorem root_mode_cookie_witness:
  "matchRuleFromProxyPathCookie (plain_request\<lparr>rq_Header := [(''Cookie'', [''__proxy_path=/''])]\<rparr>)
      (buildRequestSnapshot plain_unicode [umlaut_rule] [] [] plain_config plain_portal False) \<noteq> Some umlaut_rule"
proof -
  let ?r = "plain_request\<lparr>rq_Header := [(''Cookie'', [''__proxy_path=/''])]\<rparr>"
  have 1: "cookie_headers ?r = [proxyPathCookieName @ CHR ''='' # cookie_value_text (pr_Path umlaut_rule)]"
    by code_simp
  have 2: "List.find (\<lambda>x. pr_Path x = pr_Path umlaut_rule) [umlaut_rule] = Some umlaut_rule" by simp
  have 3: "trim_space (pr_Path umlaut_rule) \<noteq> []" by code_simp
  have 4: "\<not> list_all validCanonicalCookieValueByte (pr_Path umlaut_rule)" by code_simp
  show ?thesis using root_mode_cookie [OF 1 2 3 refl] 4 by blast
qed

section \<open>The length of an answer\<close>

definition response_ok :: "response \<Rightarrow> bool" where
  "response_ok resp = (rp_ContentLength resp = - 1 \<or> rp_ContentLength resp = int (length (rp_Body resp)))"

definition length_announced :: "response \<Rightarrow> bool" where
  "length_announced resp = (header_get (rp_Header resp) ''Content-Length'' = itoa (int (length (rp_Body resp))))"

text \<open>A step either leaves the body and the announced length, or announces the new length.\<close>

definition length_kept :: "response \<Rightarrow> response \<Rightarrow> bool" where
  "length_kept resp resp' \<longleftrightarrow>
     (rp_Body resp' = rp_Body resp \<and> rp_ContentLength resp' = rp_ContentLength resp \<and>
      header_get (rp_Header resp') ''Content-Length'' = header_get (rp_Header resp) ''Content-Length'') \<or>
     (rp_ContentLength resp' = int (length (rp_Body resp')) \<and> length_announced resp')"

lemma length_kept_trans: "length_kept a b \<Longrightarrow> length_kept b c \<Longrightarrow> length_kept a c"
  by (auto simp: length_kept_def length_announced_def)

lemma length_kept_refl: "length_kept a a"
  by (simp add: length_kept_def)

lemma length_keys:
  "canonical_header_key ''Content-Length'' = ''Content-Length''"
  "canonical_header_key ''Location'' = ''Location''"
  "canonical_header_key ''Set-Cookie'' = ''Set-Cookie''"
  "canonical_header_key ''ETag'' = ''Etag''"
  "canonical_header_key ''Content-MD5'' = ''Content-Md5''"
  "canonical_header_key ''Content-Encoding'' = ''Content-Encoding''"
  "canonical_header_key ''Cache-Control'' = ''Cache-Control''"
  "canonical_header_key ''Pragma'' = ''Pragma''"
  "canonical_header_key ''Expires'' = ''Expires''"
  "canonical_header_key ''CDN-Cache-Control'' = ''Cdn-Cache-Control''"
  "canonical_header_key ''Surrogate-Control'' = ''Surrogate-Control''"
  by code_simp+

lemma header_get_add_other:
  "canonical_header_key k' \<noteq> canonical_header_key k \<Longrightarrow> header_get (header_add k v h) k' = header_get h k'"
  by (simp add: header_get_def header_values_def header_add_def al_get_put)

lemmas length_simps = length_kept_def length_announced_def header_get_set header_get_del
  header_get_add_other length_keys

lemma strip_cookies_length:
  "header_get (stripProxyPathSetCookies h) ''Content-Length'' = header_get h ''Content-Length''"
proof -
  have "header_get (foldl (\<lambda>h v. if isProxyPathSetCookie v then h else header_add ''Set-Cookie'' v h) h vs)
      ''Content-Length'' = header_get h ''Content-Length''" for h vs
    by (induction vs arbitrary: h) (simp_all add: length_simps)
  then show ?thesis by (simp add: stripProxyPathSetCookies_def Let_def length_simps)
qed

lemma cookie_length: "length_kept resp (addProxyPathCookieIfChanged r p resp)"
  by (simp add: addProxyPathCookieIfChanged_def Let_def strip_cookies_length length_simps)

lemma reset_length: "length_kept resp (resetFnosPortIconHijackResponseBody b resp)"
  by (simp add: resetFnosPortIconHijackResponseBody_def length_simps)

lemma icons_length: "length_kept resp (maybeRewriteFnosPortIconHijackHTTPResponse U E u rules resp)"
  by (simp add: maybeRewriteFnosPortIconHijackHTTPResponse_def resetFnosPortIconHijackResponseBody_def Let_def
      length_simps split: prod.split)

lemma page_length: "length_kept resp (rewrite_page a b path toolbar resp)"
  by (simp add: rewrite_page_def prefix_redirect_def Let_def length_simps)

lemma auth_host_length: "length_kept resp (fst (auth_host_response U r sn clientIP h resp a))"
  by (simp add: auth_host_response_def applyNoStoreCacheHeaders_def Let_def length_simps)

lemma length_kept_ok: "length_kept resp resp' \<Longrightarrow> response_ok resp \<Longrightarrow> response_ok resp'"
  by (auto simp: length_kept_def response_ok_def)

text \<open>The length of a rewritten answer.
  Whatever is rewritten, the length the gateway announces is that of the body it sends, unless
  the upstream's own was unknown, and a changed body comes with a changed header field.\<close>

theorem proxied_length:
  assumes "response_ok resp"
    and "resp' \<in> {rule_response U E r sn rule u html cand toolbar resp,
           fst (host_response U E r sn clientIP h u cand toolbar resp a),
           fst (location_reply U E r sn clientIP h l u html cand toolbar resp a)}"
  shows "response_ok resp' \<and> (rp_Body resp' = rp_Body resp \<or> length_announced resp')"
proof -
  have page: "length_kept resp (rewrite_page x y p toolbar (maybeRewriteFnosPortIconHijackHTTPResponse U E u rules resp1))"
    if "length_kept resp resp1" for x y p rules resp1
    using length_kept_trans [OF length_kept_trans [OF that icons_length] page_length] .
  have "length_kept resp (rule_response U E r sn rule u html cand toolbar resp)"
    unfolding rule_response_def by (intro page cookie_length)
  moreover have "length_kept resp (fst (host_response U E r sn clientIP h u cand toolbar resp a))"
    by (simp add: host_response_def case_prod_beta page auth_host_length)
  moreover have "length_kept resp (fst (location_reply U E r sn clientIP h l u html cand toolbar resp a))"
    by (simp add: location_reply_def case_prod_beta page auth_host_length)
  ultimately have k: "length_kept resp resp'" using assms(2) by blast
  from length_kept_ok [OF k assms(1)] k show ?thesis by (auto simp: length_kept_def)
qed

abbreviation plain_path_rule :: path_rule where
  "plain_path_rule \<equiv> \<lparr>pr_Path = ''/app'', pr_Target = ''http://10.0.0.1'', pr_UseAuth = False, pr_StripPath = True,
     pr_RewriteHTML = True, pr_UseRootMode = False\<rparr>"

theorem proxied_length_witness:
  "length_announced (rewrite_page True False ''/app'' []
     \<lparr>rp_Status = 200, rp_Header = [(''Content-Type'', [''text/html''])], rp_Body = ''<a href=\"/x\">'', rp_ContentLength = - 1\<rparr>)
   \<and> response_ok (rule_response plain_unicode
        \<lparr>ic_enabled = False, ic_endpoint = \<lparr>ie_protocol = ''http'', ie_port = 80\<rparr>,
         ic_json = \<lparr>jl_unmarshal = (\<lambda>s. None), jl_marshal = (\<lambda>v. [])\<rparr>\<rparr>
        plain_request (buildRequestSnapshot plain_unicode [] [] [] plain_config plain_portal False)
        plain_path_rule zero_url True False []
        \<lparr>rp_Status = 200, rp_Header = [(''Content-Type'', [''text/html''])], rp_Body = ''<a href=\"/x\">'', rp_ContentLength = - 1\<rparr>)"
proof
  let ?resp = "\<lparr>rp_Status = 200, rp_Header = [(''Content-Type'', [''text/html''])], rp_Body = ''<a href=\"/x\">'',
    rp_ContentLength = - 1\<rparr>"
  show "length_announced (rewrite_page True False ''/app'' [] ?resp)" by code_simp
  have ok: "response_ok ?resp" by (simp add: response_ok_def)
  show "response_ok (rule_response plain_unicode
        \<lparr>ic_enabled = False, ic_endpoint = \<lparr>ie_protocol = ''http'', ie_port = 80\<rparr>,
         ic_json = \<lparr>jl_unmarshal = (\<lambda>s. None), jl_marshal = (\<lambda>v. [])\<rparr>\<rparr>
        plain_request (buildRequestSnapshot plain_unicode [] [] [] plain_config plain_portal False)
        plain_path_rule zero_url True False [] ?resp)"
    by (rule proxied_length [OF ok insertI1, THEN conjunct1])
qed

end
