(* ===== verification/WafStore.thy ===== *)
theory WafStore
  imports Prelude GoStrings
begin

text \<open>
  The store of firewall events, \<^verbatim>\<open>pkg/waf/event_store.go\<close>, with the event types of
  \<^verbatim>\<open>pkg/waf/types.go\<close>: a Go map from trace ids to events with their expiry, and a slice that
  remembers the order of arrival.  Each operation reads the clock once; the reading is an
  argument.  The lemmas show that map and slice agree in every reachable state and that the pair
  behaves as one bounded queue of events that expire.
\<close>

section \<open>Events\<close>

record matched_variable =
  mv_Variable :: string
  mv_Key :: string
  mv_ValuePreview :: string

record rule_match =
  rm_ID :: int
  rm_Message :: string
  rm_Data :: string
  rm_Severity :: string
  rm_Phase :: int
  rm_File :: string
  rm_Line :: int
  rm_Tags :: "string list"
  rm_Disruptive :: bool
  rm_MatchedVariables :: "matched_variable list"

record interruption_info =
  ii_RuleID :: int
  ii_Action :: string
  ii_Status :: int

record waf_event =
  ev_TraceID :: string
  ev_TransactionID :: string
  ev_Time :: string
  ev_Mode :: string
  ev_Action :: string
  ev_Status :: int
  ev_ClientIP :: string
  ev_RemoteAddr :: string
  ev_Method :: string
  ev_Scheme :: string
  ev_Host :: string
  ev_Path :: string
  ev_Query :: string
  ev_RequestURI :: string
  ev_UserAgent :: string
  ev_Referer :: string
  ev_RouteType :: string
  ev_RouteKey :: string
  ev_Upstream :: string
  ev_BundleID :: string
  ev_BundleHash :: string
  ev_RuleIDs :: "int list"
  ev_Rules :: "rule_match list"
  ev_Interruption :: "interruption_info option"
  ev_Error :: string

record drain_result =
  dr_Events :: "waf_event list"
  dr_Drained :: int
  dr_Remaining :: int

section \<open>The store\<close>

record stored_event =
  se_event :: waf_event
  se_expiresAt :: time

record event_store =
  es_items :: "(string \<times> stored_event) list"
  es_order :: "string list"
  es_maxEntries :: int
  es_ttl :: duration

definition DefaultMaxEvents :: int where
  "DefaultMaxEvents = 1000"

definition DefaultEventTTL :: duration where
  "DefaultEventTTL = 10 * 60 * second"

definition NewEventStore :: "int \<Rightarrow> duration \<Rightarrow> event_store" where
  "NewEventStore maxEntries ttl =
     \<lparr>es_items = [], es_order = [],
      es_maxEntries = (if maxEntries \<le> 0 then DefaultMaxEvents else maxEntries),
      es_ttl = (if ttl \<le> 0 then DefaultEventTTL else ttl)\<rparr>"

text \<open>
  \<^verbatim>\<open>cleanupLocked\<close> walks the order with a new slice \<open>next\<close>: an id without an item is dropped, an
  expired item is deleted, the others are kept.
\<close>

fun cleanup_loop :: "time \<Rightarrow> string list \<Rightarrow> string list \<Rightarrow> (string \<times> stored_event) list \<Rightarrow>
    string list \<times> (string \<times> stored_event) list" where
  "cleanup_loop now [] nxt items = (nxt, items)"
| "cleanup_loop now (i # is) nxt items =
     (case al_get items i of
        None \<Rightarrow> cleanup_loop now is nxt items
      | Some item \<Rightarrow> if now > se_expiresAt item then cleanup_loop now is nxt (al_del i items)
                     else cleanup_loop now is (nxt @ [i]) items)"

definition cleanupLocked :: "time \<Rightarrow> event_store \<Rightarrow> event_store" where
  "cleanupLocked now s =
     (if es_order s = [] then s
      else (case cleanup_loop now (es_order s) [] (es_items s) of
              (nxt, items) \<Rightarrow> s\<lparr>es_items := items, es_order := nxt\<rparr>))"

text \<open>The oldest entries go while there are more than \<^verbatim>\<open>maxEntries\<close>.\<close>

fun evict_loop :: "int \<Rightarrow> string list \<Rightarrow> (string \<times> stored_event) list \<Rightarrow>
    string list \<times> (string \<times> stored_event) list" where
  "evict_loop m [] items = ([], items)"
| "evict_loop m (i # is) items =
     (if int (length (i # is)) > m then evict_loop m is (al_del i items) else (i # is, items))"

definition event_store_Add :: "time \<Rightarrow> waf_event \<Rightarrow> event_store \<Rightarrow> event_store" where
  "event_store_Add now ev s =
     (if ev_TraceID ev = [] then s
      else let s1 = cleanupLocked now s;
               order = (if al_get (es_items s1) (ev_TraceID ev) = None
                        then es_order s1 @ [ev_TraceID ev] else es_order s1);
               items = al_put (ev_TraceID ev)
                         \<lparr>se_event = ev, se_expiresAt = now + es_ttl s1\<rparr> (es_items s1)
           in (case evict_loop (es_maxEntries s1) order items of
                 (order', items') \<Rightarrow> s1\<lparr>es_items := items', es_order := order'\<rparr>))"

definition event_store_Pending :: "time \<Rightarrow> event_store \<Rightarrow> int \<times> event_store" where
  "event_store_Pending now s =
     (let s1 = cleanupLocked now s in (int (length (es_items s1)), s1))"

fun drain_loop :: "int \<Rightarrow> string list \<Rightarrow> (string \<times> stored_event) list \<Rightarrow> waf_event list \<Rightarrow>
    string list \<times> (string \<times> stored_event) list \<times> waf_event list" where
  "drain_loop limit [] items evs = ([], items, evs)"
| "drain_loop limit (i # is) items evs =
     (if int (length evs) < limit
      then (case al_get items i of
              Some item \<Rightarrow> drain_loop limit is (al_del i items) (evs @ [se_event item])
            | None \<Rightarrow> drain_loop limit is items evs)
      else (i # is, items, evs))"

definition event_store_Drain :: "time \<Rightarrow> int \<Rightarrow> event_store \<Rightarrow> drain_result \<times> event_store" where
  "event_store_Drain now limit s =
     (let limit' = (if limit \<le> 0 \<or> limit > es_maxEntries s then es_maxEntries s else limit);
          s1 = cleanupLocked now s
      in (case drain_loop limit' (es_order s1) (es_items s1) [] of
            (order, items, evs) \<Rightarrow>
              (\<lparr>dr_Events = evs, dr_Drained = int (length evs), dr_Remaining = int (length items)\<rparr>,
               s1\<lparr>es_items := items, es_order := order\<rparr>)))"

section \<open>The map and the order agree\<close>

text \<open>
  \<open>pair_inv\<close>: the ids of the order are distinct and are exactly the keys of the map, and an item
  is stored under the trace id of its event.
\<close>

definition pair_inv :: "string list \<Rightarrow> (string \<times> stored_event) list \<Rightarrow> bool" where
  "pair_inv order items =
     (distinct order \<and> al_ok items \<and> set order = fst ` set items \<and>
      list_all (\<lambda>(k, it). ev_TraceID (se_event it) = k \<and> k \<noteq> []) items)"

definition store_inv :: "event_store \<Rightarrow> bool" where
  "store_inv s =
     (pair_inv (es_order s) (es_items s) \<and> 0 < es_maxEntries s \<and>
      int (length (es_order s)) \<le> es_maxEntries s)"

text \<open>The queue that map and slice stand for: the entries in order of arrival.\<close>

definition stored_at :: "(string \<times> stored_event) list \<Rightarrow> string \<Rightarrow> stored_event" where
  "stored_at items i = the (al_get items i)"

definition store_queue :: "event_store \<Rightarrow> stored_event list" where
  "store_queue s = map (stored_at (es_items s)) (es_order s)"

lemma pair_inv_get:
  assumes "pair_inv order items" "i \<in> set order"
  obtains it where "al_get items i = Some it" "ev_TraceID (se_event it) = i" "i \<noteq> []"
proof -
  from assms obtain it where "(i, it) \<in> set items" by (auto simp: pair_inv_def)
  with assms show thesis
    by (intro that [of it]) (auto simp: pair_inv_def al_get_iff list_all_iff)
qed

lemma pair_inv_none: "pair_inv order items \<Longrightarrow> al_get items i = None \<longleftrightarrow> i \<notin> set order"
  by (simp add: pair_inv_def al_get_def map_of_eq_None_iff)

lemma set_al_del: "set (al_del k m) = {kv \<in> set m. fst kv \<noteq> k}"
  by (auto simp: al_del_def AList.delete_eq)

lemma pair_inv_length:
  assumes "pair_inv order items"
  shows "length items = length order"
proof -
  have "length items = card (fst ` set items)"
    using assms by (metis pair_inv_def al_ok_def distinct_card list.set_map length_map)
  also have "\<dots> = length order"
    using assms by (metis pair_inv_def distinct_card)
  finally show ?thesis .
qed

lemma pair_inv_remove:
  assumes "pair_inv (xs @ i # ys) items"
  shows "pair_inv (xs @ ys) (al_del i items)"
proof -
  have "fst ` set (al_del i items) = fst ` set items - {i}"
    by (auto simp: set_al_del)
  with assms show ?thesis
    by (auto simp: pair_inv_def list_all_iff set_al_del)
qed

lemma stored_at_del: "j \<noteq> i \<Longrightarrow> stored_at (al_del i items) j = stored_at items j"
  by (simp add: stored_at_def al_get_del)

lemma entries_del:
  "i \<notin> set xs \<Longrightarrow> map (stored_at (al_del i items)) xs = map (stored_at items) xs"
  by (metis (no_types, lifting) map_cong stored_at_del)

lemma cleanup_loop_spec:
  assumes "pair_inv (nxt @ is) items"
  shows "case cleanup_loop now is nxt items of (order, items') \<Rightarrow>
     pair_inv order items' \<and>
     map (stored_at items') order =
       map (stored_at items) nxt @ filter (\<lambda>e. now \<le> se_expiresAt e) (map (stored_at items) is)"
  using assms
proof (induction now "is" nxt items rule: cleanup_loop.induct)
  case (1 now nxt items)
  then show ?case by simp
next
  case (2 now i "is" nxt items)
  have "pair_inv (nxt @ i # is) items" by (rule "2.prems")
  then obtain it where it: "al_get items i = Some it" by (rule pair_inv_get [of _ _ i]) auto
  then have e: "stored_at items i = it" by (simp add: stored_at_def)
  have fresh: "i \<notin> set nxt" "i \<notin> set is" using "2.prems" by (auto simp: pair_inv_def)
  show ?case
  proof (cases "now > se_expiresAt it")
    case True
    from "2.IH"(2) [OF it True pair_inv_remove [OF "2.prems"]] True it e fresh show ?thesis
      by (simp add: entries_del)
  next
    case False
    with "2.IH"(3) [OF it False] "2.prems" it e show ?thesis by simp
  qed
qed

lemma cleanupLocked_spec:
  assumes "store_inv s"
  shows "store_inv (cleanupLocked now s)"
    and "store_queue (cleanupLocked now s) = filter (\<lambda>e. now \<le> se_expiresAt e) (store_queue s)"
    and "es_maxEntries (cleanupLocked now s) = es_maxEntries s"
    and "es_ttl (cleanupLocked now s) = es_ttl s"
proof -
  obtain nxt items where l: "cleanup_loop now (es_order s) [] (es_items s) = (nxt, items)"
    by (metis surj_pair)
  have inv: "pair_inv nxt items"
    and q: "map (stored_at items) nxt =
      filter (\<lambda>e. now \<le> se_expiresAt e) (map (stored_at (es_items s)) (es_order s))"
    using cleanup_loop_spec [of "[]" "es_order s" "es_items s" now] assms
    by (simp_all add: l store_inv_def)
  from q have len: "length nxt \<le> length (es_order s)"
    by (metis length_map length_filter_le)
  show "store_inv (cleanupLocked now s)"
    using assms inv len by (auto simp: cleanupLocked_def l store_inv_def)
  show "store_queue (cleanupLocked now s) = filter (\<lambda>e. now \<le> se_expiresAt e) (store_queue s)"
    using q by (simp add: cleanupLocked_def l store_queue_def)
  show "es_maxEntries (cleanupLocked now s) = es_maxEntries s"
    and "es_ttl (cleanupLocked now s) = es_ttl s"
    by (simp_all add: cleanupLocked_def l)
qed

section \<open>The queue the store implements\<close>

definition queue_expire :: "time \<Rightarrow> stored_event list \<Rightarrow> stored_event list" where
  "queue_expire now q = filter (\<lambda>e. now \<le> se_expiresAt e) q"

abbreviation event_id :: "stored_event \<Rightarrow> string" where
  "event_id e \<equiv> ev_TraceID (se_event e)"

definition queue_put :: "stored_event \<Rightarrow> stored_event list \<Rightarrow> stored_event list" where
  "queue_put e q =
     (if event_id e \<in> set (map event_id q)
      then map (\<lambda>x. if event_id x = event_id e then e else x) q
      else q @ [e])"

definition queue_bound :: "int \<Rightarrow> stored_event list \<Rightarrow> stored_event list" where
  "queue_bound m q = drop (length q - nat m) q"

text \<open>
  One operation on the queue, with its answer: an addition appends (or refreshes in place) and
  keeps the newest \<open>m\<close>, a drain takes from the front.
\<close>

datatype store_op = Op_Add time waf_event | Op_Pending time | Op_Drain time int

datatype store_answer = Answer_Unit | Answer_Count int | Answer_Drained drain_result

fun queue_step :: "int \<Rightarrow> duration \<Rightarrow> store_op \<Rightarrow> stored_event list \<Rightarrow>
    store_answer \<times> stored_event list" where
  "queue_step m ttl (Op_Add now ev) q =
     (Answer_Unit,
      if ev_TraceID ev = [] then q
      else queue_bound m (queue_put \<lparr>se_event = ev, se_expiresAt = now + ttl\<rparr> (queue_expire now q)))"
| "queue_step m ttl (Op_Pending now) q =
     (Answer_Count (int (length (queue_expire now q))), queue_expire now q)"
| "queue_step m ttl (Op_Drain now limit) q =
     (let q1 = queue_expire now q;
          n = nat (if limit \<le> 0 \<or> limit > m then m else limit)
      in (Answer_Drained \<lparr>dr_Events = map se_event (take n q1),
            dr_Drained = int (length (take n q1)), dr_Remaining = int (length (drop n q1))\<rparr>,
          drop n q1))"

fun store_step :: "store_op \<Rightarrow> event_store \<Rightarrow> store_answer \<times> event_store" where
  "store_step (Op_Add now ev) s = (Answer_Unit, event_store_Add now ev s)"
| "store_step (Op_Pending now) s = (case event_store_Pending now s of (n, s1) \<Rightarrow> (Answer_Count n, s1))"
| "store_step (Op_Drain now limit) s =
     (case event_store_Drain now limit s of (r, s1) \<Rightarrow> (Answer_Drained r, s1))"

fun store_run :: "store_op list \<Rightarrow> event_store \<Rightarrow> store_answer list" where
  "store_run [] s = []"
| "store_run (p # ps) s = (case store_step p s of (a, s1) \<Rightarrow> a # store_run ps s1)"

fun queue_run :: "int \<Rightarrow> duration \<Rightarrow> store_op list \<Rightarrow> stored_event list \<Rightarrow> store_answer list" where
  "queue_run m ttl [] q = []"
| "queue_run m ttl (p # ps) q = (case queue_step m ttl p q of (a, q1) \<Rightarrow> a # queue_run m ttl ps q1)"

section \<open>Each operation is the operation on the queue\<close>

lemma entry_id:
  assumes "pair_inv order items" "i \<in> set order"
  shows "event_id (stored_at items i) = i"
proof -
  obtain it where it: "al_get items i = Some it" and id: "event_id it = i"
    using assms by (rule pair_inv_get)
  show ?thesis unfolding stored_at_def it by (simp only: option.sel id)
qed

lemma queue_ids:
  assumes "pair_inv order items"
  shows "map event_id (map (stored_at items) order) = order"
proof -
  have "map (\<lambda>i. event_id (stored_at items i)) order = map (\<lambda>i. i) order"
    by (rule map_cong) (simp_all add: entry_id [OF assms])
  then show ?thesis by (simp add: o_def)
qed

lemma pair_inv_put:
  assumes inv: "pair_inv order items" and id: "event_id e = i" "i \<noteq> []"
  defines "order' \<equiv> (if al_get items i = None then order @ [i] else order)"
  shows "pair_inv order' (al_put i e items)"
    and "map (stored_at (al_put i e items)) order' = queue_put e (map (stored_at items) order)"
proof -
  have mem: "al_get items i = None \<longleftrightarrow> i \<notin> set order"
    by (rule pair_inv_none [OF inv])
  have keys: "fst ` set (al_put i e items) = insert i (fst ` set items)"
    unfolding list.set_map [symmetric] map_fst_al_put by auto
  have vals: "set (al_put i e items) \<subseteq> insert (i, e) (set items)"
    unfolding al_put_def by (induction items) auto
  have "\<forall>kv \<in> set (al_put i e items). event_id (snd kv) = fst kv \<and> fst kv \<noteq> []"
  proof
    fix kv
    assume "kv \<in> set (al_put i e items)"
    with vals consider "kv = (i, e)" | "kv \<in> set items" by blast
    then show "event_id (snd kv) = fst kv \<and> fst kv \<noteq> []"
      using inv id by cases (auto simp: pair_inv_def list_all_iff)
  qed
  moreover have "al_ok (al_put i e items)" "distinct order" "set order = fst ` set items"
    using inv by (auto simp: pair_inv_def)
  ultimately show "pair_inv order' (al_put i e items)"
    using mem keys by (simp add: pair_inv_def order'_def list_all_iff case_prod_beta insert_absorb)
  have eq: "stored_at (al_put i e items) j = (if j = i then e else stored_at items j)" for j
    by (simp add: stored_at_def al_get_put)
  have ids: "map event_id (map (stored_at items) order) = order"
    by (rule queue_ids [OF inv])
  show "map (stored_at (al_put i e items)) order' = queue_put e (map (stored_at items) order)"
  proof (cases "i \<in> set order")
    case True
    have "map (stored_at (al_put i e items)) order =
        map (\<lambda>j. if event_id (stored_at items j) = i then e else stored_at items j) order"
      by (rule map_cong) (simp_all add: eq entry_id [OF inv])
    with True mem id show ?thesis
      unfolding queue_put_def ids order'_def by simp
  next
    case False
    then have "map (stored_at (al_put i e items)) order = map (stored_at items) order"
      by (intro map_cong) (auto simp: eq)
    with False mem id show ?thesis
      unfolding queue_put_def ids order'_def by (simp add: eq)
  qed
qed

lemma evict_loop_spec:
  assumes "pair_inv order items" "0 < m"
  shows "case evict_loop m order items of (order', items') \<Rightarrow>
     pair_inv order' items' \<and> int (length order') \<le> m \<and>
     map (stored_at items') order' = queue_bound m (map (stored_at items) order)"
  using assms
proof (induction m order items rule: evict_loop.induct)
  case (1 m items)
  then show ?case by (simp add: queue_bound_def)
next
  case (2 m i "is" items)
  show ?case
  proof (cases "int (length (i # is)) > m")
    case True
    have "pair_inv is (al_del i items)"
      using pair_inv_remove [of "[]" i "is" items] "2.prems" by simp
    moreover have "i \<notin> set is" using "2.prems" by (simp add: pair_inv_def)
    ultimately show ?thesis
      using "2.IH" [OF True] True "2.prems"
      by (auto simp: entries_del queue_bound_def Suc_diff_le split: prod.splits)
  next
    case False
    with "2.prems" show ?thesis by (simp add: queue_bound_def)
  qed
qed

lemma drain_loop_spec:
  assumes "pair_inv order items"
  shows "case drain_loop limit order items evs of (order', items', evs') \<Rightarrow>
     pair_inv order' items' \<and>
     map (stored_at items') order' = drop (nat limit - length evs) (map (stored_at items) order) \<and>
     evs' = evs @ map se_event (take (nat limit - length evs) (map (stored_at items) order))"
  using assms
proof (induction limit order items evs rule: drain_loop.induct)
  case (1 limit items evs)
  then show ?case by simp
next
  case (2 limit i "is" items evs)
  obtain it where it: "al_get items i = Some it"
    using "2.prems" by (rule pair_inv_get [of _ _ i]) auto
  then have e: "stored_at items i = it" by (simp add: stored_at_def)
  show ?case
  proof (cases "int (length evs) < limit")
    case True
    have "pair_inv is (al_del i items)"
      using pair_inv_remove [of "[]" i "is" items] "2.prems" by simp
    moreover have "i \<notin> set is" using "2.prems" by (simp add: pair_inv_def)
    moreover from True have "nat limit - length evs = Suc (nat limit - Suc (length evs))" by simp
    ultimately show ?thesis
      using "2.IH"(2) [OF True it] True it e
      by (auto simp: entries_del split: prod.splits)
  next
    case False
    then have "nat limit - length evs = 0" by simp
    with False "2.prems" show ?thesis by simp
  qed
qed


lemma event_store_Add_spec:
  assumes "store_inv s"
  shows "store_inv (event_store_Add now ev s) \<and>
    store_queue (event_store_Add now ev s) =
      snd (queue_step (es_maxEntries s) (es_ttl s) (Op_Add now ev) (store_queue s)) \<and>
    es_maxEntries (event_store_Add now ev s) = es_maxEntries s \<and>
    es_ttl (event_store_Add now ev s) = es_ttl s"
proof -
  let ?s1 = "cleanupLocked now s"
  let ?i = "ev_TraceID ev"
  let ?e = "\<lparr>se_event = ev, se_expiresAt = now + es_ttl ?s1\<rparr>"
  let ?order = "if al_get (es_items ?s1) ?i = None then es_order ?s1 @ [?i] else es_order ?s1"
  let ?items = "al_put ?i ?e (es_items ?s1)"
  obtain order' items' where l: "evict_loop (es_maxEntries ?s1) ?order ?items = (order', items')"
    by (metis surj_pair)
  note s1 = cleanupLocked_spec [OF assms, of now]
  have add: "event_store_Add now ev s = ?s1\<lparr>es_items := items', es_order := order'\<rparr>" if "?i \<noteq> []"
    using that l unfolding event_store_Add_def Let_def by simp
  have inv: "pair_inv order' items' \<and> int (length order') \<le> es_maxEntries s \<and>
      map (stored_at items') order' =
        queue_bound (es_maxEntries s) (queue_put ?e (store_queue ?s1))" if i: "?i \<noteq> []"
  proof -
    have p: "pair_inv (es_order ?s1) (es_items ?s1)" and m: "0 < es_maxEntries ?s1"
      using s1(1) by (simp_all add: store_inv_def)
    have id: "event_id ?e = ?i" by simp
    note put = pair_inv_put [OF p id i]
    show ?thesis
      using evict_loop_spec [OF put(1) m]
      unfolding l prod.case unfolding put(2) s1(3) store_queue_def .
  qed
  show ?thesis
  proof (cases "?i = []")
    case True
    then have "event_store_Add now ev s = s" by (simp add: event_store_Add_def)
    with assms True show ?thesis by simp
  next
    case False
    with add inv s1 show ?thesis
      by (simp add: store_inv_def store_queue_def queue_expire_def)
  qed
qed

lemma event_store_Pending_spec:
  assumes "store_inv s"
  shows "fst (event_store_Pending now s) = int (length (queue_expire now (store_queue s)))"
    and "snd (event_store_Pending now s) = cleanupLocked now s"
proof -
  have "length (es_items (cleanupLocked now s)) = length (store_queue (cleanupLocked now s))"
    using cleanupLocked_spec(1) [OF assms, of now]
    by (simp add: store_inv_def store_queue_def pair_inv_length)
  then show "fst (event_store_Pending now s) = int (length (queue_expire now (store_queue s)))"
    by (simp add: event_store_Pending_def Let_def cleanupLocked_spec(2) [OF assms] queue_expire_def)
  show "snd (event_store_Pending now s) = cleanupLocked now s"
    by (simp add: event_store_Pending_def Let_def)
qed

lemma event_store_Drain_spec:
  assumes "store_inv s"
  shows "store_inv (snd (event_store_Drain now limit s)) \<and>
    (Answer_Drained (fst (event_store_Drain now limit s)),
      store_queue (snd (event_store_Drain now limit s))) =
      queue_step (es_maxEntries s) (es_ttl s) (Op_Drain now limit) (store_queue s) \<and>
    es_maxEntries (snd (event_store_Drain now limit s)) = es_maxEntries s \<and>
    es_ttl (snd (event_store_Drain now limit s)) = es_ttl s"
proof -
  let ?s1 = "cleanupLocked now s"
  let ?l = "if limit \<le> 0 \<or> limit > es_maxEntries s then es_maxEntries s else limit"
  obtain order items evs where l:
      "drain_loop ?l (es_order ?s1) (es_items ?s1) [] = (order, items, evs)"
    by (metis surj_pair)
  note s1 = cleanupLocked_spec [OF assms, of now]
  have p: "pair_inv (es_order ?s1) (es_items ?s1)" and m: "0 < es_maxEntries s"
    and b: "int (length (es_order ?s1)) \<le> es_maxEntries s"
    using s1 by (simp_all add: store_inv_def)
  have d: "pair_inv order items" "map (stored_at items) order = drop (nat ?l) (store_queue ?s1)"
      "evs = map se_event (take (nat ?l) (store_queue ?s1))"
    using drain_loop_spec [OF p, of ?l "[]"] by (simp_all add: l store_queue_def)
  from d(2) have len: "length order = length (store_queue ?s1) - nat ?l"
    by (metis length_map length_drop)
  have q: "store_queue ?s1 = queue_expire now (store_queue s)"
    by (simp add: s1(2) queue_expire_def)
  have r: "event_store_Drain now limit s =
     (\<lparr>dr_Events = evs, dr_Drained = int (length evs), dr_Remaining = int (length items)\<rparr>,
      ?s1\<lparr>es_items := items, es_order := order\<rparr>)"
    unfolding event_store_Drain_def Let_def l by simp
  have lenq: "length (store_queue ?s1) = length (es_order ?s1)" by (simp add: store_queue_def)
  have "int (length order) \<le> es_maxEntries s" using b len lenq by linarith
  with d(1) m have i: "store_inv (?s1\<lparr>es_items := items, es_order := order\<rparr>)"
    by (simp add: store_inv_def s1(3))
  have c: "length items = length (drop (nat ?l) (store_queue ?s1))"
    using pair_inv_length [OF d(1)] len by simp
  have sq: "store_queue (?s1\<lparr>es_items := items, es_order := order\<rparr>) =
      drop (nat ?l) (store_queue ?s1)"
    using d(2) by (simp add: store_queue_def)
  have "(Answer_Drained (fst (event_store_Drain now limit s)),
      store_queue (snd (event_store_Drain now limit s))) =
      queue_step (es_maxEntries s) (es_ttl s) (Op_Drain now limit) (store_queue s)"
    unfolding r fst_conv snd_conv sq queue_step.simps Let_def q [symmetric] d(3) c by simp
  with i s1 show ?thesis by (simp add: r)
qed


section \<open>The store is a bounded queue of events that expire\<close>

definition store_refines :: "int \<Rightarrow> duration \<Rightarrow> event_store \<Rightarrow> bool" where
  "store_refines m ttl s = (store_inv s \<and> es_maxEntries s = m \<and> es_ttl s = ttl)"

lemma store_step_refines:
  assumes "store_refines m ttl s"
  shows "store_refines m ttl (snd (store_step p s)) \<and>
    (fst (store_step p s), store_queue (snd (store_step p s))) = queue_step m ttl p (store_queue s)"
proof (cases p)
  case (Op_Add now ev)
  have "fst (queue_step m ttl p (store_queue s)) = Answer_Unit" by (simp add: Op_Add)
  with event_store_Add_spec [of s now ev] assms show ?thesis
    by (simp add: Op_Add store_refines_def prod_eq_iff)
next
  case (Op_Pending now)
  with assms show ?thesis
    using cleanupLocked_spec [of s now] event_store_Pending_spec [of s now]
    by (simp add: store_refines_def queue_expire_def case_prod_beta)
next
  case (Op_Drain now limit)
  with event_store_Drain_spec [of s now limit] assms show ?thesis
    by (simp only: Op_Drain store_refines_def store_step.simps case_prod_beta fst_conv snd_conv)
qed

lemma store_run_refines:
  "store_refines m ttl s \<Longrightarrow> store_run ps s = queue_run m ttl ps (store_queue s)"
proof (induction ps arbitrary: s)
  case Nil
  then show ?case by simp
next
  case (Cons p ps)
  from store_step_refines [OF Cons.prems, of p] Cons.IH [of "snd (store_step p s)"] show ?case
    by (simp add: case_prod_beta prod_eq_iff)
qed

lemma NewEventStore_refines:
  "store_refines (es_maxEntries (NewEventStore n ttl)) (es_ttl (NewEventStore n ttl)) (NewEventStore n ttl)"
  by (simp add: store_refines_def NewEventStore_def store_inv_def pair_inv_def DefaultMaxEvents_def)

text \<open>C21:
  For every sequence of additions, counts and drains, with any clock readings, the answers of a
  store created by \<^verbatim>\<open>NewEventStore\<close> are those of one queue of at most \<^verbatim>\<open>maxEntries\<close>
  events: an addition refreshes an event of the same trace id in place or appends it and drops
  the oldest, expired events are gone, a drain hands out the oldest first and each event once.
\<close>

theorem event_store_is_queue:
  "store_run ops (NewEventStore maxEntries ttl) =
     queue_run (es_maxEntries (NewEventStore maxEntries ttl)) (es_ttl (NewEventStore maxEntries ttl))
       ops []"
  using store_run_refines [OF NewEventStore_refines] by (simp add: NewEventStore_def store_queue_def)

end
