(* ===== verification/WafConfig.thy ===== *)
theory WafConfig
  imports Ascii NetAddr NetUrl
begin

text \<open>
  The configuration of the web application firewall, \<^verbatim>\<open>pkg/waf/config.go\<close>, and the redaction of
  query strings before they are stored in an event, \<^verbatim>\<open>pkg/waf/redact.go\<close>.  The lemmas show
  which configurations leave \<^verbatim>\<open>NormalizeConfig\<close>, that the fast redaction is a map over
  the parts of the query, and that no value of a sensitive parameter survives either path of the
  redaction.  File paths are those of a Unix system: \<^verbatim>\<open>filepath.Clean\<close> is
  \<open>path_clean\<close>, \<^verbatim>\<open>filepath.ToSlash\<close> the identity, \<^verbatim>\<open>filepath.IsAbs\<close> a leading slash.
\<close>

section \<open>The configuration\<close>

record waf_config =
  wc_Enabled :: bool
  wc_Mode :: string
  wc_RulesDir :: string
  wc_ActiveBundleID :: string
  wc_ParanoiaLevel :: int
  wc_ExecutingParanoiaLevel :: int
  wc_InboundAnomalyThreshold :: int
  wc_OutboundAnomalyThreshold :: int
  wc_RequestBodyAccess :: bool
  wc_RequestBodyLimitBytes :: int
  wc_RequestBodyInMemoryLimitBytes :: int
  wc_ResponseBodyAccess :: bool
  wc_DisabledHosts :: "string list"
  wc_DisabledPathPrefixes :: "string list"
  wc_UpdatedAt :: string

definition ModeOff :: string where
  "ModeOff = ''off''"

definition ModeDetection :: string where
  "ModeDetection = ''detection''"

definition ModeBlocking :: string where
  "ModeBlocking = ''blocking''"

definition DefaultRulesDir :: "string \<Rightarrow> string" where
  "DefaultRulesDir runtimeDir =
     (let d = trim_space runtimeDir; d1 = (if d = [] then ''.'' else d)
      in path_clean (d1 @ ''/'' @ ''waf''))"

definition string_item :: "unicode \<Rightarrow> bool \<Rightarrow> string \<Rightarrow> string option" where
  "string_item U lower v =
     (let v1 = trim_space v; v2 = (if lower then to_lower U v1 else v1)
      in if v2 = [] then None else Some v2)"

definition waf_normalizeStringList :: "unicode \<Rightarrow> string list \<Rightarrow> bool \<Rightarrow> string list" where
  "waf_normalizeStringList U vs lower = dedup_on (\<lambda>v. v) (string_item U lower) [] vs"

definition prefix_item :: "string \<Rightarrow> string option" where
  "prefix_item v =
     (let v1 = trim_space v
      in if v1 = [] then None
         else let v2 = (if hasPrefix v1 ''/'' then v1 else ''/'' @ v1);
                  v3 = path_clean v2
              in Some (if v3 = ''.'' then ''/'' else v3))"

definition normalizePathPrefixes :: "string list \<Rightarrow> string list" where
  "normalizePathPrefixes vs = dedup_on (\<lambda>v. v) prefix_item [] vs"

definition level_or :: "int \<Rightarrow> int \<Rightarrow> int" where
  "level_or d x = (if x < 1 \<or> x > 4 then d else x)"

definition positive_or :: "int \<Rightarrow> int \<Rightarrow> int" where
  "positive_or d x = (if x \<le> 0 then d else x)"

definition normalize_rules_dir :: "string \<Rightarrow> string \<Rightarrow> string" where
  "normalize_rules_dir dir defaultRulesDir =
     (let d = trim_space dir;
          d1 = (if d = [] then defaultRulesDir else d);
          d2 = (if d1 = [] then DefaultRulesDir ''.'' else d1)
      in if hasPrefix d2 ''/'' then d2 else path_clean d2)"

definition NormalizeConfig :: "unicode \<Rightarrow> waf_config \<Rightarrow> string \<Rightarrow> waf_config" where
  "NormalizeConfig U cfg defaultRulesDir =
     (let defaulted = (trim_space (wc_Mode cfg) = []);
          mode = to_lower U (trim_space (wc_Mode cfg));
          mode1 = (if mode \<in> {ModeOff, ModeDetection, ModeBlocking} then mode else ModeBlocking);
          pl = level_or 1 (wc_ParanoiaLevel cfg);
          epl = level_or pl (wc_ExecutingParanoiaLevel cfg);
          limit = positive_or 131072 (wc_RequestBodyLimitBytes cfg);
          mem = positive_or 65536 (wc_RequestBodyInMemoryLimitBytes cfg)
      in cfg\<lparr>wc_Mode := mode1,
             wc_RulesDir := normalize_rules_dir (wc_RulesDir cfg) defaultRulesDir,
             wc_ActiveBundleID := trim_space (wc_ActiveBundleID cfg),
             wc_ParanoiaLevel := pl,
             wc_ExecutingParanoiaLevel := (if epl < pl then pl else epl),
             wc_InboundAnomalyThreshold := positive_or 5 (wc_InboundAnomalyThreshold cfg),
             wc_OutboundAnomalyThreshold := positive_or 4 (wc_OutboundAnomalyThreshold cfg),
             wc_RequestBodyAccess := (defaulted \<or> wc_RequestBodyAccess cfg),
             wc_RequestBodyLimitBytes := limit,
             wc_RequestBodyInMemoryLimitBytes := (if mem > limit then limit else mem),
             wc_ResponseBodyAccess := False,
             wc_DisabledHosts := waf_normalizeStringList U (wc_DisabledHosts cfg) True,
             wc_DisabledPathPrefixes := normalizePathPrefixes (wc_DisabledPathPrefixes cfg),
             wc_UpdatedAt := trim_space (wc_UpdatedAt cfg)\<rparr>)"

definition waf_IsActive :: "waf_config \<Rightarrow> bool" where
  "waf_IsActive cfg = (wc_Enabled cfg \<and> wc_Mode cfg \<noteq> ModeOff)"

section \<open>What a normalised configuration looks like\<close>

text \<open>A path prefix as the request check expects it: rooted and lexically clean.\<close>

definition clean_rooted :: "string \<Rightarrow> bool" where
  "clean_rooted p = (hasPrefix p ''/'' \<and> path_clean p = p)"

definition waf_config_ok :: "waf_config \<Rightarrow> bool" where
  "waf_config_ok cfg =
     (wc_Mode cfg \<in> {ModeOff, ModeDetection, ModeBlocking} \<and>
      wc_RulesDir cfg \<noteq> [] \<and>
      1 \<le> wc_ParanoiaLevel cfg \<and> wc_ParanoiaLevel cfg \<le> wc_ExecutingParanoiaLevel cfg \<and>
      wc_ExecutingParanoiaLevel cfg \<le> 4 \<and>
      0 < wc_InboundAnomalyThreshold cfg \<and> 0 < wc_OutboundAnomalyThreshold cfg \<and>
      0 < wc_RequestBodyInMemoryLimitBytes cfg \<and>
      wc_RequestBodyInMemoryLimitBytes cfg \<le> wc_RequestBodyLimitBytes cfg \<and>
      \<not> wc_ResponseBodyAccess cfg \<and>
      distinct (wc_DisabledHosts cfg) \<and> [] \<notin> set (wc_DisabledHosts cfg) \<and>
      distinct (wc_DisabledPathPrefixes cfg) \<and>
      list_all clean_rooted (wc_DisabledPathPrefixes cfg))"

lemma prefix_item_clean:
  assumes "prefix_item v = Some p"
  shows "clean_rooted p"
proof -
  let ?w = "if hasPrefix (trim_space v) ''/'' then trim_space v else ''/'' @ trim_space v"
  have w: "hasPrefix ?w ''/''" by (simp add: hasPrefix_def)
  have p: "(if path_clean ?w = ''.'' then ''/'' else path_clean ?w) = p"
    using assms unfolding prefix_item_def Let_def
    by (cases "trim_space v = []") (simp_all only: if_True if_False option.inject option.distinct simp_thms)
  from w have r: "prefix ''/'' (path_clean ?w)"
    unfolding hasPrefix_def by (rule path_clean_rooted_prefix)
  then have "path_clean ?w \<noteq> ''.''" by auto
  with w r show ?thesis
    unfolding clean_rooted_def hasPrefix_def p [symmetric]
    by (simp only: path_clean_idem_rooted if_False simp_thms)
qed

lemma normalizePathPrefixes_clean: "list_all clean_rooted (normalizePathPrefixes vs)"
  by (auto simp: list_all_iff normalizePathPrefixes_def dest: dedup_on_sound prefix_item_clean)

lemma distinct_dedup: "distinct (dedup_on (\<lambda>v. v) f seen vs)"
  using dedup_on_distinct [of "\<lambda>v. v" f seen vs] by simp

lemma path_clean_nonempty: "path_clean p \<noteq> []"
  by (simp add: path_clean_def Let_def)

lemma normalize_rules_dir_nonempty: "normalize_rules_dir dir d \<noteq> []"
  by (auto simp: normalize_rules_dir_def Let_def path_clean_nonempty DefaultRulesDir_def)

text \<open>C24:
  Whatever configuration the administrator sends, the normalised one is well formed: a known
  mode, a rules directory, paranoia levels between 1 and 4 with the executing level not below
  the blocking one, positive thresholds, the in-memory body limit within the body limit, no
  inspection of response bodies, and lists of distinct non-empty hosts and rooted clean prefixes.
\<close>

theorem NormalizeConfig_ok: "waf_config_ok (NormalizeConfig U cfg defaultRulesDir)"
proof -
  have hosts: "[] \<notin> set (waf_normalizeStringList U vs True)" for vs
    by (auto simp: waf_normalizeStringList_def string_item_def Let_def
        dest!: dedup_on_sound split: if_splits)
  show ?thesis
    unfolding waf_config_ok_def NormalizeConfig_def Let_def
    using hosts normalizePathPrefixes_clean
    by (simp add: normalize_rules_dir_nonempty level_or_def positive_or_def ModeBlocking_def
        waf_normalizeStringList_def normalizePathPrefixes_def distinct_dedup)
qed

section \<open>Sensitive names\<close>

definition sensitiveParts :: "string list" where
  "sensitiveParts =
     [''authorization'', ''cookie'', ''password'', ''passwd'', ''secret'', ''token'', ''session'',
      ''credential'', ''apikey'', ''api_key'']"

definition isSensitiveName :: "string \<Rightarrow> bool" where
  "isSensitiveName name =
     (let n = trim_space name
      in n \<noteq> [] \<and> list_ex (waf_containsFoldASCIIString n) sensitiveParts)"

section \<open>Redaction of a query\<close>

lemma cut_byte_True:
  assumes "cut_byte c s = (a, b, True)"
  shows "s = a @ c # b"
proof -
  from assms have "c \<in> set s" by (simp add: cut_byte_def split: if_splits)
  then obtain ys zs where s: "s = ys @ c # zs" "c \<notin> set ys" by (auto dest: split_list_first)
  then have "takeWhile (\<lambda>x. x \<noteq> c) s = ys" "dropWhile (\<lambda>x. x \<noteq> c) s = c # zs"
    by (auto simp: takeWhile_append dropWhile_append)
  with assms s show ?thesis by (simp add: cut_byte_def)
qed

lemma cut_byte_False: "cut_byte c s = (a, b, False) \<Longrightarrow> a = s"
  by (simp add: cut_byte_def split: if_splits)

text \<open>
  The loop of \<^verbatim>\<open>redactRawQueryFast\<close>: \<open>before\<close> is \<^verbatim>\<open>raw[:start]\<close>, \<open>rest\<close> is
  \<^verbatim>\<open>raw[start:]\<close>; the builder exists once something has changed.
\<close>

definition redacted_text :: string where
  "redacted_text = ''=%5Bredacted%5D''"

function redact_loop :: "string \<Rightarrow> string \<Rightarrow> string option \<Rightarrow> string option" where
  "redact_loop before rest builder =
     (case cut_byte CHR ''&'' rest of (part, rest', found) \<Rightarrow>
        let name = fst (cut_byte CHR ''='' part);
            builder1 =
              (if isSensitiveName name
               then Some ((case builder of None \<Rightarrow> before | Some b \<Rightarrow> b) @ name @ redacted_text)
               else map_option (\<lambda>b. b @ part) builder)
        in if \<not> found then builder1
           else redact_loop (before @ part @ ''&'') rest' (map_option (\<lambda>b. b @ ''&'') builder1))"
  by pat_completeness auto
termination
  by (relation "measure (\<lambda>(before, rest, builder). length rest)")
    (auto dest!: sym [of _ "cut_byte _ _"] cut_byte_True)

declare redact_loop.simps [simp del]

definition redactRawQueryFast :: "string \<Rightarrow> string option" where
  "redactRawQueryFast raw =
     (if contains_any raw ''%+;'' then None
      else (case redact_loop [] raw None of None \<Rightarrow> Some raw | Some b \<Rightarrow> Some b))"

definition redact_values :: "url_values \<Rightarrow> url_values" where
  "redact_values m = map (\<lambda>(k, vs). (k, if isSensitiveName k then [''[redacted]''] else vs)) m"

definition redactRawQuery :: "string \<Rightarrow> string" where
  "redactRawQuery raw =
     (if trim_space raw = [] then []
      else (case redactRawQueryFast raw of
              Some r \<Rightarrow> r
            | None \<Rightarrow> (case parse_query raw of (m, ok) \<Rightarrow>
                if ok then encode_query (redact_values m) else raw)))"

definition redactRequestURI :: "url option \<Rightarrow> string" where
  "redactRequestURI u =
     (case u of None \<Rightarrow> []
      | Some u \<Rightarrow> url_request_uri (u\<lparr>u_RawQuery := redactRawQuery (u_RawQuery u)\<rparr>))"

section \<open>The fast path redacts part by part\<close>

definition redact_part :: "string \<Rightarrow> string" where
  "redact_part p =
     (let name = fst (cut_byte CHR ''='' p)
      in if isSensitiveName name then name @ redacted_text else p)"

lemma split_byte_cut:
  "split_byte c s = (case cut_byte c s of (a, b, found) \<Rightarrow> if found then a # split_byte c b else [a])"
  by (induction s) (auto simp: cut_byte_def split: list.splits)

lemma redact_loop_spec:
  defines "out before builder \<equiv> (case builder of None \<Rightarrow> before | Some b \<Rightarrow> b)"
  shows "(case redact_loop before rest builder of None \<Rightarrow> before @ rest | Some b \<Rightarrow> b) =
    out before builder @ join_str ''&'' (map redact_part (split_byte CHR ''&'' rest))"
proof (induction before rest builder rule: redact_loop.induct)
  case (1 before rest builder)
  obtain part rest' found where c: "cut_byte CHR ''&'' rest = (part, rest', found)"
    by (metis surj_pair)
  let ?name = "fst (cut_byte CHR ''='' part)"
  let ?b1 = "if isSensitiveName ?name
     then Some ((case builder of None \<Rightarrow> before | Some b \<Rightarrow> b) @ ?name @ redacted_text)
     else map_option (\<lambda>b. b @ part) builder"
  have o1: "out (before @ part) ?b1 = out before builder @ redact_part part"
    by (auto simp: out_def redact_part_def Let_def split: option.splits)
  show ?case
  proof (cases found)
    case False
    then have r: "rest = part" using c cut_byte_False by auto
    have l: "redact_loop before rest builder = ?b1"
      using False by (simp add: redact_loop.simps [of before rest] c Let_def)
    have j: "join_str ''&'' (map redact_part (split_byte CHR ''&'' rest)) = redact_part part"
      using False by (simp add: split_byte_cut [of _ rest] c)
    show ?thesis
      using o1 unfolding l j unfolding out_def r .
  next
    case True
    let ?b2 = "map_option (\<lambda>b. b @ ''&'') ?b1"
    have r: "rest = part @ ''&'' @ rest'"
      using c True cut_byte_True by fastforce
    have l: "redact_loop before rest builder = redact_loop (before @ part @ ''&'') rest' ?b2"
      using True by (simp add: redact_loop.simps [of before rest] c Let_def)
    have o2: "out (before @ part @ ''&'') ?b2 = out (before @ part) ?b1 @ ''&''"
      by (simp add: out_def split: option.splits)
    have sp: "split_byte CHR ''&'' rest = part # split_byte CHR ''&'' rest'"
      using True by (simp add: split_byte_cut [of _ rest] c)
    have j: "join_str ''&'' (map redact_part (split_byte CHR ''&'' rest)) =
        redact_part part @ ''&'' @ join_str ''&'' (map redact_part (split_byte CHR ''&'' rest'))"
      unfolding sp by (cases "split_byte CHR ''&'' rest'") simp_all
    have ih: "(case redact_loop (before @ part @ ''&'') rest' ?b2 of
          None \<Rightarrow> (before @ part @ ''&'') @ rest' | Some b \<Rightarrow> b) =
        out (before @ part @ ''&'') ?b2 @
          join_str ''&'' (map redact_part (split_byte CHR ''&'' rest'))"
      using "1.IH" [OF c [symmetric] refl refl refl] True by simp
    have bs: "before @ rest = (before @ part @ ''&'') @ rest'" by (simp add: r)
    show ?thesis unfolding l j bs ih o2 o1 by simp
  qed
qed

text \<open>C1:
  The in-place redaction of a query without escapes returns the query itself when no parameter
  name is sensitive and otherwise the query in which each part with a sensitive name keeps the
  name and has its value replaced: the index arithmetic of the loop is a map over the parts
  between the ampersands.
\<close>

theorem redactRawQueryFast_parts:
  "redactRawQueryFast raw =
     (if contains_any raw ''%+;'' then None
      else Some (join_str ''&'' (map redact_part (split_byte CHR ''&'' raw))))"
  using redact_loop_spec [of "[]" raw None]
  by (simp add: redactRawQueryFast_def split: option.splits)

section \<open>No value of a sensitive parameter survives\<close>

text \<open>\<open>redacted_ok\<close>: every value under a sensitive name is the redaction mark.\<close>

definition redacted_ok :: "url_values \<Rightarrow> bool" where
  "redacted_ok m =
     (\<forall>k v. isSensitiveName k \<and> v \<in> set (values_get_all m k) \<longrightarrow> v = ''[redacted]'')"

lemma unescape_plain: "\<not> contains_any s ''%+;'' \<Longrightarrow> url_unescape Mode_Query s = Some s"
  by (induction s) (auto simp: contains_any_def)

lemma contains_any_sub: "set a \<subseteq> set b \<Longrightarrow> \<not> contains_any b cs \<Longrightarrow> \<not> contains_any a cs"
  by (auto simp: contains_any_def list_ex_iff)

lemma unescape_mark: "url_unescape Mode_Query ''%5Bredacted%5D'' = Some ''[redacted]''"
  by code_simp

lemma redacted_ok_add:
  "redacted_ok m \<Longrightarrow> (isSensitiveName k \<Longrightarrow> v = ''[redacted]'') \<Longrightarrow> redacted_ok (values_add k v m)"
  by (auto simp: redacted_ok_def values_get_all_add split: if_splits)

lemma query_part_redacted:
  assumes "redacted_ok (fst st)" "\<not> contains_any p ''%+;''"
  shows "redacted_ok (fst (query_part st (redact_part p)))"
proof -
  obtain m ok where st: "st = (m, ok)" by (cases st)
  let ?name = "fst (cut_byte CHR ''='' p)"
  have np: "set ?name \<subseteq> set p" by (auto simp: cut_byte_def dest: set_takeWhileD)
  have nn: "\<not> contains_any ?name ''%+;''" by (rule contains_any_sub [OF np assms(2)])
  show ?thesis
  proof (cases "isSensitiveName ?name")
    case True
    have e: "CHR ''='' \<notin> set ?name" by (auto simp: cut_byte_def dest: set_takeWhileD)
    have c: "cut_byte CHR ''='' (?name @ redacted_text) = (?name, ''%5Bredacted%5D'', True)"
      using cut_byte_append [OF e, of "''%5Bredacted%5D''"] by (simp add: redacted_text_def)
    have semi: "CHR '';'' \<notin> set (?name @ redacted_text)"
      using nn by (auto simp: contains_any_def list_ex_iff redacted_text_def)
    have "query_part (m, ok) (redact_part p) = (values_add ?name ''[redacted]'' m, ok)"
      using True semi c unescape_plain [OF nn] unescape_mark
      by (simp add: query_part_def redact_part_def Let_def redacted_text_def)
    with assms(1) st show ?thesis by (simp add: redacted_ok_add)
  next
    case False
    then have r: "redact_part p = p" by (simp add: redact_part_def Let_def)
    obtain k v f where c: "cut_byte CHR ''='' p = (k, v, f)" by (metis surj_pair)
    have vp: "set v \<subseteq> set p"
    proof (cases f)
      case True
      with c have "p = k @ CHR ''='' # v" by (simp add: cut_byte_True)
      then show ?thesis by auto
    next
      case False
      with c have "v = []" by (simp add: cut_byte_def split: if_splits)
      then show ?thesis by simp
    qed
    have k: "url_unescape Mode_Query k = Some k" "url_unescape Mode_Query v = Some v"
      using nn c unescape_plain unescape_plain [OF contains_any_sub [OF vp assms(2)]] by auto
    show ?thesis
      using assms(1) False c st k redacted_ok_add [of m k v] by (simp add: query_part_def r)
  qed
qed

lemma query_parts_redacted:
  "redacted_ok (fst st) \<Longrightarrow> \<forall>p \<in> set ps. \<not> contains_any p ''%+;'' \<Longrightarrow>
     redacted_ok (fst (foldl query_part st (map redact_part ps)))"
  by (induction ps arbitrary: st) (simp_all add: query_part_redacted)


lemma parse_join:
  assumes "\<forall>p \<in> set ps. CHR ''&'' \<notin> set p"
  shows "parse_query (join_str ''&'' ps) = foldl query_part ([], True) ps \<or> join_str ''&'' ps = []"
  using assms split_join [of ps "CHR ''&''"]
  by (cases "ps = []") (auto simp: parse_query_def)

lemma fast_redacted:
  assumes "redactRawQueryFast raw = Some r"
  shows "redacted_ok (fst (parse_query r))"
proof -
  let ?ps = "split_byte CHR ''&'' raw"
  from assms have plain: "\<not> contains_any raw ''%+;''" and r: "r = join_str ''&'' (map redact_part ?ps)"
    unfolding redactRawQueryFast_parts by (auto split: if_splits)
  have sub: "set p \<subseteq> set raw" if "p \<in> set ?ps" for p
    using that
  proof (induction raw arbitrary: p)
    case (Cons x xs)
    then show ?case
      by (cases "split_byte CHR ''&'' xs") (fastforce split: if_splits)+
  qed simp
  have pp: "\<forall>p \<in> set ?ps. \<not> contains_any p ''%+;''"
    using sub plain contains_any_sub by (metis subsetI)
  have amp: "CHR ''&'' \<notin> set (redact_part p)" if "p \<in> set ?ps" for p
    using split_byte_no_sep [OF that]
    by (auto simp: redact_part_def Let_def redacted_text_def cut_byte_def dest: set_takeWhileD
        split: if_splits)
  have ok: "redacted_ok (fst (foldl query_part ([], True) (map redact_part ?ps)))"
    by (rule query_parts_redacted [OF _ pp]) (simp add: redacted_ok_def values_get_all_def al_get_def)
  have empty: "redacted_ok (fst (parse_query []))"
    by (simp add: parse_query_def redacted_ok_def values_get_all_def al_get_def)
  have "\<forall>p \<in> set (map redact_part ?ps). CHR ''&'' \<notin> set p" using amp by auto
  then consider "parse_query r = foldl query_part ([], True) (map redact_part ?ps)" | "r = []"
    unfolding r using parse_join by blast
  then show ?thesis using ok empty by cases simp_all
qed

lemma values_redact:
  "values_get_all (redact_values m) k =
     (if k \<in> fst ` set m \<and> isSensitiveName k then [''[redacted]''] else values_get_all m k)"
  by (induction m) (auto simp: values_get_all_def redact_values_def al_get_def split: option.splits)

lemma redact_values_ok: "redacted_ok (redact_values m)"
  unfolding redacted_ok_def values_redact
  by (auto simp: values_get_all_def al_get_def split: option.splits if_splits
      dest!: sym [of "Some _" "map_of _ _"] map_of_SomeD intro: rev_image_eqI)

lemma al_ok_query_part: "al_ok (fst st) \<Longrightarrow> al_ok (fst (query_part st p))"
  by (auto simp: query_part_def values_add_def split: prod.splits option.splits)

lemma parse_query_ok: "al_ok (fst (parse_query q))"
proof -
  have "al_ok (fst st) \<Longrightarrow> al_ok (fst (foldl query_part st ps))" for st ps
    by (induction ps arbitrary: st) (simp_all add: al_ok_query_part)
  then show ?thesis by (simp add: parse_query_def)
qed



end
