(* ===== verification/WafRules.thy ===== *)
theory WafRules
  imports WafConfig Sha256
begin

text \<open>
  Loading the rule files of the web application firewall, \<^verbatim>\<open>pkg/waf/loader.go\<close>: which files
  are loaded and in which order, the rule ids they define, the removal of directives that update
  a rule that is not loaded, the hash of the rule set and the directives derived from the
  configuration.  The lemmas show that the scan for rule ids with its jump finds the id at every
  position, that the copy-on-change filter replaces line by line, and which files are loaded.

  The file system is a record of what the operating system answers: the files with their
  contents (\<open>None\<close> for one that cannot be read), the directories that can be made, the
  current directory.  The names of the rules directory hold no pattern character of
  \<^verbatim>\<open>filepath.Glob\<close>.  The rule engine and the decoding of \<^verbatim>\<open>rules-state.json\<close>
  are parameters.
\<close>

section \<open>Rule ids in a line\<close>

definition isRegexpSpace :: "char \<Rightarrow> bool" where
  "isRegexpSpace c = (byte c \<in> {32, 9, 10, 12, 13})"

definition isRegexpWordByte :: "char \<Rightarrow> bool" where
  "isRegexpWordByte c =
     ((97 \<le> byte c \<and> byte c \<le> 122) \<or> (65 \<le> byte c \<and> byte c \<le> 90) \<or>
      (48 \<le> byte c \<and> byte c \<le> 57) \<or> c = CHR ''_'')"

definition isASCIIDigit :: "char \<Rightarrow> bool" where
  "isASCIIDigit c = (48 \<le> byte c \<and> byte c \<le> 57)"

text \<open>The first position from \<open>j\<close> on whose byte does not satisfy \<open>P\<close>.\<close>

definition skip_from :: "(char \<Rightarrow> bool) \<Rightarrow> string \<Rightarrow> nat \<Rightarrow> nat" where
  "skip_from P line j = j + length (takeWhile P (drop j line))"

lemma skip_from_ge: "j \<le> skip_from P line j"
  by (simp add: skip_from_def)

lemma scan_decreases:
  assumes "i + 1 < length line" "j = skip_from P line (i + 2)"
    "start = skip_from P line (j + 1)" "e = skip_from Q line start"
  shows "length line - (e + 1) < length line - i"
  using assms skip_from_ge [of "i + 2" P line] skip_from_ge [of "j + 1" P line]
    skip_from_ge [of start Q line] by linarith

lemma scan_next: "i + 1 < length line \<Longrightarrow> length line - (i + 1) < length line - i" for i :: nat
  by linarith

fun rule_id_digits :: "int \<Rightarrow> string \<Rightarrow> int option" where
  "rule_id_digits n [] = Some n"
| "rule_id_digits n (c # cs) =
     (if byte c < 48 \<or> byte c > 57 then None
      else let digit = int (byte c) - 48
           in if n > (max_int64 - digit) div 10 then None
              else rule_id_digits (n * 10 + digit) cs)"

definition parseRuleIDDigits :: "string \<Rightarrow> int option" where
  "parseRuleIDDigits raw = (if raw = [] then None else rule_id_digits 0 raw)"

function scan_rule_ids :: "string \<Rightarrow> nat \<Rightarrow> int list \<Rightarrow> int list" where
  "scan_rule_ids line i ids =
     (if i + 1 < length line then
        if lowerASCII (line ! i) \<noteq> CHR ''i'' \<or> lowerASCII (line ! (i + 1)) \<noteq> CHR ''d''
        then scan_rule_ids line (i + 1) ids
        else if i > 0 \<and> isRegexpWordByte (line ! (i - 1)) then scan_rule_ids line (i + 1) ids
        else let j = skip_from isRegexpSpace line (i + 2)
             in if j \<ge> length line \<or> line ! j \<noteq> CHR '':'' then scan_rule_ids line (i + 1) ids
                else let start = skip_from isRegexpSpace line (j + 1);
                         e = skip_from isASCIIDigit line start
                     in if start = e then scan_rule_ids line (i + 1) ids
                        else if e < length line \<and> isRegexpWordByte (line ! e)
                        then scan_rule_ids line (i + 1) ids
                        else scan_rule_ids line (e + 1)
                               (case parseRuleIDDigits (take (e - start) (drop start line)) of
                                  Some n \<Rightarrow> List.insert n ids | None \<Rightarrow> ids)
      else ids)"
  by pat_completeness auto
termination
  apply (relation "measure (\<lambda>(line, i, ids). length line - i)")
        apply (rule wf_measure)
       apply (unfold in_measure case_prod_conv)
       apply (erule scan_next)+
  apply (erule (3) scan_decreases)
  done

declare scan_rule_ids.simps [simp del]

definition collectRuleIDActionIDs :: "string \<Rightarrow> int list \<Rightarrow> int list" where
  "collectRuleIDActionIDs line ids = scan_rule_ids line 0 ids"

function collect_lines :: "string \<Rightarrow> int list \<Rightarrow> int list" where
  "collect_lines raw ids =
     (if raw = [] then ids
      else (case cut_byte CHR 0x0A raw of (l, rest, found) \<Rightarrow>
              let line = trim_space l;
                  ids1 = (if line = [] \<or> hd line = CHR ''#'' then ids
                          else collectRuleIDActionIDs line ids)
              in if \<not> found then ids1 else collect_lines rest ids1))"
  by pat_completeness auto
termination
  by (relation "measure (\<lambda>(raw, ids). length raw)")
    (auto dest!: sym [of _ "cut_byte _ _"] cut_byte_True)

declare collect_lines.simps [simp del]

section \<open>The scan finds every rule id\<close>

text \<open>The id that an action \<^verbatim>\<open>id:n\<close> at position \<open>i\<close> gives, if there is one.\<close>

definition rule_id_at :: "string \<Rightarrow> nat \<Rightarrow> int option" where
  "rule_id_at line i =
     (let j = skip_from isRegexpSpace line (i + 2);
          start = skip_from isRegexpSpace line (j + 1);
          e = skip_from isASCIIDigit line start
      in if i + 1 < length line \<and>
            lowerASCII (line ! i) = CHR ''i'' \<and> lowerASCII (line ! (i + 1)) = CHR ''d'' \<and>
            \<not> (i > 0 \<and> isRegexpWordByte (line ! (i - 1))) \<and>
            j < length line \<and> line ! j = CHR '':'' \<and>
            start \<noteq> e \<and> \<not> (e < length line \<and> isRegexpWordByte (line ! e))
         then parseRuleIDDigits (take (e - start) (drop start line)) else None)"

definition ids_from :: "string \<Rightarrow> nat \<Rightarrow> int list" where
  "ids_from line i = List.map_filter (rule_id_at line) [i..<length line]"

lemma rule_id_at_start:
  assumes "rule_id_at line i = Some n"
  shows "i + 1 < length line \<and> lowerASCII (line ! i) = CHR ''i''"
  using assms by (simp add: rule_id_at_def Let_def split: if_splits)

lemma skip_from_holds:
  assumes "j \<le> k" "k < skip_from P line j"
  shows "P (line ! k)"
proof -
  let ?w = "takeWhile P (drop j line)"
  from assms have k: "k - j < length ?w" by (simp add: skip_from_def)
  then have "?w ! (k - j) = drop j line ! (k - j)" by (rule takeWhile_nth)
  also have "\<dots> = line ! k"
    using assms k length_takeWhile_le [of P "drop j line"] by (simp add: nth_drop)
  finally have "?w ! (k - j) = line ! k" .
  moreover have "?w ! (k - j) \<in> set ?w" using k by (rule nth_mem)
  ultimately show ?thesis by (metis set_takeWhileD)
qed

lemma ids_from_step:
  "i < length line \<Longrightarrow> ids_from line i =
     (case rule_id_at line i of Some n \<Rightarrow> [n] | None \<Rightarrow> []) @ ids_from line (i + 1)"
  by (simp add: ids_from_def upt_conv_Cons List.map_filter_simps split: option.splits)

lemma ids_from_end: "length line \<le> i + 1 \<Longrightarrow> ids_from line i = []"
proof -
  assume "length line \<le> i + 1"
  then have "\<forall>k \<in> set [i..<length line]. rule_id_at line k = None"
    by (auto simp: rule_id_at_def Let_def)
  then show "ids_from line i = []"
    by (simp add: ids_from_def List.map_filter_def)
qed

lemma ids_from_skip:
  assumes "i \<le> e" "\<And>k. i \<le> k \<Longrightarrow> k < e \<Longrightarrow> rule_id_at line k = None"
  shows "ids_from line i = ids_from line e"
  using assms
proof (induction "e - i" arbitrary: i)
  case 0
  then show ?case by simp
next
  case (Suc d)
  then have ih: "ids_from line (i + 1) = ids_from line e" by simp
  have n: "rule_id_at line i = None" using Suc.prems Suc.hyps by simp
  show ?case
  proof (cases "i < length line")
    case True
    with ids_from_step [of i line] n ih show ?thesis by simp
  next
    case False
    then show ?thesis using Suc.prems by (simp add: ids_from_def)
  qed
qed


lemma lower_i:
  assumes "lowerASCII c = CHR ''i''"
  shows "isRegexpWordByte c" "\<not> isRegexpSpace c" "\<not> isASCIIDigit c" "c \<noteq> CHR '':''" "lowerASCII c \<noteq> CHR ''d''"
proof -
  have "byte (lowerASCII c) = 105" using assms by (simp add: byte_def)
  then have b: "byte c = 105 \<or> byte c = 73" by (auto simp: byte_lowerASCII split: if_splits)
  then show "isRegexpWordByte c" "\<not> isRegexpSpace c" "\<not> isASCIIDigit c"
    by (auto simp: isRegexpWordByte_def isRegexpSpace_def isASCIIDigit_def)
  from b show "c \<noteq> CHR '':''" by (auto simp: byte_def)
  from assms show "lowerASCII c \<noteq> CHR ''d''" by simp
qed

lemma jump_loses_nothing:
  assumes "lowerASCII (line ! (i + 1)) = CHR ''d''"
    and j: "j = skip_from isRegexpSpace line (i + 2)" "line ! j = CHR '':''"
    and start: "start = skip_from isRegexpSpace line (j + 1)"
    and e: "e = skip_from isASCIIDigit line start" "\<not> (e < length line \<and> isRegexpWordByte (line ! e))"
    and k: "i + 1 \<le> k" "k < e + 1"
  shows "rule_id_at line k = None"
proof (rule ccontr)
  assume "rule_id_at line k \<noteq> None"
  then have li: "k < length line" "lowerASCII (line ! k) = CHR ''i''"
    using rule_id_at_start by fastforce+
  note n = lower_i [OF li(2)]
  consider "k = i + 1" | "i + 2 \<le> k" "k < j" | "k = j" | "j + 1 \<le> k" "k < start"
    | "start \<le> k" "k < e" | "k = e"
    using k by linarith
  then show False
  proof cases
    case 1 with n(5) assms(1) show ?thesis by simp
  next
    case 2 with n(2) j(1) skip_from_holds show ?thesis by blast
  next
    case 3 with n(4) j(2) show ?thesis by simp
  next
    case 4 with n(2) start skip_from_holds show ?thesis by blast
  next
    case 5 with n(3) e(1) skip_from_holds show ?thesis by blast
  next
    case 6 with n(1) e(2) li(1) show ?thesis by blast
  qed
qed

lemma scan_spec: "set (scan_rule_ids line i ids) = set ids \<union> set (ids_from line i)"
proof (induction line i ids rule: scan_rule_ids.induct)
  case (1 line i ids)
  define j where "j = skip_from isRegexpSpace line (i + 2)"
  define start where "start = skip_from isRegexpSpace line (j + 1)"
  define e where "e = skip_from isASCIIDigit line start"
  define hit where "hit \<longleftrightarrow> lowerASCII (line ! i) = CHR ''i'' \<and> lowerASCII (line ! (i + 1)) = CHR ''d'' \<and>
     \<not> (i > 0 \<and> isRegexpWordByte (line ! (i - 1))) \<and> j < length line \<and> line ! j = CHR '':'' \<and>
     start \<noteq> e \<and> \<not> (e < length line \<and> isRegexpWordByte (line ! e))"
  define n where "n = parseRuleIDDigits (take (e - start) (drop start line))"
  show ?case
  proof (cases "i + 1 < length line")
    case False
    then show ?thesis by (simp add: scan_rule_ids.simps [of line i] ids_from_end)
  next
    case inside: True
    then have at: "rule_id_at line i = (if hit then n else None)"
      unfolding rule_id_at_def Let_def hit_def n_def j_def [symmetric] start_def [symmetric] e_def [symmetric]
      by simp
    have step: "set (ids_from line i) =
        (case rule_id_at line i of Some m \<Rightarrow> {m} | None \<Rightarrow> {}) \<union> set (ids_from line (i + 1))"
      using inside by (simp add: ids_from_step [of i line] split: option.splits)
    show ?thesis
    proof (cases hit)
      case False
      have eq: "scan_rule_ids line i ids = scan_rule_ids line (i + 1) ids"
        using False inside
        unfolding hit_def scan_rule_ids.simps [of line i] Let_def
          j_def [symmetric] start_def [symmetric] e_def [symmetric]
        by (simp only: if_True de_Morgan_conj not_not not_less split: if_split) blast
      have "set (scan_rule_ids line (i + 1) ids) = set ids \<union> set (ids_from line (i + 1))"
        using "1.IH" False inside unfolding hit_def j_def start_def e_def
        by (smt (verit) not_le)
      with eq step at False show ?thesis by simp
    next
      case True
      note h = True [unfolded hit_def]
      let ?ids = "case n of Some m \<Rightarrow> List.insert m ids | None \<Rightarrow> ids"
      have eq: "scan_rule_ids line i ids = scan_rule_ids line (e + 1) ?ids"
        using h inside unfolding n_def scan_rule_ids.simps [of line i] Let_def
          j_def [symmetric] start_def [symmetric] e_def [symmetric] by auto
      have ih: "set (scan_rule_ids line (e + 1) ?ids) = set ?ids \<union> set (ids_from line (e + 1))"
        unfolding n_def e_def
        by (rule "1.IH"(6) [OF inside _ _ j_def _ start_def refl]) (use h in \<open>auto simp: e_def\<close>)
      have "i + 1 \<le> e + 1"
        using skip_from_ge [of "i + 2" isRegexpSpace line] skip_from_ge [of "j + 1" isRegexpSpace line]
          skip_from_ge [of start isASCIIDigit line] unfolding j_def start_def e_def by linarith
      then have "ids_from line (i + 1) = ids_from line (e + 1)"
        using jump_loses_nothing [OF _ j_def _ start_def e_def] h by (intro ids_from_skip) auto
      with eq ih step at True show ?thesis by (auto split: option.splits)
    qed
  qed
qed


text \<open>C1:
  The scan of a rule line, which jumps behind each id it has read, collects exactly the ids that
  the action \<^verbatim>\<open>id:n\<close> gives at some position of the line: the jump skips no occurrence.
\<close>

theorem collectRuleIDActionIDs_complete:
  "set (collectRuleIDActionIDs line ids) =
     set ids \<union> set (List.map_filter (rule_id_at line) [0..<length line])"
  unfolding collectRuleIDActionIDs_def scan_spec ids_from_def ..

section \<open>Directives for rules that are not loaded\<close>

definition equalFoldASCIIPrefixBytes :: "string \<Rightarrow> string \<Rightarrow> bool" where
  "equalFoldASCIIPrefixBytes value pre =
     (if length value < length pre then False
      else list_all (\<lambda>i. lowerASCII (value ! i) = lowerASCII (pre ! i)) [0..<length pre])"

definition secRuleUpdateTargetByIDDirective :: string where
  "secRuleUpdateTargetByIDDirective = ''SecRuleUpdateTargetById''"

definition parseSecRuleUpdateTargetByID :: "string \<Rightarrow> string option" where
  "parseSecRuleUpdateTargetByID line =
     (if \<not> equalFoldASCIIPrefixBytes line secRuleUpdateTargetByIDDirective then None
      else let i = length secRuleUpdateTargetByIDDirective
           in if i \<ge> length line \<or> \<not> isRegexpSpace (line ! i) then None
              else let start = skip_from isRegexpSpace line i;
                       e = skip_from isASCIIDigit line start
                   in if start = e then None
                      else if e < length line \<and> isRegexpWordByte (line ! e) then None
                      else Some (take (e - start) (drop start line)))"

text \<open>The digits of a directive that updates a rule which is not defined.\<close>

definition missingUpdateTargetRuleID :: "string \<Rightarrow> int list \<Rightarrow> string option" where
  "missingUpdateTargetRuleID line definedRuleIDs =
     (let trimmed = trim_space line
      in if trimmed = [] \<or> hd trimmed = CHR ''#'' then None
         else (case parseSecRuleUpdateTargetByID trimmed of
                 None \<Rightarrow> None
               | Some digits \<Rightarrow> (case parseRuleIDDigits digits of
                   None \<Rightarrow> None
                 | Some n \<Rightarrow> if n \<in> set definedRuleIDs then None else Some digits)))"

definition skipped_line :: "string \<Rightarrow> string \<Rightarrow> string" where
  "skipped_line digits line =
     ''# fn-knock skipped SecRuleUpdateTargetById '' @ digits @
     '' because the target rule is not enabled'' @
     (if line \<noteq> [] \<and> last line = CHR 0x0A then [CHR 0x0A] else [])"

text \<open>
  The loop of \<^verbatim>\<open>filterMissingUpdateTargetDirectives\<close>: \<open>before\<close> is
  \<^verbatim>\<open>raw[:start]\<close>, \<open>pending\<close> is \<^verbatim>\<open>raw[copyStart:start]\<close>; the output exists once
  a line has been replaced.
\<close>

definition first_line :: "string \<Rightarrow> string" where
  "first_line raw =
     (case cut_byte CHR 0x0A raw of (l, rest, found) \<Rightarrow> if found then l @ [CHR 0x0A] else l)"

lemma first_line_nonempty: "raw \<noteq> [] \<Longrightarrow> 0 < length (first_line raw)"
  by (auto simp: first_line_def cut_byte_def)

lemma rest_shorter: "raw \<noteq> [] \<Longrightarrow> length raw - length (first_line raw) < length raw"
  using first_line_nonempty [of raw] by simp

lemma first_line_prefix: "first_line raw @ drop (length (first_line raw)) raw = raw"
proof -
  obtain l rest found where c: "cut_byte CHR 0x0A raw = (l, rest, found)" by (metis surj_pair)
  show ?thesis
  proof (cases found)
    case True
    with c have "raw = l @ CHR 0x0A # rest" by (simp add: cut_byte_True)
    with True c show ?thesis by (simp add: first_line_def)
  next
    case False
    with c cut_byte_False show ?thesis by (fastforce simp: first_line_def)
  qed
qed

function filter_loop :: "int list \<Rightarrow> string \<Rightarrow> string \<Rightarrow> string option \<Rightarrow> string \<Rightarrow>
    string \<times> string option" where
  "filter_loop ids before pending out rest =
     (if rest = [] then (pending, out)
      else let line = first_line rest; rest' = drop (length line) rest
           in (case missingUpdateTargetRuleID line ids of
                 Some digits \<Rightarrow>
                   filter_loop ids (before @ line) []
                     (Some ((case out of None \<Rightarrow> before | Some o1 \<Rightarrow> o1 @ pending) @
                            skipped_line digits line)) rest'
               | None \<Rightarrow> filter_loop ids (before @ line) (pending @ line) out rest'))"
  by pat_completeness auto
termination
  by (relation "measure (\<lambda>(ids, before, pending, out, rest). length rest)")
    (simp_all add: rest_shorter)

declare filter_loop.simps [simp del]

definition filterMissingUpdateTargetDirectives :: "string \<Rightarrow> int list \<Rightarrow> string \<times> bool" where
  "filterMissingUpdateTargetDirectives raw definedRuleIDs =
     (case filter_loop definedRuleIDs [] [] None raw of
        (pending, None) \<Rightarrow> (raw, False)
      | (pending, Some o1) \<Rightarrow> (o1 @ pending, True))"

text \<open>The lines of a file, each with its newline, and what becomes of one line.\<close>

function file_lines :: "string \<Rightarrow> string list" where
  "file_lines raw =
     (if raw = [] then [] else first_line raw # file_lines (drop (length (first_line raw)) raw))"
  by pat_completeness auto
termination
  by (relation "measure length") (simp_all add: rest_shorter)

declare file_lines.simps [simp del]

definition filter_line :: "int list \<Rightarrow> string \<Rightarrow> string" where
  "filter_line ids line =
     (case missingUpdateTargetRuleID line ids of Some digits \<Rightarrow> skipped_line digits line | None \<Rightarrow> line)"

lemma file_lines_concat: "concat (file_lines raw) = raw"
  by (induction raw rule: file_lines.induct)
    (simp add: file_lines.simps [of raw for raw] first_line_prefix)


lemma file_lines_Nil [simp]: "file_lines [] = []"
  by (simp add: file_lines.simps [of "[]"])

lemma filter_loop_Nil [simp]: "filter_loop ids before pending out [] = (pending, out)"
  by (simp add: filter_loop.simps [of _ _ _ _ "[]"])

lemma filter_loop_spec:
  assumes "out = None \<Longrightarrow> pending = before"
  shows "case filter_loop ids before pending out rest of (p, o1) \<Rightarrow>
     (case o1 of None \<Rightarrow> p | Some s \<Rightarrow> s @ p) =
       (case out of None \<Rightarrow> before | Some s \<Rightarrow> s @ pending) @
         concat (map (filter_line ids) (file_lines rest)) \<and>
     (o1 = None \<longleftrightarrow> out = None \<and>
       list_all (\<lambda>l. missingUpdateTargetRuleID l ids = None) (file_lines rest))"
  using assms
proof (induction ids before pending out rest rule: filter_loop.induct)
  case (1 ids before pending out rest)
  show ?case
  proof (cases "rest = []")
    case True
    with "1.prems" show ?thesis by (simp split: option.splits)
  next
    case False
    let ?line = "first_line rest"
    let ?rest = "drop (length ?line) rest"
    have fl: "file_lines rest = ?line # file_lines ?rest"
      using False by (simp add: file_lines.simps [of rest])
    show ?thesis
    proof (cases "missingUpdateTargetRuleID ?line ids")
      case None
      have l: "filter_loop ids before pending out rest =
          filter_loop ids (before @ ?line) (pending @ ?line) out ?rest"
        using False None by (simp add: filter_loop.simps [of ids before pending out rest] Let_def)
      have k: "filter_line ids ?line = ?line" using None by (simp add: filter_line_def)
      show ?thesis
        using "1.IH"(1) [OF False refl refl None] "1.prems" unfolding l fl
        by (auto simp: None k split: option.splits prod.splits)
    next
      case (Some digits)
      let ?out = "Some ((case out of None \<Rightarrow> before | Some o1 \<Rightarrow> o1 @ pending) @ skipped_line digits ?line)"
      have l: "filter_loop ids before pending out rest =
          filter_loop ids (before @ ?line) [] ?out ?rest"
        using False Some by (simp add: filter_loop.simps [of ids before pending out rest] Let_def)
      have k: "filter_line ids ?line = skipped_line digits ?line" using Some by (simp add: filter_line_def)
      show ?thesis
        using "1.IH"(2) [OF False refl refl Some] unfolding l fl
        by (auto simp: Some k split: option.splits prod.splits)
    qed
  qed
qed

lemma filter_is_line_map:
  "filterMissingUpdateTargetDirectives raw ids =
     (concat (map (filter_line ids) (file_lines raw)),
      \<not> list_all (\<lambda>l. missingUpdateTargetRuleID l ids = None) (file_lines raw))"
proof -
  obtain p o1 where l: "filter_loop ids [] [] None raw = (p, o1)" by (metis surj_pair)
  let ?all = "list_all (\<lambda>l. missingUpdateTargetRuleID l ids = None) (file_lines raw)"
  have s: "(case o1 of None \<Rightarrow> p | Some s \<Rightarrow> s @ p) = concat (map (filter_line ids) (file_lines raw))"
    and n: "o1 = None \<longleftrightarrow> ?all"
    using filter_loop_spec [of None "[]" "[]" ids raw] by (simp_all add: l)
  have id: "concat (map (filter_line ids) (file_lines raw)) = raw" if ?all
  proof -
    have "map (filter_line ids) (file_lines raw) = file_lines raw"
      using that by (intro map_idI) (simp add: filter_line_def list_all_iff)
    then show ?thesis by (simp add: file_lines_concat)
  qed
  show ?thesis
    using s n id by (cases o1) (auto simp: filterMissingUpdateTargetDirectives_def l)
qed


text \<open>A list of lines: each ends with a newline, the last one may not, none holds another.\<close>

definition nl :: char where
  "nl = CHR 0x0A"

fun line_list :: "string list \<Rightarrow> bool" where
  "line_list [] = True"
| "line_list (l # ls) =
     (l \<noteq> [] \<and> nl \<notin> set (butlast l) \<and> (ls \<noteq> [] \<longrightarrow> last l = nl) \<and> line_list ls)"

lemma first_line_of:
  assumes "l \<noteq> []" "nl \<notin> set (butlast l)" "s \<noteq> [] \<longrightarrow> last l = nl"
  shows "first_line (l @ s) = l"
proof (cases "last l = nl")
  case True
  then have l: "l = butlast l @ [nl]" using assms(1) by (metis append_butlast_last_id)
  then have "cut_byte nl (l @ s) = (butlast l, s, True)"
    using assms(2) cut_byte_append [of nl "butlast l" s]
    by (metis append_Cons append_Nil append_assoc)
  with l show ?thesis by (simp add: first_line_def nl_def)
next
  case False
  then have "s = []" and "nl \<notin> set l"
    using assms by (auto simp: in_set_butlast_appendI) (metis append_butlast_last_id
        in_set_conv_decomp_first rotate1.simps(2) set_ConsD set_rotate1)
  then show ?thesis by (simp add: first_line_def nl_def cut_byte_def)
qed

lemma file_lines_of: "line_list ls \<Longrightarrow> file_lines (concat ls) = ls"
proof (induction ls)
  case (Cons l ls)
  have ne: "concat ls \<noteq> [] \<longrightarrow> last l = nl" using Cons.prems by auto
  then have "first_line (l @ concat ls) = l"
    using Cons.prems by (intro first_line_of) auto
  with Cons show ?case by (simp add: file_lines.simps [of "l @ concat ls"])
qed simp

lemma file_lines_line_list: "line_list (file_lines raw)"
proof (induction raw rule: file_lines.induct)
  case (1 raw)
  show ?case
  proof (cases "raw = []")
    case False
    let ?l = "first_line raw"
    let ?r = "drop (length ?l) raw"
    have fl: "file_lines raw = ?l # file_lines ?r" using False by (simp add: file_lines.simps [of raw])
    obtain x rest found where c: "cut_byte nl raw = (x, rest, found)" by (metis surj_pair)
    have x: "nl \<notin> set x"
      using c by (auto simp: cut_byte_def split: if_splits dest: set_takeWhileD)
    have l: "?l = (if found then x @ [nl] else x)"
      using c by (simp add: first_line_def nl_def)
    have "?r = []" if "\<not> found"
      using that c cut_byte_False [of nl raw] l by auto
    moreover have "?l \<noteq> []" using first_line_nonempty [OF False] by simp
    moreover have "nl \<notin> set (butlast ?l)" using l x by (auto dest: in_set_butlastD)
    moreover have "line_list (file_lines ?r)" by (rule "1.IH" [OF False])
    ultimately show ?thesis unfolding fl using l by auto
  qed simp
qed

lemma digits_only:
  assumes "missingUpdateTargetRuleID line ids = Some digits"
  shows "nl \<notin> set digits"
proof -
  let ?l = "trim_space line"
  let ?s = "skip_from isRegexpSpace ?l (length secRuleUpdateTargetByIDDirective)"
  have "parseSecRuleUpdateTargetByID ?l = Some digits"
    using assms by (simp add: missingUpdateTargetRuleID_def Let_def split: if_split_asm option.split_asm)
  then have "take (skip_from isASCIIDigit ?l ?s - ?s) (drop ?s ?l) = digits"
    unfolding parseSecRuleUpdateTargetByID_def Let_def
    by (simp only: option.inject option.distinct split: if_split_asm)
  then have "digits = takeWhile isASCIIDigit (drop ?s ?l)"
    by (simp add: skip_from_def takeWhile_eq_take [symmetric])
  moreover have "\<not> isASCIIDigit nl" by (simp add: isASCIIDigit_def nl_def byte_def)
  ultimately show ?thesis by (auto dest: set_takeWhileD)
qed

lemma filter_line_shape:
  assumes "l \<noteq> []" "nl \<notin> set (butlast l)"
  shows "filter_line ids l \<noteq> [] \<and> nl \<notin> set (butlast (filter_line ids l)) \<and>
    (last (filter_line ids l) = nl \<longleftrightarrow> last l = nl)"
proof (cases "missingUpdateTargetRuleID l ids")
  case None
  with assms show ?thesis by (simp add: filter_line_def)
next
  case (Some digits)
  define pre where "pre = ''# fn-knock skipped SecRuleUpdateTargetById '' @ digits @
     '' because the target rule is not enable''"
  have n: "nl \<notin> set pre"
    using digits_only [OF Some] by (simp add: pre_def nl_def)
  have "filter_line ids l = pre @ ''d'' @ (if last l = nl then [nl] else [])"
    using assms(1) by (simp add: filter_line_def Some skipped_line_def pre_def nl_def)
  with n show ?thesis by (simp add: nl_def butlast_append)
qed

lemma filter_lines_line_list: "line_list ls \<Longrightarrow> line_list (map (filter_line ids) ls)"
  by (induction ls) (simp_all add: filter_line_shape)

lemma comment_trimmed: "trim_space (CHR ''#'' # s) = [] \<or> hd (trim_space (CHR ''#'' # s)) = CHR ''#''"
proof -
  have "trim_left (CHR ''#'' # s) = CHR ''#'' # s"
    by (intro trim_left_id space_len_graph) (simp add: graph_char_def byte_def)
  then have "prefix (trim_space (CHR ''#'' # s)) (CHR ''#'' # s)"
    using trim_right_prefix by (metis trim_space_def)
  then show ?thesis by (auto simp: prefix_Cons)
qed

lemma filter_line_done: "missingUpdateTargetRuleID (filter_line ids l) ids = None"
proof (cases "missingUpdateTargetRuleID l ids")
  case (Some digits)
  then obtain s where "filter_line ids l = CHR ''#'' # s" by (simp add: filter_line_def skipped_line_def)
  with comment_trimmed [of s] show ?thesis
    by (auto simp: missingUpdateTargetRuleID_def Let_def)
qed (simp add: filter_line_def)

text \<open>C17:
  The rule file handed to the engine is the file on disk with each line that updates an
  undefined rule replaced by a comment, in place and with its line end; the flag says whether
  there was such a line; and the filtered file passes a second filter unchanged, so no directive
  for an undefined rule is left in it.
\<close>

theorem update_targets_filtered:
  "filterMissingUpdateTargetDirectives raw ids =
     (concat (map (filter_line ids) (file_lines raw)),
      \<not> list_all (\<lambda>l. missingUpdateTargetRuleID l ids = None) (file_lines raw)) \<and>
   filterMissingUpdateTargetDirectives (fst (filterMissingUpdateTargetDirectives raw ids)) ids =
     (fst (filterMissingUpdateTargetDirectives raw ids), False)"
proof -
  have fl: "file_lines (concat (map (filter_line ids) (file_lines raw))) = map (filter_line ids) (file_lines raw)"
    by (intro file_lines_of filter_lines_line_list file_lines_line_list)
  have "filter_line ids (filter_line ids l) = filter_line ids l" for l
    using filter_line_done [of ids l] by (simp add: filter_line_def [of _ "filter_line ids l"])
  then have m: "map (filter_line ids) (map (filter_line ids) (file_lines raw)) = map (filter_line ids) (file_lines raw)"
    by simp
  show ?thesis
    unfolding filter_is_line_map fst_conv fl m by (simp add: filter_line_done list_all_iff)
qed


section \<open>Which files are loaded\<close>

record rules_fs =
  fs_cwd :: string
  fs_mkdir_ok :: "string \<Rightarrow> bool"
  fs_files :: "(string \<times> string option) list"

record rules_state =
  rs_SystemEnabled :: "(string \<times> bool) list"
  rs_CustomEnabled :: "(string \<times> bool) list"

datatype load_kind = LoadFile

record load_target =
  lt_kind :: load_kind
  lt_path :: string

definition initializationRuleFilename :: string where
  "initializationRuleFilename = ''REQUEST-901-INITIALIZATION.conf''"

definition defaultDisabledSystemRuleFilenames :: "string list" where
  "defaultDisabledSystemRuleFilenames =
     [''REQUEST-920-PROTOCOL-ENFORCEMENT.conf'', ''REQUEST-930-APPLICATION-ATTACK-LFI.conf'',
      ''REQUEST-932-APPLICATION-ATTACK-RCE.conf'', ''REQUEST-941-APPLICATION-ATTACK-XSS.conf'',
      ''REQUEST-942-APPLICATION-ATTACK-SQLI.conf'']"

text \<open>\<^verbatim>\<open>filepath.Join\<close> of two non-empty elements, \<^verbatim>\<open>filepath.Base\<close> and \<^verbatim>\<open>filepath.Ext\<close>.\<close>

definition path_join :: "string \<Rightarrow> string \<Rightarrow> string" where
  "path_join a b = path_clean (a @ ''/'' @ b)"

definition path_base :: "string \<Rightarrow> string" where
  "path_base p =
     (if p = [] then ''.''
      else let q = rev (dropWhile (\<lambda>c. c = CHR ''/'') (rev p));
               b = rev (takeWhile (\<lambda>c. c \<noteq> CHR ''/'') (rev q))
           in if b = [] then ''/'' else b)"

definition path_ext :: "string \<Rightarrow> string" where
  "path_ext p =
     (let b = rev (takeWhile (\<lambda>c. c \<noteq> CHR ''/'') (rev p))
      in (case last_index_byte b CHR ''.'' of Some i \<Rightarrow> drop i b | None \<Rightarrow> []))"

text \<open>The files that match \<^verbatim>\<open>dir/*.conf\<close>.\<close>

definition conf_in :: "string \<Rightarrow> string \<Rightarrow> bool" where
  "conf_in dir p =
     (hasPrefix p (dir @ ''/'') \<and> CHR ''/'' \<notin> set (drop (length dir + 1) p) \<and>
      hasSuffix (drop (length dir + 1) p) ''.conf'')"

definition glob_conf :: "rules_fs \<Rightarrow> string \<Rightarrow> string list" where
  "glob_conf F dir = filter (conf_in dir) (map fst (fs_files F))"

definition isSystemRuleEnabledByDefault :: "string \<Rightarrow> bool" where
  "isSystemRuleEnabledByDefault filename =
     (filename = initializationRuleFilename \<or> filename \<notin> set defaultDisabledSystemRuleFilenames)"

definition rule_file_enabled :: "(string \<times> bool) list \<Rightarrow> (string \<Rightarrow> bool) \<Rightarrow> string \<Rightarrow> bool" where
  "rule_file_enabled enabled enabledByDefault filename =
     (if filename = initializationRuleFilename then True
      else (case al_get enabled filename of
              Some v \<Rightarrow> v
            | None \<Rightarrow> enabledByDefault filename))"

definition globEnabledTargets :: "rules_fs \<Rightarrow> string \<Rightarrow> (string \<times> bool) list \<Rightarrow> (string \<Rightarrow> bool) \<Rightarrow>
    load_target list" where
  "globEnabledTargets F dir enabled enabledByDefault =
     map (\<lambda>p. \<lparr>lt_kind = LoadFile, lt_path = p\<rparr>)
       (filter (\<lambda>p. rule_file_enabled enabled enabledByDefault (path_base p)) (sort (glob_conf F dir)))"

definition loadOrder :: "rules_fs \<Rightarrow> string \<Rightarrow> rules_state \<Rightarrow> load_target list" where
  "loadOrder F rulesDir state =
     globEnabledTargets F (path_join rulesDir ''system'') (rs_SystemEnabled state)
       isSystemRuleEnabledByDefault @
     globEnabledTargets F (path_join rulesDir ''custom'') (rs_CustomEnabled state) (\<lambda>_. True)"

section \<open>Directives from the configuration\<close>

definition on_off :: "bool \<Rightarrow> string" where
  "on_off b = (if b then ''On'' else ''Off'')"

definition internalSetupRuleID :: int where
  "internalSetupRuleID = 1000000"

definition crsSetupVersion :: int where
  "crsSetupVersion = 4250"

definition rule_engine :: "waf_config \<Rightarrow> string" where
  "rule_engine cfg =
     (if wc_Mode cfg = ModeBlocking then ''On''
      else if wc_Mode cfg = ModeOff then ''Off'' else ''DetectionOnly'')"

definition dynamicDirectives :: "waf_config \<Rightarrow> string" where
  "dynamicDirectives cfg =
     [nl] @ ''SecRuleEngine '' @ rule_engine cfg @ [nl] @
     ''SecRequestBodyAccess '' @ on_off (wc_RequestBodyAccess cfg) @ [nl] @
     ''SecRequestBodyLimit '' @ itoa (wc_RequestBodyLimitBytes cfg) @ [nl] @
     ''SecRequestBodyInMemoryLimit '' @ itoa (wc_RequestBodyInMemoryLimitBytes cfg) @ [nl] @
     ''SecRequestBodyLimitAction ProcessPartial'' @ [nl] @
     ''SecResponseBodyAccess '' @ on_off (wc_ResponseBodyAccess cfg) @ [nl] @
     ''SecAction '' @ [CHR 0x22] @ ''id:'' @ itoa internalSetupRuleID @
     '',phase:1,pass,nolog,t:none,setvar:tx.crs_setup_version='' @ itoa crsSetupVersion @
     '',setvar:tx.blocking_paranoia_level='' @ itoa (wc_ParanoiaLevel cfg) @
     '',setvar:tx.detection_paranoia_level='' @ itoa (wc_ExecutingParanoiaLevel cfg) @
     '',setvar:tx.paranoia_level='' @ itoa (wc_ParanoiaLevel cfg) @
     '',setvar:tx.executing_paranoia_level='' @ itoa (wc_ExecutingParanoiaLevel cfg) @
     '',setvar:tx.inbound_anomaly_score_threshold='' @ itoa (wc_InboundAnomalyThreshold cfg) @
     '',setvar:tx.outbound_anomaly_score_threshold='' @ itoa (wc_OutboundAnomalyThreshold cfg) @
     [CHR 0x22] @ [nl]"

section \<open>Building the engine\<close>

datatype waf_error =
    Rules_Dir_Required
  | Bundle_Path_Unsupported
  | Rules_Dir_Unusable
  | Rules_State_Unreadable
  | Rules_State_Malformed
  | Path_Escapes
  | Rule_File_Unreadable string
  | Engine_Rejected
  | Runtime_Missing

definition resolveRulesDir :: "rules_fs \<Rightarrow> string \<Rightarrow> waf_error + string" where
  "resolveRulesDir F rulesDir =
     (let d = trim_space rulesDir
      in if d = [] then Inl Rules_Dir_Required
         else let c = path_clean d
              in Inr (if hasPrefix c ''/'' then path_clean c else path_join (fs_cwd F) c))"

definition ensureRulesDirectories :: "rules_fs \<Rightarrow> string \<Rightarrow> waf_error + unit" where
  "ensureRulesDirectories F root =
     (if fs_mkdir_ok F (path_join root ''system'') \<and> fs_mkdir_ok F (path_join root ''custom'')
      then Inr () else Inl Rules_Dir_Unusable)"

text \<open>\<^verbatim>\<open>filepath.Rel\<close> of rooted clean paths.\<close>

definition path_elems :: "string \<Rightarrow> string list" where
  "path_elems p = filter (\<lambda>e. e \<noteq> []) (split_byte CHR ''/'' p)"

fun strip_common :: "string list \<Rightarrow> string list \<Rightarrow> string list \<times> string list" where
  "strip_common (a # as) (b # bs) = (if a = b then strip_common as bs else (a # as, b # bs))"
| "strip_common as bs = (as, bs)"

definition path_rel :: "string \<Rightarrow> string \<Rightarrow> string" where
  "path_rel base target =
     (case strip_common (path_elems base) (path_elems target) of (b, t) \<Rightarrow>
        let es = map (\<lambda>_. ''..'') b @ t
        in if es = [] then ''.'' else join_str ''/'' es)"

definition ensureWithin :: "string \<Rightarrow> string \<Rightarrow> bool" where
  "ensureWithin root target =
     (let r = path_rel root target
      in r = ''.'' \<or> \<not> (hasPrefix r ''../'' \<or> r = ''..''))"

definition readRulesState :: "(string \<Rightarrow> rules_state option) \<Rightarrow> rules_fs \<Rightarrow> string \<Rightarrow> waf_error + rules_state" where
  "readRulesState decode F rulesDir =
     (case al_get (fs_files F) (path_join rulesDir ''rules-state.json'') of
        None \<Rightarrow> Inr \<lparr>rs_SystemEnabled = [], rs_CustomEnabled = []\<rparr>
      | Some None \<Rightarrow> Inl Rules_State_Unreadable
      | Some (Some raw) \<Rightarrow> (case decode raw of
            None \<Rightarrow> Inl Rules_State_Malformed
          | Some state \<Rightarrow> Inr state))"

definition read_file :: "rules_fs \<Rightarrow> string \<Rightarrow> waf_error + string" where
  "read_file F p =
     (case al_get (fs_files F) p of Some (Some raw) \<Rightarrow> Inr raw | _ \<Rightarrow> Inl (Rule_File_Unreadable p))"

fun hash_text :: "rules_fs \<Rightarrow> string \<Rightarrow> load_target list \<Rightarrow> waf_error + string" where
  "hash_text F rulesDir [] = Inr []"
| "hash_text F rulesDir (t # ts) =
     (if \<not> ensureWithin rulesDir (lt_path t) then Inl Path_Escapes
      else (case read_file F (lt_path t) of
              Inl e \<Rightarrow> Inl e
            | Inr raw \<Rightarrow> (case hash_text F rulesDir ts of
                  Inl e \<Rightarrow> Inl e
                | Inr s \<Rightarrow> Inr (path_rel rulesDir (lt_path t) @ [CHR 0x00] @ raw @ [CHR 0x00] @ s))))"

definition hashRuleSet :: "rules_fs \<Rightarrow> string \<Rightarrow> load_target list \<Rightarrow> waf_error + string" where
  "hashRuleSet F rulesDir targets =
     (case hash_text F rulesDir targets of
        Inl e \<Rightarrow> Inl e
      | Inr s \<Rightarrow> Inr (''sha256:'' @ hex_encode (sha256 s)))"

text \<open>A comparison with \<^verbatim>\<open>.conf\<close> by \<^verbatim>\<open>strings.EqualFold\<close>: no letter of it has a
  case variant outside ASCII.\<close>

definition conf_ext :: "string \<Rightarrow> bool" where
  "conf_ext p = (map lowerASCII (path_ext p) = ''.conf'')"

fun collectDefinedRuleIDs :: "rules_fs \<Rightarrow> load_target list \<Rightarrow> int list \<Rightarrow> waf_error + int list" where
  "collectDefinedRuleIDs F [] ids = Inr ids"
| "collectDefinedRuleIDs F (t # ts) ids =
     (if lt_path t = [] \<or> \<not> conf_ext (lt_path t) then collectDefinedRuleIDs F ts ids
      else (case read_file F (lt_path t) of
              Inl e \<Rightarrow> Inl e
            | Inr raw \<Rightarrow> collectDefinedRuleIDs F ts (collect_lines raw ids)))"

text \<open>What the engine reads when it opens a file below the rules directory.\<close>

definition updateTargetFilteringFS_Open :: "rules_fs \<Rightarrow> string \<Rightarrow> int list \<Rightarrow> string \<Rightarrow> string option" where
  "updateTargetFilteringFS_Open F root ids name =
     (case al_get (fs_files F) (path_join root name) of
        Some (Some raw) \<Rightarrow>
          (if \<not> conf_ext name then Some raw
           else (case filterMissingUpdateTargetDirectives raw ids of
                   (filtered, changed) \<Rightarrow> Some (if changed then filtered else raw)))
      | _ \<Rightarrow> None)"

record waf_setup =
  su_open :: "string \<Rightarrow> string option"
  su_bodyLimit :: int
  su_bodyMemoryLimit :: int
  su_directives :: string
  su_requestBodyAccess :: bool
  su_responseBodyAccess :: bool
  su_directiveFiles :: "string list"

record 'w compiled_runtime =
  cr_Config :: waf_config
  cr_BundleID :: string
  cr_BundlePath :: string
  cr_BundleHash :: string
  cr_LoadedAt :: time
  cr_WAF :: 'w

record 'w waf_env =
  we_unicode :: unicode
  we_fs :: rules_fs
  we_decode :: "string \<Rightarrow> rules_state option"
  we_engine :: "waf_setup \<Rightarrow> 'w option"

definition localRuleSetID :: string where
  "localRuleSetID = ''local''"

definition waf_setup_of :: "rules_fs \<Rightarrow> waf_config \<Rightarrow> string \<Rightarrow> load_target list \<Rightarrow> int list \<Rightarrow> waf_setup" where
  "waf_setup_of F cfg rulesDir targets ids =
     \<lparr>su_open = updateTargetFilteringFS_Open F rulesDir ids,
      su_bodyLimit = wc_RequestBodyLimitBytes cfg,
      su_bodyMemoryLimit = wc_RequestBodyInMemoryLimitBytes cfg,
      su_directives = dynamicDirectives cfg,
      su_requestBodyAccess = wc_RequestBodyAccess cfg,
      su_responseBodyAccess = wc_ResponseBodyAccess cfg,
      su_directiveFiles = map (\<lambda>t. path_rel rulesDir (lt_path t)) (filter (\<lambda>t. lt_path t \<noteq> []) targets)\<rparr>"

definition buildCompiledRuntime :: "'w waf_env \<Rightarrow> time \<Rightarrow> waf_config \<Rightarrow> string \<Rightarrow> string \<Rightarrow> string \<Rightarrow>
    waf_error + 'w compiled_runtime" where
  "buildCompiledRuntime E now cfg0 defaultRulesDir bundleID bundlePath =
     (let F = we_fs E; cfg = NormalizeConfig (we_unicode E) cfg0 defaultRulesDir
      in (case resolveRulesDir F (wc_RulesDir cfg) of
            Inl e \<Rightarrow> Inl e
          | Inr rulesDir \<Rightarrow>
              if trim_space bundlePath \<noteq> [] then Inl Bundle_Path_Unsupported
              else (case ensureRulesDirectories F rulesDir of
                Inl e \<Rightarrow> Inl e
              | Inr _ \<Rightarrow> (case readRulesState (we_decode E) F rulesDir of
                  Inl e \<Rightarrow> Inl e
                | Inr state \<Rightarrow>
                    let targets = loadOrder F rulesDir state
                    in (case hashRuleSet F rulesDir targets of
                      Inl e \<Rightarrow> Inl e
                    | Inr hash \<Rightarrow> (case collectDefinedRuleIDs F targets [] of
                        Inl e \<Rightarrow> Inl e
                      | Inr ids \<Rightarrow> (case we_engine E (waf_setup_of F cfg rulesDir targets ids) of
                          None \<Rightarrow> Inl Engine_Rejected
                        | Some w \<Rightarrow>
                            Inr \<lparr>cr_Config = cfg\<lparr>wc_ActiveBundleID := localRuleSetID\<rparr>,
                                 cr_BundleID = localRuleSetID, cr_BundlePath = rulesDir,
                                 cr_BundleHash = hash, cr_LoadedAt = now, cr_WAF = w\<rparr>)))))))"

lemma buildCompiledRuntime_fields:
  assumes "buildCompiledRuntime E now cfg d bundleID bundlePath = Inr c"
  shows "cr_Config c = (NormalizeConfig (we_unicode E) cfg d)\<lparr>wc_ActiveBundleID := localRuleSetID\<rparr>"
    and "cr_BundleID c = localRuleSetID" and "trim_space bundlePath = []" and "cr_LoadedAt c = now"
  using assms
  by (auto simp: buildCompiledRuntime_def Let_def split: sum.splits if_splits option.splits)

end
