(* ===== verification/WafRuntime.thy ===== *)
theory WafRuntime
  imports WafStore WafRules GoTime Http Serve
begin

text \<open>
  The run time of the web application firewall, \<^verbatim>\<open>pkg/waf/runtime.go\<close>: setting and reloading
  the configuration, the hosts and paths exempted from inspection, the evaluation of a request
  and the event it leaves.  The rule engine is a parameter: what a transaction answers is a
  function of the calls made on it so far, so the order of the calls is part of the model.  The
  lemmas show when a request can be blocked at all, that an error of the engine never blocks,
  what the exemptions cover, and what of the request reaches the event.

  Logging is not modelled.  A compiled run time holds an engine, so the test for a missing one
  is the test for the run time.
\<close>

section \<open>The engine\<close>

record interruption =
  in_RuleID :: int
  in_Action :: string
  in_Status :: int

record match_data =
  md_Variable :: string
  md_Key :: string
  md_Value :: string
  md_Message :: string
  md_Data :: string

record rule_meta =
  ru_ID :: int
  ru_Severity :: string
  ru_Phase :: int
  ru_File :: string
  ru_Line :: int
  ru_Tags :: "string list"

record matched_rule =
  mr_Rule :: "rule_meta option"
  mr_Message :: string
  mr_Data :: string
  mr_Disruptive :: bool
  mr_MatchedDatas :: "match_data option list"
  mr_Log :: bool
  mr_Audit :: bool

text \<open>The calls on a transaction, in order; \<open>Read_Body n\<close> is the reading of the first \<open>n\<close> bytes.\<close>

datatype tx_call =
    Process_Connection string int
  | Process_URI string string string
  | Add_Header string string
  | Set_Server_Name string
  | Process_Headers
  | Read_Body string
  | Process_Body

record 'w waf_engine =
  wg_headers :: "'w \<Rightarrow> tx_call list \<Rightarrow> interruption option"
  wg_bodyAccess :: "'w \<Rightarrow> tx_call list \<Rightarrow> bool"
  wg_readBody :: "'w \<Rightarrow> tx_call list \<Rightarrow> string \<Rightarrow> nat \<times> (string + interruption option)"
  wg_processBody :: "'w \<Rightarrow> tx_call list \<Rightarrow> string + interruption option"
  wg_detection :: "'w \<Rightarrow> tx_call list \<Rightarrow> interruption option"
  wg_matched :: "'w \<Rightarrow> tx_call list \<Rightarrow> matched_rule option list"

section \<open>The run time\<close>

record exclusion_config =
  xc_disabledHosts :: "string list"
  xc_disabledPathPrefixes :: "string list"

record 'w waf_runtime =
  rt_current :: "'w compiled_runtime option"
  rt_config :: waf_config
  rt_exclusions :: exclusion_config
  rt_lastError :: "waf_error option"
  rt_events :: event_store
  rt_defaultRulesDir :: string

definition waf_normalizeHost :: "unicode \<Rightarrow> string \<Rightarrow> string" where
  "waf_normalizeHost U host0 =
     (let host = trim_space host0
      in if host = [] then []
         else (case (hasPrefix host ''['', last_index_byte host CHR '']'') of
                 (True, Some i) \<Rightarrow> lowerASCIIString U (take (i + 1) host)
               | _ \<Rightarrow> (case last_index_byte host CHR '':'' of
                     Some i \<Rightarrow> if index_byte (take i host) CHR '':'' = None
                               then lowerASCIIString U (trim_space (take i host))
                               else lowerASCIIString U host
                   | None \<Rightarrow> lowerASCIIString U host)))"

definition buildExclusionConfig :: "unicode \<Rightarrow> waf_config \<Rightarrow> exclusion_config" where
  "buildExclusionConfig U cfg =
     \<lparr>xc_disabledHosts = filter (\<lambda>h. h \<noteq> []) (map (waf_normalizeHost U) (wc_DisabledHosts cfg)),
      xc_disabledPathPrefixes = wc_DisabledPathPrefixes cfg\<rparr>"

definition waf_storeConfig :: "unicode \<Rightarrow> waf_config \<Rightarrow> 'w waf_runtime \<Rightarrow> 'w waf_runtime" where
  "waf_storeConfig U cfg rt = rt\<lparr>rt_config := cfg, rt_exclusions := buildExclusionConfig U cfg\<rparr>"

definition NewRuntime :: "unicode \<Rightarrow> waf_config \<Rightarrow> string \<Rightarrow> 'w waf_runtime" where
  "NewRuntime U cfg runtimeDir =
     (let d = DefaultRulesDir runtimeDir; c = NormalizeConfig U cfg d
      in \<lparr>rt_current = None, rt_config = c, rt_exclusions = buildExclusionConfig U c,
          rt_lastError = None, rt_events = NewEventStore DefaultMaxEvents DefaultEventTTL,
          rt_defaultRulesDir = d\<rparr>)"

definition zero_waf_config :: waf_config where
  "zero_waf_config =
     \<lparr>wc_Enabled = False, wc_Mode = [], wc_RulesDir = [], wc_ActiveBundleID = [],
      wc_ParanoiaLevel = 0, wc_ExecutingParanoiaLevel = 0, wc_InboundAnomalyThreshold = 0,
      wc_OutboundAnomalyThreshold = 0, wc_RequestBodyAccess = False, wc_RequestBodyLimitBytes = 0,
      wc_RequestBodyInMemoryLimitBytes = 0, wc_ResponseBodyAccess = False, wc_DisabledHosts = [],
      wc_DisabledPathPrefixes = [], wc_UpdatedAt = []\<rparr>"

definition Runtime_Config :: "unicode \<Rightarrow> 'w waf_runtime option \<Rightarrow> waf_config" where
  "Runtime_Config U rt =
     (case rt of None \<Rightarrow> NormalizeConfig U zero_waf_config (DefaultRulesDir ''.'') | Some r \<Rightarrow> rt_config r)"

record waf_status =
  ws_Enabled :: bool
  ws_Mode :: string
  ws_Loaded :: bool
  ws_BundleID :: string
  ws_BundleHash :: string
  ws_LoadedAt :: string
  ws_RulesDir :: string
  ws_PendingEvents :: int
  ws_LastError :: "waf_error option"

definition zero_waf_status :: waf_status where
  "zero_waf_status =
     \<lparr>ws_Enabled = False, ws_Mode = [], ws_Loaded = False, ws_BundleID = [], ws_BundleHash = [],
      ws_LoadedAt = [], ws_RulesDir = [], ws_PendingEvents = 0, ws_LastError = None\<rparr>"

text \<open>Reading the status counts the pending events, which drops the expired ones.\<close>

definition Runtime_Status :: "time \<Rightarrow> 'w waf_runtime option \<Rightarrow> waf_status \<times> 'w waf_runtime option" where
  "Runtime_Status now rt =
     (case rt of
        None \<Rightarrow> (zero_waf_status, None)
      | Some r \<Rightarrow>
          (case event_store_Pending now (rt_events r) of (n, events) \<Rightarrow>
             let base = zero_waf_status\<lparr>ws_Enabled := wc_Enabled (rt_config r),
                   ws_Mode := wc_Mode (rt_config r), ws_RulesDir := wc_RulesDir (rt_config r),
                   ws_PendingEvents := n, ws_LastError := rt_lastError r\<rparr>;
                 st = (case rt_current r of
                         None \<Rightarrow> base
                       | Some c \<Rightarrow> base\<lparr>ws_Loaded := True, ws_BundleID := cr_BundleID c,
                           ws_BundleHash := cr_BundleHash c,
                           ws_LoadedAt := format_rfc3339 (cr_LoadedAt c)\<rparr>)
             in (st, Some (r\<lparr>rt_events := events\<rparr>))))"

definition Runtime_SetConfig :: "'w waf_env \<Rightarrow> time \<Rightarrow> waf_config \<Rightarrow> 'w waf_runtime option \<Rightarrow>
    (waf_config \<times> waf_error option) \<times> 'w waf_runtime option" where
  "Runtime_SetConfig E now cfg0 rt =
     (case rt of
        None \<Rightarrow> ((cfg0, None), None)
      | Some r \<Rightarrow>
          let U = we_unicode E; cfg = NormalizeConfig U cfg0 (rt_defaultRulesDir r)
          in if \<not> waf_IsActive cfg
             then ((cfg, None),
                   Some ((waf_storeConfig U cfg (r\<lparr>rt_current := None\<rparr>))\<lparr>rt_lastError := None\<rparr>))
             else (case rt_current r of
                     None \<Rightarrow> ((cfg, None), Some ((waf_storeConfig U cfg r)\<lparr>rt_lastError := None\<rparr>))
                   | Some _ \<Rightarrow>
                       (case buildCompiledRuntime E now cfg (rt_defaultRulesDir r) [] [] of
                          Inl e \<Rightarrow> ((cfg, Some e), Some (r\<lparr>rt_lastError := Some e\<rparr>))
                        | Inr c \<Rightarrow> ((cfg, None),
                            Some ((waf_storeConfig U cfg (r\<lparr>rt_current := Some c\<rparr>))\<lparr>rt_lastError := None\<rparr>)))))"

record validation_result =
  vr_OK :: bool
  vr_BundleID :: string
  vr_BundlePath :: string
  vr_BundleHash :: string
  vr_Error :: "waf_error option"

definition Runtime_Validate :: "'w waf_env \<Rightarrow> time \<Rightarrow> waf_config \<Rightarrow> string \<Rightarrow> string \<Rightarrow>
    'w waf_runtime option \<Rightarrow> validation_result \<times> waf_error option" where
  "Runtime_Validate E now cfg bundleID bundlePath rt =
     (case rt of
        None \<Rightarrow> (\<lparr>vr_OK = False, vr_BundleID = [], vr_BundlePath = [], vr_BundleHash = [],
                   vr_Error = Some Runtime_Missing\<rparr>, Some Runtime_Missing)
      | Some r \<Rightarrow>
          (case buildCompiledRuntime E now cfg (rt_defaultRulesDir r) bundleID bundlePath of
             Inl e \<Rightarrow> (\<lparr>vr_OK = False, vr_BundleID = trim_space bundleID,
                        vr_BundlePath = trim_space bundlePath, vr_BundleHash = [], vr_Error = Some e\<rparr>, Some e)
           | Inr c \<Rightarrow> (\<lparr>vr_OK = True, vr_BundleID = cr_BundleID c, vr_BundlePath = cr_BundlePath c,
                        vr_BundleHash = cr_BundleHash c, vr_Error = None\<rparr>, None)))"

definition Runtime_Reload :: "'w waf_env \<Rightarrow> time \<Rightarrow> waf_config \<Rightarrow> string \<Rightarrow> string \<Rightarrow> 'w waf_runtime option \<Rightarrow>
    (waf_status \<times> waf_error option) \<times> 'w waf_runtime option" where
  "Runtime_Reload E now cfg0 bundleID bundlePath rt =
     (case rt of
        None \<Rightarrow> ((zero_waf_status, Some Runtime_Missing), None)
      | Some r \<Rightarrow>
          let U = we_unicode E; cfg = NormalizeConfig U cfg0 (rt_defaultRulesDir r);
              done = (\<lambda>r1 err. case Runtime_Status now (Some r1) of (st, rt1) \<Rightarrow> ((st, err), rt1))
          in if \<not> waf_IsActive cfg
             then done ((waf_storeConfig U cfg (r\<lparr>rt_current := None\<rparr>))\<lparr>rt_lastError := None\<rparr>) None
             else (case buildCompiledRuntime E now cfg (rt_defaultRulesDir r) bundleID bundlePath of
                     Inl e \<Rightarrow> done (r\<lparr>rt_lastError := Some e\<rparr>) (Some e)
                   | Inr c \<Rightarrow> done ((waf_storeConfig U (cr_Config c) (r\<lparr>rt_current := Some c\<rparr>))
                                      \<lparr>rt_lastError := None\<rparr>) None))"

definition Runtime_Drain :: "time \<Rightarrow> int \<Rightarrow> 'w waf_runtime option \<Rightarrow> drain_result \<times> 'w waf_runtime option" where
  "Runtime_Drain now limit rt =
     (case rt of
        None \<Rightarrow> (\<lparr>dr_Events = [], dr_Drained = 0, dr_Remaining = 0\<rparr>, None)
      | Some r \<Rightarrow> (case event_store_Drain now limit (rt_events r) of
                     (d, s) \<Rightarrow> (d, Some (r\<lparr>rt_events := s\<rparr>))))"

section \<open>Exemptions\<close>

definition isExcluded :: "unicode \<Rightarrow> exclusion_config \<Rightarrow> request \<Rightarrow> bool" where
  "isExcluded U xc r =
     (if xc_disabledHosts xc = [] \<and> xc_disabledPathPrefixes xc = [] then False
      else if xc_disabledHosts xc \<noteq> [] \<and> waf_normalizeHost U (rq_Host r) \<in> set (xc_disabledHosts xc)
      then True
      else if xc_disabledPathPrefixes xc = [] then False
      else let p = path_clean (u_Path (rq_URL r)); p1 = (if \<not> hasPrefix p ''/'' then ''/'' @ p else p)
           in list_ex (\<lambda>pre. pre = ''/'' \<or> p1 = pre \<or>
                         hasPrefix p1 (trim_right_set pre ''/'' @ ''/'')) (xc_disabledPathPrefixes xc))"

section \<open>What a match records\<close>

definition truncate_str :: "string \<Rightarrow> int \<Rightarrow> string" where
  "truncate_str v limit = (if limit \<le> 0 \<or> int (length v) \<le> limit then v else take (nat limit) v)"

definition normalizeStatus :: "int \<Rightarrow> int" where
  "normalizeStatus status = (if status < 400 \<or> status > 599 then 403 else status)"

text \<open>
  \<^verbatim>\<open>strings.EqualFold\<close> with an ASCII text: besides the ASCII cases, the long s and the Kelvin
  sign fold to letters.
\<close>

fun fold_text :: "string \<Rightarrow> string" where
  "fold_text (a # b # c # s) =
     (if byte a = 197 \<and> byte b = 191 then CHR ''s'' # fold_text (c # s)
      else if byte a = 226 \<and> byte b = 132 \<and> byte c = 170 then CHR ''k'' # fold_text s
      else lowerASCII a # fold_text (b # c # s))"
| "fold_text [a, b] = (if byte a = 197 \<and> byte b = 191 then ''s'' else [lowerASCII a, lowerASCII b])"
| "fold_text [a] = [lowerASCII a]"
| "fold_text [] = []"

definition isInternalRule :: "rule_meta \<Rightarrow> bool" where
  "isInternalRule rule =
     (ru_ID rule = internalSetupRuleID \<or>
      fold_text (path_base (ru_File rule)) = map lowerASCII initializationRuleFilename)"

definition has_text :: "string \<Rightarrow> bool" where
  "has_text s = (trim_space s \<noteq> [])"

definition shouldRecordRuleMatch :: "matched_rule \<Rightarrow> rule_meta \<Rightarrow> interruption option \<Rightarrow> bool" where
  "shouldRecordRuleMatch m rule it =
     ((case it of Some i \<Rightarrow> ru_ID rule = in_RuleID i | None \<Rightarrow> False) \<or>
      has_text (mr_Message m) \<or> has_text (mr_Data m) \<or>
      list_ex (\<lambda>d. case d of Some d \<Rightarrow> has_text (md_Message d) \<or> has_text (md_Data d) | None \<Rightarrow> False)
        (mr_MatchedDatas m) \<or>
      mr_Log m \<or> mr_Audit m)"

definition matched_variable_of :: "match_data option \<Rightarrow> matched_variable option" where
  "matched_variable_of d =
     (case d of
        None \<Rightarrow> None
      | Some d \<Rightarrow>
          let v = (if isSensitiveName (md_Key d) \<or> isSensitiveName (md_Variable d)
                   then ''[redacted]'' else md_Value d)
          in Some \<lparr>mv_Variable = md_Variable d, mv_Key = md_Key d, mv_ValuePreview = truncate_str v 256\<rparr>)"

definition collectMatchedVariables :: "match_data option list \<Rightarrow> matched_variable list" where
  "collectMatchedVariables ds = List.map_filter matched_variable_of ds"

definition rule_match_of :: "interruption option \<Rightarrow> matched_rule option \<Rightarrow> rule_match option" where
  "rule_match_of it m =
     (case m of
        None \<Rightarrow> None
      | Some m \<Rightarrow> (case mr_Rule m of
            None \<Rightarrow> None
          | Some rule \<Rightarrow>
              if isInternalRule rule \<or> \<not> shouldRecordRuleMatch m rule it then None
              else Some \<lparr>rm_ID = ru_ID rule, rm_Message = truncate_str (mr_Message m) 512,
                     rm_Data = truncate_str (mr_Data m) 512, rm_Severity = ru_Severity rule,
                     rm_Phase = ru_Phase rule, rm_File = ru_File rule, rm_Line = ru_Line rule,
                     rm_Tags = ru_Tags rule, rm_Disruptive = mr_Disruptive m,
                     rm_MatchedVariables = collectMatchedVariables (mr_MatchedDatas m)\<rparr>))"

definition collectRuleMatches :: "matched_rule option list \<Rightarrow> interruption option \<Rightarrow> rule_match list" where
  "collectRuleMatches ms it = List.map_filter (rule_match_of it) ms"

definition uniqueRuleIDs :: "rule_match list \<Rightarrow> interruption option \<Rightarrow> int list" where
  "uniqueRuleIDs rules it =
     (let out = dedup_on (\<lambda>n. n) (\<lambda>r. if rm_ID r \<le> 0 then None else Some (rm_ID r)) [] rules
      in (case it of
            Some i \<Rightarrow> if in_RuleID i > 0 \<and> in_RuleID i \<notin> set out then out @ [in_RuleID i] else out
          | None \<Rightarrow> out))"

section \<open>Trace identifiers\<close>

definition slice :: "string \<Rightarrow> nat \<Rightarrow> nat \<Rightarrow> string" where
  "slice s a b = take (b - a) (drop a s)"

definition formatTraceID :: "string \<Rightarrow> string" where
  "formatTraceID uuid =
     ''waf_'' @ hex_encode (slice uuid 0 4) @ ''-'' @ hex_encode (slice uuid 4 6) @ ''-'' @
     hex_encode (slice uuid 6 8) @ ''-'' @ hex_encode (slice uuid 8 10) @ ''-'' @
     hex_encode (slice uuid 10 16)"

text \<open>The sixteen bytes come from the random source or, when it fails, from clock and counter.\<close>

definition newTraceID :: "string \<Rightarrow> string" where
  "newTraceID bytes =
     (let u1 = bytes[6 := char_of (byte (bytes ! 6) mod 16 + 64)];
          u2 = u1[8 := char_of (byte (u1 ! 8) mod 64 + 128)]
      in formatTraceID u2)"

section \<open>Evaluation of a request\<close>

record waf_request =
  wr_request :: request
  wr_Proto :: string
  wr_TransferEncoding :: "string list"
  wr_Body :: "string option"

record waf_eval_context =
  ec_ClientIP :: string
  ec_RouteType :: string
  ec_RouteKey :: string
  ec_Upstream :: string
  ec_Scheme :: string

record decision =
  de_Enabled :: bool
  de_Allowed :: bool
  de_DetectionOnly :: bool
  de_TraceID :: string
  de_Status :: int
  de_Mode :: string
  de_Action :: string
  de_BundleID :: string
  de_RuleIDs :: "int list"
  de_Event :: "waf_event option"
  de_Err :: "string option"

definition allow_decision :: decision where
  "allow_decision =
     \<lparr>de_Enabled = False, de_Allowed = True, de_DetectionOnly = False, de_TraceID = [], de_Status = 0,
      de_Mode = [], de_Action = [], de_BundleID = [], de_RuleIDs = [], de_Event = None, de_Err = None\<rparr>"

text \<open>\<^verbatim>\<open>strconv.Atoi\<close> with its error ignored: an unparsable text is 0, an overflow saturates.\<close>

definition atoi_or_zero :: "string \<Rightarrow> int" where
  "atoi_or_zero s =
     (let neg = hasPrefix s ''-''; d = (if neg \<or> hasPrefix s ''+'' then tl s else s)
      in if d = [] \<or> \<not> list_all is_digit d then 0
         else let n = int (dec_val d)
              in if neg then max min_int64 (- n) else min max_int64 n)"

definition splitAddress :: "string \<Rightarrow> string \<Rightarrow> string \<times> int" where
  "splitAddress clientIP remoteAddr =
     (let ip = trim_space clientIP
      in if ip \<noteq> [] then (ip, 0)
         else (case split_host_port remoteAddr of
                 None \<Rightarrow> (trim_space remoteAddr, 0)
               | Some (host, port) \<Rightarrow> (host, atoi_or_zero port)))"

definition addInternalHeader :: "string \<Rightarrow> string \<Rightarrow> tx_call list" where
  "addInternalHeader key v = (let v1 = trim_space v in if v1 \<noteq> [] then [Add_Header key v1] else [])"

text \<open>The calls that describe the request to the transaction.\<close>

definition request_calls :: "waf_request \<Rightarrow> waf_eval_context \<Rightarrow> tx_call list" where
  "request_calls q ctx =
     (let r = wr_request q; (ip, port) = splitAddress (ec_ClientIP ctx) (rq_RemoteAddr r)
      in [Process_Connection ip port,
          Process_URI (url_request_uri (rq_URL r)) (rq_Method r) (wr_Proto q)] @
         (if rq_Host r \<noteq> [] then [Add_Header ''Host'' (rq_Host r), Set_Server_Name (rq_Host r)] else []) @
         concat (map (\<lambda>(k, vs). map (Add_Header k) vs) (rq_Header r)) @
         map (Add_Header ''Transfer-Encoding'') (wr_TransferEncoding q) @
         addInternalHeader ''X-Fn-Knock-Route-Type'' (ec_RouteType ctx) @
         addInternalHeader ''X-Fn-Knock-Route-Key'' (ec_RouteKey ctx) @
         addInternalHeader ''X-Fn-Knock-Upstream'' (ec_Upstream ctx))"

text \<open>
  \<^verbatim>\<open>readAndRestoreRequestBody\<close>: the engine reads \<open>n\<close> bytes through a tee; the new body is
  what was read followed by the rest of the old one.
\<close>

definition readAndRestoreRequestBody :: "'w waf_engine \<Rightarrow> 'w \<Rightarrow> tx_call list \<Rightarrow> string \<Rightarrow>
    string \<times> (string + interruption option) \<times> tx_call list" where
  "readAndRestoreRequestBody G w calls body =
     (case wg_readBody G w calls body of (n, res) \<Rightarrow>
        (take n body @ drop n body,
         (case res of Inl e \<Rightarrow> Inl (''failed to append request body: '' @ e) | Inr it \<Rightarrow> Inr it),
         calls @ [Read_Body (take n body)]))"

text \<open>The processing phases: interruption, error, body afterwards, calls made.\<close>

definition process_body :: "'w waf_engine \<Rightarrow> 'w \<Rightarrow> tx_call list \<Rightarrow> string option \<Rightarrow>
    interruption option \<times> string option \<times> tx_call list" where
  "process_body G w calls err =
     (case wg_processBody G w calls of
        Inl e \<Rightarrow> (None, Some e, calls @ [Process_Body])
      | Inr it \<Rightarrow> (it, err, calls @ [Process_Body]))"

definition process_request :: "'w waf_engine \<Rightarrow> 'w \<Rightarrow> tx_call list \<Rightarrow> string option \<Rightarrow>
    interruption option \<times> string option \<times> string option \<times> tx_call list" where
  "process_request G w calls body =
     (let calls1 = calls @ [Process_Headers]
      in (case wg_headers G w calls of
            Some it \<Rightarrow> (Some it, None, body, calls1)
          | None \<Rightarrow>
              (case (wg_bodyAccess G w calls1, body) of
                 (True, Some b) \<Rightarrow>
                   (case readAndRestoreRequestBody G w calls1 b of
                      (b', Inr (Some it), calls2) \<Rightarrow> (Some it, None, Some b', calls2)
                    | (b', Inr None, calls2) \<Rightarrow>
                        (case process_body G w calls2 None of (it, err, c) \<Rightarrow> (it, err, Some b', c))
                    | (b', Inl e, calls2) \<Rightarrow>
                        (case process_body G w calls2 (Some e) of (it, err, c) \<Rightarrow> (it, err, Some b', c)))
               | _ \<Rightarrow> (case process_body G w calls1 None of (it, err, c) \<Rightarrow> (it, err, body, c)))))"

definition buildEvent :: "time \<Rightarrow> request \<Rightarrow> waf_eval_context \<Rightarrow> 'w compiled_runtime \<Rightarrow> string \<Rightarrow> string \<Rightarrow>
    string \<Rightarrow> int \<Rightarrow> int list \<Rightarrow> rule_match list \<Rightarrow> interruption option \<Rightarrow> string option \<Rightarrow> waf_event" where
  "buildEvent now r ctx c traceID mode action status ruleIDs rules it err =
     \<lparr>ev_TraceID = traceID, ev_TransactionID = traceID, ev_Time = format_rfc3339 now, ev_Mode = mode,
      ev_Action = action, ev_Status = status, ev_ClientIP = ec_ClientIP ctx,
      ev_RemoteAddr = rq_RemoteAddr r, ev_Method = rq_Method r,
      ev_Scheme = (if ec_Scheme ctx \<noteq> [] then ec_Scheme ctx
                   else if rq_TLS r then ''https'' else ''http''),
      ev_Host = rq_Host r, ev_Path = u_Path (rq_URL r), ev_Query = redactRawQuery (u_RawQuery (rq_URL r)),
      ev_RequestURI = redactRequestURI (Some (rq_URL r)),
      ev_UserAgent = header_get (rq_Header r) ''User-Agent'', ev_Referer = header_get (rq_Header r) ''Referer'',
      ev_RouteType = ec_RouteType ctx, ev_RouteKey = ec_RouteKey ctx, ev_Upstream = ec_Upstream ctx,
      ev_BundleID = cr_BundleID c, ev_BundleHash = cr_BundleHash c, ev_RuleIDs = ruleIDs, ev_Rules = rules,
      ev_Interruption = map_option (\<lambda>i. \<lparr>ii_RuleID = in_RuleID i, ii_Action = in_Action i,
          ii_Status = normalizeStatus (in_Status i)\<rparr>) it,
      ev_Error = (case err of Some e \<Rightarrow> e | None \<Rightarrow> [])\<rparr>"


record eval_clock =
  cl_event :: time
  cl_add :: time

definition Evaluate :: "unicode \<Rightarrow> 'w waf_engine \<Rightarrow> eval_clock \<Rightarrow> string \<Rightarrow> waf_request \<Rightarrow> waf_eval_context \<Rightarrow>
    'w waf_runtime option \<Rightarrow> decision \<times> waf_request \<times> 'w waf_runtime option" where
  "Evaluate U G clock bytes q ctx rt =
     (case rt of
        None \<Rightarrow> (allow_decision, q, None)
      | Some r \<Rightarrow>
          let cfg = rt_config r;
              d = allow_decision\<lparr>de_Enabled := waf_IsActive cfg, de_Mode := wc_Mode cfg,
                    de_DetectionOnly := (wc_Mode cfg = ModeDetection)\<rparr>
          in if \<not> de_Enabled d \<or> isExcluded U (rt_exclusions r) (wr_request q) then (d, q, rt)
             else (case rt_current r of
               None \<Rightarrow> (d, q, rt)
             | Some c \<Rightarrow>
                 (case process_request G (cr_WAF c) (request_calls q ctx) (wr_Body q) of
                    (it0, err, body, calls) \<Rightarrow>
                      let q' = q\<lparr>wr_Body := body\<rparr>;
                          it = (if it0 = None \<and> de_DetectionOnly d then wg_detection G (cr_WAF c) calls else it0);
                          rules = collectRuleMatches (wg_matched G (cr_WAF c) calls) it;
                          ruleIDs = uniqueRuleIDs rules it;
                          de = d\<lparr>de_Err := err\<rparr>
                      in if rules = [] \<and> it = None \<and> err = None then (de, q', rt)
                         else
                           let traceID = newTraceID bytes;
                               status = (case it of Some i \<Rightarrow> normalizeStatus (in_Status i) | None \<Rightarrow> 0);
                               blocks = (it \<noteq> None \<and> \<not> de_DetectionOnly d);
                               action =
                                 (if de_DetectionOnly d then ''detect''
                                  else (case it of
                                          None \<Rightarrow> ''log''
                                        | Some i \<Rightarrow> if trim_space (in_Action i) = [] then ''deny''
                                                    else trim_space (in_Action i)));
                               ev = buildEvent (cl_event clock) (wr_request q) ctx c traceID (wc_Mode cfg)
                                      action status ruleIDs rules it err
                           in (de\<lparr>de_TraceID := traceID, de_BundleID := cr_BundleID c,
                                  de_Allowed := \<not> blocks, de_Status := (if blocks then status else 0),
                                  de_Action := action, de_RuleIDs := ruleIDs, de_Event := Some ev\<rparr>,
                               q', Some (r\<lparr>rt_events := event_store_Add (cl_add clock) ev (rt_events r)\<rparr>)))))"

section \<open>When a request is blocked\<close>

lemma normalizeStatus_range: "400 \<le> normalizeStatus s \<and> normalizeStatus s \<le> 599"
  by (simp add: normalizeStatus_def)

text \<open>The verdict of a run: the request was inspected by a loaded rule set and interrupted.\<close>

definition evaluation_blocks :: "unicode \<Rightarrow> 'w waf_engine \<Rightarrow> waf_request \<Rightarrow> waf_eval_context \<Rightarrow>
    'w waf_runtime \<Rightarrow> bool" where
  "evaluation_blocks U G q ctx r =
     (wc_Enabled (rt_config r) \<and> wc_Mode (rt_config r) \<noteq> ModeOff \<and>
      wc_Mode (rt_config r) \<noteq> ModeDetection \<and>
      \<not> isExcluded U (rt_exclusions r) (wr_request q) \<and>
      (case rt_current r of
         None \<Rightarrow> False
       | Some c \<Rightarrow> fst (process_request G (cr_WAF c) (request_calls q ctx) (wr_Body q)) \<noteq> None))"

lemma Evaluate_allowed:
  "de_Allowed (fst (Evaluate U G clock bytes q ctx (Some r))) = (\<not> evaluation_blocks U G q ctx r)"
  unfolding Evaluate_def Let_def evaluation_blocks_def
  by (auto simp: allow_decision_def waf_IsActive_def case_prod_beta split: option.splits)

text \<open>C9:
  The firewall blocks a request exactly when it is enabled and neither off nor in detection mode,
  the host and path are not exempt, a rule set is loaded and the engine interrupts the
  transaction: a missing rule set and an error of the engine let the request pass.
\<close>

theorem Evaluate_blocks_iff:
  "\<not> de_Allowed (fst (Evaluate U G clock bytes q ctx rt)) \<longleftrightarrow>
     (\<exists>r. rt = Some r \<and> evaluation_blocks U G q ctx r)"
proof (cases rt)
  case None
  then show ?thesis by (simp add: Evaluate_def allow_decision_def)
next
  case (Some r)
  then show ?thesis by (simp add: Evaluate_allowed)
qed

lemma process_request_body:
  "process_request G w calls body = (it, err, body', rest) \<Longrightarrow> body' = body"
  unfolding process_request_def Let_def process_body_def readAndRestoreRequestBody_def
  by (auto split: option.splits sum.splits prod.splits bool.splits)

text \<open>C1:
  Inspecting a request does not change what is sent upstream: after the evaluation the request
  still has the body it came with, however much of it the engine has read, and in every case the
  other fields are the same.
\<close>

theorem Evaluate_restores_body: "fst (snd (Evaluate U G clock bytes q ctx rt)) = q"
proof (cases rt)
  case None
  then show ?thesis by (simp add: Evaluate_def)
next
  case (Some r)
  show ?thesis
    unfolding Evaluate_def Let_def Some
    by (auto split: option.splits prod.splits dest!: process_request_body)
qed


section \<open>A blocked request leaves an event\<close>

lemma newTraceID_nonempty: "newTraceID bytes \<noteq> []"
  by (simp add: newTraceID_def Let_def formatTraceID_def)

lemma queue_put_kept:
  assumes "0 < m" "int (length q) \<le> m"
  shows "e \<in> set (queue_bound m (queue_put e q))"
proof (cases "event_id e \<in> set (map event_id q)")
  case True
  then have "e \<in> set (queue_put e q)" by (auto simp: queue_put_def image_iff)
  moreover have "queue_bound m (queue_put e q) = queue_put e q"
    using assms(2) True by (simp add: queue_bound_def queue_put_def)
  ultimately show ?thesis by simp
next
  case False
  have "queue_bound m (q @ [e]) = drop (Suc (length q) - nat m) q @ [e]"
    using assms(1) by (cases "nat m") (simp_all add: queue_bound_def)
  with False show ?thesis by (simp add: queue_put_def)
qed

lemma added_event_kept:
  assumes "store_inv s" "ev_TraceID ev \<noteq> []"
  shows "ev \<in> se_event ` set (store_queue (event_store_Add now ev s))"
proof -
  let ?e = "\<lparr>se_event = ev, se_expiresAt = now + es_ttl s\<rparr>"
  have "int (length (queue_expire now (store_queue s))) \<le> es_maxEntries s" and "0 < es_maxEntries s"
    using assms(1) order_trans [OF length_filter_le, of "store_queue s" "nat (es_maxEntries s)"]
    by (simp_all add: store_inv_def queue_expire_def le_nat_iff)
      (simp add: store_queue_def)
  then have "?e \<in> set (queue_bound (es_maxEntries s) (queue_put ?e (queue_expire now (store_queue s))))"
    by (intro queue_put_kept)
  then have "?e \<in> set (store_queue (event_store_Add now ev s))"
    using event_store_Add_spec [OF assms(1), of now ev] assms(2) by simp
  then show ?thesis by (metis image_eqI stored_event.select_convs(1))
qed

text \<open>C11:
  A blocked request is answered with a client or server error status, and its event is in the
  store under the trace id of the answer, with the query redacted: the block page can be traced.
\<close>

theorem blocked_request_recorded:
  assumes "Evaluate U G clock bytes q ctx (Some r) = (d, q', Some r')" "\<not> de_Allowed d"
    and "store_inv (rt_events r)"
  shows "400 \<le> de_Status d \<and> de_Status d \<le> 599 \<and>
    (\<exists>ev \<in> se_event ` set (store_queue (rt_events r')).
       ev_TraceID ev = de_TraceID d \<and> ev_Status ev = de_Status d \<and>
       ev_Query ev = redactRawQuery (u_RawQuery (rq_URL (wr_request q))))"
proof -
  let ?cfg = "rt_config r"
  have b: "evaluation_blocks U G q ctx r"
    using assms(1,2) Evaluate_allowed [of U G clock bytes q ctx r] by simp
  then obtain c i err body calls where c: "rt_current r = Some c"
    and p: "process_request G (cr_WAF c) (request_calls q ctx) (wr_Body q) = (Some i, err, body, calls)"
    by (auto simp: evaluation_blocks_def split: option.splits)
      (metis prod.collapse)
  let ?rules = "collectRuleMatches (wg_matched G (cr_WAF c) calls) (Some i)"
  let ?action = "if trim_space (in_Action i) = [] then ''deny'' else trim_space (in_Action i)"
  let ?ev = "buildEvent (cl_event clock) (wr_request q) ctx c (newTraceID bytes) (wc_Mode ?cfg) ?action
      (normalizeStatus (in_Status i)) (uniqueRuleIDs ?rules (Some i)) ?rules (Some i) err"
  have "waf_IsActive ?cfg" "wc_Mode ?cfg \<noteq> ModeDetection" "\<not> isExcluded U (rt_exclusions r) (wr_request q)"
    using b by (auto simp: evaluation_blocks_def waf_IsActive_def)
  then have e: "Evaluate U G clock bytes q ctx (Some r) =
      ((allow_decision\<lparr>de_Enabled := True, de_Mode := wc_Mode ?cfg, de_DetectionOnly := False,
          de_Err := err, de_TraceID := newTraceID bytes, de_BundleID := cr_BundleID c, de_Allowed := False,
          de_Status := normalizeStatus (in_Status i), de_Action := ?action,
          de_RuleIDs := uniqueRuleIDs ?rules (Some i), de_Event := Some ?ev\<rparr>),
       q\<lparr>wr_Body := body\<rparr>, Some (r\<lparr>rt_events := event_store_Add (cl_add clock) ?ev (rt_events r)\<rparr>))"
    by (simp add: Evaluate_def c p Let_def)
  have d: "d = allow_decision\<lparr>de_Enabled := True, de_Mode := wc_Mode ?cfg, de_DetectionOnly := False,
          de_Err := err, de_TraceID := newTraceID bytes, de_BundleID := cr_BundleID c, de_Allowed := False,
          de_Status := normalizeStatus (in_Status i), de_Action := ?action,
          de_RuleIDs := uniqueRuleIDs ?rules (Some i), de_Event := Some ?ev\<rparr>"
    and r': "r' = r\<lparr>rt_events := event_store_Add (cl_add clock) ?ev (rt_events r)\<rparr>"
    using assms(1) unfolding e by simp_all
  have t: "ev_TraceID ?ev = newTraceID bytes" by (simp add: buildEvent_def)
  then have "?ev \<in> se_event ` set (store_queue (rt_events r'))"
    using added_event_kept [OF assms(3), of ?ev] newTraceID_nonempty by (simp add: r')
  moreover have "ev_TraceID ?ev = de_TraceID d" "ev_Status ?ev = de_Status d"
    "ev_Query ?ev = redactRawQuery (u_RawQuery (rq_URL (wr_request q)))"
    by (simp_all add: d buildEvent_def)
  ultimately show ?thesis
    using normalizeStatus_range [of "in_Status i"] by (auto simp: d)
qed

section \<open>Exempt prefixes cover whole segments\<close>

lemma join_append:
  "xs \<noteq> [] \<Longrightarrow> ys \<noteq> [] \<Longrightarrow> join_str sep (xs @ ys) = join_str sep xs @ sep @ join_str sep ys"
proof (induction sep xs rule: join_str.induct)
  case (2 sep x)
  then show ?case by (cases ys) auto
qed auto

lemma prefix_of_join:
  assumes "es \<noteq> []" "\<forall>e \<in> set (es @ rs). c \<notin> set e"
  shows "prefix (join_str [c] es @ [c]) (join_str [c] rs) \<longleftrightarrow> (\<exists>ts. ts \<noteq> [] \<and> rs = es @ ts)"
proof
  assume "prefix (join_str [c] es @ [c]) (join_str [c] rs)"
  then obtain s where s: "join_str [c] rs = join_str [c] es @ c # s" by (auto simp: prefix_def)
  then have ne: "rs \<noteq> []" by auto
  have "join_str [c] rs = join_str [c] (es @ split_byte c s)"
    using assms(1) join_append [of es "split_byte c s" "[c]"] by (simp add: s join_split)
  moreover have "\<forall>e \<in> set (es @ split_byte c s). c \<notin> set e"
    using assms(2) split_byte_no_sep by auto
  ultimately have "rs = es @ split_byte c s"
    using assms ne by (metis Un_iff append_is_Nil_conv set_append split_join)
  then show "\<exists>ts. ts \<noteq> [] \<and> rs = es @ ts" by (metis split_byte_nonempty)
next
  assume "\<exists>ts. ts \<noteq> [] \<and> rs = es @ ts"
  with assms(1) show "prefix (join_str [c] es @ [c]) (join_str [c] rs)"
    by (auto simp: join_append)
qed

text \<open>The segments of a rooted path, and whether the segments of one path begin another.\<close>

definition path_under :: "string \<Rightarrow> string \<Rightarrow> bool" where
  "path_under p pre = prefix (path_elems pre) (path_elems p)"

lemma path_elems_rooted:
  assumes "list_all plain_elem es"
  shows "path_elems (CHR ''/'' # join_str ''/'' es) = es"
  using assms split_rooted_join [OF assms]
  by (auto simp: path_elems_def list_all_iff plain_elem_def)

lemma trim_slash:
  assumes "list_all plain_elem es" "es \<noteq> []"
  shows "trim_right_set (CHR ''/'' # join_str ''/'' es) ''/'' = CHR ''/'' # join_str ''/'' es"
proof -
  have "join_str ''/'' es \<noteq> [] \<and> last (join_str ''/'' es) \<noteq> CHR ''/''"
    using assms
  proof (induction es rule: rev_induct)
    case (snoc e es)
    have e: "e \<noteq> []" "last e \<noteq> CHR ''/''"
      using snoc.prems by (auto simp: plain_elem_def) (metis last_in_set)
    have "join_str ''/'' (es @ [e]) = e \<or> (\<exists>s. join_str ''/'' (es @ [e]) = s @ e)"
      by (cases "es = []") (auto simp: join_append)
    with e show ?case by (metis append_is_Nil_conv last_appendR)
  qed simp
  then show ?thesis
    by (cases "join_str ''/'' es" rule: rev_cases) (simp_all add: trim_right_set_def)
qed

lemma prefix_test:
  assumes "clean_rooted pre" "clean_rooted p"
  shows "(pre = ''/'' \<or> p = pre \<or> hasPrefix p (trim_right_set pre ''/'' @ ''/'')) = path_under p pre"
proof -
  obtain es where es: "list_all plain_elem es" and pre: "pre = CHR ''/'' # join_str ''/'' es"
    using assms(1) path_clean_rooted [of pre] by (auto simp: clean_rooted_def hasPrefix_def)
  obtain rs where rs: "list_all plain_elem rs" and p: "p = CHR ''/'' # join_str ''/'' rs"
    using assms(2) path_clean_rooted [of p] by (auto simp: clean_rooted_def hasPrefix_def)
  have u: "path_under p pre = prefix es rs"
    using es rs by (simp add: path_under_def pre p path_elems_rooted)
  have eq: "p = pre \<longleftrightarrow> rs = es"
    using es rs path_elems_rooted pre p by metis
  show ?thesis
  proof (cases "es = []")
    case True
    then show ?thesis unfolding u by (simp add: pre)
  next
    case False
    then have root: "pre \<noteq> ''/''"
      using es by (cases es; cases "tl es") (auto simp: pre plain_elem_def)
    have sep: "\<forall>e \<in> set (es @ rs). CHR ''/'' \<notin> set e"
      using es rs by (auto simp: list_all_iff plain_elem_def)
    have "hasPrefix p (trim_right_set pre ''/'' @ ''/'') \<longleftrightarrow> (\<exists>ts. ts \<noteq> [] \<and> rs = es @ ts)"
      unfolding pre trim_slash [OF es False] hasPrefix_def p
      using prefix_of_join [OF False sep] by simp
    then show ?thesis unfolding u eq prefix_def using root by (metis append_Nil2)
  qed
qed

text \<open>C1:
  With the path prefixes that \<^verbatim>\<open>NormalizeConfig\<close> leaves and no exempt host, a rooted request
  path is exempt from inspection exactly when the segments of a prefix begin the segments of the
  cleaned path: \<^verbatim>\<open>/app\<close> exempts \<^verbatim>\<open>/app\<close> and \<^verbatim>\<open>/app/x\<close>, neither
  \<^verbatim>\<open>/apple\<close> nor \<^verbatim>\<open>/app/../admin\<close>.
\<close>

theorem exempt_paths_by_segment:
  assumes "hasPrefix (u_Path (rq_URL r)) ''/''" "xc_disabledHosts xc = []"
    and "xc_disabledPathPrefixes xc = wc_DisabledPathPrefixes (NormalizeConfig U cfg d)"
  shows "isExcluded U xc r =
    list_ex (path_under (path_clean (u_Path (rq_URL r)))) (xc_disabledPathPrefixes xc)"
proof -
  let ?p = "path_clean (u_Path (rq_URL r))"
  have p: "clean_rooted ?p" "hasPrefix ?p ''/''"
    using assms(1) by (simp_all add: clean_rooted_def hasPrefix_def path_clean_idem_rooted
        path_clean_rooted_prefix)
  have "list_all clean_rooted (xc_disabledPathPrefixes xc)"
    unfolding assms(3) NormalizeConfig_def Let_def by (simp add: normalizePathPrefixes_clean)
  then have "list_ex (\<lambda>pre. pre = ''/'' \<or> ?p = pre \<or> hasPrefix ?p (trim_right_set pre ''/'' @ ''/''))
      (xc_disabledPathPrefixes xc) = list_ex (path_under ?p) (xc_disabledPathPrefixes xc)"
    using p(1) prefix_test by (auto simp: list_all_iff list_ex_iff)
  with p(2) assms(2) show ?thesis by (simp add: isExcluded_def Let_def)
qed


section \<open>A run of the firewall\<close>

text \<open>An engine that interrupts every request, and a run time with it in blocking mode.\<close>

definition strict_engine :: "unit waf_engine" where
  "strict_engine =
     \<lparr>wg_headers = (\<lambda>_ _. Some \<lparr>in_RuleID = 942100, in_Action = ''deny'', in_Status = 403\<rparr>),
      wg_bodyAccess = (\<lambda>_ _. False), wg_readBody = (\<lambda>_ _ _. (0, Inr None)),
      wg_processBody = (\<lambda>_ _. Inr None), wg_detection = (\<lambda>_ _. None), wg_matched = (\<lambda>_ _. [])\<rparr>"

definition strict_runtime :: "unit waf_runtime" where
  "strict_runtime =
     \<lparr>rt_current = Some \<lparr>cr_Config = zero_waf_config, cr_BundleID = localRuleSetID, cr_BundlePath = ''/w'',
        cr_BundleHash = [], cr_LoadedAt = 0, cr_WAF = ()\<rparr>,
      rt_config = zero_waf_config\<lparr>wc_Enabled := True, wc_Mode := ModeBlocking\<rparr>,
      rt_exclusions = \<lparr>xc_disabledHosts = [], xc_disabledPathPrefixes = [''/app'']\<rparr>,
      rt_lastError = None, rt_events = NewEventStore 2 5, rt_defaultRulesDir = ''/w''\<rparr>"

definition example_waf_request :: waf_request where
  "example_waf_request =
     \<lparr>wr_request = plain_request\<lparr>rq_URL := zero_url\<lparr>u_Path := ''/q'', u_RawQuery := ''a=1&token=x''\<rparr>\<rparr>,
      wr_Proto = ''HTTP/1.1'', wr_TransferEncoding = [], wr_Body = None\<rparr>"

definition example_waf_context :: waf_eval_context where
  "example_waf_context =
     \<lparr>ec_ClientIP = ''10.0.0.1'', ec_RouteType = ''path'', ec_RouteKey = ''/'', ec_Upstream = [], ec_Scheme = []\<rparr>"

abbreviation example_run :: "decision \<times> waf_request \<times> unit waf_runtime option" where
  "example_run \<equiv> Evaluate plain_unicode strict_engine \<lparr>cl_event = 0, cl_add = 0\<rparr>
     (replicate 16 CHR ''a'') example_waf_request example_waf_context (Some strict_runtime)"

theorem blocked_request_recorded_witness:
  "\<not> de_Allowed (fst example_run) \<and> de_Status (fst example_run) = 403 \<and> 400 \<le> de_Status (fst example_run)"
proof -
  have a: "\<not> de_Allowed (fst example_run)" "de_Status (fst example_run) = 403"
    by code_simp+
  have "snd (snd example_run) \<noteq> None" by code_simp
  then obtain r' where e: "example_run = (fst example_run, fst (snd example_run), Some r')"
    by (metis option.collapse prod.collapse)
  have "store_inv (rt_events strict_runtime)" by code_simp
  with blocked_request_recorded [OF e a(1)] a show ?thesis by blast
qed

theorem exempt_paths_by_segment_witness:
  "isExcluded plain_unicode (rt_exclusions strict_runtime)
     (plain_request\<lparr>rq_URL := zero_url\<lparr>u_Path := ''/app/x''\<rparr>\<rparr>) \<and>
   \<not> isExcluded plain_unicode (rt_exclusions strict_runtime)
     (plain_request\<lparr>rq_URL := zero_url\<lparr>u_Path := ''/apple''\<rparr>\<rparr>)"
proof -
  let ?cfg = "zero_waf_config\<lparr>wc_DisabledPathPrefixes := ['' app/ '']\<rparr>"
  let ?xc = "rt_exclusions strict_runtime"
  have n: "xc_disabledPathPrefixes ?xc = wc_DisabledPathPrefixes (NormalizeConfig plain_unicode ?cfg ''/w'')"
    and h: "xc_disabledHosts ?xc = []"
    by code_simp+
  have "list_ex (path_under (path_clean ''/app/x'')) (xc_disabledPathPrefixes ?xc)"
    "\<not> list_ex (path_under (path_clean ''/apple'')) (xc_disabledPathPrefixes ?xc)"
    by code_simp+
  then show ?thesis
    using exempt_paths_by_segment [OF _ h n, of "plain_request\<lparr>rq_URL := zero_url\<lparr>u_Path := ''/app/x''\<rparr>\<rparr>"]
      exempt_paths_by_segment [OF _ h n, of "plain_request\<lparr>rq_URL := zero_url\<lparr>u_Path := ''/apple''\<rparr>\<rparr>"]
    by (simp add: hasPrefix_def)
qed

section \<open>The firewall in the way of a request\<close>

text \<open>The verdict the gateway gets from the run time, for the rest of the request given.\<close>

definition runtime_firewall :: "unicode \<Rightarrow> 'w waf_engine \<Rightarrow> eval_clock \<Rightarrow> string \<Rightarrow> string \<Rightarrow> string list \<Rightarrow>
    string option \<Rightarrow> 'w waf_runtime option \<Rightarrow> request \<Rightarrow> waf_context \<Rightarrow> waf_decision" where
  "runtime_firewall U G clock bytes proto te body rt r x =
     (let d = fst (Evaluate U G clock bytes
                \<lparr>wr_request = r, wr_Proto = proto, wr_TransferEncoding = te, wr_Body = body\<rparr>
                \<lparr>ec_ClientIP = wx_ClientIP x, ec_RouteType = wx_RouteType x, ec_RouteKey = wx_RouteKey x,
                 ec_Upstream = wx_Upstream x, ec_Scheme = wx_Scheme x\<rparr> rt)
      in \<lparr>wd_Allowed = de_Allowed d, wd_Status = de_Status d, wd_TraceID = de_TraceID d\<rparr>)"


lemma no_waf_later:
  fixes v :: serve_env
  defines "v' \<equiv> v\<lparr>se_waf := None\<rparr>"
  shows "serve_preflight G U v' r sn ip ro s = serve_preflight G U v r sn ip ro s"
proof -
  have c: "check_auth G U v' = check_auth G U v" "check_toolbar G U v' = check_toolbar G U v"
    by (simp_all add: fun_eq_iff check_auth_def check_toolbar_def v'_def)
  have a: "authorised G U v' r sn ip = authorised G U v r sn ip" for r sn ip
    by (intro ext) (simp only: authorised_def c)
  have "serve_route G U v' r sn ip ro s = serve_route G U v r sn ip ro s" for s
    by (simp only: serve_route_def handleSelectRoute_def serve_host_def serve_rule_def a)
  moreover have "se_preflightClock v' = se_preflightClock v" "se_preflightReply v' = se_preflightReply v"
    by (simp_all add: v'_def)
  ultimately show ?thesis by (simp only: serve_preflight_def)
qed



end
