(* ===== verification/I18n.thy ===== *)
theory I18n
  imports Prelude GoStrings
begin

text \<open>
  Locales and messages, \<^verbatim>\<open>pkg/i18n/i18n.go\<close>: the normalisation of a locale name, the
  process-wide default and the lookup of a message with its fallbacks.  The message tables, which
  are embedded data files, are a parameter.  The matching of an Accept-Language header by a
  library is not modelled; no request uses it.
\<close>

definition LocaleZhCN :: string where "LocaleZhCN = ''zh-CN''"
definition LocaleZhHant :: string where "LocaleZhHant = ''zh-Hant''"
definition LocaleEn :: string where "LocaleEn = ''en''"
definition LocaleKoKR :: string where "LocaleKoKR = ''ko-KR''"
definition LocaleJaJP :: string where "LocaleJaJP = ''ja-JP''"

lemmas locale_names = LocaleZhCN_def LocaleZhHant_def LocaleEn_def LocaleKoKR_def LocaleJaJP_def

definition locales :: "string list" where
  "locales = [LocaleZhCN, LocaleZhHant, LocaleEn, LocaleKoKR, LocaleJaJP]"

definition DefaultLocale :: string where
  "DefaultLocale = LocaleZhCN"

definition NormalizeLocale :: "unicode \<Rightarrow> string \<Rightarrow> string" where
  "NormalizeLocale U v =
     (let raw = trim_space v
      in if raw = [] then []
         else if raw \<in> set locales then raw
         else let lower = to_lower U (map (\<lambda>c. if c = CHR ''_'' then CHR ''-'' else c) raw)
              in if lower \<in> {''zh'', ''zh-cn'', ''zh-hans'', ''zh-hans-cn'', ''zh-sg'', ''zh-my''}
                 then LocaleZhCN
                 else if lower \<in> {''zh-tw'', ''zh-hk'', ''zh-mo'', ''zh-hant'', ''zh-hant-tw''}
                 then LocaleZhHant
                 else if lower \<in> {''en'', ''en-us'', ''en-gb''} then LocaleEn
                 else if lower \<in> {''ko'', ''ko-kr''} then LocaleKoKR
                 else if lower \<in> {''ja'', ''ja-jp''} then LocaleJaJP
                 else if hasPrefix lower ''en-'' then LocaleEn
                 else if hasPrefix lower ''ko-'' then LocaleKoKR
                 else if hasPrefix lower ''ja-'' then LocaleJaJP
                 else if hasPrefix lower ''zh-hant'' then LocaleZhHant
                 else if hasPrefix lower ''zh-'' then LocaleZhCN
                 else [])"

definition locale_or_default :: "string \<Rightarrow> string" where
  "locale_or_default l = (if l = [] then DefaultLocale else l)"

text \<open>\<^verbatim>\<open>NormalizeConfig\<close> on the one field of the configuration.\<close>

definition i18n_NormalizeConfig :: "unicode \<Rightarrow> string \<Rightarrow> string" where
  "i18n_NormalizeConfig U defaultLocale = locale_or_default (NormalizeLocale U defaultLocale)"

text \<open>The process-wide default: what \<^verbatim>\<open>SetDefaultLocale\<close> stores.\<close>

definition SetDefaultLocale :: "unicode \<Rightarrow> string \<Rightarrow> string" where
  "SetDefaultLocale U l = locale_or_default (NormalizeLocale U l)"

definition DefaultLocaleValue :: "string \<Rightarrow> string" where
  "DefaultLocaleValue stored = locale_or_default stored"

definition ResolveRequestLocale :: "string \<Rightarrow> string" where
  "ResolveRequestLocale stored =
     (if DefaultLocaleValue stored \<noteq> [] then DefaultLocaleValue stored else DefaultLocale)"

type_synonym message_tables = "(string \<times> (string \<times> string) list) list"

definition message_in :: "message_tables \<Rightarrow> string \<Rightarrow> string \<Rightarrow> string" where
  "message_in ms l key =
     (case al_get ms l of None \<Rightarrow> [] | Some t \<Rightarrow> (case al_get t key of None \<Rightarrow> [] | Some v \<Rightarrow> v))"

definition i18n_T :: "unicode \<Rightarrow> message_tables \<Rightarrow> string \<Rightarrow> string \<Rightarrow> string" where
  "i18n_T U ms l key =
     (let n = locale_or_default (NormalizeLocale U l)
      in if message_in ms n key \<noteq> [] then message_in ms n key
         else if message_in ms DefaultLocale key \<noteq> [] then message_in ms DefaultLocale key
         else key)"

section \<open>Only known locales\<close>

definition locale_or_empty :: "string \<Rightarrow> bool" where
  "locale_or_empty l = (l = [] \<or> l \<in> set locales)"

lemma locale_or_empty_if:
  "(c \<Longrightarrow> locale_or_empty a) \<Longrightarrow> (\<not> c \<Longrightarrow> locale_or_empty b) \<Longrightarrow> locale_or_empty (if c then a else b)"
  by simp

lemma locale_or_empty_intros:
  "locale_or_empty []" "locale_or_empty LocaleZhCN" "locale_or_empty LocaleZhHant"
  "locale_or_empty LocaleEn" "locale_or_empty LocaleKoKR" "locale_or_empty LocaleJaJP"
  "l \<in> set locales \<Longrightarrow> locale_or_empty l"
  by (simp_all add: locale_or_empty_def locales_def)

lemma NormalizeLocale_known: "NormalizeLocale U v = [] \<or> NormalizeLocale U v \<in> set locales"
  unfolding locale_or_empty_def [symmetric] NormalizeLocale_def Let_def
  by (intro locale_or_empty_if; (rule locale_or_empty_intros; assumption?)?)

lemma locales_trimmed: "l \<in> set locales \<Longrightarrow> trim_space l = l \<and> l \<noteq> []"
proof -
  have "list_all (\<lambda>l. trim_space l = l \<and> l \<noteq> []) locales" by code_simp
  then show "l \<in> set locales \<Longrightarrow> trim_space l = l \<and> l \<noteq> []" by (simp add: list_all_iff)
qed

lemma NormalizeLocale_fix: "l \<in> set locales \<Longrightarrow> NormalizeLocale U l = l"
  using locales_trimmed [of l] by (simp add: NormalizeLocale_def)

lemma locale_or_default_known: "locale_or_default (NormalizeLocale U v) \<in> set locales"
  using NormalizeLocale_known [of U v] by (auto simp: locale_or_default_def DefaultLocale_def locales_def)

lemma i18n_NormalizeConfig_idem: "i18n_NormalizeConfig U (i18n_NormalizeConfig U l) = i18n_NormalizeConfig U l"
  using locale_or_default_known [of U l] locales_trimmed
  by (simp add: i18n_NormalizeConfig_def NormalizeLocale_fix locale_or_default_def split: if_splits)

text \<open>C1:
  Whatever text is configured, the default locale every request is answered in is one of the five
  locales that have a message table, and resolving it again gives the same one.
\<close>

theorem request_locale_known:
  "ResolveRequestLocale (SetDefaultLocale U v) \<in> set locales \<and>
   SetDefaultLocale U (ResolveRequestLocale (SetDefaultLocale U v)) = SetDefaultLocale U v"
proof -
  have k: "SetDefaultLocale U v \<in> set locales"
    unfolding SetDefaultLocale_def by (rule locale_or_default_known)
  then have "ResolveRequestLocale (SetDefaultLocale U v) = SetDefaultLocale U v"
    using locales_trimmed by (auto simp: ResolveRequestLocale_def DefaultLocaleValue_def locale_or_default_def)
  moreover have "SetDefaultLocale U l = l" if "l \<in> set locales" for l
    using that locales_trimmed by (auto simp: SetDefaultLocale_def NormalizeLocale_fix locale_or_default_def)
  ultimately show ?thesis using k by simp
qed

end
