(* ===== verification/ConfigStore.thy ===== *)
theory ConfigStore
  imports RuleStore Throttle WafConfig Blacklist I18n
begin

text \<open>
  The configuration file, \<^verbatim>\<open>pkg/config/manager.go\<close>, with the types of
  \<^verbatim>\<open>pkg/models/config.go\<close>: the defaults, the normalisation on every load and save, the
  migrations of older files, and the manager that reads and writes the file.  A slice that may be
  nil is an option, for the code tells nil from empty.  The encoding of a configuration as JSON is
  a parameter: \<open>json_image\<close> says what the field tags make of a configuration that is written
  and read again.  The lemmas show that the changed flag is exact, that a second normalisation
  changes nothing, and what survives saving and loading.
\<close>

section \<open>The configuration\<close>

record listed_config =
  lc_Enabled :: bool
  lc_Items :: "string list option"
  lc_UpdatedAt :: string

record ssl_certificate =
  sc_ID :: string
  sc_Label :: string
  sc_Cert :: string
  sc_Key :: string
  sc_IsDefault :: bool

record ssl_config =
  sl_DeploymentMode :: string
  sl_Certificates :: "ssl_certificate list option"

record icon_config =
  ic_Enabled :: bool
  ic_UpdatedAt :: string

record logging_config =
  lg_Enabled :: bool
  lg_MaxDays :: int

text \<open>The two lists of the firewall configuration may be nil; they are kept beside it.\<close>

record waf_section =
  wf_config :: waf_config
  wf_DisabledHosts :: "string list option"
  wf_DisabledPathPrefixes :: "string list option"

record app_config =
  ap_Rules :: "path_rule list option"
  ap_HostRules :: "host_rule list option"
  ap_StreamRules :: "stream_rule list option"
  ap_DefaultRoute :: string
  ap_AuthConfig :: auth_config
  ap_AdminPort :: int
  ap_ProxyProtocolForce :: bool
  ap_Throttle :: throttle_config
  ap_Visibility :: listed_config
  ap_ForwardedHeaders :: listed_config
  ap_PreserveHost :: listed_config
  ap_Portal :: gateway_portal
  ap_FnosPortIconHijack :: icon_config
  ap_IptablesChainName :: string
  ap_Logging :: logging_config
  ap_Blacklist :: "bl_record list option"
  ap_WAF :: waf_section
  ap_Locale :: string
  ap_SSL :: ssl_config
  ap_SSLCert :: string
  ap_SSLKey :: string

definition default_throttle :: throttle_config where
  "default_throttle = \<lparr>tc_Enabled = True, tc_RequestsPerSecond = 100, tc_Burst = 200, tc_BlockSeconds = 30\<rparr>"

definition empty_waf_config :: waf_config where
  "empty_waf_config =
     \<lparr>wc_Enabled = False, wc_Mode = [], wc_RulesDir = [], wc_ActiveBundleID = [],
      wc_ParanoiaLevel = 0, wc_ExecutingParanoiaLevel = 0, wc_InboundAnomalyThreshold = 0,
      wc_OutboundAnomalyThreshold = 0, wc_RequestBodyAccess = False, wc_RequestBodyLimitBytes = 0,
      wc_RequestBodyInMemoryLimitBytes = 0, wc_ResponseBodyAccess = False, wc_DisabledHosts = [],
      wc_DisabledPathPrefixes = [], wc_UpdatedAt = []\<rparr>"

definition DefaultMaxDays :: int where
  "DefaultMaxDays = 7"

definition default_auth_config :: auth_config where
  "default_auth_config =
     \<lparr>ac_AuthPort = 7997, ac_AuthURL = ''/api/auth/verify'', ac_LoginURL = ''/login'',
      ac_LogoutURL = ''/api/auth/logout'', ac_PreflightURL = ''/api/auth/preflight'',
      ac_AuthCacheTTL = 1, ac_AuthCacheFailTTL = 1, ac_EdgeClientIPEnabled = False,
      ac_AliyunESAEnabled = False, ac_TencentEdgeOneEnabled = False, ac_PublicAuthBaseURL = [],
      ac_PublicHTTPPort = 0, ac_PublicHTTPSPort = 0, ac_AuthHost = [], ac_TrustForwardedProto = False\<rparr>"

definition defaultConfig :: app_config where
  "defaultConfig =
     \<lparr>ap_Rules = Some [], ap_HostRules = Some [], ap_StreamRules = Some [],
      ap_DefaultRoute = ''/__select__'', ap_AuthConfig = default_auth_config, ap_AdminPort = 7996,
      ap_ProxyProtocolForce = False, ap_Throttle = default_throttle,
      ap_Visibility = \<lparr>lc_Enabled = False, lc_Items = Some [], lc_UpdatedAt = []\<rparr>,
      ap_ForwardedHeaders = \<lparr>lc_Enabled = False, lc_Items = Some [], lc_UpdatedAt = []\<rparr>,
      ap_PreserveHost = \<lparr>lc_Enabled = True, lc_Items = Some [], lc_UpdatedAt = []\<rparr>,
      ap_Portal = \<lparr>gp_Enabled = True, gp_DisplayStyle = ''domain'', gp_ShowAppIcon = False, gp_enabledSet = False\<rparr>,
      ap_FnosPortIconHijack = \<lparr>ic_Enabled = False, ic_UpdatedAt = []\<rparr>, ap_IptablesChainName = [],
      ap_Logging = \<lparr>lg_Enabled = False, lg_MaxDays = DefaultMaxDays\<rparr>, ap_Blacklist = Some [],
      ap_WAF = \<lparr>wf_config = empty_waf_config, wf_DisabledHosts = None, wf_DisabledPathPrefixes = None\<rparr>,
      ap_Locale = DefaultLocale,
      ap_SSL = \<lparr>sl_DeploymentMode = ''single_active'', sl_Certificates = Some []\<rparr>,
      ap_SSLCert = [], ap_SSLKey = []\<rparr>"

section \<open>Normalisation\<close>

definition nil_empty :: "'a list option \<Rightarrow> 'a list option" where
  "nil_empty xs = (case xs of None \<Rightarrow> Some [] | Some ys \<Rightarrow> Some ys)"

definition filled_list :: "listed_config \<Rightarrow> listed_config" where
  "filled_list c = c\<lparr>lc_Items := nil_empty (lc_Items c)\<rparr>"

definition legacy_ssl :: "app_config \<Rightarrow> bool" where
  "legacy_ssl cfg =
     (nil_empty (sl_Certificates (ap_SSL cfg)) = Some [] \<and>
      trim_space (ap_SSLCert cfg) \<noteq> [] \<and> trim_space (ap_SSLKey cfg) \<noteq> [])"

definition default_ssl :: "app_config \<Rightarrow> ssl_config" where
  "default_ssl cfg =
     (if legacy_ssl cfg
      then \<lparr>sl_DeploymentMode = ''single_active'',
            sl_Certificates = Some [\<lparr>sc_ID = ''legacy-default'', sc_Label = ''Legacy SSL'',
              sc_Cert = trim_space (ap_SSLCert cfg), sc_Key = trim_space (ap_SSLKey cfg),
              sc_IsDefault = True\<rparr>]\<rparr>
      else \<lparr>sl_DeploymentMode =
              (if sl_DeploymentMode (ap_SSL cfg) = ''multi_sni'' then ''multi_sni'' else ''single_active''),
            sl_Certificates = nil_empty (sl_Certificates (ap_SSL cfg))\<rparr>)"

definition base_url :: "string \<Rightarrow> string" where
  "base_url u = trim_space (trim_right_set u ''/'')"

definition not_negative :: "int \<Rightarrow> int" where
  "not_negative x = (if x < 0 then 0 else x)"

definition default_auth :: "auth_config \<Rightarrow> auth_config" where
  "default_auth c =
     fst (NormalizeEdgeClientIPSelection
       (c\<lparr>ac_AuthPort := (if ac_AuthPort c \<le> 0 then 7997 else ac_AuthPort c),
          ac_AuthURL := nonempty_or (ac_AuthURL c) ''/api/auth/verify'',
          ac_LoginURL := nonempty_or (ac_LoginURL c) ''/login'',
          ac_LogoutURL := nonempty_or (ac_LogoutURL c) ''/api/auth/logout'',
          ac_PreflightURL := nonempty_or (ac_PreflightURL c) ''/api/auth/preflight'',
          ac_AuthCacheTTL := not_negative (ac_AuthCacheTTL c),
          ac_AuthCacheFailTTL := not_negative (ac_AuthCacheFailTTL c),
          ac_PublicAuthBaseURL := base_url (ac_PublicAuthBaseURL c),
          ac_PublicHTTPPort := not_negative (ac_PublicHTTPPort c),
          ac_PublicHTTPSPort := not_negative (ac_PublicHTTPSPort c),
          ac_AuthHost := trim_space (ac_AuthHost c)\<rparr>))"

definition auth_changed :: "auth_config \<Rightarrow> bool" where
  "auth_changed c =
     (ac_AuthPort c \<le> 0 \<or> ac_AuthURL c = [] \<or> ac_LoginURL c = [] \<or> ac_LogoutURL c = [] \<or>
      ac_PreflightURL c = [] \<or> ac_AuthCacheTTL c < 0 \<or> ac_AuthCacheFailTTL c < 0 \<or>
      ac_PublicAuthBaseURL c \<noteq> base_url (ac_PublicAuthBaseURL c) \<or>
      ac_PublicHTTPPort c < 0 \<or> ac_PublicHTTPSPort c < 0 \<or>
      ac_AuthHost c \<noteq> trim_space (ac_AuthHost c) \<or> snd (NormalizeEdgeClientIPSelection c))"

definition positive_default :: "int \<Rightarrow> int \<Rightarrow> int" where
  "positive_default d x = (if x \<le> 0 then d else x)"

definition default_throttle_fields :: "throttle_config \<Rightarrow> throttle_config" where
  "default_throttle_fields t =
     (if tc_Enabled t
      then t\<lparr>tc_RequestsPerSecond := positive_default 100 (tc_RequestsPerSecond t),
             tc_Burst := positive_default 200 (tc_Burst t),
             tc_BlockSeconds := positive_default 30 (tc_BlockSeconds t)\<rparr>
      else t)"

definition default_waf :: "waf_section \<Rightarrow> waf_section" where
  "default_waf w = w\<lparr>wf_DisabledHosts := nil_empty (wf_DisabledHosts w),
                     wf_DisabledPathPrefixes := nil_empty (wf_DisabledPathPrefixes w)\<rparr>"

definition with_defaults :: "unicode \<Rightarrow> app_config \<Rightarrow> app_config" where
  "with_defaults U cfg =
     cfg\<lparr>ap_Rules := nil_empty (ap_Rules cfg), ap_HostRules := nil_empty (ap_HostRules cfg),
         ap_StreamRules := nil_empty (ap_StreamRules cfg), ap_SSL := default_ssl cfg,
         ap_DefaultRoute := nonempty_or (ap_DefaultRoute cfg) ''/__select__'',
         ap_AuthConfig := default_auth (ap_AuthConfig cfg),
         ap_Portal := NormalizeGatewayPortalConfig (ap_Portal cfg),
         ap_Locale := i18n_NormalizeConfig U (ap_Locale cfg),
         ap_AdminPort := positive_default 7996 (ap_AdminPort cfg),
         ap_Throttle := default_throttle_fields (ap_Throttle cfg),
         ap_Visibility := filled_list (ap_Visibility cfg),
         ap_ForwardedHeaders := filled_list (ap_ForwardedHeaders cfg),
         ap_PreserveHost := filled_list (ap_PreserveHost cfg),
         ap_Logging := (ap_Logging cfg)\<lparr>lg_MaxDays := positive_default DefaultMaxDays (lg_MaxDays (ap_Logging cfg))\<rparr>,
         ap_Blacklist := nil_empty (ap_Blacklist cfg), ap_WAF := default_waf (ap_WAF cfg)\<rparr>"

text \<open>The flag \<^verbatim>\<open>changed\<close> as the code sets it, and the process-wide locale it stores.\<close>

definition defaults_changed :: "unicode \<Rightarrow> app_config \<Rightarrow> bool" where
  "defaults_changed U cfg =
     (ap_Rules cfg = None \<or> ap_HostRules cfg = None \<or> ap_StreamRules cfg = None \<or>
      sl_Certificates (ap_SSL cfg) = None \<or>
      sl_DeploymentMode (ap_SSL cfg) \<notin> {''multi_sni'', ''single_active''} \<or>
      legacy_ssl cfg \<or> ap_DefaultRoute cfg = [] \<or> auth_changed (ap_AuthConfig cfg) \<or>
      ap_Portal cfg \<noteq> NormalizeGatewayPortalConfig (ap_Portal cfg) \<or>
      ap_Locale cfg \<noteq> i18n_NormalizeConfig U (ap_Locale cfg) \<or> ap_AdminPort cfg \<le> 0 \<or>
      (tc_Enabled (ap_Throttle cfg) \<and>
        (tc_RequestsPerSecond (ap_Throttle cfg) \<le> 0 \<or> tc_Burst (ap_Throttle cfg) \<le> 0 \<or>
         tc_BlockSeconds (ap_Throttle cfg) \<le> 0)) \<or>
      lc_Items (ap_Visibility cfg) = None \<or> lc_Items (ap_ForwardedHeaders cfg) = None \<or>
      lc_Items (ap_PreserveHost cfg) = None \<or> lg_MaxDays (ap_Logging cfg) \<le> 0 \<or>
      ap_Blacklist cfg = None \<or> wf_DisabledHosts (ap_WAF cfg) = None \<or>
      wf_DisabledPathPrefixes (ap_WAF cfg) = None)"

definition applyDefaults :: "unicode \<Rightarrow> app_config \<Rightarrow> app_config \<times> bool \<times> string" where
  "applyDefaults U cfg =
     (with_defaults U cfg, defaults_changed U cfg, SetDefaultLocale U (ap_Locale (with_defaults U cfg)))"

section \<open>The flag is exact, and one normalisation is enough\<close>

lemma nil_empty_simps [simp]:
  "nil_empty (nil_empty xs) = nil_empty xs" "nil_empty xs = xs \<longleftrightarrow> xs \<noteq> None" "nil_empty xs \<noteq> None"
  "xs = nil_empty xs \<longleftrightarrow> xs \<noteq> None"
  by (auto simp: nil_empty_def split: option.splits)

lemma filled_list_fix: "filled_list c = c \<longleftrightarrow> lc_Items c \<noteq> None"
  by (cases c) (simp add: filled_list_def)

text \<open>The fields of a normalised section, one by one.\<close>

lemma default_auth_fields [simp]:
  "ac_AuthPort (default_auth c) = (if ac_AuthPort c \<le> 0 then 7997 else ac_AuthPort c)"
  "ac_AuthURL (default_auth c) = nonempty_or (ac_AuthURL c) ''/api/auth/verify''"
  "ac_LoginURL (default_auth c) = nonempty_or (ac_LoginURL c) ''/login''"
  "ac_LogoutURL (default_auth c) = nonempty_or (ac_LogoutURL c) ''/api/auth/logout''"
  "ac_PreflightURL (default_auth c) = nonempty_or (ac_PreflightURL c) ''/api/auth/preflight''"
  "ac_AuthCacheTTL (default_auth c) = not_negative (ac_AuthCacheTTL c)"
  "ac_AuthCacheFailTTL (default_auth c) = not_negative (ac_AuthCacheFailTTL c)"
  "ac_EdgeClientIPEnabled (default_auth c) = ac_EdgeClientIPEnabled c"
  "ac_AliyunESAEnabled (default_auth c) =
     (ac_EdgeClientIPEnabled c \<and> ac_AliyunESAEnabled c \<and> \<not> ac_TencentEdgeOneEnabled c)"
  "ac_TencentEdgeOneEnabled (default_auth c) = (ac_EdgeClientIPEnabled c \<and> ac_TencentEdgeOneEnabled c)"
  "ac_PublicAuthBaseURL (default_auth c) = base_url (ac_PublicAuthBaseURL c)"
  "ac_PublicHTTPPort (default_auth c) = not_negative (ac_PublicHTTPPort c)"
  "ac_PublicHTTPSPort (default_auth c) = not_negative (ac_PublicHTTPSPort c)"
  "ac_AuthHost (default_auth c) = trim_space (ac_AuthHost c)"
  "ac_TrustForwardedProto (default_auth c) = ac_TrustForwardedProto c"
  by (simp_all add: default_auth_def NormalizeEdgeClientIPSelection_def) blast

lemma auth_eq_iff:
  fixes a b :: auth_config
  shows "a = b \<longleftrightarrow>
     ac_AuthPort a = ac_AuthPort b \<and> ac_AuthURL a = ac_AuthURL b \<and> ac_LoginURL a = ac_LoginURL b \<and>
     ac_LogoutURL a = ac_LogoutURL b \<and> ac_PreflightURL a = ac_PreflightURL b \<and>
     ac_AuthCacheTTL a = ac_AuthCacheTTL b \<and> ac_AuthCacheFailTTL a = ac_AuthCacheFailTTL b \<and>
     ac_EdgeClientIPEnabled a = ac_EdgeClientIPEnabled b \<and> ac_AliyunESAEnabled a = ac_AliyunESAEnabled b \<and>
     ac_TencentEdgeOneEnabled a = ac_TencentEdgeOneEnabled b \<and>
     ac_PublicAuthBaseURL a = ac_PublicAuthBaseURL b \<and> ac_PublicHTTPPort a = ac_PublicHTTPPort b \<and>
     ac_PublicHTTPSPort a = ac_PublicHTTPSPort b \<and> ac_AuthHost a = ac_AuthHost b \<and>
     ac_TrustForwardedProto a = ac_TrustForwardedProto b"
  by (cases a; cases b) simp

lemma nonempty_or_eq: "d \<noteq> [] \<Longrightarrow> nonempty_or s d = s \<longleftrightarrow> s \<noteq> []"
  by (auto simp: nonempty_or_def)

lemma not_negative_eq: "not_negative x = x \<longleftrightarrow> \<not> x < 0"
  by (auto simp: not_negative_def)

lemma positive_default_eq: "0 < d \<Longrightarrow> positive_default d x = x \<longleftrightarrow> \<not> x \<le> 0"
  by (auto simp: positive_default_def)

lemma default_auth_fix: "default_auth c = c \<longleftrightarrow> \<not> auth_changed c"
proof -
  have flags: "(ac_EdgeClientIPEnabled c \<and> ac_AliyunESAEnabled c \<and> \<not> ac_TencentEdgeOneEnabled c) = ac_AliyunESAEnabled c \<and>
      (ac_EdgeClientIPEnabled c \<and> ac_TencentEdgeOneEnabled c) = ac_TencentEdgeOneEnabled c \<longleftrightarrow>
      \<not> snd (NormalizeEdgeClientIPSelection c)"
    by (auto simp: NormalizeEdgeClientIPSelection_def)
  have port: "(if ac_AuthPort c \<le> 0 then 7997 else ac_AuthPort c) = ac_AuthPort c \<longleftrightarrow> \<not> ac_AuthPort c \<le> 0"
    by auto
  show ?thesis
    unfolding auth_eq_iff default_auth_fields auth_changed_def port
    apply (simp add: nonempty_or_eq not_negative_eq eq_commute [of _ "base_url _"] eq_commute [of _ "trim_space _"])
    using flags by blast
qed

lemma portal_eq_iff:
  fixes a b :: gateway_portal
  shows "a = b \<longleftrightarrow> gp_Enabled a = gp_Enabled b \<and> gp_DisplayStyle a = gp_DisplayStyle b \<and>
     gp_ShowAppIcon a = gp_ShowAppIcon b \<and> gp_enabledSet a = gp_enabledSet b"
  by (cases a; cases b) simp

lemma default_throttle_fix:
  "default_throttle_fields t = t \<longleftrightarrow>
     \<not> (tc_Enabled t \<and> (tc_RequestsPerSecond t \<le> 0 \<or> tc_Burst t \<le> 0 \<or> tc_BlockSeconds t \<le> 0))"
  by (cases t) (simp add: default_throttle_fields_def positive_default_eq)

lemma default_ssl_fix:
  "default_ssl cfg = ap_SSL cfg \<longleftrightarrow>
     \<not> (sl_Certificates (ap_SSL cfg) = None \<or>
        sl_DeploymentMode (ap_SSL cfg) \<notin> {''multi_sni'', ''single_active''} \<or> legacy_ssl cfg)"
proof (cases "legacy_ssl cfg")
  case True
  then have "nil_empty (sl_Certificates (ap_SSL cfg)) = Some []" by (simp add: legacy_ssl_def)
  then have "default_ssl cfg \<noteq> ap_SSL cfg"
    using True by (auto simp: default_ssl_def nil_empty_def dest!: arg_cong [of _ _ sl_Certificates] split: option.splits)
  with True show ?thesis by simp
next
  case False
  obtain m cs where s: "ap_SSL cfg = \<lparr>sl_DeploymentMode = m, sl_Certificates = cs\<rparr>" by (cases "ap_SSL cfg")
  have "(if m = ''multi_sni'' then ''multi_sni'' else ''single_active'') = m \<longleftrightarrow> m = ''multi_sni'' \<or> m = ''single_active''"
    by auto
  with False s show ?thesis by (simp add: default_ssl_def) blast
qed

lemma default_waf_fix:
  "default_waf w = w \<longleftrightarrow> wf_DisabledHosts w \<noteq> None \<and> wf_DisabledPathPrefixes w \<noteq> None"
  by (cases w) (simp add: default_waf_def)

lemma logging_fix:
  "g\<lparr>lg_MaxDays := positive_default DefaultMaxDays (lg_MaxDays g)\<rparr> = g \<longleftrightarrow> \<not> lg_MaxDays g \<le> 0"
  by (cases g) (simp add: positive_default_eq DefaultMaxDays_def)

lemma app_eq_iff:
  fixes cfg :: app_config
  shows "with_defaults U cfg = cfg \<longleftrightarrow>
     nil_empty (ap_Rules cfg) = ap_Rules cfg \<and> nil_empty (ap_HostRules cfg) = ap_HostRules cfg \<and>
     nil_empty (ap_StreamRules cfg) = ap_StreamRules cfg \<and> default_ssl cfg = ap_SSL cfg \<and>
     nonempty_or (ap_DefaultRoute cfg) ''/__select__'' = ap_DefaultRoute cfg \<and>
     default_auth (ap_AuthConfig cfg) = ap_AuthConfig cfg \<and>
     NormalizeGatewayPortalConfig (ap_Portal cfg) = ap_Portal cfg \<and>
     i18n_NormalizeConfig U (ap_Locale cfg) = ap_Locale cfg \<and>
     positive_default 7996 (ap_AdminPort cfg) = ap_AdminPort cfg \<and>
     default_throttle_fields (ap_Throttle cfg) = ap_Throttle cfg \<and>
     filled_list (ap_Visibility cfg) = ap_Visibility cfg \<and>
     filled_list (ap_ForwardedHeaders cfg) = ap_ForwardedHeaders cfg \<and>
     filled_list (ap_PreserveHost cfg) = ap_PreserveHost cfg \<and>
     (ap_Logging cfg)\<lparr>lg_MaxDays := positive_default DefaultMaxDays (lg_MaxDays (ap_Logging cfg))\<rparr> = ap_Logging cfg \<and>
     nil_empty (ap_Blacklist cfg) = ap_Blacklist cfg \<and> default_waf (ap_WAF cfg) = ap_WAF cfg"
  by (cases cfg) (simp add: with_defaults_def, blast)

text \<open>C1:
  The flag \<^verbatim>\<open>changed\<close> of \<^verbatim>\<open>applyDefaults\<close> is exact: the file is marked as migrated
  just when the normalised configuration differs from the one that was read.
\<close>

theorem changed_flag_exact: "fst (snd (applyDefaults U cfg)) = (fst (applyDefaults U cfg) \<noteq> cfg)"
proof -
  have "with_defaults U cfg = cfg \<longleftrightarrow> \<not> defaults_changed U cfg"
    unfolding app_eq_iff default_ssl_fix default_auth_fix default_throttle_fix filled_list_fix
      default_waf_fix logging_fix defaults_changed_def
    by (simp add: nonempty_or_eq positive_default_eq eq_commute [of _ "NormalizeGatewayPortalConfig _"]
        eq_commute [of _ "i18n_NormalizeConfig _ _"]) blast
  then show ?thesis by (simp add: applyDefaults_def)
qed

lemma default_auth_done:
  assumes "base_url (base_url (ac_PublicAuthBaseURL c)) = base_url (ac_PublicAuthBaseURL c)"
  shows "default_auth (default_auth c) = default_auth c"
  using assms unfolding auth_eq_iff default_auth_fields
  by (auto simp: nonempty_or_def not_negative_def)

lemma default_ssl_done: "default_ssl (with_defaults U cfg) = ap_SSL (with_defaults U cfg)"
proof -
  have f: "ap_SSL (with_defaults U cfg) = default_ssl cfg" "ap_SSLCert (with_defaults U cfg) = ap_SSLCert cfg"
    "ap_SSLKey (with_defaults U cfg) = ap_SSLKey cfg"
    by (simp_all add: with_defaults_def)
  show ?thesis
  proof (cases "legacy_ssl cfg")
    case True
    then have "ap_SSL (with_defaults U cfg) = default_ssl cfg"
        "nil_empty (sl_Certificates (default_ssl cfg)) \<noteq> Some []"
        "sl_DeploymentMode (default_ssl cfg) = ''single_active''" "sl_Certificates (default_ssl cfg) \<noteq> None"
      by (simp_all add: f default_ssl_def nil_empty_def)
    then show ?thesis unfolding default_ssl_fix legacy_ssl_def by (simp add: f)
  next
    case False
    then have d: "sl_Certificates (default_ssl cfg) = nil_empty (sl_Certificates (ap_SSL cfg))"
      by (simp add: default_ssl_def)
    with False have "\<not> legacy_ssl (with_defaults U cfg)"
      by (simp add: legacy_ssl_def f)
    moreover have "sl_DeploymentMode (default_ssl cfg) \<in> {''multi_sni'', ''single_active''}"
      by (simp add: default_ssl_def)
    moreover have "sl_Certificates (default_ssl cfg) \<noteq> None"
      unfolding d by (rule nil_empty_simps)
    ultimately show ?thesis unfolding default_ssl_fix by (simp add: f)
  qed
qed

lemma with_defaults_idem:
  assumes "base_url (base_url (ac_PublicAuthBaseURL (ap_AuthConfig cfg))) =
    base_url (ac_PublicAuthBaseURL (ap_AuthConfig cfg))"
  shows "with_defaults U (with_defaults U cfg) = with_defaults U cfg"
  unfolding app_eq_iff default_ssl_done default_throttle_fix filled_list_fix default_waf_fix logging_fix
  using default_auth_done [OF assms]
  by (simp add: with_defaults_def nonempty_or_def NormalizeGatewayPortalConfig_def i18n_NormalizeConfig_idem
      positive_default_def default_throttle_fields_def filled_list_def default_waf_def DefaultMaxDays_def)

text \<open>C1:
  One normalisation is enough: unless stripping slashes and blanks from the public address of the
  login page uncovers another slash, normalising a normalised configuration changes nothing and
  marks nothing as migrated.
\<close>

theorem applyDefaults_idem:
  assumes "base_url (base_url (ac_PublicAuthBaseURL (ap_AuthConfig cfg))) =
    base_url (ac_PublicAuthBaseURL (ap_AuthConfig cfg))"
  shows "applyDefaults U (fst (applyDefaults U cfg)) =
    (fst (applyDefaults U cfg), False, snd (snd (applyDefaults U cfg)))"
  using changed_flag_exact [of U "with_defaults U cfg"] with_defaults_idem [OF assms]
  by (simp add: applyDefaults_def)

text \<open>C1:
  The exception is real: a blank between two trailing slashes survives one normalisation, which
  leaves a trailing slash for the next one.
\<close>

theorem base_url_not_stable:
  "base_url ''https://a/ /'' = ''https://a/'' \<and> base_url (base_url ''https://a/ /'') = ''https://a''"
  by code_simp

section \<open>The file\<close>

text \<open>
  \<open>'d\<close> is the type of documents. The codec decodes a document, encodes a configuration and
  tells which fields of \<^verbatim>\<open>auth_config\<close> and whether \<^verbatim>\<open>reverse_proxy_throttle\<close> occur
  in a document.
\<close>

record 'd codec =
  co_decode :: "'d \<Rightarrow> app_config option"
  co_encode :: "app_config \<Rightarrow> 'd"
  co_authFields :: "'d \<Rightarrow> string list"
  co_hasThrottle :: "'d \<Rightarrow> bool"

datatype 'd stored_file = No_File | Unreadable_File | Document 'd

record 'd config_world =
  cw_file :: "'d stored_file"
  cw_writable :: bool
  cw_locale :: string

datatype config_error = Read_Failed | Malformed | Write_Failed | Update_Rejected

definition applyMissingAuthCacheDefaults :: "app_config \<Rightarrow> bool \<Rightarrow> bool \<Rightarrow> app_config \<times> bool" where
  "applyMissingAuthCacheDefaults cfg hasTTL hasFailTTL =
     (let a = ap_AuthConfig cfg;
          m1 = (\<not> hasTTL \<and> ac_AuthCacheTTL a = 0); m2 = (\<not> hasFailTTL \<and> ac_AuthCacheFailTTL a = 0)
      in (cfg\<lparr>ap_AuthConfig := a\<lparr>ac_AuthCacheTTL := (if m1 then 1 else ac_AuthCacheTTL a),
                                  ac_AuthCacheFailTTL := (if m2 then 1 else ac_AuthCacheFailTTL a)\<rparr>\<rparr>,
          m1 \<or> m2))"

definition applyMissingReverseProxyThrottleDefaults :: "app_config \<Rightarrow> bool \<Rightarrow> app_config \<times> bool" where
  "applyMissingReverseProxyThrottleDefaults cfg hasThrottle =
     (if hasThrottle then (cfg, False) else (cfg\<lparr>ap_Throttle := default_throttle\<rparr>, True))"

definition detectAuthConfigFieldPresence :: "'d codec \<Rightarrow> 'd \<Rightarrow> bool \<times> bool \<times> bool" where
  "detectAuthConfigFieldPresence K d =
     (let fields = set (co_authFields K d)
      in (''auth_cache_ttl_seconds'' \<in> fields, ''auth_cache_unauthorized_ttl_seconds'' \<in> fields,
          ''edge_client_ip_enabled'' \<in> fields))"

definition migrate_edge :: "app_config \<Rightarrow> bool \<Rightarrow> app_config \<times> bool" where
  "migrate_edge cfg hasEdge =
     (if \<not> hasEdge \<and> (ac_AliyunESAEnabled (ap_AuthConfig cfg) \<or> ac_TencentEdgeOneEnabled (ap_AuthConfig cfg))
      then (cfg\<lparr>ap_AuthConfig := (ap_AuthConfig cfg)\<lparr>ac_EdgeClientIPEnabled := True\<rparr>\<rparr>, True)
      else (cfg, False))"

text \<open>Configuration, whether the file existed, whether it was migrated; the locale of the process.\<close>

definition loadUnlocked :: "unicode \<Rightarrow> 'd codec \<Rightarrow> 'd config_world \<Rightarrow>
    config_error + (app_config \<times> bool \<times> bool \<times> string)" where
  "loadUnlocked U K w =
     (case cw_file w of
        No_File \<Rightarrow> Inr (defaultConfig, False, True, cw_locale w)
      | Unreadable_File \<Rightarrow> Inl Read_Failed
      | Document d \<Rightarrow>
          (case co_decode K d of
             None \<Rightarrow> Inl Malformed
           | Some cfg0 \<Rightarrow>
               (case detectAuthConfigFieldPresence K d of (hasTTL, hasFailTTL, hasEdge) \<Rightarrow>
                  let (cfg1, m1) = migrate_edge cfg0 hasEdge;
                      (cfg2, m2, locale) = applyDefaults U cfg1;
                      (cfg3, m3) = applyMissingAuthCacheDefaults cfg2 hasTTL hasFailTTL;
                      (cfg4, m4) = applyMissingReverseProxyThrottleDefaults cfg3 (co_hasThrottle K d)
                  in Inr (cfg4, True, m1 \<or> m2 \<or> m3 \<or> m4, locale))))"

definition saveUnlocked :: "'d codec \<Rightarrow> app_config \<Rightarrow> 'd config_world \<Rightarrow> config_error option \<times> 'd config_world" where
  "saveUnlocked K cfg w =
     (if cw_writable w then (None, w\<lparr>cw_file := Document (co_encode K cfg)\<rparr>) else (Some Write_Failed, w))"

definition config_Load :: "unicode \<Rightarrow> 'd codec \<Rightarrow> 'd config_world \<Rightarrow>
    (config_error + app_config) \<times> 'd config_world" where
  "config_Load U K w =
     (case loadUnlocked U K w of
        Inl e \<Rightarrow> (Inl e, w)
      | Inr (cfg, existed, migrated, locale) \<Rightarrow>
          let w1 = w\<lparr>cw_locale := locale\<rparr>
          in if \<not> existed \<or> migrated
             then (case saveUnlocked K cfg w1 of
                     (Some e, w2) \<Rightarrow> (Inl e, w2)
                   | (None, w2) \<Rightarrow> (Inr cfg, w2))
             else (Inr cfg, w1))"

definition config_Save :: "unicode \<Rightarrow> 'd codec \<Rightarrow> app_config \<Rightarrow> 'd config_world \<Rightarrow>
    config_error option \<times> app_config \<times> 'd config_world" where
  "config_Save U K cfg w =
     (case applyDefaults U cfg of (cfg1, _, locale) \<Rightarrow>
        case saveUnlocked K cfg1 (w\<lparr>cw_locale := locale\<rparr>) of (err, w1) \<Rightarrow> (err, cfg1, w1))"

definition config_Update :: "unicode \<Rightarrow> 'd codec \<Rightarrow> (app_config \<Rightarrow> app_config option) \<Rightarrow> 'd config_world \<Rightarrow>
    config_error option \<times> 'd config_world" where
  "config_Update U K updateFn w =
     (case loadUnlocked U K w of
        Inl e \<Rightarrow> (Some e, w)
      | Inr (cfg, _, _, locale) \<Rightarrow>
          let w1 = w\<lparr>cw_locale := locale\<rparr>
          in (case updateFn cfg of
                None \<Rightarrow> (Some Update_Rejected, w1)
              | Some cfg1 \<Rightarrow>
                  (case applyDefaults U cfg1 of (cfg2, _, locale2) \<Rightarrow>
                     saveUnlocked K cfg2 (w1\<lparr>cw_locale := locale2\<rparr>))))"


section \<open>What survives saving and loading\<close>

text \<open>
  A configuration that is written and read again: the field tags drop empty lists (except the
  path rules, which have no \<^verbatim>\<open>omitempty\<close>), and reading the portal sets its flag. The
  presence of a field is that it is not zero; a structure is always written.
\<close>

definition drop_empty :: "'a list option \<Rightarrow> 'a list option" where
  "drop_empty xs = (case xs of Some (y # ys) \<Rightarrow> Some (y # ys) | _ \<Rightarrow> None)"

definition json_image :: "app_config \<Rightarrow> app_config" where
  "json_image c =
     c\<lparr>ap_HostRules := drop_empty (ap_HostRules c), ap_StreamRules := drop_empty (ap_StreamRules c),
       ap_SSL := (ap_SSL c)\<lparr>sl_Certificates := drop_empty (sl_Certificates (ap_SSL c))\<rparr>,
       ap_Portal := (ap_Portal c)\<lparr>gp_enabledSet := True\<rparr>,
       ap_Visibility := (ap_Visibility c)\<lparr>lc_Items := drop_empty (lc_Items (ap_Visibility c))\<rparr>,
       ap_ForwardedHeaders := (ap_ForwardedHeaders c)\<lparr>lc_Items := drop_empty (lc_Items (ap_ForwardedHeaders c))\<rparr>,
       ap_PreserveHost := (ap_PreserveHost c)\<lparr>lc_Items := drop_empty (lc_Items (ap_PreserveHost c))\<rparr>,
       ap_Blacklist := drop_empty (ap_Blacklist c),
       ap_WAF := (ap_WAF c)\<lparr>wf_DisabledHosts := drop_empty (wf_DisabledHosts (ap_WAF c)),
                            wf_DisabledPathPrefixes := drop_empty (wf_DisabledPathPrefixes (ap_WAF c))\<rparr>\<rparr>"

definition codec_faithful :: "'d codec \<Rightarrow> app_config \<Rightarrow> bool" where
  "codec_faithful K c =
     (co_decode K (co_encode K c) = Some (json_image c) \<and>
      (''auth_cache_ttl_seconds'' \<in> set (co_authFields K (co_encode K c)) \<longleftrightarrow>
         ac_AuthCacheTTL (ap_AuthConfig c) \<noteq> 0) \<and>
      (''auth_cache_unauthorized_ttl_seconds'' \<in> set (co_authFields K (co_encode K c)) \<longleftrightarrow>
         ac_AuthCacheFailTTL (ap_AuthConfig c) \<noteq> 0) \<and>
      (''edge_client_ip_enabled'' \<in> set (co_authFields K (co_encode K c)) \<longleftrightarrow>
         ac_EdgeClientIPEnabled (ap_AuthConfig c)) \<and>
      co_hasThrottle K (co_encode K c))"

lemma nil_drop: "xs \<noteq> None \<Longrightarrow> nil_empty (drop_empty xs) = xs"
  by (auto simp: nil_empty_def drop_empty_def split: list.splits option.splits)

lemma nil_empty_fix: "xs \<noteq> None \<Longrightarrow> nil_empty xs = xs"
  by simp

text \<open>Normalising the image of a normalised configuration gives the configuration back.\<close>

lemma with_defaults_image:
  assumes "with_defaults U c = c"
  shows "with_defaults U (json_image c) = c"
proof -
  note c = assms [unfolded app_eq_iff]
  have lists: "ap_Rules c \<noteq> None" "ap_HostRules c \<noteq> None" "ap_StreamRules c \<noteq> None" "ap_Blacklist c \<noteq> None"
    using c by auto
  have items: "lc_Items (ap_Visibility c) \<noteq> None" "lc_Items (ap_ForwardedHeaders c) \<noteq> None"
    "lc_Items (ap_PreserveHost c) \<noteq> None"
    using c unfolding filled_list_fix by blast+
  have waf: "wf_DisabledHosts (ap_WAF c) \<noteq> None" "wf_DisabledPathPrefixes (ap_WAF c) \<noteq> None"
    using c unfolding default_waf_fix by blast+
  have ssl: "default_ssl c = ap_SSL c" using c by blast
  then have certs: "sl_Certificates (ap_SSL c) \<noteq> None" unfolding default_ssl_fix by simp
  have ssl': "default_ssl (json_image c) = ap_SSL c"
  proof -
    have l: "legacy_ssl (json_image c) = legacy_ssl c"
      using certs by (simp add: legacy_ssl_def json_image_def nil_drop nil_empty_fix)
    show ?thesis
      unfolding ssl [symmetric]
      using certs by (simp add: default_ssl_def l) (simp add: json_image_def nil_drop nil_empty_fix)
  qed
  have filled: "filled_list (x\<lparr>lc_Items := drop_empty (lc_Items x)\<rparr>) = x" if "lc_Items x \<noteq> None" for x :: listed_config
    using that by (cases x) (simp add: filled_list_def nil_drop)
  have "NormalizeGatewayPortalConfig (ap_Portal c) = ap_Portal c" using c by blast
  then have "gp_enabledSet (ap_Portal c)"
    unfolding portal_eq_iff by (simp add: NormalizeGatewayPortalConfig_def)
  then have portal: "(ap_Portal c)\<lparr>gp_enabledSet := True\<rparr> = ap_Portal c"
    by (simp add: portal_eq_iff)
  have waf': "default_waf ((ap_WAF c)\<lparr>wf_DisabledHosts := drop_empty (wf_DisabledHosts (ap_WAF c)),
      wf_DisabledPathPrefixes := drop_empty (wf_DisabledPathPrefixes (ap_WAF c))\<rparr>) = ap_WAF c"
    using waf by (cases "ap_WAF c") (simp add: default_waf_def nil_drop)
  have "with_defaults U (json_image c) = with_defaults U c"
    using lists items waf' ssl' ssl portal c
    by (simp add: with_defaults_def) (simp add: json_image_def nil_drop filled nil_empty_fix)
  with assms show ?thesis by simp
qed


lemma with_defaults_edge:
  assumes "with_defaults U c = c" "\<not> ac_EdgeClientIPEnabled (ap_AuthConfig c)"
  shows "\<not> ac_AliyunESAEnabled (ap_AuthConfig c) \<and> \<not> ac_TencentEdgeOneEnabled (ap_AuthConfig c)"
proof -
  have "default_auth (ap_AuthConfig c) = ap_AuthConfig c"
    using assms(1) unfolding app_eq_iff by blast
  with assms(2) show ?thesis unfolding auth_eq_iff default_auth_fields by simp
qed

lemma json_image_auth: "ap_AuthConfig (json_image c) = ap_AuthConfig c"
  by (simp add: json_image_def)

text \<open>Reading what was written for a normalised configuration.\<close>

lemma load_written:
  assumes "codec_faithful K c" "with_defaults U c = c" "cw_file w = Document (co_encode K c)"
  shows "loadUnlocked U K w =
    Inr (fst (applyMissingAuthCacheDefaults c (ac_AuthCacheTTL (ap_AuthConfig c) \<noteq> 0)
                (ac_AuthCacheFailTTL (ap_AuthConfig c) \<noteq> 0)), True,
         defaults_changed U (json_image c) \<or>
           ac_AuthCacheTTL (ap_AuthConfig c) = 0 \<or> ac_AuthCacheFailTTL (ap_AuthConfig c) = 0,
         SetDefaultLocale U (ap_Locale c))"
proof -
  let ?d = "co_encode K c"
  have dec: "co_decode K ?d = Some (json_image c)" and thr: "co_hasThrottle K ?d"
    and pres: "detectAuthConfigFieldPresence K ?d =
      (ac_AuthCacheTTL (ap_AuthConfig c) \<noteq> 0, ac_AuthCacheFailTTL (ap_AuthConfig c) \<noteq> 0,
       ac_EdgeClientIPEnabled (ap_AuthConfig c))"
    using assms(1) unfolding codec_faithful_def detectAuthConfigFieldPresence_def Let_def by simp_all
  have edge: "migrate_edge (json_image c) (ac_EdgeClientIPEnabled (ap_AuthConfig c)) = (json_image c, False)"
    using with_defaults_edge [OF assms(2)] by (auto simp: migrate_edge_def json_image_auth)
  have app: "applyDefaults U (json_image c) = (c, defaults_changed U (json_image c), SetDefaultLocale U (ap_Locale c))"
    using with_defaults_image [OF assms(2)] by (simp add: applyDefaults_def)
  have miss: "snd (applyMissingAuthCacheDefaults c (ac_AuthCacheTTL (ap_AuthConfig c) \<noteq> 0)
      (ac_AuthCacheFailTTL (ap_AuthConfig c) \<noteq> 0)) =
      (ac_AuthCacheTTL (ap_AuthConfig c) = 0 \<or> ac_AuthCacheFailTTL (ap_AuthConfig c) = 0)"
    by (simp add: applyMissingAuthCacheDefaults_def Let_def)
  show ?thesis
    unfolding loadUnlocked_def assms(3)
    by (simp add: dec pres edge app applyMissingReverseProxyThrottleDefaults_def thr miss case_prod_beta)
qed

lemma save_writes:
  assumes "cw_writable w"
  shows "cw_file (snd (snd (config_Save U K cfg w))) = Document (co_encode K (with_defaults U cfg))"
    and "cw_writable (snd (snd (config_Save U K cfg w)))"
    and "fst (config_Save U K cfg w) = None"
  using assms by (simp_all add: config_Save_def applyDefaults_def saveUnlocked_def)

abbreviation url_stable :: "app_config \<Rightarrow> bool" where
  "url_stable cfg \<equiv> base_url (base_url (ac_PublicAuthBaseURL (ap_AuthConfig cfg))) =
    base_url (ac_PublicAuthBaseURL (ap_AuthConfig cfg))"


text \<open>C26:
  A cache lifetime of zero, which is documented to disable the cache, does not survive a restart:
  the encoder omits it, and the next load takes its absence for an old file and sets one second.
\<close>

theorem disabled_cache_comes_back:
  assumes "cw_writable w" "url_stable cfg" "codec_faithful K (with_defaults U cfg)"
    and "ac_AuthCacheTTL (ap_AuthConfig cfg) = 0"
  shows "(case config_Save U K cfg w of (err, saved, w1) \<Rightarrow>
    ac_AuthCacheTTL (ap_AuthConfig saved) = 0 \<and>
    (case fst (config_Load U K w1) of Inl e \<Rightarrow> False | Inr cfg' \<Rightarrow> ac_AuthCacheTTL (ap_AuthConfig cfg') = 1))"
proof -
  let ?c = "with_defaults U cfg"
  let ?w = "snd (snd (config_Save U K cfg w))"
  note sw = save_writes [OF assms(1), of U K cfg]
  have norm: "with_defaults U ?c = ?c" by (rule with_defaults_idem [OF assms(2)])
  have "ap_AuthConfig ?c = default_auth (ap_AuthConfig cfg)" by (simp add: with_defaults_def)
  then have z: "ac_AuthCacheTTL (ap_AuthConfig ?c) = 0" using assms(4) by (simp add: not_negative_def)
  let ?c' = "fst (applyMissingAuthCacheDefaults ?c False (ac_AuthCacheFailTTL (ap_AuthConfig ?c) \<noteq> 0))"
  have l: "loadUnlocked U K ?w = Inr (?c', True, True, SetDefaultLocale U (ap_Locale ?c))"
    using load_written [OF assms(3) norm sw(1)] z by simp
  have "ac_AuthCacheTTL (ap_AuthConfig ?c') = 1"
    using z by (simp add: applyMissingAuthCacheDefaults_def Let_def)
  moreover have "fst (config_Load U K ?w) = Inr ?c'"
    unfolding config_Load_def l Let_def using sw(2) by (simp add: saveUnlocked_def)
  moreover have "fst (snd (config_Save U K cfg w)) = ?c"
    by (simp add: config_Save_def applyDefaults_def case_prod_beta)
  ultimately show ?thesis using z by (simp add: case_prod_beta)
qed

section \<open>A codec\<close>

text \<open>Documents that are the images themselves: a codec that keeps what the field tags keep.\<close>

definition image_codec :: "app_config codec" where
  "image_codec =
     \<lparr>co_decode = Some, co_encode = json_image,
      co_authFields = (\<lambda>d.
        (if ac_AuthCacheTTL (ap_AuthConfig d) \<noteq> 0 then [''auth_cache_ttl_seconds''] else []) @
        (if ac_AuthCacheFailTTL (ap_AuthConfig d) \<noteq> 0 then [''auth_cache_unauthorized_ttl_seconds''] else []) @
        (if ac_EdgeClientIPEnabled (ap_AuthConfig d) then [''edge_client_ip_enabled''] else [])),
      co_hasThrottle = (\<lambda>_. True)\<rparr>"

lemma image_codec_faithful: "codec_faithful image_codec c"
  by (simp add: codec_faithful_def image_codec_def json_image_auth)

abbreviation empty_world :: "app_config config_world" where
  "empty_world \<equiv> \<lparr>cw_file = No_File, cw_writable = True, cw_locale = ''en''\<rparr>"


theorem disabled_cache_comes_back_witness:
  "let cfg = defaultConfig\<lparr>ap_AuthConfig := default_auth_config\<lparr>ac_AuthCacheTTL := 0\<rparr>\<rparr>;
       res = fst (config_Load plain_unicode image_codec (snd (snd (config_Save plain_unicode image_codec cfg empty_world))))
   in isl res = False \<and> ac_AuthCacheTTL (ap_AuthConfig (projr res)) = 1"
proof -
  let ?cfg = "defaultConfig\<lparr>ap_AuthConfig := default_auth_config\<lparr>ac_AuthCacheTTL := 0\<rparr>\<rparr>"
  have "url_stable ?cfg" by code_simp
  then show ?thesis
    using disabled_cache_comes_back [of empty_world ?cfg image_codec plain_unicode, OF _ _ image_codec_faithful]
    by (auto simp: case_prod_beta Let_def split: sum.splits)
qed

theorem applyDefaults_idem_witness:
  "fst (snd (applyDefaults plain_unicode (fst (applyDefaults plain_unicode defaultConfig)))) = False"
proof -
  have "url_stable defaultConfig" by code_simp
  from applyDefaults_idem [OF this, of plain_unicode] show ?thesis by simp
qed

end
