(* ===== verification/Traffic.thy ===== *)
theory Traffic
  imports RuleStore HostNames "HOL-Library.Product_Lexorder"
begin

text \<open>
  Traffic statistics of \<^verbatim>\<open>proxy/handler.go\<close>: the byte counters of the gateway and of each
  host, the addresses active on a host, and the visitors logged in.  The counters of a host are
  shared by pointer, so they live in a store \<open>tr_counters\<close> and the host map holds positions in
  it.  Clock readings are Unix nanoseconds.  The lemmas show that the periodic removal of stale
  addresses is not observable: the number of active addresses is that of the history of
  connections.  Operations on one host's addresses are atomic here.
\<close>

section \<open>Addresses active on a host\<close>

record active_ip =
  ai_ip :: string
  ai_lastSeen :: int
  ai_activeConns :: int

record host_counters =
  hc_totalIn :: "64 word"
  hc_totalOut :: "64 word"
  hc_error5xx :: "64 word"
  hc_activeIPs :: "(string \<times> active_ip) list"
  hc_lastCleanup :: int

definition new_counters :: host_counters where
  "new_counters = \<lparr>hc_totalIn = 0, hc_totalOut = 0, hc_error5xx = 0, hc_activeIPs = [], hc_lastCleanup = 0\<rparr>"

definition hostActiveIPWindow :: int where
  "hostActiveIPWindow = 120 * second"

definition hostActiveIPCleanupInterval :: int where
  "hostActiveIPCleanupInterval = 30 * second"

definition hostActiveIPMaxItems :: nat where
  "hostActiveIPMaxItems = 256"

definition stale_ip :: "int \<Rightarrow> active_ip \<Rightarrow> bool" where
  "stale_ip now a = (ai_activeConns a \<le> 0 \<and> ai_lastSeen a < now - hostActiveIPWindow)"

definition cleanupActiveIPs :: "int \<Rightarrow> host_counters \<Rightarrow> host_counters" where
  "cleanupActiveIPs now c = c\<lparr>hc_activeIPs := filter (\<lambda>(k, a). \<not> stale_ip now a) (hc_activeIPs c)\<rparr>"

definition cleanupActiveIPsIfNeeded :: "int \<Rightarrow> host_counters \<Rightarrow> host_counters" where
  "cleanupActiveIPsIfNeeded now c =
     (if hc_lastCleanup c > 0 \<and> now - hc_lastCleanup c < hostActiveIPCleanupInterval then c
      else cleanupActiveIPs now (c\<lparr>hc_lastCleanup := now\<rparr>))"

text \<open>
  \<^verbatim>\<open>markActiveIP\<close> gives a function that ends the connection; it is represented by the
  address it was made for (none for a text that is no address).
\<close>

definition markActiveIP :: "string \<Rightarrow> int \<Rightarrow> host_counters \<Rightarrow> string option \<times> host_counters" where
  "markActiveIP clientIP now c =
     (let ip = normalizeIPAddress clientIP
      in if ip = [] then (None, c)
         else let c1 = cleanupActiveIPsIfNeeded now c;
                  a = (case al_get (hc_activeIPs c1) ip of
                         Some a \<Rightarrow> a
                       | None \<Rightarrow> \<lparr>ai_ip = ip, ai_lastSeen = 0, ai_activeConns = 0\<rparr>)
              in (Some ip, c1\<lparr>hc_activeIPs :=
                    al_put ip (a\<lparr>ai_lastSeen := now, ai_activeConns := ai_activeConns a + 1\<rparr>) (hc_activeIPs c1)\<rparr>))"

definition releaseActiveIP :: "string \<Rightarrow> int \<Rightarrow> host_counters \<Rightarrow> host_counters" where
  "releaseActiveIP ip now c =
     (case al_get (hc_activeIPs c) ip of
        None \<Rightarrow> c
      | Some a \<Rightarrow> c\<lparr>hc_activeIPs :=
          al_put ip (a\<lparr>ai_lastSeen := now,
                       ai_activeConns := (if ai_activeConns a - 1 < 0 then 0 else ai_activeConns a - 1)\<rparr>)
            (hc_activeIPs c)\<rparr>)"

definition activeIPCount :: "int \<Rightarrow> host_counters \<Rightarrow> int \<times> host_counters" where
  "activeIPCount now c =
     (let c1 = cleanupActiveIPs now (cleanupActiveIPs now c)
      in (int (length (filter (\<lambda>(k, a). ai_lastSeen a > 0) (hc_activeIPs c1))), c1))"

record ip_stats =
  is_IP :: string
  is_LastSeenAt :: int
  is_ActiveConns :: int

definition activeIPStats :: "int \<Rightarrow> host_counters \<Rightarrow> ip_stats list \<times> host_counters" where
  "activeIPStats now c =
     (let c1 = cleanupActiveIPs now (cleanupActiveIPs now c);
          items = map (\<lambda>(k, a). \<lparr>is_IP = ai_ip a, is_LastSeenAt = ai_lastSeen a, is_ActiveConns = ai_activeConns a\<rparr>)
                    (filter (\<lambda>(k, a). ai_lastSeen a > 0) (hc_activeIPs c1))
      in (take hostActiveIPMaxItems (sort_key (\<lambda>i. (- is_LastSeenAt i, is_IP i)) items), c1))"

section \<open>The history of connections\<close>

text \<open>What has happened on a host: connections opened and closed, and readings of the statistics.\<close>

datatype conn_event = Opened string int | Closed string int | Looked int

fun event_time :: "conn_event \<Rightarrow> int" where
  "event_time (Opened ip t) = t"
| "event_time (Closed ip t) = t"
| "event_time (Looked t) = t"

fun counters_step :: "conn_event \<Rightarrow> host_counters \<Rightarrow> host_counters" where
  "counters_step (Opened ip t) c = snd (markActiveIP ip t c)"
| "counters_step (Closed ip t) c = releaseActiveIP (normalizeIPAddress ip) t c"
| "counters_step (Looked t) c = snd (activeIPCount t c)"

definition counters_after :: "conn_event list \<Rightarrow> host_counters" where
  "counters_after h = foldl (\<lambda>c e. counters_step e c) new_counters h"

fun event_ip :: "conn_event \<Rightarrow> string" where
  "event_ip (Opened ip t) = normalizeIPAddress ip"
| "event_ip (Closed ip t) = normalizeIPAddress ip"
| "event_ip (Looked t) = []"

definition about_ip :: "string \<Rightarrow> conn_event list \<Rightarrow> conn_event list" where
  "about_ip ip h = filter (\<lambda>e. event_ip e = ip) h"

fun conn_delta :: "conn_event \<Rightarrow> int" where
  "conn_delta (Opened ip t) = 1"
| "conn_delta (Closed ip t) = - 1"
| "conn_delta (Looked t) = 0"

definition open_conns :: "string \<Rightarrow> conn_event list \<Rightarrow> int" where
  "open_conns ip h = sum_list (map conn_delta (about_ip ip h))"

definition last_seen :: "string \<Rightarrow> conn_event list \<Rightarrow> int" where
  "last_seen ip h = event_time (last (about_ip ip h))"

text \<open>Active at a time: open connections, or seen within the window.\<close>

definition active_at :: "int \<Rightarrow> conn_event list \<Rightarrow> string \<Rightarrow> bool" where
  "active_at now h ip =
     (ip \<noteq> [] \<and> about_ip ip h \<noteq> [] \<and>
      (open_conns ip h > 0 \<or> last_seen ip h \<ge> now - hostActiveIPWindow))"

text \<open>A history in order of time in which only open connections are closed.\<close>

fun ordered_from :: "int \<Rightarrow> conn_event list \<Rightarrow> bool" where
  "ordered_from t [] = True"
| "ordered_from t (e # es) = (t \<le> event_time e \<and> ordered_from (event_time e) es)"

fun closes_open :: "conn_event list \<Rightarrow> conn_event list \<Rightarrow> bool" where
  "closes_open done [] = True"
| "closes_open done (e # es) =
     ((case e of Closed ip t \<Rightarrow> open_conns (normalizeIPAddress ip) done > 0 \<and> normalizeIPAddress ip \<noteq> []
               | _ \<Rightarrow> True) \<and> closes_open (done @ [e]) es)"

section \<open>Removal of stale addresses is not observable\<close>

definition tracks :: "conn_event list \<Rightarrow> int \<Rightarrow> host_counters \<Rightarrow> bool" where
  "tracks h t c =
     (al_ok (hc_activeIPs c) \<and>
      (\<forall>ip. case al_get (hc_activeIPs c) ip of
          Some a \<Rightarrow> ip \<noteq> [] \<and> about_ip ip h \<noteq> [] \<and> ai_activeConns a = open_conns ip h \<and>
                    0 \<le> open_conns ip h \<and> ai_lastSeen a = last_seen ip h \<and> ai_ip a = ip
        | None \<Rightarrow> ip = [] \<or> about_ip ip h = [] \<or>
                    (open_conns ip h = 0 \<and> last_seen ip h < t - hostActiveIPWindow)))"

lemma about_snoc: "about_ip ip (h @ [e]) = about_ip ip h @ (if event_ip e = ip then [e] else [])"
  by (simp add: about_ip_def)

lemma open_snoc: "open_conns ip (h @ [e]) = open_conns ip h + (if event_ip e = ip then conn_delta e else 0)"
  by (simp add: open_conns_def about_snoc)

lemma last_snoc: "last_seen ip (h @ [e]) = (if event_ip e = ip then event_time e else last_seen ip h)"
  by (simp add: last_seen_def about_snoc)

lemma tracks_some:
  "tracks h t c \<Longrightarrow> al_get (hc_activeIPs c) ip = Some a \<Longrightarrow>
     ip \<noteq> [] \<and> about_ip ip h \<noteq> [] \<and> ai_activeConns a = open_conns ip h \<and> 0 \<le> open_conns ip h \<and>
     ai_lastSeen a = last_seen ip h \<and> ai_ip a = ip"
  unfolding tracks_def by (drule conjunct2, drule spec [of _ ip]) simp

lemma tracks_none:
  "tracks h t c \<Longrightarrow> al_get (hc_activeIPs c) ip = None \<Longrightarrow>
     ip = [] \<or> about_ip ip h = [] \<or> (open_conns ip h = 0 \<and> last_seen ip h < t - hostActiveIPWindow)"
  unfolding tracks_def by (drule conjunct2, drule spec [of _ ip]) simp

lemma tracksI:
  assumes "al_ok (hc_activeIPs c)"
    and "\<And>ip a. al_get (hc_activeIPs c) ip = Some a \<Longrightarrow>
      ip \<noteq> [] \<and> about_ip ip h \<noteq> [] \<and> ai_activeConns a = open_conns ip h \<and> 0 \<le> open_conns ip h \<and>
      ai_lastSeen a = last_seen ip h \<and> ai_ip a = ip"
    and "\<And>ip. al_get (hc_activeIPs c) ip = None \<Longrightarrow>
      ip = [] \<or> about_ip ip h = [] \<or> (open_conns ip h = 0 \<and> last_seen ip h < t - hostActiveIPWindow)"
  shows "tracks h t c"
  unfolding tracks_def using assms by (auto split: option.split)

lemma tracks_ok: "tracks h t c \<Longrightarrow> al_ok (hc_activeIPs c)"
  by (simp add: tracks_def)

lemma tracks_later:
  assumes "tracks h t c" "t \<le> t'"
  shows "tracks h t' c"
proof (rule tracksI)
  show "al_ok (hc_activeIPs c)" by (rule tracks_ok [OF assms(1)])
next
  fix ip
  assume "al_get (hc_activeIPs c) ip = None"
  from tracks_none [OF assms(1) this] assms(2)
  show "ip = [] \<or> about_ip ip h = [] \<or> (open_conns ip h = 0 \<and> last_seen ip h < t' - hostActiveIPWindow)"
    by linarith
qed (rule tracks_some [OF assms(1)])

lemma tracks_cleanup:
  assumes "tracks h t c" "t \<le> now"
  shows "tracks h now (cleanupActiveIPs now c)"
proof -
  have g: "al_get (hc_activeIPs (cleanupActiveIPs now c)) ip =
      (case al_get (hc_activeIPs c) ip of Some a \<Rightarrow> if stale_ip now a then None else Some a | None \<Rightarrow> None)" for ip
    by (simp add: cleanupActiveIPs_def al_get_filter [OF tracks_ok [OF assms(1)]] split: option.splits)
  show ?thesis
  proof (rule tracksI)
    show "al_ok (hc_activeIPs (cleanupActiveIPs now c))"
      using tracks_ok [OF assms(1)] by (auto simp: cleanupActiveIPs_def)
  next
    fix ip a
    assume "al_get (hc_activeIPs (cleanupActiveIPs now c)) ip = Some a"
    then have "al_get (hc_activeIPs c) ip = Some a" by (auto simp: g split: option.splits if_splits)
    with tracks_some [OF assms(1)] show "ip \<noteq> [] \<and> about_ip ip h \<noteq> [] \<and>
        ai_activeConns a = open_conns ip h \<and> 0 \<le> open_conns ip h \<and>
        ai_lastSeen a = last_seen ip h \<and> ai_ip a = ip" by blast
  next
    fix ip
    assume "al_get (hc_activeIPs (cleanupActiveIPs now c)) ip = None"
    then consider "al_get (hc_activeIPs c) ip = None"
      | a where "al_get (hc_activeIPs c) ip = Some a" "stale_ip now a"
      by (auto simp: g split: option.splits if_splits)
    then show "ip = [] \<or> about_ip ip h = [] \<or> (open_conns ip h = 0 \<and> last_seen ip h < now - hostActiveIPWindow)"
    proof cases
      case 1
      with tracks_none [OF assms(1) 1] assms(2) show ?thesis by auto
    next
      case 2
      with tracks_some [OF assms(1) 2(1)] show ?thesis by (auto simp: stale_ip_def)
    qed
  qed
qed

lemma tracks_if_needed:
  assumes "tracks h t c" "t \<le> now"
  shows "tracks h now (cleanupActiveIPsIfNeeded now c)"
proof -
  have "tracks h t (c\<lparr>hc_lastCleanup := now\<rparr>)"
    using assms(1) by (simp add: tracks_def)
  then show ?thesis
    using tracks_cleanup [of h t "c\<lparr>hc_lastCleanup := now\<rparr>"] tracks_later [OF assms] assms(2)
    by (simp add: cleanupActiveIPsIfNeeded_def)
qed

lemma tracks_silent:
  assumes "tracks h t c" "event_ip e = []"
  shows "tracks (h @ [e]) t c"
proof (rule tracksI)
  fix ip a
  assume "al_get (hc_activeIPs c) ip = Some a"
  with tracks_some [OF assms(1) this] assms(2)
  show "ip \<noteq> [] \<and> about_ip ip (h @ [e]) \<noteq> [] \<and> ai_activeConns a = open_conns ip (h @ [e]) \<and>
      0 \<le> open_conns ip (h @ [e]) \<and> ai_lastSeen a = last_seen ip (h @ [e]) \<and> ai_ip a = ip"
    by (auto simp: about_snoc open_snoc last_snoc)
next
  fix ip
  assume "al_get (hc_activeIPs c) ip = None"
  with tracks_none [OF assms(1) this] assms(2)
  show "ip = [] \<or> about_ip ip (h @ [e]) = [] \<or>
      (open_conns ip (h @ [e]) = 0 \<and> last_seen ip (h @ [e]) < t - hostActiveIPWindow)"
    by (auto simp: about_snoc open_snoc last_snoc)
qed (rule tracks_ok [OF assms(1)])

lemma tracks_opened:
  assumes "tracks h t c" "t \<le> now"
  shows "tracks (h @ [Opened ip now]) now (snd (markActiveIP ip now c))"
proof -
  let ?ip = "normalizeIPAddress ip"
  let ?e = "Opened ip now"
  show ?thesis
  proof (cases "?ip = []")
    case True
    have "snd (markActiveIP ip now c) = c" using True by (simp add: markActiveIP_def)
    moreover have "tracks (h @ [?e]) now c"
      using tracks_silent [OF tracks_later [OF assms]] True by simp
    ultimately show ?thesis by simp
  next
    case False
    let ?c1 = "cleanupActiveIPsIfNeeded now c"
    note t1 = tracks_if_needed [OF assms]
    define a where "a = (case al_get (hc_activeIPs ?c1) ?ip of Some a \<Rightarrow> a
        | None \<Rightarrow> \<lparr>ai_ip = ?ip, ai_lastSeen = 0, ai_activeConns = 0\<rparr>)"
    have m: "snd (markActiveIP ip now c) = ?c1\<lparr>hc_activeIPs :=
        al_put ?ip (a\<lparr>ai_lastSeen := now, ai_activeConns := ai_activeConns a + 1\<rparr>) (hc_activeIPs ?c1)\<rparr>"
      using False unfolding markActiveIP_def Let_def a_def by simp
    have zero: "open_conns ip' h = 0" if "about_ip ip' h = []" for ip'
      using that by (simp add: open_conns_def)
    have n: "ai_activeConns a = open_conns ?ip h \<and> 0 \<le> open_conns ?ip h \<and> ai_ip a = ?ip"
    proof (cases "al_get (hc_activeIPs ?c1) ?ip")
      case None
      from tracks_none [OF t1 None] False zero show ?thesis by (auto simp: a_def None)
    next
      case (Some b)
      with tracks_some [OF t1 Some] show ?thesis by (simp add: a_def)
    qed
    show ?thesis
      unfolding m
    proof (rule tracksI, goal_cases)
      case 1
      then show ?case using tracks_ok [OF t1] by auto
    next
      case (2 ip' b)
      then show ?case
        using tracks_some [OF t1, of ip'] n False
        by (auto simp: al_get_put about_snoc open_snoc last_snoc split: if_splits)
    next
      case (3 ip')
      then have "al_get (hc_activeIPs ?c1) ip' = None" "ip' \<noteq> ?ip" by (auto simp: al_get_put split: if_splits)
      with tracks_none [OF t1, of ip'] show ?case by (auto simp: about_snoc open_snoc last_snoc)
    qed
  qed
qed

lemma tracks_closed:
  assumes "tracks h t c" "t \<le> now" "open_conns (normalizeIPAddress ip) h > 0" "normalizeIPAddress ip \<noteq> []"
  shows "tracks (h @ [Closed ip now]) now (releaseActiveIP (normalizeIPAddress ip) now c)"
proof -
  let ?ip = "normalizeIPAddress ip"
  note t1 = tracks_later [OF assms(1,2)]
  have "about_ip ?ip h \<noteq> []" using assms(3) by (auto simp: open_conns_def)
  then obtain a where a: "al_get (hc_activeIPs c) ?ip = Some a"
    using tracks_none [OF t1, of ?ip] assms(3,4) by (cases "al_get (hc_activeIPs c) ?ip") auto
  note n = tracks_some [OF t1 a]
  show ?thesis
    unfolding releaseActiveIP_def a option.case
  proof (rule tracksI, goal_cases)
    case 1
    then show ?case using tracks_ok [OF t1] by auto
  next
    case (2 ip' b)
    then show ?case
      using tracks_some [OF t1, of ip'] n assms(3,4)
      by (auto simp: al_get_put about_snoc open_snoc last_snoc split: if_splits)
  next
    case (3 ip')
    then have "al_get (hc_activeIPs c) ip' = None" "ip' \<noteq> ?ip" by (auto simp: al_get_put split: if_splits)
    with tracks_none [OF t1, of ip'] show ?case by (auto simp: about_snoc open_snoc last_snoc)
  qed
qed


lemma tracks_step:
  assumes "tracks h t c" "t \<le> event_time e" "closes_open h [e]"
  shows "tracks (h @ [e]) (event_time e) (counters_step e c)"
proof (cases e)
  case (Opened ip now)
  with tracks_opened [OF assms(1)] assms(2) show ?thesis by simp
next
  case (Closed ip now)
  with tracks_closed [OF assms(1)] assms(2,3) show ?thesis by simp
next
  case (Looked now)
  with assms(2) have "tracks h now (cleanupActiveIPs now (cleanupActiveIPs now c))"
    by (intro tracks_cleanup [where t = now] tracks_cleanup [OF assms(1)]) simp_all
  then have "tracks (h @ [e]) now (cleanupActiveIPs now (cleanupActiveIPs now c))"
    by (rule tracks_silent) (simp add: Looked)
  then show ?thesis by (simp add: Looked activeIPCount_def Let_def)
qed

lemma tracks_run:
  "tracks done t c \<Longrightarrow> ordered_from t h \<Longrightarrow> closes_open done h \<Longrightarrow>
     \<exists>t'. tracks (done @ h) t' (foldl (\<lambda>c e. counters_step e c) c h) \<and>
          (\<forall>now. ordered_from t (h @ [Looked now]) \<longrightarrow> t' \<le> now) \<and> t \<le> t'"
proof (induction h arbitrary: "done" t c)
  case Nil
  then show ?case by auto
next
  case (Cons e h)
  have "tracks (done @ [e]) (event_time e) (counters_step e c)"
    using Cons.prems by (intro tracks_step) auto
  moreover have "ordered_from (event_time e) h" "closes_open (done @ [e]) h"
    using Cons.prems by auto
  ultimately obtain t' where t': "tracks ((done @ [e]) @ h) t' (foldl (\<lambda>c e. counters_step e c) (counters_step e c) h)"
    "\<forall>now. ordered_from (event_time e) (h @ [Looked now]) \<longrightarrow> t' \<le> now" "event_time e \<le> t'"
    using Cons.IH by blast
  with Cons.prems show ?case by (intro exI [of _ t']) auto
qed

lemma tracks_new: "tracks [] t new_counters"
  by (rule tracksI) (auto simp: new_counters_def al_get_def about_ip_def)

lemma ordered_positive: "ordered_from t h \<Longrightarrow> e \<in> set h \<Longrightarrow> t \<le> event_time e"
  by (induction h arbitrary: t) (auto, force)

lemma ordered_append: "ordered_from t (h @ [e]) \<Longrightarrow> ordered_from t h"
  by (induction h arbitrary: t) auto

text \<open>C27:
  The number of active addresses reported for a host is that of the history of its connections:
  an address counts when it has an open connection or was seen in the last two minutes. When and
  how often stale addresses are removed, by new connections or by earlier readings, makes no
  difference.
\<close>

theorem activeIPCount_history:
  assumes "ordered_from 1 (h @ [Looked now])" "closes_open [] h"
  shows "fst (activeIPCount now (counters_after h)) =
    int (length (filter (active_at now h) (remdups (map event_ip h))))"
proof -
  have o: "ordered_from 1 h" by (rule ordered_append [OF assms(1)])
  obtain t' where t': "tracks h t' (counters_after h)" "t' \<le> now"
    using tracks_run [OF tracks_new o assms(2)] assms(1) by (auto simp: counters_after_def)
  let ?c = "cleanupActiveIPs now (cleanupActiveIPs now (counters_after h))"
  have t: "tracks h now (cleanupActiveIPs now (counters_after h))"
    by (rule tracks_cleanup [OF t'])
  then have tc: "tracks h now ?c" by (rule tracks_cleanup) simp
  have get: "al_get (hc_activeIPs ?c) ip = Some a \<Longrightarrow> \<not> stale_ip now a" for ip a
    using al_get_filter [OF tracks_ok [OF t], of "\<lambda>(k, a). \<not> stale_ip now a" ip]
    unfolding cleanupActiveIPs_def [of now "cleanupActiveIPs now (counters_after h)"]
    by (auto split: option.splits if_splits)
  have iff: "active_at now h ip \<longleftrightarrow> al_get (hc_activeIPs ?c) ip \<noteq> None" for ip
  proof (cases "al_get (hc_activeIPs ?c) ip")
    case None
    with tracks_none [OF tc None] show ?thesis by (auto simp: active_at_def)
  next
    case (Some a)
    with tracks_some [OF tc Some] get [OF Some] show ?thesis
      by (auto simp: active_at_def stale_ip_def not_less)
  qed
  have seen: "ai_lastSeen a > 0" if "(ip, a) \<in> set (hc_activeIPs ?c)" for ip a
  proof -
    have g: "al_get (hc_activeIPs ?c) ip = Some a" using that tracks_ok [OF tc] by (simp add: al_get_iff)
    from tracks_some [OF tc g] have ne: "about_ip ip h \<noteq> []" and ls: "ai_lastSeen a = last_seen ip h" by auto
    from ne have "last (about_ip ip h) \<in> set (about_ip ip h)" by simp
    then have "last (about_ip ip h) \<in> set h" by (auto simp: about_ip_def)
    with ordered_positive [OF o] ls show ?thesis by (force simp: last_seen_def)
  qed
  then have all: "filter (\<lambda>(k, a). ai_lastSeen a > 0) (hc_activeIPs ?c) = hc_activeIPs ?c"
    by (auto simp: filter_id_conv)
  have "set (map fst (hc_activeIPs ?c)) = {ip. active_at now h ip}"
    using iff by (auto simp: al_get_def map_of_eq_None_iff)
  also have "\<dots> = set (filter (active_at now h) (remdups (map event_ip h)))"
    by (auto simp: active_at_def about_ip_def filter_empty_conv)
  finally have keys: "set (map fst (hc_activeIPs ?c)) = set (filter (active_at now h) (remdups (map event_ip h)))" .
  have "length (map fst (hc_activeIPs ?c)) = card (set (map fst (hc_activeIPs ?c)))"
    using tracks_ok [OF tc] by (simp only: al_ok_def distinct_card)
  also have "\<dots> = length (filter (active_at now h) (remdups (map event_ip h)))"
    unfolding keys by (intro distinct_card distinct_filter distinct_remdups)
  finally have "length (hc_activeIPs ?c) = length (filter (active_at now h) (remdups (map event_ip h)))"
    by simp
  then show ?thesis by (simp add: activeIPCount_def Let_def all)
qed

theorem activeIPCount_history_witness:
  "fst (activeIPCount 200000000000
     (counters_after [Opened ''10.0.0.1'' 1, Opened ''10.0.0.2'' 2, Closed ''10.0.0.1'' 3, Looked 100])) = 1"
proof -
  let ?h = "[Opened ''10.0.0.1'' 1, Opened ''10.0.0.2'' 2, Closed ''10.0.0.1'' 3, Looked 100]"
  have n: "normalizeIPAddress ''10.0.0.1'' = ''10.0.0.1''" "normalizeIPAddress ''10.0.0.2'' = ''10.0.0.2''"
    by code_simp+
  have o: "ordered_from 1 (?h @ [Looked 200000000000])" by simp
  have c: "closes_open [] ?h" by (simp add: n open_conns_def about_ip_def)
  have "filter (active_at 200000000000 ?h) (remdups (map event_ip ?h)) = [''10.0.0.2'']"
    by (simp add: n active_at_def open_conns_def last_seen_def about_ip_def hostActiveIPWindow_def second_def)
  with activeIPCount_history [OF o c] show ?thesis by simp
qed


section \<open>The counters of the gateway\<close>

record traffic =
  tr_totalIn :: "64 word"
  tr_totalOut :: "64 word"
  tr_error5xx :: "64 word"
  tr_active :: int
  tr_counters :: "host_counters list"
  tr_byHost :: "(string \<times> nat) list"

definition normalizeTrafficHost :: "unicode \<Rightarrow> string \<Rightarrow> string" where
  "normalizeTrafficHost U host = trimSuffix (normalizeRequestHost U host) ''.''"

definition lookupHostTrafficCounters :: "unicode \<Rightarrow> string \<Rightarrow> traffic \<Rightarrow> nat option \<times> string" where
  "lookupHostTrafficCounters U host s =
     (let h = normalizeTrafficHost U host in if h = [] then (None, []) else (al_get (tr_byHost s) h, h))"

definition getHostTrafficCounters :: "unicode \<Rightarrow> string \<Rightarrow> traffic \<Rightarrow> nat option \<times> traffic" where
  "getHostTrafficCounters U host s =
     (let h = normalizeTrafficHost U host
      in if h = [] then (None, s)
         else (case al_get (tr_byHost s) h of
                 Some p \<Rightarrow> (Some p, s)
               | None \<Rightarrow> (Some (length (tr_counters s)),
                   s\<lparr>tr_counters := tr_counters s @ [new_counters],
                     tr_byHost := al_put h (length (tr_counters s)) (tr_byHost s)\<rparr>)))"

definition activeTrafficHosts :: "unicode \<Rightarrow> host_rule list \<Rightarrow> string list" where
  "activeTrafficHosts U rules =
     remdups (filter (\<lambda>h. h \<noteq> []) (map (\<lambda>r. normalizeTrafficHost U (hr_Host r)) rules))"

definition loggedInActiveWindow :: int where
  "loggedInActiveWindow = 120 * second"

definition activeLoggedInCount :: "int \<Rightarrow> auth_handler \<Rightarrow> int \<times> auth_handler" where
  "activeLoggedInCount now h =
     (let kept = filter (\<lambda>(k, ts). \<not> ts < now - loggedInActiveWindow) (ah_loggedIn h)
      in (int (length kept), h\<lparr>ah_loggedIn := kept\<rparr>))"

definition MarkLoggedInActiveByClientIP :: "string \<Rightarrow> time \<Rightarrow> auth_handler \<Rightarrow> auth_handler" where
  "MarkLoggedInActiveByClientIP clientIP now h =
     storeLoggedInActive (activeIdentityKeyFromClientIP clientIP) now h"

record host_traffic_stats =
  ht_Host :: string
  ht_TotalIn :: "64 word"
  ht_TotalOut :: "64 word"
  ht_Error5xx :: "64 word"
  ht_ActiveIPCount :: int

record traffic_stats =
  ts_TotalIn :: "64 word"
  ts_TotalOut :: "64 word"
  ts_ActiveConns :: int
  ts_Error5xx :: "64 word"
  ts_ByHost :: "host_traffic_stats list"

text \<open>
  The walk over the host map: a host without a rule is dropped, for the others the counters are
  read and the count of addresses cleans up behind itself.
\<close>

fun host_stats_walk :: "string list \<Rightarrow> int \<Rightarrow> (string \<times> nat) list \<Rightarrow> traffic \<Rightarrow> host_traffic_stats list \<times> traffic" where
  "host_stats_walk active now [] s = ([], s)"
| "host_stats_walk active now ((host, p) # ps) s =
     (if host = [] then host_stats_walk active now ps s
      else if host \<notin> set active
      then host_stats_walk active now ps (s\<lparr>tr_byHost := al_del host (tr_byHost s)\<rparr>)
      else let c = tr_counters s ! p; (n, c1) = activeIPCount now c;
               (rest, s1) = host_stats_walk active now ps (s\<lparr>tr_counters := (tr_counters s)[p := c1]\<rparr>)
           in (\<lparr>ht_Host = host, ht_TotalIn = hc_totalIn c, ht_TotalOut = hc_totalOut c,
                ht_Error5xx = hc_error5xx c, ht_ActiveIPCount = n\<rparr> # rest, s1))"

definition GetTrafficStats :: "unicode \<Rightarrow> host_rule list \<Rightarrow> int \<Rightarrow> traffic \<Rightarrow> auth_handler \<Rightarrow>
    traffic_stats \<times> traffic \<times> auth_handler" where
  "GetTrafficStats U rules now s h =
     (let (byHost, s1) = host_stats_walk (activeTrafficHosts U rules) now (tr_byHost s) s;
          (n, h1) = activeLoggedInCount now h
      in (\<lparr>ts_TotalIn = tr_totalIn s1, ts_TotalOut = tr_totalOut s1, ts_ActiveConns = n,
           ts_Error5xx = tr_error5xx s1, ts_ByHost = sort_key ht_Host byHost\<rparr>, s1, h1))"

record host_active_ips =
  ha_Host :: string
  ha_WindowSeconds :: int
  ha_Items :: "ip_stats list"

definition GetHostActiveIPs :: "unicode \<Rightarrow> host_rule list \<Rightarrow> string \<Rightarrow> int \<Rightarrow> traffic \<Rightarrow> host_active_ips \<times> traffic" where
  "GetHostActiveIPs U rules host now s =
     (let h = normalizeTrafficHost U host;
          result = \<lparr>ha_Host = h, ha_WindowSeconds = hostActiveIPWindow div second, ha_Items = []\<rparr>
      in if h = [] then (result, s)
         else if h \<notin> set (activeTrafficHosts U rules)
         then (result, s\<lparr>tr_byHost := al_del h (tr_byHost s)\<rparr>)
         else (case lookupHostTrafficCounters U h s of
                 (None, _) \<Rightarrow> (result, s)
               | (Some p, _) \<Rightarrow>
                   (case activeIPStats now (tr_counters s ! p) of (items, c1) \<Rightarrow>
                      (result\<lparr>ha_Items := items\<rparr>, s\<lparr>tr_counters := (tr_counters s)[p := c1]\<rparr>))))"

definition AddStreamTraffic :: "64 word \<Rightarrow> 64 word \<Rightarrow> int \<Rightarrow> traffic \<Rightarrow> traffic" where
  "AddStreamTraffic bytesIn bytesOut status s =
     s\<lparr>tr_totalIn := tr_totalIn s + bytesIn, tr_totalOut := tr_totalOut s + bytesOut,
       tr_error5xx := (if status \<ge> 500 then tr_error5xx s + 1 else tr_error5xx s)\<rparr>"

section \<open>What one request adds\<close>

record request_metrics =
  mt_inBytes :: "64 word"
  mt_outBytes :: "64 word"
  mt_statusCode :: int
  mt_wroteHeader :: bool
  mt_host :: string
  mt_hostTraffic :: "nat option"

definition new_metrics :: request_metrics where
  "new_metrics = \<lparr>mt_inBytes = 0, mt_outBytes = 0, mt_statusCode = 200, mt_wroteHeader = False,
                  mt_host = [], mt_hostTraffic = None\<rparr>"

definition bindHost :: "unicode \<Rightarrow> string \<Rightarrow> request_metrics \<Rightarrow> traffic \<Rightarrow> request_metrics \<times> traffic" where
  "bindHost U host m s =
     (let h = normalizeTrafficHost U host
      in if h = [] \<or> h = mt_host m then (m, s)
         else (case getHostTrafficCounters U h s of (p, s1) \<Rightarrow> (m\<lparr>mt_host := h, mt_hostTraffic := p\<rparr>, s1)))"

definition on_host :: "request_metrics \<Rightarrow> (host_counters \<Rightarrow> host_counters) \<Rightarrow> traffic \<Rightarrow> traffic" where
  "on_host m f s =
     (case mt_hostTraffic m of
        None \<Rightarrow> s
      | Some p \<Rightarrow> s\<lparr>tr_counters := (tr_counters s)[p := f (tr_counters s ! p)]\<rparr>)"

definition metrics_addIn :: "request_metrics \<Rightarrow> 64 word \<Rightarrow> traffic \<Rightarrow> traffic" where
  "metrics_addIn m n s = (if n = 0 then s else on_host m (\<lambda>c. c\<lparr>hc_totalIn := hc_totalIn c + n\<rparr>) s)"

definition metrics_addOut :: "request_metrics \<Rightarrow> 64 word \<Rightarrow> traffic \<Rightarrow> traffic" where
  "metrics_addOut m n s = (if n = 0 then s else on_host m (\<lambda>c. c\<lparr>hc_totalOut := hc_totalOut c + n\<rparr>) s)"

definition metrics_add5xx :: "request_metrics \<Rightarrow> traffic \<Rightarrow> traffic" where
  "metrics_add5xx m s = on_host m (\<lambda>c. c\<lparr>hc_error5xx := hc_error5xx c + 1\<rparr>) s"

text \<open>\<open>n\<close> is what the wrapped reader or writer reports; the header is written at most once.\<close>

definition traffic_Read :: "nat \<Rightarrow> request_metrics \<Rightarrow> traffic \<Rightarrow> request_metrics \<times> traffic" where
  "traffic_Read n m s =
     (if n > 0
      then (m\<lparr>mt_inBytes := mt_inBytes m + of_nat n\<rparr>,
            metrics_addIn m (of_nat n) (s\<lparr>tr_totalIn := tr_totalIn s + of_nat n\<rparr>))
      else (m, s))"

definition traffic_WriteHeader :: "int \<Rightarrow> request_metrics \<Rightarrow> request_metrics" where
  "traffic_WriteHeader code m =
     (if mt_wroteHeader m then m else m\<lparr>mt_wroteHeader := True, mt_statusCode := code\<rparr>)"

definition traffic_Write :: "nat \<Rightarrow> request_metrics \<Rightarrow> traffic \<Rightarrow> request_metrics \<times> traffic" where
  "traffic_Write n m s =
     (let m1 = traffic_WriteHeader 200 m
      in if n > 0
         then (m1\<lparr>mt_outBytes := mt_outBytes m1 + of_nat n\<rparr>,
               metrics_addOut m1 (of_nat n) (s\<lparr>tr_totalOut := tr_totalOut s + of_nat n\<rparr>))
         else (m1, s))"

text \<open>The end of a request, as the deferred function of \<^verbatim>\<open>ServeHTTP\<close> does it.\<close>

definition traffic_end :: "request_metrics \<Rightarrow> traffic \<Rightarrow> traffic" where
  "traffic_end m s =
     (let s1 = s\<lparr>tr_active := tr_active s - 1\<rparr>
      in if mt_statusCode m \<ge> 500
         then metrics_add5xx m (s1\<lparr>tr_error5xx := tr_error5xx s1 + 1\<rparr>) else s1)"

datatype traffic_op = Op_Bind string | Op_Read nat | Op_Header int | Op_Write nat

fun traffic_step :: "unicode \<Rightarrow> traffic_op \<Rightarrow> request_metrics \<times> traffic \<Rightarrow> request_metrics \<times> traffic" where
  "traffic_step U (Op_Bind host) (m, s) = bindHost U host m s"
| "traffic_step U (Op_Read n) (m, s) = traffic_Read n m s"
| "traffic_step U (Op_Header code) (m, s) = (traffic_WriteHeader code m, s)"
| "traffic_step U (Op_Write n) (m, s) = traffic_Write n m s"

definition read_total :: "traffic_op list \<Rightarrow> nat" where
  "read_total ops = sum_list (map (\<lambda>p. case p of Op_Read n \<Rightarrow> n | _ \<Rightarrow> 0) ops)"

definition write_total :: "traffic_op list \<Rightarrow> nat" where
  "write_total ops = sum_list (map (\<lambda>p. case p of Op_Write n \<Rightarrow> n | _ \<Rightarrow> 0) ops)"

text \<open>The first status written, or 200 when a body comes first or nothing is written.\<close>

fun first_status :: "traffic_op list \<Rightarrow> int" where
  "first_status [] = 200"
| "first_status (Op_Header code # ops) = code"
| "first_status (Op_Write n # ops) = 200"
| "first_status (_ # ops) = first_status ops"

lemma on_host_totals [simp]:
  "tr_totalIn (on_host m f s) = tr_totalIn s" "tr_totalOut (on_host m f s) = tr_totalOut s"
  by (simp_all add: on_host_def split: option.split)

lemma add_totals [simp]:
  "tr_totalIn (metrics_addIn m n s) = tr_totalIn s" "tr_totalOut (metrics_addIn m n s) = tr_totalOut s"
  "tr_totalIn (metrics_addOut m n s) = tr_totalIn s" "tr_totalOut (metrics_addOut m n s) = tr_totalOut s"
  by (simp_all add: metrics_addIn_def metrics_addOut_def)

lemma bindHost_totals:
  "tr_totalIn (snd (bindHost U host m s)) = tr_totalIn s \<and> tr_totalOut (snd (bindHost U host m s)) = tr_totalOut s \<and>
   mt_inBytes (fst (bindHost U host m s)) = mt_inBytes m \<and> mt_outBytes (fst (bindHost U host m s)) = mt_outBytes m \<and>
   mt_wroteHeader (fst (bindHost U host m s)) = mt_wroteHeader m \<and>
   mt_statusCode (fst (bindHost U host m s)) = mt_statusCode m"
  by (auto simp: bindHost_def Let_def getHostTrafficCounters_def split: option.splits)

lemma traffic_run:
  "case foldl (\<lambda>st p. traffic_step U p st) (m, s) ops of (m', s') \<Rightarrow>
     mt_inBytes m' = mt_inBytes m + of_nat (read_total ops) \<and>
     mt_outBytes m' = mt_outBytes m + of_nat (write_total ops) \<and>
     tr_totalIn s' = tr_totalIn s + of_nat (read_total ops) \<and>
     tr_totalOut s' = tr_totalOut s + of_nat (write_total ops) \<and>
     mt_statusCode m' = (if mt_wroteHeader m \<or> (\<forall>p \<in> set ops. case p of Op_Header _ \<Rightarrow> False | Op_Write _ \<Rightarrow> False | _ \<Rightarrow> True)
                         then mt_statusCode m else first_status ops)"
proof (induction ops arbitrary: m s)
  case Nil
  then show ?case by (simp add: read_total_def write_total_def)
next
  case (Cons p ops)
  obtain m1 s1 where st: "traffic_step U p (m, s) = (m1, s1)" by (metis surj_pair)
  have "mt_inBytes m1 = mt_inBytes m + of_nat (case p of Op_Read n \<Rightarrow> n | _ \<Rightarrow> 0) \<and>
     mt_outBytes m1 = mt_outBytes m + of_nat (case p of Op_Write n \<Rightarrow> n | _ \<Rightarrow> 0) \<and>
     tr_totalIn s1 = tr_totalIn s + of_nat (case p of Op_Read n \<Rightarrow> n | _ \<Rightarrow> 0) \<and>
     tr_totalOut s1 = tr_totalOut s + of_nat (case p of Op_Write n \<Rightarrow> n | _ \<Rightarrow> 0)"
    using st bindHost_totals [of U _ m s]
    by (cases p) (auto simp: traffic_Read_def traffic_Write_def traffic_WriteHeader_def Let_def prod_eq_iff
        split: if_splits)
  moreover have "mt_wroteHeader m1 = (mt_wroteHeader m \<or> (case p of Op_Header _ \<Rightarrow> True | Op_Write _ \<Rightarrow> True | _ \<Rightarrow> False)) \<and>
     mt_statusCode m1 = (if mt_wroteHeader m then mt_statusCode m
        else (case p of Op_Header c \<Rightarrow> c | Op_Write _ \<Rightarrow> 200 | _ \<Rightarrow> mt_statusCode m))"
    using st bindHost_totals [of U _ m s]
    by (cases p) (auto simp: traffic_Read_def traffic_Write_def traffic_WriteHeader_def Let_def prod_eq_iff
        split: if_splits)
  moreover obtain m' s' where f: "foldl (\<lambda>st p. traffic_step U p st) (m1, s1) ops = (m', s')" by (metis surj_pair)
  moreover have f': "foldl (\<lambda>st p. traffic_step U p st) (m, s) (p # ops) = (m', s')" by (simp add: st f)
  moreover note Cons.IH [of m1 s1]
  ultimately show ?case
    unfolding f' f prod.case
    by (cases p) (simp_all add: read_total_def write_total_def)
qed

text \<open>C22:
  A request is counted completely: whatever hosts it is bound to on the way and however its body
  and its answer are cut into pieces, its own byte counts and the gateway's grow by the bytes that
  were read and written (modulo 64 bits), and the status recorded is the first one written, 200 if
  the answer starts with its body.
\<close>

theorem request_traffic_counted:
  "case foldl (\<lambda>st p. traffic_step U p st) (new_metrics, s) ops of (m, s') \<Rightarrow>
     mt_inBytes m = of_nat (read_total ops) \<and> mt_outBytes m = of_nat (write_total ops) \<and>
     tr_totalIn s' = tr_totalIn s + of_nat (read_total ops) \<and>
     tr_totalOut s' = tr_totalOut s + of_nat (write_total ops) \<and>
     mt_statusCode m = first_status ops"
proof -
  have "first_status ops = 200"
    if "\<forall>p \<in> set ops. case p of Op_Header _ \<Rightarrow> False | Op_Write _ \<Rightarrow> False | _ \<Rightarrow> True"
    using that by (induction ops rule: first_status.induct) auto
  then show ?thesis
    using traffic_run [where m = new_metrics and s = s and U = U and ops = ops] by (auto simp: new_metrics_def split: prod.splits)
qed

end
