(* ===== verification/LogScan.thy ===== *)
theory LogScan
  imports Prelude GoStrings
begin

text \<open>
  Reading a log file, \<^verbatim>\<open>pkg/gatewaylog/manager.go\<close>: forwards line by line with a bounded
  scanner, and backwards from an offset in chunks.  A file is its text; it does not change while
  it is read.  The lemmas show that the backward scan hands out the non-empty lines before the
  offset, last first and with their offsets, whatever the size of the chunks, and that the ring
  of the last lines holds the last lines.
\<close>

section \<open>Lines and their offsets\<close>

definition newline :: char where
  "newline = CHR 0x0A"

definition return_char :: char where
  "return_char = CHR 0x0D"

text \<open>The lines of a text with the offsets at which they start.\<close>

fun lines_at :: "nat \<Rightarrow> string list \<Rightarrow> (string \<times> nat) list" where
  "lines_at p [] = []"
| "lines_at p (l # ls) = (l, p) # lines_at (p + length l + 1) ls"

definition trim_cr :: "string \<Rightarrow> string" where
  "trim_cr l = trim_right_set l [return_char]"

definition trim_crlf :: "string \<Rightarrow> string" where
  "trim_crlf l = trim_right_set l [return_char, newline]"

text \<open>What a reader from the end should see: the non-empty lines, last first.\<close>

definition proper_lines :: "(string \<times> nat) list \<Rightarrow> (string \<times> nat) list" where
  "proper_lines ls = filter (\<lambda>(l, p). l \<noteq> []) (map (\<lambda>(l, p). (trim_cr l, p)) ls)"

definition lines_desc :: "string \<Rightarrow> (string \<times> nat) list" where
  "lines_desc text = rev (proper_lines (lines_at 0 (split_byte newline text)))"

text \<open>A callback that may stop the scan.\<close>

fun feed :: "('s \<Rightarrow> string \<Rightarrow> nat \<Rightarrow> 's \<times> bool) \<Rightarrow> (string \<times> nat) list \<Rightarrow> 's \<Rightarrow> 's \<times> bool" where
  "feed f [] s = (s, True)"
| "feed f ((l, p) # ls) s = (case f s l p of (s1, keep) \<Rightarrow> if keep then feed f ls s1 else (s1, False))"

lemma feed_append:
  "feed f (xs @ ys) s = (case feed f xs s of (s1, keep) \<Rightarrow> if keep then feed f ys s1 else (s1, False))"
  by (induction f xs s rule: feed.induct) (auto split: prod.splits)

section \<open>The backward scan\<close>

lemma last_index_lt: "last_index_byte s c = Some i \<Longrightarrow> i < length s"
  by (cases s) (auto simp: last_index_byte_def split: if_splits)

text \<open>
  The inner loop: complete lines of \<open>combined\<close> from the right, down to the first newline.
  The result is the end of the part that is left, the state of the callback, whether to go on.
\<close>

function chunk_lines :: "('s \<Rightarrow> string \<Rightarrow> nat \<Rightarrow> 's \<times> bool) \<Rightarrow> string \<Rightarrow> nat \<Rightarrow> nat \<Rightarrow> 's \<Rightarrow> nat \<times> 's \<times> bool" where
  "chunk_lines f combined start scanEnd s =
     (if scanEnd = 0 then (scanEnd, s, True)
      else (case last_index_byte (take scanEnd combined) newline of
              None \<Rightarrow> (scanEnd, s, True)
            | Some i \<Rightarrow>
                let line = trim_cr (drop (i + 1) (take scanEnd combined))
                in if line = [] then chunk_lines f combined start i s
                   else (case f s line (start + i + 1) of (s1, keep) \<Rightarrow>
                           if keep then chunk_lines f combined start i s1 else (i, s1, False))))"
  by pat_completeness auto
termination
  by (relation "measure (\<lambda>(f, combined, start, scanEnd, s). scanEnd)") (auto dest!: last_index_lt)

declare chunk_lines.simps [simp del]

text \<open>The outer loop over the chunks, from \<open>position\<close> towards the start of the file.\<close>

function scan_chunks :: "nat \<Rightarrow> ('s \<Rightarrow> string \<Rightarrow> nat \<Rightarrow> 's \<times> bool) \<Rightarrow> string \<Rightarrow> nat \<Rightarrow> string \<Rightarrow> bool \<Rightarrow> 's \<Rightarrow> 's" where
  "scan_chunks chunk f file position remainder firstPass s =
     (if position = 0
      then (let line = trim_crlf remainder in if line = [] then s else fst (f s line 0))
      else if chunk = 0 then s
      else let readSize = min chunk position;
               start = position - readSize;
               combined = take readSize (drop start file) @ remainder;
               scanEnd = (if firstPass then length (trim_crlf combined) else length combined)
           in (case chunk_lines f combined start scanEnd s of (e, s1, keep) \<Rightarrow>
                 if keep then scan_chunks chunk f file start (take e combined) False s1 else s1))"
  by pat_completeness auto
termination
  by (relation "measure (\<lambda>(chunk, f, file, position, remainder, firstPass, s). position)") auto

declare scan_chunks.simps [simp del]

definition scanLinesBackward :: "nat \<Rightarrow> string \<Rightarrow> nat \<Rightarrow> ('s \<Rightarrow> string \<Rightarrow> nat \<Rightarrow> 's \<times> bool) \<Rightarrow> 's \<Rightarrow> 's" where
  "scanLinesBackward chunk file endOffset f s = scan_chunks chunk f file endOffset [] True s"

definition cursorChunkSize :: nat where
  "cursorChunkSize = 64 * 1024"

section \<open>The chunks do not matter\<close>

text \<open>The lines of a text whose last line is followed by more of that line.\<close>

lemma lines_at_append: "lines_at p (xs @ ys) = lines_at p xs @ lines_at (p + sum_list (map (\<lambda>l. length l + 1) xs)) ys"
  by (induction xs arbitrary: p) (auto simp: add.assoc)

lemma split_at_newline: "split_byte c (a @ c # b) = split_byte c a @ split_byte c b"
proof (induction a)
  case (Cons x a)
  then show ?case by (cases "split_byte c a") auto
qed simp

lemma split_total: "sum_list (map (\<lambda>l. length l + 1) (split_byte c a)) = length a + 1"
proof (induction a)
  case (Cons x a)
  then show ?case by (cases "split_byte c a") auto
qed simp

lemma lines_at_newline:
  "lines_at p (split_byte c (a @ c # b)) = lines_at p (split_byte c a) @ lines_at (p + length a + 1) (split_byte c b)"
  unfolding split_at_newline lines_at_append split_total by (simp add: add.assoc)

lemma proper_append: "proper_lines (xs @ ys) = proper_lines xs @ proper_lines ys"
  by (simp add: proper_lines_def)

lemma last_index_split:
  assumes "last_index_byte t c = Some i"
  shows "\<exists>a b. t = a @ c # b \<and> length a = i \<and> c \<notin> set b"
proof -
  from assms have "c \<in> set t" by (auto simp: last_index_byte_def split: if_splits)
  then obtain a b where t: "t = a @ c # b" "c \<notin> set b" by (auto dest: split_list_last)
  then have "takeWhile (\<lambda>x. x \<noteq> c) (rev t) = rev b"
    by (auto simp: takeWhile_append)
  with assms t have "length a = i" by (auto simp: last_index_byte_def split: if_splits)
  with t show ?thesis by blast
qed

lemma split_atom: "c \<notin> set l \<Longrightarrow> split_byte c l = [l]"
  by (rule split_byte_atom)

lemma tl_lines_snoc:
  assumes "newline \<notin> set l"
  shows "tl (lines_at p (split_byte newline (a @ newline # l))) =
    tl (lines_at p (split_byte newline a)) @ [(l, p + length a + 1)]"
proof -
  have "lines_at p (split_byte newline a) \<noteq> []" by (cases "split_byte newline a") auto
  then show ?thesis using assms by (simp add: lines_at_newline split_atom)
qed

lemma chunk_lines_spec:
  assumes "scanEnd \<le> length combined"
  shows "case feed f (rev (proper_lines (tl (lines_at start (split_byte newline (take scanEnd combined)))))) s of
     (s1, keep) \<Rightarrow>
       (if keep then chunk_lines f combined start scanEnd s =
                     (length (hd (split_byte newline (take scanEnd combined))), s1, True)
        else \<exists>e. chunk_lines f combined start scanEnd s = (e, s1, False))"
  using assms
proof (induction f combined start scanEnd s rule: chunk_lines.induct)
  case (1 f combined start scanEnd s)
  let ?u = "take scanEnd combined"
  show ?case
  proof (cases "scanEnd = 0 \<or> newline \<notin> set ?u")
    case True
    then have sp: "split_byte newline ?u = [?u]" by (auto simp: split_atom)
    have "last_index_byte ?u newline = None" if "scanEnd \<noteq> 0"
      using True that by (simp add: last_index_byte_def)
    then have "chunk_lines f combined start scanEnd s = (scanEnd, s, True)"
      by (auto simp: chunk_lines.simps [of f combined start scanEnd s])
    then show ?thesis
      using "1.prems" by (simp add: sp proper_lines_def)
  next
    case False
    then obtain i where i: "last_index_byte ?u newline = Some i" by (auto simp: last_index_byte_def)
    then obtain a l where u: "?u = a @ newline # l" and la: "length a = i" and nl: "newline \<notin> set l"
      using last_index_split by metis
    have se: "scanEnd \<noteq> 0" using False by auto
    have il: "i \<le> length combined" using last_index_lt [OF i] "1.prems" by simp
    have ti: "take i combined = a"
    proof -
      have "take i combined = take i ?u" using last_index_lt [OF i] by simp
      then show ?thesis by (simp add: u la)
    qed
    have dl: "drop (i + 1) ?u = l" by (simp add: u la [symmetric])
    let ?rest = "proper_lines (tl (lines_at start (split_byte newline a)))"
    let ?line = "trim_cr l"
    have hd_eq: "hd (split_byte newline ?u) = hd (split_byte newline a)"
      by (simp add: u split_at_newline hd_append)
    have pl: "rev (proper_lines (tl (lines_at start (split_byte newline ?u)))) =
        (if ?line = [] then [] else [(?line, start + i + 1)]) @ rev ?rest"
      using nl by (simp add: u tl_lines_snoc proper_append la) (simp add: proper_lines_def)
    show ?thesis
    proof (cases "?line = []")
      case True
      have c: "chunk_lines f combined start scanEnd s = chunk_lines f combined start i s"
        using se i True dl by (simp add: chunk_lines.simps [of f combined start scanEnd s] Let_def)
      have ih: "case feed f (rev ?rest) s of (s1, keep) \<Rightarrow>
          (if keep then chunk_lines f combined start i s = (length (hd (split_byte newline a)), s1, True)
           else \<exists>e. chunk_lines f combined start i s = (e, s1, False))"
        using "1.IH"(1) [OF se i refl _ il] True unfolding dl ti by simp
      then show ?thesis unfolding pl hd_eq c using True by simp
    next
      case False
      obtain s1 keep where fs: "f s ?line (start + i + 1) = (s1, keep)" by (metis surj_pair)
      have c: "chunk_lines f combined start scanEnd s =
          (if keep then chunk_lines f combined start i s1 else (i, s1, False))"
        using se i False dl fs by (simp add: chunk_lines.simps [of f combined start scanEnd s] Let_def)
      have ih: "case feed f (rev ?rest) s1 of (s2, keep) \<Rightarrow>
          (if keep then chunk_lines f combined start i s1 = (length (hd (split_byte newline a)), s2, True)
           else \<exists>e. chunk_lines f combined start i s1 = (e, s2, False))" if keep
        using "1.IH"(2) [OF se i refl, of s1 keep] False fs that il unfolding dl ti by simp
      show ?thesis
      proof (cases keep)
        case True
        then show ?thesis using ih unfolding pl hd_eq c using False fs by (simp split: prod.splits)
      next
        case nk: False
        then show ?thesis unfolding pl hd_eq c using False fs by simp
      qed
    qed
  qed
qed


lemma trim_cr_snoc: "trim_cr (l @ [return_char]) = trim_cr l"
  by (simp add: trim_cr_def trim_right_set_def)

lemma split_snoc:
  "c \<noteq> d \<Longrightarrow> split_byte d (a @ [c]) = butlast (split_byte d a) @ [last (split_byte d a) @ [c]]"
proof (induction a)
  case (Cons x a)
  then show ?case by (cases "split_byte d a") auto
qed simp

lemma lines_desc_snoc:
  assumes "c = return_char \<or> c = newline"
  shows "lines_desc (t @ [c]) = lines_desc t"
proof (cases "c = newline")
  case True
  have "lines_at 0 (split_byte newline (t @ [newline])) = lines_at 0 (split_byte newline t) @ [([], length t + 1)]"
    using lines_at_newline [of 0 newline t "[]"] by simp
  then show ?thesis
    unfolding True lines_desc_def by (simp add: proper_append) (simp add: proper_lines_def trim_cr_def trim_right_set_def)
next
  case False
  then have c: "c = return_char" using assms by auto
  obtain ls l where sp: "split_byte newline t = ls @ [l]" by (metis append_butlast_last_id split_byte_nonempty)
  have sp': "split_byte newline (t @ [c]) = ls @ [l @ [c]]"
    using split_snoc [OF False, of t] by (simp add: sp)
  show ?thesis
    unfolding lines_desc_def c sp sp' [unfolded c] lines_at_append proper_append
    by (simp add: proper_lines_def trim_cr_snoc)
qed

lemma lines_desc_crlf:
  "set w \<subseteq> {return_char, newline} \<Longrightarrow> lines_desc (t @ w) = lines_desc t"
proof (induction w rule: rev_induct)
  case (snoc c w)
  then have "lines_desc ((t @ w) @ [c]) = lines_desc (t @ w)" by (intro lines_desc_snoc) auto
  with snoc show ?case by simp
qed simp

lemma trim_crlf_prefix: "\<exists>w. t = trim_crlf t @ w \<and> set w \<subseteq> {return_char, newline}"
proof -
  let ?P = "\<lambda>c. c \<in> set [return_char, newline]"
  have "rev t = takeWhile ?P (rev t) @ dropWhile ?P (rev t)" by simp
  then have "t = rev (dropWhile ?P (rev t)) @ rev (takeWhile ?P (rev t))" by (metis rev_append rev_rev_ident)
  moreover have "set (rev (takeWhile ?P (rev t))) \<subseteq> {return_char, newline}" by (auto dest: set_takeWhileD)
  ultimately show ?thesis unfolding trim_crlf_def trim_right_set_def by blast
qed

lemma trim_crlf_length: "length (trim_crlf t) \<le> length t"
proof -
  obtain w where "t = trim_crlf t @ w" using trim_crlf_prefix by blast
  then have "length t = length (trim_crlf t) + length w" by (metis length_append)
  then show ?thesis by simp
qed

lemma trim_crlf_no_newline: "newline \<notin> set l \<Longrightarrow> trim_crlf l = trim_cr l"
proof -
  assume "newline \<notin> set l"
  then have "dropWhile (\<lambda>c. c \<in> set [return_char, newline]) (rev l) = dropWhile (\<lambda>c. c \<in> set [return_char]) (rev l)"
    by (intro dropWhile_cong) auto
  then show ?thesis by (simp add: trim_crlf_def trim_cr_def trim_right_set_def)
qed

text \<open>One chunk: its complete lines, then the text without them.\<close>

lemma lines_desc_chunk:
  "lines_desc (a @ u) = rev (proper_lines (tl (lines_at (length a) (split_byte newline u)))) @
     lines_desc (a @ hd (split_byte newline u))"
proof (cases "newline \<in> set u")
  case False
  then show ?thesis by (simp add: split_atom proper_lines_def)
next
  case True
  then obtain h t where u: "u = h @ newline # t" "newline \<notin> set h" by (auto dest: split_list_first)
  have sp: "split_byte newline u = h # split_byte newline t" using u by (simp add: split_byte_append)
  have "lines_at 0 (split_byte newline (a @ u)) =
      lines_at 0 (split_byte newline (a @ h)) @ lines_at (length a + length h + 1) (split_byte newline t)"
    using lines_at_newline [of 0 newline "a @ h" t] by (simp add: u)
  then show ?thesis by (simp add: lines_desc_def sp proper_append)
qed

lemma hd_split_prefix: "take (length (hd (split_byte c u))) u = hd (split_byte c u) \<and> c \<notin> set (hd (split_byte c u))"
proof (cases "c \<in> set u")
  case False
  then show ?thesis by (simp add: split_atom)
next
  case True
  then obtain h t where "u = h @ c # t" "c \<notin> set h" by (auto dest: split_list_first)
  then show ?thesis by (simp add: split_byte_append)
qed

lemma hd_split_take: "take (length (hd (split_byte c (take n xs)))) xs = hd (split_byte c (take n xs))"
proof -
  let ?h = "hd (split_byte c (take n xs))"
  have h: "take (length ?h) (take n xs) = ?h" using hd_split_prefix by blast
  from arg_cong [OF h, of length] have "length ?h \<le> n" by simp
  with h show ?thesis by (simp add: min_def)
qed

lemma scan_last:
  assumes "newline \<notin> set r"
  shows "(let line = trim_crlf r in if line = [] then s else fst (f s line 0)) = fst (feed f (lines_desc r) s)"
proof -
  have "lines_desc r = (if trim_cr r = [] then [] else [(trim_cr r, 0)])"
    using assms by (simp add: lines_desc_def split_atom proper_lines_def)
  then show ?thesis using assms by (simp add: trim_crlf_no_newline split: prod.splits)
qed

lemma scan_chunks_spec:
  assumes "0 < chunk" "position \<le> length log" "firstPass \<Longrightarrow> remainder = []" "newline \<notin> set remainder"
  shows "scan_chunks chunk f log position remainder firstPass s =
    fst (feed f (lines_desc (take position log @ remainder)) s)"
  using assms
proof (induction position arbitrary: remainder firstPass s rule: less_induct)
  case (less position)
  show ?case
  proof (cases "position = 0")
    case True
    then show ?thesis
      using scan_last [OF less.prems(4)] by (simp add: scan_chunks.simps [of chunk f log 0])
  next
    case False
    let ?n = "min chunk position"
    let ?start = "position - ?n"
    let ?a = "take ?start log"
    let ?combined = "take ?n (drop ?start log) @ remainder"
    let ?se = "if firstPass then length (trim_crlf ?combined) else length ?combined"
    have se: "?se \<le> length ?combined"
      using trim_crlf_length [of ?combined] by (simp split: if_split)
    let ?u = "take ?se ?combined"
    have whole: "take position log @ remainder = ?a @ ?combined"
    proof -
      have "take (?start + ?n) log = ?a @ take ?n (drop ?start log)" by (rule take_add)
      moreover have "?start + ?n = position" by simp
      ultimately show ?thesis by simp
    qed
    have la: "length ?a = ?start" using less.prems(2) by simp
    have trimmed: "lines_desc (?a @ ?combined) = lines_desc (?a @ ?u)"
    proof (cases firstPass)
      case True
      obtain w where w: "?combined = trim_crlf ?combined @ w" "set w \<subseteq> {return_char, newline}"
        using trim_crlf_prefix by metis
      have "take (length (trim_crlf ?combined)) ?combined = trim_crlf ?combined"
        by (subst w(1)) simp
      then have u: "?u = trim_crlf ?combined" using True by simp
      have "lines_desc ((?a @ trim_crlf ?combined) @ w) = lines_desc (?a @ trim_crlf ?combined)"
        by (rule lines_desc_crlf [OF w(2)])
      then show ?thesis unfolding u by (subst w(1)) simp
    next
      case False
      have "take (length ?combined) ?combined = ?combined" by (rule take_all) simp
      then show ?thesis using False by (simp only: if_False)
    qed
    let ?top = "rev (proper_lines (tl (lines_at ?start (split_byte newline ?u))))"
    let ?r = "hd (split_byte newline ?u)"
    have all: "lines_desc (take position log @ remainder) = ?top @ lines_desc (?a @ ?r)"
      unfolding whole trimmed by (subst lines_desc_chunk) (simp only: la)
    obtain s1 keep where fd: "feed f ?top s = (s1, keep)" by (metis surj_pair)
    note cl = chunk_lines_spec [OF se, of f ?start s, unfolded fd prod.case]
    have unf: "scan_chunks chunk f log position remainder firstPass s =
        (case chunk_lines f ?combined ?start ?se s of (e, s1, keep) \<Rightarrow>
           if keep then scan_chunks chunk f log ?start (take e ?combined) False s1 else s1)"
      using False less.prems(1) by (simp add: scan_chunks.simps [of chunk f log position] Let_def)
    show ?thesis
    proof (cases keep)
      case True
      with cl have c: "chunk_lines f ?combined ?start ?se s = (length ?r, s1, True)" by simp
      have r: "take (length ?r) ?combined = ?r"
        by (rule hd_split_take)
      have "scan_chunks chunk f log ?start ?r False s1 = fst (feed f (lines_desc (?a @ ?r)) s1)"
      proof (rule less.IH)
        show "?start < position" using False less.prems(1) by simp
        show "?start \<le> length log" using less.prems(2) by simp
        show "newline \<notin> set ?r" using hd_split_prefix [of newline ?u] by blast
      qed (use less.prems(1) in simp_all)
      then show ?thesis unfolding unf c all feed_append fd using True by (simp only: prod.case if_True r)
    next
      case nk: False
      with cl obtain e where "chunk_lines f ?combined ?start ?se s = (e, s1, False)" by auto
      then show ?thesis unfolding unf all feed_append fd using nk by (simp only: prod.case if_False fst_conv)
    qed
  qed
qed

lemma scan_backward_lines:
  assumes "0 < chunk" "endOffset \<le> length log"
  shows "scanLinesBackward chunk log endOffset f s = fst (feed f (lines_desc (take endOffset log)) s)"
  using scan_chunks_spec [of chunk endOffset log True "[]" f s] assms by (simp add: scanLinesBackward_def)

text \<open>
  Every non-empty line that ends before the offset is handed out once, last first, with the offset
  of its first byte, and the scan stops where the callback says so; chunks of any size give the
  same calls.
\<close>

theorem scanLinesBackward_lines:
  assumes "0 < chunk" "endOffset \<le> length log"
  shows "scanLinesBackward chunk log endOffset f s = fst (feed f (lines_desc (take endOffset log)) s)"
  using assms by (rule scan_backward_lines)

end
