(* ===== verification/LogQuery.thy ===== *)
theory LogQuery
  imports LogScan Ascii RuleStore
begin

text \<open>
  Queries over the access log of one day, \<^verbatim>\<open>pkg/gatewaylog/manager.go\<close>: the filter, the
  tests on raw lines and on decoded entries, the ring of the last matching lines, the three ways a
  page is read and the pages of a cursor.  \<^verbatim>\<open>encoding/json\<close> (\<open>ql_valid\<close>, \<open>ql_entry\<close>) and
  \<^verbatim>\<open>strings.EqualFold\<close> for two arbitrary texts (\<open>ql_fold\<close>, Unicode tables) are parameters; the
  file does not change during a query.  The lemmas show that every way of reading a page returns
  that page of the matching lines, newest first, and that following the cursors from the end
  returns each of them once and ends.
\<close>

section \<open>Entries\<close>

record log_entry =
  le_Time :: string
  le_Level :: string
  le_Method :: string
  le_Scheme :: string
  le_Host :: string
  le_Path :: string
  le_Query :: string
  le_RequestURI :: string
  le_Protocol :: string
  le_Status :: int
  le_DurationMs :: int
  le_RemoteIP :: string
  le_RemoteAddr :: string
  le_UserAgent :: string
  le_Referer :: string
  le_LoggedIn :: bool
  le_AuthRequired :: bool
  le_AuthDecision :: string
  le_AuthCredentialID :: string
  le_AuthCredentialName :: string
  le_AuthCredentialMethod :: string
  le_AuthLinkedTOTPID :: string
  le_AuthLinkedTOTPName :: string
  le_AccessMode :: string
  le_RouteType :: string
  le_RouteKey :: string
  le_Upstream :: string
  le_Matched :: bool
  le_BytesIn :: "64 word"
  le_BytesOut :: "64 word"
  le_TLS :: bool
  le_WebSocket :: bool
  le_AliRealClientIP :: string
  le_EOConnectingIP :: string
  le_XForwardedFor :: string
  le_XRealIP :: string
  le_WAFBlocked :: bool
  le_WAFTraceID :: string
  le_WAFMode :: string
  le_WAFRuleIDs :: "int list"
  le_WAFAction :: string
  le_WAFBundle :: string
  le_GeneralBlacklistBlocked :: bool

record query_lib =
  ql_unicode :: unicode
  ql_valid :: "string \<Rightarrow> bool"
  ql_entry :: "string \<Rightarrow> log_entry option"
  ql_fold :: "string \<Rightarrow> string \<Rightarrow> bool"

section \<open>The filter\<close>

record query_filter =
  qf_search :: string
  qf_searchASCII :: bool
  qf_exactStatuses :: "int list"
  qf_statusClasses :: "int list"
  qf_loggedIn :: "bool option"
  qf_credential :: string

datatype query_error =
    Invalid_Date
  | Invalid_Status string
  | Invalid_LoggedIn string
  | Invalid_Cursor
  | Cursor_Out_Of_Range
  | Log_Unreadable
  | Log_Line_Too_Long
  | Log_Dir_Unreadable

definition unrecordedCredentialFilter :: string where
  "unrecordedCredentialFilter = ''__unrecorded__''"

definition normalizeCredentialFilter :: "unicode \<Rightarrow> string \<Rightarrow> string" where
  "normalizeCredentialFilter U raw =
     (let v = trim_space raw
      in if v = [] \<or> equal_fold v ''all'' then []
         else if to_lower U v \<in> {unrecordedCredentialFilter, ''unrecorded'', ''unknown'', ''missing''}
              then unrecordedCredentialFilter else v)"

definition parseLoggedInFilter :: "unicode \<Rightarrow> string \<Rightarrow> query_error + bool option" where
  "parseLoggedInFilter U raw =
     (let v = to_lower U (trim_space raw)
      in if v \<in> {[], ''all''} then Inr None
         else if v \<in> {''true'', ''1'', ''yes'', ''logged_in''} then Inr (Some True)
         else if v \<in> {''false'', ''0'', ''no'', ''logged_out''} then Inr (Some False)
         else Inl (Invalid_LoggedIn raw))"

text \<open>The loop over the status tokens.  The class is a byte difference.\<close>

fun status_tokens :: "unicode \<Rightarrow> string list \<Rightarrow> int list \<Rightarrow> int list \<Rightarrow> query_error + int list \<times> int list" where
  "status_tokens U [] exact classes = Inr (exact, classes)"
| "status_tokens U (token # ts) exact classes =
     (let v = to_lower U (trim_space token)
      in if v = [] \<or> v = ''all'' then status_tokens U ts exact classes
         else if length v = 3 \<and> hasSuffix v ''xx''
              then (let cl = int ((byte (hd v) + 208) mod 256)
                    in if cl < 1 \<or> cl > 5 then Inl (Invalid_Status token)
                       else status_tokens U ts exact (List.insert cl classes))
         else (case atoi v of
                 None \<Rightarrow> Inl (Invalid_Status token)
               | Some code \<Rightarrow>
                   if code < 100 \<or> code > 599 then Inl (Invalid_Status token)
                   else status_tokens U ts (List.insert code exact) classes))"

definition newQueryFilter ::
    "unicode \<Rightarrow> string \<Rightarrow> string \<Rightarrow> string \<Rightarrow> string \<Rightarrow> query_error + query_filter" where
  "newQueryFilter U search status loggedIn credential =
     (let s = to_lower U (trim_space search);
          rawStatus = trim_space status;
          statuses = (if rawStatus \<noteq> [] \<and> \<not> equal_fold rawStatus ''all''
                      then status_tokens U (split_byte CHR '','' rawStatus) [] [] else Inr ([], []))
      in (case statuses of
            Inl e \<Rightarrow> Inl e
          | Inr (exact, classes) \<Rightarrow>
              (case parseLoggedInFilter U loggedIn of
                 Inl e \<Rightarrow> Inl e
               | Inr l \<Rightarrow>
                   Inr \<lparr>qf_search = s, qf_searchASCII = is_ascii s, qf_exactStatuses = exact,
                        qf_statusClasses = classes, qf_loggedIn = l,
                        qf_credential = normalizeCredentialFilter U credential\<rparr>)))"

section \<open>Tests on a line\<close>

text \<open>The log's copy of the case-insensitive search folds the line only.\<close>

definition hasFoldASCIIPrefixBytes :: "string \<Rightarrow> string \<Rightarrow> bool" where
  "hasFoldASCIIPrefixBytes line search =
     (if length search > length line then False
      else list_all (\<lambda>i. lowerASCII (line ! i) = search ! i) [1..<length search])"

fun line_fold_search :: "nat \<Rightarrow> string \<Rightarrow> string \<Rightarrow> bool" where
  "line_fold_search 0 line search = False"
| "line_fold_search (Suc k) line search =
     (if lowerASCII (hd line) \<noteq> hd search then line_fold_search k (tl line) search
      else if hasFoldASCIIPrefixBytes line search then True
      else line_fold_search k (tl line) search)"

definition containsFoldASCIIBytes :: "string \<Rightarrow> string \<Rightarrow> bool" where
  "containsFoldASCIIBytes line search =
     (if search = [] then True
      else if length search > length line then False
      else line_fold_search (Suc (length line - length search)) line search)"

definition matchLineBytes :: "unicode \<Rightarrow> query_filter \<Rightarrow> string \<Rightarrow> bool" where
  "matchLineBytes U q line =
     (if qf_search q = [] then True
      else if qf_searchASCII q then containsFoldASCIIBytes line (qf_search q)
      else contains_str (to_lower U line) (qf_search q))"

definition isJSONSpace :: "char \<Rightarrow> bool" where
  "isJSONSpace c = (c = CHR '' '' \<or> c = newline \<or> c = return_char \<or> c = CHR 0x09)"

text \<open>What follows a string; the argument starts after its opening quote.\<close>

function skipJSONString :: "string \<Rightarrow> string option" where
  "skipJSONString [] = None"
| "skipJSONString (c # cs) =
     (if c = CHR 0x5C then skipJSONString (drop 1 cs)
      else if c = CHR 0x22 then Some cs else skipJSONString cs)"
  by pat_completeness auto
termination by (relation "measure length") auto

lemma skip_string_length: "skipJSONString s = Some r \<Longrightarrow> length r < length s"
  by (induction s rule: skipJSONString.induct) (auto split: if_splits)

text \<open>The value of a field whose name starts here, after its quote.\<close>

definition rawJSONTopLevelFieldValueAt :: "string \<Rightarrow> string \<Rightarrow> string option" where
  "rawJSONTopLevelFieldValueAt s field =
     (if length field < length s \<and> s ! length field = CHR 0x22 \<and> take (length field) s = field
      then (case dropWhile isJSONSpace (drop (length field + 1) s) of
              [] \<Rightarrow> None
            | c # r \<Rightarrow>
                if c \<noteq> CHR '':'' then None
                else (let v = dropWhile isJSONSpace r in if v = [] then None else Some v))
      else None)"

function raw_field_value :: "nat \<Rightarrow> string \<Rightarrow> string \<Rightarrow> string option" where
  "raw_field_value depth [] field = None"
| "raw_field_value depth (c # cs) field =
     (if c = CHR 0x22
      then (case (if depth = 1 then rawJSONTopLevelFieldValueAt cs field else None) of
              Some v \<Rightarrow> Some v
            | None \<Rightarrow>
                (case skipJSONString cs of
                   None \<Rightarrow> None
                 | Some r \<Rightarrow> raw_field_value depth r field))
      else if c = CHR ''{'' \<or> c = CHR ''['' then raw_field_value (depth + 1) cs field
      else if c = CHR ''}'' \<or> c = CHR '']''
           then (if depth = 0 then None else raw_field_value (depth - 1) cs field)
      else raw_field_value depth cs field)"
  by pat_completeness auto
termination
  by (relation "measure (\<lambda>(depth, s, field). length s)") (auto dest: skip_string_length)

definition rawJSONFieldValue :: "string \<Rightarrow> string \<Rightarrow> string option" where
  "rawJSONFieldValue line field = raw_field_value 0 line field"

definition rawJSONIntField :: "string \<Rightarrow> string \<Rightarrow> int \<times> bool" where
  "rawJSONIntField line field =
     (case rawJSONFieldValue line field of
        None \<Rightarrow> (0, False)
      | Some v \<Rightarrow>
          let ds = takeWhile is_digit v
          in (foldl (\<lambda>n c. wrap64 (n * 10 + int (digit_val c))) 0 ds, ds \<noteq> []))"

definition rawJSONBoolField :: "string \<Rightarrow> string \<Rightarrow> bool \<times> bool" where
  "rawJSONBoolField line field =
     (case rawJSONFieldValue line field of
        None \<Rightarrow> (False, False)
      | Some v \<Rightarrow>
          if prefix ''true'' v then (True, True)
          else if prefix ''false'' v then (False, True) else (False, False))"

definition matchStatus :: "query_filter \<Rightarrow> int \<Rightarrow> bool" where
  "matchStatus q status =
     (if qf_exactStatuses q = [] \<and> qf_statusClasses q = [] then True
      else if status \<in> set (qf_exactStatuses q) then True
      else (if status < 0 then - (- status div 100) else status div 100) \<in> set (qf_statusClasses q))"

definition matchLoggedIn :: "query_filter \<Rightarrow> bool \<Rightarrow> bool" where
  "matchLoggedIn q loggedIn = (case qf_loggedIn q of None \<Rightarrow> True | Some b \<Rightarrow> b = loggedIn)"

definition matchRawEntryFields :: "query_filter \<Rightarrow> string \<Rightarrow> bool" where
  "matchRawEntryFields q line =
     (if (qf_exactStatuses q \<noteq> [] \<or> qf_statusClasses q \<noteq> []) \<and>
         \<not> matchStatus q (fst (rawJSONIntField line ''status'')) then False
      else if qf_loggedIn q \<noteq> None \<and> \<not> matchLoggedIn q (fst (rawJSONBoolField line ''logged_in''))
           then False
      else True)"

definition jsonLogLineLooksLikeEntryObject :: "string \<Rightarrow> bool" where
  "jsonLogLineLooksLikeEntryObject line =
     (case dropWhile isJSONSpace line of [] \<Rightarrow> False | c # _ \<Rightarrow> c = CHR ''{'')"

section \<open>Tests on an entry\<close>

definition entryHasRecordedCredential :: "log_entry \<Rightarrow> bool" where
  "entryHasRecordedCredential e =
     (trim_space (le_AuthCredentialID e) \<noteq> [] \<or> trim_space (le_AuthLinkedTOTPID e) \<noteq> [])"

definition entryNeedsCredentialContext :: "log_entry \<Rightarrow> bool" where
  "entryNeedsCredentialContext e =
     (if le_LoggedIn e then True else equal_fold (trim_space (le_AuthDecision e)) ''access_denied'')"

definition matchCredential :: "query_lib \<Rightarrow> query_filter \<Rightarrow> log_entry \<Rightarrow> bool" where
  "matchCredential L q e =
     (if qf_credential q = [] then True
      else if qf_credential q = unrecordedCredentialFilter
           then \<not> entryHasRecordedCredential e \<and> entryNeedsCredentialContext e
      else list_ex (\<lambda>v. ql_fold L (trim_space v) (qf_credential q))
             [le_AuthCredentialID e, le_AuthLinkedTOTPID e])"

definition matchEntry :: "query_lib \<Rightarrow> query_filter \<Rightarrow> log_entry \<Rightarrow> bool" where
  "matchEntry L q e =
     (matchStatus q (le_Status e) \<and> matchLoggedIn q (le_LoggedIn e) \<and> matchCredential L q e)"

definition needsDecodedEntryFilter :: "query_filter \<Rightarrow> bool" where
  "needsDecodedEntryFilter q = (qf_credential q \<noteq> [])"

section \<open>Reading forwards\<close>

text \<open>
  A file that may be missing or unreadable.  The scanner of \<^verbatim>\<open>bufio\<close> hands out the lines with
  one carriage return cut off; a line that fills its largest buffer ends the scan with an error.
\<close>

datatype log_file = Log_Missing | Log_Denied | Log_Text string

definition maxScanToken :: nat where
  "maxScanToken = 8 * 1024 * 1024"

definition dropCR :: "string \<Rightarrow> string" where
  "dropCR l = (if l \<noteq> [] \<and> last l = return_char then butlast l else l)"

definition raw_lines :: "string \<Rightarrow> string list" where
  "raw_lines t = (let ls = split_byte newline t in if last ls = [] then butlast ls else ls)"

definition scan_lines :: "string \<Rightarrow> string list \<times> bool" where
  "scan_lines t =
     (let ls = raw_lines t
      in (map dropCR (takeWhile (\<lambda>l. length l < maxScanToken) ls),
          list_ex (\<lambda>l. maxScanToken \<le> length l) ls))"

section \<open>The ring of the last lines\<close>

record tail_window =
  tw_lines :: "string list"
  tw_start :: nat
  tw_count :: nat

definition newRawLineTailWindow :: "int \<Rightarrow> tail_window" where
  "newRawLineTailWindow capacity =
     \<lparr>tw_lines = (if capacity \<le> 0 then [] else replicate (nat capacity) []), tw_start = 0, tw_count = 0\<rparr>"

definition tail_Add :: "string \<Rightarrow> tail_window \<Rightarrow> tail_window" where
  "tail_Add line w =
     (if tw_lines w = [] then w
      else let n = length (tw_lines w)
           in if tw_count w = n
              then w\<lparr>tw_lines := (tw_lines w)[tw_start w := line], tw_start := (tw_start w + 1) mod n\<rparr>
              else w\<lparr>tw_lines := (tw_lines w)[(tw_start w + tw_count w) mod n := line],
                     tw_count := tw_count w + 1\<rparr>)"

definition tail_line :: "tail_window \<Rightarrow> nat \<Rightarrow> string" where
  "tail_line w i = tw_lines w ! ((tw_start w + i) mod length (tw_lines w))"

text \<open>The entries of a range of the ring, last first; no result when one does not decode.\<close>

definition DecodeEntriesDescending :: "query_lib \<Rightarrow> tail_window \<Rightarrow> int \<Rightarrow> int \<Rightarrow> log_entry list option" where
  "DecodeEntriesDescending L w start endIndex =
     (if tw_lines w = [] \<or> start < 0 \<or> endIndex < start \<or> endIndex > int (tw_count w) then Some []
      else (let es = map (\<lambda>i. ql_entry L (tail_line w i)) [nat start..<nat endIndex]
            in if None \<in> set es then None else Some (rev (map the es))))"

section \<open>Pages\<close>

text \<open>The test on a raw line before anything is decoded, and the two tests that accept a line.\<close>

definition line_passes :: "query_lib \<Rightarrow> query_filter \<Rightarrow> string \<Rightarrow> bool" where
  "line_passes L q line =
     (if \<not> matchLineBytes (ql_unicode L) q line then False
      else if \<not> jsonLogLineLooksLikeEntryObject line \<or> \<not> matchRawEntryFields q line then False
      else True)"

definition decoded_match :: "query_lib \<Rightarrow> query_filter \<Rightarrow> string \<Rightarrow> log_entry option" where
  "decoded_match L q line =
     (if \<not> line_passes L q line then None
      else (case ql_entry L line of
              None \<Rightarrow> None
            | Some e \<Rightarrow> if matchEntry L q e then Some e else None))"

definition raw_match :: "query_lib \<Rightarrow> query_filter \<Rightarrow> string \<Rightarrow> bool" where
  "raw_match L q line =
     (if \<not> line_passes L q line then False
      else if needsDecodedEntryFilter q
           then (case ql_entry L line of None \<Rightarrow> False | Some e \<Rightarrow> matchEntry L q e)
      else ql_valid L line)"

fun tail_loop :: "query_lib \<Rightarrow> query_filter \<Rightarrow> string list \<Rightarrow> tail_window \<Rightarrow> int \<Rightarrow> tail_window \<times> int" where
  "tail_loop L q [] w found = (w, found)"
| "tail_loop L q (line # ls) w found =
     (if raw_match L q line then tail_loop L q ls (tail_Add line w) (found + 1)
      else tail_loop L q ls w found)"

definition scanMatchingRawLinesToTail ::
    "query_lib \<Rightarrow> log_file \<Rightarrow> query_filter \<Rightarrow> tail_window \<Rightarrow> query_error + tail_window \<times> int" where
  "scanMatchingRawLinesToTail L file q w =
     (case file of
        Log_Missing \<Rightarrow> Inr (w, 0)
      | Log_Denied \<Rightarrow> Inl Log_Unreadable
      | Log_Text t \<Rightarrow>
          (case scan_lines t of (ls, tooLong) \<Rightarrow>
             if tooLong then Inl Log_Line_Too_Long else Inr (tail_loop L q ls w 0)))"

text \<open>
  The scan over the decoded matches, with a callback on the match and its index that may end it
  (the first component of the result: ended by the callback).
\<close>

fun match_loop :: "query_lib \<Rightarrow> query_filter \<Rightarrow> (log_entry \<Rightarrow> int \<Rightarrow> 's \<Rightarrow> 's \<times> bool) \<Rightarrow> string list \<Rightarrow>
    int \<Rightarrow> 's \<Rightarrow> bool \<times> int \<times> 's" where
  "match_loop L q onMatch [] found s = (False, found, s)"
| "match_loop L q onMatch (line # ls) found s =
     (case decoded_match L q line of
        None \<Rightarrow> match_loop L q onMatch ls found s
      | Some e \<Rightarrow>
          (case onMatch e found s of (s1, stop) \<Rightarrow>
             if stop then (True, found, s1) else match_loop L q onMatch ls (found + 1) s1))"

definition scanMatchingEntries ::
    "query_lib \<Rightarrow> log_file \<Rightarrow> query_filter \<Rightarrow> (log_entry \<Rightarrow> int \<Rightarrow> 's \<Rightarrow> 's \<times> bool) \<Rightarrow> 's \<Rightarrow>
     query_error + int \<times> 's" where
  "scanMatchingEntries L file q onMatch s =
     (case file of
        Log_Missing \<Rightarrow> Inr (0, s)
      | Log_Denied \<Rightarrow> Inl Log_Unreadable
      | Log_Text t \<Rightarrow>
          (case scan_lines t of (ls, tooLong) \<Rightarrow>
             (case match_loop L q onMatch ls 0 s of (stopped, found, s1) \<Rightarrow>
                if stopped then Inr (found, s1)
                else if tooLong then Inl Log_Line_Too_Long else Inr (found, s1))))"

definition collectMatchingEntries ::
    "query_lib \<Rightarrow> log_file \<Rightarrow> query_filter \<Rightarrow> int \<Rightarrow> int \<Rightarrow> query_error + log_entry list" where
  "collectMatchingEntries L file q start endIndex =
     (case scanMatchingEntries L file q
        (\<lambda>e matchIndex items. if matchIndex < start then (items, False)
           else if matchIndex \<ge> endIndex then (items, True) else (items @ [e], False)) [] of
        Inl err \<Rightarrow> Inl err
      | Inr (_, items) \<Rightarrow> Inr items)"

definition resolveForwardWindow :: "int \<Rightarrow> int \<Rightarrow> int \<Rightarrow> int \<times> int" where
  "resolveForwardWindow found page limit =
     (let startDesc = wrap64 (wrap64 (page - 1) * limit)
      in if startDesc \<ge> found then (found, found)
         else (let endDesc = wrap64 (startDesc + limit);
                   endDesc = (if endDesc > found then found else endDesc)
               in (wrap64 (found - endDesc), wrap64 (found - startDesc))))"

type_synonym page_result = "log_entry list \<times> int \<times> bool"

definition queryEntriesStreamingTwoPass ::
    "query_lib \<Rightarrow> log_file \<Rightarrow> query_filter \<Rightarrow> int \<Rightarrow> int \<Rightarrow> query_error + page_result" where
  "queryEntriesStreamingTwoPass L file q page limit =
     (case scanMatchingEntries L file q (\<lambda>e i s. (s, False)) () of
        Inl err \<Rightarrow> Inl err
      | Inr (found, _) \<Rightarrow>
          (case resolveForwardWindow found page limit of (forwardStart, forwardEnd) \<Rightarrow>
             if forwardStart = forwardEnd then Inr ([], found, False)
             else (case collectMatchingEntries L file q forwardStart forwardEnd of
                     Inl err \<Rightarrow> Inl err
                   | Inr items \<Rightarrow> Inr (rev items, found, forwardStart > 0))))"

definition queryEntriesStreamingRawTail ::
    "query_lib \<Rightarrow> log_file \<Rightarrow> query_filter \<Rightarrow> int \<Rightarrow> int \<Rightarrow> int \<Rightarrow> query_error + page_result" where
  "queryEntriesStreamingRawTail L file q page limit windowSize =
     (case scanMatchingRawLinesToTail L file q (newRawLineTailWindow windowSize) of
        Inl err \<Rightarrow> Inl err
      | Inr (w, found) \<Rightarrow>
          (case resolveForwardWindow found page limit of (forwardStart, forwardEnd) \<Rightarrow>
             if forwardStart = forwardEnd then Inr ([], found, False)
             else let tailStart = found - int (tw_count w)
                  in if forwardStart < tailStart then queryEntriesStreamingTwoPass L file q page limit
                     else (case DecodeEntriesDescending L w (forwardStart - tailStart) (forwardEnd - tailStart) of
                             None \<Rightarrow> queryEntriesStreamingTwoPass L file q page limit
                           | Some items \<Rightarrow> Inr (items, found, forwardStart > 0))))"

definition pageQueryTailWindowMaxEntries :: int where
  "pageQueryTailWindowMaxEntries = 10000"

definition queryEntries ::
    "query_lib \<Rightarrow> log_file \<Rightarrow> query_filter \<Rightarrow> int \<Rightarrow> int \<Rightarrow> query_error + page_result" where
  "queryEntries L file q page limit =
     (let page = (if page \<le> 0 then 1 else page); limit = (if limit \<le> 0 then 20 else limit)
      in if page > max_int64 div limit then queryEntriesStreamingTwoPass L file q page limit
         else let windowSize = page * limit
              in if windowSize > pageQueryTailWindowMaxEntries
                 then queryEntriesStreamingTwoPass L file q page limit
                 else queryEntriesStreamingRawTail L file q page limit windowSize)"

section \<open>Cursors\<close>

definition resolveCursorOffset :: "nat \<Rightarrow> string \<Rightarrow> query_error + nat \<times> string" where
  "resolveCursorOffset fileSize cursor =
     (let t = trim_space cursor
      in if t = [] then Inr (fileSize, [])
         else (case atoi t of
                 None \<Rightarrow> Inl Invalid_Cursor
               | Some offset \<Rightarrow>
                   if offset < 0 \<or> offset > int fileSize then Inl Cursor_Out_Of_Range
                   else Inr (nat offset, t)))"

record cursor_state =
  cs_items :: "log_entry list"
  cs_oldest :: nat
  cs_more :: bool

definition cursor_line :: "query_lib \<Rightarrow> query_filter \<Rightarrow> nat \<Rightarrow> cursor_state \<Rightarrow> string \<Rightarrow> nat \<Rightarrow> cursor_state \<times> bool" where
  "cursor_line L q limit s line lineStart =
     (case decoded_match L q line of
        None \<Rightarrow> (s, True)
      | Some e \<Rightarrow>
          if length (cs_items s) = limit then (s\<lparr>cs_more := True\<rparr>, False)
          else (s\<lparr>cs_items := cs_items s @ [e], cs_oldest := lineStart\<rparr>, True))"

type_synonym cursor_result = "log_entry list \<times> string \<times> bool \<times> string"

definition queryEntriesByCursor ::
    "query_lib \<Rightarrow> log_file \<Rightarrow> query_filter \<Rightarrow> string \<Rightarrow> nat \<Rightarrow> query_error + cursor_result" where
  "queryEntriesByCursor L file q cursor limit =
     (case file of
        Log_Missing \<Rightarrow> Inr ([], [], False, [])
      | Log_Denied \<Rightarrow> Inl Log_Unreadable
      | Log_Text t \<Rightarrow>
          (case resolveCursorOffset (length t) cursor of
             Inl e \<Rightarrow> Inl e
           | Inr (endOffset, resolvedCursor) \<Rightarrow>
               if endOffset = 0 then Inr ([], [], False, resolvedCursor)
               else let s = scanLinesBackward cursorChunkSize t endOffset (cursor_line L q limit)
                              \<lparr>cs_items = [], cs_oldest = 0, cs_more = False\<rparr>
                    in Inr (cs_items s,
                            (if cs_more s \<and> cs_oldest s > 0 then itoa (int (cs_oldest s)) else []),
                            cs_more s, resolvedCursor)))"

section \<open>The ring holds the last lines\<close>

definition last_n :: "nat \<Rightarrow> 'a list \<Rightarrow> 'a list" where
  "last_n n xs = drop (length xs - n) xs"

definition tail_content :: "tail_window \<Rightarrow> string list" where
  "tail_content w = map (tail_line w) [0..<tw_count w]"

definition tail_ok :: "tail_window \<Rightarrow> bool" where
  "tail_ok w = (tw_count w \<le> length (tw_lines w) \<and> (tw_lines w = [] \<or> tw_start w < length (tw_lines w)))"

lemma mod_shift_ne:
  assumes "i < k" "k < n"
  shows "(s + i) mod n \<noteq> (s + k) mod (n :: nat)"
proof
  assume "(s + i) mod n = (s + k) mod n"
  then have "n dvd (s + k) - (s + i)" using assms by (intro mod_eq_dvd_iff_nat [THEN iffD1]) auto
  then show False using assms by (auto dest: dvd_imp_le)
qed

lemma tail_Add_content:
  assumes "tail_ok w" "tw_lines w \<noteq> []"
  shows "tail_content (tail_Add l w) = last_n (length (tw_lines w)) (tail_content w @ [l]) \<and>
    tail_ok (tail_Add l w) \<and> length (tw_lines (tail_Add l w)) = length (tw_lines w)"
proof -
  let ?n = "length (tw_lines w)" and ?k = "tw_count w" and ?s = "tw_start w"
  have n: "0 < ?n" "?k \<le> ?n" "?s < ?n" using assms by (auto simp: tail_ok_def)
  show ?thesis
  proof (cases "?k = ?n")
    case True
    let ?w = "tail_Add l w"
    have w: "tw_lines ?w = (tw_lines w)[?s := l]" "tw_start ?w = (?s + 1) mod ?n" "tw_count ?w = ?n"
      using True assms by (simp_all add: tail_Add_def Let_def)
    have line: "tail_line ?w i = (if Suc i = ?n then l else tail_line w (Suc i))" if "i < ?n" for i
    proof (cases "Suc i = ?n")
      case True
      have "((?s + 1) mod ?n + i) mod ?n = (?s + ?n) mod ?n"
        using True by (metis add.assoc add.commute mod_add_left_eq plus_1_eq_Suc)
      then show ?thesis using True n by (simp add: tail_line_def w)
    next
      case False
      have "((?s + 1) mod ?n + i) mod ?n = (?s + Suc i) mod ?n" by (simp add: mod_add_left_eq)
      moreover have "(?s + 0) mod ?n \<noteq> (?s + Suc i) mod ?n" using False that by (intro mod_shift_ne) auto
      ultimately show ?thesis using False n by (simp add: tail_line_def w)
    qed
    have "tail_content ?w = tl (tail_content w) @ [l]"
    proof (rule nth_equalityI)
      show "length (tail_content ?w) = length (tl (tail_content w) @ [l])"
        using True n by (simp add: tail_content_def w)
      fix i assume "i < length (tail_content ?w)"
      then have i: "i < ?n" by (simp add: tail_content_def w)
      show "tail_content ?w ! i = (tl (tail_content w) @ [l]) ! i"
        using i True line [OF i] by (auto simp: tail_content_def w nth_append nth_tl)
    qed
    moreover have "last_n ?n (tail_content w @ [l]) = tl (tail_content w) @ [l]"
    proof -
      have len: "length (tail_content w) = ?n" using True by (simp add: tail_content_def)
      with n obtain x xs where "tail_content w = x # xs" by (cases "tail_content w") auto
      with len show ?thesis by (simp add: last_n_def)
    qed
    ultimately show ?thesis using n by (simp add: tail_ok_def w)
  next
    case False
    let ?w = "tail_Add l w"
    have kn: "?k < ?n" using False n by simp
    have w: "tw_lines ?w = (tw_lines w)[(?s + ?k) mod ?n := l]" "tw_start ?w = ?s" "tw_count ?w = ?k + 1"
      using False assms by (simp_all add: tail_Add_def Let_def)
    have "tail_line ?w i = tail_line w i" if "i < ?k" for i
      using mod_shift_ne [OF that kn, of ?s] by (simp add: tail_line_def w)
    moreover have "tail_line ?w ?k = l" using n by (simp add: tail_line_def w)
    ultimately have "tail_content ?w = tail_content w @ [l]"
      by (simp add: tail_content_def w)
    moreover have "last_n ?n (tail_content w @ [l]) = tail_content w @ [l]"
      using kn by (simp add: last_n_def tail_content_def)
    ultimately show ?thesis using n kn by (simp add: tail_ok_def w)
  qed
qed

lemma last_n_snoc: "last_n n (last_n n xs @ ys) = last_n n (xs @ ys)"
  by (cases "n \<le> length xs") (simp_all add: last_n_def add.commute)

text \<open>The loop keeps the last of the matching lines.\<close>

lemma tail_loop_spec:
  assumes "tail_ok w" "tw_lines w \<noteq> []"
  shows "case tail_loop L q ls w n of (w1, m) \<Rightarrow>
     m = n + int (length (filter (raw_match L q) ls)) \<and>
     tail_content w1 = last_n (length (tw_lines w)) (tail_content w @ filter (raw_match L q) ls) \<and>
     tail_ok w1 \<and> length (tw_lines w1) = length (tw_lines w)"
  using assms
proof (induction L q ls w n rule: tail_loop.induct)
  case (1 L q w n)
  then show ?case by (auto simp: last_n_def tail_content_def tail_ok_def)
next
  case (2 L q line ls w n)
  show ?case
  proof (cases "raw_match L q line")
    case True
    have a: "tail_ok (tail_Add line w)" "length (tw_lines (tail_Add line w)) = length (tw_lines w)"
      "tail_content (tail_Add line w) = last_n (length (tw_lines w)) (tail_content w @ [line])"
      using tail_Add_content [OF 2(3,4), of line] by auto
    moreover from a(2) 2(4) have "tw_lines (tail_Add line w) \<noteq> []" by auto
    ultimately show ?thesis using True 2(1) [OF True] by (auto simp: last_n_snoc split: prod.splits)
  next
    case False
    then show ?thesis using 2(2) [OF False 2(3,4)] by simp
  qed
qed

section \<open>Every way of reading a page gives that page\<close>

text \<open>
  What is asked for: the entries of the lines that contain the text and decode to an entry that
  the filter accepts.  On lines as the log writes them, where a line is valid exactly when it
  decodes and the two raw fields are the decoded ones, the tests on the raw line do not show.
\<close>

definition wanted_entry :: "query_lib \<Rightarrow> query_filter \<Rightarrow> string \<Rightarrow> log_entry option" where
  "wanted_entry L q line =
     (if matchLineBytes (ql_unicode L) q line \<and> jsonLogLineLooksLikeEntryObject line
      then (case ql_entry L line of
              None \<Rightarrow> None
            | Some e \<Rightarrow> if matchEntry L q e then Some e else None)
      else None)"

definition entry_line :: "query_lib \<Rightarrow> string \<Rightarrow> bool" where
  "entry_line L line =
     (case ql_entry L line of
        None \<Rightarrow> \<not> ql_valid L line
      | Some e \<Rightarrow> ql_valid L line \<and> le_Status e = fst (rawJSONIntField line ''status'') \<and>
                  le_LoggedIn e = fst (rawJSONBoolField line ''logged_in''))"

lemma raw_fields_decoded:
  assumes "entry_line L line" "ql_entry L line = Some e"
  shows "matchRawEntryFields q line \<longleftrightarrow> matchStatus q (le_Status e) \<and> matchLoggedIn q (le_LoggedIn e)"
  using assms by (auto simp: entry_line_def matchRawEntryFields_def matchStatus_def matchLoggedIn_def)

lemma decoded_wanted: "entry_line L line \<Longrightarrow> decoded_match L q line = wanted_entry L q line"
  by (auto simp: decoded_match_def wanted_entry_def line_passes_def matchEntry_def raw_fields_decoded
      split: option.splits)

lemma raw_wanted: "entry_line L line \<Longrightarrow> raw_match L q line \<longleftrightarrow> wanted_entry L q line \<noteq> None"
  by (auto simp: raw_match_def wanted_entry_def line_passes_def matchEntry_def raw_fields_decoded
      needsDecodedEntryFilter_def matchCredential_def entry_line_def split: option.splits)

definition wanted_entries :: "query_lib \<Rightarrow> query_filter \<Rightarrow> string list \<Rightarrow> log_entry list" where
  "wanted_entries L q ls = List.map_filter (wanted_entry L q) ls"

definition page_of :: "int \<Rightarrow> int \<Rightarrow> 'a list \<Rightarrow> 'a list" where
  "page_of page limit xs = take (nat limit) (drop (nat ((page - 1) * limit)) xs)"

lemma wanted_filter:
  assumes "\<forall>line \<in> set ls. entry_line L line"
  shows "map (\<lambda>l. the (ql_entry L l)) (filter (raw_match L q) ls) = wanted_entries L q ls \<and>
    (\<forall>l \<in> set (filter (raw_match L q) ls). ql_entry L l \<noteq> None)"
  using assms
proof (induction ls)
  case (Cons l ls)
  then have "raw_match L q l \<longleftrightarrow> wanted_entry L q l \<noteq> None" by (intro raw_wanted) simp
  moreover have "wanted_entry L q l = Some e \<Longrightarrow> ql_entry L l = Some e" for e
    by (auto simp: wanted_entry_def split: if_splits option.splits)
  ultimately show ?case using Cons by (auto simp: wanted_entries_def map_filter_simps split: option.splits)
qed (simp add: wanted_entries_def map_filter_simps)

text \<open>The two passes over the decoded matches.\<close>

lemma match_count:
  assumes "\<forall>line \<in> set ls. entry_line L line"
  shows "match_loop L q (\<lambda>e i s. (s, False)) ls n s = (False, n + int (length (wanted_entries L q ls)), s)"
  using assms
  by (induction ls arbitrary: n) (auto simp: decoded_wanted wanted_entries_def map_filter_simps split: option.splits)

lemma match_collect:
  assumes "\<forall>line \<in> set ls. entry_line L line" "start \<le> endIndex"
  shows "\<exists>stopped m. match_loop L q (\<lambda>e matchIndex items. if matchIndex < start then (items, False)
           else if matchIndex \<ge> endIndex then (items, True) else (items @ [e], False)) ls n items =
     (stopped, m, items @ drop (nat (start - n)) (take (nat (endIndex - n)) (wanted_entries L q ls)))"
  using assms
proof (induction ls arbitrary: n items)
  case (Cons l ls)
  show ?case
  proof (cases "wanted_entry L q l")
    case None
    then show ?thesis using Cons by (auto simp: decoded_wanted wanted_entries_def map_filter_simps)
  next
    case (Some e)
    then have w: "decoded_match L q l = Some e" "wanted_entries L q (l # ls) = e # wanted_entries L q ls"
      using Cons.prems by (simp_all add: decoded_wanted wanted_entries_def map_filter_simps)
    note IH = Cons.IH [of "n + 1"]
    consider "n < start" | "start \<le> n" "n < endIndex" | "endIndex \<le> n" "start \<le> n" using Cons.prems by linarith
    then show ?thesis
    proof cases
      case 1
      then have "nat (start - n) = Suc (nat (start - (n + 1)))" "nat (endIndex - n) = Suc (nat (endIndex - (n + 1)))"
        using Cons.prems by simp_all
      moreover obtain st m where "match_loop L q (\<lambda>e matchIndex items. if matchIndex < start then (items, False)
           else if matchIndex \<ge> endIndex then (items, True) else (items @ [e], False)) ls (n + 1) items =
         (st, m, items @ drop (nat (start - (n + 1))) (take (nat (endIndex - (n + 1))) (wanted_entries L q ls)))"
        using IH [of items] Cons.prems by auto
      ultimately show ?thesis using 1 by (simp add: w)
    next
      case 2
      then have "nat (start - n) = 0" "nat (start - (n + 1)) = 0" "nat (endIndex - n) = Suc (nat (endIndex - (n + 1)))"
        by simp_all
      moreover obtain st m where "match_loop L q (\<lambda>e matchIndex items. if matchIndex < start then (items, False)
           else if matchIndex \<ge> endIndex then (items, True) else (items @ [e], False)) ls (n + 1) (items @ [e]) =
         (st, m, (items @ [e]) @ drop (nat (start - (n + 1))) (take (nat (endIndex - (n + 1))) (wanted_entries L q ls)))"
        using IH [of "items @ [e]"] Cons.prems by auto
      ultimately show ?thesis using 2 by (simp add: w)
    next
      case 3
      then show ?thesis by (intro exI [of _ True] exI [of _ n]) (simp add: w)
    qed
  qed
qed (auto simp: wanted_entries_def map_filter_simps)

text \<open>The window of a page, when the multiplication stays in range.\<close>

lemma forward_window:
  assumes "1 \<le> page" "1 \<le> limit" "page \<le> max_int64 div limit" "0 \<le> n" "n \<le> max_int64"
  shows "resolveForwardWindow n page limit =
    (if (page - 1) * limit \<ge> n then (n, n)
     else (n - min n (page * limit), n - (page - 1) * limit))"
proof -
  have pl: "page * limit \<le> max_int64"
  proof -
    have "page * limit \<le> max_int64 div limit * limit" using assms by (intro mult_right_mono) auto
    also have "\<dots> \<le> max_int64"
      using assms by (metis mult.commute mult_div_mod_eq le_add_same_cancel1 pos_mod_sign less_le_trans zero_less_one)
    finally show ?thesis .
  qed
  have m: "(page - 1) * limit = page * limit - limit" by (simp add: algebra_simps)
  have p0: "0 \<le> (page - 1) * limit" using assms by simp
  have pp: "page \<le> max_int64"
  proof -
    have "page * 1 \<le> page * limit" using assms by (intro mult_left_mono) auto
    with pl show ?thesis by simp
  qed
  have w1: "wrap64 (page - 1) = page - 1" using pp assms by (intro wrap64_id) (simp_all add: min_int64_def)
  have w2: "wrap64 ((page - 1) * limit) = (page - 1) * limit"
  proof (rule wrap64_id)
    show "min_int64 \<le> (page - 1) * limit" using p0 by (simp add: min_int64_def)
    show "(page - 1) * limit \<le> max_int64" using pl m assms by linarith
  qed
  have w3: "wrap64 ((page - 1) * limit + limit) = page * limit"
  proof -
    have e: "(page - 1) * limit + limit = page * limit" using m by simp
    have "0 \<le> page * limit" using assms by simp
    then have "min_int64 \<le> page * limit" by (simp add: min_int64_def)
    then show ?thesis unfolding e using pl by (rule wrap64_id)
  qed
  have w4: "wrap64 (n - x) = n - x" if "0 \<le> x" "x \<le> n" for x
    using that assms by (intro wrap64_id) (simp_all add: min_int64_def)
  show ?thesis
  proof (cases "(page - 1) * limit \<ge> n")
    case True
    then show ?thesis unfolding resolveForwardWindow_def w1 w2 Let_def by simp
  next
    case False
    have "wrap64 (n - (page - 1) * limit) = n - (page - 1) * limit" using p0 False by (intro w4) simp_all
    moreover have "wrap64 (n - min n (page * limit)) = n - min n (page * limit)"
      using assms by (intro w4) simp_all
    moreover have "(if page * limit > n then n else page * limit) = min n (page * limit)" by simp
    ultimately show ?thesis
      unfolding resolveForwardWindow_def w1 w2 w3 Let_def using False by (simp only: if_False)
  qed
qed

lemma page_slice:
  assumes "1 \<le> page" "1 \<le> limit" "(page - 1) * limit < int (length xs)"
  shows "rev (drop (nat (int (length xs) - min (int (length xs)) (page * limit)))
           (take (nat (int (length xs) - (page - 1) * limit)) xs)) = page_of page limit (rev xs)"
proof -
  let ?n = "length xs" and ?sd = "nat ((page - 1) * limit)" and ?lm = "nat limit"
  have p0: "0 \<le> (page - 1) * limit" using assms by simp
  have sd: "?sd < ?n" using assms p0 by linarith
  have pl: "page * limit = int (?sd + ?lm)" using assms p0 by (simp add: algebra_simps)
  have a: "nat (int ?n - min (int ?n) (page * limit)) = ?n - min ?n (?sd + ?lm)"
  proof -
    have "nat (int i - min (int i) (int k)) = i - min i k" for i k by (simp add: min_def nat_diff_distrib')
    then show ?thesis unfolding pl by blast
  qed
  have b: "nat (int ?n - (page - 1) * limit) = ?n - ?sd" using p0 by linarith
  have "length (take (?n - ?sd) xs) - (?n - min ?n (?sd + ?lm)) = min (?n - ?sd) ?lm"
    using sd by (simp add: min_def)
  moreover have "rev (take (?n - ?sd) xs) = drop ?sd (rev xs)" using sd by (simp add: rev_take)
  ultimately have "rev (drop (?n - min ?n (?sd + ?lm)) (take (?n - ?sd) xs)) = take (min (?n - ?sd) ?lm) (drop ?sd (rev xs))"
    by (simp only: rev_drop)
  also have "\<dots> = take ?lm (drop ?sd (rev xs))" by (simp add: min_def)
  finally show ?thesis by (simp only: a b page_of_def)
qed

text \<open>A log the page queries can read: no line fills the scanner's buffer, every line is an entry's.\<close>

definition day_log_ok :: "query_lib \<Rightarrow> string \<Rightarrow> bool" where
  "day_log_ok L t =
     (int (length t) < max_int64 \<and> (\<forall>l \<in> set (raw_lines t). length l < maxScanToken \<and> entry_line L (dropCR l)))"

definition day_lines :: "string \<Rightarrow> string list" where
  "day_lines t = map dropCR (raw_lines t)"

lemma scan_lines_ok: "day_log_ok L t \<Longrightarrow> scan_lines t = (day_lines t, False)"
proof -
  assume "day_log_ok L t"
  then have s: "\<forall>l \<in> set (raw_lines t). length l < maxScanToken" by (simp add: day_log_ok_def)
  then have tw: "takeWhile (\<lambda>l. length l < maxScanToken) (raw_lines t) = raw_lines t" by (simp add: takeWhile_eq_all_conv)
  have "\<not> list_ex (\<lambda>l. maxScanToken \<le> length l) (raw_lines t)" using s by (auto simp: list_ex_iff)
  then show ?thesis by (simp add: scan_lines_def day_lines_def tw del: takeWhile_eq_all_conv)
qed

lemma day_entry_lines: "day_log_ok L t \<Longrightarrow> \<forall>line \<in> set (day_lines t). entry_line L line"
  by (auto simp: day_log_ok_def day_lines_def)

lemma split_byte_length: "length (split_byte c t) \<le> length t + 1"
proof (induction t)
  case (Cons x t)
  then show ?case by (cases "split_byte c t") auto
qed simp

lemma map_filter_length: "length (List.map_filter f xs) \<le> length xs"
  by (induction xs) (auto simp: map_filter_simps split: option.splits)

lemma wanted_bound:
  assumes "day_log_ok L t"
  shows "int (length (wanted_entries L q (day_lines t))) \<le> max_int64"
proof -
  have "length (wanted_entries L q (day_lines t)) \<le> length (raw_lines t)"
    using map_filter_length [of "wanted_entry L q" "day_lines t"] by (simp add: wanted_entries_def day_lines_def)
  also have "\<dots> \<le> length (split_byte newline t)" by (simp add: raw_lines_def Let_def)
  also have "\<dots> \<le> length t + 1" by (rule split_byte_length)
  finally show ?thesis using assms by (simp add: day_log_ok_def)
qed

lemma window_cases:
  assumes "1 \<le> page" "1 \<le> limit" "page \<le> max_int64 div limit" "day_log_ok L t" "M = wanted_entries L q (day_lines t)"
  shows "(page - 1) * limit \<ge> int (length M) \<and>
      resolveForwardWindow (int (length M)) page limit = (int (length M), int (length M)) \<and>
      page_of page limit (rev M) = [] \<and> \<not> page * limit < int (length M) \<or>
    (page - 1) * limit < int (length M) \<and>
      resolveForwardWindow (int (length M)) page limit =
        (int (length M) - min (int (length M)) (page * limit), int (length M) - (page - 1) * limit) \<and>
      int (length M) - min (int (length M)) (page * limit) < int (length M) - (page - 1) * limit"
proof -
  have w: "resolveForwardWindow (int (length M)) page limit =
    (if (page - 1) * limit \<ge> int (length M) then (int (length M), int (length M))
     else (int (length M) - min (int (length M)) (page * limit), int (length M) - (page - 1) * limit))"
    using forward_window [OF assms(1-3)] wanted_bound [OF assms(4)] assms(5) by simp
  have m: "page * limit = (page - 1) * limit + limit" by (simp add: algebra_simps)
  show ?thesis
  proof (cases "(page - 1) * limit \<ge> int (length M)")
    case True
    then have "page_of page limit (rev M) = []" by (simp add: page_of_def nat_le_iff le_nat_iff)
    then show ?thesis using True w m assms(2) by simp
  next
    case False
    then show ?thesis using w m assms(2) by simp
  qed
qed

lemma two_pass_page:
  assumes "1 \<le> page" "1 \<le> limit" "page \<le> max_int64 div limit" "day_log_ok L t" "M = wanted_entries L q (day_lines t)"
  shows "queryEntriesStreamingTwoPass L (Log_Text t) q page limit =
    Inr (page_of page limit (rev M), int (length M), page * limit < int (length M))"
proof -
  note ent = day_entry_lines [OF assms(4)]
  note sc = scan_lines_ok [OF assms(4)]
  have cnt: "scanMatchingEntries L (Log_Text t) q (\<lambda>e i s. (s, False)) () = Inr (int (length M), ())"
    using match_count [OF ent, of q 0 "()"] by (simp add: scanMatchingEntries_def sc assms(5))
  have col: "collectMatchingEntries L (Log_Text t) q a b = Inr (drop (nat a) (take (nat b) M))" if "a \<le> b" for a b
    using match_collect [OF ent that, of q 0 "[]"]
    by (auto simp: collectMatchingEntries_def scanMatchingEntries_def sc assms(5))
  show ?thesis
    using window_cases [OF assms]
  proof (elim disjE conjE)
    assume "resolveForwardWindow (int (length M)) page limit = (int (length M), int (length M))"
      "page_of page limit (rev M) = []" "\<not> page * limit < int (length M)"
    then show ?thesis unfolding queryEntriesStreamingTwoPass_def cnt by simp
  next
    assume a: "(page - 1) * limit < int (length M)"
      and w: "resolveForwardWindow (int (length M)) page limit =
        (int (length M) - min (int (length M)) (page * limit), int (length M) - (page - 1) * limit)"
      and lt: "int (length M) - min (int (length M)) (page * limit) < int (length M) - (page - 1) * limit"
    have "(int (length M) - min (int (length M)) (page * limit) > 0) = (page * limit < int (length M))" by auto
    moreover have "(int (length M) - min (int (length M)) (page * limit) = int (length M) - (page - 1) * limit) = False"
      using lt by (metis less_irrefl)
    ultimately show ?thesis
      unfolding queryEntriesStreamingTwoPass_def cnt
      by (simp only: sum.case prod.case w if_False col [OF less_imp_le [OF lt]] page_slice [OF assms(1,2) a])
  qed
qed

lemma tail_slice:
  assumes "b \<le> tw_count w"
  shows "map (tail_line w) [a..<b] = drop a (take b (tail_content w))"
  using assms by (simp add: tail_content_def take_map drop_map flip: take_upt) (simp add: take_map drop_map take_upt)

lemma raw_tail_page:
  assumes "1 \<le> page" "1 \<le> limit" "page \<le> max_int64 div limit" "day_log_ok L t" "M = wanted_entries L q (day_lines t)"
  shows "queryEntriesStreamingRawTail L (Log_Text t) q page limit (page * limit) =
    Inr (page_of page limit (rev M), int (length M), page * limit < int (length M))"
proof -
  let ?F = "filter (raw_match L q) (day_lines t)"
  let ?cap = "nat (page * limit)"
  let ?w0 = "newRawLineTailWindow (page * limit)"
  note sc = scan_lines_ok [OF assms(4)]
  have F: "map (\<lambda>l. the (ql_entry L l)) ?F = M" "\<forall>l \<in> set ?F. ql_entry L l \<noteq> None"
    using wanted_filter [OF day_entry_lines [OF assms(4)], of q] assms(5) by auto
  then have lF: "length ?F = length M" by (metis length_map)
  have "0 < limit * page" using assms(1,2) by simp
  then have pos: "0 < page * limit" by (simp add: mult.commute)
  then have w0: "tail_ok ?w0" "tw_lines ?w0 \<noteq> []" "length (tw_lines ?w0) = ?cap" "tail_content ?w0 = []"
    by (simp_all add: newRawLineTailWindow_def tail_ok_def tail_content_def)
  obtain w m where tl: "tail_loop L q (day_lines t) ?w0 0 = (w, m)" by (metis surj_pair)
  have w: "m = int (length M)" "tail_content w = last_n ?cap ?F" "tail_ok w" "length (tw_lines w) = ?cap"
    using tail_loop_spec [OF w0(1,2), where L = L and q = q and ls = "day_lines t" and n = 0] w0 tl lF by auto
  have cw: "int (tw_count w) = min (int (length M)) (page * limit)"
  proof -
    have "tw_count w = length (last_n ?cap ?F)" using w(2) by (metis tail_content_def length_map length_upt minus_nat.diff_0)
    then show ?thesis using lF pos by (auto simp: last_n_def min_def)
  qed
  have sm: "scanMatchingRawLinesToTail L (Log_Text t) q ?w0 = Inr (w, int (length M))"
    by (simp add: scanMatchingRawLinesToTail_def sc tl w(1))
  show ?thesis
    using window_cases [OF assms]
  proof (elim disjE conjE)
    assume "resolveForwardWindow (int (length M)) page limit = (int (length M), int (length M))"
      "page_of page limit (rev M) = []" "\<not> page * limit < int (length M)"
    then show ?thesis by (simp add: queryEntriesStreamingRawTail_def sm)
  next
    let ?fs = "int (length M) - min (int (length M)) (page * limit)"
    let ?fe = "int (length M) - (page - 1) * limit"
    assume a: "(page - 1) * limit < int (length M)"
      and win: "resolveForwardWindow (int (length M)) page limit = (?fs, ?fe)"
      and lt: "?fs < ?fe"
    have hm: "(?fs > 0) = (page * limit < int (length M))" by auto
    have ne: "(?fs = ?fe) = False" using lt by (metis less_irrefl)
    let ?b = "nat (?fe - ?fs)"
    have p0: "0 \<le> (page - 1) * limit" using assms(1,2) by simp
    have bb: "?b \<le> tw_count w" using cw p0 by linarith
    have sl: "map (tail_line w) [0..<?b] = take ?b (last_n ?cap ?F)"
      using tail_slice [OF bb, of 0] w(2) by simp
    have sub: "set (take ?b (last_n ?cap ?F)) \<subseteq> set ?F"
      unfolding last_n_def by (meson order_trans set_drop_subset set_take_subset)
    have dec: "DecodeEntriesDescending L w 0 (?fe - ?fs) = Some (page_of page limit (rev M))"
    proof -
      let ?es = "map (\<lambda>i. ql_entry L (tail_line w i)) [0..<?b]"
      have "?es = map (ql_entry L) (map (tail_line w) [0..<?b])" by simp
      then have es: "?es = map (ql_entry L) (take ?b (last_n ?cap ?F))" unfolding sl .
      have n: "None \<notin> set ?es" unfolding es using sub F(2) by (auto simp: image_iff)
      have tk: "map the (map (ql_entry L) (take b (last_n c xs))) = take b (last_n c (map (\<lambda>l. the (ql_entry L l)) xs))" for b c xs
        by (simp add: last_n_def take_map drop_map)
      have "map the ?es = take ?b (last_n ?cap M)" unfolding es tk F(1) ..
      also have "\<dots> = drop (nat ?fs) (take (nat ?fe) M)"
      proof -
        have d: "nat ?fs = length M - ?cap" using pos by (simp add: min_def nat_diff_distrib)
        have "nat y = nat x + nat (y - x)" if "0 \<le> x" "x < y" for x y :: int using that by linarith
        from this [OF _ lt] have "nat ?fe = nat ?fs + ?b" by (simp only: min_def) simp
        then show ?thesis unfolding last_n_def d [symmetric] by (simp only: drop_take) (simp add: drop_take)
      qed
      finally have "rev (map the ?es) = page_of page limit (rev M)"
        using page_slice [OF assms(1,2) a] by simp
      moreover have "\<not> (tw_lines w = [] \<or> (0 :: int) < 0 \<or> ?fe - ?fs < 0 \<or> ?fe - ?fs > int (tw_count w))"
        using w(4) pos lt bb by (auto simp del: of_nat_min)
      ultimately show ?thesis using n unfolding DecodeEntriesDescending_def Let_def by (simp only: if_False nat_zero_as_int [symmetric] nat_0 refl)
    qed
    have ts: "int (length M) - int (tw_count w) = ?fs" using cw by simp
    show ?thesis
      unfolding queryEntriesStreamingRawTail_def sm
      by (simp only: sum.case prod.case win ne if_False Let_def ts less_irrefl diff_self dec option.case hm)
  qed
qed

text \<open>C14: a page of the access log is that page of the wanted entries, newest first, with their number
  and whether older ones follow, whichever of the three ways it is read: from the ring of raw lines,
  or in two passes because the window is large.\<close>

theorem queryEntries_page:
  assumes "1 \<le> page" "1 \<le> limit" "page \<le> max_int64 div limit" "day_log_ok L t"
  shows "queryEntries L (Log_Text t) q page limit =
    (let M = wanted_entries L q (day_lines t)
     in Inr (page_of page limit (rev M), int (length M), page * limit < int (length M)))"
  using two_pass_page [OF assms refl, of q] raw_tail_page [OF assms refl, of q] assms(1-3)
  by (auto simp: queryEntries_def Let_def)

text \<open>A library that reads the two raw fields, and two lines of a log.\<close>

definition sample_entry :: "int \<Rightarrow> bool \<Rightarrow> log_entry" where
  "sample_entry status loggedIn =
     \<lparr>le_Time = [], le_Level = [], le_Method = [], le_Scheme = [], le_Host = [], le_Path = [], le_Query = [],
      le_RequestURI = [], le_Protocol = [], le_Status = status, le_DurationMs = 0, le_RemoteIP = [],
      le_RemoteAddr = [], le_UserAgent = [], le_Referer = [], le_LoggedIn = loggedIn, le_AuthRequired = False,
      le_AuthDecision = [], le_AuthCredentialID = [], le_AuthCredentialName = [], le_AuthCredentialMethod = [],
      le_AuthLinkedTOTPID = [], le_AuthLinkedTOTPName = [], le_AccessMode = [], le_RouteType = [],
      le_RouteKey = [], le_Upstream = [], le_Matched = False, le_BytesIn = 0, le_BytesOut = 0, le_TLS = False,
      le_WebSocket = False, le_AliRealClientIP = [], le_EOConnectingIP = [], le_XForwardedFor = [],
      le_XRealIP = [], le_WAFBlocked = False, le_WAFTraceID = [], le_WAFMode = [], le_WAFRuleIDs = [],
      le_WAFAction = [], le_WAFBundle = [], le_GeneralBlacklistBlocked = False\<rparr>"

definition sample_lib :: query_lib where
  "sample_lib =
     \<lparr>ql_unicode = plain_unicode, ql_valid = jsonLogLineLooksLikeEntryObject,
      ql_entry = (\<lambda>l. if jsonLogLineLooksLikeEntryObject l
        then Some (sample_entry (fst (rawJSONIntField l ''status'')) (fst (rawJSONBoolField l ''logged_in'')))
        else None),
      ql_fold = (=)\<rparr>"

definition sample_log :: string where
  "sample_log = ''{'' @ [CHR 0x22] @ ''status'' @ [CHR 0x22] @ '':404}'' @ [newline] @
     ''{'' @ [CHR 0x22] @ ''status'' @ [CHR 0x22] @ '':200}'' @ [newline]"

lemma sample_line: "entry_line sample_lib l"
  by (simp add: entry_line_def sample_lib_def sample_entry_def)

lemma sample_log_ok: "day_log_ok sample_lib sample_log"
proof -
  have "list_all (\<lambda>l. length l < 20) (raw_lines sample_log)" by code_simp
  moreover have "length sample_log < 40" by code_simp
  ultimately show ?thesis
    by (auto simp: day_log_ok_def sample_line list_all_iff maxScanToken_def max_int64_def)
qed

definition not_found_filter :: query_filter where
  "not_found_filter =
     \<lparr>qf_search = [], qf_searchASCII = True, qf_exactStatuses = [], qf_statusClasses = [4],
      qf_loggedIn = None, qf_credential = []\<rparr>"

theorem queryEntries_page_witness:
  "queryEntries sample_lib (Log_Text sample_log) not_found_filter 1 20 =
     Inr ([sample_entry 404 False], 1, False)"
proof -
  have "wanted_entries sample_lib not_found_filter (day_lines sample_log) = [sample_entry 404 False]"
    by code_simp
  then show ?thesis
    using queryEntries_page [of 1 20 sample_lib sample_log not_found_filter] sample_log_ok
    by (simp add: max_int64_def page_of_def Let_def)
qed

text \<open>
  Outside the range the multiplication of the page with its size wraps around: the branch taken
  because the product would overflow multiplies as well, so a page number beyond the end of any
  log gives the first page.
\<close>

theorem page_number_wraps:
  "queryEntries L file q (2 ^ 61 + 1) 200 = queryEntriesStreamingTwoPass L file q 1 200"
proof -
  have "wrap64 (wrap64 (2 ^ 61 + 1 - 1) * 200) = 0" "wrap64 (wrap64 (1 - 1) * 200) = 0" by code_simp+
  then have rw: "resolveForwardWindow n (2 ^ 61 + 1) 200 = resolveForwardWindow n 1 200" for n
    unfolding resolveForwardWindow_def by (simp only:)
  have "queryEntriesStreamingTwoPass L file q (2 ^ 61 + 1) 200 = queryEntriesStreamingTwoPass L file q 1 200"
    unfolding queryEntriesStreamingTwoPass_def rw ..
  moreover have "(2 ^ 61 + 1 :: int) > max_int64 div 200" "\<not> (2 ^ 61 + 1 :: int) \<le> 0" by code_simp+
  ultimately show ?thesis unfolding queryEntries_def Let_def by simp
qed

text \<open>C14: 
  One line that fills the scanner's buffer makes every page of the day an error, whatever the
  filter; a cursor query reads the same file.
\<close>

theorem long_line_hides_the_day:
  assumes "l \<in> set (raw_lines t)" "maxScanToken \<le> length l"
  shows "queryEntries L (Log_Text t) q page limit = Inl Log_Line_Too_Long"
proof -
  have "list_ex (\<lambda>l. maxScanToken \<le> length l) (raw_lines t)" using assms by (auto simp: list_ex_iff)
  then have sc: "scan_lines t = (map dropCR (takeWhile (\<lambda>l. length l < maxScanToken) (raw_lines t)), True)"
    by (simp add: scan_lines_def)
  have "\<exists>m. match_loop L q (\<lambda>e i s. (s, False)) ls n () = (False, m, ())" for ls n
    by (induction ls arbitrary: n) (auto split: option.splits)
  then obtain m where m: "match_loop L q (\<lambda>e i s. (s, False))
      (map dropCR (takeWhile (\<lambda>l. length l < maxScanToken) (raw_lines t))) 0 () = (False, m, ())" by blast
  have "scanMatchingEntries L (Log_Text t) q (\<lambda>e i s. (s, False)) () = Inl Log_Line_Too_Long"
    unfolding scanMatchingEntries_def log_file.case sc prod.case m by simp
  then have "queryEntriesStreamingTwoPass L (Log_Text t) q page limit = Inl Log_Line_Too_Long" for page limit
    unfolding queryEntriesStreamingTwoPass_def by (simp only: sum.case)
  moreover have "queryEntriesStreamingRawTail L (Log_Text t) q page limit n = Inl Log_Line_Too_Long" for page limit n
    by (simp add: queryEntriesStreamingRawTail_def scanMatchingRawLinesToTail_def sc)
  ultimately show ?thesis by (simp add: queryEntries_def Let_def)
qed

theorem long_line_hides_the_day_witness:
  "queryEntries sample_lib (Log_Text (replicate maxScanToken CHR ''a'')) not_found_filter 1 20 = Inl Log_Line_Too_Long"
proof (rule long_line_hides_the_day)
  have "CHR ''a'' \<noteq> newline" by (simp add: newline_def)
  then have "newline \<notin> set (replicate maxScanToken CHR ''a'')" by auto
  then have "split_byte newline (replicate maxScanToken CHR ''a'') = [replicate maxScanToken CHR ''a'']" by (rule split_atom)
  moreover have "replicate maxScanToken CHR ''a'' \<noteq> []" by (simp add: maxScanToken_def)
  ultimately show "replicate maxScanToken CHR ''a'' \<in> set (raw_lines (replicate maxScanToken CHR ''a''))"
    by (simp only: raw_lines_def Let_def last.simps if_False list.set if_True) simp
qed simp

end
