(* ===== verification/LogCursor.thy ===== *)
theory LogCursor
  imports LogQuery
begin

text \<open>
  Following the cursors of the access log (\<^verbatim>\<open>queryEntriesByCursor\<close> of
  \<^verbatim>\<open>pkg/gatewaylog/manager.go\<close>).  One query returns the first matches of what the backward scan
  hands out; a client that asks again with the cursor it was given gets each match once and comes
  to an end, because the offsets decrease.
\<close>

section \<open>One query\<close>

definition cursor_matches :: "query_lib \<Rightarrow> query_filter \<Rightarrow> string \<Rightarrow> (log_entry \<times> nat) list" where
  "cursor_matches L q t =
     List.map_filter (\<lambda>(l, p). map_option (\<lambda>e. (e, p)) (decoded_match L q l)) (lines_desc t)"

lemma cursor_feed:
  assumes "length (cs_items s) \<le> limit"
    "m = List.map_filter (\<lambda>(l, p). map_option (\<lambda>e. (e, p)) (decoded_match L q l)) ls"
    "k = limit - length (cs_items s)"
  shows "fst (feed (cursor_line L q limit) ls s) =
    s\<lparr>cs_items := cs_items s @ map fst (take k m),
      cs_oldest := (if take k m = [] then cs_oldest s else snd (last (take k m))),
      cs_more := cs_more s \<or> k < length m\<rparr>"
  using assms
proof (induction "cursor_line L q limit" ls s arbitrary: m k rule: feed.induct)
  case (1 s)
  then show ?case by (simp add: map_filter_simps)
next
  case (2 l p ls s)
  show ?case
  proof (cases "decoded_match L q l")
    case None
    then have c: "cursor_line L q limit s l p = (s, True)" by (simp add: cursor_line_def)
    show ?thesis using 2(1) [OF c [symmetric] TrueI 2(2) refl 2(4)] 2(3) None c by (simp add: map_filter_simps)
  next
    case (Some e)
    then have m: "m = (e, p) # List.map_filter (\<lambda>(l, p). map_option (\<lambda>e. (e, p)) (decoded_match L q l)) ls"
      using 2(3) by (simp add: map_filter_simps)
    show ?thesis
    proof (cases "length (cs_items s) = limit")
      case True
      then have "cursor_line L q limit s l p = (s\<lparr>cs_more := True\<rparr>, False)" using Some by (simp add: cursor_line_def)
      then show ?thesis using True 2(4) m by simp
    next
      case False
      let ?s = "s\<lparr>cs_items := cs_items s @ [e], cs_oldest := p\<rparr>"
      have c: "cursor_line L q limit s l p = (?s, True)" using False Some by (simp add: cursor_line_def)
      have "k \<noteq> 0" using False 2(2,4) by simp
      then obtain k' where k: "k = Suc k'" by (metis not0_implies_Suc)
      have "length (cs_items ?s) \<le> limit" "k' = limit - length (cs_items ?s)" using False 2(2,4) k by auto
      from 2(1) [OF c [symmetric] TrueI this(1) refl this(2)]
      show ?thesis using c m k by simp
    qed
  qed
qed

lemma cursor_query:
  assumes "resolveCursorOffset (length t) cursor = Inr (endOffset, rc)" "endOffset \<le> length t"
    "m = cursor_matches L q (take endOffset t)"
  shows "\<exists>next. queryEntriesByCursor L (Log_Text t) q cursor limit = Inr (map fst (take limit m), next, limit < length m, rc) \<and>
    (0 < limit \<longrightarrow> next = (if limit < length m \<and> snd (last (take limit m)) > 0
                           then itoa (int (snd (last (take limit m)))) else []))"
proof (cases "endOffset = 0")
  case True
  then have "m = []"
    using assms(3) by (simp add: cursor_matches_def lines_desc_def proper_lines_def trim_cr_def trim_right_set_def map_filter_simps)
  then show ?thesis using True assms(1) by (simp add: queryEntriesByCursor_def)
next
  case False
  let ?s = "\<lparr>cs_items = [], cs_oldest = 0, cs_more = False\<rparr>"
  have f: "scanLinesBackward cursorChunkSize t endOffset (cursor_line L q limit) ?s =
      \<lparr>cs_items = map fst (take limit m), cs_oldest = (if take limit m = [] then 0 else snd (last (take limit m))),
       cs_more = limit < length m\<rparr>"
    using scan_backward_lines [of cursorChunkSize endOffset t "cursor_line L q limit" ?s] assms(2)
      cursor_feed [of ?s limit m L q "lines_desc (take endOffset t)" limit] assms(3)
    by (simp add: cursorChunkSize_def cursor_matches_def)
  have "take limit m \<noteq> []" if "limit < length m" "0 < limit" using that by (cases m) auto
  then show ?thesis using False assms(1) by (auto simp: queryEntriesByCursor_def f Let_def)
qed

section \<open>The offsets of the lines\<close>

definition whole_length :: "string list \<Rightarrow> nat" where
  "whole_length ls = sum_list (map (\<lambda>l. length l + 1) ls)"

lemma split_take:
  "split_byte c t = as @ x # bs \<Longrightarrow>
     split_byte c (take (whole_length as) t) = as @ [[]] \<and> whole_length as + length x \<le> length t"
proof (induction as arbitrary: t)
  case Nil
  then have "x = hd (split_byte c t)" by simp
  with hd_split_prefix [of c t] show ?case by (metis Nil append_Nil length_take list.sel(1) min.cobounded1
      split_byte.simps(1) take0 whole_length_def list.map(1) sum_list.Nil plus_nat.add_0)
next
  case (Cons a as)
  then have "c \<in> set t" using split_atom by fastforce
  then obtain h r where t: "t = h @ c # r" "c \<notin> set h" by (auto dest: split_list_first)
  then have "split_byte c t = h # split_byte c r" by (simp add: split_byte_append)
  with Cons.prems have h: "h = a" "split_byte c r = as @ x # bs" by auto
  have "take (whole_length (a # as)) t = a @ c # take (whole_length as) r"
    by (simp add: whole_length_def t h)
  moreover have "split_byte c (a @ c # take (whole_length as) r) = a # split_byte c (take (whole_length as) r)"
    using t(2) h by (simp add: split_byte_append)
  ultimately show ?case using Cons.IH [OF h(2)] by (simp add: whole_length_def t h)
qed

lemma lines_at_split:
  "lines_at n ls = A @ (x, p) # B \<Longrightarrow> \<exists>as bs. ls = as @ x # bs \<and> A = lines_at n as \<and> p = n + whole_length as"
proof (induction A arbitrary: n ls)
  case Nil
  then show ?case by (cases ls) (auto simp: whole_length_def intro!: exI [of _ "[]"])
next
  case (Cons a A)
  then obtain l ls' where ls: "ls = l # ls'" by (cases ls) auto
  with Cons.prems have "lines_at (n + length l + 1) ls' = A @ (x, p) # B" "a = (l, n)" by auto
  from Cons.IH [OF this(1)] obtain as bs
    where "ls' = as @ x # bs" "A = lines_at (n + length l + 1) as" "p = n + length l + 1 + whole_length as" by blast
  then show ?case using ls \<open>a = (l, n)\<close> by (intro exI [of _ "l # as"] exI [of _ bs]) (auto simp: whole_length_def)
qed

lemma map_filter_split:
  "List.map_filter g zs = A @ b # C \<Longrightarrow>
     \<exists>xs z ys. zs = xs @ z # ys \<and> g z = Some b \<and> List.map_filter g xs = A \<and> List.map_filter g ys = C"
proof (induction zs arbitrary: A)
  case (Cons z zs)
  show ?case
  proof (cases "g z")
    case None
    with Cons obtain xs z' ys where "zs = xs @ z' # ys" "g z' = Some b" "List.map_filter g xs = A" "List.map_filter g ys = C"
      by (auto simp: map_filter_simps)
    then show ?thesis using None by (intro exI [of _ "z # xs"]) (auto simp: map_filter_simps)
  next
    case (Some y)
    show ?thesis
    proof (cases A)
      case Nil
      then show ?thesis using Cons.prems Some by (intro exI [of _ "[]"] exI [of _ z] exI [of _ zs]) (auto simp: map_filter_simps)
    next
      case (Cons a A')
      with Cons.prems Some have "List.map_filter g zs = A' @ b # C" "y = a" by (auto simp: map_filter_simps)
      from Cons.IH [OF this(1)] obtain xs z' ys
        where "zs = xs @ z' # ys" "g z' = Some b" "List.map_filter g xs = A'" "List.map_filter g ys = C" by blast
      then show ?thesis using Some Cons \<open>y = a\<close> by (intro exI [of _ "z # xs"]) (auto simp: map_filter_simps)
    qed
  qed
qed (simp add: map_filter_simps)

definition proper_line :: "string \<times> nat \<Rightarrow> (string \<times> nat) option" where
  "proper_line = (\<lambda>(l, p). if trim_cr l = [] then None else Some (trim_cr l, p))"

lemma proper_lines_filter: "proper_lines ls = List.map_filter proper_line ls"
  by (induction ls) (auto simp: proper_lines_def proper_line_def map_filter_simps)

text \<open>What is before a line, read backwards, is what follows it in the backward order.\<close>

lemma lines_desc_before:
  assumes "lines_desc t = A @ (l, p) # B"
  shows "lines_desc (take p t) = B \<and> p < length t"
proof -
  have "List.map_filter proper_line (lines_at 0 (split_byte newline t)) = rev B @ (l, p) # rev A"
    using assms unfolding lines_desc_def proper_lines_filter by (metis rev.simps(2) rev_append rev_rev_ident append.assoc append_Cons append_Nil)
  then obtain xs z ys where z: "lines_at 0 (split_byte newline t) = xs @ z # ys" "proper_line z = Some (l, p)"
    "List.map_filter proper_line xs = rev B"
    using map_filter_split by metis
  obtain x p' where zx: "z = (x, p')" by fastforce
  with z(2) have "trim_cr x \<noteq> []" "p' = p" by (auto simp: proper_line_def split: if_splits)
  then have x: "z = (x, p)" "x \<noteq> []" using zx by (auto simp: trim_cr_def trim_right_set_def)
  with z(1) obtain as bs where as: "split_byte newline t = as @ x # bs" "xs = lines_at 0 as" "p = whole_length as"
    using lines_at_split [of 0 "split_byte newline t" xs x p ys] by auto
  have "split_byte newline (take p t) = as @ [[]]" "p + length x \<le> length t"
    using split_take [OF as(1)] as(3) by auto
  moreover have "lines_desc (take p t) = rev (proper_lines (lines_at 0 (as @ [[]])))"
    using calculation by (simp add: lines_desc_def)
  moreover have "proper_lines (lines_at 0 (as @ [[]])) = rev B"
    unfolding lines_at_append proper_append using z(3) as(2)
    by (simp add: proper_lines_filter proper_line_def map_filter_simps trim_cr_def trim_right_set_def)
  ultimately show ?thesis using x(2) by (cases x) auto
qed

section \<open>Following the cursors\<close>

text \<open>
  A client that asks from the end and then with the cursors it is given; \<open>None\<close> is an error or
  that the fuel did not last.
\<close>

fun cursor_walk :: "query_lib \<Rightarrow> log_file \<Rightarrow> query_filter \<Rightarrow> nat \<Rightarrow> nat \<Rightarrow> string \<Rightarrow> log_entry list option" where
  "cursor_walk L file q limit 0 cursor = None"
| "cursor_walk L file q limit (Suc fuel) cursor =
     (case queryEntriesByCursor L file q cursor limit of
        Inl e \<Rightarrow> None
      | Inr (items, next, hasMore, rc) \<Rightarrow>
          if next = [] then Some items
          else map_option (\<lambda>rest. items @ rest) (cursor_walk L file q limit fuel next))"

lemma itoa_nat: "itoa (int n) = nat_str n"
  by (simp add: itoa_def)

lemma atoi_nat_str: "int n \<le> max_int64 \<Longrightarrow> atoi (nat_str n) = Some (int n)"
proof -
  assume n: "int n \<le> max_int64"
  have d: "list_all is_digit (nat_str n)" using nat_str_digits by (auto simp: list_all_iff)
  obtain c cs where s: "nat_str n = c # cs" by (cases "nat_str n") auto
  with d have "is_digit c" by simp
  then have "c \<noteq> CHR ''-''" "c \<noteq> CHR ''+''" by (auto simp: is_digit_def byte_def)
  moreover have "dec_val (c # cs) = n" using dec_val_nat_str [of n] s by simp
  moreover have "\<not> int n < min_int64" by (simp add: min_int64_def)
  ultimately show ?thesis using n d by (simp add: atoi_def s)
qed

lemma cursor_of_offset:
  assumes "p \<le> length t" "int (length t) \<le> max_int64"
  shows "resolveCursorOffset (length t) (nat_str p) = Inr (p, nat_str p)"
proof -
  have "trim_space (nat_str p) = nat_str p"
    by (intro trim_space_graph_all) (auto simp: list_all_iff is_digit_def graph_char_def dest: nat_str_digits)
  then show ?thesis using atoi_nat_str [of p] assms by (simp add: resolveCursorOffset_def)
qed

lemma matches_before:
  assumes "cursor_matches L q t = A @ (e, p) # B"
  shows "cursor_matches L q (take p t) = B \<and> p < length t"
proof -
  obtain xs z ys where z: "lines_desc t = xs @ z # ys" "map_option (\<lambda>e. (e, snd z)) (decoded_match L q (fst z)) = Some (e, p)"
    "List.map_filter (\<lambda>(l, p). map_option (\<lambda>e. (e, p)) (decoded_match L q l)) ys = B"
    using map_filter_split [OF assms [unfolded cursor_matches_def]] by (auto simp: case_prod_beta)
  then obtain l where "z = (l, p)" by (cases z) auto
  with z lines_desc_before [of t xs l p ys] show ?thesis by (simp add: cursor_matches_def)
qed

lemma walk_from:
  assumes "0 < limit" "int (length t) \<le> max_int64"
    "endOffset < fuel" "endOffset \<le> length t" "resolveCursorOffset (length t) cursor = Inr (endOffset, rc)"
  shows "cursor_walk L (Log_Text t) q limit fuel cursor = Some (map fst (cursor_matches L q (take endOffset t)))"
  using assms(3-5)
proof (induction fuel arbitrary: endOffset cursor rc)
  case (Suc fuel)
  let ?m = "cursor_matches L q (take endOffset t)"
  obtain nxt where q: "queryEntriesByCursor L (Log_Text t) q cursor limit = Inr (map fst (take limit ?m), nxt, limit < length ?m, rc)"
    and nxt: "nxt = (if limit < length ?m \<and> snd (last (take limit ?m)) > 0 then itoa (int (snd (last (take limit ?m)))) else [])"
    using cursor_query [OF Suc.prems(3,2) refl, of L q limit] assms(1) by blast
  show ?case
  proof (cases "limit < length ?m")
    case False
    then show ?thesis by (simp add: q nxt)
  next
    case True
    then have ne: "take limit ?m \<noteq> []" "drop limit ?m \<noteq> []" using assms(1) by auto
    obtain e p where ep: "last (take limit ?m) = (e, p)" by fastforce
    have "?m = butlast (take limit ?m) @ (e, p) # drop limit ?m"
      using ne(1) ep by (metis append_Cons append_Nil append_assoc append_butlast_last_id append_take_drop_id)
    from matches_before [OF this] Suc.prems(2)
    have b: "cursor_matches L q (take p (take endOffset t)) = drop limit ?m" "p < endOffset" by auto
    then have b': "cursor_matches L q (take p t) = drop limit ?m" by (simp add: min_def)
    have "p \<noteq> 0"
    proof
      assume "p = 0"
      then have "drop limit ?m = []" using b'
        by (simp add: cursor_matches_def lines_desc_def proper_lines_def trim_cr_def trim_right_set_def map_filter_simps)
      with ne(2) show False by simp
    qed
    then have n: "nxt = nat_str p" using nxt True ep by (simp add: itoa_nat)
    have "cursor_walk L (Log_Text t) q limit fuel nxt = Some (map fst (drop limit ?m))"
      using Suc.IH [of p nxt "nat_str p"] cursor_of_offset [of p t] Suc.prems b(2) b' assms(2) n by simp
    then show ?thesis using n by (simp add: q flip: map_append)
  qed
qed simp

text \<open>C12: a client that follows the cursors from the end of the log comes to an end, after at most as
  many queries as the log has bytes and one, and has then been given every match once, newest
  first, for every page size.\<close>

theorem cursor_walk_complete:
  assumes "0 < limit" "int (length t) \<le> max_int64"
  shows "cursor_walk L (Log_Text t) q limit (Suc (length t)) [] = Some (map fst (cursor_matches L q t))"
proof -
  have "resolveCursorOffset (length t) [] = Inr (length t, [])" by (simp add: resolveCursorOffset_def)
  from walk_from [OF assms lessI order_refl this] show ?thesis by (simp only: take_all)
qed

theorem cursor_walk_complete_witness:
  "cursor_walk sample_lib (Log_Text sample_log) not_found_filter 1 (Suc (length sample_log)) [] =
     Some [sample_entry 404 False]"
proof -
  have "length sample_log < 40" by code_simp
  then have "int (length sample_log) \<le> max_int64" by (simp add: max_int64_def)
  moreover have "map fst (cursor_matches sample_lib not_found_filter sample_log) = [sample_entry 404 False]" by code_simp
  ultimately show ?thesis
    using cursor_walk_complete [of 1 sample_log sample_lib not_found_filter] by simp
qed

end
