(* ===== verification/GoDate.thy ===== *)
theory GoDate
  imports GoTime
begin

text \<open>
  The layout \<^verbatim>\<open>2006-01-02\<close> of package \<^verbatim>\<open>time\<close>: parsing and formatting a calendar day.
  A day is its number, counted from 1 January of the year 1.  The lemmas show that the two are
  inverse on the days of the years 0 to 9999.
\<close>

definition day_of_date :: "int \<Rightarrow> int \<Rightarrow> int \<Rightarrow> int" where
  "day_of_date y mo d = year_start y + month_start mo y + (d - 1)"

definition parse_date :: "string \<Rightarrow> int option" where
  "parse_date s =
     Option.bind (num4 s) (\<lambda>(y, s).
     Option.bind (expect CHR ''-'' s) (\<lambda>s.
     Option.bind (num2 s) (\<lambda>(mo, s).
     Option.bind (expect CHR ''-'' s) (\<lambda>s.
     Option.bind (num2 s) (\<lambda>(d, s).
     if in_range 1 mo 12 \<and> in_range 1 d (days_in mo y) \<and> s = []
     then Some (day_of_date y mo d) else None)))))"

definition format_date :: "int \<Rightarrow> string" where
  "format_date day =
     (case year_of day of (y, yd) \<Rightarrow>
        case month_of 11 1 y yd of (mo, d) \<Rightarrow>
          pad 4 y @ ''-'' @ pad 2 mo @ ''-'' @ pad 2 (d + 1))"

section \<open>Year and month of a day\<close>

lemma div_between: "m * q \<le> n \<Longrightarrow> n < m * q + m \<Longrightarrow> n div m = (q :: int)"
  using int_div_pos_eq [of n m q "n - m * q"] by simp

lemma mod_zero_last:
  assumes "y = m * v + w + 1" "0 \<le> w" "w < (m :: int)"
  shows "y mod m = 0 \<longleftrightarrow> w = m - 1"
proof (cases "w = m - 1")
  case True
  then have "y = m * (v + 1)" using assms(1) by (simp add: algebra_simps)
  then show ?thesis using True by simp
next
  case False
  have "y mod m = (w + 1) mod m" using assms(1) by (simp add: mult.commute add.assoc)
  also have "\<dots> = w + 1" using assms False by (intro mod_pos_pos_trivial) auto
  finally show ?thesis using assms False by simp
qed

lemma year_of_start:
  assumes "0 \<le> k" "k < (if leap_year y then 366 else 365)"
  shows "year_of (year_start y + k) = (y, k)"
proof -
  define x where "x = y - 1"
  define a b c e where "a = x div 400" and "b = x mod 400 div 100"
    and "c = x mod 400 mod 100 div 4" and "e = x mod 400 mod 100 mod 4"
  have r: "0 \<le> b" "b \<le> 3" "0 \<le> c" "c \<le> 24" "0 \<le> e" "e \<le> 3"
  proof -
    have m: "0 \<le> u mod 400" "u mod 400 \<le> 399" "0 \<le> u mod 100" "u mod 100 \<le> 99" for u :: int
      using pos_mod_bound [of 400 u] pos_mod_bound [of 100 u] by simp_all
    have u: "0 \<le> u mod 400 div 100 \<and> u mod 400 div 100 \<le> 3" for u :: int
      using zdiv_mono1 [OF m(2), of 100 u] m(1) [of u] by (simp add: pos_imp_zdiv_nonneg_iff)
    have v: "0 \<le> u mod 100 div 4 \<and> u mod 100 div 4 \<le> 24" for u :: int
      using zdiv_mono1 [OF m(4), of 4 u] m(3) [of u] by (simp add: pos_imp_zdiv_nonneg_iff)
    have w: "0 \<le> u mod 4 \<and> u mod 4 \<le> 3" for u :: int
      using pos_mod_bound [of 4 u] by simp
    show "0 \<le> b" "b \<le> 3" "0 \<le> c" "c \<le> 24" "0 \<le> e" "e \<le> 3"
      using u [of x] v [of "x mod 400"] w [of "x mod 400 mod 100"] by (simp_all add: b_def c_def e_def)
  qed
  have "x mod 400 mod 100 = 4 * c + e" "x mod 400 = 100 * b + x mod 400 mod 100" "x = 400 * a + x mod 400"
    unfolding a_def b_def c_def e_def by simp_all
  then have x: "x = 400 * a + 100 * b + 4 * c + e" by linarith
  then have y: "y - 1 = 400 * a + 100 * b + 4 * c + e" by (simp add: x_def)
  have "(400 * a + 100 * b + 4 * c + e) div 4 = 100 * a + 25 * b + c" using r by (intro div_between) auto
  moreover have "(400 * a + 100 * b + 4 * c + e) div 100 = 4 * a + b" using r by (intro div_between) auto
  moreover have "(400 * a + 100 * b + 4 * c + e) div 400 = a" using r by (intro div_between) auto
  ultimately have d4: "(y - 1) div 4 = 100 * a + 25 * b + c" "(y - 1) div 100 = 4 * a + b" "(y - 1) div 400 = a"
    unfolding y by blast+
  have ys: "year_start y = 146097 * a + 36524 * b + 1461 * c + 365 * e"
    unfolding year_start_def d4 using y by (simp add: algebra_simps)
  have "y mod 4 = 0 \<longleftrightarrow> e = 3"
    using mod_zero_last [of y 4 "100 * a + 25 * b + c" e] y r by simp
  moreover have "y mod 100 = 0 \<longleftrightarrow> 4 * c + e = 99"
    using mod_zero_last [of y 100 "4 * a + b" "4 * c + e"] y r by simp
  moreover have "y mod 400 = 0 \<longleftrightarrow> 100 * b + 4 * c + e = 399"
    using mod_zero_last [of y 400 a "100 * b + 4 * c + e"] y r by simp
  ultimately have leap: "leap_year y \<longleftrightarrow> e = 3 \<and> (c \<noteq> 24 \<or> b = 3)"
    unfolding leap_year_def using r by (cases "e = 3"; simp; presburger)
  have k: "k \<le> 365" "k = 365 \<Longrightarrow> e = 3 \<and> (c \<noteq> 24 \<or> b = 3)" using assms leap by (auto split: if_splits)
  let ?d1 = "36524 * b + 1461 * c + 365 * e + k"
  let ?d2 = "1461 * c + 365 * e + k"
  let ?d3 = "365 * e + k"
  have q1: "(year_start y + k) div 146097 = a" and m1: "(year_start y + k) mod 146097 = ?d1"
  proof -
    have "0 \<le> ?d1" "?d1 < 146097" using r k assms by (cases "k = 365"; linarith)+
    then show "(year_start y + k) div 146097 = a" unfolding ys by (intro div_between) linarith+
    then show "(year_start y + k) mod 146097 = ?d1" unfolding ys by (simp add: minus_div_mult_eq_mod [symmetric])
  qed
  have q2: "?d1 div 36524 - ?d1 div 36524 div 4 = b"
  proof (cases "?d2 < 36524")
    case True
    then have "?d1 div 36524 = b" using r assms by (intro div_between) linarith+
    then show ?thesis using r by simp
  next
    case False
    then have "k = 365 \<and> c = 24 \<and> e = 3" using r k by linarith
    then have "?d1 = 36524 * 4" using k(2) by auto
    then show ?thesis using k(2) \<open>k = 365 \<and> c = 24 \<and> e = 3\<close> by simp
  qed
  have q3: "?d2 div 1461 = c" using r k assms by (intro div_between) linarith+
  have q4: "?d3 div 365 - ?d3 div 365 div 4 = e"
  proof (cases "k = 365")
    case True
    then show ?thesis using k by simp
  next
    case False
    then have "?d3 div 365 = e" using r k assms by (intro div_between) linarith+
    then show ?thesis using r by simp
  qed
  have s2: "?d1 - b * 36524 = ?d2" "?d2 - c * 1461 = ?d3" "?d3 - e * 365 = k" by simp_all
  show ?thesis unfolding year_of_def Let_def q1 m1 q2 s2 q3 q4 using y by simp
qed

lemma days_in_pos: "0 < days_in m y"
  by (simp add: days_in_def)

lemma month_of_start:
  assumes "m0 \<le> m" "m \<le> m0 + int k" "0 \<le> d" "d < days_in m y"
  shows "month_of k m0 y (sum_list (map (\<lambda>j. days_in j y) [m0..m - 1]) + d) = (m, d)"
  using assms
proof (induction k arbitrary: m0)
  case 0
  then show ?case by simp
next
  case (Suc k)
  show ?case
  proof (cases "m = m0")
    case True
    then show ?thesis using Suc.prems by simp
  next
    case False
    then have u: "[m0..m - 1] = m0 # [m0 + 1..m - 1]" using Suc.prems by (intro upto_rec1) simp
    have "0 \<le> sum_list (map (\<lambda>j. days_in j y) [m0 + 1..m - 1])"
      using days_in_pos by (intro sum_list_nonneg) (auto simp: less_imp_le)
    then show ?thesis using Suc.IH [of "m0 + 1"] Suc.prems False by (simp add: u add.assoc)
  qed
qed

lemma month_start_bound:
  assumes "1 \<le> m" "m \<le> 12" "0 \<le> d" "d < days_in m y"
  shows "month_start m y + d < (if leap_year y then 366 else 365) \<and> 0 \<le> month_start m y"
proof -
  have "m \<in> {1, 2, 3, 4, 5, 6, 7, 8, 9, 10, 11, 12}" using assms(1,2) by simp presburger
  then show ?thesis
    using assms(3,4) by (auto simp: month_start_def days_in_def upto_rec1)
qed

section \<open>Padded numbers\<close>

lemma dec_val_zero: "dec_val (CHR ''0'' # s) = dec_val s"
  by (simp add: dec_val_def num_val_def digit_val_def byte_def)

lemma pad_dec_val:
  assumes "list_all is_digit s" "s \<noteq> []"
  shows "pad (length s) (int (dec_val s)) = s \<and> length (nat_str (dec_val s)) \<le> length s"
  using assms
proof (induction s)
  case (Cons c s)
  show ?case
  proof (cases "s \<noteq> [] \<and> c = CHR ''0''")
    case True
    then have "pad (length s) (int (dec_val s)) = s" "length (nat_str (dec_val s)) \<le> length s" using Cons by auto
    then show ?thesis using True by (simp add: pad_def dec_val_zero Let_def Suc_diff_le)
  next
    case False
    then have "nat_str (dec_val (c # s)) = c # s" using Cons.prems by (intro nat_str_dec_val) auto
    then show ?thesis by (simp add: pad_def)
  qed
qed simp

section \<open>Parsing and formatting\<close>

lemma num4_some: "num4 s = Some (y, r) \<Longrightarrow> \<exists>t. s = t @ r \<and> length t = 4 \<and> list_all is_digit t \<and> y = int (dec_val t)"
  by (auto simp: num4_def split: if_splits intro!: exI [of _ "take 4 s"])

lemma num2_some: "num2 s = Some (x, r) \<Longrightarrow> \<exists>t. s = t @ r \<and> length t = 2 \<and> list_all is_digit t \<and> x = int (dec_val t)"
  by (auto simp: num2_def split: list.splits if_splits)

lemma expect_some: "expect c s = Some r \<Longrightarrow> s = c # r"
  by (auto simp: expect_def split: list.splits if_splits)

lemma parse_date_shape:
  assumes "parse_date s = Some n"
  shows "\<exists>ty tm td. s = ty @ ''-'' @ tm @ ''-'' @ td \<and> length ty = 4 \<and> length tm = 2 \<and> length td = 2 \<and>
    list_all is_digit (ty @ tm @ td) \<and> in_range 1 (int (dec_val tm)) 12 \<and>
    in_range 1 (int (dec_val td)) (days_in (int (dec_val tm)) (int (dec_val ty))) \<and>
    n = day_of_date (int (dec_val ty)) (int (dec_val tm)) (int (dec_val td))"
proof -
  from assms obtain y s1 s2 mo s3 s4 d where
    p: "num4 s = Some (y, s1)" "expect CHR ''-'' s1 = Some s2" "num2 s2 = Some (mo, s3)"
      "expect CHR ''-'' s3 = Some s4" "num2 s4 = Some (d, [])"
      "in_range 1 mo 12" "in_range 1 d (days_in mo y)" "n = day_of_date y mo d"
    by (auto simp: parse_date_def bind_eq_Some_conv split: if_splits)
  obtain ty where ty: "s = ty @ s1" "length ty = 4" "list_all is_digit ty" "y = int (dec_val ty)" using num4_some [OF p(1)] by auto
  obtain tm where tm: "s2 = tm @ s3" "length tm = 2" "list_all is_digit tm" "mo = int (dec_val tm)" using num2_some [OF p(3)] by auto
  obtain td where td: "s4 = td" "length td = 2" "list_all is_digit td" "d = int (dec_val td)" using num2_some [OF p(5)] by auto
  show ?thesis
    using ty tm td p(6-8) expect_some [OF p(2)] expect_some [OF p(4)]
    by (intro exI [of _ ty] exI [of _ tm] exI [of _ td]) simp
qed

text \<open>A text that is a day is the text of that day.\<close>

lemma format_parse_date: "parse_date s = Some n \<Longrightarrow> format_date n = s"
proof -
  assume "parse_date s = Some n"
  then obtain ty tm td where s: "s = ty @ ''-'' @ tm @ ''-'' @ td" "length ty = 4" "length tm = 2" "length td = 2"
    "list_all is_digit (ty @ tm @ td)"
    and r: "in_range 1 (int (dec_val tm)) 12" "in_range 1 (int (dec_val td)) (days_in (int (dec_val tm)) (int (dec_val ty)))"
    and n: "n = day_of_date (int (dec_val ty)) (int (dec_val tm)) (int (dec_val td))"
    using parse_date_shape by blast
  let ?y = "int (dec_val ty)" and ?m = "int (dec_val tm)" and ?d = "int (dec_val td) - 1"
  have rr: "1 \<le> ?m" "?m \<le> 12" "0 \<le> ?d" "?d < days_in ?m ?y" using r by (auto simp: in_range_def)
  have n': "n = year_start ?y + (month_start ?m ?y + ?d)" using n by (simp add: day_of_date_def)
  have y: "year_of n = (?y, month_start ?m ?y + ?d)"
    unfolding n' using month_start_bound [OF rr] rr(3) by (intro year_of_start) auto
  have m: "month_of 11 1 ?y (month_start ?m ?y + ?d) = (?m, ?d)"
    unfolding month_start_def using rr by (intro month_of_start) auto
  have "ty \<noteq> []" "tm \<noteq> []" "td \<noteq> []" using s by auto
  then have "pad 4 ?y = ty" "pad 2 ?m = tm" "pad 2 (?d + 1) = td"
    using pad_dec_val [of ty] pad_dec_val [of tm] pad_dec_val [of td] s by auto
  then show ?thesis by (simp add: format_date_def y m s(1))
qed

lemma parse_date_inj: "parse_date s = Some n \<Longrightarrow> parse_date t = Some n \<Longrightarrow> s = t"
  using format_parse_date by metis

text \<open>Such a text has ten characters, digits and dashes.\<close>

lemma parse_date_chars:
  assumes "parse_date s = Some n"
  shows "length s = 10 \<and> list_all (\<lambda>c. is_digit c \<or> c = CHR ''-'') s"
proof -
  obtain ty tm td where s: "s = ty @ ''-'' @ tm @ ''-'' @ td" "length ty = 4" "length tm = 2" "length td = 2"
    "list_all is_digit (ty @ tm @ td)" using parse_date_shape [OF assms] by blast
  then show ?thesis by (auto simp: list_all_iff)
qed

end
