(* ===== verification/LogFiles.thy ===== *)
theory LogFiles
  imports LogCursor GoDate ConfigStore WafRules
begin

text \<open>
  Writing the access log, \<^verbatim>\<open>pkg/gatewaylog/manager.go\<close>: the writer that starts a file per
  day and removes old ones, and the manager that logs, lists, queries and deletes.  The directory
  is a value: names that refer to files or directories, the texts of the files (a file that is
  removed while it is open keeps its text but has no name), and the operations that fail.  The zone
  of the host is a parameter: the instant at which a local day begins.
\<close>

section \<open>The directory\<close>

datatype disk_op = Op_Mkdir | Op_Open string | Op_ReadDir | Op_Remove string | Op_Write

record log_disk =
  ld_exists :: bool
  ld_names :: "(string \<times> nat option) list"
  ld_data :: "string list"
  ld_fails :: "disk_op \<Rightarrow> bool"

datatype log_error = Disk_Failed disk_op | Log_Not_Open

definition disk_mkdir :: "log_disk \<Rightarrow> log_error option \<times> log_disk" where
  "disk_mkdir d = (if ld_fails d Op_Mkdir then (Some (Disk_Failed Op_Mkdir), d) else (None, d\<lparr>ld_exists := True\<rparr>))"

text \<open>Opening for appending creates a file that is missing; a directory cannot be opened so.\<close>

definition disk_open :: "string \<Rightarrow> log_disk \<Rightarrow> nat option \<times> log_disk" where
  "disk_open name d =
     (if ld_fails d (Op_Open name) \<or> \<not> ld_exists d then (None, d)
      else (case al_get (ld_names d) name of
              Some f \<Rightarrow> (f, d)
            | None \<Rightarrow> (Some (length (ld_data d)),
                       d\<lparr>ld_names := al_put name (Some (length (ld_data d))) (ld_names d),
                         ld_data := ld_data d @ [[]]\<rparr>)))"

definition disk_append :: "nat \<Rightarrow> string \<Rightarrow> log_disk \<Rightarrow> log_disk" where
  "disk_append i p d = d\<lparr>ld_data := (ld_data d)[i := ld_data d ! i @ p]\<rparr>"

datatype removal = Removed | Not_There | Not_Removed

definition disk_remove :: "string \<Rightarrow> log_disk \<Rightarrow> removal \<times> log_disk" where
  "disk_remove name d =
     (if \<not> ld_exists d \<or> al_get (ld_names d) name = None then (Not_There, d)
      else if ld_fails d (Op_Remove name) then (Not_Removed, d)
      else (Removed, d\<lparr>ld_names := al_del name (ld_names d)\<rparr>))"

text \<open>The entries, by name, each with whether it is a directory; a missing directory has none.\<close>

definition disk_list :: "log_disk \<Rightarrow> (string \<times> bool) list option" where
  "disk_list d =
     (if \<not> ld_exists d then Some []
      else if ld_fails d Op_ReadDir then None
      else Some (sort_key fst (map (\<lambda>(n, f). (n, f = None)) (ld_names d))))"

definition disk_file :: "string \<Rightarrow> log_disk \<Rightarrow> log_file" where
  "disk_file name d =
     (if \<not> ld_exists d then Log_Missing
      else (case al_get (ld_names d) name of
              None \<Rightarrow> Log_Missing
            | Some None \<Rightarrow> Log_Denied
            | Some (Some i) \<Rightarrow> Log_Text (ld_data d ! i)))"

section \<open>Dates and days\<close>

record log_clock =
  lc_today :: int
  lc_midnight :: "int \<Rightarrow> time"

definition fileExtension :: string where
  "fileExtension = ''.log''"

definition normalizeMaxDays :: "int \<Rightarrow> int" where
  "normalizeMaxDays days = (if days \<le> 0 then DefaultMaxDays else days)"

definition parseFileDate :: "string \<Rightarrow> int option" where
  "parseFileDate fileName =
     (if path_ext fileName \<noteq> fileExtension then None
      else parse_date (trimSuffix fileName fileExtension))"

definition normalizeDate :: "log_clock \<Rightarrow> string \<Rightarrow> query_error + string" where
  "normalizeDate c raw =
     (if trim_space raw = [] then Inr (format_date (lc_today c))
      else (case parse_date raw of
              None \<Rightarrow> Inl Invalid_Date
            | Some day \<Rightarrow> Inr (format_date day)))"

text \<open>The time at which a day begins in UTC, as a file name is read.\<close>

definition utc_midnight :: "int \<Rightarrow> time" where
  "utc_midnight day = day * (86400 * second)"

section \<open>The writer\<close>

record file_writer =
  fw_retentionDays :: int
  fw_currentDate :: string
  fw_currentFile :: "nat option"
  fw_lastCleanup :: string
  fw_dirReady :: bool

definition NewDailyFileWriter :: "int \<Rightarrow> file_writer" where
  "NewDailyFileWriter retentionDays =
     \<lparr>fw_retentionDays = normalizeMaxDays retentionDays, fw_currentDate = [], fw_currentFile = None,
      fw_lastCleanup = [], fw_dirReady = False\<rparr>"

definition SetRetentionDays :: "int \<Rightarrow> file_writer \<Rightarrow> file_writer" where
  "SetRetentionDays days w = w\<lparr>fw_retentionDays := normalizeMaxDays days\<rparr>"

definition ensureDirLocked :: "file_writer \<Rightarrow> log_disk \<Rightarrow> log_error option \<times> file_writer \<times> log_disk" where
  "ensureDirLocked w d =
     (if fw_dirReady w then (None, w, d)
      else (case disk_mkdir d of
              (Some e, d1) \<Rightarrow> (Some e, w, d1)
            | (None, d1) \<Rightarrow> (None, w\<lparr>fw_dirReady := True\<rparr>, d1)))"

definition fileNameForDate :: "string \<Rightarrow> string" where
  "fileNameForDate date = date @ fileExtension"

definition rotateLocked :: "log_clock \<Rightarrow> file_writer \<Rightarrow> log_disk \<Rightarrow> log_error option \<times> file_writer \<times> log_disk" where
  "rotateLocked c w d =
     (let date = format_date (lc_today c)
      in if fw_currentDate w = date \<and> fw_currentFile w \<noteq> None then (None, w, d)
         else let w1 = w\<lparr>fw_currentFile := None\<rparr>
              in (case disk_open (fileNameForDate date) d of
                    (None, d1) \<Rightarrow> (Some (Disk_Failed (Op_Open (fileNameForDate date))), w1, d1)
                  | (Some i, d1) \<Rightarrow> (None, w1\<lparr>fw_currentDate := date, fw_currentFile := Some i\<rparr>, d1)))"

definition cleanup_cutoff :: "log_clock \<Rightarrow> int \<Rightarrow> time" where
  "cleanup_cutoff c days = lc_midnight c (lc_today c - (normalizeMaxDays days - 1))"

fun remove_expired :: "time \<Rightarrow> (string \<times> bool) list \<Rightarrow> log_disk \<Rightarrow> log_error option \<times> log_disk" where
  "remove_expired cutoff [] d = (None, d)"
| "remove_expired cutoff ((name, isDir) # es) d =
     (if isDir then remove_expired cutoff es d
      else (case parseFileDate name of
              None \<Rightarrow> remove_expired cutoff es d
            | Some day \<Rightarrow>
                if utc_midnight day < cutoff
                then (case disk_remove name d of
                        (Not_Removed, d1) \<Rightarrow> (Some (Disk_Failed (Op_Remove name)), d1)
                      | (_, d1) \<Rightarrow> remove_expired cutoff es d1)
                else remove_expired cutoff es d))"

definition log_cleanupLocked :: "log_clock \<Rightarrow> file_writer \<Rightarrow> log_disk \<Rightarrow> log_error option \<times> log_disk" where
  "log_cleanupLocked c w d =
     (case disk_list d of
        None \<Rightarrow> (Some (Disk_Failed Op_ReadDir), d)
      | Some es \<Rightarrow> remove_expired (cleanup_cutoff c (fw_retentionDays w)) es d)"

definition maybeCleanupLocked :: "log_clock \<Rightarrow> file_writer \<Rightarrow> log_disk \<Rightarrow> log_error option \<times> file_writer \<times> log_disk" where
  "maybeCleanupLocked c w d =
     (let date = format_date (lc_today c)
      in if fw_lastCleanup w = date then (None, w, d)
         else (case log_cleanupLocked c w d of
                 (Some e, d1) \<Rightarrow> (Some e, w, d1)
               | (None, d1) \<Rightarrow> (None, w\<lparr>fw_lastCleanup := date\<rparr>, d1)))"

definition writer_Write :: "log_clock \<Rightarrow> string \<Rightarrow> file_writer \<Rightarrow> log_disk \<Rightarrow> log_error option \<times> file_writer \<times> log_disk" where
  "writer_Write c p w d =
     (case ensureDirLocked w d of
        (Some e, w1, d1) \<Rightarrow> (Some e, w1, d1)
      | (None, w1, d1) \<Rightarrow>
          (case rotateLocked c w1 d1 of
             (Some e, w2, d2) \<Rightarrow> (Some e, w2, d2)
           | (None, w2, d2) \<Rightarrow>
               (case maybeCleanupLocked c w2 d2 of
                  (Some e, w3, d3) \<Rightarrow> (Some e, w3, d3)
                | (None, w3, d3) \<Rightarrow>
                    (case fw_currentFile w3 of
                       None \<Rightarrow> (Some Log_Not_Open, w3, d3)
                     | Some i \<Rightarrow>
                         if ld_fails d3 Op_Write then (Some (Disk_Failed Op_Write), w3, d3)
                         else (None, w3, disk_append i p d3)))))"

definition writer_Cleanup :: "log_clock \<Rightarrow> file_writer \<Rightarrow> log_disk \<Rightarrow> log_error option \<times> log_disk" where
  "writer_Cleanup c w d = log_cleanupLocked c w d"

definition writer_DeleteDate :: "string \<Rightarrow> file_writer \<Rightarrow> log_disk \<Rightarrow> (log_error + bool) \<times> file_writer \<times> log_disk" where
  "writer_DeleteDate date w d =
     (let w1 = (if fw_currentDate w = date \<and> fw_currentFile w \<noteq> None
                then w\<lparr>fw_currentFile := None, fw_currentDate := []\<rparr> else w)
      in (case disk_remove (fileNameForDate date) d of
            (Not_There, d1) \<Rightarrow> (Inr False, w1, d1)
          | (Not_Removed, d1) \<Rightarrow> (Inl (Disk_Failed (Op_Remove (fileNameForDate date))), w1, d1)
          | (Removed, d1) \<Rightarrow> (Inr True, w1, d1)))"

section \<open>The manager\<close>

record log_manager =
  lm_config :: logging_config
  lm_logsDir :: string
  lm_writer :: file_writer

definition log_NormalizeConfig :: "logging_config \<Rightarrow> logging_config" where
  "log_NormalizeConfig cfg = cfg\<lparr>lg_MaxDays := normalizeMaxDays (lg_MaxDays cfg)\<rparr>"

definition newLogManager :: "string \<Rightarrow> logging_config \<Rightarrow> log_manager" where
  "newLogManager logsDir cfg =
     (let n = log_NormalizeConfig cfg
      in \<lparr>lm_config = n, lm_logsDir = logsDir, lm_writer = NewDailyFileWriter (lg_MaxDays n)\<rparr>)"

definition GetConfigInfo :: "log_manager \<Rightarrow> bool \<times> int \<times> string" where
  "GetConfigInfo m = (lg_Enabled (lm_config m), lg_MaxDays (lm_config m), lm_logsDir m)"

definition log_UpdateConfig :: "log_clock \<Rightarrow> logging_config \<Rightarrow> log_manager \<Rightarrow> log_disk \<Rightarrow>
    (bool \<times> int \<times> string) \<times> log_manager \<times> log_disk" where
  "log_UpdateConfig c cfg m d =
     (let n = log_NormalizeConfig cfg;
          m1 = m\<lparr>lm_config := n, lm_writer := SetRetentionDays (lg_MaxDays n) (lm_writer m)\<rparr>
      in (GetConfigInfo m1, m1, snd (writer_Cleanup c (lm_writer m1) d)))"

text \<open>The fields of an entry in the order in which they are written.\<close>

datatype log_value = LV_Str string | LV_Int int | LV_Uint "64 word" | LV_Bool bool | LV_Ints "int list"

definition entry_fields :: "log_entry \<Rightarrow> (string \<times> log_value) list" where
  "entry_fields e =
     [(''method'', LV_Str (le_Method e)), (''scheme'', LV_Str (le_Scheme e)), (''host'', LV_Str (le_Host e)),
      (''path'', LV_Str (le_Path e)), (''query'', LV_Str (le_Query e)), (''request_uri'', LV_Str (le_RequestURI e)),
      (''protocol'', LV_Str (le_Protocol e)), (''status'', LV_Int (le_Status e)),
      (''duration_ms'', LV_Int (le_DurationMs e)), (''remote_ip'', LV_Str (le_RemoteIP e)),
      (''remote_addr'', LV_Str (le_RemoteAddr e)), (''user_agent'', LV_Str (le_UserAgent e)),
      (''referer'', LV_Str (le_Referer e)), (''logged_in'', LV_Bool (le_LoggedIn e)),
      (''auth_required'', LV_Bool (le_AuthRequired e)), (''auth_decision'', LV_Str (le_AuthDecision e)),
      (''auth_credential_id'', LV_Str (le_AuthCredentialID e)),
      (''auth_credential_name'', LV_Str (le_AuthCredentialName e)),
      (''auth_credential_method'', LV_Str (le_AuthCredentialMethod e)),
      (''auth_linked_totp_id'', LV_Str (le_AuthLinkedTOTPID e)),
      (''auth_linked_totp_name'', LV_Str (le_AuthLinkedTOTPName e)), (''access_mode'', LV_Str (le_AccessMode e)),
      (''route_type'', LV_Str (le_RouteType e)), (''route_key'', LV_Str (le_RouteKey e)),
      (''upstream'', LV_Str (le_Upstream e)), (''matched'', LV_Bool (le_Matched e)),
      (''bytes_in'', LV_Uint (le_BytesIn e)), (''bytes_out'', LV_Uint (le_BytesOut e)), (''tls'', LV_Bool (le_TLS e)),
      (''websocket'', LV_Bool (le_WebSocket e)), (''ali_real_client_ip'', LV_Str (le_AliRealClientIP e)),
      (''eo_connecting_ip'', LV_Str (le_EOConnectingIP e)), (''x_forwarded_for'', LV_Str (le_XForwardedFor e)),
      (''x_real_ip'', LV_Str (le_XRealIP e)), (''waf_blocked'', LV_Bool (le_WAFBlocked e)),
      (''waf_trace_id'', LV_Str (le_WAFTraceID e)), (''waf_mode'', LV_Str (le_WAFMode e)),
      (''waf_rule_ids'', LV_Ints (le_WAFRuleIDs e)), (''waf_action'', LV_Str (le_WAFAction e)),
      (''waf_bundle'', LV_Str (le_WAFBundle e)), (''general_blacklist_blocked'', LV_Bool (le_GeneralBlacklistBlocked e))]"

text \<open>
  The logger of \<^verbatim>\<open>zerolog\<close> (\<open>encode\<close>) adds level and time, ends the line and hands it to the
  writer, whose error is dropped.
\<close>

definition manager_Log :: "((string \<times> log_value) list \<Rightarrow> string) \<Rightarrow> log_clock \<Rightarrow> log_entry \<Rightarrow> log_manager \<Rightarrow> log_disk \<Rightarrow>
    log_manager \<times> log_disk" where
  "manager_Log encode c e m d =
     (if \<not> lg_Enabled (lm_config m) then (m, d)
      else (case writer_Write c (encode (entry_fields e)) (lm_writer m) d of
              (_, w, d1) \<Rightarrow> (m\<lparr>lm_writer := w\<rparr>, d1)))"

definition listDates :: "log_clock \<Rightarrow> bool \<Rightarrow> log_disk \<Rightarrow> query_error + string list" where
  "listDates c includeToday d =
     (case disk_list d of
        None \<Rightarrow> Inl Log_Dir_Unreadable
      | Some es \<Rightarrow>
          let dates = map format_date (List.map_filter (\<lambda>(name, isDir). if isDir then None else parseFileDate name) es)
          in Inr (rev (sort (remdups (dates @ (if includeToday then [format_date (lc_today c)] else []))))))"

definition GetDates :: "log_clock \<Rightarrow> log_manager \<Rightarrow> log_disk \<Rightarrow> query_error + string \<times> string \<times> string list" where
  "GetDates c m d =
     map_sum id (\<lambda>dates. (format_date (lc_today c), lm_logsDir m, dates)) (listDates c True d)"

definition normalizePaginationMode :: "string \<Rightarrow> string" where
  "normalizePaginationMode raw = (if equal_fold (trim_space raw) ''cursor'' then ''cursor'' else ''page'')"

record query_result =
  qr_Date :: string
  qr_LogsDir :: string
  qr_AvailableDates :: "string list"
  qr_Pagination :: string
  qr_Page :: int
  qr_Limit :: int
  qr_Total :: int
  qr_Cursor :: string
  qr_NextCursor :: string
  qr_HasMore :: bool
  qr_Items :: "log_entry list"

record log_query =
  lq_date :: string
  lq_page :: int
  lq_limit :: int
  lq_search :: string
  lq_status :: string
  lq_loggedIn :: string
  lq_credential :: string
  lq_cursor :: string
  lq_pagination :: string

definition clamp_limit :: "int \<Rightarrow> int" where
  "clamp_limit limit = (let l = (if limit \<le> 0 then 20 else limit) in if l > 200 then 200 else l)"

definition manager_Query :: "query_lib \<Rightarrow> log_clock \<Rightarrow> log_query \<Rightarrow> log_manager \<Rightarrow> log_disk \<Rightarrow> query_error + query_result" where
  "manager_Query L c q m d =
     (case normalizeDate c (lq_date q) of
        Inl e \<Rightarrow> Inl e
      | Inr selectedDate \<Rightarrow>
          let page = (if lq_page q \<le> 0 then 1 else lq_page q);
              limit = clamp_limit (lq_limit q);
              file = disk_file (fileNameForDate selectedDate) d
          in (case newQueryFilter (ql_unicode L) (lq_search q) (lq_status q) (lq_loggedIn q) (lq_credential q) of
                Inl e \<Rightarrow> Inl e
              | Inr flt \<Rightarrow>
                  (case listDates c True d of
                     Inl e \<Rightarrow> Inl e
                   | Inr dates \<Rightarrow>
                       let mode = normalizePaginationMode (lq_pagination q);
                           r = \<lparr>qr_Date = selectedDate, qr_LogsDir = lm_logsDir m, qr_AvailableDates = dates,
                                qr_Pagination = mode, qr_Page = page, qr_Limit = limit, qr_Total = 0,
                                qr_Cursor = [], qr_NextCursor = [], qr_HasMore = False, qr_Items = []\<rparr>
                       in if mode = ''cursor''
                          then (case queryEntriesByCursor L file flt (lq_cursor q) (nat limit) of
                                  Inl e \<Rightarrow> Inl e
                                | Inr (items, next, hasMore, rc) \<Rightarrow>
                                    Inr (r\<lparr>qr_Page := 1, qr_Cursor := rc, qr_NextCursor := next,
                                           qr_HasMore := hasMore, qr_Items := items\<rparr>))
                          else (case queryEntries L file flt page limit of
                                  Inl e \<Rightarrow> Inl e
                                | Inr (items, found, hasMore) \<Rightarrow>
                                    Inr (r\<lparr>qr_Total := found, qr_HasMore := hasMore, qr_Items := items\<rparr>)))))"

record delete_result =
  dr_Date :: string
  dr_LogsDir :: string
  dr_Deleted :: bool
  dr_AvailableDates :: "string list"

definition manager_DeleteDate :: "log_clock \<Rightarrow> string \<Rightarrow> log_manager \<Rightarrow> log_disk \<Rightarrow>
    (query_error + log_error + delete_result) \<times> log_manager \<times> log_disk" where
  "manager_DeleteDate c date m d =
     (case normalizeDate c date of
        Inl e \<Rightarrow> (Inl e, m, d)
      | Inr selectedDate \<Rightarrow>
          (case writer_DeleteDate selectedDate (lm_writer m) d of
             (Inl e, w, d1) \<Rightarrow> (Inr (Inl e), m\<lparr>lm_writer := w\<rparr>, d1)
           | (Inr deleted, w, d1) \<Rightarrow>
               (case listDates c True d1 of
                  Inl e \<Rightarrow> (Inl e, m\<lparr>lm_writer := w\<rparr>, d1)
                | Inr dates \<Rightarrow>
                    (Inr (Inr \<lparr>dr_Date = selectedDate, dr_LogsDir = lm_logsDir m, dr_Deleted = deleted,
                               dr_AvailableDates = dates\<rparr>), m\<lparr>lm_writer := w\<rparr>, d1))))"

end
