(* ===== verification/LogWriter.thy ===== *)
theory LogWriter
  imports LogFiles
begin

text \<open>
  What the log writer keeps (\<^verbatim>\<open>DailyFileWriter\<close> of \<^verbatim>\<open>pkg/gatewaylog/manager.go\<close>): which
  files a cleanup removes, what a sequence of writes of one day leaves, and that what was logged is
  found by the queries.  The cutoff is a local midnight and the day of a file is read as a UTC
  midnight, so the zone of the host matters.
\<close>

section \<open>Cleanup\<close>

definition log_expired :: "time \<Rightarrow> string \<Rightarrow> bool" where
  "log_expired cutoff name =
     (case parseFileDate name of None \<Rightarrow> False | Some day \<Rightarrow> utc_midnight day < cutoff)"

definition disk_ok :: "log_disk \<Rightarrow> bool" where
  "disk_ok d = (al_ok (ld_names d) \<and> (\<forall>op. \<not> ld_fails d op) \<and>
     (\<forall>x i. al_get (ld_names d) x = Some (Some i) \<longrightarrow> i < length (ld_data d)) \<and>
     (ld_exists d \<or> ld_names d = []))"

text \<open>The names after a cleanup.\<close>

definition after_cleanup :: "time \<Rightarrow> log_disk \<Rightarrow> string \<Rightarrow> nat option option" where
  "after_cleanup cutoff d x =
     (case al_get (ld_names d) x of
        Some (Some i) \<Rightarrow> if log_expired cutoff x then None else Some (Some i)
      | r \<Rightarrow> r)"

lemma remove_expired_spec:
  assumes "ld_exists d" "\<forall>op. \<not> ld_fails d op" "al_ok (ld_names d)"
  shows "\<exists>names. remove_expired cutoff es d = (None, d\<lparr>ld_names := names\<rparr>) \<and> al_ok names \<and>
    (\<forall>x. al_get names x = (if (x, False) \<in> set es \<and> log_expired cutoff x then None else al_get (ld_names d) x))"
  using assms
proof (induction cutoff es d rule: remove_expired.induct)
  case (1 cutoff d)
  then show ?case by (intro exI [of _ "ld_names d"]) simp
next
  case (2 cutoff name isDir es d)
  show ?case
  proof (cases "\<not> isDir \<and> log_expired cutoff name")
    case False
    then have "remove_expired cutoff ((name, isDir) # es) d = remove_expired cutoff es d"
      by (auto simp: log_expired_def split: option.splits)
    moreover have "\<exists>names. remove_expired cutoff es d = (None, d\<lparr>ld_names := names\<rparr>) \<and> al_ok names \<and>
        (\<forall>x. al_get names x = (if (x, False) \<in> set es \<and> log_expired cutoff x then None else al_get (ld_names d) x))"
      using 2 False by (cases isDir; cases "parseFileDate name") (auto simp: log_expired_def)
    ultimately show ?thesis using False by auto
  next
    case True
    then obtain day where day: "parseFileDate name = Some day" "utc_midnight day < cutoff"
      by (auto simp: log_expired_def split: option.splits)
    obtain r d1 where rm: "disk_remove name d = (r, d1)" by fastforce
    then have r: "r \<noteq> Not_Removed" using 2(5) "2.prems" by (auto simp: disk_remove_def split: if_splits)
    have d1: "\<exists>n1. d1 = d\<lparr>ld_names := n1\<rparr> \<and> al_ok n1 \<and> (\<forall>x. al_get n1 x = (if x = name then None else al_get (ld_names d) x))"
    proof (cases "al_get (ld_names d) name = None")
      case True
      then show ?thesis using rm "2.prems" by (intro exI [of _ "ld_names d"]) (auto simp: disk_remove_def)
    next
      case False
      then show ?thesis using rm "2.prems"
        by (intro exI [of _ "al_del name (ld_names d)"]) (auto simp: disk_remove_def alist_simps)
    qed
    then obtain n1 where n1: "d1 = d\<lparr>ld_names := n1\<rparr>" "al_ok n1"
      "\<forall>x. al_get n1 x = (if x = name then None else al_get (ld_names d) x)" by blast
    have eq: "remove_expired cutoff ((name, isDir) # es) d = remove_expired cutoff es d1"
      using True day rm r by (cases r) auto
    have "\<exists>names. remove_expired cutoff es d1 = (None, d1\<lparr>ld_names := names\<rparr>) \<and> al_ok names \<and>
        (\<forall>x. al_get names x = (if (x, False) \<in> set es \<and> log_expired cutoff x then None else al_get (ld_names d1) x))"
      using "2.IH" True day rm r n1 "2.prems" by (cases r) auto
    then show ?thesis unfolding eq using n1 True by auto
  qed
qed

lemma cleanup_spec:
  assumes "disk_ok d" "ld_exists d"
  shows "\<exists>names. log_cleanupLocked c w d = (None, d\<lparr>ld_names := names\<rparr>) \<and> al_ok names \<and>
    (\<forall>x. al_get names x = after_cleanup (cleanup_cutoff c (fw_retentionDays w)) d x)"
proof -
  let ?es = "sort_key fst (map (\<lambda>(n, f). (n, f = None)) (ld_names d))"
  have d: "al_ok (ld_names d)" "\<forall>op. \<not> ld_fails d op" using assms by (auto simp: disk_ok_def)
  have es: "(x, False) \<in> set ?es \<longleftrightarrow> (\<exists>i. al_get (ld_names d) x = Some (Some i))" for x
    using d(1) by (force simp: al_get_iff)
  have "disk_list d = Some ?es" using assms d by (simp add: disk_list_def)
  then have "log_cleanupLocked c w d = remove_expired (cleanup_cutoff c (fw_retentionDays w)) ?es d"
    by (simp add: log_cleanupLocked_def)
  then show ?thesis
    using remove_expired_spec [OF assms(2) d(2,1), of "cleanup_cutoff c (fw_retentionDays w)" ?es]
    unfolding es after_cleanup_def by (auto split: option.splits)
qed

section \<open>The zone\<close>

text \<open>At or east of Greenwich a day begins no later than in UTC, but less than a day earlier.\<close>

definition zone_east :: "log_clock \<Rightarrow> bool" where
  "zone_east c = (\<forall>k. utc_midnight (k - 1) < lc_midnight c k \<and> lc_midnight c k \<le> utc_midnight k)"

lemma utc_midnight_mono: "utc_midnight a \<le> utc_midnight b \<longleftrightarrow> a \<le> b"
  by (simp add: utc_midnight_def second_def)

lemma expired_east:
  assumes "zone_east c"
  shows "utc_midnight day < lc_midnight c k \<longleftrightarrow> day < k"
proof
  assume "utc_midnight day < lc_midnight c k"
  then have "utc_midnight day < utc_midnight k" using assms by (metis zone_east_def less_le_trans)
  then show "day < k" using utc_midnight_mono [of k day] by linarith
next
  assume "day < k"
  then have "utc_midnight day \<le> utc_midnight (k - 1)" by (simp add: utc_midnight_mono)
  then show "utc_midnight day < lc_midnight c k" using assms by (metis zone_east_def le_less_trans)
qed

section \<open>The writes of a day\<close>

definition write_all :: "log_clock \<Rightarrow> string list \<Rightarrow> file_writer \<Rightarrow> log_disk \<Rightarrow> file_writer \<times> log_disk" where
  "write_all c ps w d = foldl (\<lambda>(w, d) p. snd (writer_Write c p w d)) (w, d) ps"

text \<open>The name of today's file, and its text before.\<close>

definition today_name :: "log_clock \<Rightarrow> string" where
  "today_name c = fileNameForDate (format_date (lc_today c))"

definition text_of :: "string \<Rightarrow> log_disk \<Rightarrow> string" where
  "text_of name d = (case al_get (ld_names d) name of Some (Some i) \<Rightarrow> ld_data d ! i | _ \<Rightarrow> [])"

text \<open>A writer that has written on another day or never, and no directory in the way.\<close>

definition new_day :: "log_clock \<Rightarrow> file_writer \<Rightarrow> log_disk \<Rightarrow> bool" where
  "new_day c w d =
     (fw_currentDate w \<noteq> format_date (lc_today c) \<and> fw_lastCleanup w \<noteq> format_date (lc_today c) \<and>
      (fw_dirReady w \<longrightarrow> ld_exists d) \<and> al_get (ld_names d) (today_name c) \<noteq> Some None)"

definition in_day :: "log_clock \<Rightarrow> nat \<Rightarrow> file_writer \<Rightarrow> log_disk \<Rightarrow> bool" where
  "in_day c i w d =
     (fw_currentDate w = format_date (lc_today c) \<and> fw_lastCleanup w = format_date (lc_today c) \<and>
      fw_currentFile w = Some i \<and> fw_dirReady w \<and> i < length (ld_data d) \<and> (\<forall>op. \<not> ld_fails d op) \<and> ld_exists d)"

lemma ensure_dir:
  assumes "disk_ok d" "fw_dirReady w \<longrightarrow> ld_exists d"
  shows "ensureDirLocked w d = (None, w\<lparr>fw_dirReady := True\<rparr>, d\<lparr>ld_exists := True\<rparr>)"
  using assms by (cases w; cases d) (auto simp: ensureDirLocked_def disk_mkdir_def disk_ok_def)

lemma rotate_new:
  assumes "disk_ok d" "ld_exists d" "fw_currentDate w \<noteq> format_date (lc_today c)" "al_get (ld_names d) (today_name c) \<noteq> Some None"
  shows "\<exists>i d1. rotateLocked c w d = (None, w\<lparr>fw_currentDate := format_date (lc_today c), fw_currentFile := Some i\<rparr>, d1) \<and>
    al_get (ld_names d1) (today_name c) = Some (Some i) \<and> i < length (ld_data d1) \<and> ld_data d1 ! i = text_of (today_name c) d \<and>
    disk_ok d1 \<and> ld_exists d1"
proof (cases "al_get (ld_names d) (today_name c)")
  case None
  let ?d = "d\<lparr>ld_names := al_put (today_name c) (Some (length (ld_data d))) (ld_names d), ld_data := ld_data d @ [[]]\<rparr>"
  have "disk_open (today_name c) d = (Some (length (ld_data d)), ?d)"
    using assms None by (simp add: disk_open_def disk_ok_def)
  moreover have "disk_ok ?d"
    using assms(1,2) by (auto simp: disk_ok_def alist_simps less_Suc_eq)
  ultimately show ?thesis
    using assms(2,3) None
    by (intro exI [of _ "length (ld_data d)"] exI [of _ ?d]) (simp add: rotateLocked_def Let_def today_name_def alist_simps text_of_def)
next
  case (Some f)
  then obtain i where f: "f = Some i" using assms(4) by (cases f) auto
  have "disk_open (today_name c) d = (Some i, d)" using assms Some f by (simp add: disk_open_def disk_ok_def)
  moreover have "i < length (ld_data d)" using assms(1) Some f by (auto simp: disk_ok_def)
  ultimately show ?thesis
    using assms Some f by (intro exI [of _ i] exI [of _ d]) (simp add: rotateLocked_def Let_def today_name_def text_of_def)
qed

lemma first_write:
  assumes "disk_ok d" "new_day c w d"
  shows "\<exists>i w' d'. writer_Write c p w d = (None, w', d') \<and> in_day c i w' d' \<and>
    ld_data d' ! i = text_of (today_name c) d @ p \<and>
    al_get (ld_names d') (today_name c) =
      (if log_expired (cleanup_cutoff c (fw_retentionDays w)) (today_name c) then None else Some (Some i))"
proof -
  let ?d0 = "d\<lparr>ld_exists := True\<rparr>" and ?w0 = "w\<lparr>fw_dirReady := True\<rparr>"
  have e: "ensureDirLocked w d = (None, ?w0, ?d0)" using assms by (intro ensure_dir) (auto simp: new_day_def)
  have ok0: "disk_ok ?d0" "ld_exists ?d0" using assms(1) by (auto simp: disk_ok_def)
  obtain i d1 where r: "rotateLocked c ?w0 ?d0 = (None, ?w0\<lparr>fw_currentDate := format_date (lc_today c), fw_currentFile := Some i\<rparr>, d1)"
    and n1: "al_get (ld_names d1) (today_name c) = Some (Some i)" and i: "i < length (ld_data d1)"
    and t: "ld_data d1 ! i = text_of (today_name c) ?d0" and ok1: "disk_ok d1" "ld_exists d1"
    using rotate_new [OF ok0, of ?w0 c] assms(2) by (auto simp: new_day_def)
  let ?w1 = "?w0\<lparr>fw_currentDate := format_date (lc_today c), fw_currentFile := Some i\<rparr>"
  obtain names where cl: "log_cleanupLocked c ?w1 d1 = (None, d1\<lparr>ld_names := names\<rparr>)"
    and nm: "\<forall>x. al_get names x = after_cleanup (cleanup_cutoff c (fw_retentionDays ?w1)) d1 x"
    using cleanup_spec [OF ok1, of c ?w1] by blast
  let ?d2 = "d1\<lparr>ld_names := names\<rparr>" and ?w2 = "?w1\<lparr>fw_lastCleanup := format_date (lc_today c)\<rparr>"
  have m: "maybeCleanupLocked c ?w1 d1 = (None, ?w2, ?d2)"
    using assms(2) cl by (simp add: maybeCleanupLocked_def Let_def new_day_def)
  have nf: "\<forall>op. \<not> ld_fails d1 op" using ok1 by (simp add: disk_ok_def)
  have wr: "writer_Write c p w d = (None, ?w2, disk_append i p ?d2)"
    using e r m nf by (simp add: writer_Write_def)
  have "text_of (today_name c) ?d0 = text_of (today_name c) d" by (auto simp: text_of_def split: option.splits)
  then show ?thesis
    using wr i t nf ok1 nm n1
    by (intro exI [of _ i] exI [of _ ?w2] exI [of _ "disk_append i p ?d2"])
      (simp add: in_day_def disk_append_def after_cleanup_def)
qed

lemma later_write:
  assumes "in_day c i w d"
  shows "writer_Write c p w d = (None, w, disk_append i p d)"
  using assms by (simp add: writer_Write_def ensureDirLocked_def rotateLocked_def maybeCleanupLocked_def Let_def in_day_def)

lemma later_writes:
  assumes "in_day c i w d"
  shows "\<exists>d'. write_all c ps w d = (w, d') \<and> ld_data d' ! i = ld_data d ! i @ concat ps \<and> ld_names d' = ld_names d \<and> ld_exists d'"
  using assms
proof (induction ps arbitrary: d)
  case Nil
  then show ?case by (simp add: write_all_def in_day_def)
next
  case (Cons p ps)
  let ?d = "disk_append i p d"
  have "in_day c i w ?d" using Cons.prems by (simp add: in_day_def disk_append_def)
  from Cons.IH [OF this] obtain d' where "write_all c ps w ?d = (w, d')" "ld_data d' ! i = ld_data ?d ! i @ concat ps"
    "ld_names d' = ld_names ?d" "ld_exists d'" by blast
  moreover have "i < length (ld_data d)" using Cons.prems by (simp add: in_day_def)
  ultimately show ?case
    using later_write [OF Cons.prems, of p] by (simp add: write_all_def disk_append_def)
qed

lemma day_writes:
  assumes "disk_ok d" "new_day c w d" "ps \<noteq> []"
  shows "\<exists>i w' d'. write_all c ps w d = (w', d') \<and> ld_data d' ! i = text_of (today_name c) d @ concat ps \<and> ld_exists d' \<and>
    al_get (ld_names d') (today_name c) =
      (if log_expired (cleanup_cutoff c (fw_retentionDays w)) (today_name c) then None else Some (Some i))"
proof -
  obtain p qs where ps: "ps = p # qs" using assms(3) by (cases ps) auto
  obtain i w' d1 where f: "writer_Write c p w d = (None, w', d1)" "in_day c i w' d1"
    "ld_data d1 ! i = text_of (today_name c) d @ p"
    "al_get (ld_names d1) (today_name c) =
      (if log_expired (cleanup_cutoff c (fw_retentionDays w)) (today_name c) then None else Some (Some i))"
    using first_write [OF assms(1,2)] by blast
  obtain d' where "write_all c qs w' d1 = (w', d')" "ld_data d' ! i = ld_data d1 ! i @ concat qs" "ld_names d' = ld_names d1" "ld_exists d'"
    using later_writes [OF f(2)] by blast
  then show ?thesis using f by (intro exI [of _ i] exI [of _ w'] exI [of _ d']) (simp add: ps write_all_def)
qed

section \<open>Whether today's file survives\<close>

lemma name_date:
  assumes "parse_date s = Some day"
  shows "parseFileDate (fileNameForDate s) = Some day"
proof -
  have "CHR ''.'' \<notin> set s" "CHR ''/'' \<notin> set s"
    using parse_date_chars [OF assms] by (auto simp: list_all_iff is_digit_def byte_def)
  then have b: "rev (takeWhile (\<lambda>c. c \<noteq> CHR ''/'') (rev (s @ ''.log''))) = s @ ''.log''"
    by (subst takeWhile_eq_all_conv [THEN iffD2]) auto
  have "last_index_byte (s @ ''.log'') CHR ''.'' = Some (length s)" by (simp add: last_index_byte_def)
  then have "path_ext (s @ ''.log'') = ''.log''" unfolding path_ext_def b Let_def by simp
  moreover have "trimSuffix (s @ ''.log'') ''.log'' = s" by (simp add: trimSuffix_def hasSuffix_def suffix_def)
  ultimately show ?thesis using assms by (simp add: parseFileDate_def fileNameForDate_def fileExtension_def)
qed

lemma today_expired:
  assumes "parse_date s = Some (lc_today c)"
  shows "log_expired cutoff (today_name c) \<longleftrightarrow> utc_midnight (lc_today c) < cutoff"
  using name_date [OF assms] format_parse_date [OF assms] by (simp add: log_expired_def today_name_def)

text \<open>
  The writes of one day, at or east of Greenwich: today's file holds what it held and then every
  line in order, whatever was removed for its age at the first of them.
\<close>

theorem day_file_complete:
  assumes "zone_east c" "parse_date s = Some (lc_today c)" "disk_ok d" "new_day c w d" "ps \<noteq> []" "0 < fw_retentionDays w"
  shows "disk_file (today_name c) (snd (write_all c ps w d)) = Log_Text (text_of (today_name c) d @ concat ps)"
proof -
  have "\<not> log_expired (cleanup_cutoff c (fw_retentionDays w)) (today_name c)"
    using assms(6) unfolding today_expired [OF assms(2)] cleanup_cutoff_def expired_east [OF assms(1)]
    by (simp add: normalizeMaxDays_def)
  then show ?thesis using day_writes [OF assms(3,4,5)] by (auto simp: disk_file_def)
qed


section \<open>What was logged is found\<close>

lemma split_lines:
  "\<forall>l \<in> set ls. newline \<notin> set l \<Longrightarrow> split_byte newline (concat (map (\<lambda>l. l @ [newline]) ls)) = ls @ [[]]"
  by (induction ls) (simp_all add: split_at_newline split_atom)

lemma trim_cr_id: "return_char \<notin> set l \<Longrightarrow> trim_cr l = l"
  by (cases "rev l") (auto simp: trim_cr_def trim_right_set_def rev_swap dest: arg_cong [where f = set])

lemma proper_of_lines:
  "\<forall>l \<in> set ls. l \<noteq> [] \<and> return_char \<notin> set l \<Longrightarrow> map fst (proper_lines (lines_at p (ls @ [[]]))) = ls"
proof (induction ls arbitrary: p)
  case Nil
  then show ?case by (simp add: proper_lines_def trim_cr_id)
next
  case (Cons l ls)
  then show ?case by (simp add: proper_lines_def trim_cr_id)
qed

lemma desc_of_lines:
  assumes "\<forall>l \<in> set ls. l \<noteq> [] \<and> newline \<notin> set l \<and> return_char \<notin> set l"
  shows "map fst (lines_desc (concat (map (\<lambda>l. l @ [newline]) ls))) = rev ls"
  using split_lines [of ls] proper_of_lines [of ls 0] assms by (simp add: lines_desc_def rev_map [symmetric])

lemma matches_of_lines:
  "map fst (cursor_matches L q t) = List.map_filter (decoded_match L q) (map fst (lines_desc t))"
proof -
  have "map fst (List.map_filter (\<lambda>(l, p). map_option (\<lambda>e. (e, p)) (decoded_match L q l)) ls) =
      List.map_filter (decoded_match L q) (map fst ls)" for ls :: "(string \<times> nat) list"
    by (induction ls) (auto simp: map_filter_simps split: option.splits)
  then show ?thesis by (simp add: cursor_matches_def)
qed

definition log_all :: "((string \<times> log_value) list \<Rightarrow> string) \<Rightarrow> log_clock \<Rightarrow> log_entry list \<Rightarrow> log_manager \<Rightarrow> log_disk \<Rightarrow>
    log_manager \<times> log_disk" where
  "log_all encode c es m d = foldl (\<lambda>(m, d) e. manager_Log encode c e m d) (m, d) es"

lemma log_all_writes:
  "lg_Enabled (lm_config m) \<Longrightarrow>
     snd (log_all encode c es m d) = snd (write_all c (map (\<lambda>e. encode (entry_fields e)) es) (lm_writer m) d)"
proof (induction es arbitrary: m d)
  case (Cons e es)
  obtain r w d1 where "writer_Write c (encode (entry_fields e)) (lm_writer m) d = (r, w, d1)" by (metis prod_cases3)
  then show ?case using Cons by (simp add: log_all_def write_all_def manager_Log_def)
qed (simp add: log_all_def write_all_def)

text \<open>A line as the logger writes it: not empty, ended by its only newline, without carriage returns.\<close>

definition one_line :: "string \<Rightarrow> bool" where
  "one_line p = (\<exists>l. p = l @ [newline] \<and> l \<noteq> [] \<and> newline \<notin> set l \<and> return_char \<notin> set l)"

lemma lines_of_encoded:
  "\<forall>e \<in> set es. one_line (f e) \<Longrightarrow> \<exists>ls. map f es = map (\<lambda>l. l @ [newline]) ls \<and> ls = map (butlast \<circ> f) es \<and>
     (\<forall>l \<in> set ls. l \<noteq> [] \<and> newline \<notin> set l \<and> return_char \<notin> set l)"
  by (induction es) (auto simp: one_line_def)

text \<open>C13: entries logged on one day, in a zone at or east of Greenwich, are all in the file of that day:
  following the cursors returns the matching ones, newest first, each once.\<close>

theorem logged_entries_found:
  assumes "zone_east c" "parse_date s = Some (lc_today c)" "disk_ok d" "al_get (ld_names d) (today_name c) = None"
    and "lg_Enabled cfg" "es \<noteq> []" "\<forall>e \<in> set es. one_line (encode (entry_fields e))"
    and "0 < limit" "length (concat (map (\<lambda>e. encode (entry_fields e)) es)) < fuel" "int fuel \<le> max_int64"
  shows "cursor_walk L (disk_file (today_name c) (snd (log_all encode c es (newLogManager dir cfg) d))) q limit fuel [] =
    Some (List.map_filter (\<lambda>e. decoded_match L q (butlast (encode (entry_fields e)))) (rev es))"
proof -
  let ?m = "newLogManager dir cfg" and ?f = "\<lambda>e. encode (entry_fields e)"
  let ?t = "concat (map ?f es)"
  have m: "lg_Enabled (lm_config ?m)" "0 < fw_retentionDays (lm_writer ?m)"
    using assms(5) by (simp_all add: newLogManager_def log_NormalizeConfig_def Let_def NewDailyFileWriter_def
        normalizeMaxDays_def DefaultMaxDays_def)
  have "s \<noteq> []" using parse_date_chars [OF assms(2)] by auto
  then have nd: "new_day c (lm_writer ?m) d"
    using assms(4) format_parse_date [OF assms(2)]
    by (simp add: new_day_def newLogManager_def Let_def NewDailyFileWriter_def)
  have empty: "text_of (today_name c) d = []" using assms(4) by (simp add: text_of_def)
  have day: "disk_file (today_name c) (snd (log_all encode c es ?m d)) = Log_Text ?t"
    unfolding log_all_writes [OF m(1)]
    using day_file_complete [OF assms(1,2,3) nd _ m(2), of "map ?f es"] assms(6) empty by simp
  obtain ls where ls: "map ?f es = map (\<lambda>l. l @ [newline]) ls" "ls = map (butlast \<circ> ?f) es"
    "\<forall>l \<in> set ls. l \<noteq> [] \<and> newline \<notin> set l \<and> return_char \<notin> set l"
    using lines_of_encoded [OF assms(7)] by blast
  have "map fst (lines_desc ?t) = rev ls" unfolding ls(1) by (rule desc_of_lines [OF ls(3)])
  then have "map fst (cursor_matches L q ?t) = List.map_filter (decoded_match L q) (rev ls)"
    by (simp add: matches_of_lines)
  also have "\<dots> = List.map_filter (\<lambda>e. decoded_match L q (butlast (?f e))) (rev es)"
    unfolding ls(2) rev_map by (simp add: List.map_filter_def filter_map o_def)
  finally have res: "map fst (cursor_matches L q ?t) = \<dots>" .
  have "resolveCursorOffset (length ?t) [] = Inr (length ?t, [])" by (simp add: resolveCursorOffset_def)
  then have "cursor_walk L (Log_Text ?t) q limit fuel [] = Some (map fst (cursor_matches L q (take (length ?t) ?t)))"
    using assms(8-10) by (intro walk_from) auto
  then show ?thesis by (simp add: day res)
qed

section \<open>Witnesses\<close>

text \<open>A clock of a host at Greenwich, one of a host five hours west of it, and an empty directory.\<close>

definition greenwich_clock :: log_clock where
  "greenwich_clock = \<lparr>lc_today = 738945, lc_midnight = utc_midnight\<rparr>"

definition western_clock :: log_clock where
  "western_clock = \<lparr>lc_today = 738945, lc_midnight = \<lambda>k. utc_midnight k + 5 * 3600 * second\<rparr>"

definition empty_disk :: log_disk where
  "empty_disk = \<lparr>ld_exists = False, ld_names = [], ld_data = [], ld_fails = \<lambda>_. False\<rparr>"

lemma sample_today: "parse_date ''2024-03-01'' = Some 738945" "format_date 738945 = ''2024-03-01''"
  by code_simp+

lemma empty_disk_names: "al_get (ld_names empty_disk) x = None"
  by (simp add: empty_disk_def alist_simps)

lemma empty_disk_ok: "disk_ok empty_disk"
  by (simp add: disk_ok_def empty_disk_names) (simp add: empty_disk_def al_ok_def)


text \<open>An encoder that writes the status only.\<close>

definition status_encoder :: "(string \<times> log_value) list \<Rightarrow> string" where
  "status_encoder fs =
     ''{'' @ [CHR 0x22] @ ''status'' @ [CHR 0x22] @ '':'' @
     (if map_of fs ''status'' = Some (LV_Int 404) then ''404'' else ''200'') @ ''}'' @ [newline]"

theorem logged_entries_found_witness:
  "cursor_walk sample_lib (disk_file ''2024-03-01.log''
      (snd (log_all status_encoder greenwich_clock [sample_entry 200 False, sample_entry 404 False]
              (newLogManager [] \<lparr>lg_Enabled = True, lg_MaxDays = 7\<rparr>) empty_disk)))
      not_found_filter 5 100 [] = Some [sample_entry 404 False]"
proof -
  let ?es = "[sample_entry 200 False, sample_entry 404 False]"
  have name: "today_name greenwich_clock = ''2024-03-01.log''"
    by (simp add: today_name_def greenwich_clock_def sample_today fileNameForDate_def fileExtension_def)
  have east: "zone_east greenwich_clock"
    by (simp add: zone_east_def greenwich_clock_def utc_midnight_def second_def)
  have enc: "\<forall>e \<in> set ?es. one_line (status_encoder (entry_fields e))"
    by (auto simp: one_line_def status_encoder_def entry_fields_def sample_entry_def newline_def return_char_def)
  have len: "length (concat (map (\<lambda>e. status_encoder (entry_fields e)) ?es)) < 100" by code_simp
  have res: "List.map_filter (\<lambda>e. decoded_match sample_lib not_found_filter (butlast (status_encoder (entry_fields e)))) (rev ?es)
      = [sample_entry 404 False]" by code_simp
  show ?thesis
    using logged_entries_found [OF east, of "''2024-03-01''" empty_disk "\<lparr>lg_Enabled = True, lg_MaxDays = 7\<rparr>" ?es
        status_encoder 5 100 sample_lib "[]" not_found_filter] enc len
    unfolding res name
    by (simp add: sample_today empty_disk_ok empty_disk_names greenwich_clock_def max_int64_def)
qed

end
