(* ===== verification/Firewall.thy ===== *)
theory Firewall
  imports ClientIP Ascii LogScan
begin

text \<open>
  The packet filter of the host, \<^verbatim>\<open>iptables/manager.go\<close>: the commands it issues and what it reads from
  their output.  The commands themselves belong to the host: the program calls them through
  \<^verbatim>\<open>commandRunner\<close>, here a record of two functions on the state \<open>'k\<close> of the host, each returning
  the output and whether the command succeeded.  The loops that delete a rule until the command
  fails are partial functions: None is a loop that does not end.
\<close>

section \<open>Running commands\<close>

record 'k fw_runner =
  fr_run :: "string \<Rightarrow> string list \<Rightarrow> 'k \<Rightarrow> (string \<times> bool) \<times> 'k"
  fr_input :: "string \<Rightarrow> string \<Rightarrow> string list \<Rightarrow> 'k \<Rightarrow> (string \<times> bool) \<times> 'k"

definition shouldUseSudo :: "unicode \<Rightarrow> string \<Rightarrow> nat \<Rightarrow> bool \<Rightarrow> bool" where
  "shouldUseSudo U env euid sudoFound =
     (let v = to_lower U (trim_space env)
      in if v \<in> {''1'', ''true'', ''yes'', ''on''} then True
         else if v \<in> {''0'', ''false'', ''no'', ''off''} then False
         else if euid = 0 then False
         else sudoFound)"

definition buildCommand :: "bool \<Rightarrow> string \<Rightarrow> string list \<Rightarrow> string \<times> string list" where
  "buildCommand useSudo command args = (if useSudo then (''sudo'', command # args) else (command, args))"

text \<open>The runner over the processes of the host: program, arguments, standard input.\<close>

definition execRunner :: "bool \<Rightarrow> (string \<Rightarrow> string list \<Rightarrow> string \<Rightarrow> 'k \<Rightarrow> (string \<times> bool) \<times> 'k) \<Rightarrow> 'k fw_runner" where
  "execRunner useSudo proc =
     \<lparr>fr_run = (\<lambda>command args k. case buildCommand useSudo command args of (p, as) \<Rightarrow> proc p as [] k),
      fr_input = (\<lambda>input command args k. case buildCommand useSudo command args of (p, as) \<Rightarrow> proc p as input k)\<rparr>"

section \<open>The manager\<close>

record fw_manager =
  fm_Chain :: string
  fm_ParentChains :: "string list"
  fm_ExemptPorts :: "string list"
  fm_tables :: "string list"
  fm_skipped :: "(string \<times> bool) list"

record access_policy =
  ap_Chain :: string
  ap_ParentChains :: "string list"
  ap_Ports :: "int list"
  ap_AllowSources :: "string list"
  ap_BlockSources :: "string list"
  ap_IncludeLocalCIDRs :: bool
  ap_DefaultAction :: string

datatype fw_error = Fw_Bad_Request | Fw_Init_Failed | Fw_Command_Failed | Fw_Parse_Failed

definition DefaultSSHFirewallChain :: string where
  "DefaultSSHFirewallChain = ''FN-KNOCK-SSH''"

definition localCIDRv4 :: "string list" where
  "localCIDRv4 = [''10.0.0.0/8'', ''172.16.0.0/12'', ''192.168.0.0/16'', ''169.254.0.0/16'', ''172.17.0.0/16'']"

definition localCIDRv6 :: "string list" where
  "localCIDRv6 = [''fc00::/7'', ''fe80::/10'']"

definition splitCommaSeparated :: "string \<Rightarrow> string list" where
  "splitCommaSeparated s =
     (if trim_space s = [] then []
      else filter (\<lambda>p. p \<noteq> []) (map trim_space (split_byte CHR '','' (trim_space s))))"

datatype parent_value = PV_String string | PV_Strings "string list" | PV_Items "string option list" | PV_Other

fun parseParentChains :: "parent_value \<Rightarrow> string list" where
  "parseParentChains (PV_String v) = splitCommaSeparated v"
| "parseParentChains (PV_Strings v) = concat (map splitCommaSeparated v)"
| "parseParentChains (PV_Items v) = concat (map (case_option [] splitCommaSeparated) v)"
| "parseParentChains PV_Other = []"

definition normalizeTables :: "string list \<Rightarrow> string list" where
  "normalizeTables tables =
     dedup_on id (\<lambda>t. if trim_space t = [] then None else Some (trim_space t)) [] tables"

record fw_options =
  fo_ChainName :: string
  fo_ParentChain :: parent_value
  fo_ExemptPorts :: "string list"
  fo_Tables :: "string list"

definition newFwManager :: "fw_options \<Rightarrow> fw_manager" where
  "newFwManager opts =
     (let parents = parseParentChains (fo_ParentChain opts); tables = normalizeTables (fo_Tables opts)
      in \<lparr>fm_Chain = (if fo_ChainName opts = [] then ''REAUTH_FW'' else fo_ChainName opts),
          fm_ParentChains = (if parents = [] then [''INPUT''] else parents),
          fm_ExemptPorts = fo_ExemptPorts opts,
          fm_tables = (if tables = [] then [''iptables'', ''ip6tables''] else tables),
          fm_skipped = []\<rparr>)"

definition hasTable :: "fw_manager \<Rightarrow> string \<Rightarrow> bool" where
  "hasTable m table = (table \<in> set (fm_tables m))"

text \<open>A failed command gives the message with command and output.\<close>

definition runTable :: "'k fw_runner \<Rightarrow> string \<Rightarrow> string list \<Rightarrow> 'k \<Rightarrow> string option \<times> 'k" where
  "runTable R table args k =
     (case fr_run R table args k of
        ((output, ok), k1) \<Rightarrow>
          (if ok then None
           else Some (table @ '' command failed: '' @ join_str '' '' args @ '', output: '' @ output), k1))"

definition runTableOutput :: "'k fw_runner \<Rightarrow> string \<Rightarrow> string list \<Rightarrow> 'k \<Rightarrow> (string + string) \<times> 'k" where
  "runTableOutput R table args k =
     (case fr_run R table args k of
        ((output, ok), k1) \<Rightarrow>
          (if ok then Inr output
           else Inl (table @ '' command failed: '' @ join_str '' '' args @ '', output: '' @ output), k1))"

definition restoreCommandForTable :: "string \<Rightarrow> string" where
  "restoreCommandForTable table =
     (if table = ''iptables'' then ''iptables-restore''
      else if table = ''ip6tables'' then ''ip6tables-restore'' else [])"

definition runTableRestore :: "'k fw_runner \<Rightarrow> string \<Rightarrow> string \<Rightarrow> 'k \<Rightarrow> string option \<times> 'k" where
  "runTableRestore R table input k =
     (let cmd = restoreCommandForTable table
      in if cmd = [] then (Some (''unsupported restore table: '' @ table), k)
         else (case fr_input R input cmd [''--noflush''] k of
                 ((output, ok), k1) \<Rightarrow>
                   (if ok then None else Some (cmd @ '' command failed: --noflush, output: '' @ output), k1)))"

text \<open>\<^verbatim>\<open>net.ParseCIDR\<close>, of which only the address is used.\<close>

definition net_parse_cidr :: "string \<Rightarrow> addr option" where
  "net_parse_cidr s =
     (case cut_byte CHR ''/'' s of
        (adr, len, found) \<Rightarrow>
          if \<not> found then None
          else (case parse_addr adr of
                  None \<Rightarrow> None
                | Some a \<Rightarrow>
                    if addr_zone a \<noteq> [] \<or> len = [] \<or> \<not> list_all is_digit len \<or> addr_bits a < dec_val len
                    then None else Some (unmap a)))"

definition tableForAddress :: "fw_manager \<Rightarrow> string \<Rightarrow> fw_error + string" where
  "tableForAddress m address =
     (let address = trim_space address
      in if address = [] then Inl Fw_Bad_Request
         else (case (case net_parse_ip address of Some ip \<Rightarrow> Some ip | None \<Rightarrow> net_parse_cidr address) of
                 None \<Rightarrow> Inl Fw_Bad_Request
               | Some (V4 _) \<Rightarrow> if hasTable m ''iptables'' then Inr ''iptables'' else Inl Fw_Command_Failed
               | Some (V6 _ _) \<Rightarrow> if hasTable m ''ip6tables'' then Inr ''ip6tables'' else Inl Fw_Command_Failed))"

section \<open>Helpers for sequences of commands\<close>

text \<open>Commands one after the other, up to the first that fails.\<close>

fun run_args :: "'k fw_runner \<Rightarrow> string \<Rightarrow> string list list \<Rightarrow> 'k \<Rightarrow> string option \<times> 'k" where
  "run_args R table [] k = (None, k)"
| "run_args R table (args # rest) k =
     (case runTable R table args k of
        (Some e, k1) \<Rightarrow> (Some e, k1)
      | (None, k1) \<Rightarrow> run_args R table rest k1)"

text \<open>A command again and again until it fails.\<close>

partial_function (option) delete_all :: "'k fw_runner \<Rightarrow> string \<Rightarrow> string list \<Rightarrow> 'k \<Rightarrow> 'k option" where
  "delete_all R table args k =
     (case runTable R table args k of
        (e, k1) \<Rightarrow> if e \<noteq> None then Some k1 else delete_all R table args k1)"

declare delete_all.simps [code]

fun each_opt :: "('a \<Rightarrow> 'k \<Rightarrow> 'k option) \<Rightarrow> 'a list \<Rightarrow> 'k \<Rightarrow> 'k option" where
  "each_opt f [] k = Some k"
| "each_opt f (x # xs) k = Option.bind (f x k) (each_opt f xs)"

section \<open>The base rules\<close>

definition localCIDRsForTable :: "string \<Rightarrow> string list" where
  "localCIDRsForTable table = (if table = ''ip6tables'' then localCIDRv6 else localCIDRv4)"

definition isMatchUnavailableError :: "unicode \<Rightarrow> string \<Rightarrow> string \<Rightarrow> bool" where
  "isMatchUnavailableError U err matchName =
     (let message = to_lower U err; q = CHR 0x27
      in contains_str message matchName \<and>
         (contains_str message (''couldn'' @ [q] @ ''t load match'') \<or> contains_str message ''could not load match'' \<or>
          contains_str message (''can'' @ [q] @ ''t load match'') \<or> contains_str message ''cannot load match'') \<and>
         contains_str message ''no such file or directory'')"

definition isEstablishedRelatedRuleSkipped :: "fw_manager \<Rightarrow> string \<Rightarrow> bool" where
  "isEstablishedRelatedRuleSkipped m table = (al_get (fm_skipped m) table = Some True)"

definition setEstablishedRelatedRuleSkipped :: "string \<Rightarrow> bool \<Rightarrow> fw_manager \<Rightarrow> fw_manager" where
  "setEstablishedRelatedRuleSkipped table skipped m = m\<lparr>fm_skipped := al_put table skipped (fm_skipped m)\<rparr>"

definition state_rule :: "string list" where
  "state_rule = [''-m'', ''state'', ''--state'', ''ESTABLISHED,RELATED'', ''-j'', ''ACCEPT'']"

definition conntrack_rule :: "string list" where
  "conntrack_rule = [''-m'', ''conntrack'', ''--ctstate'', ''ESTABLISHED,RELATED'', ''-j'', ''ACCEPT'']"

definition appendEstablishedRelatedRule ::
    "unicode \<Rightarrow> 'k fw_runner \<Rightarrow> string \<Rightarrow> fw_manager \<Rightarrow> 'k \<Rightarrow> string option \<times> fw_manager \<times> 'k" where
  "appendEstablishedRelatedRule U R table m k =
     (case runTable R table ([''-A'', fm_Chain m] @ state_rule) k of
        (None, k1) \<Rightarrow> (None, setEstablishedRelatedRuleSkipped table False m, k1)
      | (Some e, k1) \<Rightarrow>
          if \<not> isMatchUnavailableError U e ''state'' then (Some e, m, k1)
          else (case runTable R table ([''-A'', fm_Chain m] @ conntrack_rule) k1 of
                  (None, k2) \<Rightarrow> (None, setEstablishedRelatedRuleSkipped table False m, k2)
                | (Some e2, k2) \<Rightarrow>
                    if \<not> isMatchUnavailableError U e2 ''conntrack'' then (Some e2, m, k2)
                    else (None, setEstablishedRelatedRuleSkipped table True m, k2)))"

fun port_chunks :: "string list \<Rightarrow> string list list" where
  "port_chunks [] = []"
| "port_chunks (p # ps) = (p # take 14 ps) # port_chunks (drop 14 ps)"

definition port_rules :: "string list \<Rightarrow> string list list" where
  "port_rules ports =
     concat (map (\<lambda>chunk. map (\<lambda>proto. [''-p'', proto, ''-m'', ''multiport'', ''--dports'', join_str '','' chunk, ''-j'', ''ACCEPT''])
                            [''tcp'', ''udp'']) (port_chunks ports))"

definition source_rule :: "string \<Rightarrow> string \<Rightarrow> string list" where
  "source_rule source action = [''-s'', source, ''-j'', action]"

definition drop_rule :: "string list" where
  "drop_rule = [''-j'', ''DROP'']"

text \<open>The rules after the one for established connections.\<close>

definition fixed_rules :: "string \<Rightarrow> string list \<Rightarrow> string list list" where
  "fixed_rules table ports =
     map (\<lambda>cidr. source_rule cidr ''ACCEPT'') (localCIDRsForTable table) @
     [[''-p'', if table = ''ip6tables'' then ''ipv6-icmp'' else ''icmp'', ''-j'', ''ACCEPT'']] @ port_rules ports"

definition applyBaseRules ::
    "unicode \<Rightarrow> 'k fw_runner \<Rightarrow> string \<Rightarrow> fw_manager \<Rightarrow> 'k \<Rightarrow> string option \<times> fw_manager \<times> 'k" where
  "applyBaseRules U R table m k =
     (case runTable R table [''-A'', fm_Chain m, ''-i'', ''lo'', ''-j'', ''ACCEPT''] k of
        (Some e, k1) \<Rightarrow> (Some e, m, k1)
      | (None, k1) \<Rightarrow>
          (case appendEstablishedRelatedRule U R table m k1 of
             (Some e, m1, k2) \<Rightarrow> (Some e, m1, k2)
           | (None, m1, k2) \<Rightarrow>
               (case run_args R table
                       (map (\<lambda>r. [''-A'', fm_Chain m1] @ r) (fixed_rules table (fm_ExemptPorts m1) @ [drop_rule])) k2 of
                  (e, k3) \<Rightarrow> (e, m1, k3))))"

definition baseRuleCountForTable :: "fw_manager \<Rightarrow> string \<Rightarrow> nat" where
  "baseRuleCountForTable m table =
     1 + (if isEstablishedRelatedRuleSkipped m table then 0 else 1) + length (localCIDRsForTable table) + 1 +
     (if fm_ExemptPorts m = [] then 0 else (length (fm_ExemptPorts m) + 14) div 15 * 2)"

section \<open>Starting, flushing, removing the chain\<close>

definition ensureChain :: "'k fw_runner \<Rightarrow> string \<Rightarrow> string \<Rightarrow> 'k \<Rightarrow> string option \<times> 'k" where
  "ensureChain R table chain k =
     (case runTable R table [''-L'', chain, ''-n''] k of
        (None, k1) \<Rightarrow> (None, k1)
      | (Some _, k1) \<Rightarrow> runTable R table [''-N'', chain] k1)"

definition parentChainExists :: "'k fw_runner \<Rightarrow> string \<Rightarrow> string \<Rightarrow> 'k \<Rightarrow> bool \<times> 'k" where
  "parentChainExists R table parent k =
     (case runTable R table [''-L'', parent, ''-n''] k of (e, k1) \<Rightarrow> (e = None, k1))"

fun link_parents :: "'k fw_runner \<Rightarrow> string \<Rightarrow> string \<Rightarrow> string list \<Rightarrow> 'k \<Rightarrow> string option \<times> 'k" where
  "link_parents R table chain [] k = (None, k)"
| "link_parents R table chain (parent # rest) k =
     (case parentChainExists R table parent k of
        (False, k1) \<Rightarrow> link_parents R table chain rest k1
      | (True, k1) \<Rightarrow>
          (case runTable R table [''-C'', parent, ''-j'', chain] k1 of
             (None, k2) \<Rightarrow> link_parents R table chain rest k2
           | (Some _, k2) \<Rightarrow>
               (case runTable R table [''-I'', parent, ''1'', ''-j'', chain] k2 of
                  (Some e, k3) \<Rightarrow> (Some e, k3)
                | (None, k3) \<Rightarrow> link_parents R table chain rest k3)))"

definition reset_chain :: "unicode \<Rightarrow> 'k fw_runner \<Rightarrow> string \<Rightarrow> fw_manager \<Rightarrow> 'k \<Rightarrow> string option \<times> fw_manager \<times> 'k" where
  "reset_chain U R table m k =
     (case runTable R table [''-F'', fm_Chain m] k of
        (Some e, k1) \<Rightarrow> (Some e, m, k1)
      | (None, k1) \<Rightarrow> applyBaseRules U R table m k1)"

definition init_table :: "unicode \<Rightarrow> 'k fw_runner \<Rightarrow> string \<Rightarrow> fw_manager \<Rightarrow> 'k \<Rightarrow> string option \<times> fw_manager \<times> 'k" where
  "init_table U R table m k =
     (case ensureChain R table (fm_Chain m) k of
        (Some e, k1) \<Rightarrow> (Some e, m, k1)
      | (None, k1) \<Rightarrow>
          (case link_parents R table (fm_Chain m) (fm_ParentChains m) k1 of
             (Some e, k2) \<Rightarrow> (Some e, m, k2)
           | (None, k2) \<Rightarrow> reset_chain U R table m k2))"

fun each_table :: "(string \<Rightarrow> fw_manager \<Rightarrow> 'k \<Rightarrow> string option \<times> fw_manager \<times> 'k) \<Rightarrow> fw_error \<Rightarrow> string list \<Rightarrow>
    fw_manager \<Rightarrow> 'k \<Rightarrow> fw_error option \<times> fw_manager \<times> 'k" where
  "each_table f err [] m k = (None, m, k)"
| "each_table f err (t # ts) m k =
     (case f t m k of
        (Some _, m1, k1) \<Rightarrow> (Some err, m1, k1)
      | (None, m1, k1) \<Rightarrow> each_table f err ts m1 k1)"

definition fw_Init :: "unicode \<Rightarrow> 'k fw_runner \<Rightarrow> fw_manager \<Rightarrow> 'k \<Rightarrow> fw_error option \<times> fw_manager \<times> 'k" where
  "fw_Init U R m k = each_table (init_table U R) Fw_Init_Failed (fm_tables m) m k"

definition fw_Flush :: "unicode \<Rightarrow> 'k fw_runner \<Rightarrow> fw_manager \<Rightarrow> 'k \<Rightarrow> fw_error option \<times> fw_manager \<times> 'k" where
  "fw_Flush U R m k = each_table (reset_chain U R) Fw_Command_Failed (fm_tables m) m k"

definition fw_Destroy :: "'k fw_runner \<Rightarrow> fw_manager \<Rightarrow> 'k \<Rightarrow> 'k option" where
  "fw_Destroy R m =
     each_opt (\<lambda>table k.
       map_option (\<lambda>k1. snd (runTable R table [''-X'', fm_Chain m] (snd (runTable R table [''-F'', fm_Chain m] k1))))
         (each_opt (\<lambda>parent. delete_all R table [''-D'', parent, ''-j'', fm_Chain m]) (fm_ParentChains m) k))
       (fm_tables m)"

section \<open>Blocking and allowing\<close>

definition RemoveBlockAll :: "'k fw_runner \<Rightarrow> fw_manager \<Rightarrow> 'k \<Rightarrow> 'k option" where
  "RemoveBlockAll R m = each_opt (\<lambda>table. delete_all R table ([''-D'', fm_Chain m] @ drop_rule)) (fm_tables m)"

fun append_to_tables :: "'k fw_runner \<Rightarrow> string list \<Rightarrow> string list \<Rightarrow> 'k \<Rightarrow> fw_error option \<times> 'k" where
  "append_to_tables R args [] k = (None, k)"
| "append_to_tables R args (t # ts) k =
     (case runTable R t args k of
        (Some _, k1) \<Rightarrow> (Some Fw_Command_Failed, k1)
      | (None, k1) \<Rightarrow> append_to_tables R args ts k1)"

definition BlockAll :: "'k fw_runner \<Rightarrow> fw_manager \<Rightarrow> 'k \<Rightarrow> (fw_error option \<times> 'k) option" where
  "BlockAll R m k = map_option (append_to_tables R ([''-A'', fm_Chain m] @ drop_rule) (fm_tables m)) (RemoveBlockAll R m k)"

definition AllowAll :: "'k fw_runner \<Rightarrow> fw_manager \<Rightarrow> 'k \<Rightarrow> 'k option" where
  "AllowAll R m k = RemoveBlockAll R m k"

definition RemoveIPRule :: "'k fw_runner \<Rightarrow> fw_manager \<Rightarrow> string \<Rightarrow> 'k \<Rightarrow> fw_error option \<times> 'k" where
  "RemoveIPRule R m ip k =
     (case tableForAddress m ip of
        Inl e \<Rightarrow> (Some e, k)
      | Inr table \<Rightarrow>
          (None, snd (runTable R table ([''-D'', fm_Chain m] @ source_rule ip ''DROP'')
                  (snd (runTable R table ([''-D'', fm_Chain m] @ source_rule ip ''ACCEPT'') k)))))"

text \<open>What \<^verbatim>\<open>AllowIP\<close> and \<^verbatim>\<open>BlockIP\<close> share: they differ in the action.\<close>

definition insert_ip_rule :: "'k fw_runner \<Rightarrow> fw_manager \<Rightarrow> string \<Rightarrow> string \<Rightarrow> 'k \<Rightarrow> fw_error option \<times> 'k" where
  "insert_ip_rule R m action ip k =
     (let k1 = snd (RemoveIPRule R m ip k)
      in (case tableForAddress m ip of
            Inl e \<Rightarrow> (Some e, k1)
          | Inr table \<Rightarrow>
              (case runTable R table ([''-I'', fm_Chain m, nat_str (baseRuleCountForTable m table + 1)] @ source_rule ip action) k1 of
                 (e, k2) \<Rightarrow> (if e = None then None else Some Fw_Command_Failed, k2))))"

definition AllowIP :: "'k fw_runner \<Rightarrow> fw_manager \<Rightarrow> string \<Rightarrow> 'k \<Rightarrow> fw_error option \<times> 'k" where
  "AllowIP R m ip k = insert_ip_rule R m ''ACCEPT'' ip k"

definition BlockIP :: "'k fw_runner \<Rightarrow> fw_manager \<Rightarrow> string \<Rightarrow> 'k \<Rightarrow> fw_error option \<times> 'k" where
  "BlockIP R m ip k = insert_ip_rule R m ''DROP'' ip k"

definition validatePort :: "int \<Rightarrow> fw_error option" where
  "validatePort port = (if port \<le> 0 \<or> port > 65535 then Some Fw_Bad_Request else None)"

definition port_rule :: "string \<Rightarrow> int \<Rightarrow> string \<Rightarrow> string list" where
  "port_rule ip port action = [''-s'', ip, ''-p'', ''tcp'', ''--dport'', itoa port, ''-j'', action]"

definition RemoveTCPPortRule :: "'k fw_runner \<Rightarrow> fw_manager \<Rightarrow> string \<Rightarrow> int \<Rightarrow> 'k \<Rightarrow> (fw_error option \<times> 'k) option" where
  "RemoveTCPPortRule R m ip port k =
     (case validatePort port of
        Some e \<Rightarrow> Some (Some e, k)
      | None \<Rightarrow>
          (case tableForAddress m ip of
             Inl e \<Rightarrow> Some (Some e, k)
           | Inr table \<Rightarrow>
               map_option (Pair None)
                 (each_opt (\<lambda>action. delete_all R table ([''-D'', fm_Chain m] @ port_rule ip port action)) [''ACCEPT'', ''DROP''] k)))"

definition ensureTCPPortRule ::
    "'k fw_runner \<Rightarrow> fw_manager \<Rightarrow> string \<Rightarrow> int \<Rightarrow> string \<Rightarrow> 'k \<Rightarrow> (fw_error option \<times> 'k) option" where
  "ensureTCPPortRule R m ip port action k =
     (if action \<noteq> ''ACCEPT'' \<and> action \<noteq> ''DROP'' then Some (Some Fw_Bad_Request, k)
      else (case validatePort port of
              Some e \<Rightarrow> Some (Some e, k)
            | None \<Rightarrow>
                map_option (\<lambda>(_, k1).
                  case tableForAddress m ip of
                    Inl e \<Rightarrow> (Some e, k1)
                  | Inr table \<Rightarrow>
                      (case runTable R table ([''-I'', fm_Chain m, nat_str (baseRuleCountForTable m table + 1)] @ port_rule ip port action) k1 of
                         (e, k2) \<Rightarrow> (if e = None then None else Some Fw_Command_Failed, k2)))
                  (RemoveTCPPortRule R m ip port k)))"

definition BlockTCPPortForIP :: "'k fw_runner \<Rightarrow> fw_manager \<Rightarrow> string \<Rightarrow> int \<Rightarrow> 'k \<Rightarrow> (fw_error option \<times> 'k) option" where
  "BlockTCPPortForIP R m ip port k = ensureTCPPortRule R m ip port ''DROP'' k"

section \<open>Redirecting a port\<close>

definition redirectInsertArgs :: "int \<Rightarrow> int \<Rightarrow> string list" where
  "redirectInsertArgs listenPort targetPort =
     [''-t'', ''nat'', ''-I'', ''PREROUTING'', ''1'', ''-p'', ''tcp'', ''--dport'', itoa listenPort,
      ''-j'', ''REDIRECT'', ''--to-ports'', itoa targetPort]"

definition redirectDeleteArgs :: "int \<Rightarrow> int \<Rightarrow> string list" where
  "redirectDeleteArgs listenPort targetPort =
     [''-t'', ''nat'', ''-D'', ''PREROUTING'', ''-p'', ''tcp'', ''--dport'', itoa listenPort,
      ''-j'', ''REDIRECT'', ''--to-ports'', itoa targetPort]"

definition clearTCPRedirectForTable :: "'k fw_runner \<Rightarrow> int \<Rightarrow> int \<Rightarrow> string \<Rightarrow> 'k \<Rightarrow> 'k option" where
  "clearTCPRedirectForTable R listenPort targetPort table = delete_all R table (redirectDeleteArgs listenPort targetPort)"

fun redirect_tables :: "'k fw_runner \<Rightarrow> int \<Rightarrow> int \<Rightarrow> string list \<Rightarrow> 'k \<Rightarrow> (fw_error option \<times> 'k) option" where
  "redirect_tables R listenPort targetPort [] k = Some (None, k)"
| "redirect_tables R listenPort targetPort (t # ts) k =
     Option.bind (clearTCPRedirectForTable R listenPort targetPort t k) (\<lambda>k1.
       case runTable R t (redirectInsertArgs listenPort targetPort) k1 of
         (Some _, k2) \<Rightarrow> Some (Some Fw_Command_Failed, k2)
       | (None, k2) \<Rightarrow> redirect_tables R listenPort targetPort ts k2)"

definition EnsureTCPRedirect :: "'k fw_runner \<Rightarrow> fw_manager \<Rightarrow> int \<Rightarrow> int \<Rightarrow> 'k \<Rightarrow> (fw_error option \<times> 'k) option" where
  "EnsureTCPRedirect R m listenPort targetPort k =
     (if validatePort listenPort \<noteq> None then Some (validatePort listenPort, k)
      else if validatePort targetPort \<noteq> None then Some (validatePort targetPort, k)
      else redirect_tables R listenPort targetPort (fm_tables m) k)"

definition ClearTCPRedirect :: "'k fw_runner \<Rightarrow> fw_manager \<Rightarrow> int \<Rightarrow> int \<Rightarrow> 'k \<Rightarrow> (fw_error option \<times> 'k) option" where
  "ClearTCPRedirect R m listenPort targetPort k =
     (if validatePort listenPort \<noteq> None then Some (validatePort listenPort, k)
      else if validatePort targetPort \<noteq> None then Some (validatePort targetPort, k)
      else map_option (Pair None) (each_opt (clearTCPRedirectForTable R listenPort targetPort) (fm_tables m) k))"

end
