(* ===== verification/FirewallPolicy.thy ===== *)
theory FirewallPolicy
  imports Firewall
begin

text \<open>
  The rest of \<^verbatim>\<open>iptables/manager.go\<close>: reading printed rules, and the access policy of the SSH ports,
  whose chain is replaced by one script for \<^verbatim>\<open>iptables-restore\<close>.
\<close>

section \<open>Reading rules\<close>

definition nextRuleField :: "string \<Rightarrow> (string \<times> string) option" where
  "nextRuleField line =
     (let l = dropWhile isASCIISpace line
      in if l = [] then None
         else Some (takeWhile (\<lambda>c. \<not> isASCIISpace c) l, dropWhile (\<lambda>c. \<not> isASCIISpace c) l))"

lemma nextRuleField_shorter: "nextRuleField line = Some (f, rest) \<Longrightarrow> length rest < length line"
proof -
  assume a: "nextRuleField line = Some (f, rest)"
  let ?l = "dropWhile isASCIISpace line"
  have "?l \<noteq> []" "rest = dropWhile (\<lambda>c. \<not> isASCIISpace c) ?l"
    using a by (auto simp: nextRuleField_def Let_def split: if_splits)
  moreover from this(1) have "\<not> isASCIISpace (hd ?l)" by (metis hd_dropWhile)
  ultimately have "rest = dropWhile (\<lambda>c. \<not> isASCIISpace c) (tl ?l)" "?l \<noteq> []" by (cases ?l; simp)+
  then have "length rest < length ?l"
    by (metis length_dropWhile_le length_tl diff_less le_less_trans length_greater_0_conv zero_less_one)
  then show ?thesis using length_dropWhile_le [of isASCIISpace line] by linarith
qed

function rule_fields :: "string \<Rightarrow> string list" where
  "rule_fields rest =
     (case nextRuleField rest of
        None \<Rightarrow> []
      | Some (field, nextRest) \<Rightarrow> field # rule_fields nextRest)"
  by pat_completeness auto
termination by (relation "measure length") (auto simp: nextRuleField_shorter)

declare rule_fields.simps [simp del]

fun port_digits :: "int \<Rightarrow> string \<Rightarrow> int option" where
  "port_digits port [] = Some port"
| "port_digits port (c # cs) =
     (if \<not> is_digit c then None
      else if (max_int64 - int (digit_val c)) div 10 < port then None
      else port_digits (port * 10 + int (digit_val c)) cs)"

definition parsePortDigits :: "string \<Rightarrow> int option" where
  "parsePortDigits v = (if v = [] then None else port_digits 0 v)"

record fw_rule =
  ru_IP :: string
  ru_Action :: string
  ru_Protocol :: string
  ru_Port :: int

definition option_field :: "string \<Rightarrow> string" where
  "option_field field = (if field \<in> {''-s'', ''-p'', ''--dport'', ''-j''} then field else [])"

definition take_field :: "unicode \<Rightarrow> string \<Rightarrow> string \<Rightarrow> fw_rule \<Rightarrow> fw_rule" where
  "take_field U option field r =
     (if option = ''-s'' then r\<lparr>ru_IP := trimSuffix (trimSuffix field ''/32'') ''/128''\<rparr>
      else if option = ''-p'' then r\<lparr>ru_Protocol := lowerASCIIString U field\<rparr>
      else if option = ''--dport'' then
        (case parsePortDigits field of Some p \<Rightarrow> r\<lparr>ru_Port := p\<rparr> | None \<Rightarrow> r)
      else if option = ''-j'' then r\<lparr>ru_Action := field\<rparr>
      else r)"

fun scan_fields :: "unicode \<Rightarrow> string \<Rightarrow> fw_rule \<Rightarrow> string list \<Rightarrow> fw_rule" where
  "scan_fields U pendingField r [] = r"
| "scan_fields U pendingField r (f # fs) = scan_fields U (option_field f) (take_field U pendingField f r) fs"

definition parseRuleLine :: "unicode \<Rightarrow> string \<Rightarrow> fw_rule option" where
  "parseRuleLine U line =
     (let r = scan_fields U [] \<lparr>ru_IP = [], ru_Action = [], ru_Protocol = [], ru_Port = 0\<rparr> (rule_fields line)
      in if ru_IP r = [] \<or> ru_Action r \<noteq> ''ACCEPT'' \<and> ru_Action r \<noteq> ''DROP'' then None else Some r)"

definition rules_of_output :: "unicode \<Rightarrow> string \<Rightarrow> fw_rule list" where
  "rules_of_output U output =
     filter (\<lambda>r. ru_IP r \<noteq> ''0.0.0.0/0'' \<and> ru_IP r \<noteq> ''::/0'')
       (List.map_filter (parseRuleLine U) (split_byte newline output))"

fun parse_tables :: "unicode \<Rightarrow> 'k fw_runner \<Rightarrow> string \<Rightarrow> string list \<Rightarrow> 'k \<Rightarrow> (fw_error + fw_rule list) \<times> 'k" where
  "parse_tables U R chain [] k = (Inr [], k)"
| "parse_tables U R chain (t # ts) k =
     (case runTableOutput R t [''-S'', chain] k of
        (Inl _, k1) \<Rightarrow> (Inl Fw_Parse_Failed, k1)
      | (Inr output, k1) \<Rightarrow>
          (case parse_tables U R chain ts k1 of
             (Inl e, k2) \<Rightarrow> (Inl e, k2)
           | (Inr rules, k2) \<Rightarrow> (Inr (rules_of_output U output @ rules), k2)))"

definition ParseRules :: "unicode \<Rightarrow> 'k fw_runner \<Rightarrow> fw_manager \<Rightarrow> 'k \<Rightarrow> (fw_error + fw_rule list) \<times> 'k" where
  "ParseRules U R m k = parse_tables U R (fm_Chain m) (fm_tables m) k"

section \<open>Jumps of the parent chains\<close>

fun has_jump :: "string \<Rightarrow> string \<Rightarrow> string list \<Rightarrow> bool" where
  "has_jump chain previous [] = False"
| "has_jump chain previous (f # fs) = (previous = ''-j'' \<and> f = chain \<or> has_jump chain f fs)"

definition parentJumpDeleteArgs :: "string \<Rightarrow> string \<Rightarrow> string \<Rightarrow> string list option" where
  "parentJumpDeleteArgs line parent chain =
     (case rule_fields line of
        cmd # target # fs \<Rightarrow>
          if cmd = ''-A'' \<and> target = parent \<and> has_jump chain [] fs
          then Some ([''-D'', parent] @ fs) else None
      | _ \<Rightarrow> None)"

text \<open>Commands whose errors are ignored.\<close>

fun run_ignoring :: "'k fw_runner \<Rightarrow> string \<Rightarrow> string list list \<Rightarrow> 'k \<Rightarrow> 'k" where
  "run_ignoring R table [] k = k"
| "run_ignoring R table (args # rest) k = run_ignoring R table rest (snd (runTable R table args k))"

definition deleteParentJumpsToChain :: "'k fw_runner \<Rightarrow> string \<Rightarrow> string \<Rightarrow> string \<Rightarrow> 'k \<Rightarrow> 'k option" where
  "deleteParentJumpsToChain R table chain parent k =
     (case parentChainExists R table parent k of
        (False, k1) \<Rightarrow> Some k1
      | (True, k1) \<Rightarrow>
          (case runTableOutput R table [''-S'', parent] k1 of
             (Inl _, k2) \<Rightarrow> delete_all R table [''-D'', parent, ''-j'', chain] k2
           | (Inr output, k2) \<Rightarrow>
               delete_all R table [''-D'', parent, ''-j'', chain]
                 (run_ignoring R table
                    (List.map_filter (\<lambda>line. parentJumpDeleteArgs line parent chain) (split_byte newline output)) k2)))"

definition clearTCPPortAccessPolicyForTable :: "'k fw_runner \<Rightarrow> string \<Rightarrow> string list \<Rightarrow> string \<Rightarrow> 'k \<Rightarrow> 'k option" where
  "clearTCPPortAccessPolicyForTable R chain parents table k =
     map_option (run_ignoring R table [[''-F'', chain], [''-X'', chain]])
       (each_opt (deleteParentJumpsToChain R table chain) parents k)"

section \<open>The policy\<close>

definition normalizeChainName :: "string \<Rightarrow> string \<Rightarrow> string" where
  "normalizeChainName chain fallback = (if trim_space chain = [] then fallback else trim_space chain)"

fun normalize_ports :: "int list \<Rightarrow> int list \<Rightarrow> fw_error + int list" where
  "normalize_ports seen [] = Inr []"
| "normalize_ports seen (p # ps) =
     (case validatePort p of
        Some e \<Rightarrow> Inl e
      | None \<Rightarrow>
          if p \<in> set seen then normalize_ports seen ps
          else map_sum id ((#) p) (normalize_ports (p # seen) ps))"

definition normalizePorts :: "int list \<Rightarrow> fw_error + int list" where
  "normalizePorts ports = normalize_ports [] ports"

definition normalizeSources :: "unicode \<Rightarrow> string list \<Rightarrow> string list" where
  "normalizeSources U sources =
     dedup_on (to_lower U) (\<lambda>s. if trim_space s = [] then None else Some (trim_space s)) [] sources"

definition normalizeDefaultAction :: "unicode \<Rightarrow> string \<Rightarrow> fw_error + string" where
  "normalizeDefaultAction U action =
     (let a = to_upper U (trim_space action)
      in if a = [] then Inr ''RETURN''
         else if a \<noteq> ''DROP'' \<and> a \<noteq> ''RETURN'' then Inl Fw_Bad_Request
         else Inr a)"

fun active_tables :: "fw_manager \<Rightarrow> string list \<Rightarrow> fw_error + string list" where
  "active_tables m [] = Inr []"
| "active_tables m (s # ss) =
     (case tableForAddress m s of
        Inl e \<Rightarrow> Inl e
      | Inr t \<Rightarrow> map_sum id ((#) t) (active_tables m ss))"

definition tablesForAccessPolicy :: "unicode \<Rightarrow> fw_manager \<Rightarrow> access_policy \<Rightarrow> fw_error + string list" where
  "tablesForAccessPolicy U m policy =
     map_sum id (\<lambda>active.
       filter (\<lambda>t. t \<in> set active \<or> ap_IncludeLocalCIDRs policy \<or>
                    to_upper U (trim_space (ap_DefaultAction policy)) = ''DROP'') (fm_tables m))
       (active_tables m (ap_AllowSources policy @ ap_BlockSources policy))"

definition addTCPPortJump :: "'k fw_runner \<Rightarrow> string \<Rightarrow> string \<Rightarrow> string \<Rightarrow> int \<Rightarrow> 'k \<Rightarrow> string option \<times> 'k" where
  "addTCPPortJump R table parent chain port k =
     (let args = [''-p'', ''tcp'', ''--dport'', itoa port, ''-j'', chain]
      in (case runTable R table ([''-C'', parent] @ args) k of
            (None, k1) \<Rightarrow> (None, k1)
          | (Some _, k1) \<Rightarrow> runTable R table ([''-I'', parent, ''1''] @ args) k1))"

fun add_jumps :: "'k fw_runner \<Rightarrow> string \<Rightarrow> string \<Rightarrow> string \<Rightarrow> int list \<Rightarrow> 'k \<Rightarrow> string option \<times> 'k" where
  "add_jumps R table parent chain [] k = (None, k)"
| "add_jumps R table parent chain (p # ps) k =
     (case addTCPPortJump R table parent chain p k of
        (Some e, k1) \<Rightarrow> (Some e, k1)
      | (None, k1) \<Rightarrow> add_jumps R table parent chain ps k1)"

fun relink_parents :: "'k fw_runner \<Rightarrow> string \<Rightarrow> string \<Rightarrow> int list \<Rightarrow> string list \<Rightarrow> 'k \<Rightarrow> (string option \<times> 'k) option" where
  "relink_parents R table chain ports [] k = Some (None, k)"
| "relink_parents R table chain ports (parent # rest) k =
     (case parentChainExists R table parent k of
        (False, k1) \<Rightarrow> relink_parents R table chain ports rest k1
      | (True, k1) \<Rightarrow>
          Option.bind (deleteParentJumpsToChain R table chain parent k1) (\<lambda>k2.
            case add_jumps R table parent chain ports k2 of
              (Some e, k3) \<Rightarrow> Some (Some e, k3)
            | (None, k3) \<Rightarrow> relink_parents R table chain ports rest k3))"

text \<open>The script: the rules of the chain in order, each as the words of a command.\<close>

definition policy_sources :: "fw_manager \<Rightarrow> string \<Rightarrow> string list \<Rightarrow> string list" where
  "policy_sources m table sources = filter (\<lambda>s. tableForAddress m s = Inr table) sources"

definition policy_rules :: "fw_manager \<Rightarrow> string \<Rightarrow> access_policy \<Rightarrow> string list list" where
  "policy_rules m table policy =
     map (\<lambda>s. source_rule s ''ACCEPT'') (if ap_IncludeLocalCIDRs policy then localCIDRsForTable table else []) @
     map (\<lambda>s. source_rule s ''DROP'') (policy_sources m table (ap_BlockSources policy)) @
     map (\<lambda>s. source_rule s ''ACCEPT'') (policy_sources m table (ap_AllowSources policy)) @
     [[''-j'', ap_DefaultAction policy]]"

definition script_line :: "string list \<Rightarrow> string" where
  "script_line ws = join_str '' '' ws @ [newline]"

definition policy_script :: "fw_manager \<Rightarrow> string \<Rightarrow> access_policy \<Rightarrow> string" where
  "policy_script m table policy =
     (let chain = normalizeChainName (ap_Chain policy) DefaultSSHFirewallChain
      in script_line [''*filter''] @ script_line [''-F'', chain] @
         concat (map (\<lambda>r. script_line ([''-A'', chain] @ r)) (policy_rules m table policy)) @
         script_line [''COMMIT''])"

definition applyTCPPortAccessPolicy :: "'k fw_runner \<Rightarrow> fw_manager \<Rightarrow> string \<Rightarrow> access_policy \<Rightarrow> 'k \<Rightarrow> fw_error option \<times> 'k" where
  "applyTCPPortAccessPolicy R m table policy k =
     (case runTableRestore R table (policy_script m table policy) k of
        (e, k1) \<Rightarrow> (if e = None then None else Some Fw_Command_Failed, k1))"

definition policy_parents :: "fw_manager \<Rightarrow> string list \<Rightarrow> string list" where
  "policy_parents m parents =
     (if parents \<noteq> [] then parents else if fm_ParentChains m \<noteq> [] then fm_ParentChains m else [''INPUT''])"

definition ClearTCPPortAccessPolicy :: "'k fw_runner \<Rightarrow> fw_manager \<Rightarrow> string \<Rightarrow> string list \<Rightarrow> 'k \<Rightarrow> 'k option" where
  "ClearTCPPortAccessPolicy R m chain parents k =
     each_opt (clearTCPPortAccessPolicyForTable R (normalizeChainName chain DefaultSSHFirewallChain) (policy_parents m parents))
       (fm_tables m) k"

fun sync_tables :: "'k fw_runner \<Rightarrow> fw_manager \<Rightarrow> access_policy \<Rightarrow> string list \<Rightarrow> string list \<Rightarrow> 'k \<Rightarrow> (fw_error option \<times> 'k) option" where
  "sync_tables R m policy active [] k = Some (None, k)"
| "sync_tables R m policy active (table # rest) k =
     (if table \<notin> set active then
        Option.bind (clearTCPPortAccessPolicyForTable R (ap_Chain policy) (ap_ParentChains policy) table k)
          (sync_tables R m policy active rest)
      else
        (case ensureChain R table (ap_Chain policy) k of
           (Some _, k1) \<Rightarrow> Some (Some Fw_Init_Failed, k1)
         | (None, k1) \<Rightarrow>
             Option.bind (relink_parents R table (ap_Chain policy) (ap_Ports policy) (ap_ParentChains policy) k1) (\<lambda>(e, k2).
               if e \<noteq> None then Some (Some Fw_Init_Failed, k2)
               else (case applyTCPPortAccessPolicy R m table policy k2 of
                       (Some e, k3) \<Rightarrow> Some (Some e, k3)
                     | (None, k3) \<Rightarrow> sync_tables R m policy active rest k3))))"

definition normalized_policy :: "unicode \<Rightarrow> fw_manager \<Rightarrow> access_policy \<Rightarrow> fw_error + access_policy" where
  "normalized_policy U m policy =
     (case normalizePorts (ap_Ports policy) of
        Inl e \<Rightarrow> Inl e
      | Inr ports \<Rightarrow>
          map_sum id (\<lambda>action.
            \<lparr>ap_Chain = normalizeChainName (ap_Chain policy) DefaultSSHFirewallChain,
             ap_ParentChains = policy_parents m (ap_ParentChains policy), ap_Ports = ports,
             ap_AllowSources = normalizeSources U (ap_AllowSources policy),
             ap_BlockSources = normalizeSources U (ap_BlockSources policy),
             ap_IncludeLocalCIDRs = ap_IncludeLocalCIDRs policy, ap_DefaultAction = action\<rparr>)
            (normalizeDefaultAction U (ap_DefaultAction policy)))"

definition SyncTCPPortAccessPolicy ::
    "unicode \<Rightarrow> 'k fw_runner \<Rightarrow> fw_manager \<Rightarrow> access_policy \<Rightarrow> 'k \<Rightarrow> (fw_error option \<times> 'k) option" where
  "SyncTCPPortAccessPolicy U R m policy k =
     (case normalized_policy U m policy of
        Inl e \<Rightarrow> Some (Some e, k)
      | Inr p \<Rightarrow>
          (case tablesForAccessPolicy U m p of
             Inl e \<Rightarrow> Some (Some e, k)
           | Inr tables \<Rightarrow>
               if ap_Ports p = [] \<or> tables = []
               then map_option (Pair None) (ClearTCPPortAccessPolicy R m (ap_Chain p) (ap_ParentChains p) k)
               else sync_tables R m p tables (fm_tables m) k))"

end
