(* ===== verification/FirewallRules.thy ===== *)
theory FirewallRules
  imports FirewallPolicy
begin

text \<open>
  What the commands of \<open>Firewall\<close> do to the chains, given the documented behaviour of
  \<^verbatim>\<open>iptables\<close>.  \<open>view k t c\<close> is the list of rules of chain \<open>c\<close> of the filter table of tool \<open>t\<close>
  (None when there is no such chain) and \<open>rule t spec\<close> is the rule that a specification denotes, so
  that two spellings of one rule are one rule.  A command may fail for any reason, except that
  deleting fails only when there is nothing to delete.
\<close>

section \<open>The contract of the commands\<close>

type_synonym 'r tables = "string \<Rightarrow> string \<Rightarrow> 'r list option"

definition put_chain :: "string \<Rightarrow> string \<Rightarrow> 'r list option \<Rightarrow> 'r tables \<Rightarrow> 'r tables" where
  "put_chain t c rs V = V(t := (V t)(c := rs))"

text \<open>Specifications start with an option, names of chains do not.\<close>

definition spec_word :: "string list \<Rightarrow> bool" where
  "spec_word spec = (\<exists>w rest. spec = (CHR ''-'' # w) # rest)"

lemma spec_word_code [code]:
  "spec_word spec = (case spec of (c # w) # rest \<Rightarrow> c = CHR ''-'' | _ \<Rightarrow> False)"
  by (auto simp: spec_word_def split: list.splits)

definition chain_word :: "string \<Rightarrow> bool" where
  "chain_word c = (\<exists>x xs. c = x # xs \<and> x \<noteq> CHR ''-'')"

definition append_law :: "'k fw_runner \<Rightarrow> ('k \<Rightarrow> 'r tables) \<Rightarrow> (string \<Rightarrow> string list \<Rightarrow> 'r) \<Rightarrow> bool" where
  "append_law R view rule = (\<forall>t c spec k out ok k'. chain_word c \<longrightarrow> spec_word spec \<longrightarrow>
     fr_run R t ([''-A'', c] @ spec) k = ((out, ok), k') \<longrightarrow>
     (if ok then \<exists>rs. view k t c = Some rs \<and> view k' = put_chain t c (Some (rs @ [rule t spec])) (view k)
      else view k' = view k))"

definition insert_law :: "'k fw_runner \<Rightarrow> ('k \<Rightarrow> 'r tables) \<Rightarrow> (string \<Rightarrow> string list \<Rightarrow> 'r) \<Rightarrow> bool" where
  "insert_law R view rule = (\<forall>t c n spec k out ok k'. chain_word c \<longrightarrow> spec_word spec \<longrightarrow>
     fr_run R t ([''-I'', c, nat_str n] @ spec) k = ((out, ok), k') \<longrightarrow>
     (if ok then \<exists>rs. view k t c = Some rs \<and> 1 \<le> n \<and> n \<le> length rs + 1 \<and>
                   view k' = put_chain t c (Some (take (n - 1) rs @ rule t spec # drop (n - 1) rs)) (view k)
      else view k' = view k))"

definition delete_law :: "'k fw_runner \<Rightarrow> ('k \<Rightarrow> 'r tables) \<Rightarrow> (string \<Rightarrow> string list \<Rightarrow> 'r) \<Rightarrow> bool" where
  "delete_law R view rule = (\<forall>t c spec k out ok k'. chain_word c \<longrightarrow> spec_word spec \<longrightarrow>
     fr_run R t ([''-D'', c] @ spec) k = ((out, ok), k') \<longrightarrow>
     (case view k t c of
        None \<Rightarrow> \<not> ok \<and> view k' = view k
      | Some rs \<Rightarrow> if rule t spec \<in> set rs then ok \<and> view k' = put_chain t c (Some (remove1 (rule t spec) rs)) (view k)
                   else \<not> ok \<and> view k' = view k))"

definition check_law :: "'k fw_runner \<Rightarrow> ('k \<Rightarrow> 'r tables) \<Rightarrow> (string \<Rightarrow> string list \<Rightarrow> 'r) \<Rightarrow> bool" where
  "check_law R view rule = (\<forall>t c spec k out ok k'. chain_word c \<longrightarrow> spec_word spec \<longrightarrow>
     fr_run R t ([''-C'', c] @ spec) k = ((out, ok), k') \<longrightarrow>
     view k' = view k \<and> (ok \<longrightarrow> (\<exists>rs. view k t c = Some rs \<and> rule t spec \<in> set rs)))"

text \<open>Printed rules are specifications.\<close>

definition list_law :: "'k fw_runner \<Rightarrow> ('k \<Rightarrow> 'r tables) \<Rightarrow> bool" where
  "list_law R view = (\<forall>t c k out ok k'. chain_word c \<longrightarrow>
     (fr_run R t [''-L'', c, ''-n''] k = ((out, ok), k') \<longrightarrow> view k' = view k \<and> ok = (view k t c \<noteq> None)) \<and>
     (fr_run R t [''-S'', c] k = ((out, ok), k') \<longrightarrow> view k' = view k \<and>
        (ok \<longrightarrow> (\<forall>line \<in> set (split_byte newline out). \<forall>spec. rule_fields line = [''-A'', c] @ spec \<longrightarrow> spec = [] \<or> spec_word spec))))"

definition chain_law :: "'k fw_runner \<Rightarrow> ('k \<Rightarrow> 'r tables) \<Rightarrow> bool" where
  "chain_law R view = (\<forall>t c k out ok k'. chain_word c \<longrightarrow>
     (fr_run R t [''-N'', c] k = ((out, ok), k') \<longrightarrow>
        (if ok then view k t c = None \<and> view k' = put_chain t c (Some []) (view k) else view k' = view k)) \<and>
     (fr_run R t [''-F'', c] k = ((out, ok), k') \<longrightarrow>
        (if ok then view k t c \<noteq> None \<and> view k' = put_chain t c (Some []) (view k) else view k' = view k)) \<and>
     (fr_run R t [''-X'', c] k = ((out, ok), k') \<longrightarrow>
        (if ok then view k t c = Some [] \<and> view k' = put_chain t c None (view k) else view k' = view k)))"

text \<open>Words that a script of \<^verbatim>\<open>iptables-restore\<close> reads as they are.\<close>

definition plain_word :: "string \<Rightarrow> bool" where
  "plain_word w = (w \<noteq> [] \<and> list_all graph_char w \<and> (\<forall>c \<in> set w. byte c \<notin> {34, 35, 39, 92}))"

text \<open>A script that flushes a chain and appends rules does so completely or not at all.\<close>

definition restore_law :: "'k fw_runner \<Rightarrow> ('k \<Rightarrow> 'r tables) \<Rightarrow> (string \<Rightarrow> string list \<Rightarrow> 'r) \<Rightarrow> bool" where
  "restore_law R view rule = (\<forall>t c specs k out ok k'.
     t \<in> {''iptables'', ''ip6tables''} \<longrightarrow> chain_word c \<longrightarrow> plain_word c \<longrightarrow>
     (\<forall>spec \<in> set specs. spec_word spec \<and> (\<forall>w \<in> set spec. plain_word w)) \<longrightarrow>
     fr_input R (script_line [''*filter''] @ script_line [''-F'', c] @
         concat (map (\<lambda>r. script_line ([''-A'', c] @ r)) specs) @ script_line [''COMMIT''])
       (t @ ''-restore'') [''--noflush''] k = ((out, ok), k') \<longrightarrow>
     (if ok then view k t c \<noteq> None \<and> view k' = put_chain t c (Some (map (rule t) specs)) (view k)
      else view k' = view k))"

definition filter_contract :: "'k fw_runner \<Rightarrow> ('k \<Rightarrow> 'r tables) \<Rightarrow> (string \<Rightarrow> string list \<Rightarrow> 'r) \<Rightarrow> bool" where
  "filter_contract R view rule =
     (append_law R view rule \<and> insert_law R view rule \<and> delete_law R view rule \<and> check_law R view rule \<and>
      list_law R view \<and> chain_law R view \<and> restore_law R view rule)"


text \<open>The outcome of one command, as the lemmas about sequences use it.\<close>

lemma run_append:
  assumes "filter_contract R view rule" "chain_word c" "spec_word spec" "runTable R t ([''-A'', c] @ spec) k = (e, k')"
  shows "(e = None \<and> (\<exists>rs. view k t c = Some rs \<and> view k' = put_chain t c (Some (rs @ [rule t spec])) (view k)))
    \<or> (e \<noteq> None \<and> view k' = view k)"
proof -
  obtain out ok k1 where r: "fr_run R t ([''-A'', c] @ spec) k = ((out, ok), k1)" by (metis prod.exhaust)
  have "if ok then \<exists>rs. view k t c = Some rs \<and> view k1 = put_chain t c (Some (rs @ [rule t spec])) (view k)
      else view k1 = view k"
    using assms(1-3) r unfolding filter_contract_def append_law_def by blast
  then show ?thesis using assms(4) r by (auto simp: runTable_def split: if_splits)
qed

lemma run_insert:
  assumes "filter_contract R view rule" "chain_word c" "spec_word spec"
    and "runTable R t ([''-I'', c, nat_str n] @ spec) k = (e, k')"
  shows "(e = None \<and> (\<exists>rs. view k t c = Some rs \<and> 1 \<le> n \<and> n \<le> length rs + 1 \<and>
      view k' = put_chain t c (Some (take (n - 1) rs @ rule t spec # drop (n - 1) rs)) (view k)))
    \<or> (e \<noteq> None \<and> view k' = view k)"
proof -
  obtain out ok k1 where r: "fr_run R t ([''-I'', c, nat_str n] @ spec) k = ((out, ok), k1)" by (metis prod.exhaust)
  have "if ok then \<exists>rs. view k t c = Some rs \<and> 1 \<le> n \<and> n \<le> length rs + 1 \<and>
             view k1 = put_chain t c (Some (take (n - 1) rs @ rule t spec # drop (n - 1) rs)) (view k)
      else view k1 = view k"
    using assms(1-3) r unfolding filter_contract_def insert_law_def by blast
  then show ?thesis using assms(4) r by (auto simp: runTable_def split: if_splits)
qed

lemma run_delete:
  assumes "filter_contract R view rule" "chain_word c" "spec_word spec" "runTable R t ([''-D'', c] @ spec) k = (e, k')"
  shows "(e = None \<and> (\<exists>rs. view k t c = Some rs \<and> rule t spec \<in> set rs \<and>
      view k' = put_chain t c (Some (remove1 (rule t spec) rs)) (view k)))
    \<or> (e \<noteq> None \<and> view k' = view k \<and> (\<forall>rs. view k t c = Some rs \<longrightarrow> rule t spec \<notin> set rs))"
proof -
  obtain out ok k1 where r: "fr_run R t ([''-D'', c] @ spec) k = ((out, ok), k1)" by (metis prod.exhaust)
  have "case view k t c of None \<Rightarrow> \<not> ok \<and> view k1 = view k
      | Some rs \<Rightarrow> if rule t spec \<in> set rs then ok \<and> view k1 = put_chain t c (Some (remove1 (rule t spec) rs)) (view k)
                   else \<not> ok \<and> view k1 = view k"
    using assms(1-3) r unfolding filter_contract_def delete_law_def by blast
  then show ?thesis using assms(4) r by (cases "view k t c") (auto simp: runTable_def split: if_splits)
qed

lemma run_check:
  assumes "filter_contract R view rule" "chain_word c" "spec_word spec" "runTable R t ([''-C'', c] @ spec) k = (e, k')"
  shows "view k' = view k \<and> (e = None \<longrightarrow> (\<exists>rs. view k t c = Some rs \<and> rule t spec \<in> set rs))"
proof -
  obtain out ok k1 where r: "fr_run R t ([''-C'', c] @ spec) k = ((out, ok), k1)" by (metis prod.exhaust)
  have "view k1 = view k \<and> (ok \<longrightarrow> (\<exists>rs. view k t c = Some rs \<and> rule t spec \<in> set rs))"
    using assms(1-3) r unfolding filter_contract_def check_law_def by blast
  then show ?thesis using assms(4) r by (auto simp: runTable_def split: if_splits)
qed

lemma run_list:
  assumes "filter_contract R view rule" "chain_word c" "runTable R t [''-L'', c, ''-n''] k = (e, k')"
  shows "view k' = view k \<and> (e = None) = (view k t c \<noteq> None)"
proof -
  obtain out ok k1 where r: "fr_run R t [''-L'', c, ''-n''] k = ((out, ok), k1)" by (metis prod.exhaust)
  have "view k1 = view k \<and> ok = (view k t c \<noteq> None)"
    using assms(1,2) r unfolding filter_contract_def list_law_def by blast
  then show ?thesis using assms(3) r by (auto simp: runTable_def split: if_splits)
qed

lemma run_print:
  assumes "filter_contract R view rule" "chain_word c" "runTableOutput R t [''-S'', c] k = (e, k')"
  shows "view k' = view k \<and> (\<forall>out line spec. e = Inr out \<longrightarrow> line \<in> set (split_byte newline out) \<longrightarrow>
    rule_fields line = [''-A'', c] @ spec \<longrightarrow> spec = [] \<or> spec_word spec)"
proof -
  obtain out ok k1 where r: "fr_run R t [''-S'', c] k = ((out, ok), k1)" by (metis prod.exhaust)
  have "view k1 = view k \<and> (ok \<longrightarrow> (\<forall>line \<in> set (split_byte newline out). \<forall>spec. rule_fields line = [''-A'', c] @ spec \<longrightarrow>
      spec = [] \<or> spec_word spec))"
    using assms(1,2) r unfolding filter_contract_def list_law_def by blast
  then show ?thesis using assms(3) r by (auto simp: runTableOutput_def split: if_splits)
qed

lemma run_chain:
  assumes "filter_contract R view rule" "chain_word c"
  shows "runTable R t [''-N'', c] k = (e, k') \<Longrightarrow>
      if e = None then view k t c = None \<and> view k' = put_chain t c (Some []) (view k) else view k' = view k"
    and "runTable R t [''-F'', c] k = (e, k') \<Longrightarrow>
      if e = None then view k t c \<noteq> None \<and> view k' = put_chain t c (Some []) (view k) else view k' = view k"
    and "runTable R t [''-X'', c] k = (e, k') \<Longrightarrow>
      if e = None then view k t c = Some [] \<and> view k' = put_chain t c None (view k) else view k' = view k"
proof -
  have l: "chain_law R view" using assms(1) by (simp add: filter_contract_def)
  have r: "\<exists>out ok k1. fr_run R t args k = ((out, ok), k1)" for args by (metis prod.exhaust)
  show "if e = None then view k t c = None \<and> view k' = put_chain t c (Some []) (view k) else view k' = view k"
    if run: "runTable R t [''-N'', c] k = (e, k')"
  proof -
    obtain out ok k1 where f: "fr_run R t [''-N'', c] k = ((out, ok), k1)" using r by blast
    then have "if ok then view k t c = None \<and> view k1 = put_chain t c (Some []) (view k) else view k1 = view k"
      using l assms(2) unfolding chain_law_def by blast
    then show ?thesis using run f by (auto simp: runTable_def split: if_splits)
  qed
  show "if e = None then view k t c \<noteq> None \<and> view k' = put_chain t c (Some []) (view k) else view k' = view k"
    if run: "runTable R t [''-F'', c] k = (e, k')"
  proof -
    obtain out ok k1 where f: "fr_run R t [''-F'', c] k = ((out, ok), k1)" using r by blast
    then have "if ok then view k t c \<noteq> None \<and> view k1 = put_chain t c (Some []) (view k) else view k1 = view k"
      using l assms(2) unfolding chain_law_def by blast
    then show ?thesis using run f by (auto simp: runTable_def split: if_splits)
  qed
  show "if e = None then view k t c = Some [] \<and> view k' = put_chain t c None (view k) else view k' = view k"
    if run: "runTable R t [''-X'', c] k = (e, k')"
  proof -
    obtain out ok k1 where f: "fr_run R t [''-X'', c] k = ((out, ok), k1)" using r by blast
    then have "if ok then view k t c = Some [] \<and> view k1 = put_chain t c None (view k) else view k1 = view k"
      using l assms(2) unfolding chain_law_def by blast
    then show ?thesis using run f by (auto simp: runTable_def split: if_splits)
  qed
qed

lemma put_chain_simps [simp]:
  "put_chain t c rs V t c = rs"
  "t' \<noteq> t \<Longrightarrow> put_chain t c rs V t' = V t'"
  "c' \<noteq> c \<Longrightarrow> put_chain t c rs V t c' = V t c'"
  by (simp_all add: put_chain_def)

lemma put_chain_same: "V t c = rs \<Longrightarrow> put_chain t c rs V = V"
  by (auto simp: put_chain_def)

text \<open>Rules appended one after the other.\<close>

lemma run_args_append:
  assumes "filter_contract R view rule" "chain_word c"
  shows "\<forall>spec \<in> set specs. spec_word spec \<Longrightarrow> view k t c = Some rs \<Longrightarrow>
    run_args R t (map (\<lambda>r. [''-A'', c] @ r) specs) k = (None, k') \<Longrightarrow>
    view k' = put_chain t c (Some (rs @ map (rule t) specs)) (view k)"
proof (induction specs arbitrary: k rs)
  case Nil
  then show ?case by (simp add: put_chain_same)
next
  case (Cons spec specs)
  obtain e k1 where run: "runTable R t ([''-A'', c] @ spec) k = (e, k1)" by fastforce
  then have e: "e = None" "run_args R t (map (\<lambda>r. [''-A'', c] @ r) specs) k1 = (None, k')"
    using Cons.prems(3) by (auto split: option.splits)
  then have v: "view k1 = put_chain t c (Some (rs @ [rule t spec])) (view k)"
    using run_append [OF assms _ run] Cons.prems by auto
  have "view k' = put_chain t c (Some ((rs @ [rule t spec]) @ map (rule t) specs)) (view k1)"
    by (rule Cons.IH) (use Cons.prems e v in auto)
  then show ?case by (simp add: v put_chain_def)
qed

lemma run_args_other:
  assumes "filter_contract R view rule" "chain_word c"
  shows "\<forall>spec \<in> set specs. spec_word spec \<Longrightarrow>
    run_args R t (map (\<lambda>r. [''-A'', c] @ r) specs) k = (e, k') \<Longrightarrow>
    (t', c') \<noteq> (t, c) \<Longrightarrow> view k' t' c' = view k t' c'"
proof (induction specs arbitrary: k)
  case (Cons spec specs)
  obtain e1 k1 where run: "runTable R t ([''-A'', c] @ spec) k = (e1, k1)" by fastforce
  have v: "view k1 t' c' = view k t' c'"
    using run_append [OF assms _ run] Cons.prems by (auto simp: put_chain_def)
  show ?case using Cons run v by (cases e1) auto
qed simp


section \<open>The base rules\<close>

definition base_specs :: "string list option \<Rightarrow> string \<Rightarrow> string list \<Rightarrow> string list list" where
  "base_specs established table ports =
     [[''-i'', ''lo'', ''-j'', ''ACCEPT'']] @ (case established of None \<Rightarrow> [] | Some spec \<Rightarrow> [spec]) @ fixed_rules table ports"

text \<open>The rules that a chain starts with, as the manager believes.\<close>

definition base_list :: "(string \<Rightarrow> string list \<Rightarrow> 'r) \<Rightarrow> fw_manager \<Rightarrow> string \<Rightarrow> 'r list \<Rightarrow> bool" where
  "base_list rule m t bs = (\<exists>e \<in> {None, Some state_rule, Some conntrack_rule}.
     (e = None) = isEstablishedRelatedRuleSkipped m t \<and> bs = map (rule t) (base_specs e t (fm_ExemptPorts m)))"

lemma port_chunks_length: "length (port_chunks ps) = (length ps + 14) div 15"
proof (induction ps rule: port_chunks.induct)
  case (2 p ps)
  have "(length (drop 14 ps) + 14) div 15 + 1 = (length (p # ps) + 14) div 15"
  proof (cases "length ps \<le> 14")
    case True
    then show ?thesis by (simp add: div_eq_dividend_iff)
  next
    case False
    then have "length (p # ps) + 14 = length ps - 14 + 14 + 15" by simp
    then show ?thesis by (simp only: length_drop)
  qed
  then show ?case using 2 by simp
qed simp

lemma port_rules_length: "length (port_rules ps) = (length ps + 14) div 15 * 2"
proof -
  have "length (concat (map (\<lambda>c. map (f c) [a, b]) cs)) = length cs * 2" for f :: "string list \<Rightarrow> string \<Rightarrow> string list" and a b cs
    by (induction cs) auto
  then show ?thesis unfolding port_rules_def port_chunks_length [symmetric] .
qed

lemma base_length: "base_list rule m t bs \<Longrightarrow> length bs = baseRuleCountForTable m t"
  by (auto simp: base_list_def base_specs_def fixed_rules_def baseRuleCountForTable_def port_rules_length split: option.splits)

lemma fixed_spec_words: "spec \<in> set (fixed_rules t ports) \<Longrightarrow> spec_word spec"
  by (auto simp: fixed_rules_def port_rules_def source_rule_def spec_word_def)

lemma base_spec_words: "spec_word drop_rule" "spec_word state_rule" "spec_word conntrack_rule"
  "spec_word (source_rule s a)" "spec_word (''-i'' # ws)" "spec_word (''-p'' # ws)" "spec_word (''-j'' # ws)"
  "spec_word (port_rule s n a)"
  by (simp_all add: spec_word_def drop_rule_def state_rule_def conntrack_rule_def source_rule_def port_rule_def)

text \<open>What \<open>applyBaseRules\<close> may change of the manager: the mark of its table.\<close>

definition only_mark :: "string \<Rightarrow> fw_manager \<Rightarrow> fw_manager \<Rightarrow> bool" where
  "only_mark t m m' = (fm_Chain m' = fm_Chain m \<and> fm_ParentChains m' = fm_ParentChains m \<and>
     fm_ExemptPorts m' = fm_ExemptPorts m \<and> fm_tables m' = fm_tables m \<and>
     (\<forall>t'. t' \<noteq> t \<longrightarrow> isEstablishedRelatedRuleSkipped m' t' = isEstablishedRelatedRuleSkipped m t'))"

lemma only_mark_refl [simp]: "only_mark t m m"
  by (simp add: only_mark_def)

lemma mark_skipped [simp]:
  "isEstablishedRelatedRuleSkipped (setEstablishedRelatedRuleSkipped t b m) t = b"
  "only_mark t m (setEstablishedRelatedRuleSkipped t b m)"
  by (simp_all add: isEstablishedRelatedRuleSkipped_def setEstablishedRelatedRuleSkipped_def only_mark_def alist_simps)

text \<open>Only one chain of one table changes.\<close>

definition only_chain :: "string \<Rightarrow> string \<Rightarrow> 'r tables \<Rightarrow> 'r tables \<Rightarrow> bool" where
  "only_chain t c V V' = (\<forall>t' c'. (t', c') \<noteq> (t, c) \<longrightarrow> V' t' c' = V t' c')"

lemma only_chain_refl [simp]: "only_chain t c V V"
  by (simp add: only_chain_def)

lemma only_chain_trans: "only_chain t c V V' \<Longrightarrow> only_chain t c V' V'' \<Longrightarrow> only_chain t c V V''"
  by (simp add: only_chain_def)

lemma only_chain_put [simp]: "only_chain t c V (put_chain t c rs V)"
  by (auto simp: only_chain_def put_chain_def)

lemma established_spec:
  assumes "filter_contract R view rule" "chain_word (fm_Chain m)" "appendEstablishedRelatedRule U R t m k = (e, m', k')"
  shows "only_mark t m m' \<and> only_chain t (fm_Chain m) (view k) (view k') \<and>
    (e = None \<longrightarrow> (\<exists>v \<in> {None, Some state_rule, Some conntrack_rule}. (v = None) = isEstablishedRelatedRuleSkipped m' t \<and>
       (\<forall>rs. view k t (fm_Chain m) = Some rs \<longrightarrow>
          view k' t (fm_Chain m) = Some (rs @ (case v of None \<Rightarrow> [] | Some spec \<Rightarrow> [rule t spec])))))"
proof -
  obtain e1 k1 where r1: "runTable R t ([''-A'', fm_Chain m] @ state_rule) k = (e1, k1)" by fastforce
  obtain e2 k2 where r2: "runTable R t ([''-A'', fm_Chain m] @ conntrack_rule) k1 = (e2, k2)" by fastforce
  note a1 = run_append [OF assms(1,2) base_spec_words(2) r1]
  note a2 = run_append [OF assms(1,2) base_spec_words(3) r2]
  show ?thesis
  proof (cases e1)
    case None
    then have "e = None" "m' = setEstablishedRelatedRuleSkipped t False m" "k' = k1"
      using assms(3) r1 by (auto simp: appendEstablishedRelatedRule_def)
    then show ?thesis using a1 None by (auto intro!: bexI [of _ "Some state_rule"])
  next
    case (Some err)
    then have v1: "view k1 = view k" using a1 by auto
    show ?thesis
    proof (cases "isMatchUnavailableError U err ''state''")
      case False
      then show ?thesis using Some assms(3) r1 v1 by (auto simp: appendEstablishedRelatedRule_def)
    next
      case True
      show ?thesis
      proof (cases e2)
        case None
        then have "e = None" "m' = setEstablishedRelatedRuleSkipped t False m" "k' = k2"
          using assms(3) r1 r2 Some True by (auto simp: appendEstablishedRelatedRule_def)
        then show ?thesis using a2 None v1 by (auto intro!: bexI [of _ "Some conntrack_rule"])
      next
        case (Some err2)
        then have v2: "view k2 = view k" using a2 v1 by auto
        have "(e, m', k') = (if isMatchUnavailableError U err2 ''conntrack'' then None else Some err2,
            if isMatchUnavailableError U err2 ''conntrack'' then setEstablishedRelatedRuleSkipped t True m else m, k2)"
          using assms(3) r1 r2 \<open>e1 = Some err\<close> True Some by (auto simp: appendEstablishedRelatedRule_def)
        then show ?thesis using v2 by (auto split: if_splits intro!: bexI [of _ None])
      qed
    qed
  qed
qed

lemma applyBase_spec:
  assumes "filter_contract R view rule" "chain_word (fm_Chain m)" "applyBaseRules U R t m k = (e, m', k')"
  shows "only_mark t m m' \<and> only_chain t (fm_Chain m) (view k) (view k') \<and>
    (e = None \<longrightarrow> view k t (fm_Chain m) = Some [] \<longrightarrow>
       (\<exists>bs. base_list rule m' t bs \<and> view k' t (fm_Chain m) = Some (bs @ [rule t drop_rule])))"
proof -
  let ?c = "fm_Chain m" and ?lo = "[''-i'', ''lo'', ''-j'', ''ACCEPT'']"
  obtain e1 k1 where r1: "runTable R t ([''-A'', ?c] @ ?lo) k = (e1, k1)" by fastforce
  obtain e2 m2 k2 where r2: "appendEstablishedRelatedRule U R t m k1 = (e2, m2, k2)" by (metis prod_cases3)
  let ?specs = "fixed_rules t (fm_ExemptPorts m2) @ [drop_rule]"
  obtain e3 k3 where r3: "run_args R t (map (\<lambda>r. [''-A'', fm_Chain m2] @ r) ?specs) k2 = (e3, k3)" by fastforce
  have w: "\<forall>spec \<in> set ?specs. spec_word spec" by (auto simp: base_spec_words dest: fixed_spec_words)
  have a1: "(e1 = None \<and> (\<exists>rs. view k t ?c = Some rs \<and> view k1 = put_chain t ?c (Some (rs @ [rule t ?lo])) (view k)))
      \<or> (e1 \<noteq> None \<and> view k1 = view k)"
    by (rule run_append [OF assms(1,2) _ r1]) (simp add: base_spec_words)
  then have o1: "only_chain t ?c (view k) (view k1)" by auto
  note a2 = established_spec [OF assms(1,2) r2]
  then have c2: "fm_Chain m2 = ?c" "fm_ExemptPorts m2 = fm_ExemptPorts m" by (auto simp: only_mark_def)
  have o3: "only_chain t ?c (view k2) (view k3)"
    using run_args_other [OF assms(1,2) w r3 [unfolded c2(1)]] by (auto simp: only_chain_def c2)
  show ?thesis
  proof (cases "e1 = None \<and> e2 = None")
    case False
    then have "e \<noteq> None \<and> (m', k') \<in> {(m, k1), (m2, k2)}"
      using assms(3) r1 r2 by (auto simp: applyBaseRules_def split: option.splits)
    then show ?thesis using o1 a2 only_chain_trans [OF o1] by auto
  next
    case True
    then have r1': "runTable R t [''-A'', ?c, ''-i'', ''lo'', ''-j'', ''ACCEPT''] k = (None, k1)"
      and r2': "appendEstablishedRelatedRule U R t m k1 = (None, m2, k2)" using r1 r2 by simp_all
    have "(e3, m2, k3) = (e, m', k')"
      using assms(3) by (simp only: applyBaseRules_def r1' r2' r3 prod.case option.case)
    then have eq: "e = e3" "m' = m2" "k' = k3" by simp_all
    have "\<exists>bs. base_list rule m2 t bs \<and> view k3 t ?c = Some (bs @ [rule t drop_rule])"
      if "e3 = None" "view k t ?c = Some []"
    proof -
      from True a2 obtain v where v: "v \<in> {None, Some state_rule, Some conntrack_rule}"
        "(v = None) = isEstablishedRelatedRuleSkipped m2 t"
        "\<forall>rs. view k1 t ?c = Some rs \<longrightarrow> view k2 t ?c = Some (rs @ (case v of None \<Rightarrow> [] | Some spec \<Rightarrow> [rule t spec]))" by blast
      have "view k1 t ?c = Some [rule t ?lo]" using True a1 that(2) by auto
      then have "view k2 t ?c = Some ([rule t ?lo] @ (case v of None \<Rightarrow> [] | Some spec \<Rightarrow> [rule t spec]))" using v(3) by blast
      from run_args_append [OF assms(1,2) w this r3 [unfolded c2(1) that(1)]]
      have "view k3 t ?c = Some (map (rule t) (base_specs v t (fm_ExemptPorts m2)) @ [rule t drop_rule])"
        by (simp add: base_specs_def split: option.splits)
      then show ?thesis using v(1,2) unfolding base_list_def by blast
    qed
    then show ?thesis using eq o1 o3 a2 by (blast intro: only_chain_trans)
  qed
qed

end
