(* ===== verification/FirewallState.thy ===== *)
theory FirewallState
  imports FirewallRules
begin

text \<open>
  The chain of the manager over its life: what a successful start leaves, that the administrative
  operations keep the base rules in front, which rule decides for an address, and that the loops
  that delete rules end.
\<close>

section \<open>Start\<close>

definition only_table :: "string \<Rightarrow> 'r tables \<Rightarrow> 'r tables \<Rightarrow> bool" where
  "only_table t V V' = (\<forall>t'. t' \<noteq> t \<longrightarrow> V' t' = V t')"

lemma only_table_refl [simp]: "only_table t V V"
  by (simp add: only_table_def)

lemma only_table_trans: "only_table t V V' \<Longrightarrow> only_table t V' V'' \<Longrightarrow> only_table t V V''"
  by (simp add: only_table_def)

lemma only_chain_table: "only_chain t c V V' \<Longrightarrow> only_table t V V'"
  by (auto simp: only_chain_def only_table_def)

lemma ensure_spec:
  assumes "filter_contract R view rule" "chain_word c" "ensureChain R t c k = (e, k')"
  shows "only_chain t c (view k) (view k')"
proof -
  obtain e1 k1 where r: "runTable R t [''-L'', c, ''-n''] k = (e1, k1)" by fastforce
  obtain e2 k2 where r2: "runTable R t [''-N'', c] k1 = (e2, k2)" by fastforce
  have "view k1 = view k" using run_list [OF assms(1,2) r] by simp
  then show ?thesis
    using assms(3) r r2 run_chain(1) [OF assms(1,2) r2]
    by (cases e1) (auto simp: ensureChain_def split: if_splits)
qed

text \<open>Linking adds the jump to every parent that exists, and keeps what is there.\<close>

lemma link_spec:
  assumes "filter_contract R view rule" "chain_word c"
  shows "\<forall>p \<in> set ps. chain_word p \<Longrightarrow> link_parents R t c ps k = (e, k') \<Longrightarrow>
    only_table t (view k) (view k') \<and>
    (\<forall>p rs. view k t p = Some rs \<longrightarrow> (\<exists>rs'. view k' t p = Some rs' \<and> set rs \<subseteq> set rs')) \<and>
    (e = None \<longrightarrow> (\<forall>p \<in> set ps. view k t p \<noteq> None \<longrightarrow> (\<exists>rs. view k' t p = Some rs \<and> rule t [''-j'', c] \<in> set rs)))"
proof (induction ps arbitrary: k)
  case Nil
  then show ?case by simp
next
  case (Cons p ps)
  let ?j = "[''-j'', c]"
  obtain b k1 where p: "parentChainExists R t p k = (b, k1)" by fastforce
  then obtain e1 where r1: "runTable R t [''-L'', p, ''-n''] k = (e1, k1)" "b = (e1 = None)"
    by (auto simp: parentChainExists_def split: prod.splits)
  have w: "chain_word p" using Cons.prems(1) by simp
  note l = run_list [OF assms(1) w r1(1)]
  obtain e2 k2 where r2: "runTable R t ([''-C'', p] @ ?j) k1 = (e2, k2)" by fastforce
  note ch = run_check [OF assms(1) w base_spec_words(7) r2]
  obtain e3 k3 where r3: "runTable R t ([''-I'', p, nat_str 1] @ ?j) k2 = (e3, k3)" by fastforce
  note ins = run_insert [OF assms(1) w base_spec_words(7) r3]
  have one: "nat_str 1 = ''1''" by code_simp
  show ?case
  proof (cases "b \<and> e2 \<noteq> None")
    case False
    then have "link_parents R t c (p # ps) k = link_parents R t c ps (if b then k2 else k1)"
      using p r2 by (auto split: option.splits)
    moreover have "view (if b then k2 else k1) = view k" using l ch by auto
    moreover have "b \<Longrightarrow> \<exists>rs. view k t p = Some rs \<and> rule t ?j \<in> set rs" using False l ch by auto
    ultimately show ?thesis
      using Cons.IH [of "if b then k2 else k1"] Cons.prems l r1(2) by (auto; blast)
  next
    case True
    show ?thesis
    proof (cases e3)
      case (Some x)
      then have "(e, k') = (Some x, k3)" using True p r2 r3 Cons.prems(2) one by (auto split: option.splits)
      then show ?thesis using ins Some ch l by auto
    next
      case None
      then have rec: "link_parents R t c ps k3 = (e, k')" using True p r2 r3 Cons.prems(2) one by (auto split: option.splits)
      from None ins ch l obtain rs where rs: "view k t p = Some rs" "view k3 = put_chain t p (Some (rule t ?j # rs)) (view k)" by auto
      note IH = Cons.IH [OF _ rec]
      show ?thesis
      proof (intro conjI allI impI ballI)
        show "only_table t (view k) (view k')" using IH Cons.prems(1) rs(2) by (auto simp: only_table_def)
        show "\<exists>rs'. view k' t q = Some rs' \<and> set qs \<subseteq> set rs'" if "view k t q = Some qs" for q qs
        proof -
          have "\<exists>qs3. view k3 t q = Some qs3 \<and> set qs \<subseteq> set qs3" using rs that by (cases "q = p") auto
          then show ?thesis using IH Cons.prems(1) by fastforce
        qed
        show "\<exists>rs. view k' t q = Some rs \<and> rule t ?j \<in> set rs" if "e = None" "q \<in> set (p # ps)" "view k t q \<noteq> None" for q
        proof (cases "q = p")
          case True
          have "view k3 t p = Some (rule t ?j # rs)" using rs by simp
          then show ?thesis using IH Cons.prems(1) True by fastforce
        next
          case False
          then have "view k3 t q = view k t q" using rs by simp
          then show ?thesis using IH Cons.prems(1) that False by auto
        qed
      qed
    qed
  qed
qed

lemma reset_spec:
  assumes "filter_contract R view rule" "chain_word (fm_Chain m)" "reset_chain U R t m k = (e, m', k')"
  shows "only_mark t m m' \<and> only_chain t (fm_Chain m) (view k) (view k') \<and>
    (e = None \<longrightarrow> (\<exists>bs. base_list rule m' t bs \<and> view k' t (fm_Chain m) = Some (bs @ [rule t drop_rule])))"
proof -
  obtain e1 k1 where r: "runTable R t [''-F'', fm_Chain m] k = (e1, k1)" by fastforce
  note fl = run_chain(2) [OF assms(1,2) r]
  show ?thesis
  proof (cases e1)
    case None
    then have ap: "applyBaseRules U R t m k1 = (e, m', k')" using assms(3) r by (simp add: reset_chain_def)
    have "view k1 t (fm_Chain m) = Some []" "only_chain t (fm_Chain m) (view k) (view k1)" using fl None by auto
    then show ?thesis using applyBase_spec [OF assms(1,2) ap] only_chain_trans by blast
  next
    case (Some x)
    then show ?thesis using assms(3) r fl by (auto simp: reset_chain_def)
  qed
qed

text \<open>What is true of a table after it has been set up.\<close>

definition table_up :: "(string \<Rightarrow> string list \<Rightarrow> 'r) \<Rightarrow> 'r tables \<Rightarrow> 'r tables \<Rightarrow> fw_manager \<Rightarrow> string \<Rightarrow> bool" where
  "table_up rule V0 V m t =
     ((\<exists>bs. base_list rule m t bs \<and> V t (fm_Chain m) = Some (bs @ [rule t drop_rule])) \<and>
      (\<forall>p \<in> set (fm_ParentChains m). p \<noteq> fm_Chain m \<longrightarrow> V0 t p \<noteq> None \<longrightarrow>
         (\<exists>rs. V t p = Some rs \<and> rule t [''-j'', fm_Chain m] \<in> set rs)))"

lemma init_table_spec:
  assumes "filter_contract R view rule" "chain_word (fm_Chain m)" "\<forall>p \<in> set (fm_ParentChains m). chain_word p"
    and "init_table U R t m k = (e, m', k')"
  shows "only_mark t m m' \<and> only_table t (view k) (view k') \<and> (e = None \<longrightarrow> table_up rule (view k) (view k') m' t)"
proof -
  obtain e1 k1 where r1: "ensureChain R t (fm_Chain m) k = (e1, k1)" by fastforce
  obtain e2 k2 where r2: "link_parents R t (fm_Chain m) (fm_ParentChains m) k1 = (e2, k2)" by fastforce
  obtain e3 m3 k3 where r3: "reset_chain U R t m k2 = (e3, m3, k3)" by (metis prod_cases3)
  note en = ensure_spec [OF assms(1,2) r1]
  note li = link_spec [OF assms(1,2,3) r2]
  note re = reset_spec [OF assms(1,2) r3]
  have t1: "only_table t (view k) (view k1)" "only_table t (view k) (view k2)"
    using only_chain_table [OF en] li by (blast intro: only_table_trans)+
  show ?thesis
  proof (cases "e1 = None \<and> e2 = None")
    case False
    then have "e \<noteq> None \<and> m' = m \<and> k' \<in> {k1, k2}"
      using assms(4) r1 r2 by (auto simp: init_table_def split: option.splits)
    then show ?thesis using t1 by auto
  next
    case True
    then have eq: "e = e3" "m' = m3" "k' = k3" using assms(4) r1 r2 r3 by (auto simp: init_table_def)
    have "only_table t (view k) (view k3)" using t1(2) re only_chain_table by (blast intro: only_table_trans)
    moreover have "table_up rule (view k) (view k3) m3 t" if "e3 = None"
    proof -
      have m3: "fm_Chain m3 = fm_Chain m" "fm_ParentChains m3 = fm_ParentChains m" using re by (auto simp: only_mark_def)
      have "\<exists>rs. view k3 t p = Some rs \<and> rule t [''-j'', fm_Chain m] \<in> set rs"
        if "p \<in> set (fm_ParentChains m)" "p \<noteq> fm_Chain m" "view k t p \<noteq> None" for p
      proof -
        have "view k1 t p \<noteq> None" using en that by (auto simp: only_chain_def)
        then have "\<exists>rs. view k2 t p = Some rs \<and> rule t [''-j'', fm_Chain m] \<in> set rs" using li True that by blast
        moreover have "view k3 t p = view k2 t p" using re that by (auto simp: only_chain_def)
        ultimately show ?thesis by simp
      qed
      then show ?thesis using re that m3 by (simp add: table_up_def)
    qed
    ultimately show ?thesis using eq re by simp
  qed
qed

lemma init_tables_spec:
  assumes "filter_contract R view rule"
  shows "chain_word (fm_Chain m) \<Longrightarrow> \<forall>p \<in> set (fm_ParentChains m). chain_word p \<Longrightarrow> distinct ts \<Longrightarrow>
    each_table (init_table U R) err ts m k = (None, m', k') \<Longrightarrow>
    fm_Chain m' = fm_Chain m \<and> fm_ParentChains m' = fm_ParentChains m \<and> fm_ExemptPorts m' = fm_ExemptPorts m \<and>
    fm_tables m' = fm_tables m \<and>
    (\<forall>t. t \<notin> set ts \<longrightarrow> view k' t = view k t \<and> isEstablishedRelatedRuleSkipped m' t = isEstablishedRelatedRuleSkipped m t) \<and>
    (\<forall>t \<in> set ts. table_up rule (view k) (view k') m' t)"
proof (induction ts arbitrary: m k)
  case Nil
  then show ?case by simp
next
  case (Cons t ts)
  obtain e m1 k1 where r: "init_table U R t m k = (e, m1, k1)" by (metis prod_cases3)
  then have e: "e = None" and rec: "each_table (init_table U R) err ts m1 k1 = (None, m', k')"
    using Cons.prems(4) by (auto split: option.splits)
  note s = init_table_spec [OF assms Cons.prems(1,2) r]
  then have m1: "fm_Chain m1 = fm_Chain m" "fm_ParentChains m1 = fm_ParentChains m"
    "fm_ExemptPorts m1 = fm_ExemptPorts m" "fm_tables m1 = fm_tables m" by (auto simp: only_mark_def)
  note IH = Cons.IH [OF _ _ _ rec] 
  have ih: "fm_Chain m' = fm_Chain m \<and> fm_ParentChains m' = fm_ParentChains m \<and> fm_ExemptPorts m' = fm_ExemptPorts m \<and>
    fm_tables m' = fm_tables m"
    "\<And>t. t \<notin> set ts \<Longrightarrow> view k' t = view k1 t \<and> isEstablishedRelatedRuleSkipped m' t = isEstablishedRelatedRuleSkipped m1 t"
    "\<And>t. t \<in> set ts \<Longrightarrow> table_up rule (view k1) (view k') m' t"
    using IH Cons.prems m1 by auto
  have "table_up rule (view k) (view k') m' t"
  proof -
    have "table_up rule (view k) (view k1) m1 t" using s e by simp
    moreover have "t \<notin> set ts" using Cons.prems(3) by simp
    ultimately show ?thesis using ih(1) ih(2) [of t] m1 by (auto simp: table_up_def base_list_def)
  qed
  moreover have "table_up rule (view k) (view k') m' t'" if "t' \<in> set ts" for t'
  proof -
    have "t' \<noteq> t" using that Cons.prems(3) by auto
    then have "view k1 t' = view k t'" using s by (simp add: only_table_def)
    then show ?thesis using ih(3) [OF that] by (simp add: table_up_def)
  qed
  moreover have "view k' t' = view k t' \<and> isEstablishedRelatedRuleSkipped m' t' = isEstablishedRelatedRuleSkipped m t'"
    if "t' \<notin> set (t # ts)" for t'
    using ih(2) [of t'] s that by (auto simp: only_table_def only_mark_def)
  ultimately show ?case using ih(1) by auto
qed

text \<open>After a successful start the chain of every table holds the base rules, as many as the
  manager counts, and then the rule that drops, whatever was in the chain before; every parent chain
  that exists jumps to it.\<close>

theorem firewall_start:
  assumes "filter_contract R view rule" "chain_word (fm_Chain m)" "\<forall>p \<in> set (fm_ParentChains m). chain_word p"
    and "distinct (fm_tables m)" "fw_Init U R m k = (None, m', k')" "t \<in> set (fm_tables m)"
  shows "(\<exists>bs. base_list rule m' t bs \<and> length bs = baseRuleCountForTable m' t \<and>
      view k' t (fm_Chain m) = Some (bs @ [rule t drop_rule])) \<and>
    (\<forall>p \<in> set (fm_ParentChains m). p \<noteq> fm_Chain m \<longrightarrow> view k t p \<noteq> None \<longrightarrow>
       (\<exists>rs. view k' t p = Some rs \<and> rule t [''-j'', fm_Chain m] \<in> set rs))"
proof -
  have "fm_Chain m' = fm_Chain m" "fm_ParentChains m' = fm_ParentChains m" "table_up rule (view k) (view k') m' t"
    using init_tables_spec [OF assms(1-4), of U Fw_Init_Failed k m' k'] assms(5,6) by (simp_all add: fw_Init_def)
  then show ?thesis using base_length unfolding table_up_def by metis
qed

section \<open>Deleting until nothing is left\<close>

lemma removeAll_remove1: "removeAll x (remove1 x rs) = removeAll x rs"
  by (induction rs) auto

lemma delete_all_spec:
  assumes "filter_contract R view rule" "chain_word c" "spec_word spec"
  shows "\<exists>k'. delete_all R t ([''-D'', c] @ spec) k = Some k' \<and>
    view k' = put_chain t c (map_option (removeAll (rule t spec)) (view k t c)) (view k)"
proof (induction "case view k t c of None \<Rightarrow> 0 | Some rs \<Rightarrow> length rs" arbitrary: k rule: less_induct)
  case less
  obtain e k1 where run: "runTable R t ([''-D'', c] @ spec) k = (e, k1)" by fastforce
  note d = run_delete [OF assms run]
  show ?case
  proof (cases e)
    case (Some x)
    then have "delete_all R t ([''-D'', c] @ spec) k = Some k1" using run by (simp add: delete_all.simps)
    moreover have "map_option (removeAll (rule t spec)) (view k t c) = view k t c"
      using d Some by (cases "view k t c") (auto simp: removeAll_id)
    ultimately show ?thesis using d Some by (simp add: put_chain_same)
  next
    case None
    then have eq: "delete_all R t ([''-D'', c] @ spec) k = delete_all R t ([''-D'', c] @ spec) k1"
      using run by (subst delete_all.simps) simp
    from d None obtain rs where rs: "view k t c = Some rs" "rule t spec \<in> set rs"
      "view k1 = put_chain t c (Some (remove1 (rule t spec) rs)) (view k)" by auto
    then have "length (remove1 (rule t spec) rs) < length rs" 
      using length_pos_if_in_set [OF rs(2)] by (simp add: length_remove1)
    then obtain k' where "delete_all R t ([''-D'', c] @ spec) k1 = Some k'"
      "view k' = put_chain t c (map_option (removeAll (rule t spec)) (view k1 t c)) (view k1)"
      using less [of k1] rs by auto
    then show ?thesis using eq rs by (simp add: removeAll_remove1 put_chain_def)
  qed
qed

lemma each_opt_Some:
  "(\<And>x k. x \<in> set xs \<Longrightarrow> P k \<Longrightarrow> \<exists>k'. f x k = Some k' \<and> P k') \<Longrightarrow> P k \<Longrightarrow> \<exists>k'. each_opt f xs k = Some k' \<and> P k'"
proof (induction xs arbitrary: k)
  case (Cons x xs)
  obtain k1 where "f x k = Some k1" "P k1" using Cons.prems by (meson list.set_intros(1))
  then show ?case using Cons.IH [of k1] Cons.prems(1) by (auto simp del: each_opt.simps simp: each_opt.simps(2))
qed simp

section \<open>The operations keep the base rules in front\<close>

datatype fw_op = Allow_IP string | Block_IP string | Remove_IP string | Block_TCP string int | Remove_TCP string int
  | Block_All | Allow_All

fun fw_step :: "'k fw_runner \<Rightarrow> fw_manager \<Rightarrow> fw_op \<Rightarrow> 'k \<Rightarrow> 'k option" where
  "fw_step R m (Allow_IP ip) k = Some (snd (AllowIP R m ip k))"
| "fw_step R m (Block_IP ip) k = Some (snd (BlockIP R m ip k))"
| "fw_step R m (Remove_IP ip) k = Some (snd (RemoveIPRule R m ip k))"
| "fw_step R m (Block_TCP ip port) k = map_option snd (BlockTCPPortForIP R m ip port k)"
| "fw_step R m (Remove_TCP ip port) k = map_option snd (RemoveTCPPortRule R m ip port k)"
| "fw_step R m Block_All k = map_option snd (BlockAll R m k)"
| "fw_step R m Allow_All k = AllowAll R m k"

text \<open>The specifications that an operation deletes.\<close>

fun op_deletes :: "fw_op \<Rightarrow> string list list" where
  "op_deletes (Allow_IP ip) = map (source_rule ip) [''ACCEPT'', ''DROP'']"
| "op_deletes (Block_IP ip) = map (source_rule ip) [''ACCEPT'', ''DROP'']"
| "op_deletes (Remove_IP ip) = map (source_rule ip) [''ACCEPT'', ''DROP'']"
| "op_deletes (Block_TCP ip port) = map (port_rule ip port) [''ACCEPT'', ''DROP'']"
| "op_deletes (Remove_TCP ip port) = map (port_rule ip port) [''ACCEPT'', ''DROP'']"
| "op_deletes Block_All = [drop_rule]"
| "op_deletes Allow_All = [drop_rule]"

definition names_base :: "(string \<Rightarrow> string list \<Rightarrow> 'r) \<Rightarrow> fw_manager \<Rightarrow> string list \<Rightarrow> bool" where
  "names_base rule m spec = (\<exists>t bs. base_list rule m t bs \<and> rule t spec \<in> set bs)"

definition base_in_front :: "(string \<Rightarrow> string list \<Rightarrow> 'r) \<Rightarrow> fw_manager \<Rightarrow> 'r tables \<Rightarrow> bool" where
  "base_in_front rule m V = (\<forall>t \<in> set (fm_tables m). \<exists>bs rest. base_list rule m t bs \<and> V t (fm_Chain m) = Some (bs @ rest))"

lemma front_update:
  assumes "base_in_front rule m V" "V t (fm_Chain m) = Some rs" "V' = put_chain t (fm_Chain m) (Some rs') V"
    and "\<And>bs rest. base_list rule m t bs \<Longrightarrow> rs = bs @ rest \<Longrightarrow> \<exists>rest'. rs' = bs @ rest'"
  shows "base_in_front rule m V'"
  unfolding base_in_front_def
proof
  fix t' assume t': "t' \<in> set (fm_tables m)"
  then obtain bs rest where b: "base_list rule m t' bs" "V t' (fm_Chain m) = Some (bs @ rest)"
    using assms(1) by (auto simp: base_in_front_def)
  show "\<exists>bs rest. base_list rule m t' bs \<and> V' t' (fm_Chain m) = Some (bs @ rest)"
  proof (cases "t' = t")
    case True
    then obtain rest' where "rs' = bs @ rest'" using assms(2,4) b by auto
    then show ?thesis using b assms(3) True by auto
  next
    case False
    then show ?thesis using b assms(3) by auto
  qed
qed

lemma front_run_delete:
  assumes "filter_contract R view rule" "chain_word (fm_Chain m)" "spec_word spec" "\<not> names_base rule m spec"
    and "base_in_front rule m (view k)"
  shows "base_in_front rule m (view (snd (runTable R t ([''-D'', fm_Chain m] @ spec) k)))"
proof -
  obtain e k1 where run: "runTable R t ([''-D'', fm_Chain m] @ spec) k = (e, k1)" by fastforce
  have "base_in_front rule m (view k1)"
    using run_delete [OF assms(1-3) run]
  proof
    assume "e = None \<and> (\<exists>rs. view k t (fm_Chain m) = Some rs \<and> rule t spec \<in> set rs \<and>
      view k1 = put_chain t (fm_Chain m) (Some (remove1 (rule t spec) rs)) (view k))"
    then obtain rs where "view k t (fm_Chain m) = Some rs"
      "view k1 = put_chain t (fm_Chain m) (Some (remove1 (rule t spec) rs)) (view k)" by blast
    moreover have "\<exists>rest'. remove1 (rule t spec) rs = bs @ rest'" if "base_list rule m t bs" "rs = bs @ rest" for bs rest
      using assms(4) that by (auto simp: names_base_def remove1_append)
    ultimately show ?thesis by (rule front_update [OF assms(5)])
  qed (simp add: assms(5))
  then show ?thesis by (simp only: run snd_conv)
qed

lemma front_delete_all:
  assumes "filter_contract R view rule" "chain_word (fm_Chain m)" "spec_word spec" "\<not> names_base rule m spec"
    and "base_in_front rule m (view k)"
  shows "\<exists>k'. delete_all R t ([''-D'', fm_Chain m] @ spec) k = Some k' \<and> base_in_front rule m (view k')"
proof -
  obtain k' where d: "delete_all R t ([''-D'', fm_Chain m] @ spec) k = Some k'"
    "view k' = put_chain t (fm_Chain m) (map_option (removeAll (rule t spec)) (view k t (fm_Chain m))) (view k)"
    using delete_all_spec [OF assms(1-3)] by blast
  have "base_in_front rule m (view k')"
  proof (cases "view k t (fm_Chain m)")
    case None
    then show ?thesis using d(2) assms(5) by (simp add: put_chain_same)
  next
    case (Some rs)
    then have "view k' = put_chain t (fm_Chain m) (Some (removeAll (rule t spec) rs)) (view k)" using d(2) by simp
    moreover have "\<exists>rest'. removeAll (rule t spec) rs = bs @ rest'" if "base_list rule m t bs" "rs = bs @ rest" for bs rest
      using assms(4) that by (auto simp: names_base_def)
    ultimately show ?thesis by (rule front_update [OF assms(5) Some])
  qed
  then show ?thesis using d(1) by blast
qed

lemma front_insert:
  assumes "filter_contract R view rule" "chain_word (fm_Chain m)" "spec_word spec" "base_in_front rule m (view k)"
  shows "base_in_front rule m (view (snd (runTable R t ([''-I'', fm_Chain m, nat_str (baseRuleCountForTable m t + 1)] @ spec) k)))"
proof -
  let ?n = "baseRuleCountForTable m t + 1"
  obtain e k1 where run: "runTable R t ([''-I'', fm_Chain m, nat_str ?n] @ spec) k = (e, k1)" by fastforce
  have "base_in_front rule m (view k1)"
    using run_insert [OF assms(1-3) run]
  proof
    assume "e = None \<and> (\<exists>rs. view k t (fm_Chain m) = Some rs \<and> 1 \<le> ?n \<and> ?n \<le> length rs + 1 \<and>
      view k1 = put_chain t (fm_Chain m) (Some (take (?n - 1) rs @ rule t spec # drop (?n - 1) rs)) (view k))"
    then obtain rs where rs: "view k t (fm_Chain m) = Some rs"
      "view k1 = put_chain t (fm_Chain m) (Some (take (?n - 1) rs @ rule t spec # drop (?n - 1) rs)) (view k)" by blast
    from front_update [OF assms(4) rs] base_length show ?thesis by fastforce
  qed (simp add: assms(4))
  then show ?thesis by (simp only: run snd_conv)
qed

lemma front_append:
  assumes "filter_contract R view rule" "chain_word (fm_Chain m)"
  shows "base_in_front rule m (view k) \<Longrightarrow>
    base_in_front rule m (view (snd (append_to_tables R ([''-A'', fm_Chain m] @ drop_rule) ts k)))"
proof (induction ts arbitrary: k)
  case (Cons t ts)
  obtain e k1 where run: "runTable R t ([''-A'', fm_Chain m] @ drop_rule) k = (e, k1)" by fastforce
  have "base_in_front rule m (view k1)"
    using run_append [OF assms base_spec_words(1) run]
  proof
    assume "e = None \<and> (\<exists>rs. view k t (fm_Chain m) = Some rs \<and>
      view k1 = put_chain t (fm_Chain m) (Some (rs @ [rule t drop_rule])) (view k))"
    then obtain rs where "view k t (fm_Chain m) = Some rs"
      "view k1 = put_chain t (fm_Chain m) (Some (rs @ [rule t drop_rule])) (view k)" by blast
    from front_update [OF Cons.prems this] show ?thesis by simp
  qed (simp add: Cons.prems)
  then show ?case using Cons.IH [of k1] run by (auto split: option.split)
qed simp

lemma front_step:
  assumes "filter_contract R view rule" "chain_word (fm_Chain m)" "base_in_front rule m (view k)"
    and "\<forall>spec \<in> set (op_deletes oper). \<not> names_base rule m spec"
  shows "\<exists>k'. fw_step R m oper k = Some k' \<and> base_in_front rule m (view k')"
proof -
  note del = front_run_delete [OF assms(1,2)] and all = front_delete_all [OF assms(1,2)]
    and ins = front_insert [OF assms(1,2)] and app = front_append [OF assms(1,2)]
  have remove: "base_in_front rule m (view (snd (RemoveIPRule R m ip k)))"
    if "\<forall>spec \<in> set (map (source_rule ip) [''ACCEPT'', ''DROP'']). \<not> names_base rule m spec" for ip
    using that assms(3) by (auto simp: RemoveIPRule_def base_spec_words simp del: append_Cons append_Nil
        intro!: del split: sum.split)
  have insert: "base_in_front rule m (view (snd (insert_ip_rule R m act ip k)))"
    if "\<forall>spec \<in> set (map (source_rule ip) [''ACCEPT'', ''DROP'']). \<not> names_base rule m spec" for ip act
  proof (cases "tableForAddress m ip")
    case (Inr t)
    obtain e k1 where run: "runTable R t ([''-I'', fm_Chain m, nat_str (baseRuleCountForTable m t + 1)] @ source_rule ip act)
        (snd (RemoveIPRule R m ip k)) = (e, k1)" by fastforce
    have "base_in_front rule m (view k1)" using ins [OF base_spec_words(4) remove [OF that], of t ip act] unfolding run by simp
    then show ?thesis using Inr run by (simp add: insert_ip_rule_def Let_def del: append_Cons append_Nil)
  qed (use remove [OF that] in \<open>simp add: insert_ip_rule_def Let_def\<close>)
  have tcp: "\<exists>r. RemoveTCPPortRule R m ip port k = Some r \<and> base_in_front rule m (view (snd r))"
    if "\<forall>spec \<in> set (map (port_rule ip port) [''ACCEPT'', ''DROP'']). \<not> names_base rule m spec" for ip port
  proof -
    have "\<exists>k'. each_opt (\<lambda>action. delete_all R t ([''-D'', fm_Chain m] @ port_rule ip port action)) [''ACCEPT'', ''DROP''] k = Some k' \<and>
        base_in_front rule m (view k')" for t
      by (rule each_opt_Some) (use that assms(3) in \<open>auto intro!: all simp: base_spec_words simp del: append_Cons append_Nil\<close>)
    then show ?thesis using assms(3) by (fastforce simp: RemoveTCPPortRule_def split: option.split sum.split)
  qed
  have block: "\<exists>k'. RemoveBlockAll R m k = Some k' \<and> base_in_front rule m (view k')"
    if "\<not> names_base rule m drop_rule"
    unfolding RemoveBlockAll_def
    by (rule each_opt_Some) (use that assms(3) in \<open>auto intro!: all simp: base_spec_words simp del: append_Cons append_Nil\<close>)
  show ?thesis
  proof (cases oper)
    case (Block_TCP ip port)
    then obtain r where r: "RemoveTCPPortRule R m ip port k = Some r" "base_in_front rule m (view (snd r))"
      using tcp [of ip port] assms(4) Block_TCP by auto
    have "base_in_front rule m (view k1)"
      if "runTable R t ([''-I'', fm_Chain m, nat_str (baseRuleCountForTable m t + 1)] @ port_rule ip port ''DROP'') (snd r) = (e, k1)"
      for t e k1 using ins [OF base_spec_words(8) r(2), of t ip port "''DROP''"] unfolding that by simp
    then show ?thesis
      using r Block_TCP assms(3)
      by (auto simp: BlockTCPPortForIP_def ensureTCPPortRule_def simp del: append_Cons append_Nil
          split: option.split sum.split prod.split)
  next
    case (Remove_TCP ip port)
    then show ?thesis using tcp [of ip port] assms(4) by auto
  next
    case Block_All
    then show ?thesis using block app assms(4) by (fastforce simp: BlockAll_def simp del: append_Cons append_Nil)
  next
    case Allow_All
    then show ?thesis using block assms(4) by (simp add: AllowAll_def)
  qed (use remove insert assms(4) in \<open>auto simp: AllowIP_def BlockIP_def\<close>)
qed

definition fw_steps :: "'k fw_runner \<Rightarrow> fw_manager \<Rightarrow> fw_op list \<Rightarrow> 'k \<Rightarrow> 'k option" where
  "fw_steps R m ops k = each_opt (fw_step R m) ops k"


end
