(* ===== verification/FirewallEffect.thy ===== *)
theory FirewallEffect
  imports FirewallState
begin

text \<open>
  What the operations mean for a packet.  A rule that matches a packet takes an action; the first
  rule of the chain that matches decides (\<open>first_hit\<close>).  The contract of the commands has an
  executable instance, \<open>reference_filter\<close>, in which a rule is its specification.
\<close>

section \<open>A reference packet filter\<close>

definition reference_print :: "string \<Rightarrow> string list list \<Rightarrow> string" where
  "reference_print c rs =
     concat (map (\<lambda>r. script_line ([''-A'', c] @ r))
       (filter (\<lambda>r. plain_word c \<and> spec_word r \<and> list_all plain_word r) rs))"

definition reference_run :: "string \<Rightarrow> string list \<Rightarrow> string list tables \<Rightarrow> (string \<times> bool) \<times> string list tables" where
  "reference_run t args k =
     (let failed = ((''no'', False), k)
      in (case args of
            cmd # c # spec \<Rightarrow>
              if cmd = ''-N'' then (if k t c = None then (([], True), put_chain t c (Some []) k) else failed)
              else (case k t c of
                      None \<Rightarrow> failed
                    | Some rs \<Rightarrow>
                        if cmd = ''-L'' then (([], True), k)
                        else if cmd = ''-S'' then ((reference_print c rs, True), k)
                        else if cmd = ''-F'' then (([], True), put_chain t c (Some []) k)
                        else if cmd = ''-X'' then (if rs = [] then (([], True), put_chain t c None k) else failed)
                        else if cmd = ''-A'' then (([], True), put_chain t c (Some (rs @ [spec])) k)
                        else if cmd = ''-C'' then (if spec \<in> set rs then (([], True), k) else failed)
                        else if cmd = ''-D'' then
                          (if spec \<in> set rs then (([], True), put_chain t c (Some (remove1 spec rs)) k) else failed)
                        else if cmd = ''-I'' then
                          (case spec of
                             [] \<Rightarrow> failed
                           | n # sp \<Rightarrow>
                               if 1 \<le> dec_val n \<and> dec_val n \<le> length rs + 1
                               then (([], True), put_chain t c (Some (take (dec_val n - 1) rs @ sp # drop (dec_val n - 1) rs)) k)
                               else failed)
                        else failed)
          | _ \<Rightarrow> failed))"

fun reference_script :: "string \<Rightarrow> string list list \<Rightarrow> string list tables \<Rightarrow> string list tables option" where
  "reference_script t [] k = None"
| "reference_script t (l # ls) k =
     (if l = [''COMMIT''] then Some k
      else if l = [''*filter''] then reference_script t ls k
      else (case reference_run t l k of
              ((out, ok), k1) \<Rightarrow> if ok then reference_script t ls k1 else None))"

definition reference_filter :: "string list tables fw_runner" where
  "reference_filter =
     \<lparr>fr_run = reference_run,
      fr_input = (\<lambda>input command args k.
        case reference_script (trimSuffix command ''-restore'') (map rule_fields (split_byte newline input)) k of
          None \<Rightarrow> ((''no'', False), k)
        | Some k1 \<Rightarrow> (([], True), k1))\<rparr>"

lemma put_chain_put [simp]: "put_chain t c a (put_chain t c b V) = put_chain t c a V"
  by (simp add: put_chain_def)

section \<open>Printed words are read back\<close>

lemma plain_no_space: "plain_word w \<Longrightarrow> w \<noteq> [] \<and> (\<forall>c \<in> set w. \<not> isASCIISpace c \<and> c \<noteq> newline)"
  by (auto simp: plain_word_def list_all_iff graph_char_def isASCIISpace_def newline_def byte_def)

lemma rule_fields_words:
  "\<forall>w \<in> set ws. w \<noteq> [] \<and> (\<forall>c \<in> set w. \<not> isASCIISpace c) \<Longrightarrow> rule_fields (join_str '' '' ws) = ws"
proof (induction "'' ''" ws rule: join_str.induct)
  case 1
  show ?case by (subst rule_fields.simps) (simp add: nextRuleField_def)
next
  case (2 x)
  then have x: "x \<noteq> []" "\<forall>c \<in> set x. \<not> isASCIISpace c" by auto
  then have "dropWhile isASCIISpace x = x" "takeWhile (\<lambda>c. \<not> isASCIISpace c) x = x" "dropWhile (\<lambda>c. \<not> isASCIISpace c) x = []"
    by (cases x; simp add: takeWhile_eq_all_conv dropWhile_eq_Nil_conv)+
  moreover have "rule_fields [] = []" by (subst rule_fields.simps) (simp add: nextRuleField_def)
  ultimately show ?case using x by (subst rule_fields.simps) (simp add: nextRuleField_def dropWhile_eq_Nil_conv [THEN iffD2])
next
  case (3 x y ys)
  let ?r = "'' '' @ join_str '' '' (y # ys)"
  have sp: "isASCIISpace CHR '' ''" by code_simp
  have x: "x \<noteq> []" "\<forall>c \<in> set x. \<not> isASCIISpace c" using 3(2) by auto
  have "dropWhile isASCIISpace (x @ ?r) = x @ ?r" using x by (cases x) auto
  moreover have "takeWhile (\<lambda>c. \<not> isASCIISpace c) (x @ ?r) = x" "dropWhile (\<lambda>c. \<not> isASCIISpace c) (x @ ?r) = ?r"
    using x sp by (auto simp: takeWhile_append2 dropWhile_append2)
  ultimately have "rule_fields (join_str '' '' (x # y # ys)) = x # rule_fields ?r"
    using x by (subst rule_fields.simps) (simp add: nextRuleField_def)
  also have "rule_fields ?r = rule_fields (join_str '' '' (y # ys))"
    by (subst (1 2) rule_fields.simps) (simp add: nextRuleField_def sp)
  finally show ?case using 3 by simp
qed

lemma join_no_newline: "\<forall>w \<in> set ws. newline \<notin> set w \<Longrightarrow> newline \<notin> set (join_str '' '' ws)"
  by (induction "'' ''" ws rule: join_str.induct) (auto simp: newline_def)

lemma script_lines:
  "\<forall>l \<in> set ls. \<forall>w \<in> set l. plain_word w \<Longrightarrow>
     map rule_fields (split_byte newline (concat (map script_line ls))) = ls @ [[]]"
proof (induction ls)
  case Nil
  show ?case by (subst rule_fields.simps) (simp add: nextRuleField_def)
next
  case (Cons l ls)
  have "newline \<notin> set (join_str '' '' l)" using Cons.prems plain_no_space by (intro join_no_newline) auto
  then have "split_byte newline (concat (map script_line (l # ls))) =
      join_str '' '' l # split_byte newline (concat (map script_line ls))"
    by (simp add: script_line_def split_byte_append)
  moreover have "rule_fields (join_str '' '' l) = l" using Cons.prems plain_no_space by (intro rule_fields_words) auto
  ultimately show ?case using Cons by simp
qed

section \<open>The reference filter keeps the contract\<close>

lemma reference_append:
  "reference_run t ([''-A'', c] @ spec) k =
     (case k t c of None \<Rightarrow> ((''no'', False), k) | Some rs \<Rightarrow> (([], True), put_chain t c (Some (rs @ [spec])) k))"
  by (simp add: reference_run_def Let_def split: option.split)

lemma reference_appends:
  "k t c = Some rs \<Longrightarrow> reference_script t (map (\<lambda>r. [''-A'', c] @ r) specs @ [[''COMMIT''], []]) k =
     Some (put_chain t c (Some (rs @ specs)) k)"
proof (induction specs arbitrary: rs k)
  case Nil
  then show ?case by (simp add: put_chain_same)
next
  case (Cons spec specs)
  have "reference_script t (map (\<lambda>r. [''-A'', c] @ r) (spec # specs) @ [[''COMMIT''], []]) k =
      reference_script t (map (\<lambda>r. [''-A'', c] @ r) specs @ [[''COMMIT''], []]) (put_chain t c (Some (rs @ [spec])) k)"
    using reference_append [of t c spec k] Cons.prems by simp
  then show ?case using Cons.IH [of "put_chain t c (Some (rs @ [spec])) k" "rs @ [spec]"] by simp
qed

lemma reference_restore: "restore_law reference_filter id (\<lambda>_. id)"
proof -
  have law: "if ok then k t c \<noteq> None \<and> k' = put_chain t c (Some specs) k else k' = k"
    if t: "t \<in> {''iptables'', ''ip6tables''}" and c: "plain_word c"
      and specs: "\<forall>spec \<in> set specs. spec_word spec \<and> (\<forall>w \<in> set spec. plain_word w)"
      and run: "fr_input reference_filter (script_line [''*filter''] @ script_line [''-F'', c] @
         concat (map (\<lambda>r. script_line ([''-A'', c] @ r)) specs) @ script_line [''COMMIT''])
       (t @ ''-restore'') [''--noflush''] k = ((out, ok), k')" for t c specs k out ok k'
  proof -
    let ?ls = "[[''*filter''], [''-F'', c]] @ map (\<lambda>r. [''-A'', c] @ r) specs @ [[''COMMIT'']]"
    have "plain_word ''*filter''" "plain_word ''-F''" "plain_word ''-A''" "plain_word ''COMMIT''" by code_simp+
    then have "map rule_fields (split_byte newline (concat (map script_line ?ls))) = ?ls @ [[]]"
      using c specs by (intro script_lines) auto
    moreover have "concat (map script_line ?ls) = script_line [''*filter''] @ script_line [''-F'', c] @
         concat (map (\<lambda>r. script_line ([''-A'', c] @ r)) specs) @ script_line [''COMMIT'']" by (simp add: o_def)
    moreover have "trimSuffix (t @ ''-restore'') ''-restore'' = t" by (simp add: trimSuffix_def suffix_def)
    moreover have "reference_script t (?ls @ [[]]) k =
        (if k t c = None then None else Some (put_chain t c (Some specs) k))"
    proof (cases "k t c")
      case None
      then show ?thesis by (simp add: reference_run_def Let_def)
    next
      case (Some rs)
      have "reference_script t (?ls @ [[]]) k =
          reference_script t (map (\<lambda>r. [''-A'', c] @ r) specs @ [[''COMMIT''], []]) (put_chain t c (Some []) k)"
        using Some by (simp add: reference_run_def Let_def)
      then show ?thesis using Some reference_appends [of "put_chain t c (Some []) k" t c "[]" specs] by simp
    qed
    ultimately show ?thesis using run by (auto simp: reference_filter_def split: if_splits)
  qed
  show ?thesis
  proof (unfold restore_law_def, intro allI impI, goal_cases)
    case (1 t c specs k out ok k')
    then show ?case using law [OF 1(1,3,4,5)] by simp
  qed
qed

lemma reference_printed:
  assumes "line \<in> set (split_byte newline (reference_print c rs))" "rule_fields line = [''-A'', c] @ spec"
  shows "spec_word spec"
proof -
  let ?ls = "map (\<lambda>r. [''-A'', c] @ r) (filter (\<lambda>r. plain_word c \<and> spec_word r \<and> list_all plain_word r) rs)"
  have "reference_print c rs = concat (map script_line ?ls)" by (simp add: reference_print_def o_def)
  moreover have "plain_word ''-A''" by code_simp
  then have "map rule_fields (split_byte newline (concat (map script_line ?ls))) = ?ls @ [[]]"
    by (intro script_lines) (auto simp: list_all_iff)
  moreover have "rule_fields line \<in> set (map rule_fields (split_byte newline (reference_print c rs)))"
    using assms(1) by simp
  ultimately have "rule_fields line \<in> set (?ls @ [[]])" by (simp only:)
  then show ?thesis using assms(2) by auto
qed

lemma reference_contract: "filter_contract reference_filter id (\<lambda>_. id)"
proof -
  have run [simp]: "fr_run reference_filter = reference_run" by (simp add: reference_filter_def)
  have "append_law reference_filter id (\<lambda>_. id)"
    by (auto simp: append_law_def reference_run_def Let_def split: option.splits)
  moreover have "insert_law reference_filter id (\<lambda>_. id)"
    by (auto simp: insert_law_def reference_run_def Let_def split: option.splits if_splits)
  moreover have "delete_law reference_filter id (\<lambda>_. id)"
    by (auto simp: delete_law_def reference_run_def Let_def split: option.splits if_splits)
  moreover have "check_law reference_filter id (\<lambda>_. id)"
    by (auto simp: check_law_def reference_run_def Let_def split: option.splits if_splits)
  moreover have "list_law reference_filter id"
    by (auto dest: reference_printed simp: list_law_def reference_run_def Let_def split: option.splits if_splits)
  moreover have "chain_law reference_filter id"
    by (auto simp: chain_law_def reference_run_def Let_def split: option.splits if_splits)
  ultimately show ?thesis using reference_restore by (simp add: filter_contract_def)
qed

section \<open>Which rule decides\<close>

fun first_hit :: "('r \<Rightarrow> 'p \<Rightarrow> string option) \<Rightarrow> 'r list \<Rightarrow> 'p \<Rightarrow> string option" where
  "first_hit hit [] p = None"
| "first_hit hit (r # rs) p = (case hit r p of Some a \<Rightarrow> Some a | None \<Rightarrow> first_hit hit rs p)"

lemma first_hit_append:
  "first_hit hit (rs @ rs') p = (case first_hit hit rs p of Some a \<Rightarrow> Some a | None \<Rightarrow> first_hit hit rs' p)"
  by (induction rs) (auto split: option.splits)

lemma first_hit_none: "\<forall>r \<in> set rs. hit r p = None \<Longrightarrow> first_hit hit rs p = None"
  by (induction rs) auto

lemma remove_ip_view:
  assumes "filter_contract R view rule" "chain_word (fm_Chain m)" "tableForAddress m ip = Inr t"
    and "view k t (fm_Chain m) = Some rs"
  shows "view (snd (RemoveIPRule R m ip k)) =
    put_chain t (fm_Chain m) (Some (remove1 (rule t (source_rule ip ''DROP'')) (remove1 (rule t (source_rule ip ''ACCEPT'')) rs))) (view k)"
proof -
  let ?c = "fm_Chain m"
  have one: "view (snd (runTable R t ([''-D'', ?c] @ spec) k)) = put_chain t ?c (Some (remove1 (rule t spec) rs)) (view k)"
    if "spec_word spec" "view k t ?c = Some rs" for spec k rs
  proof -
    obtain e k1 where run: "runTable R t ([''-D'', ?c] @ spec) k = (e, k1)" by fastforce
    have "view k1 = put_chain t ?c (Some (remove1 (rule t spec) rs)) (view k)"
      using run_delete [OF assms(1,2) that(1) run] that(2) by (auto simp: remove1_idem put_chain_same)
    then show ?thesis by (simp only: run snd_conv)
  qed
  let ?k1 = "snd (runTable R t ([''-D'', ?c] @ source_rule ip ''ACCEPT'') k)"
  have v1: "view ?k1 = put_chain t ?c (Some (remove1 (rule t (source_rule ip ''ACCEPT'')) rs)) (view k)"
    using one [OF base_spec_words(4) assms(4)] .
  have "view (snd (runTable R t ([''-D'', ?c] @ source_rule ip ''DROP'') ?k1)) =
      put_chain t ?c (Some (remove1 (rule t (source_rule ip ''DROP'')) (remove1 (rule t (source_rule ip ''ACCEPT'')) rs))) (view ?k1)"
    by (rule one [OF base_spec_words(4)]) (simp only: v1 put_chain_simps)
  then have "view (snd (RemoveIPRule R m ip k)) =
      put_chain t ?c (Some (remove1 (rule t (source_rule ip ''DROP'')) (remove1 (rule t (source_rule ip ''ACCEPT'')) rs))) (view ?k1)"
    by (simp only: RemoveIPRule_def assms(3) sum.case snd_conv)
  then show ?thesis by (simp only: v1 put_chain_put)
qed

lemma insert_ip_view:
  assumes "filter_contract R view rule" "chain_word (fm_Chain m)" "tableForAddress m ip = Inr t"
    and "view k t (fm_Chain m) = Some rs" "insert_ip_rule R m act ip k = (None, k')"
    and "rs' = remove1 (rule t (source_rule ip ''DROP'')) (remove1 (rule t (source_rule ip ''ACCEPT'')) rs)"
    and "n = baseRuleCountForTable m t"
  shows "n \<le> length rs' \<and> view k' = put_chain t (fm_Chain m) (Some (take n rs' @ rule t (source_rule ip act) # drop n rs')) (view k)"
proof -
  let ?c = "fm_Chain m"
  let ?k1 = "snd (RemoveIPRule R m ip k)"
  obtain e k2 where run: "runTable R t ([''-I'', ?c, nat_str (n + 1)] @ source_rule ip act) ?k1 = (e, k2)" by fastforce
  then have "e = None" "k2 = k'"
    using assms(3,5,7) by (auto simp: insert_ip_rule_def Let_def simp del: append_Cons append_Nil split: if_splits)
  moreover have "view ?k1 = put_chain t ?c (Some rs') (view k)"
    using remove_ip_view [OF assms(1-4)] assms(6) by simp
  ultimately show ?thesis using run_insert [OF assms(1,2) base_spec_words(4) run] by auto
qed


text \<open>C19: allowing a local network locks it out. Right after the start, \<^verbatim>\<open>AllowIP\<close> of one of the
  local networks first deletes the base rule that accepts it, so its own position, counted with that
  rule, is behind the rule that drops: the chain drops what no other base rule accepts.\<close>

theorem allow_local_network_locks_out:
  assumes "filter_contract R view rule" "chain_word (fm_Chain m)" "base_list rule m t bs"
    and "view k t (fm_Chain m) = Some (bs @ [rule t drop_rule])"
    and "tableForAddress m cidr = Inr t" "cidr \<in> set (localCIDRsForTable t)"
    and "rule t (source_rule cidr ''DROP'') \<notin> set (bs @ [rule t drop_rule])"
    and "AllowIP R m cidr k = (None, k')"
    and "hit (rule t drop_rule) p = Some ''DROP''"
    and "\<forall>r \<in> set (remove1 (rule t (source_rule cidr ''ACCEPT'')) bs). hit r p = None"
  shows "\<exists>rs. view k' t (fm_Chain m) = Some rs \<and> first_hit hit rs p = Some ''DROP''"
proof -
  let ?a = "rule t (source_rule cidr ''ACCEPT'')"
  have a: "?a \<in> set bs" using assms(3,6) by (auto simp: base_list_def base_specs_def fixed_rules_def)
  let ?rs = "remove1 ?a bs @ [rule t drop_rule]"
  have rs: "remove1 (rule t (source_rule cidr ''DROP'')) (remove1 ?a (bs @ [rule t drop_rule])) = ?rs"
    using a assms(7) by (simp add: remove1_append remove1_idem)
  have len: "length ?rs = baseRuleCountForTable m t"
    using a base_length [OF assms(3)] length_pos_if_in_set [OF a] by (simp add: length_remove1)
  have "view k' t (fm_Chain m) = Some (?rs @ [?a])"
    using insert_ip_view [OF assms(1,2,5,4) assms(8) [unfolded AllowIP_def] refl refl] unfolding rs len [symmetric]
    by (simp del: append_assoc)
  then show ?thesis
    using first_hit_none [of _ hit p, OF assms(10)] assms(9) by (intro exI conjI) (auto simp: first_hit_append)
qed

section \<open>After a restart of the gateway\<close>

text \<open>The manager with which the gateway starts; no start of the chain is asked for.\<close>

definition restart_options :: "string \<Rightarrow> fw_options" where
  "restart_options chain =
     \<lparr>fo_ChainName = (if chain = [] then ''REAUTH_FW'' else chain), fo_ParentChain = PV_Strings [''INPUT'', ''DOCKER-USER''],
      fo_ExemptPorts = [], fo_Tables = []\<rparr>"

text \<open>C18: a restart of the gateway forgets that the rule for established connections had to be
  left out. The chain of the host is still there, with one base rule less than the new manager
  counts, so the first address that is allowed afterwards gets its rule behind the rule that drops,
  and \<^verbatim>\<open>AllowIP\<close> reports success.\<close>

theorem restart_hides_allowed:
  assumes "filter_contract R view rule" "chain_word (fm_Chain m)" "base_list rule m t bs"
    and "isEstablishedRelatedRuleSkipped m t" "fm_ExemptPorts m = []"
    and "view k t (fm_Chain m) = Some (bs @ [rule t drop_rule])" "m' = newFwManager (restart_options (fm_Chain m))"
    and "tableForAddress m' ip = Inr t" "\<forall>a \<in> {''ACCEPT'', ''DROP''}. rule t (source_rule ip a) \<notin> set (bs @ [rule t drop_rule])"
    and "AllowIP R m' ip k = (None, k')"
    and "hit (rule t drop_rule) p = Some ''DROP''" "\<forall>r \<in> set bs. hit r p = None"
  shows "\<exists>rs. view k' t (fm_Chain m) = Some rs \<and> first_hit hit rs p = Some ''DROP''"
proof -
  let ?rs = "bs @ [rule t drop_rule]"
  have c: "fm_Chain m' = fm_Chain m" "fm_ExemptPorts m' = []" "\<not> isEstablishedRelatedRuleSkipped m' t"
    using assms(2,7) by (auto simp: newFwManager_def restart_options_def Let_def chain_word_def
        isEstablishedRelatedRuleSkipped_def al_get_def)
  have len: "baseRuleCountForTable m' t = length ?rs"
    using base_length [OF assms(3)] assms(4,5) c by (simp add: baseRuleCountForTable_def)
  have rs: "remove1 (rule t (source_rule ip ''DROP'')) (remove1 (rule t (source_rule ip ''ACCEPT'')) ?rs) = ?rs"
    using assms(9) by (simp only: remove1_idem insertI1 insertI2 not_False_eq_True)
  have "view k' t (fm_Chain m) = Some (?rs @ [rule t (source_rule ip ''ACCEPT'')])"
    using insert_ip_view [of R view rule m' ip t k ?rs, OF assms(1) _ assms(8) _ assms(10) [unfolded AllowIP_def] refl refl]
      assms(2,6) c(1) unfolding rs len by simp
  then show ?thesis
    using first_hit_none [of _ hit p, OF assms(12)] assms(11) by (intro exI conjI) (auto simp: first_hit_append)
qed

section \<open>Removing the chain\<close>

definition shrinks :: "'r tables \<Rightarrow> 'r tables \<Rightarrow> bool" where
  "shrinks V V' = (\<forall>t c rs'. V' t c = Some rs' \<longrightarrow> (\<exists>rs. V t c = Some rs \<and> set rs' \<subseteq> set rs))"

lemma shrinks_refl [simp]: "shrinks V V"
  by (auto simp: shrinks_def)

lemma shrinks_trans: "shrinks V V' \<Longrightarrow> shrinks V' V'' \<Longrightarrow> shrinks V V''"
  unfolding shrinks_def by (meson subset_trans)

definition no_rule :: "string \<Rightarrow> string \<Rightarrow> 'r \<Rightarrow> 'r tables \<Rightarrow> bool" where
  "no_rule t c r V = (\<forall>rs. V t c = Some rs \<longrightarrow> r \<notin> set rs)"

lemma no_rule_shrinks: "no_rule t c r V \<Longrightarrow> shrinks V V' \<Longrightarrow> no_rule t c r V'"
  by (fastforce simp: no_rule_def shrinks_def)

lemma each_opt_post:
  assumes "\<And>x k. x \<in> set xs \<Longrightarrow> \<exists>k'. f x k = Some k' \<and> shrinks (view k) (view k') \<and> Q x (view k')"
    and "\<And>x V V'. Q x V \<Longrightarrow> shrinks V V' \<Longrightarrow> Q x V'"
  shows "\<exists>k'. each_opt f xs k = Some k' \<and> shrinks (view k) (view k') \<and> (\<forall>x \<in> set xs. Q x (view k'))"
  using assms(1)
proof (induction xs arbitrary: k)
  case (Cons x xs)
  obtain k1 where k1: "f x k = Some k1" "shrinks (view k) (view k1)" "Q x (view k1)"
    using Cons.prems by (meson list.set_intros(1))
  obtain k' where k': "each_opt f xs k1 = Some k'" "shrinks (view k1) (view k')" "\<forall>x \<in> set xs. Q x (view k')"
    using Cons.IH [of k1] Cons.prems by auto
  then show ?case using k1 assms(2) by (auto intro: shrinks_trans)
qed simp

lemma destroy_table:
  assumes "filter_contract R view rule" "chain_word c" "\<forall>p \<in> set ps. chain_word p"
  shows "\<exists>k'. map_option (\<lambda>k1. snd (runTable R t [''-X'', c] (snd (runTable R t [''-F'', c] k1))))
      (each_opt (\<lambda>parent. delete_all R t [''-D'', parent, ''-j'', c]) ps k) = Some k' \<and>
    shrinks (view k) (view k') \<and> (\<forall>p \<in> set ps. no_rule t p (rule t [''-j'', c]) (view k'))"
proof -
  have one: "\<exists>k'. delete_all R t [''-D'', p, ''-j'', c] k = Some k' \<and> shrinks (view k) (view k') \<and> no_rule t p (rule t [''-j'', c]) (view k')"
    if "p \<in> set ps" for p k
  proof -
    have "chain_word p" using that assms(3) by simp
    from delete_all_spec [OF assms(1) this base_spec_words(7) [of "[c]"], of t k] obtain k' where
      "delete_all R t [''-D'', p, ''-j'', c] k = Some k'"
      "view k' = put_chain t p (map_option (removeAll (rule t [''-j'', c])) (view k t p)) (view k)" by auto
    then show ?thesis by (auto simp: shrinks_def no_rule_def put_chain_def)
  qed
  have "\<exists>k1. each_opt (\<lambda>parent. delete_all R t [''-D'', parent, ''-j'', c]) ps k = Some k1 \<and> shrinks (view k) (view k1) \<and>
      (\<forall>p \<in> set ps. no_rule t p (rule t [''-j'', c]) (view k1))"
  proof (rule each_opt_post [where Q = "\<lambda>p V. no_rule t p (rule t [''-j'', c]) V"])
    show "no_rule t x (rule t [''-j'', c]) V'" if "no_rule t x (rule t [''-j'', c]) V" "shrinks V V'" for x V V'
      using that by (rule no_rule_shrinks)
  qed (rule one)
  then obtain k1 where
    k1: "each_opt (\<lambda>parent. delete_all R t [''-D'', parent, ''-j'', c]) ps k = Some k1" "shrinks (view k) (view k1)"
      "\<forall>p \<in> set ps. no_rule t p (rule t [''-j'', c]) (view k1)" by blast
  obtain e2 k2 where r2: "runTable R t [''-F'', c] k1 = (e2, k2)" by fastforce
  obtain e3 k3 where r3: "runTable R t [''-X'', c] k2 = (e3, k3)" by fastforce
  have "shrinks (view k1) (view k2)" "shrinks (view k2) (view k3)"
    using run_chain(2) [OF assms(1,2) r2] run_chain(3) [OF assms(1,2) r3]
    by (auto simp: shrinks_def put_chain_def split: if_splits)
  then have "shrinks (view k1) (view k3)" by (rule shrinks_trans)
  then show ?thesis using k1 r2 r3 by (auto intro: shrinks_trans no_rule_shrinks)
qed


section \<open>Witnesses\<close>

definition sample_manager :: fw_manager where
  "sample_manager =
     \<lparr>fm_Chain = ''REAUTH_FW'', fm_ParentChains = [''INPUT''], fm_ExemptPorts = [''22''], fm_tables = [''iptables''], fm_skipped = []\<rparr>"

definition sample_host :: "string list tables" where
  "sample_host = (\<lambda>t c. if c = ''INPUT'' then Some [] else None)"

definition sample_up :: "fw_error option \<times> fw_manager \<times> string list tables" where
  "sample_up = fw_Init plain_unicode reference_filter sample_manager sample_host"

definition up_manager :: fw_manager where
  "up_manager = fst (snd sample_up)"

definition up_host :: "string list tables" where
  "up_host = snd (snd sample_up)"

lemma sample_words: "chain_word (fm_Chain sample_manager)" "\<forall>p \<in> set (fm_ParentChains sample_manager). chain_word p"
  "distinct (fm_tables sample_manager)"
  by (simp_all add: sample_manager_def chain_word_def)

lemma sample_init: "fw_Init plain_unicode reference_filter sample_manager sample_host = (None, up_manager, up_host)"
proof -
  have "fst sample_up = None" by code_simp
  then show ?thesis by (metis prod.collapse sample_up_def up_host_def up_manager_def)
qed

theorem firewall_start_witness:
  "\<exists>bs. base_list (\<lambda>_. id) up_manager ''iptables'' bs \<and> length bs = 10 \<and>
     up_host ''iptables'' ''REAUTH_FW'' = Some (bs @ [[''-j'', ''DROP'']])"
proof -
  have "baseRuleCountForTable up_manager ''iptables'' = 10" by code_simp
  then show ?thesis
    using firewall_start [OF reference_contract sample_words sample_init, of "''iptables''"]
    by (auto simp: sample_manager_def drop_rule_def)
qed


text \<open>Packets named by the address or network of the rule they match.\<close>

definition sample_hit :: "string list \<Rightarrow> string \<Rightarrow> string option" where
  "sample_hit spec p =
     (if spec = drop_rule then Some ''DROP''
      else if spec = source_rule p ''ACCEPT'' then Some ''ACCEPT''
      else if spec = source_rule p ''DROP'' then Some ''DROP'' else None)"

definition sample_base :: "string list list" where
  "sample_base = base_specs (Some state_rule) ''iptables'' [''22'']"

lemma up_manager_eq: "up_manager = sample_manager\<lparr>fm_skipped := [(''iptables'', False)]\<rparr>"
  by code_simp

lemma up_chain: "up_host ''iptables'' ''REAUTH_FW'' = Some (sample_base @ [drop_rule])"
  by code_simp

lemma up_base: "base_list (\<lambda>_. id) up_manager ''iptables'' sample_base"
  unfolding base_list_def
  by (rule bexI [of _ "Some state_rule"])
    (simp_all add: sample_base_def up_manager_eq sample_manager_def isEstablishedRelatedRuleSkipped_def al_get_def)

lemma up_front: "base_in_front (\<lambda>_. id) up_manager (id up_host)"
  using up_base up_chain by (auto simp: base_in_front_def up_manager_eq sample_manager_def)

lemma up_words: "chain_word (fm_Chain up_manager)"
  by (simp add: up_manager_eq sample_manager_def chain_word_def)

lemma sample_spared: "\<not> names_base (\<lambda>_. id) up_manager (source_rule ''203.0.113.9'' a)"
  by (auto simp: names_base_def base_list_def base_specs_def fixed_rules_def localCIDRsForTable_def localCIDRv4_def
      localCIDRv6_def source_rule_def port_rules_def up_manager_eq sample_manager_def state_rule_def conntrack_rule_def
      split: if_splits)



theorem allow_local_network_locks_out_witness:
  "\<exists>k' rs. AllowIP reference_filter up_manager ''10.0.0.0/8'' up_host = (None, k') \<and>
     k' ''iptables'' ''REAUTH_FW'' = Some rs \<and> first_hit sample_hit rs ''10.0.0.0/8'' = Some ''DROP''"
proof -
  have "fst (AllowIP reference_filter up_manager ''10.0.0.0/8'' up_host) = None" by code_simp
  then obtain k' where k': "AllowIP reference_filter up_manager ''10.0.0.0/8'' up_host = (None, k')" by (metis prod.collapse)
  have t: "tableForAddress up_manager ''10.0.0.0/8'' = Inr ''iptables''" by code_simp
  have l: "''10.0.0.0/8'' \<in> set (localCIDRsForTable ''iptables'')" by code_simp
  have n: "source_rule ''10.0.0.0/8'' ''DROP'' \<notin> set (sample_base @ [drop_rule])" by code_simp
  have h: "\<forall>r \<in> set (remove1 (source_rule ''10.0.0.0/8'' ''ACCEPT'') sample_base). sample_hit r ''10.0.0.0/8'' = None" by code_simp
  have c: "fm_Chain up_manager = ''REAUTH_FW''" by (simp add: up_manager_eq sample_manager_def)
  show ?thesis
    using allow_local_network_locks_out [where view = id and rule = "\<lambda>_. id", OF reference_contract up_words up_base, of up_host "''10.0.0.0/8''" k' sample_hit "''10.0.0.0/8''"]
      up_chain t l n h k' c by (simp add: sample_hit_def)
qed

text \<open>A host whose chain was set up without the rule for established connections.\<close>

definition bare_manager :: fw_manager where
  "bare_manager =
     \<lparr>fm_Chain = ''REAUTH_FW'', fm_ParentChains = [''INPUT''], fm_ExemptPorts = [], fm_tables = [''iptables''],
      fm_skipped = [(''iptables'', True)]\<rparr>"

definition bare_host :: "string list tables" where
  "bare_host = put_chain ''iptables'' ''REAUTH_FW'' (Some (base_specs None ''iptables'' [] @ [drop_rule])) sample_host"

theorem restart_hides_allowed_witness:
  "\<exists>k' rs. AllowIP reference_filter (newFwManager (restart_options ''REAUTH_FW'')) ''203.0.113.9'' bare_host = (None, k') \<and>
     k' ''iptables'' ''REAUTH_FW'' = Some rs \<and> first_hit sample_hit rs ''203.0.113.9'' = Some ''DROP''"
proof -
  let ?m = "newFwManager (restart_options ''REAUTH_FW'')" and ?bs = "base_specs None ''iptables'' []"
  have "fst (AllowIP reference_filter ?m ''203.0.113.9'' bare_host) = None" by code_simp
  then obtain k' where k': "AllowIP reference_filter ?m ''203.0.113.9'' bare_host = (None, k')" by (metis prod.collapse)
  have t: "tableForAddress ?m ''203.0.113.9'' = Inr ''iptables''" by code_simp
  have n: "\<forall>a \<in> {''ACCEPT'', ''DROP''}. source_rule ''203.0.113.9'' a \<notin> set (?bs @ [drop_rule])" by code_simp
  have h: "\<forall>r \<in> set ?bs. sample_hit r ''203.0.113.9'' = None" by code_simp
  have b: "base_list (\<lambda>_. id) bare_manager ''iptables'' ?bs"
    unfolding base_list_def
    by (rule bexI [of _ None]) (simp_all add: bare_manager_def isEstablishedRelatedRuleSkipped_def al_get_def)
  have c: "fm_Chain bare_manager = ''REAUTH_FW''" "fm_ExemptPorts bare_manager = []"
    "isEstablishedRelatedRuleSkipped bare_manager ''iptables''" "chain_word (fm_Chain bare_manager)"
    by (simp_all add: bare_manager_def chain_word_def isEstablishedRelatedRuleSkipped_def al_get_def)
  have v: "bare_host ''iptables'' ''REAUTH_FW'' = Some (?bs @ [drop_rule])" by (simp add: bare_host_def)
  show ?thesis
    using restart_hides_allowed [where view = id and rule = "\<lambda>_. id" and hit = sample_hit and p = "''203.0.113.9''"
        and k = bare_host and m' = ?m and ip = "''203.0.113.9''" and k' = k', OF reference_contract c(4) b c(3,2)]
      c(1) v t n h k' by (simp add: sample_hit_def)
qed

end
