(* ===== verification/FirewallSsh.thy ===== *)
theory FirewallSsh
  imports FirewallEffect
begin

text \<open>
  The access policy of the SSH ports as the host enforces it: the script that replaces the chain is
  read as meant whatever the addresses are, the parent chains jump to the chain for exactly the
  ports, and the verdict on a packet is that of the lists of the policy.
\<close>

section \<open>Addresses are plain words\<close>

definition addr_char :: "char \<Rightarrow> bool" where
  "addr_char c = (is_hex c \<or> c = CHR ''.'' \<or> c = CHR '':'')"

lemma addr_char_sep [simp]: "addr_char CHR ''.''" "addr_char CHR '':''"
  by (simp_all add: addr_char_def)

lemma addr_char_plain: "addr_char c \<or> c = CHR ''/'' \<Longrightarrow> graph_char c \<and> byte c \<notin> {34, 35, 39, 92}"
  by (auto simp: addr_char_def is_hex_def is_digit_def graph_char_def byte_def)

lemma parse_v4_chars: "parse_v4_fields first dot val dl fs s = Some r \<Longrightarrow> list_all addr_char s"
  by (induction first dot val dl fs s arbitrary: r rule: parse_v4_fields.induct)
    (auto simp: addr_char_def Let_def split: if_splits)

lemma parse_v6_chars: "parse_v6_loop k acc ell s = Some (acc', ell', []) \<Longrightarrow> list_all addr_char s"
proof (induction k acc ell s arbitrary: acc' ell' rule: parse_v6_loop.induct)
  case (2 k acc ell s)
  let ?h = "takeWhile is_hex s" and ?r = "dropWhile is_hex s"
  have h: "list_all addr_char ?h" by (auto simp: list_all_iff addr_char_def dest: set_takeWhileD)
  show ?case
  proof (cases "prefix ''.'' ?r")
    case True
    then show ?thesis using 2(3) by (auto simp: Let_def split: if_splits option.splits list.splits intro: parse_v4_chars)
  next
    case False
    have "list_all addr_char ?r"
    proof (cases ?r)
      case (Cons c r1)
      with False 2(3) have c: "c = CHR '':''" "r1 \<noteq> []" by (auto simp: Let_def split: if_splits)
      then obtain d r2 where r1: "r1 = d # r2" by (cases r1) auto
      have "list_all addr_char r1"
        using 2 False Cons c r1 by (auto simp: Let_def split: if_splits)
      then show ?thesis using Cons c by simp
    next
      case Nil
      show ?thesis unfolding Nil by simp
    qed
    then show ?thesis using h by (metis list_all_append takeWhile_dropWhile_id)
  qed
qed simp

lemma parse_addr_chars:
  assumes "parse_addr s = Some a" "addr_zone a = []"
  shows "list_all addr_char s"
proof -
  have body: "list_all addr_char s" if "parse_v6_body s = Some gs" for s gs
  proof -
    have loop: "list_all addr_char u" if "Option.bind (parse_v6_loop 8 [] e u) expand_v6 = Some gs" for e u
      using that parse_v6_chars by (cases "parse_v6_loop 8 [] e u") (auto simp: expand_v6_def split: if_splits)
    show ?thesis
    proof (cases "prefix ''::'' s")
      case True
      then obtain u where "s = CHR '':'' # CHR '':'' # u" by (auto simp: prefix_def)
      then show ?thesis using that loop by (auto simp: parse_v6_body_def split: if_splits)
    next
      case False
      then show ?thesis using that loop by (auto simp: parse_v6_body_def)
    qed
  qed
  obtain b zone found where cut: "cut_byte CHR ''%'' s = (b, zone, found)" by (metis prod_cases3)
  have "b = s" if "\<not> found" using cut that by (auto simp: cut_byte_def Let_def split: if_splits)
  then show ?thesis
    using assms body cut parse_v4_chars
    by (auto simp: parse_addr_def parse_v4_def parse_v6_def split: option.splits if_splits)
qed

lemma cut_parts: "cut_byte c s = (b, r, True) \<Longrightarrow> s = b @ c # r"
proof -
  assume a: "cut_byte c s = (b, r, True)"
  then have "c \<in> set s" by (auto simp: cut_byte_def split: if_splits)
  then obtain ys zs where s: "s = ys @ c # zs" "c \<notin> set ys" by (meson split_list_first)
  then show ?thesis using a cut_byte_append [of c ys zs] by simp
qed

lemma table_plain:
  assumes "tableForAddress m s = Inr t"
  shows "plain_word (trim_space s)"
proof -
  let ?s = "trim_space s"
  have "?s \<noteq> []" using assms by (auto simp: tableForAddress_def Let_def)
  have "\<forall>c \<in> set ?s. addr_char c \<or> c = CHR ''/''"
  proof (cases "net_parse_ip ?s")
    case (Some a)
    then have "list_all addr_char ?s" by (auto simp: net_parse_ip_def split: option.splits if_splits intro: parse_addr_chars)
    then show ?thesis by (auto simp: list_all_iff)
  next
    case None
    then obtain a where a: "net_parse_cidr ?s = Some a"
      using assms by (auto simp: tableForAddress_def Let_def split: option.splits if_splits)
    obtain b len found where cut: "cut_byte CHR ''/'' ?s = (b, len, found)" by (metis prod_cases3)
    then obtain a' where p: "found" "parse_addr b = Some a'" "addr_zone a' = []" "list_all is_digit len"
      using a by (auto simp: net_parse_cidr_def split: option.splits if_splits)
    have "?s = b @ CHR ''/'' # len" using cut p(1) cut_parts by simp
    moreover have "\<forall>c \<in> set b. addr_char c" using parse_addr_chars [OF p(2,3)] by (simp add: list_all_iff)
    moreover have "\<forall>c \<in> set len. addr_char c" using p(4) by (auto simp: list_all_iff addr_char_def)
    ultimately show ?thesis by auto
  qed
  then show ?thesis using \<open>?s \<noteq> []\<close> addr_char_plain by (auto simp: plain_word_def list_all_iff)
qed

section \<open>Jumps\<close>

lemma run_output_error: "runTableOutput R t args k = (e, k') \<Longrightarrow> snd (runTable R t args k) = k'"
  by (auto simp: runTable_def runTableOutput_def split: prod.splits if_splits)

text \<open>Deleting jumps changes only the parent chain, and keeps it.\<close>

definition only_parent :: "string \<Rightarrow> string \<Rightarrow> 'r tables \<Rightarrow> 'r tables \<Rightarrow> bool" where
  "only_parent t p V V' = (only_chain t p V V' \<and> (V' t p = None) = (V t p = None))"

lemma only_parent_refl [simp]: "only_parent t p V V"
  by (simp add: only_parent_def)

lemma only_parent_trans: "only_parent t p V V' \<Longrightarrow> only_parent t p V' V'' \<Longrightarrow> only_parent t p V V''"
  unfolding only_parent_def by (auto intro: only_chain_trans)

lemma delete_only_parent:
  assumes "filter_contract R view rule" "chain_word p" "spec_word spec" "runTable R t ([''-D'', p] @ spec) k = (e, k')"
  shows "only_parent t p (view k) (view k')"
  using run_delete [OF assms] by (auto simp: only_parent_def)

lemma has_jump_nonempty: "has_jump chain prev fs \<Longrightarrow> fs \<noteq> []"
  by (cases fs) auto

lemma ignoring_only_parent:
  assumes "filter_contract R view rule" "chain_word p"
  shows "\<forall>args \<in> set argss. \<exists>spec. args = [''-D'', p] @ spec \<and> spec_word spec \<Longrightarrow>
    only_parent t p (view k) (view (run_ignoring R t argss k))"
proof (induction argss arbitrary: k)
  case (Cons args argss)
  then obtain spec where spec: "args = [''-D'', p] @ spec" "spec_word spec" by auto
  obtain e k1 where run: "runTable R t ([''-D'', p] @ spec) k = (e, k1)" by fastforce
  have "only_parent t p (view k) (view k1)" by (rule delete_only_parent [OF assms spec(2) run])
  moreover have "only_parent t p (view k1) (view (run_ignoring R t argss k1))" using Cons by simp
  moreover have "run_ignoring R t (args # argss) k = run_ignoring R t argss k1"
    using run spec(1) by simp
  ultimately show ?case using only_parent_trans by metis
qed simp

lemma delete_jumps:
  assumes "filter_contract R view rule" "chain_word p"
  shows "\<exists>k'. deleteParentJumpsToChain R t c p k = Some k' \<and> only_parent t p (view k) (view k')"
proof -
  have all: "\<exists>k'. delete_all R t [''-D'', p, ''-j'', c] k = Some k' \<and> only_parent t p (view k) (view k')" for k
    using delete_all_spec [OF assms base_spec_words(7) [of "[c]"], of t k] by (auto simp: only_parent_def)
  obtain e1 k1 where r1: "runTable R t [''-L'', p, ''-n''] k = (e1, k1)" by fastforce
  have v1: "view k1 = view k" using run_list [OF assms r1] by simp
  obtain e2 k2 where r2: "runTableOutput R t [''-S'', p] k1 = (e2, k2)" by fastforce
  note pr = run_print [OF assms r2]
  have v2: "view k2 = view k" using pr v1 by simp
  show ?thesis
  proof (cases "e1 = None \<and> (\<exists>out. e2 = Inr out)")
    case False
    then have "deleteParentJumpsToChain R t c p k = Some k1 \<or>
        deleteParentJumpsToChain R t c p k = delete_all R t [''-D'', p, ''-j'', c] k2"
      using r1 r2 by (cases e1; cases e2) (auto simp: deleteParentJumpsToChain_def parentChainExists_def)
    then show ?thesis using all [of k2] v1 v2 by auto
  next
    case True
    then obtain out where out: "e2 = Inr out" by blast
    let ?argss = "List.map_filter (\<lambda>line. parentJumpDeleteArgs line p c) (split_byte newline out)"
    have "\<exists>spec. args = [''-D'', p] @ spec \<and> spec_word spec" if "args \<in> set ?argss" for args
    proof -
      obtain line where line: "line \<in> set (split_byte newline out)" "parentJumpDeleteArgs line p c = Some args"
        using \<open>args \<in> set ?argss\<close> by (auto simp: List.map_filter_def)
      then obtain fs where fs: "rule_fields line = [''-A'', p] @ fs" "has_jump c [] fs" "args = [''-D'', p] @ fs"
        by (auto simp: parentJumpDeleteArgs_def split: list.splits if_splits)
      then have "spec_word fs" using pr out line(1) has_jump_nonempty by blast
      then show ?thesis using fs(3) by blast
    qed
    then have "only_parent t p (view k2) (view (run_ignoring R t ?argss k2))"
      by (intro ignoring_only_parent [OF assms]) blast
    moreover have "deleteParentJumpsToChain R t c p k = delete_all R t [''-D'', p, ''-j'', c] (run_ignoring R t ?argss k2)"
      using True r1 r2 out by (simp add: deleteParentJumpsToChain_def parentChainExists_def)
    ultimately show ?thesis using all v2 only_parent_trans by metis
  qed
qed

lemma clear_table:
  assumes "filter_contract R view rule" "chain_word c" "\<forall>p \<in> set ps. chain_word p"
  shows "\<exists>k'. clearTCPPortAccessPolicyForTable R c ps t k = Some k' \<and> only_table t (view k) (view k')"
proof -
  have "\<exists>k1. each_opt (deleteParentJumpsToChain R t c) ps k = Some k1 \<and> only_table t (view k) (view k1)"
  proof (rule each_opt_Some [where P = "\<lambda>k1. only_table t (view k) (view k1)"])
    show "\<exists>k'. deleteParentJumpsToChain R t c p k1 = Some k' \<and> only_table t (view k) (view k')"
      if pin: "p \<in> set ps" and t1: "only_table t (view k) (view k1)" for p k1
    proof -
      obtain k' where "deleteParentJumpsToChain R t c p k1 = Some k'" "only_parent t p (view k1) (view k')"
        using delete_jumps [OF assms(1), of p t c k1] assms(3) pin by auto
      then show ?thesis using only_table_trans [OF t1 only_chain_table] by (auto simp: only_parent_def)
    qed
  qed simp
  then obtain k1 where k1: "each_opt (deleteParentJumpsToChain R t c) ps k = Some k1" "only_table t (view k) (view k1)" by blast
  obtain e2 k2 where r2: "runTable R t [''-F'', c] k1 = (e2, k2)" by fastforce
  obtain e3 k3 where r3: "runTable R t [''-X'', c] k2 = (e3, k3)" by fastforce
  have "only_table t (view k1) (view k2)" "only_table t (view k2) (view k3)"
    using run_chain(2) [OF assms(1,2) r2] run_chain(3) [OF assms(1,2) r3] by (auto simp: only_table_def split: if_splits)
  then have "only_table t (view k) (view k3)" using k1(2) only_table_trans by blast
  then show ?thesis using k1(1) r2 r3 by (simp add: clearTCPPortAccessPolicyForTable_def)
qed

definition jump_spec :: "string \<Rightarrow> int \<Rightarrow> string list" where
  "jump_spec c port = [''-p'', ''tcp'', ''--dport'', itoa port, ''-j'', c]"

lemma add_jump:
  assumes "filter_contract R view rule" "chain_word p" "addTCPPortJump R t p c port k = (e, k')"
  shows "only_parent t p (view k) (view k') \<and>
    (\<forall>rs. view k t p = Some rs \<longrightarrow> (\<exists>rs'. view k' t p = Some rs' \<and> set rs \<subseteq> set rs' \<and>
       (e = None \<longrightarrow> rule t (jump_spec c port) \<in> set rs')))"
proof -
  let ?j = "jump_spec c port"
  have w: "spec_word ?j" by (simp add: jump_spec_def base_spec_words)
  obtain e1 k1 where r1: "runTable R t ([''-C'', p] @ ?j) k = (e1, k1)" by fastforce
  obtain e2 k2 where r2: "runTable R t ([''-I'', p, nat_str 1] @ ?j) k1 = (e2, k2)" by fastforce
  have one: "nat_str 1 = ''1''" by code_simp
  note ch = run_check [OF assms(1,2) w r1] and ins = run_insert [OF assms(1,2) w r2]
  have "(e, k') = (if e1 = None then (None, k1) else (e2, k2))"
    using assms(3) r1 r2 one by (auto simp: addTCPPortJump_def jump_spec_def Let_def split: option.splits)
  then consider (there) "e = None" "k' = k1" "e1 = None" | (new) "e = e2" "k' = k2" by (auto split: if_splits)
  then show ?thesis
  proof cases
    case there
    then show ?thesis using ch by auto
  next
    case new
    from ins show ?thesis
    proof
      assume "e2 = None \<and> (\<exists>rs. view k1 t p = Some rs \<and> 1 \<le> (1::nat) \<and> 1 \<le> length rs + 1 \<and>
        view k2 = put_chain t p (Some (take (1 - 1) rs @ rule t ?j # drop (1 - 1) rs)) (view k1))"
      then obtain rs where "view k t p = Some rs" "view k' = put_chain t p (Some (rule t ?j # rs)) (view k)"
        using ch new by auto
      then show ?thesis by (auto simp: only_parent_def)
    qed (use ch new in auto)
  qed
qed

lemma add_jumps_spec:
  assumes "filter_contract R view rule" "chain_word p"
  shows "add_jumps R t p c ports k = (e, k') \<Longrightarrow> only_parent t p (view k) (view k') \<and>
    (\<forall>rs. view k t p = Some rs \<longrightarrow> (\<exists>rs'. view k' t p = Some rs' \<and> set rs \<subseteq> set rs' \<and>
       (e = None \<longrightarrow> (\<forall>port \<in> set ports. rule t (jump_spec c port) \<in> set rs'))))"
proof (induction ports arbitrary: k)
  case (Cons port ports)
  obtain e1 k1 where r1: "addTCPPortJump R t p c port k = (e1, k1)" by fastforce
  note a = add_jump [OF assms r1]
  show ?case
  proof (cases e1)
    case None
    then have "add_jumps R t p c ports k1 = (e, k')" using Cons.prems r1 by simp
    note ih = Cons.IH [OF this]
    have "only_parent t p (view k) (view k')" by (rule only_parent_trans [OF conjunct1 [OF a] conjunct1 [OF ih]])
    moreover have "\<exists>rs'. view k' t p = Some rs' \<and> set rs \<subseteq> set rs' \<and>
        (e = None \<longrightarrow> (\<forall>q \<in> set (port # ports). rule t (jump_spec c q) \<in> set rs'))" if rs: "view k t p = Some rs" for rs
    proof -
      obtain rs1 where rs1: "view k1 t p = Some rs1" "set rs \<subseteq> set rs1" "rule t (jump_spec c port) \<in> set rs1"
        using a rs None by blast
      obtain rs2 where "view k' t p = Some rs2" "set rs1 \<subseteq> set rs2"
        "e = None \<longrightarrow> (\<forall>port \<in> set ports. rule t (jump_spec c port) \<in> set rs2)" using ih rs1(1) by blast
      then show ?thesis using rs1 by (intro exI [of _ rs2]) auto
    qed
    ultimately show ?thesis by blast
  next
    case (Some x)
    then show ?thesis using a r1 Cons.prems by auto
  qed
qed simp

lemma relink_spec:
  assumes "filter_contract R view rule"
  shows "\<forall>p \<in> set ps. chain_word p \<Longrightarrow> \<exists>e k'. relink_parents R t c ports ps k = Some (e, k') \<and>
    only_table t (view k) (view k') \<and> (\<forall>q. (view k' t q = None) = (view k t q = None)) \<and>
    (\<forall>q. q \<notin> set ps \<longrightarrow> view k' t q = view k t q) \<and>
    (e = None \<longrightarrow> (\<forall>p \<in> set ps. view k t p \<noteq> None \<longrightarrow>
       (\<exists>rs. view k' t p = Some rs \<and> (\<forall>port \<in> set ports. rule t (jump_spec c port) \<in> set rs))))"
proof (induction ps arbitrary: k)
  case Nil
  then show ?case by simp
next
  case (Cons p ps)
  have w: "chain_word p" using Cons.prems by simp
  obtain e1 k1 where r1: "runTable R t [''-L'', p, ''-n''] k = (e1, k1)" by fastforce
  note l = run_list [OF assms w r1]
  have ex: "parentChainExists R t p k = (e1 = None, k1)" using r1 by (simp add: parentChainExists_def)
  show ?case
  proof (cases "e1 = None")
    case False
    then have "relink_parents R t c ports (p # ps) k = relink_parents R t c ports ps k1"
      using ex by (cases e1) auto
    moreover have "view k t p = None" "view k1 = view k" using l False by auto
    ultimately show ?thesis using Cons.IH [of k1] Cons.prems by auto
  next
    case True
    obtain k2 where d: "deleteParentJumpsToChain R t c p k1 = Some k2" "only_parent t p (view k1) (view k2)"
      using delete_jumps [OF assms w] by blast
    obtain e3 k3 where a: "add_jumps R t p c ports k2 = (e3, k3)" by fastforce
    note aj = add_jumps_spec [OF assms w a]
    have o3: "only_parent t p (view k) (view k3)"
      using l only_parent_trans [OF d(2) conjunct1 [OF aj]] by simp
    then have "only_table t (view k) (view k3)" and same: "view k3 t q = view k t q" if "q \<noteq> p" for q
      using that by (auto simp: only_parent_def only_chain_table) (simp_all add: only_chain_def)
    moreover have "(view k3 t q = None) = (view k t q = None)" for q
      using o3 same [of q] by (cases "q = p") (auto simp: only_parent_def)
    ultimately have u3: "only_table t (view k) (view k3)" "\<And>q. (view k3 t q = None) = (view k t q = None)"
      "\<And>q. q \<noteq> p \<Longrightarrow> view k3 t q = view k t q"
      using only_chain_table o3 by (auto simp: only_parent_def)
    show ?thesis
    proof (cases e3)
      case (Some x)
      then have "relink_parents R t c ports (p # ps) k = Some (Some x, k3)" using ex True d a by simp
      then show ?thesis using u3 by (intro exI [of _ "Some x"] exI [of _ k3]) auto
    next
      case None
      then have eq: "relink_parents R t c ports (p # ps) k = relink_parents R t c ports ps k3" using ex True d a by simp
      obtain e k' where ih: "relink_parents R t c ports ps k3 = Some (e, k')" "only_table t (view k3) (view k')"
        "\<forall>q. (view k' t q = None) = (view k3 t q = None)" "\<forall>q. q \<notin> set ps \<longrightarrow> view k' t q = view k3 t q"
        "e = None \<longrightarrow> (\<forall>p \<in> set ps. view k3 t p \<noteq> None \<longrightarrow>
           (\<exists>rs. view k' t p = Some rs \<and> (\<forall>port \<in> set ports. rule t (jump_spec c port) \<in> set rs)))"
        using Cons.IH [of k3] Cons.prems by auto
      have "\<exists>rs. view k' t q = Some rs \<and> (\<forall>port \<in> set ports. rule t (jump_spec c port) \<in> set rs)"
        if q: "e = None" "q \<in> set (p # ps)" "view k t q \<noteq> None" for q
      proof (cases "q \<in> set ps")
        case True
        then show ?thesis using ih(5) q u3(2) by simp
      next
        case False
        then have "q = p" "view k' t q = view k3 t q" using q ih(4) by auto
        moreover have "view k2 t p \<noteq> None" using q(3) l d(2) \<open>q = p\<close> by (auto simp: only_parent_def)
        ultimately show ?thesis using aj None by auto
      qed
      then show ?thesis
        unfolding eq using ih u3 by (intro exI [of _ e] exI [of _ k']) (auto intro: only_table_trans)
    qed
  qed
qed

section \<open>The chain of the policy\<close>

lemma plain_words: "plain_word ''-s''" "plain_word ''-j''" "plain_word ''ACCEPT''" "plain_word ''DROP''" "plain_word ''RETURN''"
  by code_simp+

lemma local_plain: "s \<in> set (localCIDRsForTable t) \<Longrightarrow> plain_word s"
proof -
  have "list_all plain_word localCIDRv4" "list_all plain_word localCIDRv6" by code_simp+
  then show "s \<in> set (localCIDRsForTable t) \<Longrightarrow> plain_word s" by (auto simp: localCIDRsForTable_def list_all_iff split: if_splits)
qed

text \<open>A policy as the normalisation leaves it.\<close>

definition policy_ok :: "access_policy \<Rightarrow> bool" where
  "policy_ok p = (chain_word (ap_Chain p) \<and> plain_word (ap_Chain p) \<and> (\<forall>q \<in> set (ap_ParentChains p). chain_word q) \<and>
     (\<forall>s \<in> set (ap_AllowSources p) \<union> set (ap_BlockSources p). trim_space s = s) \<and>
     ap_DefaultAction p \<in> {''DROP'', ''RETURN''})"

lemma rules_plain:
  assumes "policy_ok p" "spec \<in> set (policy_rules m t p)"
  shows "spec_word spec \<and> (\<forall>w \<in> set spec. plain_word w)"
proof -
  have "plain_word s" if "s \<in> set (policy_sources m t (ap_BlockSources p)) \<union> set (policy_sources m t (ap_AllowSources p))" for s
  proof -
    have "tableForAddress m s = Inr t" "trim_space s = s" using that assms(1) by (auto simp: policy_sources_def policy_ok_def)
    then show ?thesis using table_plain by metis
  qed
  then show ?thesis
    using assms plain_words local_plain
    by (auto simp: policy_rules_def source_rule_def policy_ok_def base_spec_words spec_word_def split: if_splits)
qed

lemma apply_policy:
  assumes "filter_contract R view rule" "policy_ok p" "applyTCPPortAccessPolicy R m t p k = (e, k')"
  shows "only_chain t (ap_Chain p) (view k) (view k') \<and>
    (e = None \<longrightarrow> view k' t (ap_Chain p) = Some (map (rule t) (policy_rules m t p)))"
proof -
  let ?c = "ap_Chain p" and ?cmd = "restoreCommandForTable t"
  have c: "normalizeChainName ?c DefaultSSHFirewallChain = ?c"
    using assms(2) trim_space_graph_all by (auto simp: normalizeChainName_def policy_ok_def plain_word_def)
  show ?thesis
  proof (cases "?cmd = []")
    case True
    then show ?thesis using assms(3) by (auto simp: applyTCPPortAccessPolicy_def runTableRestore_def Let_def)
  next
    case False
    then have t: "t \<in> {''iptables'', ''ip6tables''}" "?cmd = t @ ''-restore''"
      by (auto simp: restoreCommandForTable_def split: if_splits)
    obtain out ok k1 where run: "fr_input R (policy_script m t p) (t @ ''-restore'') [''--noflush''] k = ((out, ok), k1)"
      by (metis prod.exhaust)
    have "if ok then view k t ?c \<noteq> None \<and> view k1 = put_chain t ?c (Some (map (rule t) (policy_rules m t p))) (view k)
        else view k1 = view k"
      using assms(1,2) t(1) rules_plain [OF assms(2)] run
      unfolding filter_contract_def restore_law_def policy_script_def c Let_def policy_ok_def by blast
    moreover have "(e, k') = (if ok then None else Some Fw_Command_Failed, k1)"
      using assms(3) False run t(2) by (auto simp: applyTCPPortAccessPolicy_def runTableRestore_def Let_def split: if_splits)
    ultimately show ?thesis by (auto split: if_splits)
  qed
qed

text \<open>What holds of a table in which the policy is in force.\<close>

definition policy_up :: "(string \<Rightarrow> string list \<Rightarrow> 'r) \<Rightarrow> 'r tables \<Rightarrow> 'r tables \<Rightarrow> fw_manager \<Rightarrow> access_policy \<Rightarrow> string \<Rightarrow> bool" where
  "policy_up rule V0 V m p t =
     (V t (ap_Chain p) = Some (map (rule t) (policy_rules m t p)) \<and>
      (\<forall>q \<in> set (ap_ParentChains p). q \<noteq> ap_Chain p \<longrightarrow> V0 t q \<noteq> None \<longrightarrow>
         (\<exists>rs. V t q = Some rs \<and> (\<forall>port \<in> set (ap_Ports p). rule t (jump_spec (ap_Chain p) port) \<in> set rs))))"

lemma sync_spec:
  assumes "filter_contract R view rule" "policy_ok p"
  shows "distinct ts \<Longrightarrow> \<exists>e k'. sync_tables R m p active ts k = Some (e, k') \<and>
    (\<forall>t. t \<notin> set ts \<longrightarrow> view k' t = view k t) \<and>
    (e = None \<longrightarrow> (\<forall>t \<in> set ts \<inter> set active. policy_up rule (view k) (view k') m p t))"
proof (induction ts arbitrary: k)
  case Nil
  then show ?case by simp
next
  case (Cons t ts)
  let ?c = "ap_Chain p"
  have w: "chain_word ?c" "\<forall>q \<in> set (ap_ParentChains p). chain_word q" using assms(2) by (auto simp: policy_ok_def)
  have step: ?case
    if eq: "sync_tables R m p active (t # ts) k = sync_tables R m p active ts k1" and o: "only_table t (view k) (view k1)"
      and up: "t \<in> set active \<Longrightarrow> policy_up rule (view k) (view k1) m p t" for k1
  proof -
    obtain e k' where ih: "sync_tables R m p active ts k1 = Some (e, k')" "\<forall>t. t \<notin> set ts \<longrightarrow> view k' t = view k1 t"
      "e = None \<longrightarrow> (\<forall>t \<in> set ts \<inter> set active. policy_up rule (view k1) (view k') m p t)"
      using Cons.IH [of k1] Cons.prems by auto
    have "policy_up rule (view k) (view k') m p t'" if t': "e = None" "t' \<in> set (t # ts)" "t' \<in> set active" for t'
    proof (cases "t' = t")
      case True
      then have "view k' t = view k1 t" using ih(2) Cons.prems by simp
      then show ?thesis using up t' True by (simp add: policy_up_def)
    next
      case False
      then have "view k1 t' = view k t'" using o by (simp add: only_table_def)
      then show ?thesis using ih(3) t' False by (auto simp: policy_up_def)
    qed
    moreover have "view k' t' = view k t'" if "t' \<notin> set (t # ts)" for t'
      using that ih(2) o by (simp add: only_table_def)
    ultimately show ?thesis unfolding eq ih(1) by auto
  qed
  show ?case
  proof (cases "t \<in> set active")
    case False
    obtain k1 where "clearTCPPortAccessPolicyForTable R ?c (ap_ParentChains p) t k = Some k1" "only_table t (view k) (view k1)"
      using clear_table [OF assms(1) w] by blast
    then show ?thesis using False by (intro step [of k1]) auto
  next
    case True
    obtain e1 k1 where r1: "ensureChain R t ?c k = (e1, k1)" by fastforce
    have o1: "only_chain t ?c (view k) (view k1)" by (rule ensure_spec [OF assms(1) w(1) r1])
    obtain e2 k2 where r2: "relink_parents R t ?c (ap_Ports p) (ap_ParentChains p) k1 = Some (e2, k2)"
      "only_table t (view k1) (view k2)"
      "e2 = None \<longrightarrow> (\<forall>q \<in> set (ap_ParentChains p). view k1 t q \<noteq> None \<longrightarrow>
         (\<exists>rs. view k2 t q = Some rs \<and> (\<forall>port \<in> set (ap_Ports p). rule t (jump_spec ?c port) \<in> set rs)))"
      using relink_spec [OF assms(1) w(2)] by blast
    obtain e3 k3 where r3: "applyTCPPortAccessPolicy R m t p k2 = (e3, k3)" by fastforce
    note ap = apply_policy [OF assms r3]
    have o2: "only_table t (view k) (view k2)" using only_chain_table [OF o1] r2(2) by (rule only_table_trans)
    then have o3: "only_table t (view k) (view k3)" using ap only_chain_table only_table_trans by blast
    show ?thesis
    proof (cases "e1 = None \<and> e2 = None \<and> e3 = None")
      case True
      then have "sync_tables R m p active (t # ts) k = sync_tables R m p active ts k3"
        using \<open>t \<in> set active\<close> r1 r2(1) r3 by simp
      moreover have "policy_up rule (view k) (view k3) m p t"
        using ap r2(3) True o1 by (auto simp: policy_up_def only_chain_def)
      ultimately show ?thesis using o3 by (intro step [of k3]) auto
    next
      case False
      then obtain e' k' where "sync_tables R m p active (t # ts) k = Some (Some e', k')" "k' \<in> {k1, k2, k3}"
        using \<open>t \<in> set active\<close> r1 r2(1) r3 by (cases e1; cases e2; cases e3) auto
      moreover have "only_table t (view k) (view k1)" by (rule only_chain_table [OF o1])
      ultimately show ?thesis using o2 o3 by (auto simp: only_table_def)
    qed
  qed
qed

section \<open>The verdict\<close>

definition policy_verdict :: "(string \<Rightarrow> 'p \<Rightarrow> bool) \<Rightarrow> fw_manager \<Rightarrow> string \<Rightarrow> access_policy \<Rightarrow> 'p \<Rightarrow> string" where
  "policy_verdict from_net m t p pk =
     (if ap_IncludeLocalCIDRs p \<and> (\<exists>s \<in> set (localCIDRsForTable t). from_net s pk) then ''ACCEPT''
      else if \<exists>s \<in> set (policy_sources m t (ap_BlockSources p)). from_net s pk then ''DROP''
      else if \<exists>s \<in> set (policy_sources m t (ap_AllowSources p)). from_net s pk then ''ACCEPT''
      else ap_DefaultAction p)"

lemma first_hit_sources:
  assumes "\<And>s a. hit (rule t (source_rule s a)) pk = (if from_net s pk then Some a else None)"
  shows "first_hit hit (map (rule t) (map (\<lambda>s. source_rule s a) ss)) pk = (if \<exists>s \<in> set ss. from_net s pk then Some a else None)"
  by (induction ss) (auto simp: assms)

lemma verdict_of_rules:
  assumes "\<And>s a. hit (rule t (source_rule s a)) pk = (if from_net s pk then Some a else None)"
    and "\<And>a. hit (rule t [''-j'', a]) pk = Some a"
  shows "first_hit hit (map (rule t) (policy_rules m t p)) pk = Some (policy_verdict from_net m t p pk)"
  unfolding policy_rules_def map_append first_hit_append first_hit_sources [of hit rule t pk from_net, OF assms(1)]
  by (auto simp: policy_verdict_def assms(2))

lemma normalized_ok:
  assumes "normalized_policy U m policy = Inr p" "chain_word (ap_Chain p)" "plain_word (ap_Chain p)"
    "\<forall>q \<in> set (ap_ParentChains p). chain_word q"
  shows "policy_ok p"
proof -
  obtain ports act where eq: "normalizePorts (ap_Ports policy) = Inr ports" "normalizeDefaultAction U (ap_DefaultAction policy) = Inr act"
    and p: "ap_AllowSources p = normalizeSources U (ap_AllowSources policy)"
      "ap_BlockSources p = normalizeSources U (ap_BlockSources policy)" "ap_DefaultAction p = act"
    using assms(1) by (cases "normalizeDefaultAction U (ap_DefaultAction policy)")
      (auto simp: normalized_policy_def split: sum.splits)
  have "act \<in> {''DROP'', ''RETURN''}" using eq(2) by (auto simp: normalizeDefaultAction_def Let_def split: if_splits)
  moreover have "trim_space s = s" if "s \<in> set (normalizeSources U ss)" for s ss
    using dedup_on_sound [OF that [unfolded normalizeSources_def]] by (auto split: if_splits)
  ultimately show ?thesis using assms(2-4) p by (auto simp: policy_ok_def)
qed

text \<open>C15: synchronising the access policy always returns, and if it reports no error the host
  enforces it: every existing parent chain jumps to the chain for every port, and the chain decides
  as the policy says, local networks before blocked addresses before allowed ones before the default,
  whatever the chain held before and whatever the addresses look like.\<close>

theorem ssh_policy_enforced:
  assumes "filter_contract R view rule" "distinct (fm_tables m)" "normalized_policy U m policy = Inr p"
    and "chain_word (ap_Chain p)" "plain_word (ap_Chain p)" "\<forall>q \<in> set (ap_ParentChains p). chain_word q"
    and "tablesForAccessPolicy U m p = Inr tables" "ap_Ports p \<noteq> []" "t \<in> set tables"
    and "\<And>s a pk. hit (rule t (source_rule s a)) pk = (if from_net s pk then Some a else None)"
    and "\<And>a pk. hit (rule t [''-j'', a]) pk = Some a"
  shows "\<exists>e k'. SyncTCPPortAccessPolicy U R m policy k = Some (e, k') \<and>
    (e = None \<longrightarrow>
       (\<forall>q \<in> set (ap_ParentChains p). q \<noteq> ap_Chain p \<longrightarrow> view k t q \<noteq> None \<longrightarrow>
          (\<exists>rs. view k' t q = Some rs \<and> (\<forall>port \<in> set (ap_Ports p). rule t (jump_spec (ap_Chain p) port) \<in> set rs))) \<and>
       (\<exists>rs. view k' t (ap_Chain p) = Some rs \<and>
          (\<forall>pk. first_hit hit rs pk = Some (policy_verdict from_net m t p pk))))"
proof -
  have "tables \<noteq> []" using assms(9) by auto
  moreover have "t \<in> set (fm_tables m) \<inter> set tables"
    using assms(7,9) by (cases "active_tables m (ap_AllowSources p @ ap_BlockSources p)") (auto simp: tablesForAccessPolicy_def)
  ultimately have t: "t \<in> set (fm_tables m) \<inter> set tables" "tables \<noteq> []" by simp_all
  have "SyncTCPPortAccessPolicy U R m policy k = sync_tables R m p tables (fm_tables m) k"
    using assms(3,7,8) t(2) by (simp add: SyncTCPPortAccessPolicy_def)
  moreover obtain e k' where "sync_tables R m p tables (fm_tables m) k = Some (e, k')"
    "e = None \<longrightarrow> policy_up rule (view k) (view k') m p t"
    using sync_spec [OF assms(1) normalized_ok [OF assms(3-6)] assms(2), of m tables k] t(1) by blast
  ultimately show ?thesis
    using verdict_of_rules [of hit rule t _ from_net, OF assms(10,11)]
    by (intro exI [of _ e] exI [of _ k']) (auto simp: policy_up_def)
qed

definition sample_policy :: access_policy where
  "sample_policy =
     \<lparr>ap_Chain = [], ap_ParentChains = [''INPUT''], ap_Ports = [22], ap_AllowSources = [''203.0.113.0/24''],
      ap_BlockSources = ['' 203.0.113.9''], ap_IncludeLocalCIDRs = True, ap_DefaultAction = ''drop''\<rparr>"

definition sample_normal :: access_policy where
  "sample_normal =
     \<lparr>ap_Chain = ''FN-KNOCK-SSH'', ap_ParentChains = [''INPUT''], ap_Ports = [22], ap_AllowSources = [''203.0.113.0/24''],
      ap_BlockSources = [''203.0.113.9''], ap_IncludeLocalCIDRs = True, ap_DefaultAction = ''DROP''\<rparr>"

definition named_hit :: "string list \<Rightarrow> string \<Rightarrow> string option" where
  "named_hit spec pk =
     (if length spec = 4 then (if spec ! 1 = pk then Some (spec ! 3) else None)
      else if length spec = 2 then Some (spec ! 1) else None)"

theorem ssh_policy_enforced_witness:
  "\<exists>k' rs. SyncTCPPortAccessPolicy plain_unicode reference_filter sample_manager sample_policy sample_host = Some (None, k') \<and>
     k' ''iptables'' ''FN-KNOCK-SSH'' = Some rs \<and> first_hit named_hit rs ''203.0.113.9'' = Some ''DROP''"
proof -
  let ?s = "SyncTCPPortAccessPolicy plain_unicode reference_filter sample_manager sample_policy sample_host"
  have n: "normalized_policy plain_unicode sample_manager sample_policy = Inr sample_normal" by code_simp
  have t: "tablesForAccessPolicy plain_unicode sample_manager sample_normal = Inr [''iptables'']" by code_simp
  have v: "policy_verdict (=) sample_manager ''iptables'' sample_normal ''203.0.113.9'' = ''DROP''" by code_simp
  have w: "plain_word (ap_Chain sample_normal)" by code_simp
  have e: "map_option fst ?s = Some None" by code_simp
  have h: "named_hit (source_rule s a) pk = (if s = pk then Some a else None)" "named_hit [''-j'', a] pk = Some a" for s a pk
    by (simp_all add: named_hit_def source_rule_def numeral_3_eq_3)
  have "\<exists>e k'. ?s = Some (e, k') \<and> (e = None \<longrightarrow>
      (\<exists>rs. k' ''iptables'' (ap_Chain sample_normal) = Some rs \<and>
        (\<forall>pk. first_hit named_hit rs pk = Some (policy_verdict (=) sample_manager ''iptables'' sample_normal pk))))"
    using ssh_policy_enforced [where view = id and rule = "\<lambda>_. id" and hit = named_hit and from_net = "(=)" and t = "''iptables''",
        OF reference_contract sample_words(3) n _ w _ t, of sample_host]
    by (simp add: sample_normal_def chain_word_def h) blast
  then show ?thesis using e v by (auto simp: sample_normal_def)
qed

end
