(* ===== verification/FirewallList.thy ===== *)
theory FirewallList
  imports FirewallEffect
begin

text \<open>
  The list of rules that the administrator sees: which rules are read back from what the commands
  print, with their ports, and a network that is listed as a host.
\<close>

section \<open>Ports\<close>

lemma num_val_Cons: "num_val b dv (c # cs) = dv c * b ^ length cs + num_val b dv cs"
proof -
  have "foldl (\<lambda>a c. a * b + dv c) x cs = x * b ^ length cs + foldl (\<lambda>a c. a * b + dv c) 0 cs" for x
  proof (induction cs arbitrary: x)
    case (Cons d ds)
    from Cons [of "x * b + dv d"] Cons [of "dv d"] show ?case by (simp add: algebra_simps)
  qed simp
  from this [of "dv c"] show ?thesis by (simp add: num_val_def)
qed

lemma port_digits_iff:
  "0 \<le> acc \<Longrightarrow> acc \<le> max_int64 \<Longrightarrow> port_digits acc v = Some p \<longleftrightarrow>
     list_all is_digit v \<and> acc * 10 ^ length v + int (dec_val v) \<le> max_int64 \<and> p = acc * 10 ^ length v + int (dec_val v)"
proof (induction v arbitrary: acc)
  case Nil
  then show ?case by (auto simp: dec_val_def num_val_def)
next
  case (Cons c cs)
  let ?d = "int (digit_val c)" and ?a = "acc * 10 + int (digit_val c)"
  have v: "int (dec_val (c # cs)) = ?d * 10 ^ length cs + int (dec_val cs)"
    by (simp add: dec_val_def num_val_Cons)
  then have eq: "acc * 10 ^ length (c # cs) + int (dec_val (c # cs)) = ?a * 10 ^ length cs + int (dec_val cs)"
    by (simp add: algebra_simps)
  show ?case
  proof (cases "is_digit c")
    case True
    have d: "0 \<le> ?d" by simp
    show ?thesis
    proof (cases "(max_int64 - ?d) div 10 < acc")
      case True
      then have "max_int64 < ?a" by (simp add: max_int64_def)
      moreover have "?a * 1 \<le> ?a * 10 ^ length cs" using Cons.prems d by (intro mult_left_mono) auto
      ultimately show ?thesis using True \<open>is_digit c\<close> unfolding eq by simp
    next
      case False
      then have "?a \<le> max_int64" by (simp add: max_int64_def)
      then have "port_digits ?a cs = Some p \<longleftrightarrow> list_all is_digit cs \<and>
          ?a * 10 ^ length cs + int (dec_val cs) \<le> max_int64 \<and> p = ?a * 10 ^ length cs + int (dec_val cs)"
        using Cons.prems by (intro Cons.IH) auto
      then show ?thesis using False True unfolding eq by simp
    qed
  qed simp
qed

text \<open>The port parser accepts exactly the decimal numbers that fit an int, with their value,
  whatever their length.\<close>

theorem parsePortDigits_iff:
  "parsePortDigits v = Some p \<longleftrightarrow>
     v \<noteq> [] \<and> list_all is_digit v \<and> int (dec_val v) \<le> max_int64 \<and> p = int (dec_val v)"
  using port_digits_iff [of 0 v p] by (simp add: parsePortDigits_def max_int64_def)

section \<open>Printed rules\<close>

lemma parsePort_itoa: "0 < port \<Longrightarrow> port \<le> max_int64 \<Longrightarrow> parsePortDigits (itoa port) = Some port"
  using port_digits_iff [of 0 "itoa port" port] nat_str_digits
  by (auto simp: parsePortDigits_def itoa_def max_int64_def list_all_iff)


lemma trim_bits:
  assumes "CHR ''/'' \<notin> set ip" "bits \<in> {[], ''/32'', ''/128''}"
  shows "trimSuffix (trimSuffix (ip @ bits) ''/32'') ''/128'' = ip"
proof -
  have n: "\<not> suffix ''/32'' ip" "\<not> suffix ''/128'' ip" using assms(1) by (auto simp: suffix_def)
  have "\<not> suffix ''/32'' (ip @ ''/128'')" by (auto simp: suffix_def)
  then show ?thesis using assms(2) n by (auto simp: trimSuffix_def suffix_def)
qed

lemma option_field_none: "w \<notin> {''-s'', ''-p'', ''--dport'', ''-j''} \<Longrightarrow> option_field w = []"
  by (simp add: option_field_def)

lemma rule_parsed:
  assumes "plain_word c" "c \<notin> {''-s'', ''-p'', ''--dport'', ''-j''}" "plain_word ip" "CHR ''/'' \<notin> set ip"
    and "bits \<in> {[], ''/32'', ''/128''}" "action \<in> {''ACCEPT'', ''DROP''}" "0 < port" "port \<le> 65535"
    and "ip \<notin> {''-s'', ''-p'', ''--dport'', ''-j''}"
  shows "parseRuleLine U (join_str '' '' ([''-A'', c] @ source_rule (ip @ bits) action)) =
      Some \<lparr>ru_IP = ip, ru_Action = action, ru_Protocol = [], ru_Port = 0\<rparr> \<and>
    parseRuleLine U (join_str '' '' [''-A'', c, ''-s'', ip @ bits, ''-p'', ''tcp'', ''-m'', ''tcp'', ''--dport'', itoa port, ''-j'', action]) =
      Some \<lparr>ru_IP = ip, ru_Action = action, ru_Protocol = ''tcp'', ru_Port = port\<rparr>"
proof -
  have d: "parsePortDigits (itoa port) = Some port"
    using assms(7,8) by (simp add: parsePort_itoa max_int64_def)
  have ip: "ip @ bits \<notin> {''-s'', ''-p'', ''--dport'', ''-j''}" "ip \<noteq> []"
    using assms(3,4,5,9) by (auto simp: plain_word_def)
  have nodash: "CHR ''-'' \<notin> set (itoa port)"
    using assms(7) nat_str_digits [of "CHR ''-''" "nat port"] by (auto simp: itoa_def is_digit_def byte_def)
  have "CHR ''-'' \<in> set x" if "x \<in> {''-s'', ''-p'', ''--dport'', ''-j''}" for x using that by auto
  then have port: "itoa port \<notin> {''-s'', ''-p'', ''--dport'', ''-j''}" using nodash by blast
  have sp: "\<forall>c \<in> set (itoa port). \<not> isASCIISpace c" "itoa port \<noteq> []"
    using assms(7) nat_str_digits by (fastforce simp: itoa_def is_digit_def isASCIISpace_def)+
  have bits: "\<forall>c \<in> set bits. \<not> isASCIISpace c" using assms(5) by (auto simp: isASCIISpace_def byte_def)
  have lit: "\<forall>w \<in> {''-A'', ''-s'', ''-j'', ''-p'', ''tcp'', ''-m'', ''--dport'', ''ACCEPT'', ''DROP''}. \<forall>c \<in> set w. \<not> isASCIISpace c"
    by code_simp
  note words = plain_no_space [OF assms(1)] plain_no_space [OF assms(3)]
  have f1: "rule_fields (join_str '' '' ([''-A'', c] @ source_rule (ip @ bits) action)) = [''-A'', c, ''-s'', ip @ bits, ''-j'', action]"
    by (subst rule_fields_words) (use words bits lit assms(6) in \<open>auto simp: source_rule_def\<close>)
  have f2: "rule_fields (join_str '' '' [''-A'', c, ''-s'', ip @ bits, ''-p'', ''tcp'', ''-m'', ''tcp'', ''--dport'', itoa port, ''-j'', action]) =
      [''-A'', c, ''-s'', ip @ bits, ''-p'', ''tcp'', ''-m'', ''tcp'', ''--dport'', itoa port, ''-j'', action]"
    by (subst rule_fields_words) (use words bits lit assms(6) sp in auto)
  have l: "to_lower U ''tcp'' = ''tcp''" by (simp add: to_lower_def is_ascii_def lowerASCII_def byte_def)
  have none: "option_field c = []" "option_field (ip @ bits) = []" "option_field (itoa port) = []" "option_field action = []"
    using assms(2,6) ip port by (auto simp: option_field_def)
  have some: "option_field ''-s'' = ''-s''" "option_field ''-j'' = ''-j''" "option_field ''-p'' = ''-p''"
    "option_field ''--dport'' = ''--dport''" "option_field ''tcp'' = []" "option_field ''-m'' = []" "option_field ''-A'' = []"
    by (simp_all add: option_field_def)
  have take: "take_field U [] x r = r" "take_field U ''-s'' (ip @ bits) r = r\<lparr>ru_IP := ip\<rparr>"
    "take_field U ''-p'' ''tcp'' r = r\<lparr>ru_Protocol := ''tcp''\<rparr>" "take_field U ''--dport'' (itoa port) r = r\<lparr>ru_Port := port\<rparr>"
    "take_field U ''-j'' action r = r\<lparr>ru_Action := action\<rparr>" for x r
    using trim_bits [OF assms(4,5)] by (simp_all add: take_field_def l d)
  show ?thesis
    unfolding parseRuleLine_def f1 f2 scan_fields.simps none some take Let_def
    using ip(2) assms(6) by auto
qed

lemma rule_listed:
  assumes "plain_word c" "c \<notin> {''-s'', ''-p'', ''--dport'', ''-j''}" "plain_word ip" "CHR ''/'' \<notin> set ip"
    and "action \<in> {''ACCEPT'', ''DROP''}" "ip \<notin> {''-s'', ''-p'', ''--dport'', ''-j''}"
  shows "parseRuleLine U (join_str '' '' ([''-A'', c] @ source_rule (ip @ ''/32'') action)) =
      Some \<lparr>ru_IP = ip, ru_Action = action, ru_Protocol = [], ru_Port = 0\<rparr>"
  using rule_parsed [OF assms(1-4) _ assms(5) _ _ assms(6), of "''/32''" 1 U] by simp

text \<open>A rule for an address or for a port of an address, as the commands print it, is listed with
  its address, action and port.\<close>

theorem printed_rule_listed:
  assumes "plain_word c" "c \<notin> {''-s'', ''-p'', ''--dport'', ''-j''}" "plain_word ip" "CHR ''/'' \<notin> set ip"
    and "bits \<in> {[], ''/32'', ''/128''}" "action \<in> {''ACCEPT'', ''DROP''}" "0 < port" "port \<le> 65535"
    and "ip \<notin> {''-s'', ''-p'', ''--dport'', ''-j''}"
  shows "parseRuleLine U (join_str '' '' ([''-A'', c] @ source_rule (ip @ bits) action)) =
      Some \<lparr>ru_IP = ip, ru_Action = action, ru_Protocol = [], ru_Port = 0\<rparr> \<and>
    parseRuleLine U (join_str '' '' [''-A'', c, ''-s'', ip @ bits, ''-p'', ''tcp'', ''-m'', ''tcp'', ''--dport'', itoa port, ''-j'', action]) =
      Some \<lparr>ru_IP = ip, ru_Action = action, ru_Protocol = ''tcp'', ru_Port = port\<rparr>"
  by (rule rule_parsed [OF assms])

theorem printed_rule_listed_witness:
  "parseRuleLine plain_unicode ''-A REAUTH_FW -s 203.0.113.9/32 -p tcp -m tcp --dport 22 -j DROP'' =
     Some \<lparr>ru_IP = ''203.0.113.9'', ru_Action = ''DROP'', ru_Protocol = ''tcp'', ru_Port = 22\<rparr>"
proof -
  have "plain_word ''REAUTH_FW''" "plain_word ''203.0.113.9''" "itoa 22 = ''22''" by code_simp+
  then show ?thesis
    using printed_rule_listed [of "''REAUTH_FW''" "''203.0.113.9''" "''/32''" "''DROP''" 22 plain_unicode] by simp
qed

text \<open>A network of 2^96 addresses is listed as one host. The prefix length 32 is cut off the
  address of an IPv6 network as if it were that of a host, and removing the listed address leaves
  the rule of the network in the chain.\<close>

theorem ipv6_network_listed_as_host:
  assumes "filter_contract R view rule" "chain_word (fm_Chain m)" "plain_word (fm_Chain m)" "plain_word ip" "CHR '':'' \<in> set ip"
    and "CHR ''/'' \<notin> set ip" "action \<in> {''ACCEPT'', ''DROP''}" "tableForAddress m ip = Inr t"
    and "view k t (fm_Chain m) = Some rs" "rule t (source_rule (ip @ ''/32'') action) \<in> set rs"
    and "\<forall>a \<in> {''ACCEPT'', ''DROP''}. rule t (source_rule ip a) \<noteq> rule t (source_rule (ip @ ''/32'') action)"
  shows "\<exists>r. parseRuleLine U (join_str '' '' ([''-A'', fm_Chain m] @ source_rule (ip @ ''/32'') action)) = Some r \<and>
    ru_IP r = ip \<and> (\<exists>rs'. view (snd (RemoveIPRule R m (ru_IP r) k)) t (fm_Chain m) = Some rs' \<and>
      rule t (source_rule (ip @ ''/32'') action) \<in> set rs')"
proof -
  have "fm_Chain m \<notin> {''-s'', ''-p'', ''--dport'', ''-j''}" using assms(2) by (auto simp: chain_word_def)
  moreover have "ip \<notin> {''-s'', ''-p'', ''--dport'', ''-j''}" using assms(5) by auto
  ultimately have p: "parseRuleLine U (join_str '' '' ([''-A'', fm_Chain m] @ source_rule (ip @ ''/32'') action)) =
      Some \<lparr>ru_IP = ip, ru_Action = action, ru_Protocol = [], ru_Port = 0\<rparr>"
    using rule_listed assms(3,4,6,7) by blast
  have "rule t (source_rule (ip @ ''/32'') action) \<in>
      set (remove1 (rule t (source_rule ip ''DROP'')) (remove1 (rule t (source_rule ip ''ACCEPT'')) rs))"
    using assms(10,11) by (metis in_set_remove1 insertCI)
  then show ?thesis
    unfolding p using remove_ip_view [OF assms(1,2,8,9)] by simp
qed

definition six_manager :: fw_manager where
  "six_manager =
     \<lparr>fm_Chain = ''REAUTH_FW'', fm_ParentChains = [], fm_ExemptPorts = [], fm_tables = [''ip6tables''], fm_skipped = []\<rparr>"

definition six_host :: "string list tables" where
  "six_host = put_chain ''ip6tables'' ''REAUTH_FW'' (Some [source_rule ''2001:db8::/32'' ''DROP'']) (\<lambda>_ _. None)"

theorem ipv6_network_listed_as_host_witness:
  "\<exists>rs'. snd (RemoveIPRule reference_filter six_manager ''2001:db8::'' six_host) ''ip6tables'' ''REAUTH_FW'' = Some rs' \<and>
     source_rule ''2001:db8::/32'' ''DROP'' \<in> set rs'"
proof -
  have a: "plain_word (fm_Chain six_manager)" "plain_word ''2001:db8::''" by code_simp+
  let ?gs = "[8193, 3512, 0, 0, 0, 0, 0, 0] :: nat list"
  have "parse_v6_body ''2001:db8::'' = Some ?gs" "cut_byte CHR ''%'' ''2001:db8::'' = (''2001:db8::'', [], False)"
    "find (\<lambda>c. c = CHR ''.'' \<or> c = CHR '':'' \<or> c = CHR ''%'') ''2001:db8::'' = Some CHR '':''" by code_simp+
  then have "parse_addr ''2001:db8::'' = Some (V6 (v6_of ?gs) [])" by (simp add: parse_addr_def parse_v6_def)
  then have "net_parse_ip ''2001:db8::'' = Some (V6 (v6_of ?gs) [])"
    by (simp add: net_parse_ip_def is_4in6_def v6_groups_of)
  moreover have "trim_space ''2001:db8::'' = ''2001:db8::''" by code_simp
  ultimately have t: "tableForAddress six_manager ''2001:db8::'' = Inr ''ip6tables''"
    by (simp add: tableForAddress_def Let_def hasTable_def six_manager_def)
  have c: "chain_word (fm_Chain six_manager)" "fm_Chain six_manager = ''REAUTH_FW''" by (simp_all add: six_manager_def chain_word_def)
  have k: "six_host ''ip6tables'' ''REAUTH_FW'' = Some [source_rule ''2001:db8::/32'' ''DROP'']" by (simp add: six_host_def)
  have n: "\<forall>a \<in> {''ACCEPT'', ''DROP''}. source_rule ''2001:db8::'' a \<noteq> source_rule ''2001:db8::/32'' ''DROP''"
    by (simp add: source_rule_def)
  show ?thesis
    using ipv6_network_listed_as_host [where view = id and rule = "\<lambda>_. id" and ip = "''2001:db8::''" and action = "''DROP''"
        and t = "''ip6tables''" and k = six_host and U = plain_unicode, OF reference_contract c(1) a] t c(2) k n
    by auto
qed

end
