(* ===== verification/FirewallAdmin.thy ===== *)
theory FirewallAdmin
  imports FirewallSsh FirewallList ConfigStore
begin

text \<open>
  The administration of the packet filter, \<^verbatim>\<open>iptables/handler.go\<close>: one definition per handler, from
  the decoded request to the answer.  A request that does not decode is None; what
  \<^verbatim>\<open>encoding/json\<close> makes of a list of ports is a value of \<open>port_json\<close>, in the order in which
  the source tries the types.
\<close>

section \<open>Requests and answers\<close>

datatype fw_reply = Reply_OK | Reply_Rules "fw_rule list" | Reply_Error int

fun error_code :: "fw_error \<Rightarrow> int" where
  "error_code Fw_Bad_Request = 400"
| "error_code Fw_Init_Failed = 30001"
| "error_code Fw_Command_Failed = 30002"
| "error_code Fw_Parse_Failed = 30003"

definition CodeInvalidJSON :: int where
  "CodeInvalidJSON = 10003"

definition CodeInternal :: int where
  "CodeInternal = 500"

definition fw_reply_of :: "fw_error option \<Rightarrow> fw_reply" where
  "fw_reply_of e = (case e of None \<Rightarrow> Reply_OK | Some err \<Rightarrow> Reply_Error (error_code err))"

datatype port_json = PJ_Strings "string list" | PJ_Numbers "int list" | PJ_String string | PJ_Other

fun port_list :: "port_json \<Rightarrow> string list option" where
  "port_list (PJ_Strings ss) = Some (filter (\<lambda>s. s \<noteq> []) (map trim_space ss))"
| "port_list (PJ_Numbers ns) = Some (map itoa (filter (\<lambda>n. 0 < n) ns))"
| "port_list (PJ_String s) = Some (splitCommaSeparated s)"
| "port_list PJ_Other = None"

definition positive_parts :: "string \<Rightarrow> int list" where
  "positive_parts s = filter (\<lambda>n. 0 < n) (List.map_filter atoi (splitCommaSeparated s))"

fun int_port_list :: "port_json \<Rightarrow> int list option" where
  "int_port_list (PJ_Numbers ns) = Some (filter (\<lambda>n. 0 < n) ns)"
| "int_port_list (PJ_Strings ss) = Some (concat (map positive_parts ss))"
| "int_port_list (PJ_String s) = Some (positive_parts s)"
| "int_port_list PJ_Other = None"

record init_request =
  iq_ChainName :: string
  iq_ParentChain :: "parent_value option"
  iq_ExemptPorts :: "string list option"

record ssh_request =
  sq_ChainName :: string
  sq_ParentChain :: parent_value
  sq_Ports :: "int list"
  sq_AllowedCIDRs :: "string list"
  sq_BlockedIPs :: "string list"
  sq_IncludeLocalCIDRs :: "bool option"

section \<open>Starting\<close>

definition init_manager :: "init_request \<Rightarrow> fw_manager \<Rightarrow> fw_manager" where
  "init_manager req m =
     (let m1 = (if iq_ChainName req \<noteq> [] then m\<lparr>fm_Chain := iq_ChainName req\<rparr> else m);
          parents = (case iq_ParentChain req of None \<Rightarrow> [] | Some v \<Rightarrow> parseParentChains v);
          m2 = (if parents \<noteq> [] then m1\<lparr>fm_ParentChains := parents\<rparr> else m1)
      in (case iq_ExemptPorts req of None \<Rightarrow> m2 | Some ports \<Rightarrow> m2\<lparr>fm_ExemptPorts := ports\<rparr>))"

text \<open>A body that is missing or does not decode starts the chain with the settings there are.\<close>

definition HandleInit :: "unicode \<Rightarrow> 'd codec \<Rightarrow> 'k fw_runner \<Rightarrow> init_request option \<Rightarrow> fw_manager \<Rightarrow> 'd config_world \<Rightarrow> 'k \<Rightarrow>
    fw_reply \<times> fw_manager \<times> 'd config_world \<times> 'k" where
  "HandleInit U K R req m w k =
     (let m1 = (case req of None \<Rightarrow> m | Some r \<Rightarrow> init_manager r m);
          chainName = (case req of None \<Rightarrow> [] | Some r \<Rightarrow> iq_ChainName r)
      in (case fw_Init U R m1 k of
            (Some e, m2, k1) \<Rightarrow> (Reply_Error (error_code e), m2, w, k1)
          | (None, m2, k1) \<Rightarrow>
              if chainName = [] then (Reply_OK, m2, w, k1)
              else (case config_Update U K (\<lambda>cfg. Some (cfg\<lparr>ap_IptablesChainName := chainName\<rparr>)) w of
                      (Some _, w1) \<Rightarrow> (Reply_Error CodeInternal, m2, w1, k1)
                    | (None, w1) \<Rightarrow> (Reply_OK, m2, w1, k1))))"

definition HandleClean :: "'k fw_runner \<Rightarrow> fw_manager \<Rightarrow> 'k \<Rightarrow> (fw_reply \<times> 'k) option" where
  "HandleClean R m k = map_option (Pair Reply_OK) (fw_Destroy R m k)"

definition HandleFlush :: "unicode \<Rightarrow> 'k fw_runner \<Rightarrow> fw_manager \<Rightarrow> 'k \<Rightarrow> fw_reply \<times> fw_manager \<times> 'k" where
  "HandleFlush U R m k = (case fw_Flush U R m k of (e, m1, k1) \<Rightarrow> (fw_reply_of e, m1, k1))"

section \<open>Addresses and ports\<close>

text \<open>What the three handlers of an address share.\<close>

definition with_ip :: "string option \<Rightarrow> (string \<Rightarrow> 'k \<Rightarrow> fw_error option \<times> 'k) \<Rightarrow> 'k \<Rightarrow> fw_reply \<times> 'k" where
  "with_ip req f k =
     (case req of
        None \<Rightarrow> (Reply_Error CodeInvalidJSON, k)
      | Some ip \<Rightarrow>
          if ip = [] then (Reply_Error (error_code Fw_Bad_Request), k)
          else (case f ip k of (e, k1) \<Rightarrow> (fw_reply_of e, k1)))"

definition HandleAllowIP :: "'k fw_runner \<Rightarrow> fw_manager \<Rightarrow> string option \<Rightarrow> 'k \<Rightarrow> fw_reply \<times> 'k" where
  "HandleAllowIP R m req k = with_ip req (AllowIP R m) k"

definition HandleBlockIP :: "'k fw_runner \<Rightarrow> fw_manager \<Rightarrow> string option \<Rightarrow> 'k \<Rightarrow> fw_reply \<times> 'k" where
  "HandleBlockIP R m req k = with_ip req (BlockIP R m) k"

definition HandleRemoveIP :: "'k fw_runner \<Rightarrow> fw_manager \<Rightarrow> string option \<Rightarrow> 'k \<Rightarrow> fw_reply \<times> 'k" where
  "HandleRemoveIP R m req k = with_ip req (RemoveIPRule R m) k"

definition with_port :: "(string \<times> int) option \<Rightarrow> (string \<Rightarrow> int \<Rightarrow> 'k \<Rightarrow> (fw_error option \<times> 'k) option) \<Rightarrow> 'k \<Rightarrow> (fw_reply \<times> 'k) option" where
  "with_port req f k =
     (case req of
        None \<Rightarrow> Some (Reply_Error CodeInvalidJSON, k)
      | Some (ip, port) \<Rightarrow>
          if trim_space ip = [] then Some (Reply_Error (error_code Fw_Bad_Request), k)
          else map_option (\<lambda>(e, k1). (fw_reply_of e, k1)) (f ip port k))"

definition HandleBlockTCPPortForIP :: "'k fw_runner \<Rightarrow> fw_manager \<Rightarrow> (string \<times> int) option \<Rightarrow> 'k \<Rightarrow> (fw_reply \<times> 'k) option" where
  "HandleBlockTCPPortForIP R m req k = with_port req (BlockTCPPortForIP R m) k"

definition HandleRemoveTCPPortRule :: "'k fw_runner \<Rightarrow> fw_manager \<Rightarrow> (string \<times> int) option \<Rightarrow> 'k \<Rightarrow> (fw_reply \<times> 'k) option" where
  "HandleRemoveTCPPortRule R m req k = with_port req (RemoveTCPPortRule R m) k"

definition HandleBlockAll :: "'k fw_runner \<Rightarrow> fw_manager \<Rightarrow> 'k \<Rightarrow> (fw_reply \<times> 'k) option" where
  "HandleBlockAll R m k = map_option (\<lambda>(e, k1). (fw_reply_of e, k1)) (BlockAll R m k)"

definition HandleAllowAll :: "'k fw_runner \<Rightarrow> fw_manager \<Rightarrow> 'k \<Rightarrow> (fw_reply \<times> 'k) option" where
  "HandleAllowAll R m k = map_option (Pair Reply_OK) (AllowAll R m k)"

definition HandleEnsureTCPRedirect :: "'k fw_runner \<Rightarrow> fw_manager \<Rightarrow> (int \<times> int) option \<Rightarrow> 'k \<Rightarrow> (fw_reply \<times> 'k) option" where
  "HandleEnsureTCPRedirect R m req k =
     (case req of
        None \<Rightarrow> Some (Reply_Error CodeInvalidJSON, k)
      | Some (l, t) \<Rightarrow> map_option (\<lambda>(e, k1). (fw_reply_of e, k1)) (EnsureTCPRedirect R m l t k))"

definition HandleClearTCPRedirect :: "'k fw_runner \<Rightarrow> fw_manager \<Rightarrow> (int \<times> int) option \<Rightarrow> 'k \<Rightarrow> (fw_reply \<times> 'k) option" where
  "HandleClearTCPRedirect R m req k =
     (case req of
        None \<Rightarrow> Some (Reply_Error CodeInvalidJSON, k)
      | Some (l, t) \<Rightarrow> map_option (\<lambda>(e, k1). (fw_reply_of e, k1)) (ClearTCPRedirect R m l t k))"

definition HandleList :: "unicode \<Rightarrow> 'k fw_runner \<Rightarrow> fw_manager \<Rightarrow> 'k \<Rightarrow> fw_reply \<times> 'k" where
  "HandleList U R m k =
     (case ParseRules U R m k of
        (Inl e, k1) \<Rightarrow> (Reply_Error (error_code e), k1)
      | (Inr rules, k1) \<Rightarrow> (Reply_Rules rules, k1))"

section \<open>SSH\<close>

definition ssh_chain :: "string \<Rightarrow> string" where
  "ssh_chain name = (if trim_space name = [] then DefaultSSHFirewallChain else name)"

definition ssh_parents :: "parent_value \<Rightarrow> string list" where
  "ssh_parents v = (if parseParentChains v = [] then [''INPUT'', ''DOCKER-USER''] else parseParentChains v)"

definition ssh_policy :: "ssh_request \<Rightarrow> access_policy" where
  "ssh_policy req =
     \<lparr>ap_Chain = ssh_chain (sq_ChainName req), ap_ParentChains = ssh_parents (sq_ParentChain req), ap_Ports = sq_Ports req,
      ap_AllowSources = sq_AllowedCIDRs req, ap_BlockSources = sq_BlockedIPs req,
      ap_IncludeLocalCIDRs = (case sq_IncludeLocalCIDRs req of None \<Rightarrow> True | Some b \<Rightarrow> b),
      ap_DefaultAction = (if sq_AllowedCIDRs req \<noteq> [] then ''DROP'' else ''RETURN'')\<rparr>"

definition HandleSyncSSHFirewall :: "unicode \<Rightarrow> 'k fw_runner \<Rightarrow> fw_manager \<Rightarrow> ssh_request option \<Rightarrow> 'k \<Rightarrow> (fw_reply \<times> 'k) option" where
  "HandleSyncSSHFirewall U R m req k =
     (case req of
        None \<Rightarrow> Some (Reply_Error CodeInvalidJSON, k)
      | Some r \<Rightarrow> map_option (\<lambda>(e, k1). (fw_reply_of e, k1)) (SyncTCPPortAccessPolicy U R m (ssh_policy r) k))"

definition HandleClearSSHFirewall :: "'k fw_runner \<Rightarrow> fw_manager \<Rightarrow> (string \<times> parent_value) option \<Rightarrow> 'k \<Rightarrow> (fw_reply \<times> 'k) option" where
  "HandleClearSSHFirewall R m req k =
     (let r = (case req of None \<Rightarrow> ([], PV_Other) | Some r \<Rightarrow> r)
      in map_option (Pair Reply_OK) (ClearTCPPortAccessPolicy R m (ssh_chain (fst r)) (ssh_parents (snd r)) k))"

section \<open>The chain after a restart\<close>

lemma established_chain: "appendEstablishedRelatedRule U R t m k = (e, m', k') \<Longrightarrow> fm_Chain m' = fm_Chain m"
  by (auto simp: appendEstablishedRelatedRule_def setEstablishedRelatedRuleSkipped_def split: prod.splits option.splits if_splits)

lemma base_chain: "applyBaseRules U R t m k = (e, m', k') \<Longrightarrow> fm_Chain m' = fm_Chain m"
  by (auto simp: applyBaseRules_def split: prod.splits option.splits dest: established_chain)

lemma init_table_chain: "init_table U R t m k = (e, m', k') \<Longrightarrow> fm_Chain m' = fm_Chain m"
  by (auto simp: init_table_def reset_chain_def split: prod.splits option.splits dest: base_chain)

lemma init_chain: "each_table (init_table U R) err ts m k = (e, m', k') \<Longrightarrow> fm_Chain m' = fm_Chain m"
proof (induction ts arbitrary: m k)
  case (Cons t ts)
  obtain e1 m1 k1 where r: "init_table U R t m k = (e1, m1, k1)" by (metis prod_cases3)
  then show ?case using Cons init_table_chain [OF r] by (cases e1) auto
qed simp

text \<open>A chain that was started under a name of its own is the one the gateway manages after a
  restart: when the start is answered with success, the configuration that the next start loads
  names it.\<close>

theorem init_survives_restart:
  assumes "HandleInit U K R (Some req) m w k = (Reply_OK, m', w', k')" "iq_ChainName req \<noteq> []"
    and "loadUnlocked U K w = Inr (cfg, flags)" "url_stable cfg"
    and "codec_faithful K (with_defaults U (cfg\<lparr>ap_IptablesChainName := iq_ChainName req\<rparr>))"
  shows "\<exists>cfg' flags'. loadUnlocked U K w' = Inr (cfg', flags') \<and>
    fm_Chain (newFwManager (restart_options (ap_IptablesChainName cfg'))) = fm_Chain m'"
proof -
  let ?c = "with_defaults U (cfg\<lparr>ap_IptablesChainName := iq_ChainName req\<rparr>)"
  obtain b d l where flags: "flags = (b, d, l)" by (metis prod_cases3)
  obtain e m2 k2 where i: "fw_Init U R (init_manager req m) k = (e, m2, k2)" by (metis prod_cases3)
  then have "e = None" using assms(1) by (cases e) (auto simp: HandleInit_def Let_def)
  obtain e2 w1 where u: "config_Update U K (\<lambda>cfg. Some (cfg\<lparr>ap_IptablesChainName := iq_ChainName req\<rparr>)) w = (e2, w1)" by fastforce
  have "e2 = None" and eq: "m' = m2" "w' = w1"
    using assms(1,2) i u \<open>e = None\<close> by (auto simp: HandleInit_def Let_def split: option.splits)
  have chain: "fm_Chain m' = iq_ChainName req"
    using init_chain [OF i [unfolded fw_Init_def]] eq assms(2) by (simp add: init_manager_def Let_def split: option.split)
  have doc: "cw_file w' = Document (co_encode K ?c)"
    using u eq \<open>e2 = None\<close> assms(3) flags
    by (auto simp: config_Update_def Let_def applyDefaults_def saveUnlocked_def split: if_splits)
  have "with_defaults U ?c = ?c" by (rule with_defaults_idem) (use assms(4) in simp)
  then have "\<exists>flags'. loadUnlocked U K w' = Inr (fst (applyMissingAuthCacheDefaults ?c
      (ac_AuthCacheTTL (ap_AuthConfig ?c) \<noteq> 0) (ac_AuthCacheFailTTL (ap_AuthConfig ?c) \<noteq> 0)), flags')"
    using load_written [OF assms(5) _ doc] by blast
  moreover have "ap_IptablesChainName (fst (applyMissingAuthCacheDefaults ?c x y)) = iq_ChainName req" for x y
    by (simp add: applyMissingAuthCacheDefaults_def Let_def with_defaults_def)
  ultimately show ?thesis
    using chain assms(2) by (auto simp: newFwManager_def restart_options_def Let_def)
qed

theorem init_survives_restart_witness:
  "\<exists>m' w' k' cfg' flags'.
     HandleInit plain_unicode image_codec reference_filter
       (Some \<lparr>iq_ChainName = ''KNOCK_FW'', iq_ParentChain = None, iq_ExemptPorts = None\<rparr>) sample_manager empty_world sample_host
       = (Reply_OK, m', w', k') \<and>
     loadUnlocked plain_unicode image_codec w' = Inr (cfg', flags') \<and>
     fm_Chain (newFwManager (restart_options (ap_IptablesChainName cfg'))) = fm_Chain m'"
proof -
  let ?req = "\<lparr>iq_ChainName = ''KNOCK_FW'', iq_ParentChain = None, iq_ExemptPorts = None\<rparr>"
  let ?h = "HandleInit plain_unicode image_codec reference_filter (Some ?req) sample_manager empty_world sample_host"
  have url: "url_stable defaultConfig" by code_simp
  then obtain cfg flags where l: "loadUnlocked plain_unicode image_codec empty_world = Inr (cfg, flags)" "url_stable cfg"
    by (simp add: loadUnlocked_def)
  have "fst (fw_Init plain_unicode reference_filter (init_manager ?req sample_manager) sample_host) = None" by code_simp
  then obtain m' k' where i: "fw_Init plain_unicode reference_filter (init_manager ?req sample_manager) sample_host = (None, m', k')"
    by (metis prod.collapse)
  have "fst (config_Update plain_unicode image_codec (\<lambda>cfg. Some (cfg\<lparr>ap_IptablesChainName := ''KNOCK_FW''\<rparr>)) empty_world) = None"
    using l by (cases flags) (simp add: config_Update_def Let_def applyDefaults_def saveUnlocked_def)
  then obtain w' where "config_Update plain_unicode image_codec (\<lambda>cfg. Some (cfg\<lparr>ap_IptablesChainName := ''KNOCK_FW''\<rparr>)) empty_world =
      (None, w')" by (metis prod.collapse)
  then have h: "?h = (Reply_OK, m', w', k')" using i by (simp add: HandleInit_def Let_def)
  show ?thesis
    using init_survives_restart [OF h _ l image_codec_faithful] h by auto
qed

end
