(* ===== verification/Spec2Isabelle.thy ===== *)
theory Spec2Isabelle
  imports Throttle CidrPolicy Blacklist Cookies PublicUrl AuthTrace Preflight Responses
    WafRuntime ConfigStore Traffic LogWriter FirewallAdmin
begin

text \<open>
  A verification development for Go-Reauth-Proxy, a reverse proxy in Go that authenticates the
  requests it passes on. Paths below are under \<^verbatim>\<open>src/pkg\<close>.

  \<^bold>\<open>The program.\<close> \<^verbatim>\<open>proxy/handler.go\<close> holds the gateway. Every request takes one way
  through \<^verbatim>\<open>ServeHTTP\<close>: its client address is determined, blacklist and visibility
  are checked, a route is chosen by host, location and path, the throttle and the firewall are
  asked, the authentication service is asked for a preflight decision, and, if the route needs a
  login, for the permission; both answers are cached. The request then goes to the upstream of the
  rule, with its headers and URL rewritten, and the answer comes back, its page possibly rewritten.
  An administration interface replaces rules and settings while requests are served.

  \<^bold>\<open>The theories.\<close> Each models the files it names, with a definition per function under the
  name of the function.

    \<^item> \<open>Prelude\<close>, \<open>GoStrings\<close>, \<open>GoTime\<close>, \<open>Float64\<close>, \<open>NetAddr\<close>, \<open>NetUrl\<close>, \<open>Http\<close>, \<open>Sha256\<close>: what the source
      uses of Go and of its standard library: byte strings, \<^verbatim>\<open>strings\<close>, \<^verbatim>\<open>strconv\<close>,
      \<^verbatim>\<open>path\<close>, RFC 3339 times, float64 arithmetic, \<^verbatim>\<open>net/netip\<close>,
      \<^verbatim>\<open>net/url\<close>, header maps, SHA-256. Go's maps are association lists without repeated keys.
    \<^item> \<open>Ascii\<close>: \<^verbatim>\<open>proxy/ascii.go\<close>, the searches of \<^verbatim>\<open>waf/redact.go\<close>.
    \<^item> \<open>ClientIP\<close>, \<open>Throttle\<close>: \<^verbatim>\<open>proxy/reverse_proxy_throttle.go\<close>.
    \<^item> \<open>CidrPolicy\<close>: \<^verbatim>\<open>gateway_visibility.go\<close>, \<^verbatim>\<open>reverse_proxy_throttle_exempt_ips.go\<close>,
      \<^verbatim>\<open>common_location_exemptions.go\<close>.
    \<^item> \<open>Blacklist\<close>: \<^verbatim>\<open>general_blacklist.go\<close>.
    \<^item> \<open>Cookies\<close>, \<open>AuthCache\<close>: cookie identities (\<^verbatim>\<open>handler.go\<close>) and \<^verbatim>\<open>auth_cache.go\<close>.
    \<^item> \<open>PublicUrl\<close>, \<open>LoginUrl\<close>: \<^verbatim>\<open>public_url.go\<close> and the login redirects of \<^verbatim>\<open>handler.go\<close>.
    \<^item> \<open>AuthReply\<close>, \<open>AuthCheck\<close>, \<open>AuthTrace\<close>, \<open>Preflight\<close>: the dialogue with the authentication service.
    \<^item> \<open>Targets\<close>, \<open>HostNames\<close>, \<open>Routes\<close>: targets, host names, snapshots and the choice of a route.
    \<^item> \<open>RuleStore\<close>: the administration of rules and settings.
    \<^item> \<open>TargetPolicy\<close>, \<open>Upstream\<close>: \<^verbatim>\<open>forwarded_headers_config.go\<close>, \<^verbatim>\<open>preserve_host_config.go\<close>,
      \<^verbatim>\<open>upstream_private_ipv4.go\<close> and the rewriting of requests.
    \<^item> \<open>Serve\<close>: \<^verbatim>\<open>ServeHTTP\<close>, which composes the above.
    \<^item> \<open>HtmlRewrite\<close>, \<open>FnosIcons\<close>, \<open>Responses\<close>: the rewriting of answers (\<^verbatim>\<open>handler.go\<close>,
      \<^verbatim>\<open>fnos_port_icon_hijack.go\<close>) and the three proxying handlers.
    \<^item> \<open>Traffic\<close>: the counters of \<^verbatim>\<open>handler.go\<close>, per host and in total.
    \<^item> \<open>WafStore\<close>, \<open>WafConfig\<close>, \<open>WafRules\<close>, \<open>WafRuntime\<close>: package \<^verbatim>\<open>waf\<close>, the events, the configuration and
      redaction, the choice and filtering of rule files, the evaluation of a request. Its run time
      is an instance of the firewall that \<open>Serve\<close> asks (\<open>runtime_firewall\<close>).
    \<^item> \<open>ConfigStore\<close>, \<open>I18n\<close>: \<^verbatim>\<open>config/manager.go\<close> and the locales of \<^verbatim>\<open>i18n/i18n.go\<close>.
    \<^item> \<open>GoDate\<close>, \<open>LogScan\<close>, \<open>LogQuery\<close>, \<open>LogCursor\<close>: \<^verbatim>\<open>gatewaylog/manager.go\<close>, reading the access log
      forwards, backwards, by page and by cursor.
    \<^item> \<open>LogFiles\<close>, \<open>LogWriter\<close>: the same file, the writer of a file per day with its retention, the manager that
      logs, queries and deletes, and what is found of what was logged.
    \<^item> \<open>Firewall\<close>, \<open>FirewallPolicy\<close>, \<open>FirewallAdmin\<close>: \<^verbatim>\<open>iptables/manager.go\<close> and \<^verbatim>\<open>handler.go\<close>: the commands
      for the packet filter of the host, the access policy of the SSH ports, the handlers.
      \<open>FirewallRules\<close> states what the commands do and derives the effect of each operation, \<open>FirewallState\<close> that the
      base rules stay in front, \<open>FirewallEffect\<close> which rule decides, \<open>FirewallSsh\<close> that the policy is in force,
      \<open>FirewallList\<close> what is read back.

  \<^bold>\<open>State.\<close> A Go value shared behind a lock is a record that an operation takes and returns; the
  lock makes an operation one step. Calls that wait for the service between two steps are modelled
  as the steps before and after (\<open>auth_probe\<close>, \<open>auth_finish\<close>), and \<open>AuthTrace\<close> lets steps of other
  requests come in between. Errors are values of datatypes, without their messages. Integers that
  can overflow are wrapped at 64 bits (\<open>wrap64\<close>). No loop of the source has fuel: each is a recursion
  with a measure, except those that run a command until it fails, which are
  partial functions and are shown to return.

  \<^bold>\<open>Parameters.\<close> What is not under \<^verbatim>\<open>src\<close> or not code is an argument: case mapping outside of
  ASCII (\<open>unicode\<close>), JSON decoding (\<open>golib\<close>, \<open>json_lib\<close>), rounding to float64 (\<open>fl\<close>, with the locale
  \<open>float64\<close> and its instance), clock readings, the answers of the authentication service and of
  upstreams, the rule engine of the firewall (\<open>waf_engine\<close>), name resolution and network interfaces (\<open>net_env\<close>), the
  toolbar's HTML, the zone of the host (\<open>log_clock\<close>), the encoder of the logger, and the commands of the packet
  filter (\<open>fw_runner\<close>), whose documented behaviour is the hypothesis \<open>filter_contract\<close>, met by the executable
  \<open>reference_filter\<close>.

  \<^bold>\<open>What is shown.\<close> Claims are numbered and stand in the theory of the component. For the request
  path: no protected route is served without a permission, the gates come in order, the router
  implements first-of-the-longest matching with both of its search strategies. For authentication:
  a check fails closed, cached permissions go back to a success of the service and die with an
  invalidation, cache keys separate requests. For the throttle: blocks hold and rates are bounded in
  float64 arithmetic. For the administration: the rules in force always satisfy the checks and the
  snapshot in force is theirs. For lists, identities, URLs and pages: functional descriptions,
  round trips and invariants. For the firewall: when it refuses, that a refusal can be traced, that
  its events are one bounded queue and its rule filter exact. For the configuration file: what
  survives a restart. For the access log: every way of reading a page agrees, and following the
  cursors ends with every match given once, so what is logged is found. For the packet filter: its base rules stay
  in front, the newest rule of an address decides, the SSH policy is enforced as its lists say. Several claims state deviations from what is evidently meant.

  \<^bold>\<open>Not modelled.\<close> Debug events and access-log fields; TLS certificates; the stream proxy
  (\<^verbatim>\<open>stream\<close>), relays over network I/O; HTML templates (\<^verbatim>\<open>response\<close>); the handlers of
  \<^verbatim>\<open>admin\<close>, which decode JSON and call what is modelled; start-up, generated documentation.
\<close>

end
